(* ===== verification/Prelude.thy ===== *)
theory Prelude
  imports Complex_Main "HOL-Library.Word"
begin

text \<open>
  Shared vocabulary of the development: byte strings, the exceptions of the Python code as
  values, the result type with its sequencing combinator, big-endian encoding of the chunk
  index (\<^verbatim>\<open>int.to_bytes(4, "big")\<close>), Python's truth tests and slices, and the
  generic lemmas on lists and maps that the component theories share.
\<close>

named_theorems wire_simps \<open>sizes and shapes of what travels on the wire\<close>
named_theorems config_simps \<open>unfoldings of the six crypto configurations\<close>

section \<open>Byte strings\<close>

type_synonym byte = "8 word"
type_synonym bytes = "byte list"

text \<open>
  A Python \<^verbatim>\<open>str\<close> is modelled by its UTF-8 bytes, one \<open>char\<close> each;
  \<^verbatim>\<open>s.encode()\<close> is then a change of type.
\<close>

definition encode :: "string \<Rightarrow> bytes" where
  "encode s = map of_char s"

lemma unat_of_char_byte: "unat (of_char c :: byte) = of_char c"
proof -
  have "(of_char c :: byte) = word_of_nat (of_char c)"
    by (simp add: of_nat_of_char)
  then show ?thesis
    by (simp add: unat_of_nat)
qed

lemma encode_inj [simp]: "encode s = encode t \<longleftrightarrow> s = t"
proof -
  have "inj (of_char :: char \<Rightarrow> byte)"
    by (rule injI) (metis of_char_eq_iff unat_of_char_byte)
  then show ?thesis
    by (simp add: encode_def inj_map_eq_map)
qed

lemma length_encode [simp]: "length (encode s) = length s"
  by (simp add: encode_def)

section \<open>Exceptions and results\<close>

text \<open>The exception classes the modelled code raises or lets through.\<close>

datatype exn =
    KeyError | IndexError | ValueError | OverflowError | StructError | UnicodeError | BinasciiError
  | TypeError | AttributeError | AssertionError | RuntimeError | ZeroDivisionError | JSONDecodeError
  | InvalidTag | AEADError | OQSAdapterError
  | HTTPException nat | HTTPStatusError nat

type_synonym 'a res = "exn + 'a"

definition bind_res :: "'a res \<Rightarrow> ('a \<Rightarrow> 'b res) \<Rightarrow> 'b res" where
  "bind_res m f = (case m of Inl e \<Rightarrow> Inl e | Inr x \<Rightarrow> f x)"

lemma bind_res_simps [simp]:
  "bind_res (Inl e) f = Inl e"
  "bind_res (Inr x) f = f x"
  by (simp_all add: bind_res_def)

lemma bind_res_eq_Inr [simp]: "bind_res m f = Inr y \<longleftrightarrow> (\<exists>x. m = Inr x \<and> f x = Inr y)"
  by (cases m) auto

lemma bind_res_eq_Inl: "bind_res m f = Inl e \<longleftrightarrow> m = Inl e \<or> (\<exists>x. m = Inr x \<and> f x = Inl e)"
  by (cases m) auto

lemma map_sum_id_eq [simp]:
  "map_sum id f m = Inr y \<longleftrightarrow> (\<exists>x. m = Inr x \<and> y = f x)"
  "map_sum id f m = Inl e \<longleftrightarrow> m = Inl e"
  by (cases m; auto)+

text \<open>A dictionary subscript: \<^verbatim>\<open>d[k]\<close> raises \<open>KeyError\<close> on a missing key.\<close>

definition get_item :: "('k \<rightharpoonup> 'v) \<Rightarrow> 'k \<Rightarrow> 'v res" where
  "get_item d k = (case d k of None \<Rightarrow> Inl KeyError | Some v \<Rightarrow> Inr v)"

lemma get_item_simps [simp]:
  "d k = Some v \<Longrightarrow> get_item d k = Inr v"
  "d k = None \<Longrightarrow> get_item d k = Inl KeyError"
  by (simp_all add: get_item_def)

lemma get_item_eq_Inr: "get_item d k = Inr v \<longleftrightarrow> d k = Some v"
  by (simp add: get_item_def split: option.splits)

lemma get_item_eq_Inl: "get_item d k = Inl e \<longleftrightarrow> d k = None \<and> e = KeyError"
  by (auto simp: get_item_def split: option.splits)

text \<open>Traversal that stops at the first exception, as a Python list comprehension does.\<close>

fun map_res :: "('a \<Rightarrow> 'b res) \<Rightarrow> 'a list \<Rightarrow> 'b list res" where
  "map_res f [] = Inr []"
| "map_res f (x # xs) = bind_res (f x) (\<lambda>y. bind_res (map_res f xs) (\<lambda>ys. Inr (y # ys)))"

lemma map_res_length: "map_res f xs = Inr ys \<Longrightarrow> length ys = length xs"
  by (induction xs arbitrary: ys) auto

lemma map_res_nth: "map_res f xs = Inr ys \<Longrightarrow> i < length xs \<Longrightarrow> f (xs ! i) = Inr (ys ! i)"
proof (induction xs arbitrary: ys i)
  case (Cons x xs)
  then show ?case by (cases i) auto
qed simp

lemma map_res_Inr: "(\<And>x. x \<in> set xs \<Longrightarrow> f x = Inr (g x)) \<Longrightarrow> map_res f xs = Inr (map g xs)"
  by (induction xs) auto

section \<open>Python truth tests and slices\<close>

text \<open>\<^verbatim>\<open>x or y\<close> on an optional string: both \<^verbatim>\<open>None\<close> and the empty string are false.\<close>

definition str_or :: "string option \<Rightarrow> string \<Rightarrow> string" where
  "str_or x y = (case x of None \<Rightarrow> y | Some s \<Rightarrow> if s = '''' then y else s)"

lemma str_or_simps [simp]:
  "str_or None y = y" "s \<noteq> '''' \<Longrightarrow> str_or (Some s) y = s" "str_or (Some '''') y = y"
  by (simp_all add: str_or_def)

text \<open>Truth of an optional byte string, and of an optional integer.\<close>

definition truthy_bytes :: "bytes option \<Rightarrow> bool" where
  "truthy_bytes x = (case x of None \<Rightarrow> False | Some b \<Rightarrow> b \<noteq> [])"

lemma truthy_bytes_simps [simp]:
  "\<not> truthy_bytes None" "truthy_bytes (Some b) \<longleftrightarrow> b \<noteq> []"
  by (simp_all add: truthy_bytes_def)

definition truthy_int :: "int option \<Rightarrow> bool" where
  "truthy_int x = (case x of None \<Rightarrow> False | Some k \<Rightarrow> k \<noteq> 0)"

lemma truthy_int_simps [simp]:
  "\<not> truthy_int None" "truthy_int (Some k) \<longleftrightarrow> k \<noteq> 0"
  by (simp_all add: truthy_int_def)

section \<open>Big-endian 32-bit encoding\<close>

definition be32 :: "nat \<Rightarrow> bytes" where
  "be32 n = [word_of_nat (n div 2 ^ 24), word_of_nat (n div 2 ^ 16), word_of_nat (n div 2 ^ 8), word_of_nat n]"

fun from_be32 :: "bytes \<Rightarrow> nat" where
  "from_be32 [a, b, c, d] = unat a * 2 ^ 24 + unat b * 2 ^ 16 + unat c * 2 ^ 8 + unat d"
| "from_be32 _ = 0"

lemma length_be32 [simp]: "length (be32 n) = 4"
  by (simp add: be32_def)

lemma div_mod_byte: "(n::nat) div d = n div (d * 256) * 256 + n div d mod 256"
  by (metis div_mult2_eq div_mult_mod_eq)

lemma from_be32_be32:
  assumes "n < 2 ^ 32"
  shows "from_be32 (be32 n) = n"
proof -
  have top: "n div 16777216 mod 256 = n div 16777216"
    using assms by (simp add: div_less_iff_less_mult)
  have a: "n = n div 256 * 256 + n mod 256"
    by simp
  have b: "n div 256 = n div 65536 * 256 + n div 256 mod 256"
    using div_mod_byte [of n 256] by simp
  have c: "n div 65536 = n div 16777216 * 256 + n div 65536 mod 256"
    using div_mod_byte [of n 65536] by simp
  have "from_be32 (be32 n) =
      n div 16777216 * 16777216 + n div 65536 mod 256 * 65536 + n div 256 mod 256 * 256 + n mod 256"
    using top by (simp add: be32_def unat_of_nat)
  then show ?thesis
    using a b c by linarith
qed

lemma be32_inj: "m < 2 ^ 32 \<Longrightarrow> n < 2 ^ 32 \<Longrightarrow> be32 m = be32 n \<longleftrightarrow> m = n"
  by (metis from_be32_be32)

section \<open>Lists\<close>

lemma append_eq_lengthD:
  "xs @ ys = us @ vs \<Longrightarrow> length xs = length us \<Longrightarrow> xs = us \<and> ys = vs"
  by simp

text \<open>Python's \<^verbatim>\<open>max\<close> and \<^verbatim>\<open>sum / len\<close> of a list that is not empty.\<close>

fun py_max :: "'a::linorder list \<Rightarrow> 'a res" where
  "py_max [] = Inl ValueError"
| "py_max (x # xs) = Inr (foldl max x xs)"

lemma foldl_max_fold: "foldl max (x :: 'a::linorder) xs = fold max xs x"
  by (induction xs arbitrary: x) (auto simp: max.commute)

lemma foldl_max: "foldl max (x :: 'a::linorder) xs = Max (set (x # xs))"
  by (simp only: foldl_max_fold Max.set_eq_fold)

lemma py_max_Inr: "xs \<noteq> [] \<Longrightarrow> py_max xs = Inr (Max (set xs))"
  by (cases xs) (simp_all add: foldl_max)

definition mean :: "rat list \<Rightarrow> rat" where
  "mean xs = sum_list xs / of_nat (length xs)"

lemma sum_list_le_bound: "(\<And>x. x \<in> set xs \<Longrightarrow> x \<le> (b :: rat)) \<Longrightarrow> sum_list xs \<le> of_nat (length xs) * b"
  by (induction xs) (auto simp: algebra_simps add_mono)

lemma sum_list_ge_bound: "(\<And>x. x \<in> set xs \<Longrightarrow> (b :: rat) \<le> x) \<Longrightarrow> of_nat (length xs) * b \<le> sum_list xs"
  by (induction xs) (auto simp: algebra_simps add_mono)

lemma mean_le: "xs \<noteq> [] \<Longrightarrow> (\<And>x. x \<in> set xs \<Longrightarrow> x \<le> b) \<Longrightarrow> mean xs \<le> b"
  using sum_list_le_bound [of xs b] by (simp add: mean_def divide_le_eq mult.commute)

lemma mean_ge: "xs \<noteq> [] \<Longrightarrow> (\<And>x. x \<in> set xs \<Longrightarrow> b \<le> x) \<Longrightarrow> b \<le> mean xs"
  using sum_list_ge_bound [of xs b] by (simp add: mean_def le_divide_eq mult.commute)

lemma concat_map_take_drop_len: "length (concat (map (\<lambda>_. xs) ys)) = length ys * length xs"
  by (induction ys) auto

lemma sum_list_replicate_nat: "sum_list (replicate n (c::nat)) = n * c"
  by (induction n) auto

end
