(* ===== verification/Base64.thy ===== *)
theory Base64
  imports Prelude
begin

text \<open>
  The base64 layer every binary field of the wire protocol goes through:
  \<^verbatim>\<open>_b64e\<close> and \<^verbatim>\<open>_b64d\<close> of \<^verbatim>\<open>api/secure_app.py\<close> and
  \<^verbatim>\<open>api/secure_client.py\<close>. Python's \<^verbatim>\<open>base64.b64decode\<close> is lenient: it skips
  every character outside the alphabet, and stops at a complete padding. \<open>a2b\<close> follows that
  state machine (position in the quad, bits left over, number of \<open>=\<close> seen).
\<close>

section \<open>The alphabet\<close>

definition b64_char :: "nat \<Rightarrow> char" where
  "b64_char v =
     (if v < 26 then char_of (65 + v) else if v < 52 then char_of (71 + v)
      else if v < 62 then char_of (v - 4) else if v = 62 then CHR ''+'' else CHR ''/'')"

definition b64_value :: "char \<Rightarrow> nat option" where
  "b64_value c =
     (let n = of_char c :: nat in
      if 65 \<le> n \<and> n \<le> 90 then Some (n - 65)
      else if 97 \<le> n \<and> n \<le> 122 then Some (n - 71)
      else if 48 \<le> n \<and> n \<le> 57 then Some (n + 4)
      else if n = 43 then Some 62 else if n = 47 then Some 63 else None)"

lemma of_char_plus_slash: "(of_char CHR ''+'' :: nat) = 43" "(of_char CHR ''/'' :: nat) = 47"
  "(of_char CHR ''='' :: nat) = 61"
  by (simp_all add: of_char_def)

lemma b64_value_char [simp]: "v < 64 \<Longrightarrow> b64_value (b64_char v) = Some v"
  by (cases "v < 26"; cases "v < 52"; cases "v < 62"; cases "v = 62")
     (auto simp: b64_char_def b64_value_def Let_def of_char_plus_slash)

lemma b64_char_not_pad [simp]: "v < 64 \<Longrightarrow> b64_char v \<noteq> CHR ''=''"
  using b64_value_char [of v] by (auto simp: b64_value_def of_char_plus_slash)

section \<open>Encoding and decoding\<close>

fun b64encode :: "bytes \<Rightarrow> string" where
  "b64encode [] = []"
| "b64encode [x] =
     [b64_char (unat x div 4), b64_char (unat x mod 4 * 16), CHR ''='', CHR ''='']"
| "b64encode [x, y] =
     [b64_char (unat x div 4), b64_char (unat x mod 4 * 16 + unat y div 16),
      b64_char (unat y mod 16 * 4), CHR ''='']"
| "b64encode (x # y # z # r) =
     b64_char (unat x div 4) # b64_char (unat x mod 4 * 16 + unat y div 16)
     # b64_char (unat y mod 16 * 4 + unat z div 64) # b64_char (unat z mod 64) # b64encode r"

fun a2b :: "nat \<Rightarrow> nat \<Rightarrow> nat \<Rightarrow> string \<Rightarrow> bytes res" where
  "a2b q left pads [] = (if q = 0 then Inr [] else Inl BinasciiError)"
| "a2b q left pads (c # cs) =
     (if c = CHR ''='' then
        (if 2 \<le> q then (if 4 \<le> q + (pads + 1) then Inr [] else a2b q left (pads + 1) cs)
         else a2b q left pads cs)
      else case b64_value c of
        None \<Rightarrow> a2b q left pads cs
      | Some v \<Rightarrow>
          (if q = 0 then a2b 1 v 0 cs
           else if q = 1 then bind_res (a2b 2 (v mod 16) 0 cs) (\<lambda>bs. Inr (word_of_nat (left * 4 + v div 16) # bs))
           else if q = 2 then bind_res (a2b 3 (v mod 4) 0 cs) (\<lambda>bs. Inr (word_of_nat (left * 16 + v div 4) # bs))
           else bind_res (a2b 0 0 0 cs) (\<lambda>bs. Inr (word_of_nat (left * 64 + v) # bs))))"

text \<open>\<^verbatim>\<open>_b64e\<close>: encode and decode as ASCII.\<close>

definition b64e :: "bytes \<Rightarrow> string" where
  "b64e data = b64encode data"

text \<open>\<^verbatim>\<open>_b64d\<close>: \<^verbatim>\<open>data.encode("ascii")\<close> raises on a non-ASCII character.\<close>

definition b64d :: "string \<Rightarrow> bytes res" where
  "b64d data =
     (if \<exists>c \<in> set data. (128::nat) \<le> of_char c then Inl UnicodeError else a2b 0 0 0 data)"

section \<open>Round trip\<close>

lemma unat_byte_lt [simp]: "unat (x :: byte) < 256"
  using unsigned_less [of x] by simp

lemma byte_quads [simp]:
  "unat (x :: byte) div 4 < 64" "unat (x :: byte) mod 4 * 16 < 64"
  "unat (x :: byte) mod 4 * 16 + unat (y :: byte) div 16 < 64"
  "unat (y :: byte) mod 16 * 4 < 64"
  "unat (y :: byte) mod 16 * 4 + unat (z :: byte) div 64 < 64" "unat (z :: byte) mod 64 < 64"
  using unat_byte_lt [of x] unat_byte_lt [of y] unat_byte_lt [of z] by linarith+

lemma byte_small [simp]: "unat (x :: byte) div 16 < 16" "unat (x :: byte) div 64 < 4"
  using unat_byte_lt [of x] by linarith+

lemma a2b_b64encode: "a2b 0 l p (b64encode bs) = Inr bs"
  by (induction bs arbitrary: l p rule: b64encode.induct) (simp_all del: of_nat_add of_nat_mult)

lemma b64_char_ascii: "(of_char (b64_char v) :: nat) < 128"
  by (auto simp: b64_char_def of_char_plus_slash)

lemma b64encode_ascii: "c \<in> set (b64encode bs) \<Longrightarrow> (of_char c :: nat) < 128"
  by (induction bs rule: b64encode.induct) (auto simp: b64_char_ascii of_char_plus_slash)

lemma b64d_b64e [simp]: "b64d (b64e bs) = Inr bs"
  using b64encode_ascii [of _ bs] by (fastforce simp: b64d_def b64e_def a2b_b64encode)

lemma b64e_eq_iff [simp]: "b64e a = b64e b \<longleftrightarrow> a = b"
  by (metis b64d_b64e sum.inject(2))

lemma b64e_eq_Nil [simp]: "b64e bs = [] \<longleftrightarrow> bs = []"
  by (cases bs rule: b64encode.cases) (simp_all add: b64e_def)

lemma length_b64encode: "length (b64encode bs) = 4 * ((length bs + 2) div 3)"
proof (induction bs rule: b64encode.induct)
  case (4 x y z r)
  have "(length (x # y # z # r) + 2) div 3 = Suc ((length r + 2) div 3)"
    using div_add_self2 [of 3 "length r + 2"] by simp
  with 4 show ?case by simp
qed simp_all

end
