(* ===== verification/Instrumentation.thy ===== *)
theory Instrumentation
  imports Prelude
begin

text \<open>
  \<^verbatim>\<open>crypto/instrumentation.py\<close>: the \<^verbatim>\<open>Timer\<close> context manager, whose clock
  readings are arguments (a \<open>clock\<close> is one pair of \<^verbatim>\<open>time.perf_counter\<close> and
  \<^verbatim>\<open>time.thread_time\<close> readings, in seconds), and the sampling loop and summary of
  \<^verbatim>\<open>ResourceSampler\<close>, whose \<^verbatim>\<open>psutil\<close> readings are an argument too. Floating-point
  numbers are rationals.
\<close>

section \<open>Timer\<close>

record clock =
  perf_counter :: rat
  thread_time :: rat

record timer =
  tm_c0 :: rat
  tm_t0 :: rat
  tm_elapsed_ms :: rat
  tm_cpu_ms :: rat

definition timer_enter :: "clock \<Rightarrow> timer" where
  "timer_enter now = \<lparr> tm_c0 = thread_time now, tm_t0 = perf_counter now, tm_elapsed_ms = 0, tm_cpu_ms = 0 \<rparr>"

definition timer_exit :: "clock \<Rightarrow> timer \<Rightarrow> timer" where
  "timer_exit now tm = tm \<lparr> tm_elapsed_ms := (perf_counter now - tm_t0 tm) * 1000,
                            tm_cpu_ms := (thread_time now - tm_c0 tm) * 1000 \<rparr>"

text \<open>A \<^verbatim>\<open>with Timer() as t\<close> block: the clock at its entry and at its exit.\<close>

type_synonym span = "clock \<times> clock"

definition run_timer :: "span \<Rightarrow> timer" where
  "run_timer sp = timer_exit (snd sp) (timer_enter (fst sp))"

definition span_ms :: "span \<Rightarrow> rat" where
  "span_ms sp = tm_elapsed_ms (run_timer sp)"

definition span_cpu_ms :: "span \<Rightarrow> rat" where
  "span_cpu_ms sp = tm_cpu_ms (run_timer sp)"

lemma span_ms_nonneg: "perf_counter (fst sp) \<le> perf_counter (snd sp) \<Longrightarrow> 0 \<le> span_ms sp"
  by (simp add: span_ms_def run_timer_def timer_exit_def timer_enter_def)

lemma span_ms_add:
  "span_ms (a, b) + span_ms (b, c) = span_ms (a, c)"
  by (simp add: span_ms_def run_timer_def timer_exit_def timer_enter_def algebra_simps)

section \<open>ResourceSampler\<close>

record resource_sample =
  rs_timestamp :: rat
  rs_cpu_percent :: rat
  rs_rss_mb :: rat

text \<open>What one turn of the sampling loop meets: the stop event, a process that is gone, a reading.\<close>

datatype sample_event = StopSet | NoSuchProcess | Reading rat rat nat

fun sampler_run :: "sample_event list \<Rightarrow> resource_sample list \<Rightarrow> resource_sample list" where
  "sampler_run [] samples = samples"
| "sampler_run (StopSet # _) samples = samples"
| "sampler_run (NoSuchProcess # _) samples = samples"
| "sampler_run (Reading now cpu rss # evs) samples =
     sampler_run evs
       (samples @ [\<lparr> rs_timestamp = now, rs_cpu_percent = cpu, rs_rss_mb = of_nat rss / (1024 * 1024) \<rparr>])"

record resource_summary =
  cpu_percent_mean :: "rat option"
  cpu_percent_max :: "rat option"
  rss_mb_mean :: "rat option"
  rss_mb_max :: "rat option"
  n_samples :: nat

definition sampler_summary :: "resource_sample list \<Rightarrow> resource_summary res" where
  "sampler_summary samples =
     (if samples = [] then
        Inr \<lparr> cpu_percent_mean = None, cpu_percent_max = None, rss_mb_mean = None, rss_mb_max = None, n_samples = 0 \<rparr>
      else
        let cpu_vals = map rs_cpu_percent samples; rss_vals = map rs_rss_mb samples in
        bind_res (py_max cpu_vals) (\<lambda>cmax.
        bind_res (py_max rss_vals) (\<lambda>rmax.
        Inr \<lparr> cpu_percent_mean = Some (mean cpu_vals), cpu_percent_max = Some cmax,
              rss_mb_mean = Some (mean rss_vals), rss_mb_max = Some rmax, n_samples = length samples \<rparr>)))"

lemma sampler_run_length:
  "length (sampler_run evs samples) \<le> length samples + length evs"
  by (induction evs samples rule: sampler_run.induct) auto

lemma sampler_run_prefix: "\<exists>new. sampler_run evs samples = samples @ new"
  by (induction evs samples rule: sampler_run.induct) (auto; metis append.assoc)+

text \<open>The summary never raises, and a mean never exceeds the maximum beside it.\<close>

lemma sampler_summary_ok:
  obtains r where "sampler_summary samples = Inr r" "n_samples r = length samples"
    and "\<And>m. cpu_percent_mean r = Some m \<Longrightarrow> \<exists>x. cpu_percent_max r = Some x \<and> m \<le> x"
    and "\<And>m. rss_mb_mean r = Some m \<Longrightarrow> \<exists>x. rss_mb_max r = Some x \<and> m \<le> x"
proof (cases samples)
  case Nil
  then show ?thesis using that by (simp add: sampler_summary_def)
next
  case (Cons s ss)
  then have ne: "samples \<noteq> []" by simp
  have mx: "mean (map f samples) \<le> Max (set (map f samples))" for f :: "resource_sample \<Rightarrow> rat"
    using ne by (intro mean_le) auto
  show ?thesis
    using that [of "\<lparr> cpu_percent_mean = Some (mean (map rs_cpu_percent samples)),
        cpu_percent_max = Some (Max (set (map rs_cpu_percent samples))),
        rss_mb_mean = Some (mean (map rs_rss_mb samples)),
        rss_mb_max = Some (Max (set (map rs_rss_mb samples))), n_samples = length samples \<rparr>"]
      ne mx [of rs_cpu_percent] mx [of rs_rss_mb]
    by (simp add: sampler_summary_def Let_def py_max_Inr)
qed

end
