(* ===== verification/Primitives.thy ===== *)
theory Primitives
  imports Prelude
begin

text \<open>
  The code this repository calls but does not contain, as one record of parameters:
  \<^verbatim>\<open>hashlib.sha256\<close>, the \<^verbatim>\<open>cryptography\<close> package (AES-GCM, HKDF, RSA-OAEP, ECDSA,
  X25519), the exported C functions of liboqs, and the JSON text codec. Random sources are
  arguments: a \<open>tape\<close> is what one draw returns, an \<open>rng\<close> the successive draws of an
  operation. What the code relies on is stated as named hypotheses (\<open>aead_ok\<close>,
  \<open>kem_ok\<close>, ...), the documented correctness of those primitives; none is an axiom.
  \<open>toy_prims\<close> is a concrete instance on which the witnesses evaluate.
\<close>

section \<open>Random sources\<close>

type_synonym tape = "nat \<Rightarrow> byte"
type_synonym rng = "nat \<Rightarrow> tape"

text \<open>\<^verbatim>\<open>os.urandom(n)\<close>.\<close>

definition urandom :: "tape \<Rightarrow> nat \<Rightarrow> bytes" where
  "urandom t n = map t [0..<n]"

lemma length_urandom [simp]: "length (urandom t n) = n"
  by (simp add: urandom_def)

section \<open>JSON values\<close>

datatype json =
  JNull | JBool bool | JInt int | JFloat rat | JStr string | JList "json list" | JObj "(string \<times> json) list"

text \<open>\<^verbatim>\<open>d.get(k)\<close> on a parsed object.\<close>

fun json_get :: "json \<Rightarrow> string \<Rightarrow> json option" where
  "json_get (JObj kvs) k = map_of kvs k"
| "json_get _ k = None"

section \<open>The primitives\<close>

record prims =
  sha256 :: "bytes \<Rightarrow> bytes"
  hkdf_sha256 :: "bytes \<Rightarrow> bytes \<Rightarrow> bytes"
  gcm_key_ok :: "bytes \<Rightarrow> bool"
  gcm_encrypt :: "bytes \<Rightarrow> bytes \<Rightarrow> bytes \<Rightarrow> bytes option \<Rightarrow> bytes"
  gcm_decrypt :: "bytes \<Rightarrow> bytes \<Rightarrow> bytes \<Rightarrow> bytes option \<Rightarrow> bytes option"
  rsa_generate :: "tape \<Rightarrow> bytes"
  rsa_public_der :: "bytes \<Rightarrow> bytes"
  load_der_ok :: "bytes \<Rightarrow> bool"
  rsa_encrypt :: "tape \<Rightarrow> bytes \<Rightarrow> bytes \<Rightarrow> bytes res"
  rsa_decrypt :: "bytes \<Rightarrow> bytes \<Rightarrow> bytes option"
  ec_generate :: "tape \<Rightarrow> bytes"
  ec_public_der :: "bytes \<Rightarrow> bytes"
  ec_sign :: "tape \<Rightarrow> bytes \<Rightarrow> bytes \<Rightarrow> bytes"
  ec_verify :: "bytes \<Rightarrow> bytes \<Rightarrow> bytes \<Rightarrow> bool"
  x_generate :: "tape \<Rightarrow> bytes"
  x_public_raw :: "bytes \<Rightarrow> bytes"
  x_exchange :: "bytes \<Rightarrow> bytes \<Rightarrow> bytes option"
  c_kem_keypair :: "tape \<Rightarrow> int \<times> bytes \<times> bytes"
  c_kem_encaps :: "tape \<Rightarrow> bytes \<Rightarrow> int \<times> bytes \<times> bytes"
  c_kem_decaps :: "bytes \<Rightarrow> bytes \<Rightarrow> int \<times> bytes"
  c_kem_keypair_derand :: "bytes \<Rightarrow> int \<times> bytes \<times> bytes"
  c_kem_encaps_derand :: "bytes \<Rightarrow> bytes \<Rightarrow> int \<times> bytes \<times> bytes"
  c_sig_keypair :: "tape \<Rightarrow> int \<times> bytes \<times> bytes"
  c_sig_sign :: "tape \<Rightarrow> bytes \<Rightarrow> bytes \<Rightarrow> int \<times> bytes \<times> nat"
  c_sig_verify :: "bytes \<Rightarrow> bytes \<Rightarrow> bytes \<Rightarrow> int"
  c_sig_sign_ctx :: "tape \<Rightarrow> bytes \<Rightarrow> bytes \<Rightarrow> bytes \<Rightarrow> int \<times> bytes \<times> nat"
  c_sig_verify_ctx :: "bytes \<Rightarrow> bytes \<Rightarrow> bytes \<Rightarrow> bytes \<Rightarrow> int"
  json_dumps :: "json \<Rightarrow> bytes"
  json_loads :: "bytes \<Rightarrow> json option"

section \<open>Documented behaviour the code relies on\<close>

definition sha_ok :: "prims \<Rightarrow> bool" where
  "sha_ok P \<longleftrightarrow> (\<forall>x. length (sha256 P x) = 32)"

definition aead_ok :: "prims \<Rightarrow> bool" where
  "aead_ok P \<longleftrightarrow> (\<forall>s i. gcm_key_ok P (hkdf_sha256 P s i))
     \<and> (\<forall>k n p a. gcm_key_ok P k \<longrightarrow> gcm_decrypt P k n (gcm_encrypt P k n p a) a = Some p)
     \<and> (\<forall>k n p a. length (gcm_encrypt P k n p a) = length p + 16)"

definition rsa_ok :: "prims \<Rightarrow> bool" where
  "rsa_ok P \<longleftrightarrow> (\<forall>t. load_der_ok P (rsa_public_der P (rsa_generate P t)))
     \<and> (\<forall>t t' m. length m = 32 \<longrightarrow>
          (\<exists>c. rsa_encrypt P t' (rsa_public_der P (rsa_generate P t)) m = Inr c \<and> c \<noteq> []
               \<and> rsa_decrypt P (rsa_generate P t) c = Some m))"

definition ec_ok :: "prims \<Rightarrow> bool" where
  "ec_ok P \<longleftrightarrow> (\<forall>t. load_der_ok P (ec_public_der P (ec_generate P t)))
     \<and> (\<forall>t t' m. ec_sign P t' (ec_generate P t) m \<noteq> [] \<and>
          ec_verify P (ec_public_der P (ec_generate P t)) (ec_sign P t' (ec_generate P t) m) m)"

definition x25519_ok :: "prims \<Rightarrow> bool" where
  "x25519_ok P \<longleftrightarrow> (\<forall>t. length (x_public_raw P (x_generate P t)) = 32)
     \<and> (\<forall>t t'. \<exists>s. x_exchange P (x_generate P t) (x_public_raw P (x_generate P t')) = Some s
               \<and> x_exchange P (x_generate P t') (x_public_raw P (x_generate P t)) = Some s)"

definition kem_ok :: "prims \<Rightarrow> bool" where
  "kem_ok P \<longleftrightarrow> (\<forall>t. \<exists>pk sk. c_kem_keypair P t = (0, pk, sk) \<and> length pk = 1184 \<and> length sk = 2400
     \<and> (\<forall>t'. \<exists>ct ss. c_kem_encaps P t' pk = (0, ct, ss) \<and> length ct = 1088 \<and> length ss = 32
               \<and> c_kem_decaps P ct sk = (0, ss)))"

definition dsa_ok :: "prims \<Rightarrow> bool" where
  "dsa_ok P \<longleftrightarrow> (\<forall>t. \<exists>pk sk. c_sig_keypair P t = (0, pk, sk) \<and> length pk = 1952 \<and> length sk = 4032
     \<and> (\<forall>t' m. \<exists>sg. c_sig_sign P t' m sk = (0, sg, 3309) \<and> length sg = 3309 \<and> c_sig_verify P m sg pk = 0))"

definition json_ok :: "prims \<Rightarrow> bool" where
  "json_ok P \<longleftrightarrow> (\<forall>j. json_loads P (json_dumps P j) = Some j)"

definition prims_ok :: "prims \<Rightarrow> bool" where
  "prims_ok P \<longleftrightarrow> sha_ok P \<and> aead_ok P \<and> rsa_ok P \<and> ec_ok P \<and> x25519_ok P \<and> kem_ok P \<and> dsa_ok P"

lemma aead_okD:
  assumes "aead_ok P"
  shows "gcm_key_ok P (hkdf_sha256 P s i)"
    and "gcm_key_ok P k \<Longrightarrow> gcm_decrypt P k n (gcm_encrypt P k n p a) a = Some p"
    and "length (gcm_encrypt P k n p a) = length p + 16"
  using assms by (simp_all add: aead_ok_def)

lemma rsa_ok_load: "rsa_ok P \<Longrightarrow> load_der_ok P (rsa_public_der P (rsa_generate P t))"
  by (simp add: rsa_ok_def)

lemma rsa_ok_round_trip:
  assumes "rsa_ok P" "length m = 32"
  obtains c where "rsa_encrypt P t' (rsa_public_der P (rsa_generate P t)) m = Inr c"
    and "rsa_decrypt P (rsa_generate P t) c = Some m" "c \<noteq> []"
  using assms unfolding rsa_ok_def by blast

lemma ec_okD:
  assumes "ec_ok P"
  shows "load_der_ok P (ec_public_der P (ec_generate P t))"
    and "ec_verify P (ec_public_der P (ec_generate P t)) (ec_sign P t' (ec_generate P t) m) m"
    and "ec_sign P t' (ec_generate P t) m \<noteq> []"
  using assms by (simp_all add: ec_ok_def)

lemma x25519_ok_len: "x25519_ok P \<Longrightarrow> length (x_public_raw P (x_generate P t)) = 32"
  by (simp add: x25519_ok_def)

lemma x25519_ok_agree:
  assumes "x25519_ok P"
  obtains s where "x_exchange P (x_generate P t) (x_public_raw P (x_generate P t')) = Some s"
    and "x_exchange P (x_generate P t') (x_public_raw P (x_generate P t)) = Some s"
  using assms unfolding x25519_ok_def by blast

section \<open>A concrete instance\<close>

text \<open>
  A small, insecure but correct instantiation: a signature is the public key followed by the
  message, an AES-GCM ciphertext the plaintext with sixteen zero bytes, and so on. It exists
  to show that the hypotheses hold together and to evaluate examples.
\<close>

definition toy_sha :: "bytes \<Rightarrow> bytes" where
  "toy_sha x = take 32 (be32 (foldl (\<lambda>h b. (h * 257 + unat b + 1) mod 4294967291) 7 x) @ replicate 28 0)"

definition toy_prims :: prims where
  "toy_prims = \<lparr>
     sha256 = toy_sha,
     hkdf_sha256 = (\<lambda>s i. s),
     gcm_key_ok = (\<lambda>k. True),
     gcm_encrypt = (\<lambda>k n p a. p @ replicate 16 0),
     gcm_decrypt = (\<lambda>k n c a. if 16 \<le> length c \<and> drop (length c - 16) c = replicate 16 0
                               then Some (take (length c - 16) c) else None),
     rsa_generate = (\<lambda>t. [t 0]), rsa_public_der = (\<lambda>k. k), load_der_ok = (\<lambda>d. d \<noteq> []),
     rsa_encrypt = (\<lambda>t d m. Inr m), rsa_decrypt = (\<lambda>k c. Some c),
     ec_generate = (\<lambda>t. [t 0]), ec_public_der = (\<lambda>k. k),
     ec_sign = (\<lambda>t k m. k @ m), ec_verify = (\<lambda>d sg m. sg = d @ m),
     x_generate = (\<lambda>t. replicate 32 (t 0)), x_public_raw = (\<lambda>k. k),
     x_exchange = (\<lambda>k d. Some (map2 (+) k d)),
     c_kem_keypair = (\<lambda>t. (0, replicate 1184 (t 0), replicate 2400 (t 0))),
     c_kem_encaps = (\<lambda>t pk. (0, replicate 1088 (t 0), replicate 32 (t 0))),
     c_kem_decaps = (\<lambda>ct sk. (0, take 32 ct)),
     c_kem_keypair_derand = (\<lambda>d. (0, replicate 1184 0, replicate 2400 0)),
     c_kem_encaps_derand = (\<lambda>pk d. (0, replicate 1088 0, d)),
     c_sig_keypair = (\<lambda>t. (0, replicate 1952 (t 0), replicate 4032 (t 0))),
     c_sig_sign = (\<lambda>t m sk. (0, take 3309 (m @ replicate 3309 0), 3309)),
     c_sig_verify = (\<lambda>m sg pk. if sg = take 3309 (m @ replicate 3309 0) then 0 else -1),
     c_sig_sign_ctx = (\<lambda>t m c sk. (0, take 3309 (m @ replicate 3309 0), 3309)),
     c_sig_verify_ctx = (\<lambda>m sg c pk. if sg = take 3309 (m @ replicate 3309 0) then 0 else -1),
     json_dumps = (\<lambda>j. []), json_loads = (\<lambda>b. Some (JObj [])) \<rparr>"

lemma map2_plus_commute: "map2 (+) (xs :: byte list) ys = map2 (+) ys xs"
  by (induction xs ys rule: list_induct2') (auto simp: add.commute)

lemma toy_sha_len [simp]: "length (toy_sha x) = 32"
  by (simp add: toy_sha_def)

lemma toy_prims_ok: "prims_ok toy_prims"
  unfolding prims_ok_def sha_ok_def aead_ok_def rsa_ok_def ec_ok_def x25519_ok_def kem_ok_def dsa_ok_def
  by (auto simp: toy_prims_def map2_plus_commute)

end
