(* ===== verification/OqsAdapter.thy ===== *)
theory OqsAdapter
  imports Primitives
begin

text \<open>
  \<^verbatim>\<open>crypto/oqs_adapter.py\<close>: the byte-oriented wrapper of the liboqs C functions. A call of C
  fills fixed-size \<^verbatim>\<open>ctypes\<close> buffers (\<open>cbuf\<close>), so the lengths of everything the wrapper
  returns are theorems of the model, whatever the C code writes.
\<close>

section \<open>Buffers and locating the library\<close>

text \<open>\<^verbatim>\<open>(c_uint8 * n)()\<close> is zeroed; the C function writes at most \<open>n\<close> bytes into it.\<close>

definition cbuf :: "nat \<Rightarrow> bytes \<Rightarrow> bytes" where
  "cbuf n written = take n (written @ replicate (n - length written) 0)"

lemma length_cbuf [simp]: "length (cbuf n w) = n"
  by (simp add: cbuf_def)

lemma cbuf_exact [simp]: "length w = n \<Longrightarrow> cbuf n w = w"
  by (simp add: cbuf_def)

definition OQS_SUCCESS :: int where
  "OQS_SUCCESS = 0"

definition ML_KEM_768_PUBLIC_KEY_BYTES :: nat where "ML_KEM_768_PUBLIC_KEY_BYTES = 1184"
definition ML_KEM_768_SECRET_KEY_BYTES :: nat where "ML_KEM_768_SECRET_KEY_BYTES = 2400"
definition ML_KEM_768_CIPHERTEXT_BYTES :: nat where "ML_KEM_768_CIPHERTEXT_BYTES = 1088"
definition ML_KEM_768_SHARED_SECRET_BYTES :: nat where "ML_KEM_768_SHARED_SECRET_BYTES = 32"
definition ML_KEM_768_KEYGEN_COINS_BYTES :: nat where "ML_KEM_768_KEYGEN_COINS_BYTES = 64"
definition ML_KEM_768_ENCAPS_COINS_BYTES :: nat where "ML_KEM_768_ENCAPS_COINS_BYTES = 32"
definition ML_DSA_65_PUBLIC_KEY_BYTES :: nat where "ML_DSA_65_PUBLIC_KEY_BYTES = 1952"
definition ML_DSA_65_SECRET_KEY_BYTES :: nat where "ML_DSA_65_SECRET_KEY_BYTES = 4032"
definition ML_DSA_65_SIGNATURE_MAX_BYTES :: nat where "ML_DSA_65_SIGNATURE_MAX_BYTES = 3309"

lemmas oqs_sizes =
  OQS_SUCCESS_def ML_KEM_768_PUBLIC_KEY_BYTES_def ML_KEM_768_SECRET_KEY_BYTES_def
  ML_KEM_768_CIPHERTEXT_BYTES_def ML_KEM_768_SHARED_SECRET_BYTES_def
  ML_KEM_768_KEYGEN_COINS_BYTES_def ML_KEM_768_ENCAPS_COINS_BYTES_def
  ML_DSA_65_PUBLIC_KEY_BYTES_def ML_DSA_65_SECRET_KEY_BYTES_def ML_DSA_65_SIGNATURE_MAX_BYTES_def

text \<open>
  \<^verbatim>\<open>_locate_liboqs\<close>: the environment variable, the file test and the repository directory
  are arguments. A non-empty override that is not a file is an error, not a fall back.
\<close>

definition path_join :: "string \<Rightarrow> string \<Rightarrow> string" where
  "path_join a b = (if a = [] \<or> last a = CHR ''/'' then a @ b else a @ ''/'' @ b)"

definition liboqs_candidates :: "string \<Rightarrow> string list" where
  "liboqs_candidates here =
     [path_join here ''oqs-prefix/lib/liboqs.so'',
      path_join here ''oqs-prefix/lib/liboqs.dylib'',
      path_join here ''oqs-prefix/lib64/liboqs.so'']"

definition locate_liboqs :: "string option \<Rightarrow> (string \<Rightarrow> bool) \<Rightarrow> string \<Rightarrow> string res" where
  "locate_liboqs override isfile here =
     (let search = (case List.find isfile (liboqs_candidates here) of
                      Some c \<Rightarrow> Inr c | None \<Rightarrow> Inl OQSAdapterError) in
      case override of
        None \<Rightarrow> search
      | Some p \<Rightarrow> if p = '''' then search
                  else if \<not> isfile p then Inl OQSAdapterError else Inr p)"

lemma locate_liboqs_is_file: "locate_liboqs override isfile here = Inr p \<Longrightarrow> isfile p"
  by (auto simp: locate_liboqs_def Let_def find_Some_iff split: option.splits if_splits)

section \<open>ML-KEM-768\<close>

record kem_keypair =
  kp_public_key :: bytes
  kp_secret_key :: bytes

definition MLKEM768_ALGORITHM :: string where
  "MLKEM768_ALGORITHM = ''ML-KEM-768''"

definition MLKEM768_keypair :: "prims \<Rightarrow> tape \<Rightarrow> kem_keypair res" where
  "MLKEM768_keypair P t =
     (case c_kem_keypair P t of (rc, pk, sk) \<Rightarrow>
        if rc \<noteq> OQS_SUCCESS then Inl OQSAdapterError
        else Inr \<lparr> kp_public_key = cbuf ML_KEM_768_PUBLIC_KEY_BYTES pk,
                   kp_secret_key = cbuf ML_KEM_768_SECRET_KEY_BYTES sk \<rparr>)"

definition MLKEM768_encaps :: "prims \<Rightarrow> tape \<Rightarrow> bytes \<Rightarrow> (bytes \<times> bytes) res" where
  "MLKEM768_encaps P t public_key =
     (if length public_key \<noteq> ML_KEM_768_PUBLIC_KEY_BYTES then Inl OQSAdapterError
      else case c_kem_encaps P t public_key of (rc, ct, ss) \<Rightarrow>
        if rc \<noteq> OQS_SUCCESS then Inl OQSAdapterError
        else Inr (cbuf ML_KEM_768_CIPHERTEXT_BYTES ct, cbuf ML_KEM_768_SHARED_SECRET_BYTES ss))"

definition MLKEM768_decaps :: "prims \<Rightarrow> bytes \<Rightarrow> bytes \<Rightarrow> bytes res" where
  "MLKEM768_decaps P ciphertext secret_key =
     (if length ciphertext \<noteq> ML_KEM_768_CIPHERTEXT_BYTES then Inl OQSAdapterError
      else if length secret_key \<noteq> ML_KEM_768_SECRET_KEY_BYTES then Inl OQSAdapterError
      else case c_kem_decaps P ciphertext secret_key of (rc, ss) \<Rightarrow>
        if rc \<noteq> OQS_SUCCESS then Inl OQSAdapterError
        else Inr (cbuf ML_KEM_768_SHARED_SECRET_BYTES ss))"

definition MLKEM768_keypair_derand :: "prims \<Rightarrow> bytes \<Rightarrow> kem_keypair res" where
  "MLKEM768_keypair_derand P coins =
     (if length coins \<noteq> ML_KEM_768_KEYGEN_COINS_BYTES then Inl OQSAdapterError
      else case c_kem_keypair_derand P coins of (rc, pk, sk) \<Rightarrow>
        if rc \<noteq> OQS_SUCCESS then Inl OQSAdapterError
        else Inr \<lparr> kp_public_key = cbuf ML_KEM_768_PUBLIC_KEY_BYTES pk,
                   kp_secret_key = cbuf ML_KEM_768_SECRET_KEY_BYTES sk \<rparr>)"

definition MLKEM768_encaps_derand :: "prims \<Rightarrow> bytes \<Rightarrow> bytes \<Rightarrow> (bytes \<times> bytes) res" where
  "MLKEM768_encaps_derand P public_key coins =
     (if length public_key \<noteq> ML_KEM_768_PUBLIC_KEY_BYTES then Inl OQSAdapterError
      else if length coins \<noteq> ML_KEM_768_ENCAPS_COINS_BYTES then Inl OQSAdapterError
      else case c_kem_encaps_derand P public_key coins of (rc, ct, ss) \<Rightarrow>
        if rc \<noteq> OQS_SUCCESS then Inl OQSAdapterError
        else Inr (cbuf ML_KEM_768_CIPHERTEXT_BYTES ct, cbuf ML_KEM_768_SHARED_SECRET_BYTES ss))"

text \<open>Whatever the C functions write, what the wrapper returns has the FIPS 203 lengths.\<close>

lemma MLKEM768_lengths [wire_simps]:
  "MLKEM768_keypair P t = Inr kp \<Longrightarrow> length (kp_public_key kp) = 1184 \<and> length (kp_secret_key kp) = 2400"
  "MLKEM768_encaps P t pk = Inr (ct, ss) \<Longrightarrow> length pk = 1184 \<and> length ct = 1088 \<and> length ss = 32"
  "MLKEM768_decaps P ct sk = Inr ss' \<Longrightarrow> length ct = 1088 \<and> length sk = 2400 \<and> length ss' = 32"
  "MLKEM768_keypair_derand P d = Inr kp \<Longrightarrow> length (kp_public_key kp) = 1184 \<and> length (kp_secret_key kp) = 2400"
  "MLKEM768_encaps_derand P pk m = Inr (ct, ss) \<Longrightarrow> length pk = 1184 \<and> length ct = 1088 \<and> length ss = 32"
  by (auto simp: MLKEM768_keypair_def MLKEM768_encaps_def MLKEM768_decaps_def MLKEM768_keypair_derand_def
      MLKEM768_encaps_derand_def oqs_sizes split: prod.splits if_splits)

text \<open>The wrapper raises nothing but \<open>OQSAdapterError\<close>.\<close>

lemma MLKEM768_errors:
  "MLKEM768_keypair P t = Inl e \<Longrightarrow> e = OQSAdapterError"
  "MLKEM768_encaps P t pk = Inl e \<Longrightarrow> e = OQSAdapterError"
  "MLKEM768_decaps P ct sk = Inl e \<Longrightarrow> e = OQSAdapterError"
  "MLKEM768_keypair_derand P d = Inl e \<Longrightarrow> e = OQSAdapterError"
  "MLKEM768_encaps_derand P pk m = Inl e \<Longrightarrow> e = OQSAdapterError"
  by (auto simp: MLKEM768_keypair_def MLKEM768_encaps_def MLKEM768_decaps_def MLKEM768_keypair_derand_def
      MLKEM768_encaps_derand_def split: prod.splits if_splits)

lemma MLKEM768_keypair_ok:
  assumes "kem_ok P"
  obtains kp where "MLKEM768_keypair P t = Inr kp"
proof -
  obtain pk sk where "c_kem_keypair P t = (0, pk, sk)"
    using assms unfolding kem_ok_def by blast
  then show ?thesis using that by (simp add: MLKEM768_keypair_def oqs_sizes)
qed

lemma MLKEM768_agree:
  assumes "kem_ok P" "MLKEM768_keypair P t = Inr kp"
  obtains ct ss where "MLKEM768_encaps P t' (kp_public_key kp) = Inr (ct, ss)"
    and "MLKEM768_decaps P ct (kp_secret_key kp) = Inr ss" "length ct = 1088" "length ss = 32"
proof -
  obtain pk sk where kp: "c_kem_keypair P t = (0, pk, sk)" "length pk = 1184" "length sk = 2400"
    and all: "\<forall>t'. \<exists>ct ss. c_kem_encaps P t' pk = (0, ct, ss) \<and> length ct = 1088 \<and> length ss = 32
               \<and> c_kem_decaps P ct sk = (0, ss)"
    using assms(1) unfolding kem_ok_def by blast
  obtain ct ss where "c_kem_encaps P t' pk = (0, ct, ss)" "length ct = 1088" "length ss = 32"
      "c_kem_decaps P ct sk = (0, ss)"
    using all by blast
  then show ?thesis
    using that [of ct ss] kp assms(2)
    by (auto simp: MLKEM768_keypair_def MLKEM768_encaps_def MLKEM768_decaps_def oqs_sizes)
qed

section \<open>Fixed randomness for known-answer tests\<close>

text \<open>
  \<^verbatim>\<open>fixed_randomness\<close>: the callback serves the vector's bytes in the order of the requests,
  zero-padded when they run out; leaving the block compares what was drawn with what was supplied.
\<close>

record fixed_randomness =
  fr_data :: bytes
  fr_requested :: "nat list"

definition fr_init :: "bytes \<Rightarrow> fixed_randomness" where
  "fr_init data = \<lparr> fr_data = data, fr_requested = [] \<rparr>"

definition fr_cb :: "nat \<Rightarrow> fixed_randomness \<Rightarrow> bytes \<times> fixed_randomness" where
  "fr_cb n st =
     (let requested = fr_requested st @ [n];
          chunk = drop (sum_list (butlast requested)) (take (sum_list requested) (fr_data st)) in
      (if length chunk \<noteq> n then chunk @ replicate (n - length chunk) 0 else chunk,
       st \<lparr> fr_requested := requested \<rparr>))"

definition fr_exit :: "bool \<Rightarrow> fixed_randomness \<Rightarrow> unit res" where
  "fr_exit exc_is_none st =
     (if exc_is_none \<and> sum_list (fr_requested st) \<noteq> length (fr_data st) then Inl OQSAdapterError else Inr ())"

text \<open>A run of the callback over the requests of one C call.\<close>

fun fr_run :: "nat list \<Rightarrow> fixed_randomness \<Rightarrow> bytes list \<times> fixed_randomness" where
  "fr_run [] st = ([], st)"
| "fr_run (n # ns) st =
     (let (chunk, st') = fr_cb n st; (rest, st'') = fr_run ns st' in (chunk # rest, st''))"

lemma fr_cb_length: "fr_cb n st = (c, st') \<Longrightarrow> length c = n"
  by (auto simp: fr_cb_def Let_def min_def split: if_splits)

lemma fr_run_spec:
  "fr_run ns st = (out, st') \<Longrightarrow>
     map length out = ns \<and> fr_data st' = fr_data st \<and> fr_requested st' = fr_requested st @ ns \<and>
     (sum_list (fr_requested st) + sum_list ns \<le> length (fr_data st) \<longrightarrow>
        concat out = take (sum_list ns) (drop (sum_list (fr_requested st)) (fr_data st)))"
proof (induction ns arbitrary: st out st')
  case (Cons n ns)
  obtain c st1 where cb: "fr_cb n st = (c, st1)" by fastforce
  obtain rest where rest: "fr_run ns st1 = (rest, st')" "out = c # rest"
    using Cons.prems cb by (auto split: prod.splits)
  have st1: "st1 = st \<lparr> fr_requested := fr_requested st @ [n] \<rparr>"
    using cb by (auto simp: fr_cb_def Let_def)
  note ih = Cons.IH [OF rest(1)]
  show ?case
  proof (intro conjI impI)
    assume le: "sum_list (fr_requested st) + sum_list (n # ns) \<le> length (fr_data st)"
    then have "c = take n (drop (sum_list (fr_requested st)) (fr_data st))"
      using cb by (auto simp: fr_cb_def Let_def take_drop add.commute)
    moreover have "concat rest = take (sum_list ns) (drop (sum_list (fr_requested st) + n) (fr_data st))"
      using ih le by (simp add: st1)
    ultimately show "concat out = take (sum_list (n # ns)) (drop (sum_list (fr_requested st)) (fr_data st))"
      using rest by (simp add: take_add add.commute)
  qed (use ih rest st1 fr_cb_length [OF cb] in auto)
qed simp

text \<open>A block that leaves without error has handed out exactly the vector's bytes, in order.\<close>

lemma fr_exact:
  assumes "fr_run ns (fr_init data) = (out, st)" "fr_exit True st = Inr ()"
  shows "concat out = data"
  using fr_run_spec [OF assms(1)] assms(2) by (auto simp: fr_init_def fr_exit_def split: if_splits)

section \<open>ML-DSA-65\<close>

definition MLDSA65_ALGORITHM :: string where
  "MLDSA65_ALGORITHM = ''ML-DSA-65''"

record sig_keypair =
  sp_public_key :: bytes
  sp_secret_key :: bytes

definition MLDSA65_keypair :: "prims \<Rightarrow> tape \<Rightarrow> sig_keypair res" where
  "MLDSA65_keypair P t =
     (case c_sig_keypair P t of (rc, pk, sk) \<Rightarrow>
        if rc \<noteq> OQS_SUCCESS then Inl OQSAdapterError
        else Inr \<lparr> sp_public_key = cbuf ML_DSA_65_PUBLIC_KEY_BYTES pk,
                   sp_secret_key = cbuf ML_DSA_65_SECRET_KEY_BYTES sk \<rparr>)"

definition MLDSA65_sign :: "prims \<Rightarrow> tape \<Rightarrow> bytes \<Rightarrow> bytes \<Rightarrow> bytes res" where
  "MLDSA65_sign P t message secret_key =
     (if length secret_key \<noteq> ML_DSA_65_SECRET_KEY_BYTES then Inl OQSAdapterError
      else case c_sig_sign P t message secret_key of (rc, sig_buf, sig_len) \<Rightarrow>
        if rc \<noteq> OQS_SUCCESS then Inl OQSAdapterError
        else Inr (take sig_len (cbuf ML_DSA_65_SIGNATURE_MAX_BYTES sig_buf)))"

definition MLDSA65_verify :: "prims \<Rightarrow> bytes \<Rightarrow> bytes \<Rightarrow> bytes \<Rightarrow> bool res" where
  "MLDSA65_verify P message signature public_key =
     (if length public_key \<noteq> ML_DSA_65_PUBLIC_KEY_BYTES then Inl OQSAdapterError
      else Inr (c_sig_verify P message signature public_key = OQS_SUCCESS))"

definition MLDSA65_sign_with_context :: "prims \<Rightarrow> tape \<Rightarrow> bytes \<Rightarrow> bytes \<Rightarrow> bytes \<Rightarrow> bytes res" where
  "MLDSA65_sign_with_context P t message ctx secret_key =
     (if length secret_key \<noteq> ML_DSA_65_SECRET_KEY_BYTES then Inl OQSAdapterError
      else case c_sig_sign_ctx P t message ctx secret_key of (rc, sig_buf, sig_len) \<Rightarrow>
        if rc \<noteq> OQS_SUCCESS then Inl OQSAdapterError
        else Inr (take sig_len (cbuf ML_DSA_65_SIGNATURE_MAX_BYTES sig_buf)))"

definition MLDSA65_verify_with_context :: "prims \<Rightarrow> bytes \<Rightarrow> bytes \<Rightarrow> bytes \<Rightarrow> bytes \<Rightarrow> bool res" where
  "MLDSA65_verify_with_context P message signature ctx public_key =
     (if length public_key \<noteq> ML_DSA_65_PUBLIC_KEY_BYTES then Inl OQSAdapterError
      else if 255 < length ctx then Inl OQSAdapterError
      else Inr (c_sig_verify_ctx P message signature ctx public_key = OQS_SUCCESS))"

lemma MLDSA65_lengths [wire_simps]:
  "MLDSA65_keypair P t = Inr skp \<Longrightarrow> length (sp_public_key skp) = 1952 \<and> length (sp_secret_key skp) = 4032"
  "MLDSA65_sign P t m sk = Inr sg \<Longrightarrow> length sk = 4032 \<and> length sg \<le> 3309"
  "MLDSA65_sign_with_context P t m c sk = Inr sg \<Longrightarrow> length sk = 4032 \<and> length sg \<le> 3309"
  by (auto simp: MLDSA65_keypair_def MLDSA65_sign_def MLDSA65_sign_with_context_def oqs_sizes
      split: prod.splits if_splits)

lemma MLDSA65_verify_total: "length pk = 1952 \<Longrightarrow> \<exists>ok. MLDSA65_verify P m sg pk = Inr ok"
  by (simp add: MLDSA65_verify_def oqs_sizes)

lemma MLDSA65_verify_wrong_length: "length pk \<noteq> 1952 \<Longrightarrow> MLDSA65_verify P m sg pk = Inl OQSAdapterError"
  by (simp add: MLDSA65_verify_def oqs_sizes)

lemma MLDSA65_keypair_ok:
  assumes "dsa_ok P"
  obtains skp where "MLDSA65_keypair P t = Inr skp"
proof -
  obtain pk sk where "c_sig_keypair P t = (0, pk, sk)"
    using assms unfolding dsa_ok_def by blast
  then show ?thesis using that by (simp add: MLDSA65_keypair_def oqs_sizes)
qed

lemma MLDSA65_sign_verify:
  assumes "dsa_ok P" "MLDSA65_keypair P t = Inr skp"
  obtains sg where "MLDSA65_sign P t' m (sp_secret_key skp) = Inr sg" "length sg = 3309"
    and "MLDSA65_verify P m sg (sp_public_key skp) = Inr True"
proof -
  obtain pk sk where kp: "c_sig_keypair P t = (0, pk, sk)" "length pk = 1952" "length sk = 4032"
    and all: "\<forall>t' m. \<exists>sg. c_sig_sign P t' m sk = (0, sg, 3309) \<and> length sg = 3309 \<and> c_sig_verify P m sg pk = 0"
    using assms(1) unfolding dsa_ok_def by blast
  obtain sg where "c_sig_sign P t' m sk = (0, sg, 3309)" "length sg = 3309" "c_sig_verify P m sg pk = 0"
    using all by blast
  then show ?thesis
    using that [of sg] kp assms(2)
    by (auto simp: MLDSA65_keypair_def MLDSA65_sign_def MLDSA65_verify_def oqs_sizes)
qed

section \<open>Start-up self-test\<close>

record algorithm_report =
  rep_kem_public_key_bytes :: nat
  rep_kem_secret_key_bytes :: nat
  rep_kem_ciphertext_bytes :: nat
  rep_kem_shared_secret_bytes :: nat
  rep_sig_public_key_bytes :: nat
  rep_sig_secret_key_bytes :: nat
  rep_signature_bytes_observed :: nat
  rep_signature_bytes_max :: nat

definition verify_algorithms :: "prims \<Rightarrow> rng \<Rightarrow> algorithm_report res" where
  "verify_algorithms P r =
     bind_res (MLKEM768_keypair P (r 0)) (\<lambda>kp.
     bind_res (MLKEM768_encaps P (r 1) (kp_public_key kp)) (\<lambda>(ct, ss1).
     bind_res (MLKEM768_decaps P ct (kp_secret_key kp)) (\<lambda>ss2.
     if ss1 \<noteq> ss2 then Inl OQSAdapterError else
     bind_res (MLDSA65_keypair P (r 2)) (\<lambda>skp.
     let msg = encode ''pq-shield self-test'' in
     bind_res (MLDSA65_sign P (r 3) msg (sp_secret_key skp)) (\<lambda>sg.
     bind_res (MLDSA65_verify P msg sg (sp_public_key skp)) (\<lambda>good.
     if \<not> good then Inl OQSAdapterError else
     bind_res (MLDSA65_verify P (encode ''tampered message'') sg (sp_public_key skp)) (\<lambda>tampered.
     if tampered then Inl OQSAdapterError else
     Inr \<lparr> rep_kem_public_key_bytes = ML_KEM_768_PUBLIC_KEY_BYTES,
           rep_kem_secret_key_bytes = ML_KEM_768_SECRET_KEY_BYTES,
           rep_kem_ciphertext_bytes = ML_KEM_768_CIPHERTEXT_BYTES,
           rep_kem_shared_secret_bytes = ML_KEM_768_SHARED_SECRET_BYTES,
           rep_sig_public_key_bytes = ML_DSA_65_PUBLIC_KEY_BYTES,
           rep_sig_secret_key_bytes = ML_DSA_65_SECRET_KEY_BYTES,
           rep_signature_bytes_observed = length sg,
           rep_signature_bytes_max = ML_DSA_65_SIGNATURE_MAX_BYTES \<rparr>)))))))"

text \<open>
  With a correct liboqs the self-test returns its report; the only way it fails is that the
  library accepts the altered message under the test's own signature.
\<close>

lemma verify_algorithms_ok:
  assumes "kem_ok P" "dsa_ok P"
    and no_forgery: "\<And>skp sg. MLDSA65_keypair P (r 2) = Inr skp
      \<Longrightarrow> MLDSA65_sign P (r 3) (encode ''pq-shield self-test'') (sp_secret_key skp) = Inr sg
      \<Longrightarrow> MLDSA65_verify P (encode ''tampered message'') sg (sp_public_key skp) = Inr False"
  obtains rep where "verify_algorithms P r = Inr rep" "rep_signature_bytes_observed rep = 3309"
proof -
  obtain kp where kp: "MLKEM768_keypair P (r 0) = Inr kp"
    using assms(1) by (rule MLKEM768_keypair_ok)
  obtain ct ss where kem: "MLKEM768_encaps P (r 1) (kp_public_key kp) = Inr (ct, ss)"
      "MLKEM768_decaps P ct (kp_secret_key kp) = Inr ss"
    using MLKEM768_agree [OF assms(1) kp] by blast
  obtain skp where skp: "MLDSA65_keypair P (r 2) = Inr skp"
    using assms(2) by (rule MLDSA65_keypair_ok)
  obtain sg where sg: "MLDSA65_sign P (r 3) (encode ''pq-shield self-test'') (sp_secret_key skp) = Inr sg"
      "length sg = 3309" "MLDSA65_verify P (encode ''pq-shield self-test'') sg (sp_public_key skp) = Inr True"
    using MLDSA65_sign_verify [OF assms(2) skp] by blast
  show ?thesis
    using that kp kem skp sg no_forgery [OF skp sg(1)] by (simp add: verify_algorithms_def Let_def)
qed

text \<open>A wrong shared secret, or an accepted forgery, is never reported as success.\<close>

lemma verify_algorithms_sound:
  assumes "verify_algorithms P r = Inr rep"
  obtains skp sg where "MLDSA65_keypair P (r 2) = Inr skp"
    and "MLDSA65_verify P (encode ''pq-shield self-test'') sg (sp_public_key skp) = Inr True"
    and "MLDSA65_verify P (encode ''tampered message'') sg (sp_public_key skp) = Inr False"
    and "rep_signature_bytes_observed rep = length sg"
  using assms by (fastforce simp: verify_algorithms_def Let_def split: prod.splits if_splits)

end
