(* ===== verification/Aead.thy ===== *)
theory Aead
  imports Primitives
begin

text \<open>
  \<^verbatim>\<open>crypto/aead.py\<close>: HKDF-SHA256 key derivation and AES-256-GCM, shared by all
  configurations. The nonce is the next \<^verbatim>\<open>os.urandom\<close> draw.
\<close>

definition AES_KEY_BYTES :: nat where
  "AES_KEY_BYTES = 32"

definition GCM_NONCE_BYTES :: nat where
  "GCM_NONCE_BYTES = 12"

record aead_result =
  ar_nonce :: bytes
  ar_ciphertext :: bytes

definition derive_session_key :: "prims \<Rightarrow> bytes \<Rightarrow> bytes \<Rightarrow> bytes" where
  "derive_session_key P shared_secret ctx = hkdf_sha256 P shared_secret ctx"

definition aead_encrypt :: "prims \<Rightarrow> tape \<Rightarrow> bytes \<Rightarrow> bytes \<Rightarrow> bytes option \<Rightarrow> aead_result res" where
  "aead_encrypt P t key plaintext associated_data =
     (let nonce = urandom t GCM_NONCE_BYTES in
      if \<not> gcm_key_ok P key then Inl ValueError
      else Inr \<lparr> ar_nonce = nonce, ar_ciphertext = gcm_encrypt P key nonce plaintext associated_data \<rparr>)"

definition aead_decrypt :: "prims \<Rightarrow> bytes \<Rightarrow> bytes \<Rightarrow> bytes \<Rightarrow> bytes option \<Rightarrow> bytes res" where
  "aead_decrypt P key nonce ciphertext associated_data =
     (if \<not> gcm_key_ok P key then Inl ValueError
      else case gcm_decrypt P key nonce ciphertext associated_data of
             None \<Rightarrow> Inl AEADError
           | Some plaintext \<Rightarrow> Inr plaintext)"

lemma derived_key_usable: "aead_ok P \<Longrightarrow> gcm_key_ok P (derive_session_key P s c)"
  by (simp add: derive_session_key_def aead_okD)

lemma aead_encrypt_eq_Inr:
  "aead_encrypt P t key m a = Inr r \<longleftrightarrow>
     gcm_key_ok P key \<and>
     r = \<lparr> ar_nonce = urandom t 12, ar_ciphertext = gcm_encrypt P key (urandom t 12) m a \<rparr>"
  by (auto simp: aead_encrypt_def Let_def GCM_NONCE_BYTES_def)

lemma aead_encrypt_sizes [wire_simps]:
  assumes "aead_ok P" "aead_encrypt P t key m a = Inr r"
  shows "length (ar_nonce r) = 12" "length (ar_ciphertext r) = length m + 16"
  using assms by (auto simp: aead_encrypt_eq_Inr aead_okD)

lemma aead_round_trip:
  assumes "aead_ok P" "aead_encrypt P t key m a = Inr r"
  shows "aead_decrypt P key (ar_nonce r) (ar_ciphertext r) a = Inr m"
  using assms by (auto simp: aead_encrypt_eq_Inr aead_decrypt_def aead_okD)

text \<open>The only exceptions of decryption: an unusable key, or \<open>AEADError\<close>.\<close>

lemma aead_decrypt_cases:
  "aead_decrypt P key n c a = Inl e \<Longrightarrow> e = ValueError \<and> \<not> gcm_key_ok P key \<or> e = AEADError \<and> gcm_key_ok P key"
  by (auto simp: aead_decrypt_def split: if_splits option.splits)

end
