(* ===== verification/CryptoBase.thy ===== *)
theory CryptoBase
  imports Instrumentation OqsAdapter Aead
begin

text \<open>
  \<^verbatim>\<open>crypto/base.py\<close>: the artifacts every configuration produces, and the contract its two
  abstract classes promise, as the locales \<open>session_table\<close> (what happens to the table of
  live handshakes) and \<open>crypto_config\<close> (key agreement and signatures on top of it). Each
  configuration interprets both on its own operations.
\<close>

section \<open>Artifacts\<close>

record handshake_meta =
  gen_ms :: rat
  kex_public_key_bytes :: nat
  sig_public_key_bytes :: nat
  meta_kex_algorithm :: string
  meta_sig_algorithm :: string

record handshake_bundle =
  hb_handshake_id :: string
  hb_kex_public_key :: bytes
  hb_sig_public_key :: bytes
  hb_meta :: handshake_meta

record establish_meta =
  handshake_encrypt_ms :: rat
  em_kex_blob_bytes :: nat

record establish_result =
  er_session_key :: bytes
  er_kex_blob :: bytes
  er_meta :: establish_meta

record accept_meta =
  decapsulate_ms :: rat
  am_kex_blob_bytes :: nat

record sign_meta =
  sign_ms :: rat
  sign_cpu_ms :: rat
  signature_bytes :: nat

record verify_meta =
  verify_ms :: rat
  verify_cpu_ms :: rat

definition mk_verify_meta :: "span \<Rightarrow> verify_meta" where
  "mk_verify_meta sp = \<lparr> verify_ms = span_ms sp, verify_cpu_ms = span_cpu_ms sp \<rparr>"

definition mk_sign_meta :: "span \<Rightarrow> bytes \<Rightarrow> sign_meta" where
  "mk_sign_meta sp sg =
     \<lparr> sign_ms = span_ms sp, sign_cpu_ms = span_cpu_ms sp, signature_bytes = length sg \<rparr>"

text \<open>Membership in a configuration's \<^verbatim>\<open>_sessions\<close> dictionary.\<close>

definition has_session :: "(string \<rightharpoonup> 'a) \<Rightarrow> string \<Rightarrow> bool" where
  "has_session sess h \<longleftrightarrow> sess h \<noteq> None"

lemma has_session_simps [simp]:
  "has_session (sess(h \<mapsto> x)) k \<longleftrightarrow> k = h \<or> has_session sess k"
  "has_session (sess(h := None)) k \<longleftrightarrow> has_session sess k \<and> k \<noteq> h"
  by (auto simp: has_session_def)

lemma no_session_get_item: "\<not> has_session sess h \<Longrightarrow> get_item sess h = Inl KeyError"
  by (simp add: has_session_def)

section \<open>The contract of the session table\<close>

text \<open>
  \<open>live s h\<close>: the server holds private material for handshake \<open>h\<close>. Opening a handshake adds
  exactly the returned id (also when it fails late), dropping removes exactly the named one.
\<close>

locale session_table =
  fixes live :: "'s \<Rightarrow> string \<Rightarrow> bool"
    and open_session :: "prims \<Rightarrow> string \<Rightarrow> rng \<Rightarrow> span \<Rightarrow> string option \<Rightarrow> 's \<Rightarrow> 's \<times> handshake_bundle res"
    and drop_session :: "string \<Rightarrow> 's \<Rightarrow> 's"
  assumes open_live: "open_session P u r sp hid s = (s', Inr b) \<Longrightarrow> live s' k \<longleftrightarrow> k = hb_handshake_id b \<or> live s k"
    and open_id: "open_session P u r sp hid s = (s', Inr b) \<Longrightarrow> hb_handshake_id b = str_or hid u"
    and open_other: "open_session P u r sp hid s = (s', rb) \<Longrightarrow> k \<noteq> str_or hid u \<Longrightarrow> live s' k \<longleftrightarrow> live s k"
    and drop_live: "live (drop_session h s) k \<longleftrightarrow> live s k \<and> k \<noteq> h"
begin

lemma drop_twice: "live (drop_session h (drop_session h s)) k \<longleftrightarrow> live (drop_session h s) k"
  by (simp add: drop_live)

lemma open_then_drop:
  assumes "open_session P u r sp hid s = (s', Inr b)" "\<not> live s (hb_handshake_id b)"
  shows "live (drop_session (hb_handshake_id b) s') k \<longleftrightarrow> live s k"
  using assms open_live [OF assms(1)] by (auto simp: drop_live)

lemma drop_order:
  "live (drop_session h (drop_session k s)) i \<longleftrightarrow> live (drop_session k (drop_session h s)) i"
  by (auto simp: drop_live)

end

section \<open>The contract of a configuration\<close>

text \<open>
  \<open>holds P s b\<close>: the server still has the private halves of the bundle \<open>b\<close>. A successful
  handshake establishes it, operations on other ids keep it, and while it lasts the client's
  \<open>establish\<close> and the server's \<open>accept\<close> agree on the session key, and what the server signs
  the client verifies.
\<close>

locale crypto_config =
  session_table live new_handshake forget
  for live :: "'s \<Rightarrow> string \<Rightarrow> bool"
    and new_handshake :: "prims \<Rightarrow> string \<Rightarrow> rng \<Rightarrow> span \<Rightarrow> string option \<Rightarrow> 's \<Rightarrow> 's \<times> handshake_bundle res"
    and forget :: "string \<Rightarrow> 's \<Rightarrow> 's" +
  fixes holds :: "prims \<Rightarrow> 's \<Rightarrow> handshake_bundle \<Rightarrow> bool"
    and accept :: "prims \<Rightarrow> span \<Rightarrow> 's \<Rightarrow> string \<Rightarrow> bytes \<Rightarrow> (bytes \<times> accept_meta) res"
    and sign :: "prims \<Rightarrow> tape \<Rightarrow> span \<Rightarrow> 's \<Rightarrow> string \<Rightarrow> bytes \<Rightarrow> (bytes \<times> sign_meta) res"
    and establish :: "prims \<Rightarrow> rng \<Rightarrow> span \<Rightarrow> bytes \<Rightarrow> establish_result res"
    and verify :: "prims \<Rightarrow> span \<Rightarrow> bytes \<Rightarrow> bytes \<Rightarrow> bytes \<Rightarrow> (bool \<times> verify_meta) res"
  assumes new_total: "prims_ok P \<Longrightarrow> \<exists>s' b. new_handshake P u r sp hid s = (s', Inr b)"
    and new_holds: "prims_ok P \<Longrightarrow> new_handshake P u r sp hid s = (s', Inr b) \<Longrightarrow> holds P s' b"
    and new_keeps: "new_handshake P u r sp hid s = (s', rb) \<Longrightarrow> holds P s b \<Longrightarrow> hb_handshake_id b \<noteq> str_or hid u
                      \<Longrightarrow> holds P s' b"
    and forget_keeps: "holds P s b \<Longrightarrow> hb_handshake_id b \<noteq> h \<Longrightarrow> holds P (forget h s) b"
    and agree: "prims_ok P \<Longrightarrow> holds P s b \<Longrightarrow>
      \<exists>e m. establish P r sp (hb_kex_public_key b) = Inr e \<and>
            accept P sp' s (hb_handshake_id b) (er_kex_blob e) = Inr (er_session_key e, m) \<and>
            gcm_key_ok P (er_session_key e) \<and> er_kex_blob e \<noteq> []"
    and sign_verifies: "prims_ok P \<Longrightarrow> holds P s b \<Longrightarrow>
      \<exists>sg m m'. sign P t sp s (hb_handshake_id b) msg = Inr (sg, m) \<and> signature_bytes m = length sg \<and> sg \<noteq> [] \<and>
            verify P sp' msg sg (hb_sig_public_key b) = Inr (True, m')"
    and dead_accept: "\<not> live s h \<Longrightarrow> accept P sp s h blob = Inl KeyError"
    and dead_sign: "\<not> live s h \<Longrightarrow> sign P t sp s h msg = Inl KeyError"
begin

lemma forgotten_accept: "accept P sp (forget h s) h blob = Inl KeyError"
  by (rule dead_accept) (simp add: drop_live)

lemma forgotten_sign: "sign P t sp (forget h s) h msg = Inl KeyError"
  by (rule dead_sign) (simp add: drop_live)

lemma handshake_agrees:
  assumes "prims_ok P" "new_handshake P u r sp hid s = (s', Inr b)"
  obtains e m where "establish P r' sp' (hb_kex_public_key b) = Inr e"
    and "accept P sp'' s' (hb_handshake_id b) (er_kex_blob e) = Inr (er_session_key e, m)"
    and "gcm_key_ok P (er_session_key e)"
  using agree [OF assms(1) new_holds [OF assms]] by blast

lemma handshake_signs:
  assumes "prims_ok P" "new_handshake P u r sp hid s = (s', Inr b)"
  obtains sg m m' where "sign P t sp' s' (hb_handshake_id b) msg = Inr (sg, m)"
    and "verify P sp'' msg sg (hb_sig_public_key b) = Inr (True, m')"
  using sign_verifies [OF assms(1) new_holds [OF assms]] by blast

text \<open>A request encrypted under the client's key opens under the server's, and the other way round.\<close>

lemma channel_round_trip:
  assumes "prims_ok P" "holds P s b" "establish P r sp (hb_kex_public_key b) = Inr e"
  obtains key m where "accept P sp' s (hb_handshake_id b) (er_kex_blob e) = Inr (key, m)"
    and "\<And>t x. \<exists>c. aead_encrypt P t (er_session_key e) x None = Inr c \<and>
           aead_decrypt P key (ar_nonce c) (ar_ciphertext c) None = Inr x"
proof -
  obtain m where *: "accept P sp' s (hb_handshake_id b) (er_kex_blob e) = Inr (er_session_key e, m)"
    and ok: "gcm_key_ok P (er_session_key e)"
    using agree [OF assms(1,2), of r sp sp'] assms(3) by auto
  have "aead_ok P"
    using assms(1) by (simp add: prims_ok_def)
  then have "\<exists>c. aead_encrypt P t (er_session_key e) x None = Inr c \<and>
      aead_decrypt P (er_session_key e) (ar_nonce c) (ar_ciphertext c) None = Inr x" for t x
    using ok aead_round_trip by (fastforce simp: aead_encrypt_eq_Inr)
  with * show ?thesis by (rule that)
qed

end

end
