(* ===== verification/ClassicalConfig.thy ===== *)
theory ClassicalConfig
  imports CryptoBase
begin

text \<open>
  Configuration A: \<^verbatim>\<open>crypto/classical.py\<close>. RSA-2048-OAEP transports a client-chosen secret,
  ECDSA P-256 signs. The server's \<^verbatim>\<open>_sessions\<close> dictionary is the state.
\<close>

record classical_state =
  cl_rsa_private :: bytes
  cl_ec_private :: bytes

type_synonym classical_sessions = "string \<rightharpoonup> classical_state"

definition classical_kex_algorithm :: string where
  "classical_kex_algorithm = ''RSA-2048-OAEP''"

definition classical_sig_algorithm :: string where
  "classical_sig_algorithm = ''ECDSA-P256-SHA256''"

definition classical_context :: bytes where
  "classical_context = encode ''pq-shield-classical''"

definition classical_new_handshake ::
  "prims \<Rightarrow> string \<Rightarrow> rng \<Rightarrow> span \<Rightarrow> string option \<Rightarrow> classical_sessions \<Rightarrow> classical_sessions \<times> handshake_bundle res" where
  "classical_new_handshake P uuid r sp hid sess =
     (let h = str_or hid uuid;
          rsa_private = rsa_generate P (r 0);
          ec_private = ec_generate P (r 1);
          sess' = sess(h \<mapsto> \<lparr> cl_rsa_private = rsa_private, cl_ec_private = ec_private \<rparr>);
          rsa_pub_der = rsa_public_der P rsa_private;
          ec_pub_der = ec_public_der P ec_private in
      (sess', Inr \<lparr> hb_handshake_id = h, hb_kex_public_key = rsa_pub_der, hb_sig_public_key = ec_pub_der,
         hb_meta = \<lparr> gen_ms = span_ms sp, kex_public_key_bytes = length rsa_pub_der,
                     sig_public_key_bytes = length ec_pub_der,
                     meta_kex_algorithm = classical_kex_algorithm,
                     meta_sig_algorithm = classical_sig_algorithm \<rparr> \<rparr>))"

definition classical_accept ::
  "prims \<Rightarrow> span \<Rightarrow> classical_sessions \<Rightarrow> string \<Rightarrow> bytes \<Rightarrow> (bytes \<times> accept_meta) res" where
  "classical_accept P sp sess hid kex_blob =
     bind_res (get_item sess hid) (\<lambda>state.
     case rsa_decrypt P (cl_rsa_private state) kex_blob of
       None \<Rightarrow> Inl ValueError
     | Some raw_secret \<Rightarrow>
         Inr (derive_session_key P raw_secret classical_context,
              \<lparr> decapsulate_ms = span_ms sp, am_kex_blob_bytes = length kex_blob \<rparr>))"

definition classical_sign ::
  "prims \<Rightarrow> tape \<Rightarrow> span \<Rightarrow> classical_sessions \<Rightarrow> string \<Rightarrow> bytes \<Rightarrow> (bytes \<times> sign_meta) res" where
  "classical_sign P t sp sess hid message =
     bind_res (get_item sess hid) (\<lambda>state.
     let signature = ec_sign P t (cl_ec_private state) message in
     Inr (signature, mk_sign_meta sp signature))"

definition classical_forget :: "string \<Rightarrow> classical_sessions \<Rightarrow> classical_sessions" where
  "classical_forget hid sess = sess(hid := None)"

definition classical_establish :: "prims \<Rightarrow> rng \<Rightarrow> span \<Rightarrow> bytes \<Rightarrow> establish_result res" where
  "classical_establish P r sp kex_public_key =
     (if \<not> load_der_ok P kex_public_key then Inl ValueError
      else let raw_secret = urandom (r 0) 32;
               session_key = derive_session_key P raw_secret classical_context in
           bind_res (rsa_encrypt P (r 1) kex_public_key raw_secret) (\<lambda>kex_blob.
           Inr \<lparr> er_session_key = session_key, er_kex_blob = kex_blob,
                 er_meta = \<lparr> handshake_encrypt_ms = span_ms sp, em_kex_blob_bytes = length kex_blob \<rparr> \<rparr>))"

text \<open>
  \<^verbatim>\<open>load_der_public_key\<close> is outside the \<^verbatim>\<open>try\<close>: undecodable keys raise, any failure of the
  signature check itself is \<^verbatim>\<open>False\<close>.
\<close>

definition classical_verify :: "prims \<Rightarrow> span \<Rightarrow> bytes \<Rightarrow> bytes \<Rightarrow> bytes \<Rightarrow> (bool \<times> verify_meta) res" where
  "classical_verify P sp message signature sig_public_key =
     (if \<not> load_der_ok P sig_public_key then Inl ValueError
      else Inr (ec_verify P sig_public_key signature message, mk_verify_meta sp))"

section \<open>The contract\<close>

definition classical_holds :: "prims \<Rightarrow> classical_sessions \<Rightarrow> handshake_bundle \<Rightarrow> bool" where
  "classical_holds P sess b \<longleftrightarrow> (\<exists>t0 t1.
     sess (hb_handshake_id b) = Some \<lparr> cl_rsa_private = rsa_generate P t0, cl_ec_private = ec_generate P t1 \<rparr>
     \<and> hb_kex_public_key b = rsa_public_der P (rsa_generate P t0)
     \<and> hb_sig_public_key b = ec_public_der P (ec_generate P t1))"

lemmas classical_defs [config_simps] =
  classical_new_handshake_def classical_accept_def classical_sign_def classical_forget_def
  classical_establish_def classical_verify_def

lemma classical_holds_upd [simp]:
  "hb_handshake_id b \<noteq> h \<Longrightarrow> classical_holds P (s(h := x)) b = classical_holds P s b"
  by (simp add: classical_holds_def)

lemma classical_new_holds:
  "classical_new_handshake P u r sp hid s = (s', Inr b) \<Longrightarrow> classical_holds P s' b"
  unfolding classical_holds_def by (rule exI [of _ "r 0"], rule exI [of _ "r 1"]) (auto simp: config_simps Let_def)

lemma classical_sign_verifies:
  assumes "prims_ok P" "classical_holds P s b"
  shows "\<exists>sg m m'. classical_sign P t sp s (hb_handshake_id b) msg = Inr (sg, m) \<and> signature_bytes m = length sg \<and> sg \<noteq> [] \<and>
    classical_verify P sp' msg sg (hb_sig_public_key b) = Inr (True, m')"
  using assms by (auto simp: classical_holds_def config_simps Let_def prims_ok_def ec_okD mk_sign_meta_def)

lemma classical_agree:
  assumes "prims_ok P" "classical_holds P s b"
  shows "\<exists>e m. classical_establish P r sp (hb_kex_public_key b) = Inr e \<and>
    classical_accept P sp' s (hb_handshake_id b) (er_kex_blob e) = Inr (er_session_key e, m) \<and>
    gcm_key_ok P (er_session_key e) \<and> er_kex_blob e \<noteq> []"
proof -
  have ok: "rsa_ok P" "aead_ok P" using assms(1) by (simp_all add: prims_ok_def)
  obtain t0 t1 where b: "s (hb_handshake_id b) = Some \<lparr> cl_rsa_private = rsa_generate P t0, cl_ec_private = ec_generate P t1 \<rparr>"
      "hb_kex_public_key b = rsa_public_der P (rsa_generate P t0)"
    using assms(2) by (auto simp: classical_holds_def)
  obtain c where c: "rsa_encrypt P (r 1) (rsa_public_der P (rsa_generate P t0)) (urandom (r 0) 32) = Inr c"
      "rsa_decrypt P (rsa_generate P t0) c = Some (urandom (r 0) 32)" "c \<noteq> []"
    using rsa_ok_round_trip [OF ok(1), of "urandom (r 0) 32" "r 1" t0] by auto
  then show ?thesis
    using b ok by (simp add: config_simps Let_def rsa_ok_load derived_key_usable)
qed

interpretation classical_cfg: crypto_config has_session classical_new_handshake classical_forget
  classical_holds classical_accept classical_sign classical_establish classical_verify
  by unfold_locales
     (assumption | rule classical_agree classical_sign_verifies | erule classical_new_holds
      | (auto simp: config_simps Let_def no_session_get_item)[1])+

end
