(* ===== verification/EcdheConfig.thy ===== *)
theory EcdheConfig
  imports CryptoBase
begin

text \<open>
  Configuration A': \<^verbatim>\<open>crypto/classical_ecdhe.py\<close>. Ephemeral X25519 and ECDSA P-256. A
  public share whose encoding is not 32 bytes trips the assertion of \<^verbatim>\<open>_x25519_raw\<close> after the
  session has been stored.
\<close>

definition X25519_PUBLIC_KEY_BYTES :: nat where
  "X25519_PUBLIC_KEY_BYTES = 32"

definition x25519_raw :: "prims \<Rightarrow> bytes \<Rightarrow> bytes res" where
  "x25519_raw P x_private =
     (let raw = x_public_raw P x_private in
      if length raw \<noteq> X25519_PUBLIC_KEY_BYTES then Inl AssertionError else Inr raw)"

record ecdhe_state =
  ce_x25519_private :: bytes
  ce_ec_private :: bytes

type_synonym ecdhe_sessions = "string \<rightharpoonup> ecdhe_state"

definition ecdhe_kex_algorithm :: string where
  "ecdhe_kex_algorithm = ''X25519''"

definition ecdhe_sig_algorithm :: string where
  "ecdhe_sig_algorithm = ''ECDSA-P256-SHA256''"

definition ecdhe_context :: bytes where
  "ecdhe_context = encode ''pq-shield-classical-ecdhe''"

definition ecdhe_new_handshake ::
  "prims \<Rightarrow> string \<Rightarrow> rng \<Rightarrow> span \<Rightarrow> string option \<Rightarrow> ecdhe_sessions \<Rightarrow> ecdhe_sessions \<times> handshake_bundle res" where
  "ecdhe_new_handshake P uuid r sp hid sess =
     (let h = str_or hid uuid;
          x_private = x_generate P (r 0);
          ec_private = ec_generate P (r 1);
          sess' = sess(h \<mapsto> \<lparr> ce_x25519_private = x_private, ce_ec_private = ec_private \<rparr>);
          ec_pub_der = ec_public_der P ec_private in
      (sess', bind_res (x25519_raw P x_private) (\<lambda>x_pub.
         Inr \<lparr> hb_handshake_id = h, hb_kex_public_key = x_pub, hb_sig_public_key = ec_pub_der,
               hb_meta = \<lparr> gen_ms = span_ms sp, kex_public_key_bytes = length x_pub,
                           sig_public_key_bytes = length ec_pub_der,
                           meta_kex_algorithm = ecdhe_kex_algorithm,
                           meta_sig_algorithm = ecdhe_sig_algorithm \<rparr> \<rparr>)))"

definition ecdhe_accept ::
  "prims \<Rightarrow> span \<Rightarrow> ecdhe_sessions \<Rightarrow> string \<Rightarrow> bytes \<Rightarrow> (bytes \<times> accept_meta) res" where
  "ecdhe_accept P sp sess hid kex_blob =
     bind_res (get_item sess hid) (\<lambda>state.
     if length kex_blob \<noteq> X25519_PUBLIC_KEY_BYTES then Inl ValueError
     else case x_exchange P (ce_x25519_private state) kex_blob of
       None \<Rightarrow> Inl ValueError
     | Some raw_secret \<Rightarrow>
         Inr (derive_session_key P raw_secret ecdhe_context,
              \<lparr> decapsulate_ms = span_ms sp, am_kex_blob_bytes = length kex_blob \<rparr>))"

definition ecdhe_sign ::
  "prims \<Rightarrow> tape \<Rightarrow> span \<Rightarrow> ecdhe_sessions \<Rightarrow> string \<Rightarrow> bytes \<Rightarrow> (bytes \<times> sign_meta) res" where
  "ecdhe_sign P t sp sess hid message =
     bind_res (get_item sess hid) (\<lambda>state.
     let signature = ec_sign P t (ce_ec_private state) message in
     Inr (signature, mk_sign_meta sp signature))"

definition ecdhe_forget :: "string \<Rightarrow> ecdhe_sessions \<Rightarrow> ecdhe_sessions" where
  "ecdhe_forget hid sess = sess(hid := None)"

definition ecdhe_establish :: "prims \<Rightarrow> rng \<Rightarrow> span \<Rightarrow> bytes \<Rightarrow> establish_result res" where
  "ecdhe_establish P r sp kex_public_key =
     (if length kex_public_key \<noteq> X25519_PUBLIC_KEY_BYTES then Inl ValueError
      else let x_private = x_generate P (r 0) in
        case x_exchange P x_private kex_public_key of
          None \<Rightarrow> Inl ValueError
        | Some raw_secret \<Rightarrow>
            let session_key = derive_session_key P raw_secret ecdhe_context in
            bind_res (x25519_raw P x_private) (\<lambda>kex_blob.
            Inr \<lparr> er_session_key = session_key, er_kex_blob = kex_blob,
                  er_meta = \<lparr> handshake_encrypt_ms = span_ms sp, em_kex_blob_bytes = length kex_blob \<rparr> \<rparr>))"

definition ecdhe_verify :: "prims \<Rightarrow> span \<Rightarrow> bytes \<Rightarrow> bytes \<Rightarrow> bytes \<Rightarrow> (bool \<times> verify_meta) res" where
  "ecdhe_verify P sp message signature sig_public_key =
     (if \<not> load_der_ok P sig_public_key then Inl ValueError
      else Inr (ec_verify P sig_public_key signature message, mk_verify_meta sp))"

section \<open>The contract\<close>

definition ecdhe_holds :: "prims \<Rightarrow> ecdhe_sessions \<Rightarrow> handshake_bundle \<Rightarrow> bool" where
  "ecdhe_holds P sess b \<longleftrightarrow> (\<exists>t0 t1.
     sess (hb_handshake_id b) = Some \<lparr> ce_x25519_private = x_generate P t0, ce_ec_private = ec_generate P t1 \<rparr>
     \<and> hb_kex_public_key b = x_public_raw P (x_generate P t0)
     \<and> hb_sig_public_key b = ec_public_der P (ec_generate P t1))"

lemmas ecdhe_defs [config_simps] =
  ecdhe_new_handshake_def ecdhe_accept_def ecdhe_sign_def ecdhe_forget_def
  ecdhe_establish_def ecdhe_verify_def

lemma x25519_raw_ok: "x25519_ok P \<Longrightarrow> x25519_raw P (x_generate P t) = Inr (x_public_raw P (x_generate P t))"
  by (simp add: x25519_raw_def X25519_PUBLIC_KEY_BYTES_def x25519_ok_len)

lemma x25519_raw_Inr: "x25519_raw P k = Inr raw \<longleftrightarrow> raw = x_public_raw P k \<and> length raw = 32"
  by (auto simp: x25519_raw_def X25519_PUBLIC_KEY_BYTES_def Let_def)

lemma ecdhe_holds_upd [simp]:
  "hb_handshake_id b \<noteq> h \<Longrightarrow> ecdhe_holds P (s(h := x)) b = ecdhe_holds P s b"
  by (simp add: ecdhe_holds_def)

lemma ecdhe_new_holds:
  assumes "ecdhe_new_handshake P u r sp hid s = (s', Inr b)"
  shows "ecdhe_holds P s' b"
  unfolding ecdhe_holds_def using assms
  by (intro exI [of _ "r 0"] exI [of _ "r 1"]) (auto simp: config_simps Let_def x25519_raw_Inr)

lemma ecdhe_new_total:
  assumes "prims_ok P"
  shows "\<exists>s' b. ecdhe_new_handshake P u r sp hid s = (s', Inr b)"
  using assms by (auto simp: config_simps Let_def x25519_raw_ok prims_ok_def)

lemma ecdhe_agree:
  assumes "prims_ok P" "ecdhe_holds P s b"
  shows "\<exists>e m. ecdhe_establish P r sp (hb_kex_public_key b) = Inr e \<and>
    ecdhe_accept P sp' s (hb_handshake_id b) (er_kex_blob e) = Inr (er_session_key e, m) \<and>
    gcm_key_ok P (er_session_key e) \<and> er_kex_blob e \<noteq> []"
proof -
  have ok: "x25519_ok P" "aead_ok P" using assms(1) by (simp_all add: prims_ok_def)
  obtain t0 t1 where b: "s (hb_handshake_id b) = Some \<lparr> ce_x25519_private = x_generate P t0, ce_ec_private = ec_generate P t1 \<rparr>"
      "hb_kex_public_key b = x_public_raw P (x_generate P t0)"
    using assms(2) by (auto simp: ecdhe_holds_def)
  obtain ss where "x_exchange P (x_generate P (r 0)) (x_public_raw P (x_generate P t0)) = Some ss"
      "x_exchange P (x_generate P t0) (x_public_raw P (x_generate P (r 0))) = Some ss"
    using ok(1) by (rule x25519_ok_agree)
  moreover have "x_public_raw P (x_generate P (r 0)) \<noteq> []"
    using x25519_ok_len [OF ok(1), of "r 0"] by auto
  ultimately show ?thesis
    using b ok by (simp add: config_simps Let_def derived_key_usable x25519_raw_ok x25519_ok_len X25519_PUBLIC_KEY_BYTES_def)
qed

lemma ecdhe_sign_verifies:
  assumes "prims_ok P" "ecdhe_holds P s b"
  shows "\<exists>sg m m'. ecdhe_sign P t sp s (hb_handshake_id b) msg = Inr (sg, m) \<and> signature_bytes m = length sg \<and> sg \<noteq> [] \<and>
    ecdhe_verify P sp' msg sg (hb_sig_public_key b) = Inr (True, m')"
  using assms by (auto simp: ecdhe_holds_def config_simps Let_def prims_ok_def ec_okD mk_sign_meta_def)

interpretation ecdhe_cfg: crypto_config has_session ecdhe_new_handshake ecdhe_forget
  ecdhe_holds ecdhe_accept ecdhe_sign ecdhe_establish ecdhe_verify
  by unfold_locales
     (assumption | rule ecdhe_agree ecdhe_sign_verifies ecdhe_new_total | erule ecdhe_new_holds
      | (auto simp: config_simps Let_def no_session_get_item split: sum.splits)[1])+

end
