(* ===== verification/HybridConfig.thy ===== *)
theory HybridConfig
  imports CryptoBase
begin

text \<open>
  Configuration B: \<^verbatim>\<open>crypto/hybrid.py\<close>. ML-KEM-768 key establishment with ECDSA P-256
  signatures. A liboqs failure during key generation leaves the table as it was.
\<close>

record hybrid_state =
  hy_kem_secret_key :: bytes
  hy_ec_private :: bytes

type_synonym hybrid_sessions = "string \<rightharpoonup> hybrid_state"

definition hybrid_kex_algorithm :: string where
  "hybrid_kex_algorithm = MLKEM768_ALGORITHM"

definition hybrid_sig_algorithm :: string where
  "hybrid_sig_algorithm = ''ECDSA-P256-SHA256''"

definition hybrid_context :: bytes where
  "hybrid_context = encode ''pq-shield-hybrid''"

definition hybrid_new_handshake ::
  "prims \<Rightarrow> string \<Rightarrow> rng \<Rightarrow> span \<Rightarrow> string option \<Rightarrow> hybrid_sessions \<Rightarrow> hybrid_sessions \<times> handshake_bundle res" where
  "hybrid_new_handshake P uuid r sp hid sess =
     (let h = str_or hid uuid in
      case MLKEM768_keypair P (r 0) of
        Inl e \<Rightarrow> (sess, Inl e)
      | Inr kem_kp \<Rightarrow>
          let ec_private = ec_generate P (r 1);
              sess' = sess(h \<mapsto> \<lparr> hy_kem_secret_key = kp_secret_key kem_kp, hy_ec_private = ec_private \<rparr>);
              ec_pub_der = ec_public_der P ec_private in
          (sess', Inr \<lparr> hb_handshake_id = h, hb_kex_public_key = kp_public_key kem_kp, hb_sig_public_key = ec_pub_der,
                        hb_meta = \<lparr> gen_ms = span_ms sp, kex_public_key_bytes = length (kp_public_key kem_kp),
                                    sig_public_key_bytes = length ec_pub_der,
                                    meta_kex_algorithm = hybrid_kex_algorithm,
                                    meta_sig_algorithm = hybrid_sig_algorithm \<rparr> \<rparr>))"

definition hybrid_accept ::
  "prims \<Rightarrow> span \<Rightarrow> hybrid_sessions \<Rightarrow> string \<Rightarrow> bytes \<Rightarrow> (bytes \<times> accept_meta) res" where
  "hybrid_accept P sp sess hid kex_blob =
     bind_res (get_item sess hid) (\<lambda>state.
     bind_res (MLKEM768_decaps P kex_blob (hy_kem_secret_key state)) (\<lambda>raw_secret.
     Inr (derive_session_key P raw_secret hybrid_context,
          \<lparr> decapsulate_ms = span_ms sp, am_kex_blob_bytes = length kex_blob \<rparr>)))"

definition hybrid_sign ::
  "prims \<Rightarrow> tape \<Rightarrow> span \<Rightarrow> hybrid_sessions \<Rightarrow> string \<Rightarrow> bytes \<Rightarrow> (bytes \<times> sign_meta) res" where
  "hybrid_sign P t sp sess hid message =
     bind_res (get_item sess hid) (\<lambda>state.
     let signature = ec_sign P t (hy_ec_private state) message in
     Inr (signature, mk_sign_meta sp signature))"

definition hybrid_forget :: "string \<Rightarrow> hybrid_sessions \<Rightarrow> hybrid_sessions" where
  "hybrid_forget hid sess = sess(hid := None)"

definition hybrid_establish :: "prims \<Rightarrow> rng \<Rightarrow> span \<Rightarrow> bytes \<Rightarrow> establish_result res" where
  "hybrid_establish P r sp kex_public_key =
     bind_res (MLKEM768_encaps P (r 0) kex_public_key) (\<lambda>(kex_blob, raw_secret).
     let session_key = derive_session_key P raw_secret hybrid_context in
     Inr \<lparr> er_session_key = session_key, er_kex_blob = kex_blob,
           er_meta = \<lparr> handshake_encrypt_ms = span_ms sp, em_kex_blob_bytes = length kex_blob \<rparr> \<rparr>)"

definition hybrid_verify :: "prims \<Rightarrow> span \<Rightarrow> bytes \<Rightarrow> bytes \<Rightarrow> bytes \<Rightarrow> (bool \<times> verify_meta) res" where
  "hybrid_verify P sp message signature sig_public_key =
     (if \<not> load_der_ok P sig_public_key then Inl ValueError
      else Inr (ec_verify P sig_public_key signature message, mk_verify_meta sp))"

section \<open>The contract\<close>

definition hybrid_holds :: "prims \<Rightarrow> hybrid_sessions \<Rightarrow> handshake_bundle \<Rightarrow> bool" where
  "hybrid_holds P sess b \<longleftrightarrow> (\<exists>t0 kp t1. MLKEM768_keypair P t0 = Inr kp \<and>
     sess (hb_handshake_id b) = Some \<lparr> hy_kem_secret_key = kp_secret_key kp, hy_ec_private = ec_generate P t1 \<rparr>
     \<and> hb_kex_public_key b = kp_public_key kp
     \<and> hb_sig_public_key b = ec_public_der P (ec_generate P t1))"

lemmas hybrid_defs [config_simps] =
  hybrid_new_handshake_def hybrid_accept_def hybrid_sign_def hybrid_forget_def
  hybrid_establish_def hybrid_verify_def

lemma hybrid_holds_upd [simp]:
  "hb_handshake_id b \<noteq> h \<Longrightarrow> hybrid_holds P (s(h := x)) b = hybrid_holds P s b"
  by (simp add: hybrid_holds_def)

lemma hybrid_new_holds:
  assumes "hybrid_new_handshake P u r sp hid s = (s', Inr b)"
  shows "hybrid_holds P s' b"
proof -
  obtain kp where "MLKEM768_keypair P (r 0) = Inr kp"
    using assms by (auto simp: config_simps Let_def split: sum.splits)
  then show ?thesis
    unfolding hybrid_holds_def using assms
    by (intro exI [of _ "r 0"] exI [of _ kp] exI [of _ "r 1"]) (auto simp: config_simps Let_def)
qed

lemma hybrid_new_total:
  assumes "prims_ok P"
  shows "\<exists>s' b. hybrid_new_handshake P u r sp hid s = (s', Inr b)"
proof -
  obtain kp where "MLKEM768_keypair P (r 0) = Inr kp"
    using assms MLKEM768_keypair_ok by (auto simp: prims_ok_def)
  then show ?thesis by (auto simp: config_simps Let_def)
qed

lemma hybrid_agree:
  assumes "prims_ok P" "hybrid_holds P s b"
  shows "\<exists>e m. hybrid_establish P r sp (hb_kex_public_key b) = Inr e \<and>
    hybrid_accept P sp' s (hb_handshake_id b) (er_kex_blob e) = Inr (er_session_key e, m) \<and>
    gcm_key_ok P (er_session_key e) \<and> er_kex_blob e \<noteq> []"
proof -
  have ok: "kem_ok P" "aead_ok P" using assms(1) by (simp_all add: prims_ok_def)
  obtain t0 kp t1 where b: "MLKEM768_keypair P t0 = Inr kp"
      "s (hb_handshake_id b) = Some \<lparr> hy_kem_secret_key = kp_secret_key kp, hy_ec_private = ec_generate P t1 \<rparr>"
      "hb_kex_public_key b = kp_public_key kp"
    using assms(2) by (auto simp: hybrid_holds_def)
  obtain ct ss where "MLKEM768_encaps P (r 0) (kp_public_key kp) = Inr (ct, ss)"
      "MLKEM768_decaps P ct (kp_secret_key kp) = Inr ss" "length ct = 1088"
    using MLKEM768_agree [OF ok(1) b(1)] by blast
  moreover from this have "ct \<noteq> []" by auto
  ultimately show ?thesis
    using b ok by (simp add: config_simps Let_def derived_key_usable)
qed

lemma hybrid_sign_verifies:
  assumes "prims_ok P" "hybrid_holds P s b"
  shows "\<exists>sg m m'. hybrid_sign P t sp s (hb_handshake_id b) msg = Inr (sg, m) \<and> signature_bytes m = length sg \<and> sg \<noteq> [] \<and>
    hybrid_verify P sp' msg sg (hb_sig_public_key b) = Inr (True, m')"
  using assms by (auto simp: hybrid_holds_def config_simps Let_def prims_ok_def ec_okD mk_sign_meta_def)

interpretation hybrid_cfg: crypto_config has_session hybrid_new_handshake hybrid_forget
  hybrid_holds hybrid_accept hybrid_sign hybrid_establish hybrid_verify
  by unfold_locales
     (assumption | rule hybrid_agree hybrid_sign_verifies hybrid_new_total | erule hybrid_new_holds
      | (auto simp: config_simps Let_def no_session_get_item split: sum.splits)[1])+

end
