(* ===== verification/HybridKexConfig.thy ===== *)
theory HybridKexConfig
  imports CryptoBase
begin

text \<open>
  Configurations B' and C': \<^verbatim>\<open>crypto/hybrid_kex.py\<close> (X25519MLKEM768 with ECDSA P-256) and
  \<^verbatim>\<open>crypto/hybrid_kex_pq.py\<close>, which inherits the key exchange and signs with ML-DSA-65. The
  shared part of the two \<^verbatim>\<open>_HandshakeState\<close> classes is the record \<open>hkex_share\<close>, which both
  states extend: the inherited \<^verbatim>\<open>accept\<close> reads only those two fields.
\<close>

record hkex_share =
  hs_kem_secret_key :: bytes
  hs_x25519_private :: bytes

record hybrid_kex_state = hkex_share +
  hk_ec_private :: bytes

record hybrid_kex_pq_state = hkex_share +
  hq_sig_secret_key :: bytes

type_synonym hybrid_kex_sessions = "string \<rightharpoonup> hybrid_kex_state"
type_synonym hybrid_kex_pq_sessions = "string \<rightharpoonup> hybrid_kex_pq_state"

definition X25519_BYTES :: nat where
  "X25519_BYTES = 32"

definition hybrid_kex_kex_algorithm :: string where
  "hybrid_kex_kex_algorithm = ''X25519MLKEM768''"

definition hybrid_kex_sig_algorithm :: string where
  "hybrid_kex_sig_algorithm = ''ECDSA-P256-SHA256''"

definition hybrid_kex_context :: bytes where
  "hybrid_kex_context = encode ''pq-shield-hybrid-kex-x25519mlkem768''"

definition hybrid_kex_new_handshake ::
  "prims \<Rightarrow> string \<Rightarrow> rng \<Rightarrow> span \<Rightarrow> string option \<Rightarrow> hybrid_kex_sessions \<Rightarrow> hybrid_kex_sessions \<times> handshake_bundle res" where
  "hybrid_kex_new_handshake P uuid r sp hid sess =
     (let h = str_or hid uuid in
      case MLKEM768_keypair P (r 0) of
        Inl e \<Rightarrow> (sess, Inl e)
      | Inr kem_kp \<Rightarrow>
          let x_private = x_generate P (r 1);
              ec_private = ec_generate P (r 2);
              sess' = sess(h \<mapsto> \<lparr> hs_kem_secret_key = kp_secret_key kem_kp, hs_x25519_private = x_private,
                                 hk_ec_private = ec_private \<rparr>);
              kex_pub = kp_public_key kem_kp @ x_public_raw P x_private;
              ec_pub_der = ec_public_der P ec_private in
          (sess', Inr \<lparr> hb_handshake_id = h, hb_kex_public_key = kex_pub, hb_sig_public_key = ec_pub_der,
                        hb_meta = \<lparr> gen_ms = span_ms sp, kex_public_key_bytes = length kex_pub,
                                    sig_public_key_bytes = length ec_pub_der,
                                    meta_kex_algorithm = hybrid_kex_kex_algorithm,
                                    meta_sig_algorithm = hybrid_kex_sig_algorithm \<rparr> \<rparr>))"

text \<open>The body of \<^verbatim>\<open>accept\<close>, on any state that has the two key-exchange fields.\<close>

definition hybrid_kex_accept ::
  "prims \<Rightarrow> span \<Rightarrow> (string \<rightharpoonup> 'a hkex_share_scheme) \<Rightarrow> string \<Rightarrow> bytes \<Rightarrow> (bytes \<times> accept_meta) res" where
  "hybrid_kex_accept P sp sess hid kex_blob =
     bind_res (get_item sess hid) (\<lambda>state.
     let ct_len = ML_KEM_768_CIPHERTEXT_BYTES in
     if length kex_blob \<noteq> ct_len + X25519_BYTES then Inl ValueError
     else bind_res (MLKEM768_decaps P (take ct_len kex_blob) (hs_kem_secret_key state)) (\<lambda>kem_ss.
       case x_exchange P (hs_x25519_private state) (drop ct_len kex_blob) of
         None \<Rightarrow> Inl ValueError
       | Some x_ss \<Rightarrow>
           Inr (derive_session_key P (kem_ss @ x_ss) hybrid_kex_context,
                \<lparr> decapsulate_ms = span_ms sp, am_kex_blob_bytes = length kex_blob \<rparr>)))"

definition hybrid_kex_sign ::
  "prims \<Rightarrow> tape \<Rightarrow> span \<Rightarrow> hybrid_kex_sessions \<Rightarrow> string \<Rightarrow> bytes \<Rightarrow> (bytes \<times> sign_meta) res" where
  "hybrid_kex_sign P t sp sess hid message =
     bind_res (get_item sess hid) (\<lambda>state.
     let signature = ec_sign P t (hk_ec_private state) message in
     Inr (signature, mk_sign_meta sp signature))"

definition hybrid_kex_forget :: "string \<Rightarrow> hybrid_kex_sessions \<Rightarrow> hybrid_kex_sessions" where
  "hybrid_kex_forget hid sess = sess(hid := None)"

definition hybrid_kex_establish :: "prims \<Rightarrow> rng \<Rightarrow> span \<Rightarrow> bytes \<Rightarrow> establish_result res" where
  "hybrid_kex_establish P r sp kex_public_key =
     (let pk_len = ML_KEM_768_PUBLIC_KEY_BYTES in
      if length kex_public_key \<noteq> pk_len + X25519_BYTES then Inl ValueError
      else bind_res (MLKEM768_encaps P (r 0) (take pk_len kex_public_key)) (\<lambda>(kem_ct, kem_ss).
        let x_private = x_generate P (r 1) in
        case x_exchange P x_private (drop pk_len kex_public_key) of
          None \<Rightarrow> Inl ValueError
        | Some x_ss \<Rightarrow>
            let session_key = derive_session_key P (kem_ss @ x_ss) hybrid_kex_context;
                kex_blob = kem_ct @ x_public_raw P x_private in
            Inr \<lparr> er_session_key = session_key, er_kex_blob = kex_blob,
                  er_meta = \<lparr> handshake_encrypt_ms = span_ms sp, em_kex_blob_bytes = length kex_blob \<rparr> \<rparr>))"

definition hybrid_kex_verify :: "prims \<Rightarrow> span \<Rightarrow> bytes \<Rightarrow> bytes \<Rightarrow> bytes \<Rightarrow> (bool \<times> verify_meta) res" where
  "hybrid_kex_verify P sp message signature sig_public_key =
     (if \<not> load_der_ok P sig_public_key then Inl ValueError
      else Inr (ec_verify P sig_public_key signature message, mk_verify_meta sp))"

section \<open>The ML-DSA-65 variant\<close>

definition hybrid_kex_pq_kex_algorithm :: string where
  "hybrid_kex_pq_kex_algorithm = ''X25519MLKEM768''"

definition hybrid_kex_pq_sig_algorithm :: string where
  "hybrid_kex_pq_sig_algorithm = MLDSA65_ALGORITHM"

definition hybrid_kex_pq_new_handshake ::
  "prims \<Rightarrow> string \<Rightarrow> rng \<Rightarrow> span \<Rightarrow> string option \<Rightarrow> hybrid_kex_pq_sessions \<Rightarrow> hybrid_kex_pq_sessions \<times> handshake_bundle res" where
  "hybrid_kex_pq_new_handshake P uuid r sp hid sess =
     (let h = str_or hid uuid in
      case bind_res (MLKEM768_keypair P (r 0)) (\<lambda>kem_kp.
           let x_private = x_generate P (r 1) in
           bind_res (MLDSA65_keypair P (r 2)) (\<lambda>sig_kp. Inr (kem_kp, x_private, sig_kp))) of
        Inl e \<Rightarrow> (sess, Inl e)
      | Inr (kem_kp, x_private, sig_kp) \<Rightarrow>
          let sess' = sess(h \<mapsto> \<lparr> hs_kem_secret_key = kp_secret_key kem_kp, hs_x25519_private = x_private,
                                 hq_sig_secret_key = sp_secret_key sig_kp \<rparr>);
              kex_pub = kp_public_key kem_kp @ x_public_raw P x_private in
          (sess', Inr \<lparr> hb_handshake_id = h, hb_kex_public_key = kex_pub, hb_sig_public_key = sp_public_key sig_kp,
                        hb_meta = \<lparr> gen_ms = span_ms sp, kex_public_key_bytes = length kex_pub,
                                    sig_public_key_bytes = length (sp_public_key sig_kp),
                                    meta_kex_algorithm = hybrid_kex_pq_kex_algorithm,
                                    meta_sig_algorithm = hybrid_kex_pq_sig_algorithm \<rparr> \<rparr>))"

text \<open>Inherited: \<^verbatim>\<open>accept\<close>, \<^verbatim>\<open>forget\<close> of the server and \<^verbatim>\<open>establish\<close> of the client.\<close>

definition hybrid_kex_pq_accept ::
  "prims \<Rightarrow> span \<Rightarrow> hybrid_kex_pq_sessions \<Rightarrow> string \<Rightarrow> bytes \<Rightarrow> (bytes \<times> accept_meta) res" where
  "hybrid_kex_pq_accept = hybrid_kex_accept"

definition hybrid_kex_pq_establish :: "prims \<Rightarrow> rng \<Rightarrow> span \<Rightarrow> bytes \<Rightarrow> establish_result res" where
  "hybrid_kex_pq_establish = hybrid_kex_establish"

definition hybrid_kex_pq_sign ::
  "prims \<Rightarrow> tape \<Rightarrow> span \<Rightarrow> hybrid_kex_pq_sessions \<Rightarrow> string \<Rightarrow> bytes \<Rightarrow> (bytes \<times> sign_meta) res" where
  "hybrid_kex_pq_sign P t sp sess hid message =
     bind_res (get_item sess hid) (\<lambda>state.
     bind_res (MLDSA65_sign P t message (hq_sig_secret_key state)) (\<lambda>signature.
     Inr (signature, mk_sign_meta sp signature)))"

definition hybrid_kex_pq_forget :: "string \<Rightarrow> hybrid_kex_pq_sessions \<Rightarrow> hybrid_kex_pq_sessions" where
  "hybrid_kex_pq_forget hid sess = sess(hid := None)"

definition hybrid_kex_pq_verify :: "prims \<Rightarrow> span \<Rightarrow> bytes \<Rightarrow> bytes \<Rightarrow> bytes \<Rightarrow> (bool \<times> verify_meta) res" where
  "hybrid_kex_pq_verify P sp message signature sig_public_key =
     bind_res (MLDSA65_verify P message signature sig_public_key) (\<lambda>ok. Inr (ok, mk_verify_meta sp))"

section \<open>The contract\<close>

definition hybrid_kex_holds :: "prims \<Rightarrow> hybrid_kex_sessions \<Rightarrow> handshake_bundle \<Rightarrow> bool" where
  "hybrid_kex_holds P sess b \<longleftrightarrow> (\<exists>t0 kp t1 t2. MLKEM768_keypair P t0 = Inr kp \<and>
     sess (hb_handshake_id b) = Some \<lparr> hs_kem_secret_key = kp_secret_key kp, hs_x25519_private = x_generate P t1,
                                       hk_ec_private = ec_generate P t2 \<rparr>
     \<and> hb_kex_public_key b = kp_public_key kp @ x_public_raw P (x_generate P t1)
     \<and> hb_sig_public_key b = ec_public_der P (ec_generate P t2))"

definition hybrid_kex_pq_holds :: "prims \<Rightarrow> hybrid_kex_pq_sessions \<Rightarrow> handshake_bundle \<Rightarrow> bool" where
  "hybrid_kex_pq_holds P sess b \<longleftrightarrow> (\<exists>t0 kp t1 t2 skp. MLKEM768_keypair P t0 = Inr kp \<and>
     MLDSA65_keypair P t2 = Inr skp \<and>
     sess (hb_handshake_id b) = Some \<lparr> hs_kem_secret_key = kp_secret_key kp, hs_x25519_private = x_generate P t1,
                                       hq_sig_secret_key = sp_secret_key skp \<rparr>
     \<and> hb_kex_public_key b = kp_public_key kp @ x_public_raw P (x_generate P t1)
     \<and> hb_sig_public_key b = sp_public_key skp)"

lemmas hybrid_kex_defs [config_simps] =
  hybrid_kex_new_handshake_def hybrid_kex_accept_def hybrid_kex_sign_def hybrid_kex_forget_def
  hybrid_kex_establish_def hybrid_kex_verify_def

lemmas hybrid_kex_pq_defs [config_simps] =
  hybrid_kex_pq_new_handshake_def hybrid_kex_pq_accept_def hybrid_kex_pq_sign_def hybrid_kex_pq_forget_def
  hybrid_kex_pq_establish_def hybrid_kex_pq_verify_def

lemma hybrid_kex_holds_upd [simp]:
  "hb_handshake_id b \<noteq> h \<Longrightarrow> hybrid_kex_holds P (s(h := x)) b = hybrid_kex_holds P s b"
  by (simp add: hybrid_kex_holds_def)

lemma hybrid_kex_pq_holds_upd [simp]:
  "hb_handshake_id b \<noteq> h \<Longrightarrow> hybrid_kex_pq_holds P (s(h := x)) b = hybrid_kex_pq_holds P s b"
  by (simp add: hybrid_kex_pq_holds_def)

text \<open>The hybrid key exchange agrees on any state that holds the two private halves.\<close>

lemma kex_shares_agree:
  assumes ok: "kem_ok P" "aead_ok P" "x25519_ok P"
    and kp: "MLKEM768_keypair P t0 = Inr kp" "length (kp_public_key kp) = 1184"
    and st: "sess h = Some st" "hs_kem_secret_key st = kp_secret_key kp" "hs_x25519_private st = x_generate P t1"
  shows "\<exists>e m. hybrid_kex_establish P r sp (kp_public_key kp @ x_public_raw P (x_generate P t1)) = Inr e \<and>
    hybrid_kex_accept P sp' sess h (er_kex_blob e) = Inr (er_session_key e, m) \<and> gcm_key_ok P (er_session_key e) \<and> er_kex_blob e \<noteq> []"
proof -
  obtain ct ss where kem: "MLKEM768_encaps P (r 0) (kp_public_key kp) = Inr (ct, ss)"
      "MLKEM768_decaps P ct (kp_secret_key kp) = Inr ss" "length ct = 1088"
    using MLKEM768_agree [OF ok(1) kp(1)] by blast
  obtain xs where "x_exchange P (x_generate P (r 1)) (x_public_raw P (x_generate P t1)) = Some xs"
      "x_exchange P (x_generate P t1) (x_public_raw P (x_generate P (r 1))) = Some xs"
    using ok(3) by (rule x25519_ok_agree)
  moreover have "ct \<noteq> []" using kem(3) by auto
  ultimately show ?thesis
    using kem kp st ok
    by (simp add: hybrid_kex_establish_def hybrid_kex_accept_def Let_def oqs_sizes X25519_BYTES_def
        x25519_ok_len derived_key_usable)
qed

lemma hybrid_kex_new_holds:
  assumes "hybrid_kex_new_handshake P u r sp hid s = (s', Inr b)"
  shows "hybrid_kex_holds P s' b"
proof -
  obtain kp where "MLKEM768_keypair P (r 0) = Inr kp"
    using assms by (auto simp: config_simps Let_def split: sum.splits)
  then show ?thesis
    unfolding hybrid_kex_holds_def using assms
    by (intro exI [of _ "r 0"] exI [of _ kp] exI [of _ "r 1"] exI [of _ "r 2"]) (auto simp: config_simps Let_def)
qed

lemma hybrid_kex_new_total:
  assumes "prims_ok P"
  shows "\<exists>s' b. hybrid_kex_new_handshake P u r sp hid s = (s', Inr b)"
proof -
  obtain kp where "MLKEM768_keypair P (r 0) = Inr kp"
    using assms MLKEM768_keypair_ok by (auto simp: prims_ok_def)
  then show ?thesis by (auto simp: config_simps Let_def)
qed

lemma hybrid_kex_agree:
  assumes "prims_ok P" "hybrid_kex_holds P s b"
  shows "\<exists>e m. hybrid_kex_establish P r sp (hb_kex_public_key b) = Inr e \<and>
    hybrid_kex_accept P sp' s (hb_handshake_id b) (er_kex_blob e) = Inr (er_session_key e, m) \<and>
    gcm_key_ok P (er_session_key e) \<and> er_kex_blob e \<noteq> []"
proof -
  have ok: "kem_ok P" "aead_ok P" "x25519_ok P" using assms(1) by (simp_all add: prims_ok_def)
  obtain t0 kp t1 st where b: "MLKEM768_keypair P t0 = Inr kp" "s (hb_handshake_id b) = Some st"
      "hs_kem_secret_key st = kp_secret_key kp" "hs_x25519_private st = x_generate P t1"
      "hb_kex_public_key b = kp_public_key kp @ x_public_raw P (x_generate P t1)"
    using assms(2) by (auto simp: hybrid_kex_holds_def)
  have "length (kp_public_key kp) = 1184"
    using b(1) by (simp add: wire_simps)
  from kex_shares_agree [where sess = s and h = "hb_handshake_id b", OF ok b(1) this b(2-4)] show ?thesis
    by (simp add: b(5))
qed

lemma hybrid_kex_sign_verifies:
  assumes "prims_ok P" "hybrid_kex_holds P s b"
  shows "\<exists>sg m m'. hybrid_kex_sign P t sp s (hb_handshake_id b) msg = Inr (sg, m) \<and> signature_bytes m = length sg \<and> sg \<noteq> [] \<and>
    hybrid_kex_verify P sp' msg sg (hb_sig_public_key b) = Inr (True, m')"
  using assms by (auto simp: hybrid_kex_holds_def config_simps Let_def prims_ok_def ec_okD mk_sign_meta_def)

interpretation hybrid_kex_cfg: crypto_config has_session hybrid_kex_new_handshake hybrid_kex_forget
  hybrid_kex_holds hybrid_kex_accept hybrid_kex_sign hybrid_kex_establish hybrid_kex_verify
  by unfold_locales
     (assumption | rule hybrid_kex_agree hybrid_kex_sign_verifies hybrid_kex_new_total | erule hybrid_kex_new_holds
      | (auto simp: config_simps Let_def no_session_get_item split: sum.splits)[1])+

lemma hybrid_kex_pq_new_holds:
  assumes "hybrid_kex_pq_new_handshake P u r sp hid s = (s', Inr b)"
  shows "hybrid_kex_pq_holds P s' b"
proof -
  obtain kp skp where "MLKEM768_keypair P (r 0) = Inr kp" "MLDSA65_keypair P (r 2) = Inr skp"
    using assms by (auto simp: config_simps Let_def bind_res_eq_Inl split: sum.splits)
  then show ?thesis
    unfolding hybrid_kex_pq_holds_def using assms
    by (intro exI [of _ "r 0"] exI [of _ kp] exI [of _ "r 1"] exI [of _ "r 2"] exI [of _ skp])
       (auto simp: config_simps Let_def)
qed

lemma hybrid_kex_pq_new_total:
  assumes "prims_ok P"
  shows "\<exists>s' b. hybrid_kex_pq_new_handshake P u r sp hid s = (s', Inr b)"
proof -
  obtain kp skp where "MLKEM768_keypair P (r 0) = Inr kp" "MLDSA65_keypair P (r 2) = Inr skp"
    using assms MLKEM768_keypair_ok MLDSA65_keypair_ok by (metis prims_ok_def)
  then show ?thesis by (auto simp: config_simps Let_def)
qed

lemma hybrid_kex_pq_agree:
  assumes "prims_ok P" "hybrid_kex_pq_holds P s b"
  shows "\<exists>e m. hybrid_kex_pq_establish P r sp (hb_kex_public_key b) = Inr e \<and>
    hybrid_kex_pq_accept P sp' s (hb_handshake_id b) (er_kex_blob e) = Inr (er_session_key e, m) \<and>
    gcm_key_ok P (er_session_key e) \<and> er_kex_blob e \<noteq> []"
proof -
  have ok: "kem_ok P" "aead_ok P" "x25519_ok P" using assms(1) by (simp_all add: prims_ok_def)
  obtain t0 kp t1 st where b: "MLKEM768_keypair P t0 = Inr kp" "s (hb_handshake_id b) = Some st"
      "hs_kem_secret_key st = kp_secret_key kp" "hs_x25519_private st = x_generate P t1"
      "hb_kex_public_key b = kp_public_key kp @ x_public_raw P (x_generate P t1)"
    using assms(2) by (auto simp: hybrid_kex_pq_holds_def)
  have "length (kp_public_key kp) = 1184"
    using b(1) by (simp add: wire_simps)
  from kex_shares_agree [where sess = s and h = "hb_handshake_id b", OF ok b(1) this b(2-4)] show ?thesis
    by (simp add: b(5) hybrid_kex_pq_accept_def hybrid_kex_pq_establish_def)
qed

lemma hybrid_kex_pq_sign_verifies:
  assumes "prims_ok P" "hybrid_kex_pq_holds P s b"
  shows "\<exists>sg m m'. hybrid_kex_pq_sign P t sp s (hb_handshake_id b) msg = Inr (sg, m) \<and> signature_bytes m = length sg \<and> sg \<noteq> [] \<and>
    hybrid_kex_pq_verify P sp' msg sg (hb_sig_public_key b) = Inr (True, m')"
proof -
  have ok: "dsa_ok P" using assms(1) by (simp add: prims_ok_def)
  obtain t1 skp st where skp: "MLDSA65_keypair P t1 = Inr skp" "s (hb_handshake_id b) = Some st"
      "hq_sig_secret_key st = sp_secret_key skp" "hb_sig_public_key b = sp_public_key skp"
    using assms(2) by (auto simp: hybrid_kex_pq_holds_def)
  obtain sg where "MLDSA65_sign P t msg (sp_secret_key skp) = Inr sg" "length sg = 3309"
      "MLDSA65_verify P msg sg (sp_public_key skp) = Inr True"
    using MLDSA65_sign_verify [OF ok skp(1)] by blast
  moreover from this have "sg \<noteq> []" by auto
  ultimately show ?thesis
    using skp by (auto simp: config_simps mk_sign_meta_def intro: exI [of _ True])
qed

interpretation hybrid_kex_pq_cfg: crypto_config has_session hybrid_kex_pq_new_handshake hybrid_kex_pq_forget
  hybrid_kex_pq_holds hybrid_kex_pq_accept hybrid_kex_pq_sign hybrid_kex_pq_establish hybrid_kex_pq_verify
  by unfold_locales
     (assumption | rule hybrid_kex_pq_agree hybrid_kex_pq_sign_verifies hybrid_kex_pq_new_total | erule hybrid_kex_pq_new_holds
      | (auto simp: config_simps Let_def no_session_get_item split: sum.splits)[1])+

end
