(* ===== verification/FullPqcConfig.thy ===== *)
theory FullPqcConfig
  imports CryptoBase
begin

text \<open>
  Configuration C: \<^verbatim>\<open>crypto/full_pqc.py\<close>. ML-KEM-768 with ML-DSA-65 signatures. Verification
  under a public key of the wrong length raises \<open>OQSAdapterError\<close> instead of answering \<^verbatim>\<open>False\<close>.
\<close>

record full_pqc_state =
  fp_kem_secret_key :: bytes
  fp_sig_secret_key :: bytes

type_synonym full_pqc_sessions = "string \<rightharpoonup> full_pqc_state"

definition full_pqc_kex_algorithm :: string where
  "full_pqc_kex_algorithm = MLKEM768_ALGORITHM"

definition full_pqc_sig_algorithm :: string where
  "full_pqc_sig_algorithm = MLDSA65_ALGORITHM"

definition full_pqc_context :: bytes where
  "full_pqc_context = encode ''pq-shield-full-pqc''"

definition full_pqc_new_handshake ::
  "prims \<Rightarrow> string \<Rightarrow> rng \<Rightarrow> span \<Rightarrow> string option \<Rightarrow> full_pqc_sessions \<Rightarrow> full_pqc_sessions \<times> handshake_bundle res" where
  "full_pqc_new_handshake P uuid r sp hid sess =
     (let h = str_or hid uuid in
      case bind_res (MLKEM768_keypair P (r 0)) (\<lambda>kem_kp.
           bind_res (MLDSA65_keypair P (r 1)) (\<lambda>sig_kp. Inr (kem_kp, sig_kp))) of
        Inl e \<Rightarrow> (sess, Inl e)
      | Inr (kem_kp, sig_kp) \<Rightarrow>
          let sess' = sess(h \<mapsto> \<lparr> fp_kem_secret_key = kp_secret_key kem_kp, fp_sig_secret_key = sp_secret_key sig_kp \<rparr>) in
          (sess', Inr \<lparr> hb_handshake_id = h, hb_kex_public_key = kp_public_key kem_kp, hb_sig_public_key = sp_public_key sig_kp,
                        hb_meta = \<lparr> gen_ms = span_ms sp, kex_public_key_bytes = length (kp_public_key kem_kp),
                                    sig_public_key_bytes = length (sp_public_key sig_kp),
                                    meta_kex_algorithm = full_pqc_kex_algorithm,
                                    meta_sig_algorithm = full_pqc_sig_algorithm \<rparr> \<rparr>))"

definition full_pqc_accept ::
  "prims \<Rightarrow> span \<Rightarrow> full_pqc_sessions \<Rightarrow> string \<Rightarrow> bytes \<Rightarrow> (bytes \<times> accept_meta) res" where
  "full_pqc_accept P sp sess hid kex_blob =
     bind_res (get_item sess hid) (\<lambda>state.
     bind_res (MLKEM768_decaps P kex_blob (fp_kem_secret_key state)) (\<lambda>raw_secret.
     Inr (derive_session_key P raw_secret full_pqc_context,
          \<lparr> decapsulate_ms = span_ms sp, am_kex_blob_bytes = length kex_blob \<rparr>)))"

definition full_pqc_sign ::
  "prims \<Rightarrow> tape \<Rightarrow> span \<Rightarrow> full_pqc_sessions \<Rightarrow> string \<Rightarrow> bytes \<Rightarrow> (bytes \<times> sign_meta) res" where
  "full_pqc_sign P t sp sess hid message =
     bind_res (get_item sess hid) (\<lambda>state.
     bind_res (MLDSA65_sign P t message (fp_sig_secret_key state)) (\<lambda>signature.
     Inr (signature, mk_sign_meta sp signature)))"

definition full_pqc_forget :: "string \<Rightarrow> full_pqc_sessions \<Rightarrow> full_pqc_sessions" where
  "full_pqc_forget hid sess = sess(hid := None)"

definition full_pqc_establish :: "prims \<Rightarrow> rng \<Rightarrow> span \<Rightarrow> bytes \<Rightarrow> establish_result res" where
  "full_pqc_establish P r sp kex_public_key =
     bind_res (MLKEM768_encaps P (r 0) kex_public_key) (\<lambda>(kex_blob, raw_secret).
     let session_key = derive_session_key P raw_secret full_pqc_context in
     Inr \<lparr> er_session_key = session_key, er_kex_blob = kex_blob,
           er_meta = \<lparr> handshake_encrypt_ms = span_ms sp, em_kex_blob_bytes = length kex_blob \<rparr> \<rparr>)"

definition full_pqc_verify :: "prims \<Rightarrow> span \<Rightarrow> bytes \<Rightarrow> bytes \<Rightarrow> bytes \<Rightarrow> (bool \<times> verify_meta) res" where
  "full_pqc_verify P sp message signature sig_public_key =
     bind_res (MLDSA65_verify P message signature sig_public_key) (\<lambda>ok. Inr (ok, mk_verify_meta sp))"

section \<open>The contract\<close>

definition full_pqc_holds :: "prims \<Rightarrow> full_pqc_sessions \<Rightarrow> handshake_bundle \<Rightarrow> bool" where
  "full_pqc_holds P sess b \<longleftrightarrow> (\<exists>t0 kp t1 skp. MLKEM768_keypair P t0 = Inr kp \<and> MLDSA65_keypair P t1 = Inr skp \<and>
     sess (hb_handshake_id b) = Some \<lparr> fp_kem_secret_key = kp_secret_key kp, fp_sig_secret_key = sp_secret_key skp \<rparr>
     \<and> hb_kex_public_key b = kp_public_key kp
     \<and> hb_sig_public_key b = sp_public_key skp)"

lemmas full_pqc_defs [config_simps] =
  full_pqc_new_handshake_def full_pqc_accept_def full_pqc_sign_def full_pqc_forget_def
  full_pqc_establish_def full_pqc_verify_def

lemma full_pqc_holds_upd [simp]:
  "hb_handshake_id b \<noteq> h \<Longrightarrow> full_pqc_holds P (s(h := x)) b = full_pqc_holds P s b"
  by (simp add: full_pqc_holds_def)

lemma full_pqc_new_holds:
  assumes "full_pqc_new_handshake P u r sp hid s = (s', Inr b)"
  shows "full_pqc_holds P s' b"
proof -
  obtain kp skp where "MLKEM768_keypair P (r 0) = Inr kp" "MLDSA65_keypair P (r 1) = Inr skp"
    using assms by (auto simp: config_simps Let_def bind_res_eq_Inl split: sum.splits)
  then show ?thesis
    unfolding full_pqc_holds_def using assms
    by (intro exI [of _ "r 0"] exI [of _ kp] exI [of _ "r 1"] exI [of _ skp]) (auto simp: config_simps Let_def)
qed

lemma full_pqc_new_total:
  assumes "prims_ok P"
  shows "\<exists>s' b. full_pqc_new_handshake P u r sp hid s = (s', Inr b)"
proof -
  obtain kp skp where "MLKEM768_keypair P (r 0) = Inr kp" "MLDSA65_keypair P (r 1) = Inr skp"
    using assms MLKEM768_keypair_ok MLDSA65_keypair_ok by (metis prims_ok_def)
  then show ?thesis by (auto simp: config_simps Let_def)
qed

lemma full_pqc_agree:
  assumes "prims_ok P" "full_pqc_holds P s b"
  shows "\<exists>e m. full_pqc_establish P r sp (hb_kex_public_key b) = Inr e \<and>
    full_pqc_accept P sp' s (hb_handshake_id b) (er_kex_blob e) = Inr (er_session_key e, m) \<and>
    gcm_key_ok P (er_session_key e) \<and> er_kex_blob e \<noteq> []"
proof -
  have ok: "kem_ok P" "aead_ok P" using assms(1) by (simp_all add: prims_ok_def)
  obtain t0 kp t1 skp where b: "MLKEM768_keypair P t0 = Inr kp"
      "s (hb_handshake_id b) = Some \<lparr> fp_kem_secret_key = kp_secret_key kp, fp_sig_secret_key = sp_secret_key skp \<rparr>"
      "hb_kex_public_key b = kp_public_key kp" "MLDSA65_keypair P t1 = Inr skp"
    using assms(2) unfolding full_pqc_holds_def by blast
  obtain ct ss where "MLKEM768_encaps P (r 0) (kp_public_key kp) = Inr (ct, ss)"
      "MLKEM768_decaps P ct (kp_secret_key kp) = Inr ss" "length ct = 1088"
    using MLKEM768_agree [OF ok(1) b(1)] by blast
  moreover from this have "ct \<noteq> []" by auto
  ultimately show ?thesis
    using b ok by (simp add: config_simps Let_def derived_key_usable)
qed

lemma full_pqc_sign_verifies:
  assumes "prims_ok P" "full_pqc_holds P s b"
  shows "\<exists>sg m m'. full_pqc_sign P t sp s (hb_handshake_id b) msg = Inr (sg, m) \<and> signature_bytes m = length sg \<and> sg \<noteq> [] \<and>
    full_pqc_verify P sp' msg sg (hb_sig_public_key b) = Inr (True, m')"
proof -
  have ok: "dsa_ok P" using assms(1) by (simp add: prims_ok_def)
  obtain t1 skp st where skp: "MLDSA65_keypair P t1 = Inr skp" "s (hb_handshake_id b) = Some st"
      "fp_sig_secret_key st = sp_secret_key skp" "hb_sig_public_key b = sp_public_key skp"
    using assms(2) by (auto simp: full_pqc_holds_def)
  obtain sg where "MLDSA65_sign P t msg (sp_secret_key skp) = Inr sg" "length sg = 3309"
      "MLDSA65_verify P msg sg (sp_public_key skp) = Inr True"
    using MLDSA65_sign_verify [OF ok skp(1)] by blast
  moreover from this have "sg \<noteq> []" by auto
  ultimately show ?thesis
    using skp by (auto simp: config_simps mk_sign_meta_def intro: exI [of _ True])
qed

interpretation full_pqc_cfg: crypto_config has_session full_pqc_new_handshake full_pqc_forget
  full_pqc_holds full_pqc_accept full_pqc_sign full_pqc_establish full_pqc_verify
  by unfold_locales
     (assumption | rule full_pqc_agree full_pqc_sign_verifies full_pqc_new_total | erule full_pqc_new_holds
      | (auto simp: config_simps Let_def no_session_get_item split: sum.splits)[1])+

end
