(* ===== verification/Registry.thy ===== *)
theory Registry
  imports ClassicalConfig EcdheConfig HybridConfig HybridKexConfig FullPqcConfig
begin

text \<open>
  \<^verbatim>\<open>crypto/registry.py\<close>: the lookup from a configuration's name to its two classes. An
  instance of a server class is a constructor applied to its \<^verbatim>\<open>_sessions\<close> dictionary, a method
  call dispatches on the constructor. The client classes have no state.
\<close>

section \<open>Instances and lookup\<close>

datatype server_crypto =
    ClassicalServer classical_sessions
  | EcdheServer ecdhe_sessions
  | HybridServer hybrid_sessions
  | HybridKexServer hybrid_kex_sessions
  | FullPqcServer full_pqc_sessions
  | HybridKexPqServer hybrid_kex_pq_sessions

datatype client_crypto = ClassicalClient | EcdheClient | HybridClient | HybridKexClient | FullPqcClient | HybridKexPqClient

definition CONFIGS :: "(string \<times> server_crypto \<times> client_crypto) list" where
  "CONFIGS = [(''classical'', ClassicalServer Map.empty, ClassicalClient),
     (''classical_ecdhe'', EcdheServer Map.empty, EcdheClient),
     (''hybrid'', HybridServer Map.empty, HybridClient),
     (''hybrid_kex'', HybridKexServer Map.empty, HybridKexClient),
     (''full_pqc'', FullPqcServer Map.empty, FullPqcClient),
     (''hybrid_kex_pq'', HybridKexPqServer Map.empty, HybridKexPqClient)]"

definition CONFIG_NAMES :: "string list" where
  "CONFIG_NAMES = map fst CONFIGS"

definition get_server_crypto :: "string \<Rightarrow> server_crypto res" where
  "get_server_crypto config_name = map_sum id fst (get_item (map_of CONFIGS) config_name)"

definition get_client_crypto :: "string \<Rightarrow> client_crypto res" where
  "get_client_crypto config_name = map_sum id snd (get_item (map_of CONFIGS) config_name)"

section \<open>Methods\<close>

fun server_client ::
  "server_crypto \<Rightarrow> client_crypto" where
  "server_client (ClassicalServer s) = ClassicalClient"
| "server_client (EcdheServer s) = EcdheClient"
| "server_client (HybridServer s) = HybridClient"
| "server_client (HybridKexServer s) = HybridKexClient"
| "server_client (FullPqcServer s) = FullPqcClient"
| "server_client (HybridKexPqServer s) = HybridKexPqClient"

fun srv_new_handshake ::
  "prims \<Rightarrow> string \<Rightarrow> rng \<Rightarrow> span \<Rightarrow> string option \<Rightarrow> server_crypto \<Rightarrow> server_crypto \<times> handshake_bundle res" where
  "srv_new_handshake P u r sp hid (ClassicalServer s) = apfst ClassicalServer (classical_new_handshake P u r sp hid s)"
| "srv_new_handshake P u r sp hid (EcdheServer s) = apfst EcdheServer (ecdhe_new_handshake P u r sp hid s)"
| "srv_new_handshake P u r sp hid (HybridServer s) = apfst HybridServer (hybrid_new_handshake P u r sp hid s)"
| "srv_new_handshake P u r sp hid (HybridKexServer s) = apfst HybridKexServer (hybrid_kex_new_handshake P u r sp hid s)"
| "srv_new_handshake P u r sp hid (FullPqcServer s) = apfst FullPqcServer (full_pqc_new_handshake P u r sp hid s)"
| "srv_new_handshake P u r sp hid (HybridKexPqServer s) = apfst HybridKexPqServer (hybrid_kex_pq_new_handshake P u r sp hid s)"

fun srv_accept ::
  "prims \<Rightarrow> span \<Rightarrow> server_crypto \<Rightarrow> string \<Rightarrow> bytes \<Rightarrow> (bytes \<times> accept_meta) res" where
  "srv_accept P sp (ClassicalServer s) hid blob = classical_accept P sp s hid blob"
| "srv_accept P sp (EcdheServer s) hid blob = ecdhe_accept P sp s hid blob"
| "srv_accept P sp (HybridServer s) hid blob = hybrid_accept P sp s hid blob"
| "srv_accept P sp (HybridKexServer s) hid blob = hybrid_kex_accept P sp s hid blob"
| "srv_accept P sp (FullPqcServer s) hid blob = full_pqc_accept P sp s hid blob"
| "srv_accept P sp (HybridKexPqServer s) hid blob = hybrid_kex_pq_accept P sp s hid blob"

fun srv_sign ::
  "prims \<Rightarrow> tape \<Rightarrow> span \<Rightarrow> server_crypto \<Rightarrow> string \<Rightarrow> bytes \<Rightarrow> (bytes \<times> sign_meta) res" where
  "srv_sign P t sp (ClassicalServer s) hid msg = classical_sign P t sp s hid msg"
| "srv_sign P t sp (EcdheServer s) hid msg = ecdhe_sign P t sp s hid msg"
| "srv_sign P t sp (HybridServer s) hid msg = hybrid_sign P t sp s hid msg"
| "srv_sign P t sp (HybridKexServer s) hid msg = hybrid_kex_sign P t sp s hid msg"
| "srv_sign P t sp (FullPqcServer s) hid msg = full_pqc_sign P t sp s hid msg"
| "srv_sign P t sp (HybridKexPqServer s) hid msg = hybrid_kex_pq_sign P t sp s hid msg"

fun srv_forget ::
  "string \<Rightarrow> server_crypto \<Rightarrow> server_crypto" where
  "srv_forget hid (ClassicalServer s) = ClassicalServer (classical_forget hid s)"
| "srv_forget hid (EcdheServer s) = EcdheServer (ecdhe_forget hid s)"
| "srv_forget hid (HybridServer s) = HybridServer (hybrid_forget hid s)"
| "srv_forget hid (HybridKexServer s) = HybridKexServer (hybrid_kex_forget hid s)"
| "srv_forget hid (FullPqcServer s) = FullPqcServer (full_pqc_forget hid s)"
| "srv_forget hid (HybridKexPqServer s) = HybridKexPqServer (hybrid_kex_pq_forget hid s)"

fun srv_name ::
  "server_crypto \<Rightarrow> string" where
  "srv_name (ClassicalServer s) = ''classical''"
| "srv_name (EcdheServer s) = ''classical_ecdhe''"
| "srv_name (HybridServer s) = ''hybrid''"
| "srv_name (HybridKexServer s) = ''hybrid_kex''"
| "srv_name (FullPqcServer s) = ''full_pqc''"
| "srv_name (HybridKexPqServer s) = ''hybrid_kex_pq''"

fun srv_kex_algorithm ::
  "server_crypto \<Rightarrow> string" where
  "srv_kex_algorithm (ClassicalServer s) = classical_kex_algorithm"
| "srv_kex_algorithm (EcdheServer s) = ecdhe_kex_algorithm"
| "srv_kex_algorithm (HybridServer s) = hybrid_kex_algorithm"
| "srv_kex_algorithm (HybridKexServer s) = hybrid_kex_kex_algorithm"
| "srv_kex_algorithm (FullPqcServer s) = full_pqc_kex_algorithm"
| "srv_kex_algorithm (HybridKexPqServer s) = hybrid_kex_pq_kex_algorithm"

fun srv_sig_algorithm ::
  "server_crypto \<Rightarrow> string" where
  "srv_sig_algorithm (ClassicalServer s) = classical_sig_algorithm"
| "srv_sig_algorithm (EcdheServer s) = ecdhe_sig_algorithm"
| "srv_sig_algorithm (HybridServer s) = hybrid_sig_algorithm"
| "srv_sig_algorithm (HybridKexServer s) = hybrid_kex_sig_algorithm"
| "srv_sig_algorithm (FullPqcServer s) = full_pqc_sig_algorithm"
| "srv_sig_algorithm (HybridKexPqServer s) = hybrid_kex_pq_sig_algorithm"

fun cl_name ::
  "client_crypto \<Rightarrow> string" where
  "cl_name ClassicalClient = ''classical''"
| "cl_name EcdheClient = ''classical_ecdhe''"
| "cl_name HybridClient = ''hybrid''"
| "cl_name HybridKexClient = ''hybrid_kex''"
| "cl_name FullPqcClient = ''full_pqc''"
| "cl_name HybridKexPqClient = ''hybrid_kex_pq''"

fun cl_establish ::
  "prims \<Rightarrow> rng \<Rightarrow> span \<Rightarrow> client_crypto \<Rightarrow> bytes \<Rightarrow> establish_result res" where
  "cl_establish P r sp ClassicalClient pk = classical_establish P r sp pk"
| "cl_establish P r sp EcdheClient pk = ecdhe_establish P r sp pk"
| "cl_establish P r sp HybridClient pk = hybrid_establish P r sp pk"
| "cl_establish P r sp HybridKexClient pk = hybrid_kex_establish P r sp pk"
| "cl_establish P r sp FullPqcClient pk = full_pqc_establish P r sp pk"
| "cl_establish P r sp HybridKexPqClient pk = hybrid_kex_pq_establish P r sp pk"

fun cl_verify ::
  "prims \<Rightarrow> span \<Rightarrow> client_crypto \<Rightarrow> bytes \<Rightarrow> bytes \<Rightarrow> bytes \<Rightarrow> (bool \<times> verify_meta) res" where
  "cl_verify P sp ClassicalClient msg sg pk = classical_verify P sp msg sg pk"
| "cl_verify P sp EcdheClient msg sg pk = ecdhe_verify P sp msg sg pk"
| "cl_verify P sp HybridClient msg sg pk = hybrid_verify P sp msg sg pk"
| "cl_verify P sp HybridKexClient msg sg pk = hybrid_kex_verify P sp msg sg pk"
| "cl_verify P sp FullPqcClient msg sg pk = full_pqc_verify P sp msg sg pk"
| "cl_verify P sp HybridKexPqClient msg sg pk = hybrid_kex_pq_verify P sp msg sg pk"

section \<open>The table of live handshakes of an instance\<close>

fun srv_live ::
  "server_crypto \<Rightarrow> string \<Rightarrow> bool" where
  "srv_live (ClassicalServer s) h = has_session s h"
| "srv_live (EcdheServer s) h = has_session s h"
| "srv_live (HybridServer s) h = has_session s h"
| "srv_live (HybridKexServer s) h = has_session s h"
| "srv_live (FullPqcServer s) h = has_session s h"
| "srv_live (HybridKexPqServer s) h = has_session s h"

fun srv_holds ::
  "prims \<Rightarrow> server_crypto \<Rightarrow> handshake_bundle \<Rightarrow> bool" where
  "srv_holds P (ClassicalServer s) b = classical_holds P s b"
| "srv_holds P (EcdheServer s) b = ecdhe_holds P s b"
| "srv_holds P (HybridServer s) b = hybrid_holds P s b"
| "srv_holds P (HybridKexServer s) b = hybrid_kex_holds P s b"
| "srv_holds P (FullPqcServer s) b = full_pqc_holds P s b"
| "srv_holds P (HybridKexPqServer s) b = hybrid_kex_pq_holds P s b"

lemma apfst_eq_Pair: "apfst f x = (a, b) \<longleftrightarrow> (\<exists>c. x = (c, b) \<and> a = f c)"
  by (cases x) auto

interpretation srv_table: session_table srv_live srv_new_handshake srv_forget
proof
  fix P u r sp hid s s' b rb k h
  show "srv_new_handshake P u r sp hid s = (s', Inr b) \<Longrightarrow> srv_live s' k \<longleftrightarrow> k = hb_handshake_id b \<or> srv_live s k"
    by (cases s) (auto simp: apfst_eq_Pair classical_cfg.open_live
        ecdhe_cfg.open_live
        hybrid_cfg.open_live
        hybrid_kex_cfg.open_live
        full_pqc_cfg.open_live
        hybrid_kex_pq_cfg.open_live)
  show "srv_new_handshake P u r sp hid s = (s', Inr b) \<Longrightarrow> hb_handshake_id b = str_or hid u"
    by (cases s) (auto simp: apfst_eq_Pair classical_cfg.open_id
        ecdhe_cfg.open_id
        hybrid_cfg.open_id
        hybrid_kex_cfg.open_id
        full_pqc_cfg.open_id
        hybrid_kex_pq_cfg.open_id)
  show "srv_new_handshake P u r sp hid s = (s', rb) \<Longrightarrow> k \<noteq> str_or hid u \<Longrightarrow> srv_live s' k \<longleftrightarrow> srv_live s k"
    by (cases s) (auto simp: apfst_eq_Pair classical_cfg.open_other
        ecdhe_cfg.open_other
        hybrid_cfg.open_other
        hybrid_kex_cfg.open_other
        full_pqc_cfg.open_other
        hybrid_kex_pq_cfg.open_other)
  show "srv_live (srv_forget h s) k \<longleftrightarrow> srv_live s k \<and> k \<noteq> h"
    by (cases s) (auto simp: classical_cfg.drop_live ecdhe_cfg.drop_live hybrid_cfg.drop_live hybrid_kex_cfg.drop_live full_pqc_cfg.drop_live hybrid_kex_pq_cfg.drop_live)
qed

section \<open>The contract, for every instance\<close>

lemma srv_new_total:
  assumes "prims_ok P"
  shows "\<exists>srv' b. srv_new_handshake P u r sp hid srv = (srv', Inr b)"
proof (cases srv)
  case (ClassicalServer s)
  then show ?thesis
    using classical_cfg.new_total [OF assms, of u r sp hid s] by (auto simp: apfst_eq_Pair)
next
  case (EcdheServer s)
  then show ?thesis
    using ecdhe_cfg.new_total [OF assms, of u r sp hid s] by (auto simp: apfst_eq_Pair)
next
  case (HybridServer s)
  then show ?thesis
    using hybrid_cfg.new_total [OF assms, of u r sp hid s] by (auto simp: apfst_eq_Pair)
next
  case (HybridKexServer s)
  then show ?thesis
    using hybrid_kex_cfg.new_total [OF assms, of u r sp hid s] by (auto simp: apfst_eq_Pair)
next
  case (FullPqcServer s)
  then show ?thesis
    using full_pqc_cfg.new_total [OF assms, of u r sp hid s] by (auto simp: apfst_eq_Pair)
next
  case (HybridKexPqServer s)
  then show ?thesis
    using hybrid_kex_pq_cfg.new_total [OF assms, of u r sp hid s] by (auto simp: apfst_eq_Pair)
qed

lemma srv_new_client:
  "srv_new_handshake P u r sp hid srv = (srv', rb) \<Longrightarrow> server_client srv' = server_client srv"
  by (cases srv) (auto simp: apfst_eq_Pair)

lemma srv_forget_client [simp]: "server_client (srv_forget h srv) = server_client srv"
  by (cases srv) auto

lemma srv_new_holds:
  assumes "prims_ok P" "srv_new_handshake P u r sp hid srv = (srv', Inr b)"
  shows "srv_holds P srv' b"
  using assms by (cases srv) (auto simp: apfst_eq_Pair intro: classical_cfg.new_holds
      ecdhe_cfg.new_holds
      hybrid_cfg.new_holds
      hybrid_kex_cfg.new_holds
      full_pqc_cfg.new_holds
      hybrid_kex_pq_cfg.new_holds)

lemma srv_new_keeps:
  assumes "srv_new_handshake P u r sp hid srv = (srv', rb)" "srv_holds P srv b" "hb_handshake_id b \<noteq> str_or hid u"
  shows "srv_holds P srv' b"
  using assms by (cases srv) (auto simp: apfst_eq_Pair intro: classical_cfg.new_keeps
      ecdhe_cfg.new_keeps
      hybrid_cfg.new_keeps
      hybrid_kex_cfg.new_keeps
      full_pqc_cfg.new_keeps
      hybrid_kex_pq_cfg.new_keeps)

lemma srv_forget_keeps:
  "srv_holds P srv b \<Longrightarrow> hb_handshake_id b \<noteq> h \<Longrightarrow> srv_holds P (srv_forget h srv) b"
  by (cases srv) (auto intro: classical_cfg.forget_keeps
      ecdhe_cfg.forget_keeps
      hybrid_cfg.forget_keeps
      hybrid_kex_cfg.forget_keeps
      full_pqc_cfg.forget_keeps
      hybrid_kex_pq_cfg.forget_keeps)

lemma srv_agree:
  assumes "prims_ok P" "srv_holds P srv b"
  shows "\<exists>e m. cl_establish P r sp (server_client srv) (hb_kex_public_key b) = Inr e \<and>
    srv_accept P sp' srv (hb_handshake_id b) (er_kex_blob e) = Inr (er_session_key e, m) \<and>
    gcm_key_ok P (er_session_key e) \<and> er_kex_blob e \<noteq> []"
proof (cases srv)
  case (ClassicalServer s)
  then show ?thesis
    using classical_cfg.agree [OF assms(1), of s b r sp sp'] assms(2) by simp
next
  case (EcdheServer s)
  then show ?thesis
    using ecdhe_cfg.agree [OF assms(1), of s b r sp sp'] assms(2) by simp
next
  case (HybridServer s)
  then show ?thesis
    using hybrid_cfg.agree [OF assms(1), of s b r sp sp'] assms(2) by simp
next
  case (HybridKexServer s)
  then show ?thesis
    using hybrid_kex_cfg.agree [OF assms(1), of s b r sp sp'] assms(2) by simp
next
  case (FullPqcServer s)
  then show ?thesis
    using full_pqc_cfg.agree [OF assms(1), of s b r sp sp'] assms(2) by simp
next
  case (HybridKexPqServer s)
  then show ?thesis
    using hybrid_kex_pq_cfg.agree [OF assms(1), of s b r sp sp'] assms(2) by simp
qed

lemma srv_sign_verifies:
  assumes "prims_ok P" "srv_holds P srv b"
  shows "\<exists>sg m m'. srv_sign P t sp srv (hb_handshake_id b) msg = Inr (sg, m) \<and> signature_bytes m = length sg \<and> sg \<noteq> [] \<and>
    cl_verify P sp' (server_client srv) msg sg (hb_sig_public_key b) = Inr (True, m')"
proof (cases srv)
  case (ClassicalServer s)
  then show ?thesis
    using classical_cfg.sign_verifies [OF assms(1), of s b t sp msg sp'] assms(2) by simp
next
  case (EcdheServer s)
  then show ?thesis
    using ecdhe_cfg.sign_verifies [OF assms(1), of s b t sp msg sp'] assms(2) by simp
next
  case (HybridServer s)
  then show ?thesis
    using hybrid_cfg.sign_verifies [OF assms(1), of s b t sp msg sp'] assms(2) by simp
next
  case (HybridKexServer s)
  then show ?thesis
    using hybrid_kex_cfg.sign_verifies [OF assms(1), of s b t sp msg sp'] assms(2) by simp
next
  case (FullPqcServer s)
  then show ?thesis
    using full_pqc_cfg.sign_verifies [OF assms(1), of s b t sp msg sp'] assms(2) by simp
next
  case (HybridKexPqServer s)
  then show ?thesis
    using hybrid_kex_pq_cfg.sign_verifies [OF assms(1), of s b t sp msg sp'] assms(2) by simp
qed

lemma srv_dead_accept:
  assumes "\<not> srv_live srv h"
  shows "srv_accept P sp srv h blob = Inl KeyError"
proof (cases srv)
  case (ClassicalServer s)
  then show ?thesis
    using assms classical_cfg.dead_accept [of s h] by simp
next
  case (EcdheServer s)
  then show ?thesis
    using assms ecdhe_cfg.dead_accept [of s h] by simp
next
  case (HybridServer s)
  then show ?thesis
    using assms hybrid_cfg.dead_accept [of s h] by simp
next
  case (HybridKexServer s)
  then show ?thesis
    using assms hybrid_kex_cfg.dead_accept [of s h] by simp
next
  case (FullPqcServer s)
  then show ?thesis
    using assms full_pqc_cfg.dead_accept [of s h] by simp
next
  case (HybridKexPqServer s)
  then show ?thesis
    using assms hybrid_kex_pq_cfg.dead_accept [of s h] by simp
qed

lemma srv_dead_sign:
  assumes "\<not> srv_live srv h"
  shows "srv_sign P t sp srv h msg = Inl KeyError"
proof (cases srv)
  case (ClassicalServer s)
  then show ?thesis
    using assms classical_cfg.dead_sign [of s h] by simp
next
  case (EcdheServer s)
  then show ?thesis
    using assms ecdhe_cfg.dead_sign [of s h] by simp
next
  case (HybridServer s)
  then show ?thesis
    using assms hybrid_cfg.dead_sign [of s h] by simp
next
  case (HybridKexServer s)
  then show ?thesis
    using assms hybrid_kex_cfg.dead_sign [of s h] by simp
next
  case (FullPqcServer s)
  then show ?thesis
    using assms full_pqc_cfg.dead_sign [of s h] by simp
next
  case (HybridKexPqServer s)
  then show ?thesis
    using assms hybrid_kex_pq_cfg.dead_sign [of s h] by simp
qed


end
