(* ===== verification/HandshakeAuth.thy ===== *)
theory HandshakeAuth
  imports Base64 Registry
begin

text \<open>
  \<^verbatim>\<open>crypto/handshake_auth.py\<close>: the handshake transcript, the long-term identity key that
  signs it, and the client's check against a pinned identity. The JSON object of a handshake is
  the map of its string fields.
\<close>

section \<open>The transcript\<close>

definition HS_DOMAIN :: bytes where
  "HS_DOMAIN = encode ''PQ-Shield-handshake-v1''"

definition ECDSA :: string where
  "ECDSA = ''ECDSA-P256-SHA256''"

text \<open>\<^verbatim>\<open>struct.pack(">I", n)\<close> raises on a length that does not fit 32 bits.\<close>

definition hs_field :: "bytes \<Rightarrow> bytes res" where
  "hs_field b = (if length b < 2 ^ 32 then Inr (be32 (length b) @ b) else Inl StructError)"

definition transcript :: "prims \<Rightarrow> string \<Rightarrow> string \<Rightarrow> string \<Rightarrow> bytes \<Rightarrow> bytes \<Rightarrow> bytes res" where
  "transcript P handshake_id kex_algorithm sig_algorithm kex_public_key sig_public_key =
     bind_res (map_res hs_field [encode handshake_id, encode kex_algorithm, encode sig_algorithm,
                                 kex_public_key, sig_public_key])
       (\<lambda>fields. Inr (sha256 P (HS_DOMAIN @ [0] @ concat fields)))"

definition identity_algorithm_for :: "string \<Rightarrow> string" where
  "identity_algorithm_for sig_algorithm = (if sig_algorithm = MLDSA65_ALGORITHM then MLDSA65_ALGORITHM else ECDSA)"

section \<open>The identity key\<close>

record identity_key =
  ik_algorithm :: string
  ik_public_key :: bytes
  ik_secret :: bytes

definition identity_generate :: "prims \<Rightarrow> tape \<Rightarrow> string \<Rightarrow> identity_key res" where
  "identity_generate P t algorithm =
     (if algorithm = MLDSA65_ALGORITHM then
        bind_res (MLDSA65_keypair P t) (\<lambda>kp.
        Inr \<lparr> ik_algorithm = algorithm, ik_public_key = sp_public_key kp, ik_secret = sp_secret_key kp \<rparr>)
      else
        let priv = ec_generate P t in
        Inr \<lparr> ik_algorithm = ECDSA, ik_public_key = ec_public_der P priv, ik_secret = priv \<rparr>)"

record identity_sign_meta =
  ism_sign_ms :: rat
  ism_sign_cpu_ms :: rat

definition identity_sign :: "prims \<Rightarrow> tape \<Rightarrow> span \<Rightarrow> identity_key \<Rightarrow> bytes \<Rightarrow> (bytes \<times> identity_sign_meta) res" where
  "identity_sign P t sp ik message =
     bind_res (if ik_algorithm ik = MLDSA65_ALGORITHM then MLDSA65_sign P t message (ik_secret ik)
               else Inr (ec_sign P t (ik_secret ik) message))
       (\<lambda>sg. Inr (sg, \<lparr> ism_sign_ms = span_ms sp, ism_sign_cpu_ms = span_cpu_ms sp \<rparr>))"

text \<open>
  For ECDSA every failure, an undecodable key included, is \<^verbatim>\<open>False\<close>; for ML-DSA-65 a key of
  the wrong length raises.
\<close>

definition verify_identity :: "prims \<Rightarrow> span \<Rightarrow> string \<Rightarrow> bytes \<Rightarrow> bytes \<Rightarrow> bytes \<Rightarrow> (bool \<times> verify_meta) res" where
  "verify_identity P sp algorithm public_key message signature =
     bind_res (if algorithm = MLDSA65_ALGORITHM then MLDSA65_verify P message signature public_key
               else Inr (load_der_ok P public_key \<and> ec_verify P public_key signature message))
       (\<lambda>ok. Inr (ok, mk_verify_meta sp))"

section \<open>The client's check\<close>

type_synonym json_strings = "string \<rightharpoonup> string"

record pinned_identity =
  pin_algorithm :: string
  pin_public_key :: bytes

datatype auth_meta = NoTranscriptSignature | TranscriptVerified verify_meta

fun auth_verify_ms :: "auth_meta \<Rightarrow> rat" where
  "auth_verify_ms NoTranscriptSignature = 0"
| "auth_verify_ms (TranscriptVerified m) = verify_ms m"

definition verify_handshake ::
  "prims \<Rightarrow> span \<Rightarrow> json_strings \<Rightarrow> pinned_identity \<Rightarrow> (string \<Rightarrow> bytes res) \<Rightarrow> (bool \<times> auth_meta) res" where
  "verify_handshake P sp handshake_json pinned b64decode =
     (case handshake_json ''transcript_signature'' of
        None \<Rightarrow> Inr (False, NoTranscriptSignature)
      | Some sig_b64 \<Rightarrow>
          if sig_b64 = [] then Inr (False, NoTranscriptSignature)
          else
            bind_res (get_item handshake_json ''handshake_id'') (\<lambda>handshake_id.
            bind_res (get_item handshake_json ''kex_algorithm'') (\<lambda>kex_algorithm.
            bind_res (get_item handshake_json ''sig_algorithm'') (\<lambda>sig_algorithm.
            bind_res (bind_res (get_item handshake_json ''kex_public_key'') b64decode) (\<lambda>kex_public_key.
            bind_res (bind_res (get_item handshake_json ''sig_public_key'') b64decode) (\<lambda>sig_public_key.
            bind_res (transcript P handshake_id kex_algorithm sig_algorithm kex_public_key sig_public_key) (\<lambda>msg.
            bind_res (b64decode sig_b64) (\<lambda>signature.
            bind_res (verify_identity P sp (pin_algorithm pinned) (pin_public_key pinned) msg signature) (\<lambda>(ok, m).
            Inr (ok, TranscriptVerified m))))))))))"

section \<open>The transcript binds every field\<close>

text \<open>What is hashed, and its unique readability.\<close>

definition transcript_input :: "string \<Rightarrow> string \<Rightarrow> string \<Rightarrow> bytes \<Rightarrow> bytes \<Rightarrow> bytes" where
  "transcript_input h ka sa kp sp =
     HS_DOMAIN @ [0] @ concat (map (\<lambda>b. be32 (length b) @ b) [encode h, encode ka, encode sa, kp, sp])"

lemma hs_field_Inr: "hs_field b = Inr f \<longleftrightarrow> length b < 2 ^ 32 \<and> f = be32 (length b) @ b"
  by (auto simp: hs_field_def)

lemma transcript_Inr:
  "transcript P h ka sa kp sp = Inr d \<longleftrightarrow>
     (\<forall>b \<in> set [encode h, encode ka, encode sa, kp, sp]. length b < 2 ^ 32) \<and>
     d = sha256 P (transcript_input h ka sa kp sp)"
  by (auto simp: transcript_def hs_field_Inr transcript_input_def)

lemma field_cancel:
  assumes "be32 (length a) @ a @ u = be32 (length b) @ b @ v" "length a < 2 ^ 32" "length b < 2 ^ 32"
  shows "a = b \<and> u = v"
proof -
  have "be32 (length a) = be32 (length b) \<and> a @ u = b @ v"
    using assms(1) by (intro append_eq_lengthD) simp_all
  then show ?thesis
    using assms(2,3) by (auto simp: be32_inj)
qed

lemma fields_inj:
  "concat (map (\<lambda>b. be32 (length b) @ b) xs) = concat (map (\<lambda>b. be32 (length b) @ b) ys) \<Longrightarrow>
   length xs = length ys \<Longrightarrow> \<forall>b \<in> set xs \<union> set ys. length b < 2 ^ 32 \<Longrightarrow> xs = ys"
proof (induction xs arbitrary: ys)
  case (Cons x xs)
  then obtain y ys' where ys: "ys = y # ys'" by (cases ys) auto
  have "x = y \<and> concat (map (\<lambda>b. be32 (length b) @ b) xs) = concat (map (\<lambda>b. be32 (length b) @ b) ys')"
    using Cons.prems ys by (intro field_cancel) simp_all
  then show ?case
    using Cons.IH [of ys'] Cons.prems ys by simp
qed simp

lemma transcript_binds:
  assumes "transcript P h ka sa kp sp = Inr d" "transcript P h' ka' sa' kp' sp' = Inr d"
    and "inj_on (sha256 P) {transcript_input h ka sa kp sp, transcript_input h' ka' sa' kp' sp'}"
  shows "h = h' \<and> ka = ka' \<and> sa = sa' \<and> kp = kp' \<and> sp = sp'"
proof -
  have "sha256 P (transcript_input h ka sa kp sp) = sha256 P (transcript_input h' ka' sa' kp' sp')"
    using assms(1,2) by (simp only: transcript_Inr)
  then have "transcript_input h ka sa kp sp = transcript_input h' ka' sa' kp' sp'"
    by (rule inj_onD [OF assms(3)]) simp_all
  then have "concat (map (\<lambda>b. be32 (length b) @ b) [encode h, encode ka, encode sa, kp, sp]) =
      concat (map (\<lambda>b. be32 (length b) @ b) [encode h', encode ka', encode sa', kp', sp'])"
    unfolding transcript_input_def by (simp only: same_append_eq append_assoc)
  then have "[encode h, encode ka, encode sa, kp, sp] = [encode h', encode ka', encode sa', kp', sp']"
  proof (rule fields_inj)
    show "\<forall>b \<in> set [encode h, encode ka, encode sa, kp, sp] \<union> set [encode h', encode ka', encode sa', kp', sp']. length b < 2 ^ 32"
      using assms(1,2) unfolding transcript_Inr ball_Un by blast
  qed simp
  then show ?thesis by simp
qed

section \<open>The identity key signs what the pin verifies\<close>

definition identity_ok :: "prims \<Rightarrow> identity_key \<Rightarrow> bool" where
  "identity_ok P ik \<longleftrightarrow> (\<forall>t sp sp' msg. \<exists>sg m m'. identity_sign P t sp ik msg = Inr (sg, m) \<and> sg \<noteq> [] \<and>
     verify_identity P sp' (ik_algorithm ik) (ik_public_key ik) msg sg = Inr (True, m'))"

lemma identity_generate_ok:
  assumes "prims_ok P"
  obtains ik where "identity_generate P t alg = Inr ik" "identity_ok P ik"
    and "ik_algorithm ik = (if alg = MLDSA65_ALGORITHM then MLDSA65_ALGORITHM else ECDSA)"
proof (cases "alg = MLDSA65_ALGORITHM")
  case True
  have ok: "dsa_ok P" using assms by (simp add: prims_ok_def)
  obtain kp where kp: "MLDSA65_keypair P t = Inr kp"
    using ok by (rule MLDSA65_keypair_ok)
  let ?ik = "\<lparr> ik_algorithm = alg, ik_public_key = sp_public_key kp, ik_secret = sp_secret_key kp \<rparr>"
  have "\<exists>sg m m'. identity_sign P t' sp ?ik msg = Inr (sg, m) \<and> sg \<noteq> [] \<and>
     verify_identity P sp' (ik_algorithm ?ik) (ik_public_key ?ik) msg sg = Inr (True, m')" for t' sp sp' msg
  proof -
    obtain sg where "MLDSA65_sign P t' msg (sp_secret_key kp) = Inr sg" "length sg = 3309"
        "MLDSA65_verify P msg sg (sp_public_key kp) = Inr True"
      using MLDSA65_sign_verify [OF ok kp] by blast
    then show ?thesis
      using True by (intro exI [of _ sg]) (auto simp: identity_sign_def verify_identity_def)
  qed
  then show ?thesis
    using True kp by (intro that [of ?ik]) (simp_all add: identity_generate_def identity_ok_def)
next
  case False
  have ec: "ec_ok P" using assms by (simp add: prims_ok_def)
  let ?ik = "\<lparr> ik_algorithm = ECDSA, ik_public_key = ec_public_der P (ec_generate P t), ik_secret = ec_generate P t \<rparr>"
  have "identity_ok P ?ik"
    unfolding identity_ok_def
    using ec by (simp add: identity_sign_def verify_identity_def ec_okD ECDSA_def MLDSA65_ALGORITHM_def)
  then show ?thesis
    using False by (intro that [of ?ik]) (simp_all add: identity_generate_def Let_def)
qed

end
