(* ===== verification/Schemas.thy ===== *)
theory Schemas
  imports HandshakeAuth
begin

text \<open>
  \<^verbatim>\<open>api/schemas.py\<close>: the envelope models exchanged between client and server, and the view of
  a handshake response as the JSON object the client parses.
\<close>

record handshake_response =
  hr_handshake_id :: string
  hr_kex_public_key :: string
  hr_sig_public_key :: string
  hr_kex_algorithm :: string
  hr_sig_algorithm :: string
  hr_meta :: handshake_meta
  hr_transcript_sign_ms :: "rat option"
  hr_transcript_signature :: "string option"

record secure_predict_request =
  rq_handshake_id :: string
  rq_kex_blob :: string
  rq_nonce :: string
  rq_ciphertext :: string
  rq_keep_session :: bool

record server_timing =
  st_decapsulate_ms :: rat
  st_inference_ms :: rat
  st_encrypt_ms :: rat
  st_sign_ms :: rat
  st_server_crypto_ms :: rat
  st_server_total_ms :: rat

record debug_metrics =
  dm_kex_blob_bytes :: nat
  dm_response_ciphertext_bytes :: nat
  dm_signature_bytes :: nat
  dm_kex_algorithm :: string
  dm_sig_algorithm :: string

record secure_predict_response =
  rp_nonce :: string
  rp_ciphertext :: string
  rp_signature :: string
  rp_server_timing :: server_timing
  rp_debug :: "debug_metrics option"

text \<open>The string fields of the response, as \<^verbatim>\<open>resp.json()\<close> gives them.\<close>

definition handshake_json :: "handshake_response \<Rightarrow> json_strings" where
  "handshake_json r = (\<lambda>k.
     if k = ''handshake_id'' then Some (hr_handshake_id r)
     else if k = ''kex_public_key'' then Some (hr_kex_public_key r)
     else if k = ''sig_public_key'' then Some (hr_sig_public_key r)
     else if k = ''kex_algorithm'' then Some (hr_kex_algorithm r)
     else if k = ''sig_algorithm'' then Some (hr_sig_algorithm r)
     else if k = ''transcript_signature'' then hr_transcript_signature r
     else None)"

lemma handshake_json_simps [simp]:
  "handshake_json r ''handshake_id'' = Some (hr_handshake_id r)"
  "handshake_json r ''kex_public_key'' = Some (hr_kex_public_key r)"
  "handshake_json r ''sig_public_key'' = Some (hr_sig_public_key r)"
  "handshake_json r ''kex_algorithm'' = Some (hr_kex_algorithm r)"
  "handshake_json r ''sig_algorithm'' = Some (hr_sig_algorithm r)"
  "handshake_json r ''transcript_signature'' = hr_transcript_signature r"
  by (simp_all add: handshake_json_def)

end
