(* ===== verification/HandshakeLifetime.thy ===== *)
theory HandshakeLifetime
  imports Registry
begin

text \<open>
  The life of one handshake among all the others: the operations that change a server instance
  as a labelled step relation, its reflexive-transitive closure, and what survives any
  interleaving of handshakes and clean-ups of other ids.
\<close>

section \<open>Steps of a server instance\<close>

inductive srv_step :: "prims \<Rightarrow> server_crypto \<Rightarrow> string \<Rightarrow> server_crypto \<Rightarrow> bool" for P where
  step_new: "srv_new_handshake P uuid r sp hid srv = (srv', rb) \<Longrightarrow> srv_step P srv (str_or hid uuid) srv'"
| step_forget: "srv_step P srv h (srv_forget h srv)"

inductive srv_steps :: "prims \<Rightarrow> server_crypto \<Rightarrow> string list \<Rightarrow> server_crypto \<Rightarrow> bool" for P where
  steps_refl: "srv_steps P srv [] srv"
| steps_step: "srv_step P srv h srv1 \<Longrightarrow> srv_steps P srv1 hs srv2 \<Longrightarrow> srv_steps P srv (h # hs) srv2"

inductive_cases srv_stepE: "srv_step P srv h srv'"
inductive_simps srv_steps_Nil [simp]: "srv_steps P srv [] srv'"
inductive_simps srv_steps_Cons: "srv_steps P srv (h # hs) srv'"

lemma srv_step_client: "srv_step P srv h srv' \<Longrightarrow> server_client srv' = server_client srv"
  by (auto elim!: srv_stepE dest: srv_new_client)

lemma srv_step_holds:
  "srv_step P srv h srv' \<Longrightarrow> srv_holds P srv b \<Longrightarrow> hb_handshake_id b \<noteq> h \<Longrightarrow> srv_holds P srv' b"
  by (auto elim!: srv_stepE intro: srv_new_keeps srv_forget_keeps)

lemma srv_step_live:
  "srv_step P srv h srv' \<Longrightarrow> k \<noteq> h \<Longrightarrow> srv_live srv' k \<longleftrightarrow> srv_live srv k"
  by (auto elim!: srv_stepE simp: srv_table.open_other srv_table.drop_live)

lemma srv_steps_client: "srv_steps P srv hs srv' \<Longrightarrow> server_client srv' = server_client srv"
  by (induction rule: srv_steps.induct) (simp_all add: srv_step_client)

lemma srv_steps_holds:
  "srv_steps P srv hs srv' \<Longrightarrow> srv_holds P srv b \<Longrightarrow> hb_handshake_id b \<notin> set hs \<Longrightarrow> srv_holds P srv' b"
  by (induction rule: srv_steps.induct) (auto intro: srv_step_holds)

lemma srv_steps_live: "srv_steps P srv hs srv' \<Longrightarrow> k \<notin> set hs \<Longrightarrow> srv_live srv' k \<longleftrightarrow> srv_live srv k"
  by (induction rule: srv_steps.induct) (auto simp: srv_step_live)

lemma srv_steps_append:
  "srv_steps P srv hs srv1 \<Longrightarrow> srv_steps P srv1 ks srv2 \<Longrightarrow> srv_steps P srv (hs @ ks) srv2"
  by (induction rule: srv_steps.induct) (auto intro: steps_step)

section \<open>Registered pairs\<close>

lemma get_crypto_pair:
  assumes "get_server_crypto n = Inr srv" "get_client_crypto n = Inr cl"
  shows "server_client srv = cl" "srv_name srv = n" "cl_name cl = n" "\<And>h. \<not> srv_live srv h"
  using assms
  by (auto simp: get_server_crypto_def get_client_crypto_def CONFIGS_def get_item_def has_session_def
      split: if_splits)

lemma get_crypto_total: "n \<in> set CONFIG_NAMES \<Longrightarrow> \<exists>srv cl. get_server_crypto n = Inr srv \<and> get_client_crypto n = Inr cl"
  by (auto simp: CONFIG_NAMES_def CONFIGS_def get_server_crypto_def get_client_crypto_def get_item_def)

lemma get_crypto_unknown:
  "n \<notin> set CONFIG_NAMES \<Longrightarrow> get_server_crypto n = Inl KeyError \<and> get_client_crypto n = Inl KeyError"
  by (auto simp: CONFIG_NAMES_def CONFIGS_def get_server_crypto_def get_client_crypto_def get_item_def)

lemma srv_new_algorithms:
  assumes "srv_new_handshake P u r sp hid srv = (srv', Inr b)"
  shows "meta_kex_algorithm (hb_meta b) = srv_kex_algorithm srv" "meta_sig_algorithm (hb_meta b) = srv_sig_algorithm srv"
    "kex_public_key_bytes (hb_meta b) = length (hb_kex_public_key b)"
    "sig_public_key_bytes (hb_meta b) = length (hb_sig_public_key b)"
  using assms
  by (cases srv; auto simp: apfst_eq_Pair config_simps Let_def split: sum.splits prod.splits)+

text \<open>The signing sessions of a bundle: what the server signs under its id verifies under its key.\<close>

definition signs_ok :: "prims \<Rightarrow> server_crypto \<Rightarrow> handshake_bundle \<Rightarrow> bool" where
  "signs_ok P srv b \<longleftrightarrow> (\<forall>t sp sp' msg. \<exists>sg m m'.
     srv_sign P t sp srv (hb_handshake_id b) msg = Inr (sg, m) \<and> signature_bytes m = length sg \<and> sg \<noteq> [] \<and>
     cl_verify P sp' (server_client srv) msg sg (hb_sig_public_key b) = Inr (True, m'))"

lemma srv_holds_signs_ok: "prims_ok P \<Longrightarrow> srv_holds P srv b \<Longrightarrow> signs_ok P srv b"
  unfolding signs_ok_def by (blast intro: srv_sign_verifies)

text \<open>The verdict of a verification does not depend on the clock.\<close>

lemma cl_verify_span:
  "cl_verify P sp cl msg sg pk = Inr (ok, m) \<Longrightarrow> cl_verify P sp' cl msg sg pk = Inr (ok, mk_verify_meta sp')"
  by (cases cl) (auto simp: config_simps hybrid_kex_pq_defs split: if_splits)

lemma cl_verify_meta: "cl_verify P sp cl msg sg pk = Inr (ok, m) \<Longrightarrow> m = mk_verify_meta sp"
  by (cases cl) (auto simp: config_simps split: if_splits)

lemma srv_sign_span:
  "srv_sign P t sp srv h msg = Inr (sg, m) \<Longrightarrow> srv_sign P t sp' srv h msg = Inr (sg, mk_sign_meta sp' sg)"
  by (cases srv) (auto simp: config_simps Let_def)

lemma srv_sign_meta: "srv_sign P t sp srv h msg = Inr (sg, m) \<Longrightarrow> m = mk_sign_meta sp sg"
  by (cases srv) (auto simp: config_simps Let_def)

end
