(* ===== verification/StreamMessages.thy ===== *)
theory StreamMessages
  imports Base64 HandshakeLifetime
begin

text \<open>
  The signed messages of \<^verbatim>\<open>crypto/streaming.py\<close>: the session context, the genesis of the hash
  chain and the five role-labelled messages, with their unique readability: messages of
  different roles never coincide, and within a role equal messages have equal fields.
\<close>

section \<open>Messages\<close>

definition STREAM_DOMAIN :: bytes where
  "STREAM_DOMAIN = encode ''PQ-Shield-stream-v2''"

text \<open>\<^verbatim>\<open>int.to_bytes(4, "big")\<close> raises \<open>OverflowError\<close> on a negative or too large index.\<close>

definition index_bytes :: "int \<Rightarrow> bytes res" where
  "index_bytes i = (if 0 \<le> i \<and> i < 2 ^ 32 then Inr (be32 (nat i)) else Inl OverflowError)"

definition stream_context :: "prims \<Rightarrow> string \<Rightarrow> bytes" where
  "stream_context P handshake_id = sha256 P (STREAM_DOMAIN @ [0] @ encode handshake_id)"

definition genesis_hash :: "prims \<Rightarrow> string \<Rightarrow> bytes" where
  "genesis_hash P handshake_id = sha256 P (encode ''GEN'' @ stream_context P handshake_id)"

definition buffered_message :: "bytes \<Rightarrow> bytes \<Rightarrow> bytes \<Rightarrow> bytes" where
  "buffered_message ctx nonce ciphertext = encode ''BUF'' @ ctx @ nonce @ ciphertext"

definition chunk_message :: "bytes \<Rightarrow> int \<Rightarrow> bytes \<Rightarrow> bytes \<Rightarrow> bytes res" where
  "chunk_message ctx index nonce ciphertext =
     bind_res (index_bytes index) (\<lambda>ib. Inr (encode ''CHK'' @ ctx @ ib @ nonce @ ciphertext))"

definition end_message :: "bytes \<Rightarrow> int \<Rightarrow> bytes res" where
  "end_message ctx n_chunks = bind_res (index_bytes n_chunks) (\<lambda>ib. Inr (encode ''END'' @ ctx @ ib))"

definition checkpoint_message :: "bytes \<Rightarrow> int \<Rightarrow> bytes \<Rightarrow> bytes res" where
  "checkpoint_message ctx index chain_hash =
     bind_res (index_bytes index) (\<lambda>ib. Inr (encode ''CKP'' @ ctx @ ib @ chain_hash))"

definition final_chain_message :: "bytes \<Rightarrow> int \<Rightarrow> bytes \<Rightarrow> bytes res" where
  "final_chain_message ctx n_chunks chain_hash =
     bind_res (index_bytes n_chunks) (\<lambda>ib. Inr (encode ''FIN'' @ ctx @ ib @ chain_hash))"

text \<open>One link of the hash chain.\<close>

definition chain_input :: "bytes \<Rightarrow> bytes \<Rightarrow> bytes \<Rightarrow> bytes" where
  "chain_input h ib envelope = h @ ib @ envelope"

definition chain_step :: "prims \<Rightarrow> bytes \<Rightarrow> int \<Rightarrow> bytes \<Rightarrow> bytes res" where
  "chain_step P h index envelope =
     bind_res (index_bytes index) (\<lambda>ib. Inr (sha256 P (chain_input h ib envelope)))"

section \<open>Index encoding\<close>

definition idx_ok :: "int \<Rightarrow> bool" where
  "idx_ok i \<longleftrightarrow> 0 \<le> i \<and> i < 2 ^ 32"

lemma index_bytes_Inr: "index_bytes i = Inr b \<longleftrightarrow> idx_ok i \<and> b = be32 (nat i)"
  by (auto simp: index_bytes_def idx_ok_def)

lemma index_bytes_Inl: "index_bytes i = Inl e \<longleftrightarrow> \<not> idx_ok i \<and> e = OverflowError"
  by (auto simp: index_bytes_def idx_ok_def)

lemma index_bytes_ok: "idx_ok i \<Longrightarrow> index_bytes i = Inr (be32 (nat i))"
  by (simp add: index_bytes_Inr)

lemma idx_ok_nat [simp]: "idx_ok (int n) \<longleftrightarrow> n < 2 ^ 32"
  by (simp add: idx_ok_def)

lemma be32_nat_inj: "idx_ok i \<Longrightarrow> idx_ok j \<Longrightarrow> be32 (nat i) = be32 (nat j) \<longleftrightarrow> i = j"
  unfolding idx_ok_def by (subst be32_inj) auto

lemma index_bytes_inj: "index_bytes i = Inr b \<Longrightarrow> index_bytes j = Inr b \<Longrightarrow> i = j"
  by (metis be32_nat_inj index_bytes_Inr)

lemma chain_step_Inr: "chain_step P h i e = Inr h' \<longleftrightarrow> idx_ok i \<and> h' = sha256 P (chain_input h (be32 (nat i)) e)"
  by (auto simp: chain_step_def index_bytes_Inr)

lemma message_Inr:
  "chunk_message ctx i n c = Inr m \<longleftrightarrow> idx_ok i \<and> m = encode ''CHK'' @ ctx @ be32 (nat i) @ n @ c"
  "end_message ctx i = Inr m \<longleftrightarrow> idx_ok i \<and> m = encode ''END'' @ ctx @ be32 (nat i)"
  "checkpoint_message ctx i h = Inr m \<longleftrightarrow> idx_ok i \<and> m = encode ''CKP'' @ ctx @ be32 (nat i) @ h"
  "final_chain_message ctx i h = Inr m \<longleftrightarrow> idx_ok i \<and> m = encode ''FIN'' @ ctx @ be32 (nat i) @ h"
  by (auto simp: chunk_message_def end_message_def checkpoint_message_def final_chain_message_def index_bytes_Inr)

lemma message_Inl:
  "chunk_message ctx i n c = Inl e \<longleftrightarrow> \<not> idx_ok i \<and> e = OverflowError"
  "end_message ctx i = Inl e \<longleftrightarrow> \<not> idx_ok i \<and> e = OverflowError"
  "checkpoint_message ctx i h = Inl e \<longleftrightarrow> \<not> idx_ok i \<and> e = OverflowError"
  "final_chain_message ctx i h = Inl e \<longleftrightarrow> \<not> idx_ok i \<and> e = OverflowError"
  "chain_step P hh i env = Inl e \<longleftrightarrow> \<not> idx_ok i \<and> e = OverflowError"
  by (auto simp: chunk_message_def end_message_def checkpoint_message_def final_chain_message_def
      chain_step_def bind_res_eq_Inl index_bytes_Inl index_bytes_Inr)

section \<open>Unique readability\<close>

lemma stream_context_len: "sha_ok P \<Longrightarrow> length (stream_context P h) = 32"
  by (simp add: stream_context_def sha_ok_def)

lemma genesis_len: "sha_ok P \<Longrightarrow> length (genesis_hash P h) = 32"
  by (simp add: genesis_hash_def sha_ok_def)

lemma chain_len: "sha_ok P \<Longrightarrow> chain_step P h i e = Inr h' \<Longrightarrow> length h' = 32"
  by (auto simp: chain_step_Inr sha_ok_def)

lemma stream_context_inj:
  assumes "stream_context P h = stream_context P h'"
    and "inj_on (sha256 P) {STREAM_DOMAIN @ [0] @ encode h, STREAM_DOMAIN @ [0] @ encode h'}"
  shows "h = h'"
proof -
  have "STREAM_DOMAIN @ [0] @ encode h = STREAM_DOMAIN @ [0] @ encode h'"
    by (rule inj_onD [OF assms(2)]) (use assms(1) in \<open>simp_all add: stream_context_def\<close>)
  then show ?thesis by simp
qed

text \<open>A role label is read off the first three bytes.\<close>

lemma labels_distinct:
  "encode ''BUF'' @ x \<noteq> encode ''CHK'' @ y" "encode ''BUF'' @ x \<noteq> encode ''END'' @ y"
  "encode ''BUF'' @ x \<noteq> encode ''CKP'' @ y" "encode ''BUF'' @ x \<noteq> encode ''FIN'' @ y"
  "encode ''CHK'' @ x \<noteq> encode ''END'' @ y" "encode ''CHK'' @ x \<noteq> encode ''CKP'' @ y"
  "encode ''CHK'' @ x \<noteq> encode ''FIN'' @ y" "encode ''END'' @ x \<noteq> encode ''CKP'' @ y"
  "encode ''END'' @ x \<noteq> encode ''FIN'' @ y" "encode ''CKP'' @ x \<noteq> encode ''FIN'' @ y"
proof -
  have *: "encode a @ x \<noteq> encode b @ y" if "a \<noteq> b" "length a = length b" for a b :: string and x y
    using that append_eq_lengthD [of "encode a" x "encode b" y] by auto
  show
  "encode ''BUF'' @ x \<noteq> encode ''CHK'' @ y" "encode ''BUF'' @ x \<noteq> encode ''END'' @ y"
  "encode ''BUF'' @ x \<noteq> encode ''CKP'' @ y" "encode ''BUF'' @ x \<noteq> encode ''FIN'' @ y"
  "encode ''CHK'' @ x \<noteq> encode ''END'' @ y" "encode ''CHK'' @ x \<noteq> encode ''CKP'' @ y"
  "encode ''CHK'' @ x \<noteq> encode ''FIN'' @ y" "encode ''END'' @ x \<noteq> encode ''CKP'' @ y"
  "encode ''END'' @ x \<noteq> encode ''FIN'' @ y" "encode ''CKP'' @ x \<noteq> encode ''FIN'' @ y"
    by (rule *; simp)+
qed

lemma ctx_cancel:
  assumes "ctx @ x = ctx' @ y" "length ctx = 32" "length ctx' = 32"
  shows "ctx = ctx' \<and> x = y"
  using append_eq_lengthD [OF assms(1)] assms(2,3) by simp

lemma be32_cancel:
  assumes "be32 (nat i) @ x = be32 (nat j) @ y" "idx_ok i" "idx_ok j"
  shows "i = j \<and> x = y"
  using append_eq_lengthD [OF assms(1)] assms(2,3) by (simp add: be32_nat_inj)

lemma chunk_message_inj:
  assumes "chunk_message ctx i n c = Inr m" "chunk_message ctx' i' n' c' = Inr m"
    and "length ctx = 32" "length ctx' = 32"
  shows "ctx = ctx' \<and> i = i' \<and> n @ c = n' @ c'"
proof -
  have m: "ctx @ be32 (nat i) @ n @ c = ctx' @ be32 (nat i') @ n' @ c'" and ok: "idx_ok i" "idx_ok i'"
    using assms(1,2) by (auto simp: message_Inr)
  show ?thesis
    using ctx_cancel [OF m assms(3,4)] be32_cancel [OF _ ok] by blast
qed

lemma end_message_inj:
  assumes "end_message ctx i = Inr m" "end_message ctx' i' = Inr m" "length ctx = 32" "length ctx' = 32"
  shows "ctx = ctx' \<and> i = i'"
proof -
  have m: "ctx @ be32 (nat i) = ctx' @ be32 (nat i')" and ok: "idx_ok i" "idx_ok i'"
    using assms(1,2) by (auto simp: message_Inr)
  show ?thesis
    using ctx_cancel [OF m assms(3,4)] ok by (simp add: be32_nat_inj)
qed

lemma checkpoint_message_inj:
  assumes "checkpoint_message ctx i h = Inr m" "checkpoint_message ctx' i' h' = Inr m"
    and "length ctx = 32" "length ctx' = 32"
  shows "ctx = ctx' \<and> i = i' \<and> h = h'"
proof -
  have m: "ctx @ be32 (nat i) @ h = ctx' @ be32 (nat i') @ h'" and ok: "idx_ok i" "idx_ok i'"
    using assms(1,2) by (auto simp: message_Inr)
  show ?thesis
    using ctx_cancel [OF m assms(3,4)] be32_cancel [OF _ ok] by blast
qed

lemma final_chain_message_inj:
  assumes "final_chain_message ctx i h = Inr m" "final_chain_message ctx' i' h' = Inr m"
    and "length ctx = 32" "length ctx' = 32"
  shows "ctx = ctx' \<and> i = i' \<and> h = h'"
proof -
  have m: "ctx @ be32 (nat i) @ h = ctx' @ be32 (nat i') @ h'" and ok: "idx_ok i" "idx_ok i'"
    using assms(1,2) by (auto simp: message_Inr)
  show ?thesis
    using ctx_cancel [OF m assms(3,4)] be32_cancel [OF _ ok] by blast
qed

lemma buffered_message_inj:
  assumes "buffered_message ctx n c = buffered_message ctx' n' c'" "length ctx = 32" "length ctx' = 32"
  shows "ctx = ctx' \<and> n @ c = n' @ c'"
proof -
  have "ctx @ n @ c = ctx' @ n' @ c'"
    using assms(1) unfolding buffered_message_def by (simp only: same_append_eq)
  then show ?thesis
    by (rule ctx_cancel [OF _ assms(2,3)])
qed

lemma chain_input_inj:
  assumes "chain_input h (be32 (nat i)) e = chain_input h' (be32 (nat i')) e'"
    and "length h = length h'" "idx_ok i" "idx_ok i'"
  shows "h = h' \<and> i = i' \<and> e = e'"
proof -
  have "h = h' \<and> be32 (nat i) @ e = be32 (nat i') @ e'"
    using assms(1) unfolding chain_input_def by (rule append_eq_lengthD [OF _ assms(2)])
  then show ?thesis
    using be32_cancel [OF _ assms(3,4)] by blast
qed

text \<open>A nonce of the fixed length makes the split of the envelope unique.\<close>

lemma envelope_split: "n @ c = n' @ c' \<Longrightarrow> length n = length n' \<Longrightarrow> n = n' \<and> c = c'"
  by (rule append_eq_lengthD)

end
