(* ===== verification/StreamServer.thy ===== *)
theory StreamServer
  imports StreamMessages
begin

text \<open>
  The server side of \<^verbatim>\<open>crypto/streaming.py\<close>: the three signing strategies, each a record for
  its instance variables with \<^verbatim>\<open>add_chunk\<close> and \<^verbatim>\<open>finalize\<close>, and their dispatch. A row is
  what a strategy hands to the wire, with byte fields of type \<open>'b\<close>: \<open>bytes\<close> at the server,
  base64 strings on the wire. Each call takes the randomness of its AES-GCM nonce (\<open>r 0\<close>) and of
  its signature (\<open>r 1\<close>) and the clock readings of its signing timer.
\<close>

section \<open>Rows\<close>

record 'b chunk_row =
  ck_index :: int
  ck_nonce :: 'b
  ck_ciphertext :: 'b
  ck_chain_hash :: "'b option"
  ck_signature :: "'b option"
  ck_sign_ms :: rat
  ck_sign_cpu_ms :: rat
  ck_signature_bytes :: nat

record 'b buffered_row =
  fb_nonce :: 'b
  fb_ciphertext :: 'b
  fb_signature :: 'b
  fb_sign_ms :: rat
  fb_sign_cpu_ms :: rat
  fb_signature_bytes :: nat

record 'b end_row =
  pe_n_chunks :: int
  pe_signature :: 'b
  pe_sign_ms :: rat
  pe_sign_cpu_ms :: rat
  pe_signature_bytes :: nat

record 'b final_row =
  fc_final_chain_hash :: 'b
  fc_n_chunks :: int
  fc_signature :: 'b
  fc_sign_ms :: rat
  fc_sign_cpu_ms :: rat
  fc_signature_bytes :: nat

datatype 'b row =
  Chunk "'b chunk_row" | FinalBuffered "'b buffered_row" | FinalPerChunk "'b end_row" | FinalChain "'b final_row"

section \<open>buffer_and_sign\<close>

record buf_strategy =
  bs_handshake_id :: string
  bs_session_key :: bytes
  bs_ctx :: bytes
  bs_buffer :: bytes

definition buf_init :: "prims \<Rightarrow> string \<Rightarrow> bytes \<Rightarrow> buf_strategy" where
  "buf_init P handshake_id session_key =
     \<lparr> bs_handshake_id = handshake_id, bs_session_key = session_key,
       bs_ctx = stream_context P handshake_id, bs_buffer = [] \<rparr>"

definition buf_add_chunk :: "bytes \<Rightarrow> int \<Rightarrow> buf_strategy \<Rightarrow> buf_strategy \<times> bytes row option" where
  "buf_add_chunk plaintext index st = (st \<lparr> bs_buffer := bs_buffer st @ plaintext \<rparr>, None)"

definition buf_finalize :: "prims \<Rightarrow> rng \<Rightarrow> span \<Rightarrow> server_crypto \<Rightarrow> int \<Rightarrow> buf_strategy \<Rightarrow> bytes row option res" where
  "buf_finalize P r sp srv n_chunks st =
     bind_res (aead_encrypt P (r 0) (bs_session_key st) (bs_buffer st) None) (\<lambda>aead.
     bind_res (srv_sign P (r 1) sp srv (bs_handshake_id st)
                 (buffered_message (bs_ctx st) (ar_nonce aead) (ar_ciphertext aead))) (\<lambda>(signature, meta).
     Inr (Some (FinalBuffered
       \<lparr> fb_nonce = ar_nonce aead, fb_ciphertext = ar_ciphertext aead, fb_signature = signature,
         fb_sign_ms = sign_ms meta, fb_sign_cpu_ms = sign_cpu_ms meta, fb_signature_bytes = length signature \<rparr>))))"

section \<open>per_chunk\<close>

record pc_strategy =
  pc_handshake_id :: string
  pc_session_key :: bytes
  pc_ctx :: bytes

definition pc_init :: "prims \<Rightarrow> string \<Rightarrow> bytes \<Rightarrow> pc_strategy" where
  "pc_init P handshake_id session_key =
     \<lparr> pc_handshake_id = handshake_id, pc_session_key = session_key, pc_ctx = stream_context P handshake_id \<rparr>"

definition pc_add_chunk ::
  "prims \<Rightarrow> rng \<Rightarrow> span \<Rightarrow> server_crypto \<Rightarrow> bytes \<Rightarrow> int \<Rightarrow> pc_strategy \<Rightarrow> (pc_strategy \<times> bytes row option) res" where
  "pc_add_chunk P r sp srv plaintext index st =
     bind_res (aead_encrypt P (r 0) (pc_session_key st) plaintext None) (\<lambda>aead.
     bind_res (chunk_message (pc_ctx st) index (ar_nonce aead) (ar_ciphertext aead)) (\<lambda>msg.
     bind_res (srv_sign P (r 1) sp srv (pc_handshake_id st) msg) (\<lambda>(signature, meta).
     Inr (st, Some (Chunk
       \<lparr> ck_index = index, ck_nonce = ar_nonce aead, ck_ciphertext = ar_ciphertext aead,
         ck_chain_hash = None, ck_signature = Some signature, ck_sign_ms = sign_ms meta,
         ck_sign_cpu_ms = sign_cpu_ms meta, ck_signature_bytes = length signature \<rparr>)))))"

definition pc_finalize :: "prims \<Rightarrow> rng \<Rightarrow> span \<Rightarrow> server_crypto \<Rightarrow> int \<Rightarrow> pc_strategy \<Rightarrow> bytes row option res" where
  "pc_finalize P r sp srv n_chunks st =
     bind_res (end_message (pc_ctx st) n_chunks) (\<lambda>msg.
     bind_res (srv_sign P (r 1) sp srv (pc_handshake_id st) msg) (\<lambda>(signature, meta).
     Inr (Some (FinalPerChunk
       \<lparr> pe_n_chunks = n_chunks, pe_signature = signature, pe_sign_ms = sign_ms meta,
         pe_sign_cpu_ms = sign_cpu_ms meta, pe_signature_bytes = length signature \<rparr>))))"

section \<open>hash_chain\<close>

record hc_strategy =
  hc_handshake_id :: string
  hc_session_key :: bytes
  hc_ctx :: bytes
  hc_checkpoint_interval :: "int option"
  hc_running_hash :: bytes
  hc_since_checkpoint :: int

definition hc_init :: "prims \<Rightarrow> string \<Rightarrow> bytes \<Rightarrow> int option \<Rightarrow> hc_strategy" where
  "hc_init P handshake_id session_key checkpoint_interval =
     \<lparr> hc_handshake_id = handshake_id, hc_session_key = session_key, hc_ctx = stream_context P handshake_id,
       hc_checkpoint_interval = checkpoint_interval, hc_running_hash = genesis_hash P handshake_id,
       hc_since_checkpoint = 0 \<rparr>"

text \<open>\<^verbatim>\<open>self._checkpoint_interval and self._since_checkpoint >= self._checkpoint_interval\<close>.\<close>

definition checkpoint_due :: "int option \<Rightarrow> int \<Rightarrow> bool" where
  "checkpoint_due interval since \<longleftrightarrow>
     (case interval of None \<Rightarrow> False | Some k \<Rightarrow> k \<noteq> 0 \<and> k \<le> since)"

definition hc_add_chunk ::
  "prims \<Rightarrow> rng \<Rightarrow> span \<Rightarrow> server_crypto \<Rightarrow> bytes \<Rightarrow> int \<Rightarrow> hc_strategy \<Rightarrow> (hc_strategy \<times> bytes row option) res" where
  "hc_add_chunk P r sp srv plaintext index st =
     bind_res (aead_encrypt P (r 0) (hc_session_key st) plaintext None) (\<lambda>aead.
     bind_res (chain_step P (hc_running_hash st) index (ar_nonce aead @ ar_ciphertext aead)) (\<lambda>h.
     let st1 = st \<lparr> hc_running_hash := h, hc_since_checkpoint := hc_since_checkpoint st + 1 \<rparr>;
         row = \<lparr> ck_index = index, ck_nonce = ar_nonce aead, ck_ciphertext = ar_ciphertext aead,
                 ck_chain_hash = Some h, ck_signature = None, ck_sign_ms = 0, ck_sign_cpu_ms = 0,
                 ck_signature_bytes = 0 \<rparr> in
     if checkpoint_due (hc_checkpoint_interval st1) (hc_since_checkpoint st1) then
       bind_res (checkpoint_message (hc_ctx st1) index h) (\<lambda>msg.
       bind_res (srv_sign P (r 1) sp srv (hc_handshake_id st1) msg) (\<lambda>(signature, meta).
       Inr (st1 \<lparr> hc_since_checkpoint := 0 \<rparr>,
            Some (Chunk (row \<lparr> ck_signature := Some signature, ck_sign_ms := sign_ms meta,
                              ck_sign_cpu_ms := sign_cpu_ms meta,
                              ck_signature_bytes := length signature \<rparr>)))))
     else Inr (st1, Some (Chunk row))))"

definition hc_finalize :: "prims \<Rightarrow> rng \<Rightarrow> span \<Rightarrow> server_crypto \<Rightarrow> int \<Rightarrow> hc_strategy \<Rightarrow> bytes row option res" where
  "hc_finalize P r sp srv n_chunks st =
     bind_res (final_chain_message (hc_ctx st) n_chunks (hc_running_hash st)) (\<lambda>msg.
     bind_res (srv_sign P (r 1) sp srv (hc_handshake_id st) msg) (\<lambda>(signature, meta).
     Inr (Some (FinalChain
       \<lparr> fc_final_chain_hash = hc_running_hash st, fc_n_chunks = n_chunks, fc_signature = signature,
         fc_sign_ms = sign_ms meta, fc_sign_cpu_ms = sign_cpu_ms meta,
         fc_signature_bytes = length signature \<rparr>))))"

section \<open>Dispatch\<close>

datatype strategy = BufferAndSign buf_strategy | PerChunk pc_strategy | HashChain hc_strategy

definition STRATEGY_NAMES :: "string list" where
  "STRATEGY_NAMES = [''buffer_and_sign'', ''per_chunk'', ''hash_chain'']"

text \<open>
  \<^verbatim>\<open>get_server_strategy\<close>; \<^verbatim>\<open>checkpoint_interval\<close> is the keyword argument, passed for
  \<^verbatim>\<open>hash_chain\<close> only.
\<close>

definition get_server_strategy ::
  "prims \<Rightarrow> string \<Rightarrow> string \<Rightarrow> bytes \<Rightarrow> int option \<Rightarrow> strategy res" where
  "get_server_strategy P name handshake_id session_key checkpoint_interval =
     (if name = ''buffer_and_sign'' then Inr (BufferAndSign (buf_init P handshake_id session_key))
      else if name = ''per_chunk'' then Inr (PerChunk (pc_init P handshake_id session_key))
      else if name = ''hash_chain'' then Inr (HashChain (hc_init P handshake_id session_key checkpoint_interval))
      else Inl ValueError)"

fun strat_add_chunk ::
  "prims \<Rightarrow> rng \<Rightarrow> span \<Rightarrow> server_crypto \<Rightarrow> bytes \<Rightarrow> int \<Rightarrow> strategy \<Rightarrow> (strategy \<times> bytes row option) res" where
  "strat_add_chunk P r sp srv plaintext index (BufferAndSign st) =
     Inr (apfst BufferAndSign (buf_add_chunk plaintext index st))"
| "strat_add_chunk P r sp srv plaintext index (PerChunk st) =
     map_sum id (apfst PerChunk) (pc_add_chunk P r sp srv plaintext index st)"
| "strat_add_chunk P r sp srv plaintext index (HashChain st) =
     map_sum id (apfst HashChain) (hc_add_chunk P r sp srv plaintext index st)"

fun strat_finalize :: "prims \<Rightarrow> rng \<Rightarrow> span \<Rightarrow> server_crypto \<Rightarrow> int \<Rightarrow> strategy \<Rightarrow> bytes row option res" where
  "strat_finalize P r sp srv n_chunks (BufferAndSign st) = buf_finalize P r sp srv n_chunks st"
| "strat_finalize P r sp srv n_chunks (PerChunk st) = pc_finalize P r sp srv n_chunks st"
| "strat_finalize P r sp srv n_chunks (HashChain st) = hc_finalize P r sp srv n_chunks st"

text \<open>
  A transaction on given chunks: \<^verbatim>\<open>add_chunk\<close> on each, from index \<open>i\<close> on, then
  \<^verbatim>\<open>finalize\<close>; the rows in the order they are sent. \<open>rs\<close> and \<open>sps\<close> give the randomness and the
  clock of each call.
\<close>

fun run_chunks ::
  "prims \<Rightarrow> (nat \<Rightarrow> rng) \<Rightarrow> (nat \<Rightarrow> span) \<Rightarrow> server_crypto \<Rightarrow> strategy \<Rightarrow> bytes list \<Rightarrow> nat \<Rightarrow> bytes row list res" where
  "run_chunks P rs sps srv st [] i =
     bind_res (strat_finalize P (rs i) (sps i) srv (int i) st) (\<lambda>final.
     Inr (case final of None \<Rightarrow> [] | Some row \<Rightarrow> [row]))"
| "run_chunks P rs sps srv st (c # cs) i =
     bind_res (strat_add_chunk P (rs i) (sps i) srv c (int i) st) (\<lambda>(st', out).
     bind_res (run_chunks P rs sps srv st' cs (Suc i)) (\<lambda>rows.
     Inr (case out of None \<Rightarrow> rows | Some row \<Rightarrow> row # rows)))"

end
