(* ===== verification/PyValues.thy ===== *)
theory PyValues
  imports Primitives
begin

text \<open>
  The Python conversions the request handlers apply to decoded JSON: \<^verbatim>\<open>dict.get\<close> with a
  default, \<^verbatim>\<open>int(...)\<close> on a JSON value (decimal strings with sign, surrounding white space and
  single underscores included), \<^verbatim>\<open>str.lower\<close> on ASCII, \<^verbatim>\<open>dict.pop\<close>.
\<close>

definition body_get :: "json \<Rightarrow> string \<Rightarrow> json \<Rightarrow> json res" where
  "body_get body k dflt =
     (case body of
        JObj kvs \<Rightarrow> Inr (case map_of kvs k of None \<Rightarrow> dflt | Some v \<Rightarrow> v)
      | _ \<Rightarrow> Inl AttributeError)"

definition digit_value :: "char \<Rightarrow> int option" where
  "digit_value c = (let n = of_char c :: nat in if 48 \<le> n \<and> n \<le> 57 then Some (int (n - 48)) else None)"

definition is_space :: "char \<Rightarrow> bool" where
  "is_space c \<longleftrightarrow> (let n = of_char c :: nat in n = 32 \<or> (9 \<le> n \<and> n \<le> 13) \<or> (28 \<le> n \<and> n \<le> 31))"

text \<open>Digits with single underscores between them; \<open>start\<close> says that a digit must come next.\<close>

fun parse_digits :: "bool \<Rightarrow> int \<Rightarrow> string \<Rightarrow> int option" where
  "parse_digits start acc [] = (if start then None else Some acc)"
| "parse_digits start acc (c # cs) =
     (case digit_value c of
        Some d \<Rightarrow> parse_digits False (acc * 10 + d) cs
      | None \<Rightarrow> if c = CHR ''_'' \<and> \<not> start then parse_digits True acc cs else None)"

definition strip :: "string \<Rightarrow> string" where
  "strip s = rev (dropWhile is_space (rev (dropWhile is_space s)))"

definition parse_int :: "string \<Rightarrow> int option" where
  "parse_int s =
     (case strip s of
        [] \<Rightarrow> None
      | c # cs \<Rightarrow> if c = CHR ''-'' then map_option uminus (parse_digits True 0 cs)
                 else if c = CHR ''+'' then parse_digits True 0 cs
                 else parse_digits True 0 (c # cs))"

definition truncate :: "rat \<Rightarrow> int" where
  "truncate r = (if 0 \<le> r then \<lfloor>r\<rfloor> else \<lceil>r\<rceil>)"

definition py_int :: "json \<Rightarrow> int res" where
  "py_int j =
     (case j of
        JInt i \<Rightarrow> Inr i
      | JBool b \<Rightarrow> Inr (if b then 1 else 0)
      | JFloat r \<Rightarrow> Inr (truncate r)
      | JStr s \<Rightarrow> (case parse_int s of None \<Rightarrow> Inl ValueError | Some i \<Rightarrow> Inr i)
      | _ \<Rightarrow> Inl TypeError)"

definition lower_char :: "char \<Rightarrow> char" where
  "lower_char c = (let n = of_char c :: nat in if 65 \<le> n \<and> n \<le> 90 then char_of (n + 32) else c)"

definition lower :: "string \<Rightarrow> string" where
  "lower s = map lower_char s"

text \<open>\<^verbatim>\<open>d.pop(k)\<close> on a parsed object.\<close>

definition json_pop :: "json \<Rightarrow> string \<Rightarrow> (json \<times> json) res" where
  "json_pop j k =
     (case j of
        JObj kvs \<Rightarrow> (case map_of kvs k of
                       None \<Rightarrow> Inl KeyError
                     | Some v \<Rightarrow> Inr (v, JObj (filter (\<lambda>p. fst p \<noteq> k) kvs)))
      | _ \<Rightarrow> Inl TypeError)"

lemma json_pop_removes: "json_pop j k = Inr (v, j') \<Longrightarrow> json_get j k = Some v \<and> json_get j' k = None"
proof -
  have *: "map_of (filter (\<lambda>p. fst p \<noteq> k) kvs) k = None" for kvs :: "(string \<times> json) list"
    by (induction kvs) auto
  show "json_pop j k = Inr (v, j') \<Longrightarrow> json_get j k = Some v \<and> json_get j' k = None"
    by (auto simp: json_pop_def * split: json.splits option.splits)
qed

lemma map_of_filter_other: "k' \<noteq> k \<Longrightarrow> map_of (filter (\<lambda>p. fst p \<noteq> k) kvs) k' = map_of kvs k'"
  by (induction kvs) auto

lemma json_pop_keeps: "json_pop j k = Inr (v, j') \<Longrightarrow> k' \<noteq> k \<Longrightarrow> json_get j' k' = json_get j k'"
  by (auto simp: json_pop_def map_of_filter_other split: json.splits option.splits)

end
