(* ===== verification/SecureApp.thy ===== *)
theory SecureApp
  imports Schemas StreamServer PyValues
begin

text \<open>
  \<^verbatim>\<open>api/secure_app.py\<close>: the protected application. Its state is the server instance, the kept
  session keys and the optional identity key; every handler returns the new state with its
  response or exception, so what a failed request leaves behind is visible. The prediction
  model and the streaming backend are parameters (\<^verbatim>\<open>api/model_service.py\<close> dispatches to the
  active profile, \<^verbatim>\<open>backend.stream\<close> yields the tokens).
\<close>

record app =
  ap_config :: string
  ap_crypto :: server_crypto
  ap_session_keys :: "string \<rightharpoonup> bytes"
  ap_identity :: "identity_key option"

definition build_app :: "prims \<Rightarrow> tape \<Rightarrow> bool \<Rightarrow> string \<Rightarrow> app res" where
  "build_app P t auth_handshake config_name =
     bind_res (get_server_crypto config_name) (\<lambda>server_crypto.
     bind_res (if auth_handshake
               then map_sum id Some (identity_generate P t (identity_algorithm_for (srv_sig_algorithm server_crypto)))
               else Inr None) (\<lambda>identity.
     Inr \<lparr> ap_config = config_name, ap_crypto = server_crypto, ap_session_keys = Map.empty, ap_identity = identity \<rparr>))"

definition healthz :: "app \<Rightarrow> string \<Rightarrow> (string \<times> string) list" where
  "healthz app profile = [(''status'', ''ok''), (''config'', ap_config app), (''payload_profile'', profile)]"

definition get_identity :: "app \<Rightarrow> (string \<times> string) res" where
  "get_identity app =
     (case ap_identity app of
        None \<Rightarrow> Inl (HTTPException 404)
      | Some ik \<Rightarrow> Inr (ik_algorithm ik, b64e (ik_public_key ik)))"

section \<open>GET /secure/handshake\<close>

definition handshake ::
  "prims \<Rightarrow> string \<Rightarrow> rng \<Rightarrow> span \<Rightarrow> span \<Rightarrow> app \<Rightarrow> app \<times> handshake_response res" where
  "handshake P uuid r sp sp_id app =
     (let (crypto', rb) = srv_new_handshake P uuid r sp None (ap_crypto app) in
      (app \<lparr> ap_crypto := crypto' \<rparr>,
       bind_res rb (\<lambda>bundle.
       bind_res
         (case ap_identity app of
            None \<Rightarrow> Inr (None, None)
          | Some ik \<Rightarrow>
              bind_res (transcript P (hb_handshake_id bundle) (srv_kex_algorithm crypto') (srv_sig_algorithm crypto')
                          (hb_kex_public_key bundle) (hb_sig_public_key bundle)) (\<lambda>msg.
              bind_res (identity_sign P (r 3) sp_id ik msg) (\<lambda>(sg, sign_meta).
              Inr (Some (b64e sg), Some (ism_sign_ms sign_meta)))))
         (\<lambda>(transcript_signature, transcript_sign_ms).
       Inr \<lparr> hr_handshake_id = hb_handshake_id bundle, hr_kex_public_key = b64e (hb_kex_public_key bundle),
             hr_sig_public_key = b64e (hb_sig_public_key bundle), hr_kex_algorithm = srv_kex_algorithm crypto',
             hr_sig_algorithm = srv_sig_algorithm crypto', hr_meta = hb_meta bundle,
             hr_transcript_sign_ms = transcript_sign_ms, hr_transcript_signature = transcript_signature \<rparr>))))"

section \<open>POST /secure/predict\<close>

text \<open>Any exception of the base64 decoding is answered with status 400.\<close>

definition decode_request :: "secure_predict_request \<Rightarrow> (bytes \<times> bytes \<times> bytes) res" where
  "decode_request req =
     (case bind_res (b64d (rq_kex_blob req)) (\<lambda>kex_blob.
           bind_res (b64d (rq_nonce req)) (\<lambda>req_nonce.
           bind_res (b64d (rq_ciphertext req)) (\<lambda>req_ciphertext. Inr (kex_blob, req_nonce, req_ciphertext)))) of
        Inl _ \<Rightarrow> Inl (HTTPException 400)
      | Inr x \<Rightarrow> Inr x)"

definition accept_request :: "prims \<Rightarrow> span \<Rightarrow> server_crypto \<Rightarrow> string \<Rightarrow> bytes \<Rightarrow> (bytes \<times> accept_meta) res" where
  "accept_request P sp crypto hid kex_blob =
     (case srv_accept P sp crypto hid kex_blob of
        Inl KeyError \<Rightarrow> Inl (HTTPException 404)
      | Inl _ \<Rightarrow> Inl (HTTPException 400)
      | Inr x \<Rightarrow> Inr x)"

definition open_request :: "prims \<Rightarrow> bytes \<Rightarrow> bytes \<Rightarrow> bytes \<Rightarrow> bytes res" where
  "open_request P session_key req_nonce req_ciphertext =
     (case aead_decrypt P session_key req_nonce req_ciphertext None of
        Inl AEADError \<Rightarrow> Inl (HTTPException 400)
      | r \<Rightarrow> r)"

text \<open>
  The session key of a request: established from a key-exchange blob, and remembered under
  \<^verbatim>\<open>keep_session\<close> before the payload is authenticated; or, with an empty blob, the kept one.
\<close>

definition session_key_for ::
  "prims \<Rightarrow> span \<Rightarrow> app \<Rightarrow> secure_predict_request \<Rightarrow> bytes \<Rightarrow> app \<times> (bytes \<times> accept_meta) res" where
  "session_key_for P sp app req kex_blob =
     (if kex_blob \<noteq> [] then
        (case accept_request P sp (ap_crypto app) (rq_handshake_id req) kex_blob of
           Inl e \<Rightarrow> (app, Inl e)
         | Inr (session_key, meta) \<Rightarrow>
             (if rq_keep_session req
              then app \<lparr> ap_session_keys := (ap_session_keys app)(rq_handshake_id req \<mapsto> session_key) \<rparr> else app,
              Inr (session_key, meta)))
      else
        (case ap_session_keys app (rq_handshake_id req) of
           None \<Rightarrow> (app, Inl (HTTPException 404))
         | Some session_key \<Rightarrow> (app, Inr (session_key, \<lparr> decapsulate_ms = 0, am_kex_blob_bytes = 0 \<rparr>))))"

record predict_clock =
  pc_start :: rat
  pc_accept :: span
  pc_encrypt :: "rat \<times> rat"
  pc_sign :: span
  pc_end :: rat

definition forget_session :: "string \<Rightarrow> app \<Rightarrow> app" where
  "forget_session hid app =
     app \<lparr> ap_session_keys := (ap_session_keys app)(hid := None), ap_crypto := srv_forget hid (ap_crypto app) \<rparr>"

text \<open>
  The model's answer and the inference time it reports. The model server reports a number; the
  source would pass any other value on unread, which counts as 0 here.
\<close>

definition run_model :: "(json \<Rightarrow> json res) \<Rightarrow> json \<Rightarrow> (json \<times> rat) res" where
  "run_model predict body =
     bind_res (predict body) (\<lambda>result.
     bind_res (json_pop result ''_inference_ms'') (\<lambda>(ms, result').
     Inr (result', case ms of JFloat x \<Rightarrow> x | JInt i \<Rightarrow> of_int i | _ \<Rightarrow> 0)))"

definition secure_predict ::
  "prims \<Rightarrow> (json \<Rightarrow> json res) \<Rightarrow> rng \<Rightarrow> predict_clock \<Rightarrow> string option \<Rightarrow> secure_predict_request \<Rightarrow> app
     \<Rightarrow> app \<times> secure_predict_response res" where
  "secure_predict P predict r clk x_debug_metrics req app =
     (let debug_wanted = (lower (str_or x_debug_metrics '''') = ''true'') in
      case decode_request req of
        Inl e \<Rightarrow> (app, Inl e)
      | Inr (kex_blob, req_nonce, req_ciphertext) \<Rightarrow>
          (case session_key_for P (pc_accept clk) app req kex_blob of
             (app1, Inl e) \<Rightarrow> (app1, Inl e)
           | (app1, Inr (session_key, accept_meta)) \<Rightarrow>
               (case bind_res (open_request P session_key req_nonce req_ciphertext) (\<lambda>plaintext.
                     bind_res (case json_loads P plaintext of None \<Rightarrow> Inl JSONDecodeError | Some b \<Rightarrow> Inr b) (\<lambda>body.
                     bind_res (run_model predict body) (\<lambda>(result, inference_ms).
                     bind_res (aead_encrypt P (r 0) session_key (json_dumps P result) None) (\<lambda>resp_aead.
                     bind_res (srv_sign P (r 1) (pc_sign clk) (ap_crypto app1) (rq_handshake_id req)
                                 (ar_nonce resp_aead @ ar_ciphertext resp_aead)) (\<lambda>(signature, sign_meta).
                     Inr (resp_aead, signature, sign_meta, inference_ms)))))) of
                  Inl e \<Rightarrow> (app1, Inl e)
                | Inr (resp_aead, signature, sign_meta, inference_ms) \<Rightarrow>
                    let app2 = (if \<not> rq_keep_session req then forget_session (rq_handshake_id req) app1 else app1);
                        encrypt_ms = (snd (pc_encrypt clk) - fst (pc_encrypt clk)) * 1000;
                        total_ms = (pc_end clk - pc_start clk) * 1000 in
                    (app2, Inr \<lparr> rp_nonce = b64e (ar_nonce resp_aead), rp_ciphertext = b64e (ar_ciphertext resp_aead),
                       rp_signature = b64e signature,
                       rp_server_timing = \<lparr> st_decapsulate_ms = decapsulate_ms accept_meta, st_inference_ms = inference_ms,
                         st_encrypt_ms = encrypt_ms, st_sign_ms = sign_ms sign_meta,
                         st_server_crypto_ms = decapsulate_ms accept_meta + encrypt_ms + sign_ms sign_meta,
                         st_server_total_ms = total_ms \<rparr>,
                       rp_debug = (if debug_wanted then Some
                         \<lparr> dm_kex_blob_bytes = am_kex_blob_bytes accept_meta,
                           dm_response_ciphertext_bytes = length (ar_ciphertext resp_aead),
                           dm_signature_bytes = signature_bytes sign_meta,
                           dm_kex_algorithm = srv_kex_algorithm (ap_crypto app), dm_sig_algorithm = srv_sig_algorithm (ap_crypto app) \<rparr>
                         else None) \<rparr>))))"

end
