(* ===== verification/StreamClient.thy ===== *)
theory StreamClient
  imports StreamServer
begin

text \<open>
  The client side of \<^verbatim>\<open>crypto/streaming.py\<close>: the client's own hash chain and the five
  verification functions, each returning the result dictionary of the source as a record. The
  base64 layer of the wire (\<^verbatim>\<open>_encode_for_wire\<close> and the decoding of the consumers) is at
  the end.
\<close>

section \<open>Decryption into a result\<close>

text \<open>\<^verbatim>\<open>_decrypt_into\<close>: the \<open>aead_ok\<close> and \<open>plaintext\<close> entries. Only \<open>AEADError\<close> is caught.\<close>

definition decrypt_into :: "prims \<Rightarrow> bytes \<Rightarrow> bytes \<Rightarrow> bytes \<Rightarrow> (bool option \<times> bytes option) res" where
  "decrypt_into P session_key nonce ciphertext =
     (case aead_decrypt P session_key nonce ciphertext None of
        Inr plaintext \<Rightarrow> Inr (Some True, Some plaintext)
      | Inl e \<Rightarrow> if e = AEADError then Inr (Some False, None) else Inl e)"

lemma decrypt_into_ok:
  "aead_decrypt P key n c None = Inr m \<Longrightarrow> decrypt_into P key n c = Inr (Some True, Some m)"
  by (simp add: decrypt_into_def)

lemma decrypt_into_True:
  "decrypt_into P key n c = Inr (Some True, p) \<longleftrightarrow> (\<exists>m. aead_decrypt P key n c None = Inr m \<and> p = Some m)"
  by (auto simp: decrypt_into_def split: sum.splits if_splits)

lemma decrypt_into_cases:
  "decrypt_into P key n c = Inr (a, p) \<Longrightarrow>
     a = Some True \<and> (\<exists>m. p = Some m \<and> aead_decrypt P key n c None = Inr m) \<or>
     a = Some False \<and> p = None \<and> aead_decrypt P key n c None = Inl AEADError"
  by (auto simp: decrypt_into_def split: sum.splits if_splits)

section \<open>buffer_and_sign\<close>

record buffered_chunk =
  bc_nonce :: bytes
  bc_ciphertext :: bytes
  bc_signature :: bytes

record buffered_result =
  br_signature_valid :: bool
  br_verify_ms :: rat
  br_verify_cpu_ms :: rat
  br_aead_ok :: "bool option"
  br_plaintext :: "bytes option"

definition verify_buffer_and_sign_final ::
  "prims \<Rightarrow> span \<Rightarrow> buffered_chunk \<Rightarrow> bytes \<Rightarrow> bytes \<Rightarrow> client_crypto \<Rightarrow> string \<Rightarrow> buffered_result res" where
  "verify_buffer_and_sign_final P sp final_chunk session_key sig_public_key client_crypto handshake_id =
     (let msg = buffered_message (stream_context P handshake_id) (bc_nonce final_chunk) (bc_ciphertext final_chunk) in
      bind_res (cl_verify P sp client_crypto msg (bc_signature final_chunk) sig_public_key) (\<lambda>(valid, meta).
      bind_res (if valid then decrypt_into P session_key (bc_nonce final_chunk) (bc_ciphertext final_chunk)
                else Inr (None, None)) (\<lambda>(aead_ok, plaintext).
      Inr \<lparr> br_signature_valid = valid, br_verify_ms = verify_ms meta, br_verify_cpu_ms = verify_cpu_ms meta,
            br_aead_ok = aead_ok, br_plaintext = plaintext \<rparr>)))"

section \<open>per_chunk\<close>

record pc_chunk =
  pk_index :: int
  pk_nonce :: bytes
  pk_ciphertext :: bytes
  pk_signature :: bytes

record pc_result =
  pr_index :: int
  pr_signature_valid :: bool
  pr_verify_ms :: rat
  pr_verify_cpu_ms :: rat
  pr_in_order :: bool
  pr_aead_ok :: "bool option"
  pr_plaintext :: "bytes option"

definition verify_per_chunk ::
  "prims \<Rightarrow> span \<Rightarrow> pc_chunk \<Rightarrow> int \<Rightarrow> bytes \<Rightarrow> bytes \<Rightarrow> client_crypto \<Rightarrow> string \<Rightarrow> pc_result res" where
  "verify_per_chunk P sp chunk expected_index session_key sig_public_key client_crypto handshake_id =
     bind_res (chunk_message (stream_context P handshake_id) (pk_index chunk) (pk_nonce chunk) (pk_ciphertext chunk)) (\<lambda>msg.
     bind_res (cl_verify P sp client_crypto msg (pk_signature chunk) sig_public_key) (\<lambda>(valid, meta).
     bind_res (if valid then decrypt_into P session_key (pk_nonce chunk) (pk_ciphertext chunk)
               else Inr (None, None)) (\<lambda>(aead_ok, plaintext).
     Inr \<lparr> pr_index = pk_index chunk, pr_signature_valid = valid, pr_verify_ms = verify_ms meta,
           pr_verify_cpu_ms = verify_cpu_ms meta, pr_in_order = (pk_index chunk = expected_index),
           pr_aead_ok = aead_ok, pr_plaintext = plaintext \<rparr>)))"

record pc_final_result =
  pf_signature_valid :: bool
  pf_count_matches :: bool
  pf_verify_ms :: rat
  pf_verify_cpu_ms :: rat
  pf_stream_fully_verified :: bool

definition verify_per_chunk_final ::
  "prims \<Rightarrow> span \<Rightarrow> int \<Rightarrow> bytes \<Rightarrow> int \<Rightarrow> bytes \<Rightarrow> client_crypto \<Rightarrow> string \<Rightarrow> pc_final_result res" where
  "verify_per_chunk_final P sp n_chunks signature n_received sig_public_key client_crypto handshake_id =
     bind_res (end_message (stream_context P handshake_id) n_chunks) (\<lambda>msg.
     bind_res (cl_verify P sp client_crypto msg signature sig_public_key) (\<lambda>(valid, meta).
     let count_ok = (n_chunks = n_received) in
     Inr \<lparr> pf_signature_valid = valid, pf_count_matches = count_ok, pf_verify_ms = verify_ms meta,
           pf_verify_cpu_ms = verify_cpu_ms meta, pf_stream_fully_verified = (valid \<and> count_ok) \<rparr>))"

section \<open>hash_chain\<close>

record chain_state =
  cs_handshake_id :: string
  cs_checkpoint_interval :: "int option"
  cs_running_hash :: bytes
  cs_ctx :: bytes
  cs_n_absorbed :: int

definition chain_init :: "prims \<Rightarrow> string \<Rightarrow> int option \<Rightarrow> chain_state" where
  "chain_init P handshake_id checkpoint_interval =
     \<lparr> cs_handshake_id = handshake_id, cs_checkpoint_interval = checkpoint_interval,
       cs_running_hash = genesis_hash P handshake_id, cs_ctx = stream_context P handshake_id,
       cs_n_absorbed = 0 \<rparr>"

definition absorb :: "prims \<Rightarrow> int \<Rightarrow> bytes \<Rightarrow> bytes \<Rightarrow> chain_state \<Rightarrow> (chain_state \<times> bytes) res" where
  "absorb P index nonce ciphertext cs =
     bind_res (chain_step P (cs_running_hash cs) index (nonce @ ciphertext)) (\<lambda>h.
     Inr (cs \<lparr> cs_running_hash := h, cs_n_absorbed := cs_n_absorbed cs + 1 \<rparr>, h))"

record hc_chunk =
  hk_index :: int
  hk_nonce :: bytes
  hk_ciphertext :: bytes
  hk_chain_hash :: bytes
  hk_signature :: "bytes option"

record hc_result =
  hr_index :: int
  hr_chain_ok_so_far :: bool
  hr_aead_ok :: "bool option"
  hr_plaintext :: "bytes option"
  hr_checkpoint :: bool
  hr_checkpoint_valid :: "bool option"
  hr_checkpoint_missing :: bool
  hr_verify_ms :: rat
  hr_verify_cpu_ms :: rat

text \<open>\<^verbatim>\<open>k and chain_state.n_absorbed % k == 0\<close>: this position should carry a checkpoint.\<close>

definition checkpoint_expected :: "int option \<Rightarrow> int \<Rightarrow> bool" where
  "checkpoint_expected k n_absorbed \<longleftrightarrow>
     (case k of None \<Rightarrow> False | Some k \<Rightarrow> k \<noteq> 0 \<and> n_absorbed mod k = 0)"

text \<open>
  The verification key and the client object are optional arguments; the checkpoint signature
  is checked, against the client's own hash, only when both are given.
\<close>

definition checkpoint_check ::
  "prims \<Rightarrow> span \<Rightarrow> chain_state \<Rightarrow> int \<Rightarrow> bytes \<Rightarrow> bytes option \<Rightarrow> bytes option \<Rightarrow> client_crypto option
     \<Rightarrow> (bool \<times> bool option \<times> rat \<times> rat) res" where
  "checkpoint_check P sp cs index expected_hash signature sig_public_key client_crypto =
     (case (signature, sig_public_key, client_crypto) of
        (Some sg, Some pk, Some cl) \<Rightarrow>
          if sg = [] then Inr (False, None, 0, 0)
          else
            bind_res (checkpoint_message (cs_ctx cs) index expected_hash) (\<lambda>msg.
            bind_res (cl_verify P sp cl msg sg pk) (\<lambda>(valid, meta).
            Inr (True, Some valid, verify_ms meta, verify_cpu_ms meta)))
      | _ \<Rightarrow> Inr (False, None, 0, 0))"

definition verify_hash_chain_chunk ::
  "prims \<Rightarrow> span \<Rightarrow> hc_chunk \<Rightarrow> chain_state \<Rightarrow> bytes \<Rightarrow> bytes option \<Rightarrow> client_crypto option \<Rightarrow> (chain_state \<times> hc_result) res" where
  "verify_hash_chain_chunk P sp chunk cs session_key sig_public_key client_crypto =
     bind_res (absorb P (hk_index chunk) (hk_nonce chunk) (hk_ciphertext chunk) cs) (\<lambda>(cs', expected_hash).
     let missing = checkpoint_expected (cs_checkpoint_interval cs') (cs_n_absorbed cs') \<and> \<not> truthy_bytes (hk_signature chunk) in
     bind_res (checkpoint_check P sp cs' (hk_index chunk) expected_hash (hk_signature chunk) sig_public_key client_crypto)
       (\<lambda>(checkpoint, valid, vms, vcpu).
     bind_res (decrypt_into P session_key (hk_nonce chunk) (hk_ciphertext chunk)) (\<lambda>(aead_ok, plaintext).
     Inr (cs', \<lparr> hr_index = hk_index chunk, hr_chain_ok_so_far = (expected_hash = hk_chain_hash chunk),
                 hr_aead_ok = aead_ok, hr_plaintext = plaintext, hr_checkpoint = checkpoint,
                 hr_checkpoint_valid = valid, hr_checkpoint_missing = missing,
                 hr_verify_ms = vms, hr_verify_cpu_ms = vcpu \<rparr>))))"

lemma checkpoint_check_some:
  "checkpoint_check P sp cs i h sg (Some pk) (Some cl) =
     (if truthy_bytes sg then
        bind_res (checkpoint_message (cs_ctx cs) i h) (\<lambda>msg.
        bind_res (cl_verify P sp cl msg (the sg) pk) (\<lambda>(valid, meta).
        Inr (True, Some valid, verify_ms meta, verify_cpu_ms meta)))
      else Inr (False, None, 0, 0))"
  by (simp add: checkpoint_check_def split: option.splits)

lemma verify_hash_chain_chunk_Inr:
  "verify_hash_chain_chunk P sp c cs key pk cl = Inr (cs', r) \<longleftrightarrow>
     (\<exists>h cp v vm vc a p. absorb P (hk_index c) (hk_nonce c) (hk_ciphertext c) cs = Inr (cs', h)
        \<and> checkpoint_check P sp cs' (hk_index c) h (hk_signature c) pk cl = Inr (cp, v, vm, vc)
        \<and> decrypt_into P key (hk_nonce c) (hk_ciphertext c) = Inr (a, p)
        \<and> r = \<lparr> hr_index = hk_index c, hr_chain_ok_so_far = (h = hk_chain_hash c), hr_aead_ok = a, hr_plaintext = p,
                hr_checkpoint = cp, hr_checkpoint_valid = v,
                hr_checkpoint_missing = (checkpoint_expected (cs_checkpoint_interval cs') (cs_n_absorbed cs')
                                         \<and> \<not> truthy_bytes (hk_signature c)),
                hr_verify_ms = vm, hr_verify_cpu_ms = vc \<rparr>)"
  unfolding verify_hash_chain_chunk_def Let_def by (simp add: split_beta') (metis prod.collapse prod.inject)

record hc_final_result =
  hf_chain_matches :: bool
  hf_count_matches :: bool
  hf_signature_valid :: bool
  hf_verify_ms :: rat
  hf_verify_cpu_ms :: rat
  hf_stream_fully_verified :: bool

record hc_final =
  hl_final_chain_hash :: bytes
  hl_n_chunks :: int
  hl_signature :: bytes

definition verify_hash_chain_final ::
  "prims \<Rightarrow> span \<Rightarrow> hc_final \<Rightarrow> chain_state \<Rightarrow> bytes \<Rightarrow> client_crypto \<Rightarrow> hc_final_result res" where
  "verify_hash_chain_final P sp final_chunk cs sig_public_key client_crypto =
     (let chain_matches = (hl_final_chain_hash final_chunk = cs_running_hash cs);
          count_ok = (hl_n_chunks final_chunk = cs_n_absorbed cs) in
      bind_res (final_chain_message (cs_ctx cs) (cs_n_absorbed cs) (cs_running_hash cs)) (\<lambda>msg.
      bind_res (cl_verify P sp client_crypto msg (hl_signature final_chunk) sig_public_key) (\<lambda>(valid, meta).
      Inr \<lparr> hf_chain_matches = chain_matches, hf_count_matches = count_ok, hf_signature_valid = valid,
            hf_verify_ms = verify_ms meta, hf_verify_cpu_ms = verify_cpu_ms meta,
            hf_stream_fully_verified = (chain_matches \<and> count_ok \<and> valid) \<rparr>)))"

section \<open>The base64 layer\<close>

definition encode_chunk :: "bytes chunk_row \<Rightarrow> string chunk_row" where
  "encode_chunk c =
     \<lparr> ck_index = ck_index c, ck_nonce = b64e (ck_nonce c), ck_ciphertext = b64e (ck_ciphertext c),
       ck_chain_hash = map_option b64e (ck_chain_hash c), ck_signature = map_option b64e (ck_signature c),
       ck_sign_ms = ck_sign_ms c, ck_sign_cpu_ms = ck_sign_cpu_ms c, ck_signature_bytes = ck_signature_bytes c \<rparr>"

text \<open>\<^verbatim>\<open>_encode_for_wire\<close> on each kind of row.\<close>

fun encode_for_wire :: "bytes row \<Rightarrow> string row" where
  "encode_for_wire (Chunk c) = Chunk (encode_chunk c)"
| "encode_for_wire (FinalBuffered f) = FinalBuffered
     \<lparr> fb_nonce = b64e (fb_nonce f), fb_ciphertext = b64e (fb_ciphertext f), fb_signature = b64e (fb_signature f),
       fb_sign_ms = fb_sign_ms f, fb_sign_cpu_ms = fb_sign_cpu_ms f, fb_signature_bytes = fb_signature_bytes f \<rparr>"
| "encode_for_wire (FinalPerChunk f) = FinalPerChunk
     \<lparr> pe_n_chunks = pe_n_chunks f, pe_signature = b64e (pe_signature f), pe_sign_ms = pe_sign_ms f,
       pe_sign_cpu_ms = pe_sign_cpu_ms f, pe_signature_bytes = pe_signature_bytes f \<rparr>"
| "encode_for_wire (FinalChain f) = FinalChain
     \<lparr> fc_final_chain_hash = b64e (fc_final_chain_hash f), fc_n_chunks = fc_n_chunks f,
       fc_signature = b64e (fc_signature f), fc_sign_ms = fc_sign_ms f, fc_sign_cpu_ms = fc_sign_cpu_ms f,
       fc_signature_bytes = fc_signature_bytes f \<rparr>"

text \<open>\<^verbatim>\<open>_b64d(data["..."])\<close> on a JSON null raises \<open>AttributeError\<close>.\<close>

definition b64d_field :: "string option \<Rightarrow> bytes res" where
  "b64d_field x = (case x of None \<Rightarrow> Inl AttributeError | Some s \<Rightarrow> b64d s)"

definition decode_pc_chunk :: "string chunk_row \<Rightarrow> pc_chunk res" where
  "decode_pc_chunk data =
     bind_res (b64d (ck_nonce data)) (\<lambda>nonce.
     bind_res (b64d (ck_ciphertext data)) (\<lambda>ciphertext.
     bind_res (b64d_field (ck_signature data)) (\<lambda>signature.
     Inr \<lparr> pk_index = ck_index data, pk_nonce = nonce, pk_ciphertext = ciphertext, pk_signature = signature \<rparr>)))"

definition decode_hc_chunk :: "string chunk_row \<Rightarrow> hc_chunk res" where
  "decode_hc_chunk data =
     bind_res (b64d (ck_nonce data)) (\<lambda>nonce.
     bind_res (b64d (ck_ciphertext data)) (\<lambda>ciphertext.
     bind_res (case ck_chain_hash data of None \<Rightarrow> Inl KeyError | Some s \<Rightarrow> b64d s) (\<lambda>chain_hash.
     bind_res (case ck_signature data of
                 None \<Rightarrow> Inr None
               | Some s \<Rightarrow> if s = [] then Inr None else map_sum id Some (b64d s)) (\<lambda>signature.
     Inr \<lparr> hk_index = ck_index data, hk_nonce = nonce, hk_ciphertext = ciphertext, hk_chain_hash = chain_hash,
           hk_signature = signature \<rparr>))))"

lemma decode_pc_encode:
  "decode_pc_chunk (encode_chunk c) =
     (case ck_signature c of None \<Rightarrow> Inl AttributeError
      | Some sg \<Rightarrow> Inr \<lparr> pk_index = ck_index c, pk_nonce = ck_nonce c, pk_ciphertext = ck_ciphertext c, pk_signature = sg \<rparr>)"
  by (simp add: decode_pc_chunk_def encode_chunk_def b64d_field_def split: option.splits)

lemma decode_hc_encode:
  "ck_chain_hash c = Some h \<Longrightarrow> decode_hc_chunk (encode_chunk c) =
     Inr \<lparr> hk_index = ck_index c, hk_nonce = ck_nonce c, hk_ciphertext = ck_ciphertext c, hk_chain_hash = h,
           hk_signature = (case ck_signature c of None \<Rightarrow> None | Some sg \<Rightarrow> if sg = [] then None else Some sg) \<rparr>"
  by (simp add: decode_hc_chunk_def encode_chunk_def split: option.splits)

end
