(* ===== verification/StreamingClient.thy ===== *)
theory StreamingClient
  imports Schemas StreamClient
begin

text \<open>
  \<^verbatim>\<open>api/secure_streaming_client.py\<close>: \<^verbatim>\<open>run_streaming_transaction\<close>. The server-sent events
  arrive as a list; each event carries what the clock showed when it arrived (\<open>ev_arrival\<close>),
  the span of the verification it triggers and the reading taken after it (\<open>ev_now\<close>). The
  network is a parameter: the parsed handshake response, and the function from the request to a
  status code and the events.
\<close>

section \<open>Metrics and loop state\<close>

datatype txn_error = ErrHTTP nat | ErrExn exn | ErrText string

record stream_metrics =
  sm_config :: string
  sm_strategy :: string
  sm_chunk_size_tokens :: int
  sm_max_tokens :: int
  sm_error :: "txn_error option"
  sm_ttft_ms :: "rat option"
  sm_total_ms :: "rat option"
  sm_n_chunks :: nat
  sm_total_signature_bytes :: nat
  sm_total_signing_ms :: rat
  sm_total_verify_ms :: rat
  sm_total_signing_cpu_ms :: rat
  sm_total_verify_cpu_ms :: rat
  sm_all_signatures_valid :: bool
  sm_all_aead_ok :: bool
  sm_all_in_order :: bool
  sm_stream_fully_verified :: "bool option"
  sm_reconstructed_bytes :: nat
  sm_checkpoint_interval :: "int option"
  sm_n_signatures :: nat
  sm_max_unverified_chunks :: nat
  sm_max_verification_lag_ms :: rat
  sm_handshake_ms :: "rat option"

definition init_metrics :: "string \<Rightarrow> string \<Rightarrow> int \<Rightarrow> int \<Rightarrow> int option \<Rightarrow> stream_metrics" where
  "init_metrics config_name strategy chunk_size_tokens max_tokens checkpoint_interval =
     \<lparr> sm_config = config_name, sm_strategy = strategy, sm_chunk_size_tokens = chunk_size_tokens,
       sm_max_tokens = max_tokens, sm_error = None, sm_ttft_ms = None, sm_total_ms = None, sm_n_chunks = 0,
       sm_total_signature_bytes = 0, sm_total_signing_ms = 0, sm_total_verify_ms = 0,
       sm_total_signing_cpu_ms = 0, sm_total_verify_cpu_ms = 0, sm_all_signatures_valid = True,
       sm_all_aead_ok = True, sm_all_in_order = True, sm_stream_fully_verified = None,
       sm_reconstructed_bytes = 0, sm_checkpoint_interval = checkpoint_interval, sm_n_signatures = 0,
       sm_max_unverified_chunks = 0, sm_max_verification_lag_ms = 0, sm_handshake_ms = None \<rparr>"

record stream_client =
  sc_metrics :: stream_metrics
  sc_pending :: "rat list"
  sc_chain :: "chain_state option"
  sc_terminal_seen :: bool
  sc_expected_index :: int
  sc_reconstructed :: bytes

definition cover_pending :: "rat \<Rightarrow> stream_client \<Rightarrow> stream_client" where
  "cover_pending now st =
     (case sc_pending st of
        [] \<Rightarrow> st
      | p0 # _ \<Rightarrow>
          st \<lparr> sc_metrics := sc_metrics st
                 \<lparr> sm_max_unverified_chunks := max (sm_max_unverified_chunks (sc_metrics st)) (length (sc_pending st)),
                   sm_max_verification_lag_ms := max (sm_max_verification_lag_ms (sc_metrics st)) ((now - p0) * 1000) \<rparr>,
               sc_pending := [] \<rparr>)"

text \<open>The cost columns every branch accumulates.\<close>

definition add_costs :: "nat \<Rightarrow> rat \<Rightarrow> rat \<Rightarrow> rat \<Rightarrow> rat \<Rightarrow> stream_metrics \<Rightarrow> stream_metrics" where
  "add_costs sig_bytes signing signing_cpu verifying verifying_cpu m =
     m \<lparr> sm_total_signature_bytes := sm_total_signature_bytes m + sig_bytes,
         sm_total_signing_ms := sm_total_signing_ms m + signing,
         sm_total_signing_cpu_ms := sm_total_signing_cpu_ms m + signing_cpu,
         sm_total_verify_ms := sm_total_verify_ms m + verifying,
         sm_total_verify_cpu_ms := sm_total_verify_cpu_ms m + verifying_cpu \<rparr>"

section \<open>Events\<close>

text \<open>
  A line of the response: not a data line, a JSON object with a known kind, another JSON object
  (the \<^verbatim>\<open>done\<close> event), or data that does not parse.
\<close>

datatype sse_line = NonData | DataRow "string row" | DataOther | DataMalformed

record sse_event =
  ev_line :: sse_line
  ev_arrival :: rat
  ev_span :: span
  ev_now :: rat

record session_view =
  sv_client :: client_crypto
  sv_key :: bytes
  sv_sig_public_key :: bytes
  sv_handshake_id :: string
  sv_strategy :: string

text \<open>
  Each branch is split in two: the calls that may raise (\<open>on_...\<close>), and the bookkeeping that
  follows (\<open>after_...\<close>).
\<close>

definition extend_text :: "bytes option \<Rightarrow> bytes \<Rightarrow> bytes" where
  "extend_text plaintext text = (if truthy_bytes plaintext then text @ the plaintext else text)"

definition after_per_chunk :: "sse_event \<Rightarrow> string chunk_row \<Rightarrow> pc_result \<Rightarrow> stream_client \<Rightarrow> stream_client" where
  "after_per_chunk ev data result st =
     (let m = sc_metrics st;
          m1 = m \<lparr> sm_all_signatures_valid := (sm_all_signatures_valid m \<and> pr_signature_valid result),
                   sm_all_aead_ok := (sm_all_aead_ok m \<and> pr_aead_ok result = Some True),
                   sm_all_in_order := (sm_all_in_order m \<and> pr_in_order result) \<rparr>;
          m2 = add_costs (ck_signature_bytes data) (ck_sign_ms data) (ck_sign_cpu_ms data)
                 (pr_verify_ms result) (pr_verify_cpu_ms result) m1;
          m3 = m2 \<lparr> sm_n_chunks := sm_n_chunks m2 + 1, sm_n_signatures := sm_n_signatures m2 + 1 \<rparr>;
          st1 = st \<lparr> sc_metrics := m3, sc_expected_index := sc_expected_index st + 1,
                     sc_reconstructed := extend_text (pr_plaintext result) (sc_reconstructed st),
                     sc_pending := sc_pending st @ [ev_now ev] \<rparr> in
      if pr_signature_valid result \<and> pr_in_order result then cover_pending (ev_now ev) st1 else st1)"

definition on_per_chunk :: "prims \<Rightarrow> session_view \<Rightarrow> sse_event \<Rightarrow> string chunk_row \<Rightarrow> stream_client \<Rightarrow> stream_client res" where
  "on_per_chunk P v ev data st =
     bind_res (decode_pc_chunk data) (\<lambda>chunk.
     bind_res (verify_per_chunk P (ev_span ev) chunk (sc_expected_index st) (sv_key v) (sv_sig_public_key v)
                 (sv_client v) (sv_handshake_id v)) (\<lambda>result.
     Inr (after_per_chunk ev data result st)))"

definition after_hash_chunk :: "sse_event \<Rightarrow> string chunk_row \<Rightarrow> chain_state \<Rightarrow> hc_result \<Rightarrow> stream_client \<Rightarrow> stream_client" where
  "after_hash_chunk ev data cs' result st =
     (let m = sc_metrics st;
          m1 = m \<lparr> sm_all_aead_ok := (sm_all_aead_ok m \<and> hr_aead_ok result = Some True) \<rparr>;
          m2 = add_costs (ck_signature_bytes data) (ck_sign_ms data) (ck_sign_cpu_ms data)
                 (hr_verify_ms result) (hr_verify_cpu_ms result) m1;
          m3 = m2 \<lparr> sm_n_chunks := sm_n_chunks m2 + 1 \<rparr>;
          m4 = (if hr_checkpoint_missing result then m3 \<lparr> sm_all_signatures_valid := False \<rparr> else m3);
          m5 = (if hr_checkpoint result
                then m4 \<lparr> sm_n_signatures := sm_n_signatures m4 + 1,
                          sm_all_signatures_valid := (sm_all_signatures_valid m4 \<and> hr_checkpoint_valid result = Some True) \<rparr>
                else m4);
          st1 = st \<lparr> sc_metrics := m5, sc_chain := Some cs',
                     sc_reconstructed := extend_text (hr_plaintext result) (sc_reconstructed st),
                     sc_pending := sc_pending st @ [ev_now ev] \<rparr> in
      if hr_checkpoint result \<and> hr_checkpoint_valid result = Some True
      then cover_pending (ev_now ev) st1 else st1)"

text \<open>Without the strategy's chain state (another strategy was requested) the call raises.\<close>

definition chain_of_client :: "stream_client \<Rightarrow> chain_state res" where
  "chain_of_client st = (case sc_chain st of None \<Rightarrow> Inl AttributeError | Some cs \<Rightarrow> Inr cs)"

definition on_hash_chunk :: "prims \<Rightarrow> session_view \<Rightarrow> sse_event \<Rightarrow> string chunk_row \<Rightarrow> stream_client \<Rightarrow> stream_client res" where
  "on_hash_chunk P v ev data st =
     bind_res (decode_hc_chunk data) (\<lambda>chunk.
     bind_res (chain_of_client st) (\<lambda>cs.
     bind_res (verify_hash_chain_chunk P (ev_span ev) chunk cs (sv_key v) (Some (sv_sig_public_key v))
                 (Some (sv_client v))) (\<lambda>(cs', result).
     Inr (after_hash_chunk ev data cs' result st))))"

definition after_final_buffered :: "string buffered_row \<Rightarrow> buffered_result \<Rightarrow> stream_client \<Rightarrow> stream_client" where
  "after_final_buffered data result st =
     (let m = sc_metrics st;
          m1 = m \<lparr> sm_all_signatures_valid := (sm_all_signatures_valid m \<and> br_signature_valid result),
                   sm_all_aead_ok := (sm_all_aead_ok m \<and> br_aead_ok result = Some True) \<rparr>;
          m2 = add_costs (fb_signature_bytes data) (fb_sign_ms data) (fb_sign_cpu_ms data)
                 (br_verify_ms result) (br_verify_cpu_ms result) m1;
          m3 = m2 \<lparr> sm_n_signatures := sm_n_signatures m2 + 1 \<rparr> in
      st \<lparr> sc_metrics := m3, sc_terminal_seen := True,
           sc_reconstructed := extend_text (br_plaintext result) (sc_reconstructed st) \<rparr>)"

definition on_final_buffered :: "prims \<Rightarrow> session_view \<Rightarrow> sse_event \<Rightarrow> string buffered_row \<Rightarrow> stream_client \<Rightarrow> stream_client res" where
  "on_final_buffered P v ev data st =
     bind_res (b64d (fb_nonce data)) (\<lambda>nonce.
     bind_res (b64d (fb_ciphertext data)) (\<lambda>ciphertext.
     bind_res (b64d (fb_signature data)) (\<lambda>signature.
     bind_res (verify_buffer_and_sign_final P (ev_span ev)
                 \<lparr> bc_nonce = nonce, bc_ciphertext = ciphertext, bc_signature = signature \<rparr>
                 (sv_key v) (sv_sig_public_key v) (sv_client v) (sv_handshake_id v)) (\<lambda>result.
     Inr (after_final_buffered data result st)))))"

definition after_final_per_chunk :: "string end_row \<Rightarrow> pc_final_result \<Rightarrow> stream_client \<Rightarrow> stream_client" where
  "after_final_per_chunk data result st =
     (let m1 = add_costs (pe_signature_bytes data) (pe_sign_ms data) (pe_sign_cpu_ms data)
                 (pf_verify_ms result) (pf_verify_cpu_ms result) (sc_metrics st);
          m2 = m1 \<lparr> sm_n_signatures := sm_n_signatures m1 + 1,
                    sm_stream_fully_verified := Some (pf_stream_fully_verified result \<and> sm_all_signatures_valid m1
                                                      \<and> sm_all_aead_ok m1 \<and> sm_all_in_order m1) \<rparr> in
      st \<lparr> sc_metrics := m2, sc_terminal_seen := True \<rparr>)"

definition on_final_per_chunk :: "prims \<Rightarrow> session_view \<Rightarrow> sse_event \<Rightarrow> string end_row \<Rightarrow> stream_client \<Rightarrow> stream_client res" where
  "on_final_per_chunk P v ev data st =
     bind_res (b64d (pe_signature data)) (\<lambda>signature.
     bind_res (verify_per_chunk_final P (ev_span ev) (pe_n_chunks data) signature (sc_expected_index st)
                 (sv_sig_public_key v) (sv_client v) (sv_handshake_id v)) (\<lambda>result.
     Inr (after_final_per_chunk data result st)))"

text \<open>
  As written, the terminal record of a hash chain sets \<^verbatim>\<open>stream_fully_verified\<close> from its own
  result alone.
\<close>

definition after_final_chain :: "sse_event \<Rightarrow> string final_row \<Rightarrow> hc_final_result \<Rightarrow> stream_client \<Rightarrow> stream_client" where
  "after_final_chain ev data result st =
     (let m1 = add_costs (fc_signature_bytes data) (fc_sign_ms data) (fc_sign_cpu_ms data)
                 (hf_verify_ms result) (hf_verify_cpu_ms result) (sc_metrics st);
          m2 = m1 \<lparr> sm_stream_fully_verified := Some (hf_stream_fully_verified result),
                    sm_n_signatures := sm_n_signatures m1 + 1 \<rparr>;
          st1 = st \<lparr> sc_metrics := m2, sc_terminal_seen := True \<rparr> in
      if hf_stream_fully_verified result then cover_pending (ev_now ev) st1 else st1)"

definition on_final_chain :: "prims \<Rightarrow> session_view \<Rightarrow> sse_event \<Rightarrow> string final_row \<Rightarrow> stream_client \<Rightarrow> stream_client res" where
  "on_final_chain P v ev data st =
     bind_res (b64d (fc_final_chain_hash data)) (\<lambda>final_chain_hash.
     bind_res (b64d (fc_signature data)) (\<lambda>signature.
     bind_res (chain_of_client st) (\<lambda>cs.
     bind_res (verify_hash_chain_final P (ev_span ev)
                 \<lparr> hl_final_chain_hash = final_chain_hash, hl_n_chunks = fc_n_chunks data, hl_signature = signature \<rparr>
                 cs (sv_sig_public_key v) (sv_client v)) (\<lambda>result.
     Inr (after_final_chain ev data result st)))))"

text \<open>One line of the response. An exception leaves the state as it was before the branch.\<close>

definition on_row :: "prims \<Rightarrow> session_view \<Rightarrow> sse_event \<Rightarrow> string row \<Rightarrow> stream_client \<Rightarrow> stream_client res" where
  "on_row P v ev row st =
     (case row of
        Chunk c \<Rightarrow> if sv_strategy v = ''per_chunk'' then on_per_chunk P v ev c st
                    else if sv_strategy v = ''hash_chain'' then on_hash_chunk P v ev c st
                    else Inr st
      | FinalBuffered f \<Rightarrow> on_final_buffered P v ev f st
      | FinalPerChunk f \<Rightarrow> on_final_per_chunk P v ev f st
      | FinalChain f \<Rightarrow> on_final_chain P v ev f st)"

definition set_ttft :: "rat \<Rightarrow> rat \<Rightarrow> stream_client \<Rightarrow> stream_client" where
  "set_ttft t_start arrival st =
     (if sm_ttft_ms (sc_metrics st) = None
      then st \<lparr> sc_metrics := sc_metrics st \<lparr> sm_ttft_ms := Some ((arrival - t_start) * 1000) \<rparr> \<rparr> else st)"

definition on_event :: "prims \<Rightarrow> session_view \<Rightarrow> rat \<Rightarrow> sse_event \<Rightarrow> stream_client \<Rightarrow> stream_client \<times> exn option" where
  "on_event P v t_start ev st =
     (case ev_line ev of
        NonData \<Rightarrow> (st, None)
      | DataMalformed \<Rightarrow> (st, Some JSONDecodeError)
      | DataOther \<Rightarrow> (set_ttft t_start (ev_arrival ev) st, None)
      | DataRow row \<Rightarrow>
          (case on_row P v ev row (set_ttft t_start (ev_arrival ev) st) of
             Inl e \<Rightarrow> (set_ttft t_start (ev_arrival ev) st, Some e)
           | Inr st' \<Rightarrow> (st', None)))"

fun consume :: "prims \<Rightarrow> session_view \<Rightarrow> rat \<Rightarrow> sse_event list \<Rightarrow> stream_client \<Rightarrow> stream_client \<times> exn option" where
  "consume P v t_start [] st = (st, None)"
| "consume P v t_start (ev # evs) st =
     (case on_event P v t_start ev st of
        (st', Some e) \<Rightarrow> (st', Some e)
      | (st', None) \<Rightarrow> consume P v t_start evs st')"

definition wrap_up :: "rat \<Rightarrow> rat \<Rightarrow> stream_client \<Rightarrow> stream_metrics" where
  "wrap_up t_start now st =
     (let m = (sc_metrics st) \<lparr> sm_total_ms := Some ((now - t_start) * 1000),
                                sm_reconstructed_bytes := length (sc_reconstructed st) \<rparr> in
      if \<not> sc_terminal_seen st then m \<lparr> sm_stream_fully_verified := Some False \<rparr>
      else if sm_stream_fully_verified m = None
           then m \<lparr> sm_stream_fully_verified := Some (sm_all_signatures_valid m \<and> sm_all_aead_ok m) \<rparr>
           else m)"

section \<open>The transaction\<close>

record stream_net =
  nt_handshake :: "(json_strings \<times> rat) res"
  nt_stream :: "secure_predict_request \<Rightarrow> (nat \<times> sse_event list) res"

definition stream_request_body :: "string \<Rightarrow> string \<Rightarrow> int \<Rightarrow> int \<Rightarrow> int option \<Rightarrow> json" where
  "stream_request_body prompt strategy chunk_size_tokens max_tokens checkpoint_interval =
     JObj ([(''prompt'', JStr prompt), (''strategy'', JStr strategy),
            (''chunk_size_tokens'', JInt chunk_size_tokens), (''max_tokens'', JInt max_tokens)]
           @ (case checkpoint_interval of None \<Rightarrow> [] | Some k \<Rightarrow> [(''checkpoint_interval'', JInt k)]))"

text \<open>From the handshake to the request: what the client keeps and what it sends.\<close>

definition open_stream ::
  "prims \<Rightarrow> rng \<Rightarrow> span \<Rightarrow> client_crypto \<Rightarrow> string \<Rightarrow> json \<Rightarrow> json_strings \<Rightarrow> (session_view \<times> secure_predict_request) res" where
  "open_stream P r sp cl strategy body handshake =
     bind_res (bind_res (get_item handshake ''kex_public_key'') b64d) (\<lambda>kex_public_key.
     bind_res (bind_res (get_item handshake ''sig_public_key'') b64d) (\<lambda>sig_public_key.
     bind_res (get_item handshake ''handshake_id'') (\<lambda>handshake_id.
     bind_res (cl_establish P r sp cl kex_public_key) (\<lambda>est.
     bind_res (aead_encrypt P (r 2) (er_session_key est) (json_dumps P body) None) (\<lambda>req_aead.
     Inr (\<lparr> sv_client = cl, sv_key = er_session_key est, sv_sig_public_key = sig_public_key,
            sv_handshake_id = handshake_id, sv_strategy = strategy \<rparr>,
          \<lparr> rq_handshake_id = handshake_id, rq_kex_blob = b64e (er_kex_blob est),
            rq_nonce = b64e (ar_nonce req_aead), rq_ciphertext = b64e (ar_ciphertext req_aead),
            rq_keep_session = False \<rparr>))))))"

definition start_client :: "prims \<Rightarrow> session_view \<Rightarrow> int option \<Rightarrow> stream_metrics \<Rightarrow> stream_client" where
  "start_client P v checkpoint_interval m =
     \<lparr> sc_metrics = m, sc_pending = [],
       sc_chain = (if sv_strategy v = ''hash_chain'' then Some (chain_init P (sv_handshake_id v) checkpoint_interval) else None),
       sc_terminal_seen = False, sc_expected_index = 0, sc_reconstructed = [] \<rparr>"

text \<open>\<open>get_client_crypto\<close> is outside the \<^verbatim>\<open>try\<close>; every other exception becomes the error entry.\<close>

definition run_streaming_transaction ::
  "prims \<Rightarrow> rng \<Rightarrow> span \<Rightarrow> stream_net \<Rightarrow> rat \<Rightarrow> rat \<Rightarrow> string \<Rightarrow> string \<Rightarrow> string \<Rightarrow> int \<Rightarrow> int \<Rightarrow> int option
     \<Rightarrow> (stream_metrics \<times> bytes) res" where
  "run_streaming_transaction P r sp net t_start t_end config_name prompt strategy chunk_size_tokens max_tokens checkpoint_interval =
     bind_res (get_client_crypto config_name) (\<lambda>cl.
     let m = init_metrics config_name strategy chunk_size_tokens max_tokens checkpoint_interval in
     Inr (case nt_handshake net of
        Inl e \<Rightarrow> (m \<lparr> sm_error := Some (ErrExn e) \<rparr>, [])
      | Inr (handshake, handshake_ms) \<Rightarrow>
          let m1 = m \<lparr> sm_handshake_ms := Some handshake_ms \<rparr>;
              body = stream_request_body prompt strategy chunk_size_tokens max_tokens checkpoint_interval in
          (case open_stream P r sp cl strategy body handshake of
             Inl e \<Rightarrow> (m1 \<lparr> sm_error := Some (ErrExn e) \<rparr>, [])
           | Inr (v, request) \<Rightarrow>
               (case nt_stream net request of
                  Inl e \<Rightarrow> (m1 \<lparr> sm_error := Some (ErrExn e) \<rparr>, [])
                | Inr (status, events) \<Rightarrow>
                    if status \<noteq> 200 then (m1 \<lparr> sm_error := Some (ErrHTTP status) \<rparr>, [])
                    else (case consume P v t_start events (start_client P v checkpoint_interval m1) of
                            (st, Some e) \<Rightarrow> ((sc_metrics st) \<lparr> sm_error := Some (ErrExn e) \<rparr>, sc_reconstructed st)
                          | (st, None) \<Rightarrow> (wrap_up t_start t_end st, sc_reconstructed st))))))"

section \<open>Structure of the event loop\<close>

lemma consume_append:
  "consume P v t (evs @ evs') st =
     (case consume P v t evs st of (st', Some e) \<Rightarrow> (st', Some e) | (st', None) \<Rightarrow> consume P v t evs' st')"
  by (induction P v t evs st rule: consume.induct) (auto split: prod.splits option.splits)

text \<open>Lines that are not data are skipped.\<close>

lemma consume_skip: "consume P v t evs st = consume P v t (filter (\<lambda>ev. ev_line ev \<noteq> NonData) evs) st"
proof (induction evs arbitrary: st)
  case (Cons ev evs)
  then show ?case
    by (auto simp: on_event_def split: option.splits)
qed simp

text \<open>Verdict and text of a state: everything but the timing columns.\<close>

record verdict =
  vd_signatures_valid :: bool
  vd_aead_ok :: bool
  vd_in_order :: bool
  vd_verified :: "bool option"
  vd_n_chunks :: nat
  vd_n_signatures :: nat
  vd_signature_bytes :: nat
  vd_terminal :: bool
  vd_expected :: int
  vd_text :: bytes

definition verdict_of :: "stream_client \<Rightarrow> verdict" where
  "verdict_of st = \<lparr> vd_signatures_valid = sm_all_signatures_valid (sc_metrics st), vd_aead_ok = sm_all_aead_ok (sc_metrics st),
     vd_in_order = sm_all_in_order (sc_metrics st), vd_verified = sm_stream_fully_verified (sc_metrics st),
     vd_n_chunks = sm_n_chunks (sc_metrics st), vd_n_signatures = sm_n_signatures (sc_metrics st),
     vd_signature_bytes = sm_total_signature_bytes (sc_metrics st), vd_terminal = sc_terminal_seen st,
     vd_expected = sc_expected_index st, vd_text = sc_reconstructed st \<rparr>"

lemma verdict_of_ttft [simp]: "verdict_of (set_ttft t a st) = verdict_of st" "sc_chain (set_ttft t a st) = sc_chain st"
  by (simp_all add: verdict_of_def set_ttft_def)

lemma verdict_of_cover [simp]: "verdict_of (cover_pending now st) = verdict_of st" "sc_chain (cover_pending now st) = sc_chain st"
  by (simp_all add: verdict_of_def cover_pending_def split: list.splits)

lemma verdict_of_start:
  "verdict_of (start_client P v k (init_metrics c s n m k')) =
     \<lparr> vd_signatures_valid = True, vd_aead_ok = True, vd_in_order = True, vd_verified = None, vd_n_chunks = 0,
       vd_n_signatures = 0, vd_signature_bytes = 0, vd_terminal = False, vd_expected = 0, vd_text = [] \<rparr>"
  by (simp add: verdict_of_def start_client_def init_metrics_def)

text \<open>A stream without a terminal record is never reported as verified.\<close>

lemma wrap_up_not_terminal: "\<not> sc_terminal_seen st \<Longrightarrow> sm_stream_fully_verified (wrap_up t now st) = Some False"
  by (simp add: wrap_up_def Let_def)

lemma wrap_up_error [simp]: "sm_error (wrap_up t now st) = sm_error (sc_metrics st)"
  by (simp add: wrap_up_def Let_def)

fun terminal_line :: "sse_line \<Rightarrow> bool" where
  "terminal_line (DataRow (Chunk c)) = False"
| "terminal_line (DataRow _) = True"
| "terminal_line _ = False"

lemma cover_pending_terminal [simp]: "sc_terminal_seen (cover_pending now st) = sc_terminal_seen st"
  by (simp add: cover_pending_def split: list.splits)

lemma after_chunk_terminal [simp]:
  "sc_terminal_seen (after_per_chunk ev data r st) = sc_terminal_seen st"
  "sc_terminal_seen (after_hash_chunk ev data cs hr st) = sc_terminal_seen st"
  by (simp_all add: after_per_chunk_def after_hash_chunk_def Let_def)

lemma on_chunk_terminal:
  "on_per_chunk P v ev c st = Inr st' \<Longrightarrow> sc_terminal_seen st' = sc_terminal_seen st"
  "on_hash_chunk P v ev c st = Inr st' \<Longrightarrow> sc_terminal_seen st' = sc_terminal_seen st"
  by (auto simp: on_per_chunk_def on_hash_chunk_def)

lemma set_ttft_terminal [simp]: "sc_terminal_seen (set_ttft t a st) = sc_terminal_seen st"
  by (simp add: set_ttft_def)

lemma on_event_terminal:
  "\<not> terminal_line (ev_line ev) \<Longrightarrow> sc_terminal_seen (fst (on_event P v t ev st)) = sc_terminal_seen st"
  by (cases "ev_line ev" rule: terminal_line.cases)
     (auto simp: on_event_def on_row_def split: sum.splits if_splits dest: on_chunk_terminal)

text \<open>What the bookkeeping does to the verdict.\<close>

lemma verdict_after_per_chunk:
  "verdict_of (after_per_chunk ev data r st) =
     (let d = verdict_of st in
      d \<lparr> vd_signatures_valid := vd_signatures_valid d \<and> pr_signature_valid r,
          vd_aead_ok := vd_aead_ok d \<and> pr_aead_ok r = Some True, vd_in_order := vd_in_order d \<and> pr_in_order r,
          vd_n_chunks := vd_n_chunks d + 1, vd_n_signatures := vd_n_signatures d + 1,
          vd_signature_bytes := vd_signature_bytes d + ck_signature_bytes data,
          vd_expected := vd_expected d + 1, vd_text := extend_text (pr_plaintext r) (vd_text d) \<rparr>)"
  by (simp add: after_per_chunk_def Let_def) (simp add: verdict_of_def add_costs_def)

lemma verdict_after_hash_chunk:
  "verdict_of (after_hash_chunk ev data cs r st) =
     (let d = verdict_of st in
      d \<lparr> vd_signatures_valid := vd_signatures_valid d \<and> \<not> hr_checkpoint_missing r
            \<and> (hr_checkpoint r \<longrightarrow> hr_checkpoint_valid r = Some True),
          vd_aead_ok := vd_aead_ok d \<and> hr_aead_ok r = Some True,
          vd_n_chunks := vd_n_chunks d + 1,
          vd_n_signatures := (if hr_checkpoint r then vd_n_signatures d + 1 else vd_n_signatures d),
          vd_signature_bytes := vd_signature_bytes d + ck_signature_bytes data,
          vd_text := extend_text (hr_plaintext r) (vd_text d) \<rparr>)"
  by (simp add: after_hash_chunk_def Let_def) (simp add: verdict_of_def add_costs_def)

lemma chain_after_hash_chunk: "sc_chain (after_hash_chunk ev data cs r st) = Some cs"
  by (simp add: after_hash_chunk_def Let_def)

lemma verdict_after_finals:
  "verdict_of (after_final_buffered fb br st) =
     (let d = verdict_of st in
      d \<lparr> vd_signatures_valid := vd_signatures_valid d \<and> br_signature_valid br,
          vd_aead_ok := vd_aead_ok d \<and> br_aead_ok br = Some True, vd_n_signatures := vd_n_signatures d + 1,
          vd_signature_bytes := vd_signature_bytes d + fb_signature_bytes fb, vd_terminal := True,
          vd_text := extend_text (br_plaintext br) (vd_text d) \<rparr>)"
  "verdict_of (after_final_per_chunk pe pf st) =
     (let d = verdict_of st in
      d \<lparr> vd_n_signatures := vd_n_signatures d + 1,
          vd_signature_bytes := vd_signature_bytes d + pe_signature_bytes pe, vd_terminal := True,
          vd_verified := Some (pf_stream_fully_verified pf \<and> vd_signatures_valid d \<and> vd_aead_ok d \<and> vd_in_order d) \<rparr>)"
  "verdict_of (after_final_chain ev fc hf st) =
     (let d = verdict_of st in
      d \<lparr> vd_n_signatures := vd_n_signatures d + 1,
          vd_signature_bytes := vd_signature_bytes d + fc_signature_bytes fc, vd_terminal := True,
          vd_verified := Some (hf_stream_fully_verified hf) \<rparr>)"
  by (simp_all add: after_final_buffered_def after_final_per_chunk_def after_final_chain_def Let_def)
     (simp_all add: verdict_of_def add_costs_def)

lemma consume_no_terminal:
  "\<forall>ev \<in> set evs. \<not> terminal_line (ev_line ev) \<Longrightarrow>
     sc_terminal_seen (fst (consume P v t evs st)) = sc_terminal_seen st"
proof (induction evs arbitrary: st)
  case (Cons ev evs)
  obtain st1 e where s: "on_event P v t ev st = (st1, e)" by fastforce
  then have "sc_terminal_seen st1 = sc_terminal_seen st"
    using on_event_terminal [of ev P v t st] Cons.prems by simp
  then show ?case
    using s Cons by (cases e) simp_all
qed simp

text \<open>No event touches the error entry.\<close>

lemma cover_error [simp]: "sm_error (sc_metrics (cover_pending now st)) = sm_error (sc_metrics st)"
  by (cases "sc_pending st") (simp_all add: cover_pending_def)

lemma after_error [simp]:
  "sm_error (sc_metrics (after_per_chunk ev c pr st)) = sm_error (sc_metrics st)"
  "sm_error (sc_metrics (after_hash_chunk ev c cs hr st)) = sm_error (sc_metrics st)"
  "sm_error (sc_metrics (after_final_buffered fb br st)) = sm_error (sc_metrics st)"
  "sm_error (sc_metrics (after_final_per_chunk pe pf st)) = sm_error (sc_metrics st)"
  "sm_error (sc_metrics (after_final_chain ev fc hf st)) = sm_error (sc_metrics st)"
  by (simp_all add: after_per_chunk_def after_hash_chunk_def after_final_buffered_def after_final_per_chunk_def
      after_final_chain_def add_costs_def Let_def)

lemma on_row_error: "on_row P v ev row st = Inr st' \<Longrightarrow> sm_error (sc_metrics st') = sm_error (sc_metrics st)"
  by (cases row) (auto simp: on_row_def on_per_chunk_def on_hash_chunk_def on_final_buffered_def on_final_per_chunk_def
      on_final_chain_def split: if_splits prod.splits)

lemma on_event_error: "sm_error (sc_metrics (fst (on_event P v t ev st))) = sm_error (sc_metrics st)"
  by (auto simp: on_event_def set_ttft_def split: sse_line.splits sum.splits dest!: on_row_error)

lemma consume_error: "sm_error (sc_metrics (fst (consume P v t evs st))) = sm_error (sc_metrics st)"
proof (induction evs arbitrary: st)
  case (Cons ev evs)
  obtain st1 e where s: "on_event P v t ev st = (st1, e)" by fastforce
  then show ?case
    using on_event_error [of P v t ev st] Cons by (cases e) simp_all
qed simp

text \<open>Without a terminal record the verdict of the stream stays open until the wrap-up.\<close>

lemma cover_verified [simp]: "sm_stream_fully_verified (sc_metrics (cover_pending now st)) = sm_stream_fully_verified (sc_metrics st)"
  by (cases "sc_pending st") (simp_all add: cover_pending_def)

lemma after_chunk_verified [simp]:
  "sm_stream_fully_verified (sc_metrics (after_per_chunk ev c pr st)) = sm_stream_fully_verified (sc_metrics st)"
  "sm_stream_fully_verified (sc_metrics (after_hash_chunk ev c cs hr st)) = sm_stream_fully_verified (sc_metrics st)"
  by (simp_all add: after_per_chunk_def after_hash_chunk_def add_costs_def Let_def)

lemma on_event_verified:
  assumes "\<not> terminal_line (ev_line ev)"
  shows "sm_stream_fully_verified (sc_metrics (fst (on_event P v t ev st))) = sm_stream_fully_verified (sc_metrics st)"
  using assms
  by (cases "ev_line ev" rule: terminal_line.cases)
     (auto simp: on_event_def on_row_def on_per_chunk_def on_hash_chunk_def set_ttft_def split: sum.splits if_splits prod.splits)

lemma consume_verified:
  "\<forall>ev \<in> set evs. \<not> terminal_line (ev_line ev) \<Longrightarrow>
     sm_stream_fully_verified (sc_metrics (fst (consume P v t evs st))) = sm_stream_fully_verified (sc_metrics st)"
proof (induction evs arbitrary: st)
  case (Cons ev evs)
  obtain st1 e where s: "on_event P v t ev st = (st1, e)" by fastforce
  then show ?case
    using on_event_verified [of ev P v t st] Cons by (cases e) simp_all
qed simp

lemma run_streaming_no_terminal:
  assumes "run_streaming_transaction P r sp net t0 t1 config prompt strategy c mx k = Inr (m, bd)"
    and "\<And>req status evs. nt_stream net req = Inr (status, evs) \<Longrightarrow> \<forall>ev \<in> set evs. \<not> terminal_line (ev_line ev)"
  shows "sm_stream_fully_verified m \<noteq> Some True"
proof -
  have fin: "sm_stream_fully_verified (sc_metrics (fst (consume P v t0 evs st))) = None"
    "\<not> sc_terminal_seen (fst (consume P v t0 evs st))"
    if "nt_stream net req = Inr (status, evs)" "sm_stream_fully_verified (sc_metrics st) = None" "\<not> sc_terminal_seen st"
    for v req status evs st
    using that consume_verified [OF assms(2)] consume_no_terminal [OF assms(2)] by simp_all
  have start: "sm_stream_fully_verified (sc_metrics (start_client P v k m')) = sm_stream_fully_verified m'"
      "\<not> sc_terminal_seen (start_client P v k m')" for v m'
    by (simp_all add: start_client_def)
  obtain cl where cl: "get_client_crypto config = Inr cl"
    using assms(1) by (auto simp: run_streaming_transaction_def)
  let ?m = "init_metrics config strategy c mx k"
  have init: "sm_stream_fully_verified ?m = None" by (simp add: init_metrics_def)
  show ?thesis
  proof (cases "nt_handshake net")
    case (Inl e)
    then show ?thesis using assms(1) cl init by (auto simp: run_streaming_transaction_def)
  next
    case (Inr hh)
    obtain hs hms where hh: "hh = (hs, hms)" by fastforce
    let ?m1 = "?m \<lparr> sm_handshake_ms := Some hms \<rparr>"
    let ?body = "stream_request_body prompt strategy c mx k"
    show ?thesis
    proof (cases "open_stream P r sp cl strategy ?body hs")
      case (Inl e)
      then show ?thesis using assms(1) cl init Inr hh by (auto simp: run_streaming_transaction_def)
    next
      case opened: (Inr vr)
      obtain v req where vr: "vr = (v, req)" by fastforce
      show ?thesis
      proof (cases "nt_stream net req")
        case (Inl e)
        then show ?thesis using assms(1) cl init Inr hh opened vr by (auto simp: run_streaming_transaction_def)
      next
        case streamed: (Inr se)
        obtain status evs where se: "se = (status, evs)" by fastforce
        obtain st e where st: "consume P v t0 evs (start_client P v k ?m1) = (st, e)" by fastforce
        then have "sm_stream_fully_verified (sc_metrics st) = None" "\<not> sc_terminal_seen st"
          using fin [of req status evs "start_client P v k ?m1" v] streamed se start init by simp_all
        then show ?thesis
          using assms(1) cl init Inr hh opened vr streamed se st
          by (cases e; cases "status = 200") (auto simp: run_streaming_transaction_def wrap_up_not_terminal)
      qed
    qed
  qed
qed

end
