(* ===== verification/StreamSecurity.thy ===== *)
theory StreamSecurity
  imports StreamClient
begin

text \<open>
  What the signatures of \<^verbatim>\<open>crypto/streaming.py\<close> bind. \<open>session_log\<close> is the abstract record of
  one streaming session (its handshake id and the envelopes the server produced), \<open>signed_by\<close>
  the messages the server signs in it. Unforgeability is a hypothesis on the signatures an
  attacker delivers; collision resistance is injectivity of SHA-256 on the finitely many inputs
  the two parties hash. Nothing assumes that signing keys are fresh per session: several
  sessions may share one key.
\<close>

section \<open>Hash chains over indexed envelopes\<close>

type_synonym env = "bytes \<times> bytes"

definition envelope :: "env \<Rightarrow> bytes" where
  "envelope e = fst e @ snd e"

fun chain_over :: "prims \<Rightarrow> bytes \<Rightarrow> (int \<times> bytes) list \<Rightarrow> bytes" where
  "chain_over P h [] = h"
| "chain_over P h ((i, e) # xs) = chain_over P (sha256 P (chain_input h (be32 (nat i)) e)) xs"

fun chain_inputs :: "prims \<Rightarrow> bytes \<Rightarrow> (int \<times> bytes) list \<Rightarrow> bytes list" where
  "chain_inputs P h [] = []"
| "chain_inputs P h ((i, e) # xs) =
     chain_input h (be32 (nat i)) e # chain_inputs P (sha256 P (chain_input h (be32 (nat i)) e)) xs"

lemma chain_over_append: "chain_over P h (xs @ ys) = chain_over P (chain_over P h xs) ys"
  by (induction P h xs rule: chain_over.induct) simp_all

lemma chain_inputs_append: "chain_inputs P h (xs @ ys) = chain_inputs P h xs @ chain_inputs P (chain_over P h xs) ys"
  by (induction P h xs rule: chain_over.induct) simp_all

lemma chain_over_len: "sha_ok P \<Longrightarrow> length h = 32 \<Longrightarrow> length (chain_over P h xs) = 32"
  by (induction P h xs rule: chain_over.induct) (simp_all add: sha_ok_def)

text \<open>
  Two chains that start from the same hashed genesis and end in the same value are the same
  chain, whatever their lengths: the genesis input is shorter than any link's.
\<close>

lemma chain_over_inj:
  assumes sha: "sha_ok P" and g: "length g = 35"
    and ok: "\<forall>p \<in> set xs \<union> set ys. idx_ok (fst p)"
    and inj: "inj_on (sha256 P) ({g} \<union> set (chain_inputs P (sha256 P g) xs) \<union> set (chain_inputs P (sha256 P g) ys))"
    and eq: "chain_over P (sha256 P g) xs = chain_over P (sha256 P g) ys"
  shows "xs = ys"
  using ok inj eq
proof (induction xs arbitrary: ys rule: rev_induct)
  case Nil
  show ?case
  proof (cases ys rule: rev_exhaust)
    case (snoc ys' y)
    obtain i e where y: "y = (i, e)" by fastforce
    have "g = chain_input (chain_over P (sha256 P g) ys') (be32 (nat i)) e"
      by (rule inj_onD [OF Nil.prems(2)]) (use Nil.prems(3) snoc y in \<open>simp_all add: chain_over_append chain_inputs_append\<close>)
    then have "length (chain_input (chain_over P (sha256 P g) ys') (be32 (nat i)) e) = 35"
      using g by simp
    then show ?thesis
      using sha by (simp add: chain_input_def chain_over_len sha_ok_def)
  qed simp
next
  case (snoc x xs)
  obtain i e where x: "x = (i, e)" by fastforce
  have len: "length (chain_over P (sha256 P g) zs) = 32" for zs
    using sha by (simp add: chain_over_len sha_ok_def)
  show ?case
  proof (cases ys rule: rev_exhaust)
    case Nil
    have "chain_input (chain_over P (sha256 P g) xs) (be32 (nat i)) e = g"
      by (rule inj_onD [OF snoc.prems(2)]) (use snoc.prems(3) Nil x in \<open>simp_all add: chain_over_append chain_inputs_append\<close>)
    then have "length (chain_input (chain_over P (sha256 P g) xs) (be32 (nat i)) e) = 35"
      using g by simp
    then show ?thesis
      by (simp add: chain_input_def len)
  next
    case (snoc ys' y)
    obtain j f where y: "y = (j, f)" by fastforce
    have "chain_input (chain_over P (sha256 P g) xs) (be32 (nat i)) e =
        chain_input (chain_over P (sha256 P g) ys') (be32 (nat j)) f"
      by (rule inj_onD [OF snoc.prems(2)])
         (use snoc.prems(3) snoc x y in \<open>simp_all add: chain_over_append chain_inputs_append\<close>)
    then have "chain_over P (sha256 P g) xs = chain_over P (sha256 P g) ys' \<and> i = j \<and> e = f"
      by (rule chain_input_inj) (use snoc.prems(1) snoc x y in \<open>simp_all add: len\<close>)
    moreover from this have "xs = ys'"
      by (intro snoc.IH) (use snoc.prems(1,2) snoc in \<open>auto simp: chain_inputs_append intro: inj_on_subset\<close>)
    ultimately show ?thesis
      using snoc x y by simp
  qed
qed

section \<open>What the server signs in a session\<close>

datatype session_log = BufLog string env | PcLog string "env list" | HcLog string "env list"

fun log_id :: "session_log \<Rightarrow> string" where
  "log_id (BufLog h e) = h"
| "log_id (PcLog h es) = h"
| "log_id (HcLog h es) = h"

definition indexed :: "env list \<Rightarrow> (int \<times> bytes) list" where
  "indexed es = map (\<lambda>i. (int i, envelope (es ! i))) [0..<length es]"

definition chain_at :: "prims \<Rightarrow> string \<Rightarrow> env list \<Rightarrow> nat \<Rightarrow> bytes" where
  "chain_at P h es n = chain_over P (genesis_hash P h) (take n (indexed es))"

inductive signed_by :: "prims \<Rightarrow> session_log \<Rightarrow> bytes \<Rightarrow> bool" for P where
  signed_buf: "signed_by P (BufLog h e) (buffered_message (stream_context P h) (fst e) (snd e))"
| signed_chunk: "i < length es \<Longrightarrow> chunk_message (stream_context P h) (int i) (fst (es ! i)) (snd (es ! i)) = Inr m
                   \<Longrightarrow> signed_by P (PcLog h es) m"
| signed_end: "end_message (stream_context P h) (int (length es)) = Inr m \<Longrightarrow> signed_by P (PcLog h es) m"
| signed_ckp: "i < length es \<Longrightarrow> checkpoint_message (stream_context P h) (int i) (chain_at P h es (Suc i)) = Inr m
                 \<Longrightarrow> signed_by P (HcLog h es) m"
| signed_fin: "final_chain_message (stream_context P h) (int (length es)) (chain_at P h es (length es)) = Inr m
                 \<Longrightarrow> signed_by P (HcLog h es) m"

inductive_cases signed_byE: "signed_by P l m"

definition signed_in :: "prims \<Rightarrow> session_log list \<Rightarrow> bytes set" where
  "signed_in P logs = {m. \<exists>l \<in> set logs. signed_by P l m}"

text \<open>The attacker's signatures \<open>sigs\<close> verify only on messages of \<open>S\<close>.\<close>

definition unforged :: "prims \<Rightarrow> client_crypto \<Rightarrow> bytes \<Rightarrow> bytes set \<Rightarrow> bytes set \<Rightarrow> bool" where
  "unforged P cl pk S sigs \<longleftrightarrow>
     (\<forall>sg \<in> sigs. \<forall>msg sp m. cl_verify P sp cl msg sg pk = Inr (True, m) \<longrightarrow> msg \<in> S)"

text \<open>Session contexts do not collide, and every session has its own handshake id.\<close>

definition contexts_distinct :: "prims \<Rightarrow> session_log list \<Rightarrow> bool" where
  "contexts_distinct P logs \<longleftrightarrow> (\<forall>l \<in> set logs. \<forall>l' \<in> set logs.
     stream_context P (log_id l) = stream_context P (log_id l') \<longrightarrow> l = l')"

lemma contexts_distinctI:
  assumes "distinct (map log_id logs)"
    and "inj_on (sha256 P) ((\<lambda>l. STREAM_DOMAIN @ [0] @ encode (log_id l)) ` set logs)"
  shows "contexts_distinct P logs"
  unfolding contexts_distinct_def
proof (intro ballI impI)
  fix l l' assume l: "l \<in> set logs" "l' \<in> set logs" and eq: "stream_context P (log_id l) = stream_context P (log_id l')"
  have "log_id l = log_id l'"
    by (rule stream_context_inj [OF eq], rule inj_on_subset [OF assms(2)]) (use l in auto)
  then show "l = l'"
    using assms(1) l by (auto simp: distinct_map dest: inj_onD)
qed

text \<open>Which log a signed message of each role comes from.\<close>

lemma signed_in_chunk:
  assumes "m \<in> signed_in P logs" "chunk_message (stream_context P h) i n c = Inr m"
    and "contexts_distinct P logs" "PcLog h es \<in> set logs" "sha_ok P"
  shows "0 \<le> i \<and> nat i < length es \<and> n @ c = envelope (es ! nat i)"
proof -
  obtain l where l: "l \<in> set logs" "signed_by P l m"
    using assms(1) by (auto simp: signed_in_def)
  from l(2) show ?thesis
  proof (cases rule: signed_by.cases)
    case (signed_chunk j es' h')
    have eq: "stream_context P h = stream_context P h' \<and> i = int j \<and> n @ c = fst (es' ! j) @ snd (es' ! j)"
      by (rule chunk_message_inj [OF assms(2) signed_chunk(3)]) (simp_all add: stream_context_len assms(5))
    then have "l = PcLog h es"
      using assms(3,4) l(1) signed_chunk(1) unfolding contexts_distinct_def by (metis log_id.simps(2))
    then show ?thesis
      using eq signed_chunk by (simp add: envelope_def)
  qed (use assms(2) labels_distinct in \<open>auto simp: message_Inr buffered_message_def dest: sym\<close>)
qed

lemma signed_in_end:
  assumes "m \<in> signed_in P logs" "end_message (stream_context P h) i = Inr m"
    and "contexts_distinct P logs" "PcLog h es \<in> set logs" "sha_ok P"
  shows "i = int (length es)"
proof -
  obtain l where l: "l \<in> set logs" "signed_by P l m"
    using assms(1) by (auto simp: signed_in_def)
  from l(2) show ?thesis
  proof (cases rule: signed_by.cases)
    case (signed_end h' es')
    have eq: "stream_context P h = stream_context P h' \<and> i = int (length es')"
      by (rule end_message_inj [OF assms(2) signed_end(2)]) (simp_all add: stream_context_len assms(5))
    then have "l = PcLog h es"
      using assms(3,4) l(1) signed_end(1) unfolding contexts_distinct_def by (metis log_id.simps(2))
    then show ?thesis
      using eq signed_end by simp
  qed (use assms(2) labels_distinct in \<open>auto simp: message_Inr buffered_message_def dest: sym\<close>)
qed

lemma signed_in_ckp:
  assumes "m \<in> signed_in P logs" "checkpoint_message (stream_context P h) i d = Inr m"
    and "contexts_distinct P logs" "HcLog h es \<in> set logs" "sha_ok P"
  shows "0 \<le> i \<and> nat i < length es \<and> d = chain_at P h es (Suc (nat i))"
proof -
  obtain l where l: "l \<in> set logs" "signed_by P l m"
    using assms(1) by (auto simp: signed_in_def)
  from l(2) show ?thesis
  proof (cases rule: signed_by.cases)
    case (signed_ckp j es' h')
    have eq: "stream_context P h = stream_context P h' \<and> i = int j \<and> d = chain_at P h' es' (Suc j)"
      by (rule checkpoint_message_inj [OF assms(2) signed_ckp(3)]) (simp_all add: stream_context_len assms(5))
    then have "l = HcLog h es"
      using assms(3,4) l(1) signed_ckp(1) unfolding contexts_distinct_def by (metis log_id.simps(3))
    then show ?thesis
      using eq signed_ckp by simp
  qed (use assms(2) labels_distinct in \<open>auto simp: message_Inr buffered_message_def dest: sym\<close>)
qed

lemma signed_in_fin:
  assumes "m \<in> signed_in P logs" "final_chain_message (stream_context P h) i d = Inr m"
    and "contexts_distinct P logs" "HcLog h es \<in> set logs" "sha_ok P"
  shows "i = int (length es) \<and> d = chain_at P h es (length es)"
proof -
  obtain l where l: "l \<in> set logs" "signed_by P l m"
    using assms(1) by (auto simp: signed_in_def)
  from l(2) show ?thesis
  proof (cases rule: signed_by.cases)
    case (signed_fin h' es')
    have eq: "stream_context P h = stream_context P h' \<and> i = int (length es') \<and> d = chain_at P h' es' (length es')"
      by (rule final_chain_message_inj [OF assms(2) signed_fin(2)]) (simp_all add: stream_context_len assms(5))
    then have "l = HcLog h es"
      using assms(3,4) l(1) signed_fin(1) unfolding contexts_distinct_def by (metis log_id.simps(3))
    then show ?thesis
      using eq signed_fin by simp
  qed (use assms(2) labels_distinct in \<open>auto simp: message_Inr buffered_message_def dest: sym\<close>)
qed

lemma signed_in_buf:
  assumes "buffered_message (stream_context P h) n c \<in> signed_in P logs"
    and "contexts_distinct P logs" "BufLog h e \<in> set logs" "sha_ok P"
  shows "n @ c = envelope e"
proof -
  obtain l where l: "l \<in> set logs" "signed_by P l (buffered_message (stream_context P h) n c)"
    using assms(1) by (auto simp: signed_in_def)
  from l(2) show ?thesis
  proof (cases rule: signed_by.cases)
    case (signed_buf h' e')
    have eq: "stream_context P h = stream_context P h' \<and> n @ c = fst e' @ snd e'"
      by (rule buffered_message_inj [OF signed_buf(2)]) (simp_all add: stream_context_len assms(4))
    then have "l = BufLog h e"
      using assms(2,3) l(1) signed_buf(1) unfolding contexts_distinct_def by (metis log_id.simps(1))
    then show ?thesis
      using eq signed_buf by (simp add: envelope_def)
  qed (use labels_distinct in \<open>auto simp: message_Inr buffered_message_def dest: sym\<close>)
qed

lemma unforgedD:
  "unforged P cl pk S sigs \<Longrightarrow> cl_verify P sp cl msg sg pk = Inr (True, m) \<Longrightarrow> sg \<in> sigs \<Longrightarrow> msg \<in> S"
  unfolding unforged_def by blast

end
