(* ===== verification/StreamReplay.thy ===== *)
theory StreamReplay
  imports StreamSecurity
begin

text \<open>
  \<^verbatim>\<open>threats/streaming_mitm_experiment.py\<close>: \<^verbatim>\<open>replay_through_client\<close> feeds a captured, possibly
  mutated stream through the client's incremental verification and reports where it is first
  rejected and how many chunks a verified signature had covered. Proved here, from
  unforgeability of the delivered signatures and collision-freeness of the hashed inputs: a
  stream is accepted only if it is the genuine one, covered chunks are always genuine, and with
  the checkpoint schedule enforced fewer than one interval of chunks is ever uncovered.
\<close>

section \<open>The harness\<close>

record capture =
  cp_handshake_id :: string
  cp_session_key :: bytes
  cp_sig_public_key :: bytes
  cp_client :: client_crypto
  cp_chunks :: "string chunk_row list"
  cp_final :: "string row option"

text \<open>Subscripts of the terminal record, \<open>KeyError\<close> where the record has no such key.\<close>

fun row_n_chunks :: "'b row \<Rightarrow> int res" where
  "row_n_chunks (FinalPerChunk f) = Inr (pe_n_chunks f)"
| "row_n_chunks (FinalChain f) = Inr (fc_n_chunks f)"
| "row_n_chunks _ = Inl KeyError"

fun row_signature :: "'b row \<Rightarrow> 'b option res" where
  "row_signature (Chunk c) = Inr (ck_signature c)"
| "row_signature (FinalBuffered f) = Inr (Some (fb_signature f))"
| "row_signature (FinalPerChunk f) = Inr (Some (pe_signature f))"
| "row_signature (FinalChain f) = Inr (Some (fc_signature f))"

fun row_final_chain_hash :: "'b row \<Rightarrow> 'b res" where
  "row_final_chain_hash (FinalChain f) = Inr (fc_final_chain_hash f)"
| "row_final_chain_hash _ = Inl KeyError"

text \<open>The \<^verbatim>\<open>per_chunk\<close> loop: the position of the first rejection, if any, and the expected index.\<close>

fun replay_pc ::
  "prims \<Rightarrow> (nat \<Rightarrow> span) \<Rightarrow> capture \<Rightarrow> nat \<Rightarrow> int \<Rightarrow> string chunk_row list \<Rightarrow> (nat option \<times> int) res" where
  "replay_pc P sps cap pos expected_index [] = Inr (None, expected_index)"
| "replay_pc P sps cap pos expected_index (data # rest) =
     bind_res (decode_pc_chunk data) (\<lambda>chunk.
     bind_res (verify_per_chunk P (sps pos) chunk expected_index (cp_session_key cap) (cp_sig_public_key cap)
                 (cp_client cap) (cp_handshake_id cap)) (\<lambda>r.
     if \<not> pr_in_order r \<or> \<not> pr_signature_valid r \<or> pr_aead_ok r \<noteq> Some True
     then Inr (Some pos, expected_index + 1)
     else replay_pc P sps cap (Suc pos) (expected_index + 1) rest))"

definition replay_pc_final ::
  "prims \<Rightarrow> span \<Rightarrow> capture \<Rightarrow> int \<Rightarrow> string row option \<Rightarrow> bool res" where
  "replay_pc_final P sp cap expected_index final =
     (case final of
        None \<Rightarrow> Inr False
      | Some f \<Rightarrow>
          bind_res (row_n_chunks f) (\<lambda>n_chunks.
          bind_res (bind_res (row_signature f) b64d_field) (\<lambda>signature.
          bind_res (verify_per_chunk_final P sp n_chunks signature expected_index (cp_sig_public_key cap)
                      (cp_client cap) (cp_handshake_id cap)) (\<lambda>r.
          Inr (pf_stream_fully_verified r)))))"

text \<open>The \<^verbatim>\<open>hash_chain\<close> loop also carries the client's chain and the covered count.\<close>

fun replay_hc ::
  "prims \<Rightarrow> (nat \<Rightarrow> span) \<Rightarrow> capture \<Rightarrow> nat \<Rightarrow> nat \<Rightarrow> chain_state \<Rightarrow> string chunk_row list \<Rightarrow> (nat option \<times> nat \<times> chain_state) res" where
  "replay_hc P sps cap pos covered cs [] = Inr (None, covered, cs)"
| "replay_hc P sps cap pos covered cs (data # rest) =
     bind_res (decode_hc_chunk data) (\<lambda>chunk.
     bind_res (verify_hash_chain_chunk P (sps pos) chunk cs (cp_session_key cap) (Some (cp_sig_public_key cap))
                 (Some (cp_client cap))) (\<lambda>(cs', r).
     if hr_aead_ok r \<noteq> Some True \<or> hr_checkpoint_missing r \<or> (hr_checkpoint r \<and> hr_checkpoint_valid r \<noteq> Some True)
     then Inr (Some pos, covered, cs')
     else replay_hc P sps cap (Suc pos) (if hr_checkpoint r then pos + 1 else covered) cs' rest))"

definition replay_hc_final :: "prims \<Rightarrow> span \<Rightarrow> capture \<Rightarrow> chain_state \<Rightarrow> string row option \<Rightarrow> bool res" where
  "replay_hc_final P sp cap cs final =
     (case final of
        None \<Rightarrow> Inr False
      | Some f \<Rightarrow>
          bind_res (bind_res (row_final_chain_hash f) b64d) (\<lambda>final_chain_hash.
          bind_res (row_n_chunks f) (\<lambda>n_chunks.
          bind_res (bind_res (row_signature f) b64d_field) (\<lambda>signature.
          bind_res (verify_hash_chain_final P sp
                      \<lparr> hl_final_chain_hash = final_chain_hash, hl_n_chunks = n_chunks, hl_signature = signature \<rparr>
                      cs (cp_sig_public_key cap) (cp_client cap)) (\<lambda>r.
          Inr (hf_stream_fully_verified r))))))"

text \<open>With \<^verbatim>\<open>details=True\<close>: position and coverage; otherwise the position is the first component.\<close>

definition replay_through_client ::
  "prims \<Rightarrow> (nat \<Rightarrow> span) \<Rightarrow> capture \<Rightarrow> string chunk_row list \<Rightarrow> string row option \<Rightarrow> string \<Rightarrow> int option \<Rightarrow> bool
     \<Rightarrow> (nat option \<times> nat) res" where
  "replay_through_client P sps cap mutated final strategy checkpoint_interval enforce_schedule =
     (if strategy = ''per_chunk'' then
        bind_res (replay_pc P sps cap 0 0 mutated) (\<lambda>(rejected, expected_index).
        case rejected of
          Some pos \<Rightarrow> Inr (Some pos, pos)
        | None \<Rightarrow>
            bind_res (replay_pc_final P (sps (length mutated)) cap expected_index final) (\<lambda>ok.
            Inr (if ok then None else Some (length mutated), length mutated)))
      else if strategy = ''hash_chain'' then
        bind_res (replay_hc P sps cap 0 0
            (chain_init P (cp_handshake_id cap) (if enforce_schedule then checkpoint_interval else None)) mutated)
          (\<lambda>(rejected, covered, cs).
        case rejected of
          Some pos \<Rightarrow> Inr (Some pos, covered)
        | None \<Rightarrow>
            bind_res (replay_hc_final P (sps (length mutated)) cap cs final) (\<lambda>ok.
            Inr (if ok then None else Some (length mutated), if ok then length mutated else covered)))
      else Inl ValueError)"

section \<open>What the attacker delivers\<close>

definition chunk_sigs :: "string chunk_row list \<Rightarrow> bytes set" where
  "chunk_sigs rows = {sg. \<exists>row \<in> set rows. \<exists>s. ck_signature row = Some s \<and> b64d s = Inr sg}"

definition final_sigs :: "string row option \<Rightarrow> bytes set" where
  "final_sigs final = {sg. \<exists>f s. final = Some f \<and> row_signature f = Inr (Some s) \<and> b64d s = Inr sg}"

definition delivered_sigs :: "string chunk_row list \<Rightarrow> string row option \<Rightarrow> bytes set" where
  "delivered_sigs rows final = chunk_sigs rows \<union> final_sigs final"

text \<open>The index and envelope a delivered row decodes to.\<close>

definition row_env :: "string chunk_row \<Rightarrow> (int \<times> bytes) option" where
  "row_env row = (case (b64d (ck_nonce row), b64d (ck_ciphertext row)) of
     (Inr n, Inr c) \<Rightarrow> Some (ck_index row, n @ c) | _ \<Rightarrow> None)"

lemma chunk_sigs_mono: "set rows \<subseteq> set rows' \<Longrightarrow> chunk_sigs rows \<subseteq> chunk_sigs rows'"
  by (auto simp: chunk_sigs_def)

lemma decode_pc_chunk_Inr:
  assumes "decode_pc_chunk row = Inr c"
  shows "row_env row = Some (pk_index c, pk_nonce c @ pk_ciphertext c)" "pk_signature c \<in> chunk_sigs (row # rows)"
  using assms by (auto simp: decode_pc_chunk_def row_env_def chunk_sigs_def b64d_field_def split: option.splits)

lemma decode_hc_chunk_Inr:
  assumes "decode_hc_chunk row = Inr c"
  shows "row_env row = Some (hk_index c, hk_nonce c @ hk_ciphertext c)"
    and "hk_signature c = Some sg \<Longrightarrow> sg \<in> chunk_sigs (row # rows)"
  using assms by (auto simp: decode_hc_chunk_def row_env_def chunk_sigs_def split: option.splits if_splits)

section \<open>per_chunk: only the genuine stream is accepted\<close>

lemma verify_per_chunk_accept:
  assumes "verify_per_chunk P sp c ei key pk cl h = Inr r" "pr_signature_valid r" "pr_in_order r"
  obtains msg m where "chunk_message (stream_context P h) (pk_index c) (pk_nonce c) (pk_ciphertext c) = Inr msg"
    and "cl_verify P sp cl msg (pk_signature c) pk = Inr (True, m)" "pk_index c = ei"
  using assms by (auto simp: verify_per_chunk_def split: prod.splits)

lemma replay_pc_genuine:
  assumes "contexts_distinct P logs" "PcLog (cp_handshake_id cap) es \<in> set logs" "sha_ok P"
    and "unforged P (cp_client cap) (cp_sig_public_key cap) (signed_in P logs) sigs" "chunk_sigs rows \<subseteq> sigs"
    and "replay_pc P sps cap pos ei rows = Inr (None, ei')" "0 \<le> ei"
  shows "ei' = ei + int (length rows) \<and>
    (\<forall>j < length rows. nat ei + j < length es \<and> row_env (rows ! j) = Some (ei + int j, envelope (es ! (nat ei + j))))"
  using assms(5-7)
proof (induction rows arbitrary: pos ei)
  case (Cons row rows)
  obtain c r where c: "decode_pc_chunk row = Inr c"
    and r: "verify_per_chunk P (sps pos) c ei (cp_session_key cap) (cp_sig_public_key cap) (cp_client cap)
              (cp_handshake_id cap) = Inr r" "pr_signature_valid r" "pr_in_order r"
    and rest: "replay_pc P sps cap (Suc pos) (ei + 1) rows = Inr (None, ei')"
    using Cons.prems(2) by (auto split: if_splits)
  obtain msg m where msg: "chunk_message (stream_context P (cp_handshake_id cap)) (pk_index c) (pk_nonce c) (pk_ciphertext c) = Inr msg"
      "cl_verify P (sps pos) (cp_client cap) msg (pk_signature c) (cp_sig_public_key cap) = Inr (True, m)" "pk_index c = ei"
    using r by (rule verify_per_chunk_accept)
  have "msg \<in> signed_in P logs"
    using assms(4) msg(2) decode_pc_chunk_Inr(2) [OF c] Cons.prems(1) by (blast dest: unforgedD)
  then have g: "nat ei < length es \<and> pk_nonce c @ pk_ciphertext c = envelope (es ! nat ei)"
    using signed_in_chunk [OF _ msg(1) assms(1-3)] msg(3) by simp
  have ih: "ei' = ei + 1 + int (length rows) \<and>
      (\<forall>j < length rows. nat (ei + 1) + j < length es \<and>
        row_env (rows ! j) = Some (ei + 1 + int j, envelope (es ! (nat (ei + 1) + j))))"
    using Cons.prems(1,3) rest chunk_sigs_mono [of rows "row # rows"] by (intro Cons.IH) auto
  show ?case
  proof (intro conjI allI impI)
    show "ei' = ei + int (length (row # rows))" using ih by simp
    fix j assume j: "j < length (row # rows)"
    show "nat ei + j < length es" "row_env ((row # rows) ! j) = Some (ei + int j, envelope (es ! (nat ei + j)))"
      using ih j g decode_pc_chunk_Inr(1) [OF c] msg(3) Cons.prems(3)
      by (cases j; auto simp: nat_add_distrib)+
  qed
qed simp

lemma replay_pc_final_genuine:
  assumes "contexts_distinct P logs" "PcLog (cp_handshake_id cap) es \<in> set logs" "sha_ok P"
    and "unforged P (cp_client cap) (cp_sig_public_key cap) (signed_in P logs) sigs" "final_sigs final \<subseteq> sigs"
    and "replay_pc_final P sp cap ei final = Inr True"
  shows "ei = int (length es)"
proof -
  obtain f n s sg r where f: "final = Some f" "row_n_chunks f = Inr n" "row_signature f = Inr s" "b64d_field s = Inr sg"
    and r: "verify_per_chunk_final P sp n sg ei (cp_sig_public_key cap) (cp_client cap) (cp_handshake_id cap) = Inr r"
      "pf_stream_fully_verified r"
    using assms(6) by (auto simp: replay_pc_final_def split: option.splits)
  obtain msg m where m: "end_message (stream_context P (cp_handshake_id cap)) n = Inr msg"
      "cl_verify P sp (cp_client cap) msg sg (cp_sig_public_key cap) = Inr (True, m)" "n = ei"
    using r by (auto simp: verify_per_chunk_final_def Let_def)
  have "sg \<in> sigs"
    using f assms(5) by (auto simp: final_sigs_def b64d_field_def split: option.splits)
  then have "msg \<in> signed_in P logs"
    using assms(4) m(2) by (blast dest: unforgedD)
  then show ?thesis
    using signed_in_end [OF _ m(1) assms(1-3)] m(3) by simp
qed

theorem per_chunk_accept_genuine:
  assumes "contexts_distinct P logs" "PcLog (cp_handshake_id cap) es \<in> set logs" "sha_ok P"
    and "unforged P (cp_client cap) (cp_sig_public_key cap) (signed_in P logs) (delivered_sigs mutated final)"
    and "replay_through_client P sps cap mutated final ''per_chunk'' k enf = Inr (None, covered)"
  shows "map row_env mutated = map Some (indexed es)"
proof -
  obtain ei where ei: "replay_pc P sps cap 0 0 mutated = Inr (None, ei)"
    and fin: "replay_pc_final P (sps (length mutated)) cap ei final = Inr True"
    using assms(5) by (auto simp: replay_through_client_def split: option.splits if_splits)
  have rows: "ei = int (length mutated) \<and>
      (\<forall>j < length mutated. j < length es \<and> row_env (mutated ! j) = Some (int j, envelope (es ! j)))"
    using replay_pc_genuine [OF assms(1-4) _ ei] by (auto simp: delivered_sigs_def)
  moreover have "ei = int (length es)"
    using replay_pc_final_genuine [OF assms(1-4) _ fin] by (auto simp: delivered_sigs_def)
  ultimately show ?thesis
    by (intro nth_equalityI) (auto simp: indexed_def)
qed

section \<open>hash_chain: coverage and acceptance\<close>

text \<open>The rows absorbed so far, as the client's chain sees them.\<close>

definition chain_of :: "prims \<Rightarrow> chain_state \<Rightarrow> (int \<times> bytes) list \<Rightarrow> bool" where
  "chain_of P cs xs \<longleftrightarrow> cs_ctx cs = stream_context P (cs_handshake_id cs)
     \<and> cs_running_hash cs = chain_over P (genesis_hash P (cs_handshake_id cs)) xs
     \<and> cs_n_absorbed cs = int (length xs) \<and> (\<forall>p \<in> set xs. idx_ok (fst p))"

lemma chain_of_init [simp]: "chain_of P (chain_init P h k) []"
  by (simp add: chain_of_def chain_init_def)

lemma absorb_chain_of:
  assumes "absorb P i n c cs = Inr (cs', h)" "chain_of P cs xs"
  shows "chain_of P cs' (xs @ [(i, n @ c)])" "h = cs_running_hash cs'" "cs_handshake_id cs' = cs_handshake_id cs"
    "cs_checkpoint_interval cs' = cs_checkpoint_interval cs"
  using assms by (auto simp: absorb_def chain_of_def chain_step_Inr chain_over_append)

lemma verify_hash_chain_chunk_state:
  assumes "verify_hash_chain_chunk P sp c cs key pk cl = Inr (cs', r)"
  shows "\<exists>h. absorb P (hk_index c) (hk_nonce c) (hk_ciphertext c) cs = Inr (cs', h)"
    and "hr_checkpoint_missing r \<longleftrightarrow> checkpoint_expected (cs_checkpoint_interval cs') (cs_n_absorbed cs') \<and> \<not> truthy_bytes (hk_signature c)"
    and "pk = Some pk' \<Longrightarrow> cl = Some cl' \<Longrightarrow> hr_checkpoint r \<longleftrightarrow> truthy_bytes (hk_signature c)"
  using assms
  by (auto simp: verify_hash_chain_chunk_Inr checkpoint_check_some split: if_splits)

lemma verify_hash_chain_chunk_checkpoint:
  assumes "verify_hash_chain_chunk P sp c cs key (Some pk) (Some cl) = Inr (cs', r)"
    and "hr_checkpoint r" "hr_checkpoint_valid r = Some True"
  obtains sg msg m where "hk_signature c = Some sg"
    and "checkpoint_message (cs_ctx cs') (hk_index c) (cs_running_hash cs') = Inr msg"
    and "cl_verify P sp cl msg sg pk = Inr (True, m)"
proof -
  obtain h where ab: "absorb P (hk_index c) (hk_nonce c) (hk_ciphertext c) cs = Inr (cs', h)"
    using assms(1) by (auto simp: verify_hash_chain_chunk_Inr)
  then have "h = cs_running_hash cs'"
    by (auto simp: absorb_def)
  then show ?thesis
    using assms that ab
    by (cases "hk_signature c") (auto simp: verify_hash_chain_chunk_Inr checkpoint_check_some split: if_splits)
qed

text \<open>Equal chain values mean equal rows, whichever party computed them.\<close>

definition chain_free :: "prims \<Rightarrow> string \<Rightarrow> (int \<times> bytes) list \<Rightarrow> env list \<Rightarrow> bool" where
  "chain_free P h xs es \<longleftrightarrow> inj_on (sha256 P)
     ({encode ''GEN'' @ stream_context P h} \<union> set (chain_inputs P (genesis_hash P h) xs)
      \<union> set (chain_inputs P (genesis_hash P h) (indexed es)))"

lemma indexed_idx_ok: "length es < 2 ^ 32 \<Longrightarrow> p \<in> set (indexed es) \<Longrightarrow> idx_ok (fst p)"
  by (auto simp: indexed_def)

lemma chain_free_prefix: "chain_free P h (xs @ ys) es \<Longrightarrow> chain_free P h xs es"
  unfolding chain_free_def by (erule inj_on_subset) (auto simp: chain_inputs_append)

lemma set_chain_inputs_take: "set (chain_inputs P h (take n xs)) \<subseteq> set (chain_inputs P h xs)"
  by (metis append_take_drop_id chain_inputs_append set_append sup_ge1)

lemma chain_genuine:
  assumes "chain_free P h xs es" "sha_ok P" "\<forall>p \<in> set xs. idx_ok (fst p)" "length es < 2 ^ 32"
    and "chain_over P (genesis_hash P h) xs = chain_at P h es n"
  shows "xs = take n (indexed es)"
proof (rule chain_over_inj)
  show "length (encode ''GEN'' @ stream_context P h) = 35"
    using assms(2) by (simp add: stream_context_len)
  show "\<forall>p \<in> set xs \<union> set (take n (indexed es)). idx_ok (fst p)"
    using assms(3) indexed_idx_ok [OF assms(4)] in_set_takeD by fast
  show "inj_on (sha256 P) ({encode ''GEN'' @ stream_context P h}
      \<union> set (chain_inputs P (sha256 P (encode ''GEN'' @ stream_context P h)) xs)
      \<union> set (chain_inputs P (sha256 P (encode ''GEN'' @ stream_context P h)) (take n (indexed es))))"
    using assms(1) unfolding chain_free_def genesis_hash_def
    by (rule inj_on_subset) (use set_chain_inputs_take in blast)
  show "chain_over P (sha256 P (encode ''GEN'' @ stream_context P h)) xs =
      chain_over P (sha256 P (encode ''GEN'' @ stream_context P h)) (take n (indexed es))"
    using assms(5) by (simp add: chain_at_def genesis_hash_def)
qed (rule assms(2))

lemma checkpoint_expected_nat:
  assumes "0 < d"
  shows "checkpoint_expected (Some d) (int n) \<longleftrightarrow> n mod nat d = 0"
proof -
  have "int n mod int (nat d) = int (n mod nat d)"
    by (simp add: zmod_int)
  then show ?thesis
    using assms by (simp add: checkpoint_expected_def)
qed

lemma cover_step:
  assumes "0 < (k::nat)" "k * (pos div k) \<le> covered" "covered \<le> cov" "Suc pos mod k = 0 \<Longrightarrow> cov = Suc pos"
  shows "Suc pos - cov < k \<and> k * (Suc pos div k) \<le> cov"
proof -
  have le: "k * (Suc pos div k) \<le> cov"
  proof (cases "Suc pos mod k = 0")
    case False
    then have "Suc pos div k = pos div k" by (simp add: div_Suc)
    then show ?thesis using assms(2,3) by simp
  qed (use assms(4) in simp)
  have "Suc pos = k * (Suc pos div k) + Suc pos mod k"
    by simp
  then have "Suc pos < k * (Suc pos div k) + k"
    using assms(1) mod_less_divisor [of k "Suc pos"] by linarith
  then have "Suc pos < cov + k"
    using le by (meson add_le_cancel_right order_less_le_trans)
  with le assms(1) show ?thesis by simp
qed

text \<open>
  The loop invariant: the client's chain is over the delivered rows, the covered prefix is the
  genuine one, and with interval \<open>k\<close> enforced the uncovered tail is shorter than \<open>k\<close>.
\<close>

definition hc_inv ::
  "prims \<Rightarrow> env list \<Rightarrow> int option \<Rightarrow> nat \<Rightarrow> nat \<Rightarrow> chain_state \<Rightarrow> (int \<times> bytes) list \<Rightarrow> bool" where
  "hc_inv P es k pos covered cs xs \<longleftrightarrow>
     chain_of P cs xs \<and> length xs = pos \<and> covered \<le> pos \<and> cs_checkpoint_interval cs = k \<and>
     take covered xs = take covered (indexed es) \<and> covered \<le> length es \<and>
     (\<forall>d. k = Some d \<longrightarrow> 0 < d \<longrightarrow> pos - covered < nat d \<and> nat d * (pos div nat d) \<le> covered)"

lemma replay_hc_inv:
  assumes hyps: "contexts_distinct P logs" "HcLog h es \<in> set logs" "sha_ok P"
      "unforged P (cp_client cap) (cp_sig_public_key cap) (signed_in P logs) sigs" "length es < 2 ^ 32"
    and "chunk_sigs rows \<subseteq> sigs" "cs_handshake_id cs = h" "hc_inv P es k pos covered cs xs"
    and "map row_env rows = map Some ys" "chain_free P h (xs @ ys) es"
    and "replay_hc P sps cap pos covered cs rows = Inr (rej, covered', cs')"
  shows "\<exists>zs pos'. (case rej of None \<Rightarrow> pos' = pos + length rows \<and> zs = xs @ ys | Some p \<Rightarrow> pos' = p \<and> p < pos + length rows)
     \<and> (rej = None \<longrightarrow> cs_handshake_id cs' = h \<and> hc_inv P es k pos' covered' cs' zs)
     \<and> covered' \<le> pos' \<and> take covered' (xs @ ys) = take covered' (indexed es) \<and> covered' \<le> length es
     \<and> (\<forall>d. k = Some d \<longrightarrow> 0 < d \<longrightarrow> pos' - covered' < nat d)"
  using assms(6-11)
proof (induction rows arbitrary: pos covered cs xs ys)
  case Nil
  then show ?case by (auto simp: hc_inv_def)
next
  case (Cons row rows)
  obtain y ys' where ys: "ys = y # ys'" "row_env row = Some y" "map row_env rows = map Some ys'"
    using Cons.prems(4) by (cases ys) auto
  obtain c cs1 r where c: "decode_hc_chunk row = Inr c"
    and v: "verify_hash_chain_chunk P (sps pos) c cs (cp_session_key cap) (Some (cp_sig_public_key cap)) (Some (cp_client cap)) = Inr (cs1, r)"
    and rest: "(if hr_aead_ok r \<noteq> Some True \<or> hr_checkpoint_missing r \<or> (hr_checkpoint r \<and> hr_checkpoint_valid r \<noteq> Some True)
       then Inr (Some pos, covered, cs1)
       else replay_hc P sps cap (Suc pos) (if hr_checkpoint r then pos + 1 else covered) cs1 rows) = Inr (rej, covered', cs')"
    using Cons.prems(6) by auto
  have y: "y = (hk_index c, hk_nonce c @ hk_ciphertext c)"
    using decode_hc_chunk_Inr(1) [OF c] ys(2) by simp
  obtain d where ab: "absorb P (hk_index c) (hk_nonce c) (hk_ciphertext c) cs = Inr (cs1, d)"
    using verify_hash_chain_chunk_state(1) [OF v] by blast
  have inv: "chain_of P cs xs" "length xs = pos" "covered \<le> pos" "cs_checkpoint_interval cs = k"
      "take covered xs = take covered (indexed es)" "covered \<le> length es"
      "\<And>d. k = Some d \<Longrightarrow> 0 < d \<Longrightarrow> pos - covered < nat d \<and> nat d * (pos div nat d) \<le> covered"
    using Cons.prems(3) by (auto simp: hc_inv_def)
  have co: "chain_of P cs1 (xs @ [y])" and id1: "cs_handshake_id cs1 = h" and k1: "cs_checkpoint_interval cs1 = k"
    using absorb_chain_of [OF ab inv(1)] y Cons.prems(2) inv(4) by simp_all
  show ?case
  proof (cases "hr_aead_ok r \<noteq> Some True \<or> hr_checkpoint_missing r \<or> (hr_checkpoint r \<and> hr_checkpoint_valid r \<noteq> Some True)")
    case True
    then show ?thesis
      using rest inv by (intro exI [of _ "[]"] exI [of _ pos]) auto
  next
    case ok: False
    let ?cov = "if hr_checkpoint r then pos + 1 else covered"
    have n1: "cs_n_absorbed cs1 = int (Suc pos)"
      using co inv(2) by (simp add: chain_of_def)
    have gen: "xs @ [y] = take (Suc pos) (indexed es) \<and> Suc pos \<le> length es" if cp: "hr_checkpoint r"
    proof -
      obtain sg msg m where m: "hk_signature c = Some sg"
          "checkpoint_message (cs_ctx cs1) (hk_index c) (cs_running_hash cs1) = Inr msg"
          "cl_verify P (sps pos) (cp_client cap) msg sg (cp_sig_public_key cap) = Inr (True, m)"
        using verify_hash_chain_chunk_checkpoint [OF v cp] ok cp by blast
      have "msg \<in> signed_in P logs"
        using hyps(4) m(3) decode_hc_chunk_Inr(2) [OF c m(1)] Cons.prems(1) by (blast dest: unforgedD)
      moreover have ctx: "cs_ctx cs1 = stream_context P h" "cs_running_hash cs1 = chain_over P (genesis_hash P h) (xs @ [y])"
        using co id1 by (simp_all add: chain_of_def)
      ultimately have g: "0 \<le> hk_index c \<and> nat (hk_index c) < length es \<and>
          chain_over P (genesis_hash P h) (xs @ [y]) = chain_at P h es (Suc (nat (hk_index c)))"
        using signed_in_ckp [OF _ _ hyps(1-3)] m(2) by simp
      have eq: "xs @ [y] = take (Suc (nat (hk_index c))) (indexed es)"
      proof (rule chain_genuine [OF _ hyps(3) _ hyps(5)])
        show "chain_free P h (xs @ [y]) es"
          using Cons.prems(5) ys(1) chain_free_prefix [of P h "xs @ [y]" ys'] by simp
        show "\<forall>p \<in> set (xs @ [y]). idx_ok (fst p)"
          using co by (simp add: chain_of_def)
      qed (use g in blast)
      moreover have "length (indexed es) = length es" by (simp add: indexed_def)
      ultimately have "Suc pos = Suc (nat (hk_index c))"
        using g inv(2) by (metis Suc_leI length_append_singleton length_take min.absorb2)
      then show ?thesis using eq g by simp
    qed
    have inv1: "hc_inv P es k (Suc pos) ?cov cs1 (xs @ [y])"
      unfolding hc_inv_def
    proof (intro conjI allI impI)
      show "take ?cov (xs @ [y]) = take ?cov (indexed es)"
        using gen inv(2,3,5) by (auto simp: take_append)
      show "?cov \<le> length es" using gen inv(6) by auto
      fix d assume d: "k = Some d" "0 < d"
      have hit: "hr_checkpoint r" if z: "Suc pos mod nat d = 0"
      proof -
        have "checkpoint_expected (cs_checkpoint_interval cs1) (cs_n_absorbed cs1)"
          by (simp only: k1 d(1) n1 checkpoint_expected_nat [OF d(2)] z)
        then show ?thesis
          using ok verify_hash_chain_chunk_state(2,3) [OF v] by blast
      qed
      have "Suc pos - ?cov < nat d \<and> nat d * (Suc pos div nat d) \<le> ?cov"
        by (rule cover_step [of _ pos covered]) (use d hit inv(3) inv(7) [OF d] in auto)
      then show "Suc pos - ?cov < nat d" "nat d * (Suc pos div nat d) \<le> ?cov"
        by simp_all
    qed (use co inv id1 k1 in auto)
    have "replay_hc P sps cap (Suc pos) ?cov cs1 rows = Inr (rej, covered', cs')"
      using rest ok by (simp only: if_False)
    moreover have "chunk_sigs rows \<subseteq> sigs"
      using Cons.prems(1) chunk_sigs_mono [of rows "row # rows"] by auto
    moreover have "chain_free P h ((xs @ [y]) @ ys') es"
      using Cons.prems(5) ys(1) by simp
    ultimately show ?thesis
      using Cons.IH [OF _ id1 inv1 ys(3)] ys(1) by (cases rej) simp_all
  qed
qed

lemma take_all_indexed [simp]: "take (length es) (indexed es) = indexed es"
  by (simp add: indexed_def)

lemma replay_hc_final_genuine:
  assumes hyps: "contexts_distinct P logs" "HcLog h es \<in> set logs" "sha_ok P"
      "unforged P (cp_client cap) (cp_sig_public_key cap) (signed_in P logs) sigs" "length es < 2 ^ 32"
    and "final_sigs final \<subseteq> sigs" "chain_of P cs xs" "cs_handshake_id cs = h" "chain_free P h xs es"
    and "replay_hc_final P sp cap cs final = Inr True"
  shows "xs = indexed es"
proof -
  obtain f s sg d n r where f: "final = Some f" "row_signature f = Inr s" "b64d_field s = Inr sg"
    and r: "verify_hash_chain_final P sp \<lparr> hl_final_chain_hash = d, hl_n_chunks = n, hl_signature = sg \<rparr> cs
              (cp_sig_public_key cap) (cp_client cap) = Inr r" "hf_stream_fully_verified r"
    using assms(10) by (auto simp: replay_hc_final_def split: option.splits)
  obtain msg m where m: "final_chain_message (cs_ctx cs) (cs_n_absorbed cs) (cs_running_hash cs) = Inr msg"
      "cl_verify P sp (cp_client cap) msg sg (cp_sig_public_key cap) = Inr (True, m)"
    using r by (auto simp: verify_hash_chain_final_def Let_def)
  have "sg \<in> sigs"
    using f assms(6) by (auto simp: final_sigs_def b64d_field_def split: option.splits)
  then have "msg \<in> signed_in P logs"
    using hyps(4) m(2) by (blast dest: unforgedD)
  then have "chain_over P (genesis_hash P h) xs = chain_at P h es (length es)"
    using signed_in_fin [OF _ _ hyps(1-3)] m(1) assms(7,8) by (simp add: chain_of_def)
  then have "xs = take (length es) (indexed es)"
    using chain_genuine [OF assms(9) hyps(3) _ hyps(5)] assms(7) by (simp add: chain_of_def)
  then show ?thesis by simp
qed

theorem hash_chain_replay_sound:
  assumes "contexts_distinct P logs" "HcLog (cp_handshake_id cap) es \<in> set logs" "sha_ok P" "length es < 2 ^ 32"
    and "unforged P (cp_client cap) (cp_sig_public_key cap) (signed_in P logs) (delivered_sigs mutated final)"
    and "map row_env mutated = map Some ys" "chain_free P (cp_handshake_id cap) ys es"
    and "replay_through_client P sps cap mutated final ''hash_chain'' k enf = Inr (rej, covered)"
  shows "take covered ys = take covered (indexed es)" "covered \<le> length es"
    and "rej = None \<Longrightarrow> ys = indexed es"
    and "rej = Some pos \<Longrightarrow> enf \<Longrightarrow> k = Some d \<Longrightarrow> 0 < d \<Longrightarrow> pos - covered < nat d"
proof -
  let ?h = "cp_handshake_id cap"
  let ?k = "if enf then k else None"
  obtain rej' cov cs where loop: "replay_hc P sps cap 0 0 (chain_init P ?h ?k) mutated = Inr (rej', cov, cs)"
    and out: "(case rej' of Some pos \<Rightarrow> Inr (Some pos, cov)
       | None \<Rightarrow> bind_res (replay_hc_final P (sps (length mutated)) cap cs final) (\<lambda>ok.
           Inr (if ok then None else Some (length mutated), if ok then length mutated else cov))) = Inr (rej, covered)"
    using assms(8) by (auto simp: replay_through_client_def)
  have len: "length ys = length mutated"
    using assms(6) by (metis length_map)
  have init: "hc_inv P es ?k 0 0 (chain_init P ?h ?k) []"
    by (auto simp: hc_inv_def) (simp_all add: chain_init_def)
  have sub: "chunk_sigs mutated \<subseteq> delivered_sigs mutated final" "final_sigs final \<subseteq> delivered_sigs mutated final"
    by (auto simp: delivered_sigs_def)
  obtain zs pos' where inv:
      "case rej' of None \<Rightarrow> pos' = 0 + length mutated \<and> zs = [] @ ys | Some p \<Rightarrow> pos' = p \<and> p < 0 + length mutated"
      "rej' = None \<Longrightarrow> cs_handshake_id cs = ?h \<and> hc_inv P es ?k pos' cov cs zs"
      "cov \<le> pos'" "take cov ([] @ ys) = take cov (indexed es)" "cov \<le> length es"
      "\<And>d. ?k = Some d \<Longrightarrow> 0 < d \<Longrightarrow> pos' - cov < nat d"
    using replay_hc_inv [OF assms(1-3,5,4) sub(1) _ init assms(6) _ loop] assms(7)
    by (auto simp: chain_init_def)
  have acc: "ys = indexed es" if "rej' = None" "replay_hc_final P (sps (length mutated)) cap cs final = Inr True"
    by (rule replay_hc_final_genuine [OF assms(1-3,5,4) sub(2) _ _ assms(7) that(2)])
       (use inv(1,2) that(1) in \<open>auto simp: hc_inv_def\<close>)
  have cases: "(rej = rej' \<and> rej' \<noteq> None \<and> covered = cov) \<or>
      (rej' = None \<and> rej = Some (length mutated) \<and> covered = cov) \<or>
      (rej' = None \<and> rej = None \<and> covered = length mutated \<and> ys = indexed es)"
    using out acc by (auto split: option.splits if_splits)
  show "take covered ys = take covered (indexed es)"
    using cases inv(4) len by auto
  show "covered \<le> length es"
    using cases inv(5) len by (auto simp: indexed_def)
  show "rej = None \<Longrightarrow> ys = indexed es"
    using cases by auto
  show "rej = Some pos \<Longrightarrow> enf \<Longrightarrow> k = Some d \<Longrightarrow> 0 < d \<Longrightarrow> pos - covered < nat d"
    using cases inv(1) inv(6) [of d] by auto
qed

end
