(* ===== verification/StreamHonest.thy ===== *)
theory StreamHonest
  imports StreamingClient StreamReplay
begin

text \<open>
  The honest run: what the server emits for a list of chunks is accepted by the streaming
  client, for each of the three strategies, and the text the client assembles is the
  concatenation of the chunks. \<open>stream_contract\<close> is the interface the token-level generator
  relies on; each strategy interprets it.
\<close>

section \<open>The two ends of a session\<close>

text \<open>The client's view \<open>v\<close> matches the server's instance and the bundle of the handshake.\<close>

definition matched :: "prims \<Rightarrow> server_crypto \<Rightarrow> handshake_bundle \<Rightarrow> session_view \<Rightarrow> bool" where
  "matched P srv b v \<longleftrightarrow> aead_ok P \<and> signs_ok P srv b \<and> gcm_key_ok P (sv_key v) \<and> sv_client v = server_client srv
     \<and> sv_sig_public_key v = hb_sig_public_key b \<and> sv_handshake_id v = hb_handshake_id b"

lemma matched_sign:
  assumes "matched P srv b v"
  obtains sg where "srv_sign P t sp srv (sv_handshake_id v) msg = Inr (sg, mk_sign_meta sp sg)"
    and "\<forall>sp'. cl_verify P sp' (sv_client v) msg sg (sv_sig_public_key v) = Inr (True, mk_verify_meta sp')"
    and "sg \<noteq> []"
proof -
  obtain sg m m' where s: "srv_sign P t sp srv (hb_handshake_id b) msg = Inr (sg, m)" "sg \<noteq> []"
      "cl_verify P sp (server_client srv) msg sg (hb_sig_public_key b) = Inr (True, m')"
    using assms unfolding matched_def signs_ok_def by meson
  have "cl_verify P sp' (server_client srv) msg sg (hb_sig_public_key b) = Inr (True, mk_verify_meta sp')" for sp'
    by (rule cl_verify_span [OF s(3)])
  moreover have "m = mk_sign_meta sp sg"
    by (rule srv_sign_meta [OF s(1)])
  ultimately show ?thesis
    using that [of sg] s assms by (simp add: matched_def)
qed

lemma matched_encrypt:
  assumes "matched P srv b v"
  obtains a where "aead_encrypt P t (sv_key v) x None = Inr a" "length (ar_nonce a) = 12"
    and "decrypt_into P (sv_key v) (ar_nonce a) (ar_ciphertext a) = Inr (Some True, Some x)"
proof -
  have ok: "aead_ok P" "gcm_key_ok P (sv_key v)" using assms by (simp_all add: matched_def)
  then obtain a where a: "aead_encrypt P t (sv_key v) x None = Inr a"
    by (simp add: aead_encrypt_eq_Inr)
  show ?thesis
    by (rule that [OF a]) (simp_all add: aead_encrypt_sizes [OF ok(1) a] decrypt_into_ok [OF aead_round_trip [OF ok(1) a]])
qed

section \<open>Sizes on the wire\<close>

fun row_signature_bytes :: "'b row \<Rightarrow> nat" where
  "row_signature_bytes (Chunk c) = ck_signature_bytes c"
| "row_signature_bytes (FinalBuffered f) = fb_signature_bytes f"
| "row_signature_bytes (FinalPerChunk f) = pe_signature_bytes f"
| "row_signature_bytes (FinalChain f) = fc_signature_bytes f"

text \<open>The byte counts a row claims are those of the signatures it carries.\<close>

fun row_sizes_honest :: "bytes row \<Rightarrow> bool" where
  "row_sizes_honest (Chunk c) = (ck_signature_bytes c = (case ck_signature c of None \<Rightarrow> 0 | Some sg \<Rightarrow> length sg))"
| "row_sizes_honest (FinalBuffered f) = (fb_signature_bytes f = length (fb_signature f))"
| "row_sizes_honest (FinalPerChunk f) = (pe_signature_bytes f = length (pe_signature f))"
| "row_sizes_honest (FinalChain f) = (fc_signature_bytes f = length (fc_signature f))"

lemma strat_add_chunk_sizes:
  "strat_add_chunk P r sp srv c i st = Inr (st', Some row) \<Longrightarrow> row_sizes_honest row"
  by (cases st) (auto simp: buf_add_chunk_def pc_add_chunk_def hc_add_chunk_def Let_def split: prod.splits if_splits)

lemma strat_finalize_sizes: "strat_finalize P r sp srv n st = Inr (Some row) \<Longrightarrow> row_sizes_honest row"
  by (cases st) (auto simp: buf_finalize_def pc_finalize_def hc_finalize_def Let_def split: prod.splits)

lemma run_chunks_sizes:
  "run_chunks P rs sps srv st cs i = Inr rows \<Longrightarrow> \<forall>row \<in> set rows. row_sizes_honest row"
proof (induction cs arbitrary: st i rows)
  case Nil
  then obtain final where "strat_finalize P (rs i) (sps i) srv (int i) st = Inr final"
      "rows = (case final of None \<Rightarrow> [] | Some row \<Rightarrow> [row])"
    by auto
  then show ?case by (cases final) (simp_all add: strat_finalize_sizes)
next
  case (Cons c cs)
  then obtain st' out rest where r: "strat_add_chunk P (rs i) (sps i) srv c (int i) st = Inr (st', out)"
      "run_chunks P rs sps srv st' cs (Suc i) = Inr rest" "rows = (case out of None \<Rightarrow> rest | Some row \<Rightarrow> row # rest)"
    by auto
  show ?case
    using Cons.IH [OF r(2)] r(1,3) by (auto split: option.splits dest: strat_add_chunk_sizes)
qed

section \<open>Events of the rows\<close>

definition carries :: "sse_event list \<Rightarrow> bytes row list \<Rightarrow> bool" where
  "carries evs rows \<longleftrightarrow> map ev_line evs = map (\<lambda>row. DataRow (encode_for_wire row)) rows"

lemma carries_Cons: "carries evs (row # rows) \<longleftrightarrow>
  (\<exists>ev evs'. evs = ev # evs' \<and> ev_line ev = DataRow (encode_for_wire row) \<and> carries evs' rows)"
  by (auto simp: carries_def map_eq_Cons_conv)

lemma carries_Nil [simp]: "carries evs [] \<longleftrightarrow> evs = []"
  by (simp add: carries_def)

lemma extend_text_Some [simp]: "extend_text (Some x) text = text @ x"
  by (simp add: extend_text_def)

lemma consume_row:
  assumes "ev_line ev = DataRow row" "on_row P v ev row (set_ttft t (ev_arrival ev) st) = Inr st'"
  shows "consume P v t (ev # evs) st = consume P v t evs st'"
  using assms by (simp add: on_event_def)

text \<open>The verdict of a stream that went well: \<open>n\<close> chunks, \<open>k\<close> signatures of \<open>sz\<close> bytes in all.\<close>

definition good_verdict :: "bool option \<Rightarrow> nat \<Rightarrow> nat \<Rightarrow> nat \<Rightarrow> bool \<Rightarrow> int \<Rightarrow> bytes \<Rightarrow> verdict" where
  "good_verdict ver n k sz terminal expected text =
     \<lparr> vd_signatures_valid = True, vd_aead_ok = True, vd_in_order = True, vd_verified = ver, vd_n_chunks = n,
       vd_n_signatures = k, vd_signature_bytes = sz, vd_terminal = terminal, vd_expected = expected, vd_text = text \<rparr>"

section \<open>per_chunk\<close>

lemma pc_add_honest:
  assumes m: "matched P srv b v" and st: "st = pc_init P (sv_handshake_id v) (sv_key v)" and i: "idx_ok i"
  obtains c where "pc_add_chunk P r sp srv x i st = Inr (st, Some (Chunk c))"
    and "\<forall>ev stc. sv_strategy v = ''per_chunk'' \<longrightarrow> sc_expected_index stc = i \<longrightarrow>
      (\<exists>res. on_row P v ev (encode_for_wire (Chunk c)) stc = Inr (after_per_chunk ev (encode_chunk c) res stc) \<and>
            pr_signature_valid res \<and> pr_in_order res \<and> pr_aead_ok res = Some True \<and> pr_plaintext res = Some x)"
    and "ck_index c = i" "ck_signature c \<noteq> None"
proof -
  obtain a where a: "aead_encrypt P (r 0) (sv_key v) x None = Inr a"
      "decrypt_into P (sv_key v) (ar_nonce a) (ar_ciphertext a) = Inr (Some True, Some x)"
    using m by (rule matched_encrypt)
  obtain msg where msg: "chunk_message (stream_context P (sv_handshake_id v)) i (ar_nonce a) (ar_ciphertext a) = Inr msg"
    using i by (simp add: message_Inr)
  obtain sg where sg: "srv_sign P (r (Suc 0)) sp srv (sv_handshake_id v) msg = Inr (sg, mk_sign_meta sp sg)"
      "\<forall>sp'. cl_verify P sp' (sv_client v) msg sg (sv_sig_public_key v) = Inr (True, mk_verify_meta sp')"
    by (rule matched_sign [OF m, of "r (Suc 0)" sp msg])
  show ?thesis
    by (rule that [of "\<lparr> ck_index = i, ck_nonce = ar_nonce a, ck_ciphertext = ar_ciphertext a, ck_chain_hash = None,
          ck_signature = Some sg, ck_sign_ms = sign_ms (mk_sign_meta sp sg),
          ck_sign_cpu_ms = sign_cpu_ms (mk_sign_meta sp sg), ck_signature_bytes = length sg \<rparr>"])
       (simp_all add: pc_add_chunk_def st pc_init_def a msg sg on_row_def on_per_chunk_def decode_pc_encode verify_per_chunk_def,
        (intro allI impI exI conjI, rule refl, simp_all)?)
qed

lemma pc_finalize_honest:
  assumes m: "matched P srv b v" and st: "st = pc_init P (sv_handshake_id v) (sv_key v)" and i: "idx_ok n"
  obtains f where "pc_finalize P r sp srv n st = Inr (Some (FinalPerChunk f))"
    and "\<forall>ev stc. sc_expected_index stc = n \<longrightarrow>
      (\<exists>res fe. on_row P v ev (encode_for_wire (FinalPerChunk f)) stc = Inr (after_final_per_chunk fe res stc) \<and>
               pf_stream_fully_verified res \<and> pe_signature_bytes fe = pe_signature_bytes f)"
proof -
  obtain msg where msg: "end_message (stream_context P (sv_handshake_id v)) n = Inr msg"
    using i by (simp add: message_Inr)
  obtain sg where sg: "srv_sign P (r (Suc 0)) sp srv (sv_handshake_id v) msg = Inr (sg, mk_sign_meta sp sg)"
      "\<forall>sp'. cl_verify P sp' (sv_client v) msg sg (sv_sig_public_key v) = Inr (True, mk_verify_meta sp')"
    by (rule matched_sign [OF m, of "r (Suc 0)" sp msg])
  show ?thesis
    by (rule that [of "\<lparr> pe_n_chunks = n, pe_signature = sg, pe_sign_ms = sign_ms (mk_sign_meta sp sg),
          pe_sign_cpu_ms = sign_cpu_ms (mk_sign_meta sp sg), pe_signature_bytes = length sg \<rparr>"])
       (simp_all add: pc_finalize_def st pc_init_def msg sg on_row_def on_final_per_chunk_def verify_per_chunk_final_def Let_def,
        (intro allI impI exI conjI, rule refl, simp_all)?)
qed

lemma pc_run_honest:
  assumes "matched P srv b v" "sv_strategy v = ''per_chunk''" "i + length cs < 2 ^ 32"
  shows "\<exists>rows. run_chunks P rs sps srv (PerChunk (pc_init P (sv_handshake_id v) (sv_key v))) cs i = Inr rows \<and>
    length rows = length cs + 1 \<and>
    (\<forall>evs st sz body k. carries evs rows \<longrightarrow> verdict_of st = good_verdict None i k sz False (int i) body \<longrightarrow>
      (\<exists>st'. consume P v t evs st = (st', None) \<and>
        verdict_of st' = good_verdict (Some True) (i + length cs) (k + length cs + 1)
          (sz + sum_list (map row_signature_bytes rows)) True (int (i + length cs)) (body @ concat cs)))"
  using assms(3)
proof (induction cs arbitrary: i)
  case Nil
  have idx: "idx_ok (int i)" using Nil by simp
  obtain f where f: "pc_finalize P (rs i) (sps i) srv (int i) (pc_init P (sv_handshake_id v) (sv_key v)) = Inr (Some (FinalPerChunk f))"
    "\<forall>ev stc. sc_expected_index stc = int i \<longrightarrow>
      (\<exists>res fe. on_row P v ev (encode_for_wire (FinalPerChunk f)) stc = Inr (after_final_per_chunk fe res stc) \<and>
               pf_stream_fully_verified res \<and> pe_signature_bytes fe = pe_signature_bytes f)"
    by (rule pc_finalize_honest [OF assms(1) refl idx, of "rs i" "sps i"])
  have "\<exists>st'. consume P v t evs st = (st', None) \<and> verdict_of st' =
      good_verdict (Some True) i (k + 1) (sz + row_signature_bytes (FinalPerChunk f)) True (int i) body"
    if evs: "carries evs [FinalPerChunk f]" and st: "verdict_of st = good_verdict None i k sz False (int i) body"
    for evs st sz body k
  proof -
    obtain ev where ev: "evs = [ev]" "ev_line ev = DataRow (encode_for_wire (FinalPerChunk f))"
      using evs by (auto simp: carries_Cons)
    have "sc_expected_index (set_ttft t (ev_arrival ev) st) = int i"
      using st by (auto simp: verdict_of_def good_verdict_def set_ttft_def)
    then obtain res fe where r: "on_row P v ev (encode_for_wire (FinalPerChunk f)) (set_ttft t (ev_arrival ev) st) =
        Inr (after_final_per_chunk fe res (set_ttft t (ev_arrival ev) st))"
      "pf_stream_fully_verified res" "pe_signature_bytes fe = pe_signature_bytes f"
      using f(2) by blast
    show ?thesis
      using consume_row [OF ev(2) r(1), of "[]"] r(2,3) st ev(1)
      by (simp add: verdict_after_finals good_verdict_def)
  qed
  then show ?case
    using f(1) by (intro exI [of _ "[FinalPerChunk f]"]) simp
next
  case (Cons c cs)
  have idx: "idx_ok (int i)" using Cons.prems by simp
  let ?st = "pc_init P (sv_handshake_id v) (sv_key v)"
  obtain ck where ck: "pc_add_chunk P (rs i) (sps i) srv c (int i) ?st = Inr (?st, Some (Chunk ck))"
    "\<forall>ev stc. sv_strategy v = ''per_chunk'' \<longrightarrow> sc_expected_index stc = int i \<longrightarrow>
      (\<exists>res. on_row P v ev (encode_for_wire (Chunk ck)) stc = Inr (after_per_chunk ev (encode_chunk ck) res stc) \<and>
            pr_signature_valid res \<and> pr_in_order res \<and> pr_aead_ok res = Some True \<and> pr_plaintext res = Some c)"
    by (rule pc_add_honest [OF assms(1) refl idx, of "rs i" "sps i" c])
  obtain rows where rows: "run_chunks P rs sps srv (PerChunk ?st) cs (Suc i) = Inr rows" "length rows = length cs + 1"
    and ih: "\<And>evs st sz body k. carries evs rows \<Longrightarrow> verdict_of st = good_verdict None (Suc i) k sz False (int (Suc i)) body \<Longrightarrow>
      \<exists>st'. consume P v t evs st = (st', None) \<and>
        verdict_of st' = good_verdict (Some True) (Suc i + length cs) (k + length cs + 1)
          (sz + sum_list (map row_signature_bytes rows)) True (int (Suc i + length cs)) (body @ concat cs)"
    using Cons.IH [of "Suc i"] Cons.prems by auto
  show ?case
  proof (intro exI [of _ "Chunk ck # rows"] conjI allI impI)
    fix evs st sz body k
    assume evs: "carries evs (Chunk ck # rows)" and st: "verdict_of st = good_verdict None i k sz False (int i) body"
    obtain ev evs' where ev: "evs = ev # evs'" "ev_line ev = DataRow (encode_for_wire (Chunk ck))" "carries evs' rows"
      using evs by (auto simp: carries_Cons)
    have "sc_expected_index (set_ttft t (ev_arrival ev) st) = int i"
      using st by (auto simp: verdict_of_def good_verdict_def set_ttft_def)
    then obtain res where r: "on_row P v ev (encode_for_wire (Chunk ck)) (set_ttft t (ev_arrival ev) st) =
        Inr (after_per_chunk ev (encode_chunk ck) res (set_ttft t (ev_arrival ev) st))"
      "pr_signature_valid res" "pr_in_order res" "pr_aead_ok res = Some True" "pr_plaintext res = Some c"
      using ck(2) assms(2) by blast
    have "verdict_of (after_per_chunk ev (encode_chunk ck) res (set_ttft t (ev_arrival ev) st)) =
        good_verdict None (Suc i) (k + 1) (sz + ck_signature_bytes ck) False (int (Suc i)) (body @ c)"
      using st r by (simp add: verdict_after_per_chunk good_verdict_def encode_chunk_def)
    from ih [OF ev(3) this] show "\<exists>st'. consume P v t evs st = (st', None) \<and> verdict_of st' =
        good_verdict (Some True) (i + length (c # cs)) (k + length (c # cs) + 1)
          (sz + sum_list (map row_signature_bytes (Chunk ck # rows))) True (int (i + length (c # cs))) (body @ concat (c # cs))"
      using consume_row [OF ev(2) r(1), of evs'] ev(1) by (simp add: add_ac)
  qed (use ck rows in simp_all)
qed

section \<open>hash_chain\<close>

text \<open>Does chunk number \<open>i\<close> (from 0) carry a checkpoint, for the requested interval?\<close>

definition ckp_due :: "int option \<Rightarrow> nat \<Rightarrow> bool" where
  "ckp_due k i \<longleftrightarrow> (case k of None \<Rightarrow> False | Some d \<Rightarrow> if 0 < d then Suc i mod nat d = 0 else d < 0)"

definition ckp_count :: "int option \<Rightarrow> nat \<Rightarrow> nat \<Rightarrow> nat" where
  "ckp_count k i n = length (filter (ckp_due k) [i..<i + n])"

lemma ckp_count_Suc: "ckp_count k i (Suc n) = (if ckp_due k i then 1 else 0) + ckp_count k (Suc i) n"
  by (simp add: ckp_count_def upt_conv_Cons del: upt_Suc)

lemma ckp_count_0 [simp]: "ckp_count k i 0 = 0"
  by (simp add: ckp_count_def)

lemma ckp_count_div:
  assumes "0 < d"
  shows "ckp_count (Some d) 0 n = n div nat d"
proof (induction n)
  case (Suc n)
  have "ckp_count (Some d) 0 (Suc n) = ckp_count (Some d) 0 n + (if Suc n mod nat d = 0 then 1 else 0)"
    using assms by (simp add: ckp_count_def ckp_due_def)
  then show ?case
    using Suc by (simp add: div_Suc)
qed simp

lemma ckp_count_None: "ckp_count None i n = 0"
  by (simp add: ckp_count_def ckp_due_def)

text \<open>Server strategy and client chain agree after \<open>i\<close> chunks.\<close>

definition hc_sync :: "prims \<Rightarrow> session_view \<Rightarrow> int option \<Rightarrow> nat \<Rightarrow> hc_strategy \<Rightarrow> chain_state \<Rightarrow> bool" where
  "hc_sync P v k i st cs \<longleftrightarrow>
     hc_handshake_id st = sv_handshake_id v \<and> hc_session_key st = sv_key v \<and>
     hc_ctx st = stream_context P (sv_handshake_id v) \<and> hc_checkpoint_interval st = k \<and>
     0 \<le> hc_since_checkpoint st \<and> (\<forall>d. k = Some d \<longrightarrow> 0 < d \<longrightarrow> hc_since_checkpoint st = int (i mod nat d)) \<and>
     cs_running_hash cs = hc_running_hash st \<and> cs_ctx cs = hc_ctx st \<and> cs_checkpoint_interval cs = k \<and>
     cs_n_absorbed cs = int i"

lemma hc_sync_init:
  "hc_sync P v k 0 (hc_init P (sv_handshake_id v) (sv_key v) k) (chain_init P (sv_handshake_id v) k)"
  by (simp add: hc_sync_def hc_init_def chain_init_def)

lemma checkpoint_due_sync:
  assumes "hc_sync P v k i st cs"
  shows "checkpoint_due k (hc_since_checkpoint st + 1) \<longleftrightarrow> ckp_due k i"
proof (cases k)
  case (Some d)
  show ?thesis
  proof (cases "0 < d")
    case True
    have s: "hc_since_checkpoint st = int (i mod nat d)" using assms Some True by (simp add: hc_sync_def)
    have "i mod nat d < nat d" using True by simp
    then have "d \<le> int (i mod nat d) + 1 \<longleftrightarrow> Suc (i mod nat d) = nat d" using True by linarith
    also have "\<dots> \<longleftrightarrow> Suc i mod nat d = 0" using True by (simp add: mod_Suc)
    finally show ?thesis using Some True s by (simp add: checkpoint_due_def ckp_due_def)
  qed (use assms Some in \<open>auto simp: checkpoint_due_def ckp_due_def hc_sync_def\<close>)
qed (simp add: checkpoint_due_def ckp_due_def)

lemma mod_Suc_int: "0 < d \<Longrightarrow> Suc i mod nat d \<noteq> 0 \<Longrightarrow> int (i mod nat d) + 1 = int (Suc i mod nat d)"
  by (simp add: mod_Suc split: if_splits)

lemma hc_sync_step:
  assumes "hc_sync P v k i st cs"
  shows "hc_sync P v k (Suc i)
     (st \<lparr> hc_running_hash := h, hc_since_checkpoint := (if ckp_due k i then 0 else hc_since_checkpoint st + 1) \<rparr>)
     (cs \<lparr> cs_running_hash := h, cs_n_absorbed := cs_n_absorbed cs + 1 \<rparr>)"
  using assms mod_Suc_int by (auto simp: hc_sync_def ckp_due_def split: option.splits)

lemma checkpoint_expected_sync:
  "checkpoint_expected k (1 + int i) \<Longrightarrow> ckp_due k i"
  using checkpoint_expected_nat [of "the k" "Suc i"]
  by (auto simp: checkpoint_expected_def ckp_due_def split: option.splits)

lemma on_row_hash:
  "sv_strategy v = ''hash_chain'' \<Longrightarrow> sc_chain stc = Some cs \<Longrightarrow> decode_hc_chunk data = Inr c \<Longrightarrow>
   verify_hash_chain_chunk P (ev_span ev) c cs (sv_key v) (Some (sv_sig_public_key v)) (Some (sv_client v)) = Inr (cs', res) \<Longrightarrow>
   on_row P v ev (Chunk data) stc = Inr (after_hash_chunk ev data cs' res stc)"
  by (simp add: on_row_def on_hash_chunk_def chain_of_client_def)

lemma hc_add_honest:
  assumes m: "matched P srv b v" and sync: "hc_sync P v k i st cs" and i: "idx_ok (int i)"
  shows "\<exists>c st' cs'. hc_add_chunk P r sp srv x (int i) st = Inr (st', Some (Chunk c)) \<and> hc_sync P v k (Suc i) st' cs' \<and>
    (\<forall>ev stc. sv_strategy v = ''hash_chain'' \<longrightarrow> sc_chain stc = Some cs \<longrightarrow>
      (\<exists>res. on_row P v ev (encode_for_wire (Chunk c)) stc = Inr (after_hash_chunk ev (encode_chunk c) cs' res stc) \<and>
            \<not> hr_checkpoint_missing res \<and> hr_checkpoint res = ckp_due k i \<and>
            (hr_checkpoint res \<longrightarrow> hr_checkpoint_valid res = Some True) \<and>
            hr_aead_ok res = Some True \<and> hr_plaintext res = Some x))"
proof -
  obtain a where a: "aead_encrypt P (r 0) (sv_key v) x None = Inr a"
      "decrypt_into P (sv_key v) (ar_nonce a) (ar_ciphertext a) = Inr (Some True, Some x)"
    using m by (rule matched_encrypt)
  obtain h where h: "chain_step P (hc_running_hash st) (int i) (ar_nonce a @ ar_ciphertext a) = Inr h"
    using i by (simp add: chain_step_Inr)
  obtain msg where msg: "checkpoint_message (stream_context P (sv_handshake_id v)) (int i) h = Inr msg"
    using i by (simp add: message_Inr)
  obtain sg where sg: "srv_sign P (r (Suc 0)) sp srv (sv_handshake_id v) msg = Inr (sg, mk_sign_meta sp sg)"
      "\<forall>sp'. cl_verify P sp' (sv_client v) msg sg (sv_sig_public_key v) = Inr (True, mk_verify_meta sp')" "sg \<noteq> []"
    by (rule matched_sign [OF m, of "r (Suc 0)" sp msg])
  let ?st = "st \<lparr> hc_running_hash := h, hc_since_checkpoint := (if ckp_due k i then 0 else hc_since_checkpoint st + 1) \<rparr>"
  let ?cs = "cs \<lparr> cs_running_hash := h, cs_n_absorbed := cs_n_absorbed cs + 1 \<rparr>"
  let ?c = "\<lparr> ck_index = int i, ck_nonce = ar_nonce a, ck_ciphertext = ar_ciphertext a, ck_chain_hash = Some h,
     ck_signature = (if ckp_due k i then Some sg else None),
     ck_sign_ms = (if ckp_due k i then sign_ms (mk_sign_meta sp sg) else 0),
     ck_sign_cpu_ms = (if ckp_due k i then sign_cpu_ms (mk_sign_meta sp sg) else 0),
     ck_signature_bytes = (if ckp_due k i then length sg else 0) \<rparr>"
  have s: "hc_session_key st = sv_key v" "hc_handshake_id st = sv_handshake_id v"
      "hc_ctx st = stream_context P (sv_handshake_id v)" "hc_checkpoint_interval st = k"
      "cs_running_hash cs = hc_running_hash st" "cs_ctx cs = stream_context P (sv_handshake_id v)"
      "cs_checkpoint_interval cs = k" "cs_n_absorbed cs = int i"
    using sync by (simp_all add: hc_sync_def)
  have add: "hc_add_chunk P r sp srv x (int i) st = Inr (?st, Some (Chunk ?c))"
    using checkpoint_due_sync [OF sync] by (simp add: hc_add_chunk_def Let_def a h msg sg s)
  have ab: "absorb P (int i) (ar_nonce a) (ar_ciphertext a) cs = Inr (?cs, h)"
    by (simp add: absorb_def s h)
  have ver: "\<exists>res. verify_hash_chain_chunk P sp'
        \<lparr> hk_index = int i, hk_nonce = ar_nonce a, hk_ciphertext = ar_ciphertext a, hk_chain_hash = h,
          hk_signature = (if ckp_due k i then Some sg else None) \<rparr>
        cs (sv_key v) (Some (sv_sig_public_key v)) (Some (sv_client v)) = Inr (?cs, res) \<and>
      \<not> hr_checkpoint_missing res \<and> hr_checkpoint res = ckp_due k i \<and>
      (hr_checkpoint res \<longrightarrow> hr_checkpoint_valid res = Some True) \<and>
      hr_aead_ok res = Some True \<and> hr_plaintext res = Some x" for sp'
  proof (cases "ckp_due k i")
    case True
    then show ?thesis
      using sg(3) by (simp add: spec [OF sg(2)] verify_hash_chain_chunk_def ab Let_def checkpoint_check_some a(2) s msg)
  next
    case False
    then have "\<not> checkpoint_expected k (1 + int i)"
      using checkpoint_expected_sync by blast
    then show ?thesis
      using False by (simp add: verify_hash_chain_chunk_def ab Let_def checkpoint_check_some a(2) s add.commute)
  qed
  show ?thesis
  proof (rule exI [of _ ?c], rule exI [of _ ?st], rule exI [of _ ?cs], intro conjI allI impI)
    show "hc_add_chunk P r sp srv x (int i) st = Inr (?st, Some (Chunk ?c))" by (rule add)
    show "hc_sync P v k (Suc i) ?st ?cs" by (rule hc_sync_step [OF sync])
    fix ev :: sse_event and stc :: stream_client assume str: "sv_strategy v = ''hash_chain''" and ch: "sc_chain stc = Some cs"
    have dec: "decode_hc_chunk (encode_chunk ?c) = Inr
        \<lparr> hk_index = int i, hk_nonce = ar_nonce a, hk_ciphertext = ar_ciphertext a, hk_chain_hash = h,
          hk_signature = (if ckp_due k i then Some sg else None) \<rparr>"
      using sg(3) by (simp add: decode_hc_encode [of _ h])
    obtain res where res: "verify_hash_chain_chunk P (ev_span ev)
        \<lparr> hk_index = int i, hk_nonce = ar_nonce a, hk_ciphertext = ar_ciphertext a, hk_chain_hash = h,
          hk_signature = (if ckp_due k i then Some sg else None) \<rparr>
        cs (sv_key v) (Some (sv_sig_public_key v)) (Some (sv_client v)) = Inr (?cs, res)"
      "\<not> hr_checkpoint_missing res" "hr_checkpoint res = ckp_due k i"
      "hr_checkpoint res \<longrightarrow> hr_checkpoint_valid res = Some True" "hr_aead_ok res = Some True" "hr_plaintext res = Some x"
      using ver [of "ev_span ev"] by auto
    then show "\<exists>res. on_row P v ev (encode_for_wire (Chunk ?c)) stc = Inr (after_hash_chunk ev (encode_chunk ?c) ?cs res stc) \<and>
            \<not> hr_checkpoint_missing res \<and> hr_checkpoint res = ckp_due k i \<and>
            (hr_checkpoint res \<longrightarrow> hr_checkpoint_valid res = Some True) \<and>
            hr_aead_ok res = Some True \<and> hr_plaintext res = Some x"
      using on_row_hash [OF str ch dec res(1)] unfolding encode_for_wire.simps by blast
  qed
qed

lemma hc_finalize_honest:
  assumes m: "matched P srv b v" and sync: "hc_sync P v k n st cs" and n: "idx_ok (int n)"
  shows "\<exists>f. hc_finalize P r sp srv (int n) st = Inr (Some (FinalChain f)) \<and>
    (\<forall>ev stc. sc_chain stc = Some cs \<longrightarrow>
      (\<exists>res fe. on_row P v ev (encode_for_wire (FinalChain f)) stc = Inr (after_final_chain ev fe res stc) \<and>
               hf_stream_fully_verified res \<and> fc_signature_bytes fe = fc_signature_bytes f))"
proof -
  obtain msg where msg: "final_chain_message (stream_context P (sv_handshake_id v)) (int n) (hc_running_hash st) = Inr msg"
    using n by (simp add: message_Inr)
  obtain sg where sg: "srv_sign P (r (Suc 0)) sp srv (sv_handshake_id v) msg = Inr (sg, mk_sign_meta sp sg)"
      "\<forall>sp'. cl_verify P sp' (sv_client v) msg sg (sv_sig_public_key v) = Inr (True, mk_verify_meta sp')"
    by (rule matched_sign [OF m, of "r (Suc 0)" sp msg])
  let ?f = "\<lparr> fc_final_chain_hash = hc_running_hash st, fc_n_chunks = int n, fc_signature = sg,
     fc_sign_ms = sign_ms (mk_sign_meta sp sg), fc_sign_cpu_ms = sign_cpu_ms (mk_sign_meta sp sg),
     fc_signature_bytes = length sg \<rparr>"
  let ?res = "\<lambda>ev. \<lparr> hf_chain_matches = True, hf_count_matches = True, hf_signature_valid = True,
     hf_verify_ms = verify_ms (mk_verify_meta (ev_span ev)), hf_verify_cpu_ms = verify_cpu_ms (mk_verify_meta (ev_span ev)),
     hf_stream_fully_verified = True \<rparr>"
  have s: "hc_handshake_id st = sv_handshake_id v" "hc_ctx st = stream_context P (sv_handshake_id v)"
      "cs_running_hash cs = hc_running_hash st" "cs_ctx cs = stream_context P (sv_handshake_id v)" "cs_n_absorbed cs = int n"
    using sync by (simp_all add: hc_sync_def)
  have fin: "hc_finalize P r sp srv (int n) st = Inr (Some (FinalChain ?f))"
    by (simp add: hc_finalize_def s msg sg)
  have "on_row P v ev (encode_for_wire (FinalChain ?f)) stc =
      Inr (after_final_chain ev
        \<lparr> fc_final_chain_hash = b64e (hc_running_hash st), fc_n_chunks = int n, fc_signature = b64e sg,
          fc_sign_ms = sign_ms (mk_sign_meta sp sg), fc_sign_cpu_ms = sign_cpu_ms (mk_sign_meta sp sg),
          fc_signature_bytes = length sg \<rparr> (?res ev) stc)" if "sc_chain stc = Some cs" for ev stc
    using that by (simp add: on_row_def on_final_chain_def chain_of_client_def verify_hash_chain_final_def Let_def s msg
        spec [OF sg(2)])
  then show ?thesis
    using fin by (intro exI [of _ ?f]) fastforce
qed

lemma hc_run_honest:
  assumes "matched P srv b v" "sv_strategy v = ''hash_chain''" "i + length cs < 2 ^ 32" "hc_sync P v k i st0 ch"
  shows "\<exists>rows. run_chunks P rs sps srv (HashChain st0) cs i = Inr rows \<and> length rows = length cs + 1 \<and>
    (\<forall>evs st sz bd n. carries evs rows \<longrightarrow> sc_chain st = Some ch \<longrightarrow>
       verdict_of st = good_verdict None i n sz False 0 bd \<longrightarrow>
      (\<exists>st'. consume P v t evs st = (st', None) \<and>
        verdict_of st' = good_verdict (Some True) (i + length cs) (n + ckp_count k i (length cs) + 1)
          (sz + sum_list (map row_signature_bytes rows)) True 0 (bd @ concat cs)))"
  using assms(3,4)
proof (induction cs arbitrary: i st0 ch)
  case Nil
  have idx: "idx_ok (int i)" using Nil by simp
  obtain f where f: "hc_finalize P (rs i) (sps i) srv (int i) st0 = Inr (Some (FinalChain f))"
    "\<forall>ev stc. sc_chain stc = Some ch \<longrightarrow>
      (\<exists>res fe. on_row P v ev (encode_for_wire (FinalChain f)) stc = Inr (after_final_chain ev fe res stc) \<and>
               hf_stream_fully_verified res \<and> fc_signature_bytes fe = fc_signature_bytes f)"
    using hc_finalize_honest [OF assms(1) Nil.prems(2) idx, of "rs i" "sps i"] by blast
  have "\<exists>st'. consume P v t evs st = (st', None) \<and> verdict_of st' =
      good_verdict (Some True) i (n + 1) (sz + row_signature_bytes (FinalChain f)) True 0 bd"
    if evs: "carries evs [FinalChain f]" and ch: "sc_chain st = Some ch"
      and st: "verdict_of st = good_verdict None i n sz False 0 bd" for evs st sz bd n
  proof -
    obtain ev where ev: "evs = [ev]" "ev_line ev = DataRow (encode_for_wire (FinalChain f))"
      using evs by (auto simp: carries_Cons)
    have "sc_chain (set_ttft t (ev_arrival ev) st) = Some ch"
      using ch by simp
    then obtain res fe where r: "on_row P v ev (encode_for_wire (FinalChain f)) (set_ttft t (ev_arrival ev) st) =
        Inr (after_final_chain ev fe res (set_ttft t (ev_arrival ev) st))"
      "hf_stream_fully_verified res" "fc_signature_bytes fe = fc_signature_bytes f"
      using f(2) by blast
    show ?thesis
      using consume_row [OF ev(2) r(1), of "[]"] r(2,3) st ev(1)
      by (simp add: verdict_after_finals good_verdict_def)
  qed
  then show ?case
    using f(1) by (intro exI [of _ "[FinalChain f]"]) simp
next
  case (Cons c cs)
  have idx: "idx_ok (int i)" using Cons.prems by simp
  obtain ck st1 ch1 where ck: "hc_add_chunk P (rs i) (sps i) srv c (int i) st0 = Inr (st1, Some (Chunk ck))"
      and sync: "hc_sync P v k (Suc i) st1 ch1"
    and row: "\<forall>ev stc. sv_strategy v = ''hash_chain'' \<longrightarrow> sc_chain stc = Some ch \<longrightarrow>
      (\<exists>res. on_row P v ev (encode_for_wire (Chunk ck)) stc = Inr (after_hash_chunk ev (encode_chunk ck) ch1 res stc) \<and>
            \<not> hr_checkpoint_missing res \<and> hr_checkpoint res = ckp_due k i \<and>
            (hr_checkpoint res \<longrightarrow> hr_checkpoint_valid res = Some True) \<and>
            hr_aead_ok res = Some True \<and> hr_plaintext res = Some c)"
    using hc_add_honest [OF assms(1) Cons.prems(2) idx, of "rs i" "sps i" c] by blast
  obtain rows where rows: "run_chunks P rs sps srv (HashChain st1) cs (Suc i) = Inr rows" "length rows = length cs + 1"
    and ih: "\<And>evs st sz bd n. carries evs rows \<Longrightarrow> sc_chain st = Some ch1 \<Longrightarrow>
      verdict_of st = good_verdict None (Suc i) n sz False 0 bd \<Longrightarrow>
      \<exists>st'. consume P v t evs st = (st', None) \<and>
        verdict_of st' = good_verdict (Some True) (Suc i + length cs) (n + ckp_count k (Suc i) (length cs) + 1)
          (sz + sum_list (map row_signature_bytes rows)) True 0 (bd @ concat cs)"
    using Cons.IH [of "Suc i" st1 ch1] Cons.prems sync by auto
  have "\<exists>st'. consume P v t evs st = (st', None) \<and> verdict_of st' =
      good_verdict (Some True) (i + length (c # cs)) (n + ckp_count k i (length (c # cs)) + 1)
        (sz + sum_list (map row_signature_bytes (Chunk ck # rows))) True 0 (bd @ concat (c # cs))"
    if evs: "carries evs (Chunk ck # rows)" and ch: "sc_chain st = Some ch"
      and st: "verdict_of st = good_verdict None i n sz False 0 bd" for evs st sz bd n
  proof -
    obtain ev evs' where ev: "evs = ev # evs'" "ev_line ev = DataRow (encode_for_wire (Chunk ck))" "carries evs' rows"
      using evs by (auto simp: carries_Cons)
    have "sc_chain (set_ttft t (ev_arrival ev) st) = Some ch"
      using ch by simp
    then obtain res where r: "on_row P v ev (encode_for_wire (Chunk ck)) (set_ttft t (ev_arrival ev) st) =
        Inr (after_hash_chunk ev (encode_chunk ck) ch1 res (set_ttft t (ev_arrival ev) st))"
      "\<not> hr_checkpoint_missing res" "hr_checkpoint res = ckp_due k i"
      "hr_checkpoint res \<longrightarrow> hr_checkpoint_valid res = Some True" "hr_aead_ok res = Some True" "hr_plaintext res = Some c"
      using row assms(2) by blast
    have "verdict_of (after_hash_chunk ev (encode_chunk ck) ch1 res (set_ttft t (ev_arrival ev) st)) =
        good_verdict None (Suc i) (n + (if ckp_due k i then 1 else 0)) (sz + ck_signature_bytes ck) False 0 (bd @ c)"
      using st r by (simp add: verdict_after_hash_chunk good_verdict_def encode_chunk_def)
    from ih [OF ev(3) chain_after_hash_chunk this] show ?thesis
      using consume_row [OF ev(2) r(1), of evs'] ev(1) by (simp add: add_ac ckp_count_Suc)
  qed
  then show ?case
    using ck rows by (intro exI [of _ "Chunk ck # rows"]) simp
qed

section \<open>buffer_and_sign\<close>

lemma buf_run_add:
  "run_chunks P rs sps srv (BufferAndSign st) cs i =
     run_chunks P rs sps srv (BufferAndSign (st \<lparr> bs_buffer := bs_buffer st @ concat cs \<rparr>)) [] (i + length cs)"
proof (induction cs arbitrary: st i)
  case (Cons c cs)
  show ?case
    using Cons.IH [of "st \<lparr> bs_buffer := bs_buffer st @ c \<rparr>" "Suc i"]
    by (simp add: buf_add_chunk_def bind_res_def split: sum.splits)
qed simp

lemma buf_run_honest:
  assumes m: "matched P srv b v"
  shows "\<exists>rows. run_chunks P rs sps srv (BufferAndSign (buf_init P (sv_handshake_id v) (sv_key v))) cs 0 = Inr rows \<and>
    length rows = 1 \<and>
    (\<forall>evs st. carries evs rows \<longrightarrow> verdict_of st = good_verdict None 0 0 0 False 0 [] \<longrightarrow>
      (\<exists>st'. consume P v t evs st = (st', None) \<and>
        verdict_of st' = good_verdict None 0 1 (sum_list (map row_signature_bytes rows)) True 0 (concat cs)))"
proof -
  let ?n = "length cs"
  let ?st = "(buf_init P (sv_handshake_id v) (sv_key v)) \<lparr> bs_buffer := concat cs \<rparr>"
  obtain a where a: "aead_encrypt P (rs ?n 0) (sv_key v) (concat cs) None = Inr a"
      "decrypt_into P (sv_key v) (ar_nonce a) (ar_ciphertext a) = Inr (Some True, Some (concat cs))"
    using m by (rule matched_encrypt)
  let ?msg = "buffered_message (stream_context P (sv_handshake_id v)) (ar_nonce a) (ar_ciphertext a)"
  obtain sg where sg: "srv_sign P (rs ?n (Suc 0)) (sps ?n) srv (sv_handshake_id v) ?msg = Inr (sg, mk_sign_meta (sps ?n) sg)"
      "\<forall>sp'. cl_verify P sp' (sv_client v) ?msg sg (sv_sig_public_key v) = Inr (True, mk_verify_meta sp')"
    by (rule matched_sign [OF m, of "rs ?n (Suc 0)" "sps ?n" ?msg])
  let ?f = "\<lparr> fb_nonce = ar_nonce a, fb_ciphertext = ar_ciphertext a, fb_signature = sg,
     fb_sign_ms = sign_ms (mk_sign_meta (sps ?n) sg), fb_sign_cpu_ms = sign_cpu_ms (mk_sign_meta (sps ?n) sg),
     fb_signature_bytes = length sg \<rparr>"
  have run: "run_chunks P rs sps srv (BufferAndSign (buf_init P (sv_handshake_id v) (sv_key v))) cs 0 = Inr [FinalBuffered ?f]"
    unfolding buf_run_add [of _ _ _ _ _ cs] by (simp add: buf_finalize_def buf_init_def a sg)
  have "\<exists>st'. consume P v t evs st = (st', None) \<and>
      verdict_of st' = good_verdict None 0 1 (length sg) True 0 (concat cs)"
    if evs: "carries evs [FinalBuffered ?f]" and st: "verdict_of st = good_verdict None 0 0 0 False 0 []" for evs st
  proof -
    obtain ev where ev: "evs = [ev]" "ev_line ev = DataRow (encode_for_wire (FinalBuffered ?f))"
      using evs by (auto simp: carries_Cons)
    obtain res fe where r: "on_row P v ev (encode_for_wire (FinalBuffered ?f)) (set_ttft t (ev_arrival ev) st) =
        Inr (after_final_buffered fe res (set_ttft t (ev_arrival ev) st))"
      "br_signature_valid res" "br_aead_ok res = Some True" "br_plaintext res = Some (concat cs)"
      "fb_signature_bytes fe = length sg"
      by (simp add: on_row_def on_final_buffered_def verify_buffer_and_sign_final_def Let_def spec [OF sg(2)] a(2))
    show ?thesis
      using consume_row [OF ev(2) r(1), of "[]"] r(2-5) st ev(1)
      by (simp add: verdict_after_finals good_verdict_def)
  qed
  then show ?thesis
    using run by (intro exI [of _ "[FinalBuffered ?f]"]) simp
qed

section \<open>The contract the generator relies on\<close>

text \<open>A finished stream: the client saw the terminal record, every check passed, the text is \<open>bd\<close>.\<close>

definition delivered :: "stream_client \<Rightarrow> bytes \<Rightarrow> nat \<Rightarrow> nat \<Rightarrow> bool" where
  "delivered st bd n sz \<longleftrightarrow> sc_terminal_seen st \<and> sm_all_signatures_valid (sc_metrics st) \<and> sm_all_aead_ok (sc_metrics st)
     \<and> sm_all_in_order (sc_metrics st) \<and> sm_stream_fully_verified (sc_metrics st) \<noteq> Some False
     \<and> sc_reconstructed st = bd \<and> sm_n_signatures (sc_metrics st) = n \<and> sm_total_signature_bytes (sc_metrics st) = sz"

lemma delivered_verdict:
  "verdict_of st = good_verdict ver m n sz True e bd \<Longrightarrow> ver \<noteq> Some False \<Longrightarrow> delivered st bd n sz"
  by (simp add: verdict_of_def good_verdict_def delivered_def)

lemma delivered_wrap_up:
  assumes "delivered st bd n sz"
  shows "sm_stream_fully_verified (wrap_up t now st) = Some True" "sm_reconstructed_bytes (wrap_up t now st) = length bd"
    "sm_n_signatures (wrap_up t now st) = n" "sm_total_signature_bytes (wrap_up t now st) = sz"
  using assms by (auto simp: wrap_up_def delivered_def Let_def)

lemma delivered_ttft [simp]: "delivered (set_ttft t a st) bd n sz = delivered st bd n sz"
  by (simp add: delivered_def set_ttft_def)

definition fresh_metrics :: "stream_metrics \<Rightarrow> bool" where
  "fresh_metrics m \<longleftrightarrow> (\<exists>c s n x k h. m = (init_metrics c s n x k) \<lparr> sm_handshake_ms := h \<rparr>)"

lemma fresh_start:
  "fresh_metrics m \<Longrightarrow> verdict_of (start_client P v k m) = good_verdict None 0 0 0 False 0 []"
  by (auto simp: fresh_metrics_def verdict_of_def start_client_def init_metrics_def good_verdict_def)

locale stream_contract =
  fixes name :: string
    and init :: "prims \<Rightarrow> string \<Rightarrow> bytes \<Rightarrow> int option \<Rightarrow> strategy"
    and n_sigs :: "int option \<Rightarrow> nat \<Rightarrow> nat"
  assumes registered: "get_server_strategy P name h key k = Inr (init P h key k)"
    and honest: "matched P srv b v \<Longrightarrow> sv_strategy v = name \<Longrightarrow> length cs < 2 ^ 32 \<Longrightarrow>
      \<exists>rows. run_chunks P rs sps srv (init P (sv_handshake_id v) (sv_key v) k) cs 0 = Inr rows \<and>
        (\<forall>evs m. carries evs rows \<longrightarrow> fresh_metrics m \<longrightarrow>
          (\<exists>st'. consume P v t evs (start_client P v k m) = (st', None) \<and>
            delivered st' (concat cs) (n_sigs k (length cs)) (sum_list (map row_signature_bytes rows))))"
begin

lemma honest_rows:
  assumes "matched P srv b v" "sv_strategy v = name" "length cs < 2 ^ 32"
  obtains rows where "run_chunks P rs sps srv (init P (sv_handshake_id v) (sv_key v) k) cs 0 = Inr rows"
    and "\<forall>evs m. carries evs rows \<longrightarrow> fresh_metrics m \<longrightarrow>
          (\<exists>st'. consume P v t evs (start_client P v k m) = (st', None) \<and>
            delivered st' (concat cs) (n_sigs k (length cs)) (sum_list (map row_signature_bytes rows)))"
    and "\<forall>row \<in> set rows. row_sizes_honest row"
  using honest [OF assms, of rs sps k t] run_chunks_sizes by blast

text \<open>The same events with blank lines in between and a closing \<^verbatim>\<open>done\<close> event give the same outcome.\<close>

lemma honest_lines:
  assumes "matched P srv b v" "sv_strategy v = name" "length cs < 2 ^ 32"
    and "run_chunks P rs sps srv (init P (sv_handshake_id v) (sv_key v) k) cs 0 = Inr rows"
    and "map ev_line (filter (\<lambda>ev. ev_line ev \<noteq> NonData) evs) = map (\<lambda>row. DataRow (encode_for_wire row)) rows @ [DataOther]"
    and "fresh_metrics m"
  obtains st' where "consume P v t evs (start_client P v k m) = (st', None)"
    and "delivered st' (concat cs) (n_sigs k (length cs)) (sum_list (map row_signature_bytes rows))"
proof -
  let ?evs = "filter (\<lambda>ev. ev_line ev \<noteq> NonData) evs"
  obtain evs1 e where e: "?evs = evs1 @ [e]" "carries evs1 rows" "ev_line e = DataOther"
    using assms(5) by (auto simp: carries_def map_eq_append_conv)
  obtain st1 where st1: "consume P v t evs1 (start_client P v k m) = (st1, None)"
      "delivered st1 (concat cs) (n_sigs k (length cs)) (sum_list (map row_signature_bytes rows))"
    using honest [OF assms(1-3), of rs sps k t] assms(4,6) e(2) by auto
  have "consume P v t evs (start_client P v k m) = (set_ttft t (ev_arrival e) st1, None)"
    using consume_skip [of P v t evs "start_client P v k m"] st1(1) e(1,3) by (simp add: consume_append on_event_def)
  then show ?thesis
    using that st1(2) by simp
qed

end

interpretation pc_stream: stream_contract "''per_chunk''" "\<lambda>P h key k. PerChunk (pc_init P h key)" "\<lambda>k n. n + 1"
proof
  fix P srv b v rs sps k t and cs :: "bytes list"
  assume "matched P srv b v" "sv_strategy v = ''per_chunk''" "length cs < 2 ^ 32"
  then obtain rows where "run_chunks P rs sps srv (PerChunk (pc_init P (sv_handshake_id v) (sv_key v))) cs 0 = Inr rows"
    and *: "\<forall>evs st sz body k. carries evs rows \<longrightarrow> verdict_of st = good_verdict None 0 k sz False 0 body \<longrightarrow>
      (\<exists>st'. consume P v t evs st = (st', None) \<and>
        verdict_of st' = good_verdict (Some True) (length cs) (k + length cs + 1)
          (sz + sum_list (map row_signature_bytes rows)) True (int (length cs)) (body @ concat cs))"
    using pc_run_honest [of P srv b v 0 cs rs sps t] by auto
  then show "\<exists>rows. run_chunks P rs sps srv (PerChunk (pc_init P (sv_handshake_id v) (sv_key v))) cs 0 = Inr rows \<and>
        (\<forall>evs m. carries evs rows \<longrightarrow> fresh_metrics m \<longrightarrow>
          (\<exists>st'. consume P v t evs (start_client P v k m) = (st', None) \<and>
            delivered st' (concat cs) (length cs + 1) (sum_list (map row_signature_bytes rows))))"
    using * [rule_format, OF _ fresh_start] by (fastforce intro: delivered_verdict)
qed (simp add: get_server_strategy_def)

interpretation hc_stream: stream_contract "''hash_chain''" "\<lambda>P h key k. HashChain (hc_init P h key k)"
  "\<lambda>k n. ckp_count k 0 n + 1"
proof
  fix P srv b v rs sps k t and cs :: "bytes list"
  assume v: "matched P srv b v" "sv_strategy v = ''hash_chain''" "length cs < 2 ^ 32"
  then obtain rows where rows: "run_chunks P rs sps srv (HashChain (hc_init P (sv_handshake_id v) (sv_key v) k)) cs 0 = Inr rows"
    and *: "\<forall>evs st sz bd n. carries evs rows \<longrightarrow> sc_chain st = Some (chain_init P (sv_handshake_id v) k) \<longrightarrow>
       verdict_of st = good_verdict None 0 n sz False 0 bd \<longrightarrow>
      (\<exists>st'. consume P v t evs st = (st', None) \<and>
        verdict_of st' = good_verdict (Some True) (length cs) (n + ckp_count k 0 (length cs) + 1)
          (sz + sum_list (map row_signature_bytes rows)) True 0 (bd @ concat cs))"
    using hc_run_honest [OF v(1,2) _ hc_sync_init, where cs = cs and rs = rs and sps = sps and t = t and k = k] v(3) by auto
  have ch: "sc_chain (start_client P v k m) = Some (chain_init P (sv_handshake_id v) k)" for m
    using v(2) by (simp add: start_client_def)
  show "\<exists>rows. run_chunks P rs sps srv (HashChain (hc_init P (sv_handshake_id v) (sv_key v) k)) cs 0 = Inr rows \<and>
        (\<forall>evs m. carries evs rows \<longrightarrow> fresh_metrics m \<longrightarrow>
          (\<exists>st'. consume P v t evs (start_client P v k m) = (st', None) \<and>
            delivered st' (concat cs) (ckp_count k 0 (length cs) + 1) (sum_list (map row_signature_bytes rows))))"
    using rows * [rule_format, OF _ ch fresh_start] by (fastforce intro: delivered_verdict)
qed (simp add: get_server_strategy_def)

interpretation buf_stream: stream_contract "''buffer_and_sign''" "\<lambda>P h key k. BufferAndSign (buf_init P h key)" "\<lambda>k n. 1"
proof
  fix P srv b v rs sps k t and cs :: "bytes list"
  assume v: "matched P srv b v"
  obtain rows where rows: "run_chunks P rs sps srv (BufferAndSign (buf_init P (sv_handshake_id v) (sv_key v))) cs 0 = Inr rows"
    and *: "\<forall>evs st. carries evs rows \<longrightarrow> verdict_of st = good_verdict None 0 0 0 False 0 [] \<longrightarrow>
      (\<exists>st'. consume P v t evs st = (st', None) \<and>
        verdict_of st' = good_verdict None 0 1 (sum_list (map row_signature_bytes rows)) True 0 (concat cs))"
    using buf_run_honest [OF v] by blast
  show "\<exists>rows. run_chunks P rs sps srv (BufferAndSign (buf_init P (sv_handshake_id v) (sv_key v))) cs 0 = Inr rows \<and>
        (\<forall>evs m. carries evs rows \<longrightarrow> fresh_metrics m \<longrightarrow>
          (\<exists>st'. consume P v t evs (start_client P v k m) = (st', None) \<and>
            delivered st' (concat cs) 1 (sum_list (map row_signature_bytes rows))))"
    using rows * [rule_format, OF _ fresh_start] by (fastforce intro: delivered_verdict)
qed (simp add: get_server_strategy_def)

end
