(* ===== verification/StreamApp.thy ===== *)
theory StreamApp
  imports SecureApp StreamHonest
begin

text \<open>
  The streaming endpoint of \<^verbatim>\<open>api/secure_app.py\<close> (\<^verbatim>\<open>secure_predict_stream\<close>): the request
  handling up to the response, and the generator that groups tokens into chunks, signs them with
  the chosen strategy, closes the stream and forgets the handshake. The iterator bridge of
  \<^verbatim>\<open>api/async_bridge.py\<close> yields the backend's tokens in order; they are the list argument.
\<close>

section \<open>The generator\<close>

record generator =
  gn_strategy :: strategy
  gn_index :: nat
  gn_buffer :: "string list"

text \<open>\<^verbatim>\<open>aiter_sync_generator\<close>: items until the sentinel (the end of the iterator).\<close>

fun aiter_sync :: "'a option list \<Rightarrow> 'a list" where
  "aiter_sync [] = []"
| "aiter_sync (None # _) = []"
| "aiter_sync (Some x # xs) = x # aiter_sync xs"

definition flush_buffer ::
  "prims \<Rightarrow> (nat \<Rightarrow> rng) \<Rightarrow> (nat \<Rightarrow> span) \<Rightarrow> server_crypto \<Rightarrow> generator \<Rightarrow> (generator \<times> bytes row option) res" where
  "flush_buffer P rs sps srv g =
     (if gn_buffer g = [] then Inr (g, None)
      else bind_res (strat_add_chunk P (rs (gn_index g)) (sps (gn_index g)) srv (encode (concat (gn_buffer g)))
                       (int (gn_index g)) (gn_strategy g)) (\<lambda>(st', wire_chunk).
           Inr (\<lparr> gn_strategy = st', gn_index = gn_index g + 1, gn_buffer = [] \<rparr>, wire_chunk)))"

definition emit :: "bytes row option \<Rightarrow> bytes row list \<Rightarrow> bytes row list" where
  "emit out rows = (case out of None \<Rightarrow> rows | Some row \<Rightarrow> row # rows)"

text \<open>The rows sent, and the number of chunks reported by the closing event.\<close>

fun event_generator ::
  "prims \<Rightarrow> (nat \<Rightarrow> rng) \<Rightarrow> (nat \<Rightarrow> span) \<Rightarrow> server_crypto \<Rightarrow> nat \<Rightarrow> string list \<Rightarrow> generator \<Rightarrow> (bytes row list \<times> nat) res" where
  "event_generator P rs sps srv chunk_size [] g =
     bind_res (flush_buffer P rs sps srv g) (\<lambda>(g', trailing).
     bind_res (strat_finalize P (rs (gn_index g')) (sps (gn_index g')) srv (int (gn_index g')) (gn_strategy g')) (\<lambda>final.
     Inr (emit trailing (emit final []), gn_index g')))"
| "event_generator P rs sps srv chunk_size (token # tokens) g =
     (let g1 = g \<lparr> gn_buffer := gn_buffer g @ [token] \<rparr> in
      if chunk_size \<le> length (gn_buffer g1) then
        bind_res (flush_buffer P rs sps srv g1) (\<lambda>(g2, sse_line).
        bind_res (event_generator P rs sps srv chunk_size tokens g2) (\<lambda>(rows, n).
        Inr (emit sse_line rows, n)))
      else event_generator P rs sps srv chunk_size tokens g1)"

text \<open>The lines of the response: each event is followed by a blank line.\<close>

definition sse_lines :: "bytes row list \<Rightarrow> sse_line list" where
  "sse_lines rows = concat (map (\<lambda>row. [DataRow (encode_for_wire row), NonData]) rows) @ [NonData, DataOther, NonData]"

section \<open>The handler\<close>

definition strategy_name :: "json \<Rightarrow> string res" where
  "strategy_name j =
     (case j of JStr s \<Rightarrow> Inr s | JList _ \<Rightarrow> Inl TypeError | JObj _ \<Rightarrow> Inl TypeError
      | _ \<Rightarrow> Inl (HTTPException 400))"

text \<open>
  An absent or null interval is \<^verbatim>\<open>None\<close>. The interval is only tested for truth and compared with a
  count, so a fraction acts as the next integer away from zero. A non-empty string, list or object, for which
  that comparison would raise in the middle of the stream, is taken as absent.
\<close>

definition interval_of :: "json \<Rightarrow> int option" where
  "interval_of j = (case j of JInt k \<Rightarrow> Some k | JBool b \<Rightarrow> Some (if b then 1 else 0)
     | JFloat x \<Rightarrow> Some (if 0 \<le> x then \<lceil>x\<rceil> else \<lfloor>x\<rfloor>) | _ \<Rightarrow> None)"

record stream_params =
  sp_prompt :: json
  sp_chunk_size :: int
  sp_max_tokens :: int
  sp_strategy :: strategy

definition parse_stream_body :: "prims \<Rightarrow> string \<Rightarrow> bytes \<Rightarrow> json \<Rightarrow> stream_params res" where
  "parse_stream_body P hid session_key body =
     bind_res (body_get body ''prompt'' (JStr [])) (\<lambda>prompt.
     bind_res (body_get body ''strategy'' (JStr ''buffer_and_sign'')) (\<lambda>strategy_json.
     bind_res (bind_res (body_get body ''chunk_size_tokens'' (JInt 5)) py_int) (\<lambda>chunk_size.
     bind_res (bind_res (body_get body ''max_tokens'' (JInt 200)) py_int) (\<lambda>max_tokens.
     bind_res (body_get body ''checkpoint_interval'' JNull) (\<lambda>interval.
     bind_res (strategy_name strategy_json) (\<lambda>name.
     case get_server_strategy P name hid session_key (interval_of interval) of
       Inl ValueError \<Rightarrow> Inl (HTTPException 400)
     | Inl e \<Rightarrow> Inl e
     | Inr st \<Rightarrow> Inr \<lparr> sp_prompt = prompt, sp_chunk_size = max 1 chunk_size, sp_max_tokens = max 1 max_tokens,
                       sp_strategy = st \<rparr>))))))"

text \<open>
  The handler up to the moment the response starts. It leaves the state as it is: the handshake
  is forgotten only when the generator has run to its end.
\<close>

definition open_stream_request ::
  "prims \<Rightarrow> span \<Rightarrow> secure_predict_request \<Rightarrow> app \<Rightarrow> stream_params res" where
  "open_stream_request P sp req app =
     bind_res (decode_request req) (\<lambda>(kex_blob, req_nonce, req_ciphertext).
     bind_res (accept_request P sp (ap_crypto app) (rq_handshake_id req) kex_blob) (\<lambda>(session_key, _).
     bind_res (open_request P session_key req_nonce req_ciphertext) (\<lambda>plaintext.
     bind_res (case json_loads P plaintext of None \<Rightarrow> Inl JSONDecodeError | Some b \<Rightarrow> Inr b) (\<lambda>body.
     parse_stream_body P (rq_handshake_id req) session_key body))))"

text \<open>
  A whole streaming request: the outer result is the HTTP response (an exception before it
  starts), the inner one the body, cut short when the generator raises.
\<close>

definition secure_predict_stream ::
  "prims \<Rightarrow> (json \<Rightarrow> int \<Rightarrow> string list) \<Rightarrow> (nat \<Rightarrow> rng) \<Rightarrow> (nat \<Rightarrow> span) \<Rightarrow> span \<Rightarrow> secure_predict_request \<Rightarrow> app
     \<Rightarrow> app \<times> ((bytes row list \<times> nat) res) res" where
  "secure_predict_stream P backend rs sps sp req app =
     (case open_stream_request P sp req app of
        Inl e \<Rightarrow> (app, Inl e)
      | Inr params \<Rightarrow>
          let body = event_generator P rs sps (ap_crypto app) (nat (sp_chunk_size params))
                       (backend (sp_prompt params) (sp_max_tokens params))
                       \<lparr> gn_strategy = sp_strategy params, gn_index = 0, gn_buffer = [] \<rparr> in
          ((case body of Inl _ \<Rightarrow> app
            | Inr _ \<Rightarrow> app \<lparr> ap_crypto := srv_forget (rq_handshake_id req) (ap_crypto app) \<rparr>),
           Inr body))"

section \<open>Grouping tokens into chunks\<close>

text \<open>What the generator is meant to send: \<open>chunk_size\<close> tokens at a time, the rest at the end.\<close>

fun groups :: "nat \<Rightarrow> string list \<Rightarrow> string list \<Rightarrow> bytes list" where
  "groups k buf [] = (if buf = [] then [] else [encode (concat buf)])"
| "groups k buf (t # ts) =
     (if k \<le> Suc (length buf) then encode (concat (buf @ [t])) # groups k [] ts else groups k (buf @ [t]) ts)"

lemma groups_concat: "concat (groups k buf ts) = encode (concat (buf @ ts))"
  by (induction k buf ts rule: groups.induct) (auto simp: encode_def)

lemma Suc_div_add: "0 < k \<Longrightarrow> Suc (a div k) = (a + k) div (k::nat)"
  by simp

lemma groups_length:
  assumes "0 < k" "length buf < k"
  shows "length (groups k buf ts) = (length buf + length ts + k - 1) div k"
  using assms
proof (induction k buf ts rule: groups.induct)
  case (1 k buf)
  then show ?case
    by (cases buf) (auto simp: div_eq_0_iff intro!: div_nat_eqI [symmetric])
next
  case (2 k buf t ts)
  show ?case
  proof (cases "k \<le> Suc (length buf)")
    case True
    then have k: "k = Suc (length buf)" using 2 by simp
    have "length (groups k buf (t # ts)) = Suc ((length ts + k - 1) div k)"
      using True 2 by simp
    also have "\<dots> = ((length ts + k - 1) + k) div k"
      using \<open>0 < k\<close> by (rule Suc_div_add)
    also have "(length ts + k - 1) + k = length buf + length (t # ts) + k - 1"
      using k by simp
    finally show ?thesis .
  qed (use 2 in simp)
qed

lemma groups_length_le: "length (groups k buf ts) \<le> length ts + 1"
  by (induction k buf ts rule: groups.induct) auto

lemma event_generator_groups:
  "event_generator P rs sps srv k ts \<lparr> gn_strategy = st, gn_index = i, gn_buffer = buf \<rparr> =
     map_sum id (\<lambda>rows. (rows, i + length (groups k buf ts))) (run_chunks P rs sps srv st (groups k buf ts) i)"
proof (induction ts arbitrary: st i buf)
  case Nil
  show ?case
    by (cases "buf = []") (auto simp: flush_buffer_def emit_def bind_res_def split: sum.splits option.splits)
next
  case (Cons t ts)
  show ?case
  proof (cases "k \<le> Suc (length buf)")
    case True
    then show ?thesis
      using Cons.IH [of _ "Suc i" "[]"]
      by (auto simp: flush_buffer_def emit_def bind_res_def Let_def split: sum.splits option.splits)
  qed (use Cons.IH [of st i "buf @ [t]"] in simp)
qed

end
