(* ===== verification/StreamTransaction.thy ===== *)
theory StreamTransaction
  imports StreamApp
begin

text \<open>
  Both ends of the streaming protocol wired together: the client's
  \<^verbatim>\<open>run_streaming_transaction\<close> against the handler \<^verbatim>\<open>secure_predict_stream\<close>, over a network that
  delivers every line. For each strategy, through its interpretation of \<open>stream_contract\<close>, the
  transaction ends verified with the backend's text.
\<close>

section \<open>The wire\<close>

text \<open>Line \<open>j\<close> of the response arrives when the clock of the client shows \<open>clk j\<close>.\<close>

definition deliver :: "(nat \<Rightarrow> rat \<times> span \<times> rat) \<Rightarrow> sse_line list \<Rightarrow> sse_event list" where
  "deliver clk ls = map (\<lambda>(j, l). \<lparr> ev_line = l, ev_arrival = fst (clk j), ev_span = fst (snd (clk j)),
                                    ev_now = snd (snd (clk j)) \<rparr>) (zip [0..<length ls] ls)"

lemma deliver_lines [simp]: "map ev_line (deliver clk ls) = ls"
  by (intro nth_equalityI) (simp_all add: deliver_def)

text \<open>A response without a body is an HTTP status; a body cut short is a broken connection.\<close>

definition stream_over ::
  "prims \<Rightarrow> (json \<Rightarrow> int \<Rightarrow> string list) \<Rightarrow> (nat \<Rightarrow> rng) \<Rightarrow> (nat \<Rightarrow> span) \<Rightarrow> span \<Rightarrow> (nat \<Rightarrow> rat \<times> span \<times> rat) \<Rightarrow> app
     \<Rightarrow> secure_predict_request \<Rightarrow> (nat \<times> sse_event list) res" where
  "stream_over P backend rs sps sp clk app req =
     (case snd (secure_predict_stream P backend rs sps sp req app) of
        Inl (HTTPException c) \<Rightarrow> Inr (c, [])
      | Inl _ \<Rightarrow> Inr (500, [])
      | Inr (Inl e) \<Rightarrow> Inl RuntimeError
      | Inr (Inr (rows, _)) \<Rightarrow> Inr (200, deliver clk (sse_lines rows)))"

text \<open>The handshake object is the one the server issued for the bundle \<open>b\<close>.\<close>

definition issued_for :: "json_strings \<Rightarrow> handshake_bundle \<Rightarrow> bool" where
  "issued_for hs b \<longleftrightarrow> hs ''handshake_id'' = Some (hb_handshake_id b)
     \<and> hs ''kex_public_key'' = Some (b64e (hb_kex_public_key b))
     \<and> hs ''sig_public_key'' = Some (b64e (hb_sig_public_key b))"

section \<open>The lines of a response\<close>

lemma sse_lines_data:
  "map ev_line (filter (\<lambda>ev. ev_line ev \<noteq> NonData) (deliver clk (sse_lines rows))) =
     map (\<lambda>row. DataRow (encode_for_wire row)) rows @ [DataOther]"
proof -
  have *: "map ev_line (filter (\<lambda>ev. Q (ev_line ev)) evs) = filter Q (map ev_line evs)" for Q :: "sse_line \<Rightarrow> bool" and evs
    by (induction evs) auto
  have "filter (\<lambda>l. l \<noteq> NonData) (concat (map (\<lambda>row. [DataRow (encode_for_wire row), NonData]) rows)) =
      map (\<lambda>row. DataRow (encode_for_wire row)) rows"
    by (induction rows) auto
  then show ?thesis
    unfolding * [of "\<lambda>l. l \<noteq> NonData"] by (simp add: sse_lines_def)
qed

section \<open>Opening a stream\<close>

lemma open_stream_honest:
  assumes "prims_ok P" "srv_holds P srv b" "issued_for hs b"
  obtains v req where "open_stream P r sp (server_client srv) strategy body hs = Inr (v, req)"
    and "matched P srv b v" "sv_strategy v = strategy" "rq_handshake_id req = hb_handshake_id b"
    and "\<forall>(app :: app) sp'. ap_crypto app = srv \<longrightarrow> json_loads P (json_dumps P body) = Some body \<longrightarrow>
      open_stream_request P sp' req app = parse_stream_body P (hb_handshake_id b) (sv_key v) body"
proof -
  have ok: "aead_ok P" using assms(1) by (simp add: prims_ok_def)
  obtain e m where e: "cl_establish P r sp (server_client srv) (hb_kex_public_key b) = Inr e" "gcm_key_ok P (er_session_key e)"
    using srv_agree [OF assms(1,2), of r sp] by blast
  have acc: "\<exists>m. srv_accept P sp' srv (hb_handshake_id b) (er_kex_blob e) = Inr (er_session_key e, m)" for sp'
    using srv_agree [OF assms(1,2), of r sp sp'] e(1) by auto
  obtain a where a: "aead_encrypt P (r 2) (er_session_key e) (json_dumps P body) None = Inr a"
    using e(2) by (simp add: aead_encrypt_eq_Inr)
  note dec = aead_round_trip [OF ok a]
  have signs: "signs_ok P srv b"
    using srv_holds_signs_ok [OF assms(1,2)] .
  show ?thesis
  proof (rule that)
    show "open_stream P r sp (server_client srv) strategy body hs =
        Inr (\<lparr> sv_client = server_client srv, sv_key = er_session_key e, sv_sig_public_key = hb_sig_public_key b,
            sv_handshake_id = hb_handshake_id b, sv_strategy = strategy \<rparr>,
          \<lparr> rq_handshake_id = hb_handshake_id b, rq_kex_blob = b64e (er_kex_blob e),
            rq_nonce = b64e (ar_nonce a), rq_ciphertext = b64e (ar_ciphertext a), rq_keep_session = False \<rparr>)"
      using assms(3) by (simp add: open_stream_def issued_for_def e a)
    show "\<forall>(app :: app) sp'. ap_crypto app = srv \<longrightarrow> json_loads P (json_dumps P body) = Some body \<longrightarrow>
        open_stream_request P sp' \<lparr> rq_handshake_id = hb_handshake_id b, rq_kex_blob = b64e (er_kex_blob e),
            rq_nonce = b64e (ar_nonce a), rq_ciphertext = b64e (ar_ciphertext a), rq_keep_session = False \<rparr> app =
        parse_stream_body P (hb_handshake_id b)
          (sv_key \<lparr> sv_client = server_client srv, sv_key = er_session_key e, sv_sig_public_key = hb_sig_public_key b,
            sv_handshake_id = hb_handshake_id b, sv_strategy = strategy \<rparr>) body"
    proof (intro allI impI)
      fix app :: app and sp' assume app: "ap_crypto app = srv" and j: "json_loads P (json_dumps P body) = Some body"
      obtain m' where "srv_accept P sp' srv (hb_handshake_id b) (er_kex_blob e) = Inr (er_session_key e, m')"
        using acc by blast
      then show "open_stream_request P sp' \<lparr> rq_handshake_id = hb_handshake_id b, rq_kex_blob = b64e (er_kex_blob e),
            rq_nonce = b64e (ar_nonce a), rq_ciphertext = b64e (ar_ciphertext a), rq_keep_session = False \<rparr> app =
        parse_stream_body P (hb_handshake_id b)
          (sv_key \<lparr> sv_client = server_client srv, sv_key = er_session_key e, sv_sig_public_key = hb_sig_public_key b,
            sv_handshake_id = hb_handshake_id b, sv_strategy = strategy \<rparr>) body"
        by (simp add: open_stream_request_def decode_request_def accept_request_def open_request_def app dec j)
    qed
  qed (simp_all add: matched_def ok e(2) signs)
qed

section \<open>A whole transaction\<close>

definition chunk_groups :: "int \<Rightarrow> string list \<Rightarrow> bytes list" where
  "chunk_groups chunk_size tokens = groups (nat (max 1 chunk_size)) [] tokens"

lemma chunk_groups_concat: "concat (chunk_groups c ts) = encode (concat ts)"
  by (simp add: chunk_groups_def groups_concat)

lemma chunk_groups_length: "length (chunk_groups c ts) = (length ts + nat (max 1 c) - 1) div nat (max 1 c)"
  by (simp add: chunk_groups_def groups_length)

lemma chunk_groups_le: "length (chunk_groups c ts) \<le> length ts + 1"
  by (simp add: chunk_groups_def groups_length_le del: One_nat_def)

lemma fresh_init [simp]: "fresh_metrics ((init_metrics c s n x k) \<lparr> sm_handshake_ms := h \<rparr>)"
  unfolding fresh_metrics_def by blast

lemma metrics_error [simp]: "sm_error (wrap_up t now st) = sm_error (sc_metrics st)"
  by (simp add: wrap_up_def Let_def)

context stream_contract
begin

lemma parse_request:
  "parse_stream_body P h key (stream_request_body prompt name c mx k) =
     Inr \<lparr> sp_prompt = JStr prompt, sp_chunk_size = max 1 c, sp_max_tokens = max 1 mx, sp_strategy = init P h key k \<rparr>"
  by (cases k) (simp_all add: parse_stream_body_def stream_request_body_def body_get_def py_int_def strategy_name_def
      interval_of_def registered)

text \<open>What the server answers to the request of a client of its handshake.\<close>

lemma response:
  assumes "prims_ok P" "srv_holds P (ap_crypto app) b" "issued_for hs b"
    and "json_loads P (json_dumps P (stream_request_body prompt name c mx k)) = Some (stream_request_body prompt name c mx k)"
    and "length (backend (JStr prompt) (max 1 mx)) + 1 < 2 ^ 32"
  obtains v req rows where
      "open_stream P r sp (server_client (ap_crypto app)) name (stream_request_body prompt name c mx k) hs = Inr (v, req)"
    and "matched P (ap_crypto app) b v" "sv_strategy v = name"
    and "length (chunk_groups c (backend (JStr prompt) (max 1 mx))) < 2 ^ 32"
    and "run_chunks P rs sps (ap_crypto app) (init P (sv_handshake_id v) (sv_key v) k)
           (chunk_groups c (backend (JStr prompt) (max 1 mx))) 0 = Inr rows"
    and "stream_over P backend rs sps sp' clk app req = Inr (200, deliver clk (sse_lines rows))"
proof -
  let ?ts = "backend (JStr prompt) (max 1 mx)"
  let ?cs = "chunk_groups c ?ts"
  let ?srv = "ap_crypto app"
  let ?body = "stream_request_body prompt name c mx k"
  obtain v req where v: "open_stream P r sp (server_client ?srv) name ?body hs = Inr (v, req)"
      "matched P ?srv b v" "sv_strategy v = name" "rq_handshake_id req = hb_handshake_id b"
      and *: "\<forall>(app' :: app) sp'. ap_crypto app' = ?srv \<longrightarrow> json_loads P (json_dumps P ?body) = Some ?body \<longrightarrow>
        open_stream_request P sp' req app' = parse_stream_body P (hb_handshake_id b) (sv_key v) ?body"
    by (rule open_stream_honest [OF assms(1-3), of r sp name ?body])
  have opened: "open_stream_request P sp' req app = parse_stream_body P (hb_handshake_id b) (sv_key v) ?body"
    by (rule mp [OF mp [OF spec [OF spec [OF *]] refl] assms(4)])
  have len: "length ?cs < 2 ^ 32"
    using chunk_groups_le [of c ?ts] assms(5) by linarith
  have hid: "sv_handshake_id v = hb_handshake_id b"
    using v(2) by (simp add: matched_def)
  fix t :: rat
  obtain rows where rows: "run_chunks P rs sps ?srv (init P (sv_handshake_id v) (sv_key v) k) ?cs 0 = Inr rows"
    by (rule exE [OF honest [OF v(2,3) len, of rs sps k t]]) (rule that, elim conjE)
  have gen: "event_generator P rs sps ?srv (nat (max 1 c)) ?ts
      \<lparr> gn_strategy = init P (hb_handshake_id b) (sv_key v) k, gn_index = 0, gn_buffer = [] \<rparr> = Inr (rows, length ?cs)"
    using rows by (simp add: event_generator_groups chunk_groups_def hid)
  have "stream_over P backend rs sps sp' clk app req = Inr (200, deliver clk (sse_lines rows))"
    by (simp add: stream_over_def secure_predict_stream_def opened parse_request gen Let_def)
  then show ?thesis
    by (rule that [OF v(1-3) len rows])
qed

text \<open>The transaction down to its rows, and the state of the client that consumed them.\<close>

lemma transaction_rows:
  assumes "prims_ok P" "srv_holds P (ap_crypto app) b" "issued_for hs b"
    and "get_client_crypto config = Inr (server_client (ap_crypto app))"
    and "json_loads P (json_dumps P (stream_request_body prompt name c mx k)) = Some (stream_request_body prompt name c mx k)"
    and "length (backend (JStr prompt) (max 1 mx)) + 1 < 2 ^ 32"
    and "nt_handshake net = Inr (hs, hms)" "nt_stream net = stream_over P backend rs sps sp' clk app"
  obtains v rows st where "matched P (ap_crypto app) b v" "sv_strategy v = name"
    and "run_chunks P rs sps (ap_crypto app) (init P (sv_handshake_id v) (sv_key v) k)
           (chunk_groups c (backend (JStr prompt) (max 1 mx))) 0 = Inr rows"
    and "consume P v t0 (deliver clk (sse_lines rows))
           (start_client P v k ((init_metrics config name c mx k) \<lparr> sm_handshake_ms := Some hms \<rparr>)) = (st, None)"
    and "delivered st (concat (chunk_groups c (backend (JStr prompt) (max 1 mx))))
           (n_sigs k (length (chunk_groups c (backend (JStr prompt) (max 1 mx))))) (sum_list (map row_signature_bytes rows))"
    and "run_streaming_transaction P r sp net t0 t1 config prompt name c mx k = Inr (wrap_up t0 t1 st, sc_reconstructed st)"
    and "sm_error (sc_metrics st) = None"
proof -
  let ?cs = "chunk_groups c (backend (JStr prompt) (max 1 mx))"
  let ?m = "(init_metrics config name c mx k) \<lparr> sm_handshake_ms := Some hms \<rparr>"
  obtain v req rows where v: "open_stream P r sp (server_client (ap_crypto app)) name (stream_request_body prompt name c mx k) hs = Inr (v, req)"
      "matched P (ap_crypto app) b v" "sv_strategy v = name" "length ?cs < 2 ^ 32"
      "run_chunks P rs sps (ap_crypto app) (init P (sv_handshake_id v) (sv_key v) k) ?cs 0 = Inr rows"
      "stream_over P backend rs sps sp' clk app req = Inr (200, deliver clk (sse_lines rows))"
    by (rule response [where backend = backend, OF assms(1-3,5,6)])
  let ?evs = "deliver clk (sse_lines rows)"
  obtain st where st: "consume P v t0 ?evs (start_client P v k ?m) = (st, None)"
    and d: "delivered st (concat ?cs) (n_sigs k (length ?cs)) (sum_list (map row_signature_bytes rows))"
    by (rule honest_lines [OF v(2-5) sse_lines_data [of clk rows], of ?m t0]) simp_all
  have "run_streaming_transaction P r sp net t0 t1 config prompt name c mx k = Inr (wrap_up t0 t1 st, sc_reconstructed st)"
    using st by (simp add: run_streaming_transaction_def assms(4,7,8) v(1,6) Let_def)
  moreover have "sm_error (sc_metrics st) = None"
    using consume_error [of P v t0 ?evs "start_client P v k ?m"] st by (simp add: start_client_def init_metrics_def)
  ultimately show ?thesis
    by (rule that [OF v(2,3,5) st d])
qed

lemma transaction:
  assumes "prims_ok P" "srv_holds P (ap_crypto app) b" "issued_for hs b"
    and "get_client_crypto config = Inr (server_client (ap_crypto app))"
    and "json_loads P (json_dumps P (stream_request_body prompt name c mx k)) = Some (stream_request_body prompt name c mx k)"
    and "length (backend (JStr prompt) (max 1 mx)) + 1 < 2 ^ 32"
    and "nt_handshake net = Inr (hs, hms)" "nt_stream net = stream_over P backend rs sps sp' clk app"
  obtains st where "run_streaming_transaction P r sp net t0 t1 config prompt name c mx k =
      Inr (wrap_up t0 t1 st, encode (concat (backend (JStr prompt) (max 1 mx))))"
    and "sm_error (sc_metrics st) = None" "\<exists>sz. delivered st (encode (concat (backend (JStr prompt) (max 1 mx))))
      (n_sigs k (length (chunk_groups c (backend (JStr prompt) (max 1 mx))))) sz"
proof -
  obtain st sz where st: "delivered st (concat (chunk_groups c (backend (JStr prompt) (max 1 mx))))
        (n_sigs k (length (chunk_groups c (backend (JStr prompt) (max 1 mx))))) sz"
      "run_streaming_transaction P r sp net t0 t1 config prompt name c mx k = Inr (wrap_up t0 t1 st, sc_reconstructed st)"
      "sm_error (sc_metrics st) = None"
    by (rule transaction_rows [where backend = backend and r = r and sp = sp and ?t0.0 = t0 and ?t1.0 = t1, OF assms]) (rule that)
  have "sc_reconstructed st = encode (concat (backend (JStr prompt) (max 1 mx)))"
    using st(1) by (simp add: delivered_def chunk_groups_concat)
  with st show ?thesis
    using that [of st] unfolding chunk_groups_concat by auto
qed

end

end
