(* ===== verification/AppSteps.thy ===== *)
theory AppSteps
  imports StreamTransaction
begin

text \<open>
  The protected application under concurrent use: its three state-changing routes as a labelled
  step relation (the label is the handshake id a request concerns), and what the requests of
  other sessions leave untouched.
\<close>

section \<open>Steps of the application\<close>

inductive app_step ::
  "prims \<Rightarrow> (json \<Rightarrow> json res) \<Rightarrow> (json \<Rightarrow> int \<Rightarrow> string list) \<Rightarrow> app \<Rightarrow> string \<Rightarrow> app \<Rightarrow> bool"
  for P predict backend where
  app_handshake: "handshake P uuid r sp sp' app = (app', resp) \<Longrightarrow> app_step P predict backend app uuid app'"
| app_predict: "secure_predict P predict r clk dbg req app = (app', resp) \<Longrightarrow>
     app_step P predict backend app (rq_handshake_id req) app'"
| app_stream: "secure_predict_stream P backend rs sps sp req app = (app', resp) \<Longrightarrow>
     app_step P predict backend app (rq_handshake_id req) app'"

inductive app_steps ::
  "prims \<Rightarrow> (json \<Rightarrow> json res) \<Rightarrow> (json \<Rightarrow> int \<Rightarrow> string list) \<Rightarrow> app \<Rightarrow> string list \<Rightarrow> app \<Rightarrow> bool"
  for P predict backend where
  app_refl: "app_steps P predict backend app [] app"
| app_more: "app_step P predict backend app h app1 \<Longrightarrow> app_steps P predict backend app1 hs app2 \<Longrightarrow>
     app_steps P predict backend app (h # hs) app2"

inductive_cases app_stepE: "app_step P predict backend app h app'"
inductive_simps app_steps_Nil [simp]: "app_steps P predict backend app [] app'"
inductive_simps app_steps_Cons: "app_steps P predict backend app (h # hs) app'"

lemma handshake_crypto:
  "handshake P uuid r sp sp' app = (app', resp) \<Longrightarrow> \<exists>rb. srv_new_handshake P uuid r sp None (ap_crypto app) = (ap_crypto app', rb)"
  by (auto simp: handshake_def Let_def split: prod.splits)

lemma session_key_for_crypto: "session_key_for P sp app req blob = (app', x) \<Longrightarrow> ap_crypto app' = ap_crypto app"
  by (auto simp: session_key_for_def split: if_splits sum.splits option.splits)

lemma secure_predict_crypto:
  assumes "secure_predict P predict r clk dbg req app = (app', resp)"
  shows "ap_crypto app' = ap_crypto app \<or> ap_crypto app' = srv_forget (rq_handshake_id req) (ap_crypto app)"
  using assms
  by (auto simp: secure_predict_def Let_def forget_session_def split: sum.splits prod.splits if_splits
      dest!: session_key_for_crypto)

lemma secure_predict_stream_crypto:
  assumes "secure_predict_stream P backend rs sps sp req app = (app', resp)"
  shows "ap_crypto app' = ap_crypto app \<or> ap_crypto app' = srv_forget (rq_handshake_id req) (ap_crypto app)"
  using assms by (auto simp: secure_predict_stream_def Let_def split: sum.splits prod.splits)

lemma app_step_srv:
  assumes "app_step P predict backend app h app'"
  shows "ap_crypto app' = ap_crypto app \<or> srv_step P (ap_crypto app) h (ap_crypto app')"
  using assms
proof (cases rule: app_step.cases)
  case (app_handshake r sp sp' resp)
  then obtain rb where "srv_new_handshake P h r sp None (ap_crypto app) = (ap_crypto app', rb)"
    using handshake_crypto by blast
  then show ?thesis
    using srv_step.step_new [of P h r sp None "ap_crypto app" "ap_crypto app'" rb] by simp
next
  case (app_predict r clk dbg req resp)
  then show ?thesis
    using secure_predict_crypto srv_step.step_forget by metis
next
  case (app_stream rs sps sp req resp)
  then show ?thesis
    using secure_predict_stream_crypto srv_step.step_forget by metis
qed

lemma app_step_keeps:
  assumes "app_step P predict backend app h app'"
  shows "server_client (ap_crypto app') = server_client (ap_crypto app)"
    "srv_holds P (ap_crypto app) b \<Longrightarrow> hb_handshake_id b \<noteq> h \<Longrightarrow> srv_holds P (ap_crypto app') b"
    "k \<noteq> h \<Longrightarrow> srv_live (ap_crypto app') k \<longleftrightarrow> srv_live (ap_crypto app) k"
  using app_step_srv [OF assms] srv_step_client srv_step_holds srv_step_live by metis+

lemma app_steps_keeps:
  assumes "app_steps P predict backend app hs app'"
  shows "server_client (ap_crypto app') = server_client (ap_crypto app)"
    and "srv_holds P (ap_crypto app) b \<Longrightarrow> hb_handshake_id b \<notin> set hs \<Longrightarrow> srv_holds P (ap_crypto app') b"
    and "k \<notin> set hs \<Longrightarrow> srv_live (ap_crypto app') k \<longleftrightarrow> srv_live (ap_crypto app) k"
  using assms by (induction rule: app_steps.induct) (simp_all add: app_step_keeps)

text \<open>The kept session keys of other sessions.\<close>

lemma secure_predict_keys:
  assumes "secure_predict P predict r clk dbg req app = (app', resp)" "k \<noteq> rq_handshake_id req"
  shows "ap_session_keys app' k = ap_session_keys app k"
  using assms
  by (auto simp: secure_predict_def session_key_for_def Let_def forget_session_def split: sum.splits prod.splits if_splits option.splits)

lemma app_step_keys:
  assumes "app_step P predict backend app h app'" "k \<noteq> h"
  shows "ap_session_keys app' k = ap_session_keys app k"
  using assms
proof (cases rule: app_step.cases)
  case (app_handshake r sp sp' resp)
  then show ?thesis by (auto simp: handshake_def Let_def split: prod.splits)
next
  case (app_predict r clk dbg req resp)
  then show ?thesis using assms(2) secure_predict_keys by blast
next
  case (app_stream rs sps sp req resp)
  then show ?thesis by (auto simp: secure_predict_stream_def Let_def split: sum.splits)
qed

lemma app_steps_keys:
  "app_steps P predict backend app hs app' \<Longrightarrow> k \<notin> set hs \<Longrightarrow> ap_session_keys app' k = ap_session_keys app k"
  by (induction rule: app_steps.induct) (auto simp: app_step_keys)

section \<open>From start-up to an open session\<close>

text \<open>
  A session: the application was built for \<open>config\<close>, served anything, answered a handshake with
  \<open>resp\<close>, and then served other sessions.
\<close>

definition session_open ::
  "prims \<Rightarrow> (json \<Rightarrow> json res) \<Rightarrow> (json \<Rightarrow> int \<Rightarrow> string list) \<Rightarrow> string \<Rightarrow> handshake_response \<Rightarrow> app \<Rightarrow> bool" where
  "session_open P predict backend config resp app \<longleftrightarrow>
     (\<exists>t auth app0 before app1 uuid r sp sp' app2 after.
        build_app P t auth config = Inr app0 \<and> app_steps P predict backend app0 before app1 \<and>
        handshake P uuid r sp sp' app1 = (app2, Inr resp) \<and> app_steps P predict backend app2 after app \<and>
        uuid \<notin> set after)"

lemma build_app_crypto:
  assumes "build_app P t auth config = Inr app"
  shows "get_server_crypto config = Inr (ap_crypto app)" "ap_session_keys app = Map.empty"
  using assms by (auto simp: build_app_def)

lemma handshake_issued:
  assumes "handshake P uuid r sp sp' app = (app', Inr resp)"
  obtains b where "srv_new_handshake P uuid r sp None (ap_crypto app) = (ap_crypto app', Inr b)"
    and "issued_for (handshake_json resp) b"
proof -
  obtain rb where rb: "srv_new_handshake P uuid r sp None (ap_crypto app) = (ap_crypto app', rb)"
    using handshake_crypto [OF assms] by blast
  with assms obtain b where "rb = Inr b" "issued_for (handshake_json resp) b"
    by (cases rb) (auto simp: handshake_def Let_def issued_for_def split: option.splits prod.splits)
  with rb show ?thesis using that by blast
qed

lemma session_openE:
  assumes "prims_ok P" "session_open P predict backend config resp app"
  obtains b where "srv_holds P (ap_crypto app) b" "issued_for (handshake_json resp) b"
    and "get_client_crypto config = Inr (server_client (ap_crypto app))"
proof -
  obtain t auth app0 before app1 uuid r sp sp' app2 after where
    s: "build_app P t auth config = Inr app0" "app_steps P predict backend app0 before app1"
      "handshake P uuid r sp sp' app1 = (app2, Inr resp)" "app_steps P predict backend app2 after app" "uuid \<notin> set after"
    using assms(2) unfolding session_open_def by blast
  obtain b where b: "srv_new_handshake P uuid r sp None (ap_crypto app1) = (ap_crypto app2, Inr b)"
      "issued_for (handshake_json resp) b"
    using handshake_issued [OF s(3)] .
  have id: "hb_handshake_id b = uuid"
    using srv_table.open_id [OF b(1)] by simp
  have holds: "srv_holds P (ap_crypto app) b"
    using app_steps_keeps(2) [OF s(4) srv_new_holds [OF assms(1) b(1)]] s(5) id by simp
  have cl: "server_client (ap_crypto app) = server_client (ap_crypto app0)"
    using app_steps_keeps(1) [OF s(4)] app_steps_keeps(1) [OF s(2)] srv_new_client [OF b(1)] by simp
  have "config \<in> set CONFIG_NAMES"
    using build_app_crypto(1) [OF s(1)] get_crypto_unknown [of config] by fastforce
  then obtain cl' where "get_client_crypto config = Inr cl'"
    using get_crypto_total by blast
  then have "get_client_crypto config = Inr (server_client (ap_crypto app))"
    using get_crypto_pair(1) [OF build_app_crypto(1) [OF s(1)]] cl by simp
  then show ?thesis
    using that holds b(2) by blast
qed

text \<open>Such sessions exist for every configuration.\<close>

lemma build_app_total:
  assumes "prims_ok P" "config \<in> set CONFIG_NAMES"
  obtains app where "build_app P t auth config = Inr app"
proof -
  obtain srv where srv: "get_server_crypto config = Inr srv"
    using get_crypto_total [OF assms(2)] by blast
  obtain ik where "identity_generate P t (identity_algorithm_for (srv_sig_algorithm srv)) = Inr ik"
    using identity_generate_ok [OF assms(1)] by blast
  then show ?thesis
    using that srv by (cases auth) (simp_all add: build_app_def)
qed

lemma handshake_total:
  assumes "prims_ok P" "ap_identity app = None"
  obtains app' resp where "handshake P uuid r sp sp' app = (app', Inr resp)"
proof -
  obtain srv' b where "srv_new_handshake P uuid r sp None (ap_crypto app) = (srv', Inr b)"
    using srv_new_total [OF assms(1), of uuid r sp None "ap_crypto app"] by blast
  then have "\<exists>app' resp. handshake P uuid r sp sp' app = (app', Inr resp)"
    by (simp add: handshake_def assms(2))
  then show ?thesis using that by blast
qed

lemma session_open_exists_id:
  assumes "prims_ok P" "config \<in> set CONFIG_NAMES"
  obtains resp app where "session_open P predict backend config resp app" "hr_handshake_id resp = uuid"
proof -
  fix t :: tape and r :: rng and sp :: span
  obtain app0 where app0: "build_app P t False config = Inr app0"
    using build_app_total [OF assms] .
  then have "ap_identity app0 = None"
    by (auto simp: build_app_def)
  then obtain app1 resp where h: "handshake P uuid r sp sp app0 = (app1, Inr resp)"
    using handshake_total [OF assms(1)] by blast
  have "session_open P predict backend config resp app1"
    unfolding session_open_def using app0 app_refl h by (metis empty_iff empty_set)
  moreover have "hr_handshake_id resp = uuid"
  proof -
    obtain b where b: "srv_new_handshake P uuid r sp None (ap_crypto app0) = (ap_crypto app1, Inr b)"
        "issued_for (handshake_json resp) b"
      using handshake_issued [OF h] .
    then show ?thesis
      using srv_table.open_id [OF b(1)] by (simp add: issued_for_def)
  qed
  ultimately show ?thesis by (rule that)
qed

lemma session_open_exists:
  assumes "prims_ok P" "config \<in> set CONFIG_NAMES"
  obtains resp app where "session_open P predict backend config resp app"
  by (rule session_open_exists_id [OF assms])

end
