(* ===== verification/SecureClient.thy ===== *)
theory SecureClient
  imports AppSteps
begin

text \<open>
  \<^verbatim>\<open>api/secure_client.py\<close>: the client side of one protected transaction, with the session
  resumption state and the pinned identity. The transaction is a sequence of steps over its row
  of metrics and the session object; a step goes on, returns early or raises, and the row keeps
  what was recorded before. The network is a parameter.
\<close>

section \<open>Row, session, control flow\<close>

record client_session =
  sn_requests_left :: int
  sn_handshake_json :: "json_strings option"
  sn_session_key :: "bytes option"

datatype txn_failure = TxnHTTP nat | TxnExn exn | TxnHandshakeAuth | TxnTampered

record txn_row =
  tr_config :: string
  tr_error :: "txn_failure option"
  tr_valid_signature :: "bool option"
  tr_resumed :: "bool option"
  tr_handshake_auth_verify_ms :: "rat option"
  tr_handshake_ms :: "rat option"
  tr_client_establish_ms :: "rat option"
  tr_kex_blob_bytes :: "nat option"
  tr_request_plaintext_bytes :: "nat option"
  tr_rtt_ms :: "rat option"
  tr_total_ms :: "rat option"
  tr_server_timing :: "server_timing option"
  tr_debug :: "debug_metrics option"
  tr_signature_bytes :: "nat option"
  tr_aead_decrypt_ms :: "rat option"
  tr_verify_ms :: "rat option"
  tr_prediction :: "json option"
  tr_response_plaintext_bytes :: "nat option"

definition new_row :: "string \<Rightarrow> txn_row" where
  "new_row config_name =
     \<lparr> tr_config = config_name, tr_error = None, tr_valid_signature = None, tr_resumed = None,
       tr_handshake_auth_verify_ms = None, tr_handshake_ms = None, tr_client_establish_ms = None,
       tr_kex_blob_bytes = None, tr_request_plaintext_bytes = None, tr_rtt_ms = None, tr_total_ms = None,
       tr_server_timing = None, tr_debug = None, tr_signature_bytes = None, tr_aead_decrypt_ms = None,
       tr_verify_ms = None, tr_prediction = None, tr_response_plaintext_bytes = None \<rparr>"

text \<open>The outcome of a step: go on with a value, \<^verbatim>\<open>return row\<close>, or an exception.\<close>

datatype 'a flow = Go 'a | Return | Raise exn

type_synonym txn = "txn_row \<times> client_session option"

definition then_go :: "txn \<times> 'a flow \<Rightarrow> ('a \<Rightarrow> txn \<Rightarrow> txn \<times> 'b flow) \<Rightarrow> txn \<times> 'b flow" where
  "then_go out f = (case out of (s, Go x) \<Rightarrow> f x s | (s, Return) \<Rightarrow> (s, Return) | (s, Raise e) \<Rightarrow> (s, Raise e))"

definition try_go :: "'a res \<Rightarrow> txn \<Rightarrow> txn \<times> 'a flow" where
  "try_go r s = (case r of Inl e \<Rightarrow> (s, Raise e) | Inr x \<Rightarrow> (s, Go x))"

lemma flow_simps [simp]:
  "then_go (s, Go x) f = f x s" "then_go (s, Return) f = (s, Return)" "then_go (s, Raise e) f = (s, Raise e)"
  "try_go (Inr x) s = (s, Go x)" "try_go (Inl e) s = (s, Raise e)"
  by (simp_all add: then_go_def try_go_def)

definition put_row :: "(txn_row \<Rightarrow> txn_row) \<Rightarrow> txn \<Rightarrow> txn" where
  "put_row f s = (f (fst s), snd s)"

section \<open>The network\<close>

record txn_net =
  tn_get_handshake :: "(nat \<times> json_strings res) res"
  tn_get_identity :: "(nat \<times> json_strings res) res"
  tn_predict :: "string option \<Rightarrow> secure_predict_request \<Rightarrow> (nat \<times> secure_predict_response res) res"

record txn_clock =
  tc_handshake :: "rat \<times> rat"
  tc_auth :: span
  tc_establish :: span
  tc_post :: "rat \<times> rat"
  tc_aead :: "rat \<times> rat"
  tc_verify :: span

definition ms_between :: "rat \<times> rat \<Rightarrow> rat" where
  "ms_between c = (snd c - fst c) * 1000"

text \<open>\<^verbatim>\<open>resp.raise_for_status()\<close> lets successful responses pass only.\<close>

definition raise_for_status :: "nat \<Rightarrow> unit res" where
  "raise_for_status c = (if 200 \<le> c \<and> c < 300 then Inr () else Inl (HTTPStatusError c))"

definition do_handshake :: "txn_net \<Rightarrow> rat \<times> rat \<Rightarrow> (json_strings \<times> rat) res" where
  "do_handshake net clk =
     bind_res (tn_get_handshake net) (\<lambda>(status, body).
     bind_res (raise_for_status status) (\<lambda>_.
     bind_res body (\<lambda>j. Inr (j, ms_between clk))))"

definition fetch_identity :: "txn_net \<Rightarrow> pinned_identity res" where
  "fetch_identity net =
     bind_res (tn_get_identity net) (\<lambda>(status, body).
     bind_res (raise_for_status status) (\<lambda>_.
     bind_res body (\<lambda>j.
     bind_res (get_item j ''algorithm'') (\<lambda>algorithm.
     bind_res (bind_res (get_item j ''public_key'') b64d) (\<lambda>public_key.
     Inr \<lparr> pin_algorithm = algorithm, pin_public_key = public_key \<rparr>)))))"

section \<open>The transaction\<close>

definition is_resumed :: "client_session option \<Rightarrow> bool" where
  "is_resumed session \<longleftrightarrow> (case session of None \<Rightarrow> False | Some s \<Rightarrow> sn_session_key s \<noteq> None)"

text \<open>The handshake leg; subscripting a session without handshake raises.\<close>

definition handshake_leg ::
  "prims \<Rightarrow> txn_clock \<Rightarrow> txn_net \<Rightarrow> json_strings option \<Rightarrow> pinned_identity option \<Rightarrow> txn \<Rightarrow> txn \<times> (json_strings \<times> rat) flow" where
  "handshake_leg P clk net cached_handshake pinned s0 =
     (let resumed = is_resumed (snd s0) in
      then_go (try_go
        (if resumed then (case Option.bind (snd s0) sn_handshake_json of None \<Rightarrow> Inl TypeError | Some hs \<Rightarrow> Inr (hs, 0))
         else case cached_handshake of
                Some hs \<Rightarrow> Inr (hs, 0)
              | None \<Rightarrow> do_handshake net (tc_handshake clk)) s0) (\<lambda>(hs, handshake_ms) s1.
      let s2 = put_row (\<lambda>row. row \<lparr> tr_resumed := Some resumed \<rparr>) s1 in
      case pinned of
        Some pin \<Rightarrow>
          if resumed then (put_row (\<lambda>row. row \<lparr> tr_handshake_ms := Some handshake_ms \<rparr>) s2, Go (hs, handshake_ms))
          else then_go (try_go (verify_handshake P (tc_auth clk) hs pin b64d) s2) (\<lambda>(ok, auth_meta) s3.
            let ms = handshake_ms + auth_verify_ms auth_meta;
                s4 = put_row (\<lambda>row. row \<lparr> tr_handshake_auth_verify_ms := Some (auth_verify_ms auth_meta),
                                          tr_handshake_ms := Some ms \<rparr>) s3 in
            if \<not> ok then (put_row (\<lambda>row. row \<lparr> tr_error := Some TxnHandshakeAuth \<rparr>) s4, Return)
            else (s4, Go (hs, ms)))
      | None \<Rightarrow> (put_row (\<lambda>row. row \<lparr> tr_handshake_ms := Some handshake_ms \<rparr>) s2, Go (hs, handshake_ms))))"

definition keep_of :: "client_session option \<Rightarrow> bool" where
  "keep_of session = (case session of None \<Rightarrow> False | Some s \<Rightarrow> 1 < sn_requests_left s)"

text \<open>The session key and key-exchange blob, and the session object brought up to date.\<close>

definition key_leg ::
  "prims \<Rightarrow> rng \<Rightarrow> txn_clock \<Rightarrow> client_crypto \<Rightarrow> json_strings \<Rightarrow> txn \<Rightarrow> txn \<times> (bytes \<times> bytes) flow" where
  "key_leg P r clk cl hs s0 =
     (case Option.bind (snd s0) sn_session_key of
        Some key \<Rightarrow> (put_row (\<lambda>row. row \<lparr> tr_client_establish_ms := Some 0 \<rparr>) s0, Go (key, []))
      | None \<Rightarrow>
          then_go (try_go (bind_res (bind_res (get_item hs ''kex_public_key'') b64d)
                             (cl_establish P r (tc_establish clk) cl)) s0) (\<lambda>est s1.
          let s2 = put_row (\<lambda>row. row \<lparr> tr_client_establish_ms := Some (handshake_encrypt_ms (er_meta est)) \<rparr>) s1 in
          ((fst s2, map_option (\<lambda>sn. sn \<lparr> sn_handshake_json := Some hs, sn_session_key := Some (er_session_key est) \<rparr>) (snd s2)),
           Go (er_session_key est, er_kex_blob est))))"

definition use_up :: "client_session option \<Rightarrow> client_session option" where
  "use_up = map_option (\<lambda>sn. sn \<lparr> sn_requests_left := sn_requests_left sn - 1 \<rparr>)"

text \<open>What follows the response: AEAD first, then the signature.\<close>

definition response_leg ::
  "prims \<Rightarrow> txn_clock \<Rightarrow> client_crypto \<Rightarrow> bytes \<Rightarrow> bytes \<Rightarrow> secure_predict_response \<Rightarrow> txn \<Rightarrow> txn \<times> unit flow" where
  "response_leg P clk cl session_key sig_public_key resp s0 =
     then_go (try_go (b64d (rp_nonce resp)) s0) (\<lambda>resp_nonce s1.
     then_go (try_go (b64d (rp_ciphertext resp)) s1) (\<lambda>resp_ciphertext s2.
     then_go (try_go (b64d (rp_signature resp)) s2) (\<lambda>signature s3.
     let s4 = put_row (\<lambda>row. row \<lparr> tr_signature_bytes := Some (length signature) \<rparr>) s3 in
     case aead_decrypt P session_key resp_nonce resp_ciphertext None of
       Inl AEADError \<Rightarrow>
         (put_row (\<lambda>row. row \<lparr> tr_aead_decrypt_ms := Some (ms_between (tc_aead clk)), tr_error := Some TxnTampered \<rparr>) s4, Return)
     | Inl e \<Rightarrow> (s4, Raise e)
     | Inr plaintext \<Rightarrow>
         then_go (try_go (cl_verify P (tc_verify clk) cl (resp_nonce @ resp_ciphertext) signature sig_public_key)
             (put_row (\<lambda>row. row \<lparr> tr_aead_decrypt_ms := Some (ms_between (tc_aead clk)) \<rparr>) s4)) (\<lambda>(valid, verify_meta) s5.
         let s6 = put_row (\<lambda>row. row \<lparr> tr_valid_signature := Some valid, tr_verify_ms := Some (verify_ms verify_meta) \<rparr>) s5 in
         then_go (try_go (bind_res (case json_loads P plaintext of None \<Rightarrow> Inl JSONDecodeError | Some j \<Rightarrow> Inr j)
                            (\<lambda>result. body_get result ''prediction'' JNull)) s6) (\<lambda>prediction s7.
         (put_row (\<lambda>row. row \<lparr> tr_prediction := Some prediction, tr_response_plaintext_bytes := Some (length plaintext) \<rparr>) s7,
          Go ()))))))"

text \<open>Up to the POST: the request with the header that goes with it, and what the response will need.\<close>

record pending_request =
  pg_header :: "string option"
  pg_request :: secure_predict_request
  pg_session_key :: bytes
  pg_sig_public_key :: bytes
  pg_handshake_ms :: rat

definition request_leg ::
  "prims \<Rightarrow> rng \<Rightarrow> txn_clock \<Rightarrow> txn_net \<Rightarrow> client_crypto \<Rightarrow> json \<Rightarrow> bool \<Rightarrow> json_strings option \<Rightarrow> pinned_identity option
     \<Rightarrow> txn \<Rightarrow> txn \<times> pending_request flow" where
  "request_leg P r clk net cl request_body debug_metrics cached_handshake pinned s0 =
     then_go (handshake_leg P clk net cached_handshake pinned s0) (\<lambda>(hs, handshake_ms) s1.
     then_go (try_go (bind_res (get_item hs ''sig_public_key'') b64d) s1) (\<lambda>sig_public_key s2.
     then_go (try_go (get_item hs ''handshake_id'') s2) (\<lambda>handshake_id s3.
     then_go (key_leg P r clk cl hs s3) (\<lambda>(session_key, kex_blob) s4.
     let keep_session = keep_of (snd s4);
         request_plaintext = json_dumps P request_body;
         s5 = (fst s4 \<lparr> tr_kex_blob_bytes := Some (length kex_blob),
                        tr_request_plaintext_bytes := Some (length request_plaintext) \<rparr>, use_up (snd s4)) in
     then_go (try_go (aead_encrypt P (r 2) session_key request_plaintext None) s5) (\<lambda>req_aead s6.
     (s6, Go \<lparr> pg_header = (if debug_metrics then Some ''true'' else None),
               pg_request = \<lparr> rq_handshake_id = handshake_id, rq_kex_blob = b64e kex_blob, rq_nonce = b64e (ar_nonce req_aead),
                 rq_ciphertext = b64e (ar_ciphertext req_aead), rq_keep_session = keep_session \<rparr>,
               pg_session_key = session_key, pg_sig_public_key = sig_public_key, pg_handshake_ms = handshake_ms \<rparr>))))))"

definition transaction_steps ::
  "prims \<Rightarrow> rng \<Rightarrow> txn_clock \<Rightarrow> txn_net \<Rightarrow> client_crypto \<Rightarrow> json \<Rightarrow> bool \<Rightarrow> json_strings option \<Rightarrow> pinned_identity option
     \<Rightarrow> txn \<Rightarrow> txn \<times> unit flow" where
  "transaction_steps P r clk net cl request_body debug_metrics cached_handshake pinned s0 =
     then_go (request_leg P r clk net cl request_body debug_metrics cached_handshake pinned s0) (\<lambda>pending s6.
     then_go (try_go (tn_predict net (pg_header pending) (pg_request pending)) s6) (\<lambda>(status, body) s7.
     let rtt_ms = ms_between (tc_post clk);
         s8 = put_row (\<lambda>row. row \<lparr> tr_rtt_ms := Some rtt_ms, tr_total_ms := Some (pg_handshake_ms pending + rtt_ms) \<rparr>) s7 in
     if status \<noteq> 200 then (put_row (\<lambda>row. row \<lparr> tr_error := Some (TxnHTTP status) \<rparr>) s8, Return)
     else then_go (try_go body s8) (\<lambda>resp s9.
     let s10 = put_row (\<lambda>row. row \<lparr> tr_server_timing := Some (rp_server_timing resp),
                                     tr_debug := (if debug_metrics then rp_debug resp else None) \<rparr>) s9 in
     response_leg P clk cl (pg_session_key pending) (pg_sig_public_key pending) resp s10)))"

text \<open>\<open>get_client_crypto\<close> is outside the \<^verbatim>\<open>try\<close>; any other exception becomes the error entry.\<close>

definition secure_predict_transaction ::
  "prims \<Rightarrow> rng \<Rightarrow> txn_clock \<Rightarrow> txn_net \<Rightarrow> string \<Rightarrow> json \<Rightarrow> bool \<Rightarrow> json_strings option \<Rightarrow> client_session option
     \<Rightarrow> pinned_identity option \<Rightarrow> (txn_row \<times> client_session option) res" where
  "secure_predict_transaction P r clk net config_name request_body debug_metrics cached_handshake session pinned =
     bind_res (get_client_crypto config_name) (\<lambda>cl.
     Inr (case transaction_steps P r clk net cl request_body debug_metrics cached_handshake pinned (new_row config_name, session) of
            (s, Raise e) \<Rightarrow> put_row (\<lambda>row. row \<lparr> tr_error := Some (TxnExn e) \<rparr>) s
          | (s, _) \<Rightarrow> s))"

section \<open>AEAD before signature\<close>

text \<open>A response rejected by AES-GCM never reaches the signature check.\<close>

lemma response_tampered:
  assumes "b64d (rp_nonce resp) = Inr n" "b64d (rp_ciphertext resp) = Inr c" "b64d (rp_signature resp) = Inr sg"
    and "aead_decrypt P key n c None = Inl AEADError"
  shows "response_leg P clk cl key pk resp s =
     (put_row (\<lambda>row. row \<lparr> tr_signature_bytes := Some (length sg), tr_aead_decrypt_ms := Some (ms_between (tc_aead clk)),
                         tr_error := Some TxnTampered \<rparr>) s, Return)"
  using assms by (simp add: response_leg_def put_row_def Let_def)

text \<open>A response that is accepted was opened under the key and its signature checked.\<close>

lemma response_accepted:
  assumes "response_leg P clk cl key pk resp s = (s', Go ())"
  obtains n c sg x ok m where "b64d (rp_nonce resp) = Inr n" "b64d (rp_ciphertext resp) = Inr c" "b64d (rp_signature resp) = Inr sg"
    and "aead_decrypt P key n c None = Inr x" "cl_verify P (tc_verify clk) cl (n @ c) sg pk = Inr (ok, m)"
    and "tr_valid_signature (fst s') = Some ok"
  using assms
  by (auto simp: response_leg_def then_go_def try_go_def put_row_def Let_def split: sum.splits flow.splits exn.splits prod.splits)

section \<open>A transaction against the application\<close>

definition predict_over ::
  "prims \<Rightarrow> (json \<Rightarrow> json res) \<Rightarrow> rng \<Rightarrow> predict_clock \<Rightarrow> app \<Rightarrow> string option \<Rightarrow> secure_predict_request
     \<Rightarrow> (nat \<times> secure_predict_response res) res" where
  "predict_over P predict r clk app dbg req =
     (case snd (secure_predict P predict r clk dbg req app) of
        Inl (HTTPException c) \<Rightarrow> Inr (c, Inl JSONDecodeError)
      | Inl _ \<Rightarrow> Inr (500, Inl JSONDecodeError)
      | Inr resp \<Rightarrow> Inr (200, Inr resp))"

end
