(* ===== verification/PredictTransaction.thy ===== *)
theory PredictTransaction
  imports SecureClient
begin

text \<open>
  The request/response protocol end to end: \<^verbatim>\<open>secure_predict_transaction\<close> against
  \<^verbatim>\<open>secure_predict\<close>, for a first request and for a resumed one, and a whole resumed session:
  one key exchange, then requests under the kept key, the last of which clears the server.
\<close>

section \<open>The server answers an authentic request\<close>

lemma run_model_obj: "run_model predict body = Inr (result, ms) \<Longrightarrow> \<exists>kvs. result = JObj kvs"
proof -
  have *: "\<exists>kvs. j' = JObj kvs" if "json_pop j k = Inr (v, j')" for j k v j'
    using that by (auto simp: json_pop_def split: json.splits option.splits)
  show "run_model predict body = Inr (result, ms) \<Longrightarrow> \<exists>kvs. result = JObj kvs"
    using * by (auto simp: run_model_def)
qed

lemma secure_predict_honest:
  assumes "prims_ok P" "srv_holds P (ap_crypto app) b" "rq_handshake_id req = hb_handshake_id b"
    and "b64d (rq_kex_blob req) = Inr blob" "b64d (rq_nonce req) = Inr (ar_nonce a)" "b64d (rq_ciphertext req) = Inr (ar_ciphertext a)"
    and "session_key_for P (pc_accept clk) app req blob = (app1, Inr (key, m))" "gcm_key_ok P key"
    and "aead_encrypt P t key (json_dumps P body) None = Inr a" "json_loads P (json_dumps P body) = Some body"
    and "run_model predict body = Inr (result, ms)"
  obtains resp a' sg where
    "secure_predict P predict r clk dbg req app =
       (if rq_keep_session req then app1 else forget_session (hb_handshake_id b) app1, Inr resp)"
    and "rp_nonce resp = b64e (ar_nonce (a' :: aead_result))" "rp_ciphertext resp = b64e (ar_ciphertext a')" "rp_signature resp = b64e sg"
    and "aead_decrypt P key (ar_nonce a') (ar_ciphertext a') None = Inr (json_dumps P result)"
    and "\<forall>sp. cl_verify P sp (server_client (ap_crypto app)) (ar_nonce a' @ ar_ciphertext a') sg (hb_sig_public_key b)
           = Inr (True, mk_verify_meta sp)"
    and "rp_debug resp = None \<longleftrightarrow> lower (str_or dbg '''') \<noteq> ''true''"
proof -
  have ok: "aead_ok P" using assms(1) by (simp add: prims_ok_def)
  have crypto: "ap_crypto app1 = ap_crypto app"
    using session_key_for_crypto [OF assms(7)] .
  obtain a' where a': "aead_encrypt P (r 0) key (json_dumps P result) None = Inr a'"
    using assms(8) by (simp add: aead_encrypt_eq_Inr)
  obtain sg sm vm where sg: "srv_sign P (r 1) (pc_sign clk) (ap_crypto app) (hb_handshake_id b) (ar_nonce a' @ ar_ciphertext a') = Inr (sg, sm)"
      "cl_verify P (pc_sign clk) (server_client (ap_crypto app)) (ar_nonce a' @ ar_ciphertext a') sg (hb_sig_public_key b) = Inr (True, vm)"
    using srv_sign_verifies [OF assms(1,2)] by blast
  have op: "open_request P key (ar_nonce a) (ar_ciphertext a) = Inr (json_dumps P body)"
    by (simp add: open_request_def aead_round_trip [OF ok assms(9)])
  have dec: "decode_request req = Inr (blob, ar_nonce a, ar_ciphertext a)"
    by (simp add: decode_request_def assms(4-6))
  have "\<exists>resp. secure_predict P predict r clk dbg req app =
       (if rq_keep_session req then app1 else forget_session (hb_handshake_id b) app1, Inr resp) \<and>
     rp_nonce resp = b64e (ar_nonce a') \<and> rp_ciphertext resp = b64e (ar_ciphertext a') \<and> rp_signature resp = b64e sg \<and>
     (rp_debug resp = None \<longleftrightarrow> lower (str_or dbg '''') \<noteq> ''true'')"
    using sg(1) by (simp add: secure_predict_def dec assms(3,7,10,11) op a' crypto Let_def)
  then obtain resp where resp: "secure_predict P predict r clk dbg req app =
       (if rq_keep_session req then app1 else forget_session (hb_handshake_id b) app1, Inr resp)"
     "rp_nonce resp = b64e (ar_nonce a')" "rp_ciphertext resp = b64e (ar_ciphertext a')" "rp_signature resp = b64e sg"
     "rp_debug resp = None \<longleftrightarrow> lower (str_or dbg '''') \<noteq> ''true''"
    by (elim exE conjE)
  show ?thesis
    by (rule that [OF resp(1-4) aead_round_trip [OF ok a'] _ resp(5)]) (rule allI, rule cl_verify_span [OF sg(2)])
qed

text \<open>The client accepts it.\<close>

lemma response_honest:
  assumes "rp_nonce resp = b64e n" "rp_ciphertext resp = b64e c" "rp_signature resp = b64e sg"
    and "aead_decrypt P key n c None = Inr (json_dumps P result)" "json_loads P (json_dumps P result) = Some (JObj kvs)"
    and "\<forall>sp. cl_verify P sp cl (n @ c) sg pk = Inr (True, mk_verify_meta sp)"
  obtains row where "response_leg P clk cl key pk resp s = ((row, snd s), Go ())"
    and "tr_valid_signature row = Some True" "tr_error row = tr_error (fst s)" "tr_resumed row = tr_resumed (fst s)"
    and "tr_prediction row = Some (case map_of kvs ''prediction'' of None \<Rightarrow> JNull | Some v \<Rightarrow> v)"
    and "tr_kex_blob_bytes row = tr_kex_blob_bytes (fst s)" "tr_debug row = tr_debug (fst s)"
  using that assms
  by (simp add: response_leg_def put_row_def Let_def body_get_def)

section \<open>One exchange\<close>

text \<open>
  One request of a session against the running application: everything that may differ from one
  request to the next, and the exchange as a function of it. The application's state moves by the
  request the client sent; a client that stopped before its POST leaves it alone.
\<close>

record exchange_env =
  xe_body :: json
  xe_debug :: bool
  xe_client_rng :: rng
  xe_client_clock :: txn_clock
  xe_server_rng :: rng
  xe_server_clock :: predict_clock

definition live_net :: "prims \<Rightarrow> (json \<Rightarrow> json res) \<Rightarrow> json_strings \<Rightarrow> exchange_env \<Rightarrow> app \<Rightarrow> txn_net" where
  "live_net P predict hs env app =
     \<lparr> tn_get_handshake = Inr (200, Inr hs),
       tn_get_identity = Inl RuntimeError,
       tn_predict = predict_over P predict (xe_server_rng env) (xe_server_clock env) app \<rparr>"

definition exchange ::
  "prims \<Rightarrow> (json \<Rightarrow> json res) \<Rightarrow> string \<Rightarrow> json_strings \<Rightarrow> exchange_env \<Rightarrow> app \<times> client_session option
     \<Rightarrow> (txn_row \<times> app \<times> client_session option) res" where
  "exchange P predict config hs env s =
     (let net = live_net P predict hs env (fst s); r = xe_client_rng env; clk = xe_client_clock env in
      bind_res (get_client_crypto config) (\<lambda>cl.
      bind_res (secure_predict_transaction P r clk net config (xe_body env) (xe_debug env) None (snd s) None) (\<lambda>(row, sess).
      Inr (row,
        case snd (request_leg P r clk net cl (xe_body env) (xe_debug env) None None (new_row config, snd s)) of
          Go p \<Rightarrow> fst (secure_predict P predict (xe_server_rng env) (xe_server_clock env) (pg_header p) (pg_request p) (fst s))
        | _ \<Rightarrow> fst s,
        sess))))"

fun exchanges ::
  "prims \<Rightarrow> (json \<Rightarrow> json res) \<Rightarrow> string \<Rightarrow> json_strings \<Rightarrow> exchange_env list \<Rightarrow> app \<times> client_session option
     \<Rightarrow> (txn_row list \<times> app \<times> client_session option) res" where
  "exchanges P predict config hs [] s = Inr ([], s)"
| "exchanges P predict config hs (env # envs) s =
     bind_res (exchange P predict config hs env s) (\<lambda>(row, s1).
     bind_res (exchanges P predict config hs envs s1) (\<lambda>(rows, s2). Inr (row # rows, s2)))"

text \<open>The row of a transaction that succeeded.\<close>

definition good_row :: "txn_row \<Rightarrow> json \<Rightarrow> bool \<Rightarrow> bool \<Rightarrow> bool" where
  "good_row row prediction resumed debug \<longleftrightarrow> tr_error row = None \<and> tr_valid_signature row = Some True
     \<and> tr_prediction row = Some prediction \<and> tr_resumed row = Some resumed
     \<and> (tr_kex_blob_bytes row = Some 0 \<longleftrightarrow> resumed) \<and> (tr_debug row \<noteq> None \<longleftrightarrow> debug)"

definition prediction_of :: "json \<Rightarrow> json" where
  "prediction_of result = (case json_get result ''prediction'' of None \<Rightarrow> JNull | Some v \<Rightarrow> v)"

text \<open>The model answers a body with a result, and the JSON codec carries both.\<close>

definition answers :: "prims \<Rightarrow> (json \<Rightarrow> json res) \<Rightarrow> json \<Rightarrow> json \<Rightarrow> bool" where
  "answers P predict body result \<longleftrightarrow> json_loads P (json_dumps P body) = Some body \<and>
     json_loads P (json_dumps P result) = Some result \<and> (\<exists>ms. run_model predict body = Inr (result, ms))"

text \<open>Both ends hold the kept session key.\<close>

definition resumable :: "prims \<Rightarrow> app \<Rightarrow> handshake_bundle \<Rightarrow> json_strings \<Rightarrow> client_session \<Rightarrow> bool" where
  "resumable P app b hs sn \<longleftrightarrow> sn_handshake_json sn = Some hs \<and>
     (\<exists>key. sn_session_key sn = Some key \<and> ap_session_keys app (hb_handshake_id b) = Some key \<and> gcm_key_ok P key)"

lemma debug_header: "lower (str_or (if debug then Some ''true'' else None) '''') = ''true'' \<longleftrightarrow> debug"
proof -
  have "lower (str_or (Some ''true'') '''') = ''true''" "lower (str_or None '''') \<noteq> ''true''" by code_simp+
  then show ?thesis by simp
qed

text \<open>What an honest client sends.\<close>

definition client_request :: "handshake_bundle \<Rightarrow> bytes \<Rightarrow> aead_result \<Rightarrow> client_session option \<Rightarrow> secure_predict_request" where
  "client_request b blob a sess1 =
     \<lparr> rq_handshake_id = hb_handshake_id b, rq_kex_blob = b64e blob, rq_nonce = b64e (ar_nonce a),
       rq_ciphertext = b64e (ar_ciphertext a), rq_keep_session = keep_of sess1 \<rparr>"

lemma request_leg_honest:
  assumes "issued_for hs b" "handshake_leg P clk net None None (new_row config, sess) = ((row0, sess), Go (hs, hms))"
    and "tr_error row0 = None" "tr_resumed row0 = Some resumed"
    and "\<And>s. snd s = sess \<Longrightarrow> \<exists>row1. key_leg P r clk cl hs s = ((row1, sess1), Go (key, blob)) \<and>
            tr_error row1 = tr_error (fst s) \<and> tr_resumed row1 = tr_resumed (fst s)"
    and "aead_encrypt P (r 2) key (json_dumps P body) None = Inr a"
  obtains row1 where "request_leg P r clk net cl body debug None None (new_row config, sess) = ((row1, use_up sess1),
      Go \<lparr> pg_header = (if debug then Some ''true'' else None), pg_request = client_request b blob a sess1,
           pg_session_key = key, pg_sig_public_key = hb_sig_public_key b, pg_handshake_ms = hms \<rparr>)"
    and "tr_error row1 = None" "tr_resumed row1 = Some resumed" "tr_kex_blob_bytes row1 = Some (length blob)"
proof -
  obtain row1 where key: "key_leg P r clk cl hs (row0, sess) = ((row1, sess1), Go (key, blob))"
      "tr_error row1 = None" "tr_resumed row1 = Some resumed"
    using assms(3,4) assms(5) [of "(row0, sess)"] by auto
  show ?thesis
    by (rule that [of "row1 \<lparr> tr_kex_blob_bytes := Some (length blob), tr_request_plaintext_bytes := Some (length (json_dumps P body)) \<rparr>"])
       (use key assms(1) in \<open>simp_all add: request_leg_def assms(2,6) issued_for_def client_request_def Let_def\<close>)
qed

lemma transaction_steps_honest:
  assumes "request_leg P r clk net cl body debug None None s0 = ((row1, sess2), Go pending)"
    and "tr_error row1 = None" "tr_resumed row1 = Some resumed" "tr_kex_blob_bytes row1 = Some (length blob)"
    and "tn_predict net (pg_header pending) (pg_request pending) = Inr (200, Inr resp)"
    and "rp_nonce resp = b64e (ar_nonce a')" "rp_ciphertext resp = b64e (ar_ciphertext a')" "rp_signature resp = b64e sg"
    and "aead_decrypt P (pg_session_key pending) (ar_nonce a') (ar_ciphertext a') None = Inr (json_dumps P (JObj kvs))"
    and "json_loads P (json_dumps P (JObj kvs)) = Some (JObj kvs)"
    and "\<forall>sp. cl_verify P sp cl (ar_nonce a' @ ar_ciphertext a') sg (pg_sig_public_key pending) = Inr (True, mk_verify_meta sp)"
    and "rp_debug resp = None \<longleftrightarrow> \<not> debug" "blob = [] \<longleftrightarrow> resumed"
  obtains row where "transaction_steps P r clk net cl body debug None None s0 = ((row, sess2), Go ())"
    and "good_row row (prediction_of (JObj kvs)) resumed debug"
proof -
  let ?s = "(row1 \<lparr> tr_rtt_ms := Some (ms_between (tc_post clk)), tr_total_ms := Some (pg_handshake_ms pending + ms_between (tc_post clk)),
       tr_server_timing := Some (rp_server_timing resp), tr_debug := (if debug then rp_debug resp else None) \<rparr>, sess2)"
  obtain row where row: "response_leg P clk cl (pg_session_key pending) (pg_sig_public_key pending) resp ?s = ((row, snd ?s), Go ())"
      "tr_valid_signature row = Some True" "tr_error row = tr_error (fst ?s)" "tr_resumed row = tr_resumed (fst ?s)"
      "tr_prediction row = Some (case map_of kvs ''prediction'' of None \<Rightarrow> JNull | Some v \<Rightarrow> v)"
      "tr_kex_blob_bytes row = tr_kex_blob_bytes (fst ?s)" "tr_debug row = tr_debug (fst ?s)"
    using assms(6-11) by (rule response_honest)
  show ?thesis
  proof (rule that)
    show "transaction_steps P r clk net cl body debug None None s0 = ((row, sess2), Go ())"
      using row(1) by (simp add: transaction_steps_def assms(1,5) put_row_def Let_def)
    show "good_row row (prediction_of (JObj kvs)) resumed debug"
      using row(2-7) assms(2-4,12,13) by (auto simp: good_row_def prediction_of_def)
  qed
qed

lemma handshake_leg_first:
  assumes "tn_get_handshake net = Inr (200, Inr hs)" "\<not> is_resumed sess"
  shows "\<exists>row ms. handshake_leg P clk net None None (new_row config, sess) = ((row, sess), Go (hs, ms)) \<and>
     tr_error row = None \<and> tr_resumed row = Some False"
  using assms by (simp add: handshake_leg_def do_handshake_def raise_for_status_def Let_def put_row_def new_row_def)

lemma handshake_leg_resumed:
  assumes "is_resumed (Some sn)" "sn_handshake_json sn = Some hs"
  shows "\<exists>row ms. handshake_leg P clk net None None (new_row config, Some sn) = ((row, Some sn), Go (hs, ms)) \<and>
     tr_error row = None \<and> tr_resumed row = Some True"
  using assms by (simp add: handshake_leg_def Let_def put_row_def new_row_def)

text \<open>
  One exchange from a ready client: \<open>key_leg\<close> gives \<open>(key, blob)\<close>, the server derives the same
  key for the request. Both kinds of request below are instances.
\<close>

lemma exchange_honest:
  fixes env :: exchange_env and app app1 :: app
  defines "r \<equiv> xe_client_rng env" and "clk \<equiv> xe_client_clock env"
  assumes ok: "prims_ok P" "srv_holds P (ap_crypto app) b" "issued_for hs b"
      "get_client_crypto config = Inr (server_client (ap_crypto app))"
    and answer: "answers P predict (xe_body env) result"
    and leg: "\<And>net. tn_get_handshake net = Inr (200, Inr hs) \<Longrightarrow>
        \<exists>row hms. handshake_leg P clk net None None (new_row config, sess) = ((row, sess), Go (hs, hms)) \<and>
          tr_error row = None \<and> tr_resumed row = Some (blob = [])"
    and key: "\<And>s. snd s = sess \<Longrightarrow> \<exists>row1. key_leg P r clk (server_client (ap_crypto app)) hs s = ((row1, sess1), Go (key, blob)) \<and>
            tr_error row1 = tr_error (fst s) \<and> tr_resumed row1 = tr_resumed (fst s)"
    and server: "\<And>req. rq_handshake_id req = hb_handshake_id b \<Longrightarrow> rq_keep_session req = keep_of sess1 \<Longrightarrow>
        \<exists>m. session_key_for P (pc_accept (xe_server_clock env)) app req blob = (app1, Inr (key, m))" "gcm_key_ok P key"
  shows "\<exists>row. exchange P predict config hs env (app, sess) =
      Inr (row, if keep_of sess1 then app1 else forget_session (hb_handshake_id b) app1, use_up sess1) \<and>
      good_row row (prediction_of result) (blob = []) (xe_debug env)"
proof -
  let ?cl = "server_client (ap_crypto app)" and ?net = "live_net P predict hs env app"
  let ?dbg = "if xe_debug env then Some ''true'' else None"
  obtain ms where codec: "json_loads P (json_dumps P (xe_body env)) = Some (xe_body env)" "json_loads P (json_dumps P result) = Some result"
      and model: "run_model predict (xe_body env) = Inr (result, ms)"
    using answer by (auto simp: answers_def)
  obtain kvs where kvs: "result = JObj kvs"
    using run_model_obj [OF model] by blast
  obtain a where a: "aead_encrypt P (r 2) key (json_dumps P (xe_body env)) None = Inr a"
    using server(2) by (simp add: aead_encrypt_eq_Inr)
  let ?req = "client_request b blob a sess1"
  have req: "rq_handshake_id ?req = hb_handshake_id b" "rq_keep_session ?req = keep_of sess1" "b64d (rq_kex_blob ?req) = Inr blob"
      "b64d (rq_nonce ?req) = Inr (ar_nonce a)" "b64d (rq_ciphertext ?req) = Inr (ar_ciphertext a)"
    by (simp_all add: client_request_def)
  obtain m where m: "session_key_for P (pc_accept (xe_server_clock env)) app ?req blob = (app1, Inr (key, m))"
    using server(1) [of ?req] req(1,2) by blast
  obtain resp a' sg where served:
      "secure_predict P predict (xe_server_rng env) (xe_server_clock env) ?dbg ?req app =
         (if rq_keep_session ?req then app1 else forget_session (hb_handshake_id b) app1, Inr resp)"
      "rp_nonce resp = b64e (ar_nonce (a' :: aead_result))" "rp_ciphertext resp = b64e (ar_ciphertext a')" "rp_signature resp = b64e sg"
      "aead_decrypt P key (ar_nonce a') (ar_ciphertext a') None = Inr (json_dumps P result)"
      "\<forall>sp. cl_verify P sp ?cl (ar_nonce a' @ ar_ciphertext a') sg (hb_sig_public_key b) = Inr (True, mk_verify_meta sp)"
      "rp_debug resp = None \<longleftrightarrow> lower (str_or ?dbg '''') \<noteq> ''true''"
    by (rule secure_predict_honest [OF ok(1,2) req(1,3-5) m server(2) a codec(1) model, of "xe_server_rng env" ?dbg])
  have tn: "tn_get_handshake ?net = Inr (200, Inr hs)" "tn_predict ?net ?dbg ?req = Inr (200, Inr resp)"
    unfolding live_net_def txn_net.select_convs predict_over_def served(1) by simp_all
  obtain row0 hms where row0: "handshake_leg P clk ?net None None (new_row config, sess) = ((row0, sess), Go (hs, hms))"
      "tr_error row0 = None" "tr_resumed row0 = Some (blob = [])"
    using leg [OF tn(1)] by blast
  let ?p = "\<lparr> pg_header = ?dbg, pg_request = ?req, pg_session_key = key, pg_sig_public_key = hb_sig_public_key b, pg_handshake_ms = hms \<rparr>"
  obtain row1 where row1: "request_leg P r clk ?net ?cl (xe_body env) (xe_debug env) None None (new_row config, sess) = ((row1, use_up sess1), Go ?p)"
      "tr_error row1 = None" "tr_resumed row1 = Some (blob = [])" "tr_kex_blob_bytes row1 = Some (length blob)"
    by (rule request_leg_honest [OF ok(3) row0 key a, where debug = "xe_debug env"]) (assumption, rule that)
  have dbg: "rp_debug resp = None \<longleftrightarrow> \<not> xe_debug env"
    using served(7) unfolding debug_header by blast
  obtain row where row: "transaction_steps P r clk ?net ?cl (xe_body env) (xe_debug env) None None (new_row config, sess) = ((row, use_up sess1), Go ())"
      "good_row row (prediction_of (JObj kvs)) (blob = []) (xe_debug env)"
    by (rule transaction_steps_honest [OF row1 _ served(2-4) _ _ _ dbg refl, where kvs = kvs])
       (use tn(2) served(5,6) codec(2) kvs in simp_all)
  have "exchange P predict config hs env (app, sess) =
      Inr (row, if keep_of sess1 then app1 else forget_session (hb_handshake_id b) app1, use_up sess1)"
    using row1(1) row(1) served(1) req(2)
    by (simp add: exchange_def secure_predict_transaction_def ok(4) r_def clk_def Let_def)
  with row(2) kvs show ?thesis by blast
qed

section \<open>A resumed session\<close>

lemma first_exchange:
  assumes ok: "prims_ok P" "srv_holds P (ap_crypto app) b" "issued_for hs b"
      "get_client_crypto config = Inr (server_client (ap_crypto app))"
    and answer: "answers P predict (xe_body env) result" and fresh: "sn_session_key sn = None"
  obtains row app1 sn1 where "exchange P predict config hs env (app, Some sn) =
      Inr (row, if 1 < sn_requests_left sn then app1 else forget_session (hb_handshake_id b) app1, Some sn1)"
    and "good_row row (prediction_of result) False (xe_debug env)" "resumable P app1 b hs sn1"
    and "sn_requests_left sn1 = sn_requests_left sn - 1" "ap_crypto app1 = ap_crypto app \<or> \<not> 1 < sn_requests_left sn"
proof -
  let ?r = "xe_client_rng env" and ?clk = "xe_client_clock env" and ?clk' = "xe_server_clock env"
  obtain e where e: "cl_establish P ?r (tc_establish ?clk) (server_client (ap_crypto app)) (hb_kex_public_key b) = Inr e"
      "gcm_key_ok P (er_session_key e)" "er_kex_blob e \<noteq> []"
    using srv_agree [OF ok(1,2), of ?r "tc_establish ?clk"] by blast
  obtain m where m: "srv_accept P (pc_accept ?clk') (ap_crypto app) (hb_handshake_id b) (er_kex_blob e) = Inr (er_session_key e, m)"
    using srv_agree [OF ok(1,2), of ?r "tc_establish ?clk" "pc_accept ?clk'"] e(1) by auto
  let ?hid = "hb_handshake_id b" and ?keep = "1 < sn_requests_left sn"
  let ?sess1 = "Some (sn \<lparr> sn_handshake_json := Some hs, sn_session_key := Some (er_session_key e) \<rparr>)"
  let ?stored = "app \<lparr> ap_session_keys := (ap_session_keys app)(?hid \<mapsto> er_session_key e) \<rparr>"
  let ?app1 = "if ?keep then ?stored else app"
  have keep: "keep_of ?sess1 = ?keep"
    by (simp add: keep_of_def)
  have "\<exists>row. exchange P predict config hs env (app, Some sn) =
      Inr (row, if keep_of ?sess1 then ?app1 else forget_session ?hid ?app1, use_up ?sess1) \<and>
      good_row row (prediction_of result) (er_kex_blob e = []) (xe_debug env)"
  proof (rule exchange_honest [OF ok answer])
    show "\<exists>row hms. handshake_leg P ?clk net None None (new_row config, Some sn) = ((row, Some sn), Go (hs, hms)) \<and>
        tr_error row = None \<and> tr_resumed row = Some (er_kex_blob e = [])"
      if "tn_get_handshake net = Inr (200, Inr hs)" for net
      using handshake_leg_first [OF that, of "Some sn"] fresh e(3) by (simp add: is_resumed_def)
    show "\<exists>row1. key_leg P ?r ?clk (server_client (ap_crypto app)) hs s = ((row1, ?sess1), Go (er_session_key e, er_kex_blob e)) \<and>
        tr_error row1 = tr_error (fst s) \<and> tr_resumed row1 = tr_resumed (fst s)" if "snd s = Some sn" for s
      using that fresh ok(3) e(1) by (simp add: key_leg_def issued_for_def put_row_def Let_def)
    show "\<exists>m. session_key_for P (pc_accept ?clk') app req (er_kex_blob e) = (?app1, Inr (er_session_key e, m))"
      if "rq_handshake_id req = ?hid" "rq_keep_session req = keep_of ?sess1" for req
      using that e(3) m by (simp add: session_key_for_def accept_request_def keep)
  qed (rule e(2))
  then obtain row where row: "exchange P predict config hs env (app, Some sn) =
      Inr (row, if ?keep then ?app1 else forget_session ?hid ?app1, use_up ?sess1)"
      "good_row row (prediction_of result) False (xe_debug env)"
    unfolding keep using e(3) by auto
  have "resumable P ?stored b hs (sn \<lparr> sn_handshake_json := Some hs, sn_session_key := Some (er_session_key e),
      sn_requests_left := sn_requests_left sn - 1 \<rparr>)"
    by (simp add: resumable_def e(2))
  moreover have "forget_session ?hid ?stored = forget_session ?hid app"
    by (simp add: forget_session_def)
  ultimately show ?thesis
    using that [of row ?stored] row by (cases ?keep) (simp_all add: use_up_def)
qed

lemma resumed_exchange:
  assumes ok: "prims_ok P" "srv_holds P (ap_crypto app) b" "issued_for hs b"
      "get_client_crypto config = Inr (server_client (ap_crypto app))"
    and answer: "answers P predict (xe_body env) result" and kept: "resumable P app b hs sn"
  obtains row where "exchange P predict config hs env (app, Some sn) =
      Inr (row, if 1 < sn_requests_left sn then app else forget_session (hb_handshake_id b) app,
       Some (sn \<lparr> sn_requests_left := sn_requests_left sn - 1 \<rparr>))"
    and "good_row row (prediction_of result) True (xe_debug env)"
proof -
  obtain key where key: "sn_handshake_json sn = Some hs" "sn_session_key sn = Some key"
      "ap_session_keys app (hb_handshake_id b) = Some key" "gcm_key_ok P key"
    using kept by (auto simp: resumable_def)
  have "\<exists>row. exchange P predict config hs env (app, Some sn) =
      Inr (row, if keep_of (Some sn) then app else forget_session (hb_handshake_id b) app, use_up (Some sn)) \<and>
      good_row row (prediction_of result) (([] :: bytes) = []) (xe_debug env)"
  proof (rule exchange_honest [OF ok answer])
    show "\<exists>row hms. handshake_leg P (xe_client_clock env) net None None (new_row config, Some sn) = ((row, Some sn), Go (hs, hms)) \<and>
        tr_error row = None \<and> tr_resumed row = Some (([] :: bytes) = [])" for net
      using handshake_leg_resumed [of sn hs P "xe_client_clock env" net config] key by (simp add: is_resumed_def)
    show "\<exists>row1. key_leg P (xe_client_rng env) (xe_client_clock env) (server_client (ap_crypto app)) hs s = ((row1, Some sn), Go (key, [])) \<and>
        tr_error row1 = tr_error (fst s) \<and> tr_resumed row1 = tr_resumed (fst s)" if "snd s = Some sn" for s
      using that key by (simp add: key_leg_def put_row_def)
    show "\<exists>m. session_key_for P (pc_accept (xe_server_clock env)) app req [] = (app, Inr (key, m))"
      if "rq_handshake_id req = hb_handshake_id b" for req
      using that key by (simp add: session_key_for_def)
  qed (rule key(4))
  then show ?thesis
    using that by (auto simp: keep_of_def use_up_def)
qed

text \<open>The server has nothing left of the session.\<close>

definition cleared :: "app \<Rightarrow> string \<Rightarrow> bool" where
  "cleared app hid \<longleftrightarrow> ap_session_keys app hid = None \<and> \<not> srv_live (ap_crypto app) hid"

lemma cleared_forget [simp]: "cleared (forget_session h app) h"
  by (simp add: cleared_def forget_session_def srv_table.drop_live)

text \<open>The rows of a session: the first request makes the key exchange, the others resume.\<close>

definition session_rows :: "bool \<Rightarrow> exchange_env list \<Rightarrow> json list \<Rightarrow> txn_row list \<Rightarrow> bool" where
  "session_rows resumed envs results rows \<longleftrightarrow> length rows = length envs \<and>
     (\<forall>i < length envs. good_row (rows ! i) (prediction_of (results ! i)) (resumed \<or> 0 < i) (xe_debug (envs ! i)))"

lemma session_rows_Cons:
  assumes "good_row row (prediction_of result) resumed (xe_debug env)" "session_rows True envs results rows"
  shows "session_rows resumed (env # envs) (result # results) (row # rows)"
  using assms by (auto simp: session_rows_def nth_Cons split: nat.splits)

lemma session_rows_Nil [simp]: "session_rows resumed [] results []"
  by (simp add: session_rows_def)

lemma resumed_run:
  assumes "prims_ok P" "srv_holds P (ap_crypto app) b" "issued_for hs b"
      "get_client_crypto config = Inr (server_client (ap_crypto app))"
    and "list_all2 (\<lambda>env result. answers P predict (xe_body env) result) envs results" "envs \<noteq> []"
    and "resumable P app b hs sn" "sn_requests_left sn = int (length envs)"
  shows "\<exists>rows app' sn'. exchanges P predict config hs envs (app, Some sn) = Inr (rows, app', Some sn') \<and>
    session_rows True envs results rows \<and> sn_requests_left sn' = 0 \<and> cleared app' (hb_handshake_id b)"
  using assms(5-8)
proof (induction envs arbitrary: results sn)
  case (Cons env envs)
  then obtain result results' where res: "results = result # results'" "answers P predict (xe_body env) result"
      "list_all2 (\<lambda>env result. answers P predict (xe_body env) result) envs results'"
    by (auto simp: list_all2_Cons1)
  let ?sn = "sn \<lparr> sn_requests_left := sn_requests_left sn - 1 \<rparr>"
  obtain row where row: "exchange P predict config hs env (app, Some sn) =
      Inr (row, if 1 < sn_requests_left sn then app else forget_session (hb_handshake_id b) app, Some ?sn)"
      "good_row row (prediction_of result) True (xe_debug env)"
    by (rule resumed_exchange [OF assms(1-4) res(2) Cons.prems(3)])
  show ?case
  proof (cases "envs = []")
    case True
    then show ?thesis using row res session_rows_Cons [OF row(2), of "[]" "[]" "[]"] Cons.prems(4) by simp
  next
    case False
    have "\<exists>rows app' sn'. exchanges P predict config hs envs (app, Some ?sn) = Inr (rows, app', Some sn') \<and>
        session_rows True envs results' rows \<and> sn_requests_left sn' = 0 \<and> cleared app' (hb_handshake_id b)"
      by (rule Cons.IH [OF res(3) False]) (use Cons.prems in \<open>simp_all add: resumable_def\<close>)
    moreover have "1 < sn_requests_left sn" using Cons.prems(4) False by (cases envs) simp_all
    ultimately show ?thesis using row res(1) session_rows_Cons [OF row(2)] by fastforce
  qed
qed simp

lemma session_run:
  assumes "prims_ok P" "srv_holds P (ap_crypto app) b" "issued_for hs b"
      "get_client_crypto config = Inr (server_client (ap_crypto app))"
    and "list_all2 (\<lambda>env result. answers P predict (xe_body env) result) envs results" "envs \<noteq> []"
    and "sn_session_key sn = None" "sn_requests_left sn = int (length envs)"
  shows "\<exists>rows app' sn'. exchanges P predict config hs envs (app, Some sn) = Inr (rows, app', Some sn') \<and>
    session_rows False envs results rows \<and> sn_requests_left sn' = 0 \<and> cleared app' (hb_handshake_id b)"
proof -
  obtain env rest result results' where env: "envs = env # rest" "results = result # results'" "answers P predict (xe_body env) result"
      "list_all2 (\<lambda>env result. answers P predict (xe_body env) result) rest results'"
    using assms(5,6) by (cases envs) (auto simp: list_all2_Cons1)
  obtain row app1 sn1 where first: "exchange P predict config hs env (app, Some sn) =
      Inr (row, if 1 < sn_requests_left sn then app1 else forget_session (hb_handshake_id b) app1, Some sn1)"
      "good_row row (prediction_of result) False (xe_debug env)" "resumable P app1 b hs sn1"
      "sn_requests_left sn1 = sn_requests_left sn - 1" "ap_crypto app1 = ap_crypto app \<or> \<not> 1 < sn_requests_left sn"
    by (rule first_exchange [OF assms(1-4) env(3) assms(7)])
  show ?thesis
  proof (cases "rest = []")
    case True
    then show ?thesis
      using first(1,4) env assms(8) session_rows_Cons [OF first(2), of "[]" "[]" "[]"] by simp
  next
    case False
    then have more: "1 < sn_requests_left sn" using assms(8) env(1) by (cases rest) simp_all
    have "\<exists>rows app' sn'. exchanges P predict config hs rest (app1, Some sn1) = Inr (rows, app', Some sn') \<and>
        session_rows True rest results' rows \<and> sn_requests_left sn' = 0 \<and> cleared app' (hb_handshake_id b)"
      by (rule resumed_run [OF assms(1) _ assms(3) _ env(4) False first(3)])
         (use assms(2,4,8) first(4,5) more env(1) in simp_all)
    then show ?thesis
      using first(1) more env(1,2) session_rows_Cons [OF first(2)] by fastforce
  qed
qed

end
