(* ===== verification/StreamMitm.thy ===== *)
theory StreamMitm
  imports StreamReplay StreamingClient
begin

text \<open>
  The rest of \<^verbatim>\<open>threats/streaming_mitm_experiment.py\<close>: capturing a stream, the five attacks on the
  captured sequence, one trial, the summary of a combination and the experiment over all
  combinations. Rates are rationals; a combination's trials are given as the captures they work
  on, so the experiment is a function.
\<close>

section \<open>Capturing a stream\<close>

text \<open>The rows of the data lines: chunks in order, and the last terminal record.\<close>

fun collect_rows :: "sse_line list \<Rightarrow> string chunk_row list \<Rightarrow> string row option
     \<Rightarrow> (string chunk_row list \<times> string row option) res" where
  "collect_rows [] chunks final_event = Inr (chunks, final_event)"
| "collect_rows (NonData # ls) chunks final_event = collect_rows ls chunks final_event"
| "collect_rows (DataMalformed # ls) chunks final_event = Inl JSONDecodeError"
| "collect_rows (DataOther # ls) chunks final_event = collect_rows ls chunks final_event"
| "collect_rows (DataRow (Chunk c) # ls) chunks final_event = collect_rows ls (chunks @ [c]) final_event"
| "collect_rows (DataRow row # ls) chunks final_event = collect_rows ls chunks (Some row)"

definition collect_stream ::
  "prims \<Rightarrow> rng \<Rightarrow> span \<Rightarrow> stream_net \<Rightarrow> string \<Rightarrow> string \<Rightarrow> string \<Rightarrow> int \<Rightarrow> int \<Rightarrow> int option \<Rightarrow> capture res" where
  "collect_stream P r sp net config_name strategy prompt max_tokens chunk_size_tokens checkpoint_interval =
     bind_res (get_client_crypto config_name) (\<lambda>cl.
     bind_res (nt_handshake net) (\<lambda>(hs, _).
     bind_res (bind_res (get_item hs ''kex_public_key'') b64d) (\<lambda>kex_public_key.
     bind_res (cl_establish P r sp cl kex_public_key) (\<lambda>est.
     let body = stream_request_body prompt strategy chunk_size_tokens max_tokens checkpoint_interval in
     bind_res (aead_encrypt P (r 2) (er_session_key est) (json_dumps P body) None) (\<lambda>req_aead.
     bind_res (get_item hs ''handshake_id'') (\<lambda>handshake_id.
     bind_res (nt_stream net \<lparr> rq_handshake_id = handshake_id, rq_kex_blob = b64e (er_kex_blob est),
                               rq_nonce = b64e (ar_nonce req_aead), rq_ciphertext = b64e (ar_ciphertext req_aead),
                               rq_keep_session = False \<rparr>) (\<lambda>(status, events).
     if status \<noteq> 200 then Inl RuntimeError
     else bind_res (collect_rows (map ev_line events) [] None) (\<lambda>(chunks, final_event).
     bind_res (bind_res (get_item hs ''sig_public_key'') b64d) (\<lambda>sig_public_key.
     Inr \<lparr> cp_handshake_id = handshake_id, cp_session_key = er_session_key est, cp_sig_public_key = sig_public_key,
           cp_client = cl, cp_chunks = chunks, cp_final = final_event \<rparr>)))))))))"

section \<open>The attacks\<close>

definition MITM_ATTACKS :: "string list" where
  "MITM_ATTACKS = [''drop'', ''reorder'', ''duplicate'', ''replay'', ''truncate'']"

definition ATTACKABLE_STRATEGIES :: "string list" where
  "ATTACKABLE_STRATEGIES = [''per_chunk'', ''hash_chain'']"

text \<open>Swapping two neighbours, and a subscript that raises when it is out of range.\<close>

definition swap_at :: "'a list \<Rightarrow> nat \<Rightarrow> 'a list" where
  "swap_at xs i = xs[i := xs ! Suc i, Suc i := xs ! i]"

definition drop_at :: "'a list \<Rightarrow> nat \<Rightarrow> 'a list" where
  "drop_at xs i = take i xs @ drop (Suc i) xs"

definition dup_at :: "'a list \<Rightarrow> nat \<Rightarrow> 'a list" where
  "dup_at xs i = take (Suc i) xs @ xs ! i # drop (Suc i) xs"

definition mitm_mutate ::
  "string chunk_row list \<Rightarrow> string row option \<Rightarrow> string \<Rightarrow> string chunk_row list option
     \<Rightarrow> (string chunk_row list \<times> string row option) res" where
  "mitm_mutate chunks final attack foreign =
     (let mid = length chunks div 2 in
      if attack = ''drop'' then
        (if mid < length chunks then Inr (drop_at chunks mid, final) else Inl IndexError)
      else if attack = ''reorder'' then
        (if Suc mid < length chunks then Inr (swap_at chunks mid, final) else Inl IndexError)
      else if attack = ''duplicate'' then
        (if mid < length chunks then Inr (dup_at chunks mid, final) else Inl IndexError)
      else if attack = ''replay'' then
        (case foreign of
           None \<Rightarrow> Inl TypeError
         | Some fs \<Rightarrow> if fs = [] \<or> length chunks \<le> mid then Inl IndexError
                      else Inr (chunks[mid := fs ! min mid (length fs - 1)], final))
      else if attack = ''truncate'' then Inr (take (max 1 ((2 * length chunks) div 3)) chunks, None)
      else Inl ValueError)"

section \<open>Trials and summaries\<close>

datatype trial_error = TrialNotApplicable | TrialTooShort nat | TrialExn exn

record trial_row =
  tl_config :: string
  tl_strategy :: string
  tl_attack :: string
  tl_error :: "trial_error option"
  tl_n_chunks :: "nat option"
  tl_detected :: "bool option"
  tl_detected_mid_stream :: "bool option"
  tl_chunks_before_detection :: "nat option"
  tl_fraction :: "rat option"
  tl_checkpoint_interval :: "int option"

text \<open>
  One trial on the captures \<^verbatim>\<open>_collect_stream\<close> returns: the victim's and, for a replay without
  previous donor, the donor's. The chunks handed to the next trial are the second component.
\<close>

definition trial_base :: "string \<Rightarrow> string \<Rightarrow> string \<Rightarrow> int option \<Rightarrow> trial_row" where
  "trial_base config_name strategy attack checkpoint_interval =
     \<lparr> tl_config = config_name, tl_strategy = strategy, tl_attack = attack, tl_error = None, tl_n_chunks = None,
       tl_detected = None, tl_detected_mid_stream = None, tl_chunks_before_detection = None, tl_fraction = None,
       tl_checkpoint_interval = checkpoint_interval \<rparr>"

definition judge :: "nat \<Rightarrow> nat option \<Rightarrow> trial_row \<Rightarrow> trial_row" where
  "judge n_mutated detected_at row =
     (let before = (case detected_at of None \<Rightarrow> n_mutated | Some pos \<Rightarrow> pos) in
      row \<lparr> tl_detected := Some (detected_at \<noteq> None),
            tl_detected_mid_stream := Some (case detected_at of None \<Rightarrow> False | Some pos \<Rightarrow> pos < n_mutated),
            tl_chunks_before_detection := Some before,
            tl_fraction := (if n_mutated = 0 then None else Some (of_nat before / of_nat n_mutated)),
            tl_error := (if n_mutated = 0 then Some (TrialExn ZeroDivisionError) else tl_error row) \<rparr>)"

definition run_trial ::
  "prims \<Rightarrow> (nat \<Rightarrow> span) \<Rightarrow> capture res \<Rightarrow> capture res \<Rightarrow> string \<Rightarrow> string \<Rightarrow> string \<Rightarrow> int option
     \<Rightarrow> string chunk_row list option \<Rightarrow> trial_row \<times> string chunk_row list option" where
  "run_trial P sps captured donated config_name strategy attack checkpoint_interval foreign_chunks =
     (let result = trial_base config_name strategy attack checkpoint_interval in
      if strategy \<notin> set ATTACKABLE_STRATEGIES then (result \<lparr> tl_error := Some TrialNotApplicable \<rparr>, None)
      else case captured of
        Inl e \<Rightarrow> (result \<lparr> tl_error := Some (TrialExn e) \<rparr>, None)
      | Inr cap \<Rightarrow>
          (case (if attack = ''replay'' \<and> (foreign_chunks = None \<or> foreign_chunks = Some [])
                 then map_sum id (\<lambda>donor. Some (cp_chunks donor)) donated else Inr foreign_chunks) of
             Inl e \<Rightarrow> (result \<lparr> tl_error := Some (TrialExn e) \<rparr>, None)
           | Inr foreign \<Rightarrow>
               let n = length (cp_chunks cap); result1 = result \<lparr> tl_n_chunks := Some n \<rparr>; next_foreign = Some (cp_chunks cap) in
               if n < 3 then (result1 \<lparr> tl_error := Some (TrialTooShort n) \<rparr>, next_foreign)
               else case mitm_mutate (cp_chunks cap) (cp_final cap) attack foreign of
                 Inl e \<Rightarrow> (result1 \<lparr> tl_error := Some (TrialExn e) \<rparr>, next_foreign)
               | Inr (mutated, final) \<Rightarrow>
                   (case replay_through_client P sps cap mutated final strategy checkpoint_interval True of
                      Inl e \<Rightarrow> (result1 \<lparr> tl_error := Some (TrialExn e) \<rparr>, next_foreign)
                    | Inr (detected_at, _) \<Rightarrow> (judge (length mutated) detected_at result1, next_foreign))))"

record mitm_summary =
  su_config :: string
  su_strategy :: string
  su_attack :: string
  su_checkpoint_interval :: "int option"
  su_n_trials :: nat
  su_n_valid_trials :: nat
  su_detection_rate :: "rat option"
  su_mid_stream_detection_rate :: "rat option"
  su_fraction_mean :: "rat option"

definition ratio_or_none :: "nat \<Rightarrow> nat \<Rightarrow> rat option" where
  "ratio_or_none k n = (if n = 0 then None else Some (of_nat k / of_nat n))"

definition mean_or_none :: "rat list \<Rightarrow> rat option" where
  "mean_or_none xs = (if xs = [] then None else Some (mean xs))"

definition summarize :: "trial_row list \<Rightarrow> string \<Rightarrow> string \<Rightarrow> string \<Rightarrow> mitm_summary" where
  "summarize rows config strategy attack =
     (let valid = filter (\<lambda>r. tl_error r = None) rows;
          n_valid = length valid;
          n_detected = length (filter (\<lambda>r. tl_detected r = Some True) valid);
          n_mid = length (filter (\<lambda>r. tl_detected_mid_stream r = Some True) valid);
          fractions = List.map_filter tl_fraction valid in
      \<lparr> su_config = config, su_strategy = strategy, su_attack = attack,
        su_checkpoint_interval = (case rows of [] \<Rightarrow> None | r # _ \<Rightarrow> tl_checkpoint_interval r),
        su_n_trials = length rows, su_n_valid_trials = n_valid,
        su_detection_rate = ratio_or_none n_detected n_valid, su_mid_stream_detection_rate = ratio_or_none n_mid n_valid,
        su_fraction_mean = mean_or_none fractions \<rparr>)"

text \<open>The trials of one combination; each hands its chunks to the next as replay donor.\<close>

fun combo_rows ::
  "prims \<Rightarrow> (nat \<Rightarrow> span) \<Rightarrow> (capture res \<times> capture res) list \<Rightarrow> string \<Rightarrow> string \<Rightarrow> string \<Rightarrow> int option
     \<Rightarrow> string chunk_row list option \<Rightarrow> trial_row list" where
  "combo_rows P sps [] config strategy attack k foreign = []"
| "combo_rows P sps ((cap, donor) # trials) config strategy attack k foreign =
     (let (row, next_foreign) = run_trial P sps cap donor config strategy attack k foreign;
          foreign' = (case next_foreign of None \<Rightarrow> foreign | Some fs \<Rightarrow> if fs = [] then foreign else Some fs) in
      row # combo_rows P sps trials config strategy attack k foreign')"

definition combos :: "string list \<Rightarrow> string list \<Rightarrow> string list \<Rightarrow> (string \<times> string \<times> string) list" where
  "combos configs strategies attacks =
     concat (map (\<lambda>config. concat (map (\<lambda>strategy.
       map (\<lambda>attack. (config, strategy, attack))
         (if strategy \<in> set ATTACKABLE_STRATEGIES then attacks else take 1 attacks)) strategies)) configs)"

definition run_experiment ::
  "prims \<Rightarrow> (nat \<Rightarrow> span) \<Rightarrow> (string \<times> string \<times> string \<Rightarrow> nat \<Rightarrow> capture res \<times> capture res)
     \<Rightarrow> string list \<Rightarrow> string list \<Rightarrow> string list \<Rightarrow> nat \<Rightarrow> int option \<Rightarrow> trial_row list \<times> mitm_summary list" where
  "run_experiment P sps captures configs strategies attacks trials k =
     (let combo_results = map (\<lambda>(config, strategy, attack).
            ((config, strategy, attack),
             combo_rows P sps (map (captures (config, strategy, attack))
                [0..<if strategy \<in> set ATTACKABLE_STRATEGIES then trials else 1]) config strategy attack k None))
          (combos configs strategies attacks) in
      (concat (map snd combo_results),
       map (\<lambda>((config, strategy, attack), rows). summarize rows config strategy attack) combo_results))"

section \<open>What the attacks do to the sequence\<close>

lemma drop_at_length: "i < length xs \<Longrightarrow> length (drop_at xs i) = length xs - 1"
  by (simp add: drop_at_def)

lemma dup_at_length: "i < length xs \<Longrightarrow> length (dup_at xs i) = length xs + 1"
  by (simp add: dup_at_def)

lemma swap_at_nth:
  assumes "Suc i < length xs"
  shows "swap_at xs i ! i = xs ! Suc i" "swap_at xs i ! Suc i = xs ! i" "length (swap_at xs i) = length xs"
    "j < length xs \<Longrightarrow> j \<noteq> i \<Longrightarrow> j \<noteq> Suc i \<Longrightarrow> swap_at xs i ! j = xs ! j"
  using assms by (simp_all add: swap_at_def)

lemma map_drop_at: "map f (drop_at xs i) = drop_at (map f xs) i"
  by (simp add: drop_at_def take_map drop_map)

lemma map_dup_at: "i < length xs \<Longrightarrow> map f (dup_at xs i) = dup_at (map f xs) i"
  by (simp add: dup_at_def take_map drop_map)

lemma map_swap_at: "Suc i < length xs \<Longrightarrow> map f (swap_at xs i) = swap_at (map f xs) i"
  by (simp add: swap_at_def map_update)

lemma set_drop_at: "set (drop_at xs i) \<subseteq> set xs"
  by (auto simp: drop_at_def dest: in_set_takeD in_set_dropD)

lemma set_dup_at: "i < length xs \<Longrightarrow> set (dup_at xs i) \<subseteq> set xs"
  by (auto simp: dup_at_def dest: in_set_takeD in_set_dropD)

lemma set_swap_at: "Suc i < length xs \<Longrightarrow> set (swap_at xs i) \<subseteq> set xs"
  by (auto simp: swap_at_def set_conv_nth nth_list_update split: if_splits)

text \<open>A dropped, duplicated or swapped element changes an indexed sequence.\<close>

lemma indexed_nth: "i < length es \<Longrightarrow> indexed es ! i = (int i, envelope (es ! i))"
  by (simp add: indexed_def)

lemma length_indexed [simp]: "length (indexed es) = length es"
  by (simp add: indexed_def)

lemma drop_at_changes: "i < length xs \<Longrightarrow> drop_at xs i \<noteq> xs"
  using drop_at_length [of i xs] by (metis Suc_pred diff_Suc_1 n_not_Suc_n zero_less_diff less_nat_zero_code length_greater_0_conv list.size(3))

lemma dup_at_changes: "i < length xs \<Longrightarrow> dup_at xs i \<noteq> xs"
  using dup_at_length [of i xs] by auto

lemma swap_at_changes:
  assumes "Suc i < length xs" "xs ! i \<noteq> xs ! Suc i"
  shows "swap_at xs i \<noteq> xs"
  using swap_at_nth(1) [OF assms(1)] assms(2) by auto

section \<open>Summaries\<close>

lemma ratio_bounds: "k \<le> n \<Longrightarrow> ratio_or_none k n = Some r \<Longrightarrow> 0 \<le> r \<and> r \<le> 1"
  by (auto simp: ratio_or_none_def divide_le_eq split: if_splits)

lemma length_combo_rows: "length (combo_rows P sps trials c s a k foreign) = length trials"
  by (induction P sps trials c s a k foreign rule: combo_rows.induct) (auto simp: Let_def split: prod.splits)

text \<open>The trial's row agrees with the replay: detected means rejected, and mid-stream detection implies detection.\<close>

lemma judge_consistent:
  assumes "n_mutated \<noteq> 0"
  shows "tl_detected (judge n_mutated d row) = Some (d \<noteq> None)"
    "tl_detected_mid_stream (judge n_mutated d row) = Some True \<Longrightarrow> tl_detected (judge n_mutated d row) = Some True"
  using assms by (auto simp: judge_def Let_def split: option.splits)

definition row_ok :: "trial_row \<Rightarrow> bool" where
  "row_ok r \<longleftrightarrow> (tl_detected_mid_stream r = Some True \<longrightarrow> tl_detected r = Some True) \<and>
     (\<forall>x. tl_fraction r = Some x \<longrightarrow> 0 \<le> x)"

lemma judge_row_ok: "row_ok (judge n d row)"
  by (auto simp: row_ok_def judge_def Let_def split: option.splits)

lemma row_ok_upd [simp]:
  "row_ok (r \<lparr> tl_error := e \<rparr>) = row_ok r" "row_ok (r \<lparr> tl_n_chunks := m \<rparr>) = row_ok r" "row_ok (trial_base c s a k)"
  by (simp_all add: row_ok_def trial_base_def)

lemma run_trial_row_ok: "row_ok (fst (run_trial P sps cap donor c s a k foreign))"
  by (simp add: run_trial_def Let_def judge_row_ok split: sum.split prod.split)

lemma combo_rows_ok: "\<forall>r \<in> set (combo_rows P sps trials c s a k foreign). row_ok r"
proof (induction trials arbitrary: foreign)
  case (Cons t trials)
  obtain cap donor where t: "t = (cap, donor)" by fastforce
  obtain row nf where "run_trial P sps cap donor c s a k foreign = (row, nf)" by fastforce
  then show ?case
    using run_trial_row_ok [of P sps cap donor c s a k foreign] Cons t by (simp add: Let_def)
qed simp

lemma filter_imp_length: "(\<And>x. x \<in> set xs \<Longrightarrow> p x \<Longrightarrow> q x) \<Longrightarrow> length (filter p xs) \<le> length (filter q xs)"
  by (induction xs) auto

lemma summarize_rates:
  assumes "\<forall>r \<in> set rows. row_ok r"
  shows "su_detection_rate (summarize rows c s a) = Some d \<Longrightarrow> 0 \<le> d \<and> d \<le> 1"
    and "su_detection_rate (summarize rows c s a) = Some d \<Longrightarrow> su_mid_stream_detection_rate (summarize rows c s a) = Some m \<Longrightarrow> m \<le> d"
proof -
  let ?valid = "filter (\<lambda>r. tl_error r = None) rows"
  show "su_detection_rate (summarize rows c s a) = Some d \<Longrightarrow> 0 \<le> d \<and> d \<le> 1"
    using ratio_bounds [OF length_filter_le [of "\<lambda>r. tl_detected r = Some True" ?valid]] by (simp add: summarize_def Let_def)
  have "length (filter (\<lambda>r. tl_detected_mid_stream r = Some True) ?valid) \<le> length (filter (\<lambda>r. tl_detected r = Some True) ?valid)"
    by (rule filter_imp_length) (use assms in \<open>auto simp: row_ok_def\<close>)
  then show "su_detection_rate (summarize rows c s a) = Some d \<Longrightarrow> su_mid_stream_detection_rate (summarize rows c s a) = Some m \<Longrightarrow> m \<le> d"
    by (auto simp: summarize_def Let_def ratio_or_none_def divide_right_mono split: if_splits)
qed

end
