(* ===== verification/AttackCampaign.thy ===== *)
theory AttackCampaign
  imports StreamMitm
begin

text \<open>
  \<^verbatim>\<open>threats/streaming_attack_campaign.py\<close>: random static and adaptive sequence attacks on a pool
  of captured streams. \<^verbatim>\<open>random.Random\<close> is a source of draws: each trial receives the two pool
  indices \<^verbatim>\<open>rng.sample\<close> picks and the number its one position draw is taken from.
\<close>

section \<open>Random positions\<close>

definition randrange :: "nat \<Rightarrow> nat \<Rightarrow> nat \<Rightarrow> nat res" where
  "randrange d lo hi = (if hi \<le> lo then Inl ValueError else Inr (lo + d mod (hi - lo)))"

lemma randrange_bounds:
  assumes "randrange d lo hi = Inr i"
  shows "lo \<le> i \<and> i < hi"
proof -
  have lt: "lo < hi" using assms by (simp add: randrange_def split: if_splits)
  then have "d mod (hi - lo) < hi - lo" by (intro mod_less_divisor) simp
  moreover have "i = lo + d mod (hi - lo)" using assms lt by (simp add: randrange_def)
  ultimately show ?thesis using lt by linarith
qed

definition STATIC_ATTACKS :: "string list" where
  "STATIC_ATTACKS = [''drop'', ''reorder'', ''duplicate'', ''replay'', ''truncate'', ''session_replay'']"

definition ADAPTIVE_ATTACKS :: "string list" where
  "ADAPTIVE_ATTACKS = [''checkpoint_strip'', ''checkpoint_strip_v2client'', ''checkpoint_move'',
     ''drop_before_ckpt'', ''drop_after_ckpt'', ''reorder_across'']"

section \<open>Mutations\<close>

definition has_signature :: "string chunk_row \<Rightarrow> bool" where
  "has_signature c \<longleftrightarrow> (case ck_signature c of None \<Rightarrow> False | Some s \<Rightarrow> s \<noteq> [])"

definition ckpt_positions :: "string chunk_row list \<Rightarrow> nat list" where
  "ckpt_positions chunks = filter (\<lambda>i. has_signature (chunks ! i)) [0..<length chunks]"

type_synonym mutation = "capture \<times> string chunk_row list \<times> string row option \<times> nat"

definition static_mutate :: "nat \<Rightarrow> capture \<Rightarrow> capture \<Rightarrow> string \<Rightarrow> mutation res" where
  "static_mutate d cap donor attack =
     (let chunks = cp_chunks cap; final = cp_final cap; n = length chunks in
      if attack = ''drop'' then
        bind_res (randrange d 0 n) (\<lambda>i. Inr (cap, drop_at chunks i, final, i))
      else if attack = ''reorder'' then
        bind_res (randrange d 0 (n - 1)) (\<lambda>i. Inr (cap, swap_at chunks i, final, i))
      else if attack = ''duplicate'' then
        bind_res (randrange d 0 n) (\<lambda>i. Inr (cap, dup_at chunks i, final, i + 1))
      else if attack = ''replay'' then
        bind_res (randrange d 0 (min n (length (cp_chunks donor)))) (\<lambda>i.
        Inr (cap, chunks[i := cp_chunks donor ! i], final, i))
      else if attack = ''truncate'' then
        bind_res (randrange d 1 (n + 1)) (\<lambda>cut. Inr (cap, take cut chunks, None, cut))
      else Inr (cap, cp_chunks donor, cp_final donor, 0))"

definition strip_signature :: "string chunk_row \<Rightarrow> string chunk_row" where
  "strip_signature c = (if has_signature c then c \<lparr> ck_signature := None, ck_signature_bytes := 0 \<rparr> else c)"

definition move_signature :: "string chunk_row list \<Rightarrow> nat \<Rightarrow> string chunk_row list" where
  "move_signature chunks j =
     chunks[Suc j := (chunks ! Suc j) \<lparr> ck_signature := ck_signature (chunks ! j) \<rparr>,
            j := (chunks ! j) \<lparr> ck_signature := None \<rparr>]"

definition adaptive_mutate :: "nat \<Rightarrow> capture \<Rightarrow> string \<Rightarrow> string \<Rightarrow> mutation option res" where
  "adaptive_mutate d cap attack strategy =
     (let chunks = cp_chunks cap; final = cp_final cap; n = length chunks; ck = ckpt_positions chunks in
      if strategy \<noteq> ''hash_chain'' \<or> ck = [] then Inr None
      else if attack = ''checkpoint_strip'' \<or> attack = ''checkpoint_strip_v2client'' then
        Inr (Some (cap, map strip_signature chunks, final, ck ! 0))
      else
        let j = ck ! (d mod length ck) in
        if attack = ''checkpoint_move'' then
          (if n \<le> j + 1 then Inr None else Inr (Some (cap, move_signature chunks j, final, j)))
        else if attack = ''drop_before_ckpt'' then
          (if j = 0 then Inr None else Inr (Some (cap, take (j - 1) chunks @ drop j chunks, final, j - 1)))
        else if attack = ''drop_after_ckpt'' then
          (if n \<le> j + 1 then Inr None else Inr (Some (cap, take (j + 1) chunks @ drop (j + 2) chunks, final, j + 1)))
        else if attack = ''reorder_across'' then
          (if n \<le> j + 1 then Inr None else Inr (Some (cap, swap_at chunks j, final, j)))
        else Inl ValueError)"

definition mutate :: "nat \<Rightarrow> capture \<Rightarrow> capture \<Rightarrow> string \<Rightarrow> string \<Rightarrow> mutation option res" where
  "mutate d cap donor attack strategy =
     (if attack \<in> set STATIC_ATTACKS then map_sum id Some (static_mutate d cap donor attack)
      else adaptive_mutate d cap attack strategy)"

section \<open>A cell of the campaign\<close>

record cell_row =
  ce_config :: string
  ce_strategy :: string
  ce_checkpoint_interval :: "int option"
  ce_attack :: string
  ce_n :: nat
  ce_detected :: nat
  ce_detected_ci95 :: "(rat \<times> rat) option"
  ce_mid_stream :: "nat option"
  ce_exposure_mean :: "rat option"
  ce_exposure_max :: "nat option"
  ce_unverified_mean :: "rat option"
  ce_unverified_max :: "nat option"
  ce_n_chunks_mean :: rat

text \<open>
  \<^verbatim>\<open>clopper_pearson\<close> with SciPy's \<^verbatim>\<open>beta.ppf\<close> as a parameter.
\<close>

definition clopper_pearson :: "(rat \<Rightarrow> nat \<Rightarrow> nat \<Rightarrow> rat) \<Rightarrow> nat \<Rightarrow> nat \<Rightarrow> rat \<times> rat" where
  "clopper_pearson ppf k n =
     (if k = 0 then 0 else ppf (1 / 40) k (n - k + 1), if k = n then 1 else ppf (39 / 40) (k + 1) (n - k))"

record cell_tally =
  ta_n :: nat
  ta_det :: nat
  ta_mid :: nat
  ta_exposures :: "nat list"
  ta_unverified :: "nat list"

definition tally0 :: cell_tally where
  "tally0 = \<lparr> ta_n = 0, ta_det = 0, ta_mid = 0, ta_exposures = [], ta_unverified = [] \<rparr>"

text \<open>No more chunks are covered than were replayed, so the difference of position and coverage is natural.\<close>

definition tally_trial :: "string \<Rightarrow> nat \<Rightarrow> nat \<Rightarrow> nat option \<times> nat \<Rightarrow> cell_tally \<Rightarrow> cell_tally" where
  "tally_trial attack first n_mutated outcome ta =
     (case fst outcome of
        Some pos \<Rightarrow> ta \<lparr> ta_n := ta_n ta + 1, ta_det := ta_det ta + 1,
                       ta_mid := ta_mid ta + (if pos < n_mutated then 1 else 0),
                       ta_exposures := ta_exposures ta @ [pos - first],
                       ta_unverified := ta_unverified ta @ [pos - snd outcome] \<rparr>
      | None \<Rightarrow> if attack = ''checkpoint_strip_v2client''
                then ta \<lparr> ta_n := ta_n ta + 1, ta_unverified := ta_unverified ta @ [n_mutated] \<rparr>
                else ta \<lparr> ta_n := ta_n ta + 1 \<rparr>)"

text \<open>
  The trial loop: at most \<open>tries\<close> attempts (five per wanted trial), stopping when \<open>trials\<close>
  applied; \<open>draws t\<close> gives the two pool indices and the position draw of attempt \<open>t\<close>.
\<close>

fun trial_loop ::
  "prims \<Rightarrow> (nat \<Rightarrow> span) \<Rightarrow> (nat \<Rightarrow> nat \<times> nat \<times> nat) \<Rightarrow> capture list \<Rightarrow> string \<Rightarrow> string \<Rightarrow> int option \<Rightarrow> nat \<Rightarrow> nat
     \<Rightarrow> cell_tally \<Rightarrow> cell_tally res" where
  "trial_loop P sps draws pool attack strategy k trials 0 ta = Inr ta"
| "trial_loop P sps draws pool attack strategy k trials (Suc tries) ta =
     (if trials \<le> ta_n ta then Inr ta
      else if length pool < 2 then Inl ValueError
      else
        let (a, b, d) = draws tries in
        bind_res (mutate d (pool ! a) (pool ! b) attack strategy) (\<lambda>m.
        case m of
          None \<Rightarrow> trial_loop P sps draws pool attack strategy k trials tries ta
        | Some (cap, mutated, final, first) \<Rightarrow>
            bind_res (replay_through_client P sps cap mutated final strategy k (attack \<noteq> ''checkpoint_strip_v2client'')) (\<lambda>outcome.
            trial_loop P sps draws pool attack strategy k trials tries
              (tally_trial attack first (length mutated) outcome ta))))"

definition max_or_none :: "nat list \<Rightarrow> nat option" where
  "max_or_none xs = (if xs = [] then None else Some (Max (set xs)))"

definition cell_row_of ::
  "(rat \<Rightarrow> nat \<Rightarrow> nat \<Rightarrow> rat) \<Rightarrow> string \<Rightarrow> string \<Rightarrow> int option \<Rightarrow> rat \<Rightarrow> string \<Rightarrow> cell_tally \<Rightarrow> cell_row" where
  "cell_row_of ppf cfg strategy k n_chunks_mean attack ta =
     \<lparr> ce_config = cfg, ce_strategy = strategy, ce_checkpoint_interval = k, ce_attack = attack, ce_n = ta_n ta,
       ce_detected = ta_det ta,
       ce_detected_ci95 = (if ta_n ta = 0 then None else Some (clopper_pearson ppf (ta_det ta) (ta_n ta))),
       ce_mid_stream = Some (ta_mid ta),
       ce_exposure_mean = mean_or_none (map of_nat (ta_exposures ta)), ce_exposure_max = max_or_none (ta_exposures ta),
       ce_unverified_mean = mean_or_none (map of_nat (ta_unverified ta)), ce_unverified_max = max_or_none (ta_unverified ta),
       ce_n_chunks_mean = n_chunks_mean \<rparr>"

text \<open>The false-rejection baseline: every genuine stream must verify.\<close>

definition false_rejections :: "prims \<Rightarrow> (nat \<Rightarrow> span) \<Rightarrow> string \<Rightarrow> int option \<Rightarrow> capture list \<Rightarrow> nat res" where
  "false_rejections P sps strategy k pool =
     bind_res (map_res (\<lambda>c. replay_through_client P sps c (cp_chunks c) (cp_final c) strategy k True) pool) (\<lambda>outs.
     Inr (length (filter (\<lambda>out. fst out \<noteq> None) outs)))"

definition run_cell ::
  "prims \<Rightarrow> (nat \<Rightarrow> span) \<Rightarrow> (rat \<Rightarrow> nat \<Rightarrow> nat \<Rightarrow> rat) \<Rightarrow> (string \<Rightarrow> nat \<Rightarrow> nat \<times> nat \<times> nat) \<Rightarrow> capture list \<Rightarrow> string \<Rightarrow> string
     \<Rightarrow> int option \<Rightarrow> nat \<Rightarrow> cell_row list res" where
  "run_cell P sps ppf draws pool cfg strategy k trials =
     bind_res (false_rejections P sps strategy k pool) (\<lambda>false_rej.
     if pool = [] then Inl ZeroDivisionError
     else
       let n_chunks_mean = mean (map (\<lambda>c. of_nat (length (cp_chunks c))) pool);
           benign = \<lparr> ce_config = cfg, ce_strategy = strategy, ce_checkpoint_interval = k, ce_attack = ''benign'',
             ce_n = length pool, ce_detected = false_rej,
             ce_detected_ci95 = Some (clopper_pearson ppf false_rej (length pool)), ce_mid_stream = None,
             ce_exposure_mean = None, ce_exposure_max = None, ce_unverified_mean = None, ce_unverified_max = None,
             ce_n_chunks_mean = n_chunks_mean \<rparr>;
           attacks = STATIC_ATTACKS @ (if strategy = ''hash_chain'' \<and> truthy_int k then ADAPTIVE_ATTACKS else []) in
       bind_res (map_res (\<lambda>attack. map_sum id (cell_row_of ppf cfg strategy k n_chunks_mean attack)
                  (trial_loop P sps (draws attack) pool attack strategy k trials (trials * 5) tally0)) attacks) (\<lambda>rows.
       Inr (benign # rows)))"

section \<open>The first affected position\<close>

lemma take_update_same: "i \<le> j \<Longrightarrow> take i (xs[j := x]) = take i xs"
  by (simp add: take_update_swap list_update_beyond)

text \<open>Up to the reported position the delivered rows are the genuine ones.\<close>

lemma ckpt_positions_mem: "j \<in> set (ckpt_positions chunks) \<longleftrightarrow> j < length chunks \<and> has_signature (chunks ! j)"
  by (auto simp: ckpt_positions_def)

lemma ckpt_positions_first:
  assumes "ckpt_positions chunks \<noteq> []" "i < ckpt_positions chunks ! 0"
  shows "\<not> has_signature (chunks ! i)"
proof
  assume h: "has_signature (chunks ! i)"
  have sorted: "sorted (ckpt_positions chunks)"
    unfolding ckpt_positions_def by (simp add: sorted_wrt_filter)
  have "ckpt_positions chunks ! 0 < length chunks"
    using assms(1) ckpt_positions_mem [of "ckpt_positions chunks ! 0" chunks] by (simp add: nth_mem)
  then have "i \<in> set (ckpt_positions chunks)"
    using h assms(2) by (simp add: ckpt_positions_mem)
  then have "ckpt_positions chunks ! 0 \<le> i"
    using sorted by (metis in_set_conv_nth le0 sorted_nth_mono)
  then show False using assms(2) by simp
qed

lemma strip_prefix:
  assumes "ckpt_positions chunks \<noteq> []"
  shows "take (ckpt_positions chunks ! 0) (map strip_signature chunks) = take (ckpt_positions chunks ! 0) chunks"
proof (rule nth_take_lemma)
  have len: "ckpt_positions chunks ! 0 < length chunks"
    using assms ckpt_positions_mem [of "ckpt_positions chunks ! 0" chunks] by (simp add: nth_mem)
  show "i < ckpt_positions chunks ! 0 \<longrightarrow> map strip_signature chunks ! i = chunks ! i" for i
    using len ckpt_positions_first [OF assms, of i] by (auto simp: strip_signature_def)
  show "ckpt_positions chunks ! 0 \<le> length (map strip_signature chunks)" "ckpt_positions chunks ! 0 \<le> length chunks"
    using len by simp_all
qed

lemma static_mutate_prefix:
  "static_mutate d cap donor attack = Inr (cap', mutated, final, first) \<Longrightarrow>
     cap' = cap \<and> take first mutated = take first (cp_chunks cap)"
  by (auto simp: static_mutate_def Let_def drop_at_def swap_at_def dup_at_def take_update_same min_def
      dest!: randrange_bounds split: if_splits)

lemma adaptive_mutate_prefix:
  "adaptive_mutate d cap attack strategy = Inr (Some (cap', mutated, final, first)) \<Longrightarrow>
     cap' = cap \<and> take first mutated = take first (cp_chunks cap)"
  by (auto simp: adaptive_mutate_def Let_def swap_at_def move_signature_def take_update_same min_def strip_prefix
      split: if_splits)

lemma mutate_prefix:
  "mutate d cap donor attack strategy = Inr (Some (cap', mutated, final, first)) \<Longrightarrow>
     cap' = cap \<and> take first mutated = take first (cp_chunks cap)"
  using static_mutate_prefix [of d cap donor attack] adaptive_mutate_prefix [of d cap attack strategy]
  by (auto simp: mutate_def split: if_splits)

section \<open>The tally\<close>

definition tally_ok :: "string \<Rightarrow> nat \<Rightarrow> cell_tally \<Rightarrow> bool" where
  "tally_ok attack trials ta \<longleftrightarrow> ta_det ta \<le> ta_n ta \<and> ta_n ta \<le> trials \<and> ta_mid ta \<le> ta_det ta
     \<and> length (ta_exposures ta) = ta_det ta
     \<and> (attack \<noteq> ''checkpoint_strip_v2client'' \<longrightarrow> length (ta_unverified ta) = ta_det ta)"

lemma tally_trial_ok: "tally_ok attack trials ta \<Longrightarrow> ta_n ta < trials \<Longrightarrow> tally_ok attack trials (tally_trial attack first m out ta)"
  by (auto simp: tally_ok_def tally_trial_def split: option.splits)

lemma trial_loop_ok:
  assumes "tally_ok attack trials ta" "trial_loop P sps draws pool attack strategy k trials tries ta = Inr ta'"
  shows "tally_ok attack trials ta'"
  using assms
proof (induction tries arbitrary: ta)
  case (Suc tries)
  show ?case
  proof (cases "trials \<le> ta_n ta \<or> length pool < 2")
    case False
    obtain a b d where abd: "draws tries = (a, b, d)" by (cases "draws tries") auto
    from Suc.prems(2) False obtain m where m: "mutate d (pool ! a) (pool ! b) attack strategy = Inr m"
        "(case m of None \<Rightarrow> trial_loop P sps draws pool attack strategy k trials tries ta
        | Some (cap, mutated, final, first) \<Rightarrow>
            bind_res (replay_through_client P sps cap mutated final strategy k (attack \<noteq> ''checkpoint_strip_v2client'')) (\<lambda>outcome.
            trial_loop P sps draws pool attack strategy k trials tries
              (tally_trial attack first (length mutated) outcome ta))) = Inr ta'"
      by (auto simp: abd)
    show ?thesis
    proof (cases m)
      case None
      then show ?thesis using m(2) Suc.IH [OF Suc.prems(1)] by simp
    next
      case (Some q)
      obtain cap mutated final first where q: "q = (cap, mutated, final, first)" by (cases q) auto
      obtain outcome where rest: "trial_loop P sps draws pool attack strategy k trials tries
          (tally_trial attack first (length mutated) outcome ta) = Inr ta'"
        using m(2) Some q by auto
      show ?thesis
        by (rule Suc.IH [OF _ rest], rule tally_trial_ok [OF Suc.prems(1)]) (use False in simp)
    qed
  qed (use Suc.prems in \<open>auto split: if_splits\<close>)
qed simp

end
