(* ===== verification/KeySubstitution.thy ===== *)
theory KeySubstitution
  imports PredictTransaction AttackCampaign
begin

text \<open>
  \<^verbatim>\<open>threats/key_substitution.py\<close>: a man in the middle who replaces the server's key shares in the
  handshake, terminates both legs and forges the response. One trial is a function of the network
  behind the attacker and of the draws: \<open>rs 0\<close> and \<open>rs 1\<close> are the attacker's key shares and
  transcript signature, \<open>rs 2\<close> the client's, \<open>rs 3\<close> the attacker's upstream session, \<open>rs 4\<close> the
  forged response, \<open>rs 5\<close> the guessed key. The request is the profile's sample request.
\<close>

section \<open>One trial\<close>

definition VARIANTS :: "string list" where
  "VARIANTS = [''benign'', ''substitute'', ''substitute_resign'', ''relay_tamper'']"

definition MODES :: "string list" where
  "MODES = [''unauthenticated'', ''pinned'']"

definition FORGED_PREDICTION :: string where
  "FORGED_PREDICTION = ''attacker-chosen''"

record ks_row =
  ks_config :: string
  ks_variant :: string
  ks_mode :: string
  ks_error :: "exn option"
  ks_client_accepted :: bool
  ks_rejected_at :: "string option"
  ks_attacker_read_request :: bool
  ks_forged_response_accepted :: bool

definition ks_row0 :: "string \<Rightarrow> string \<Rightarrow> string \<Rightarrow> ks_row" where
  "ks_row0 cfg variant mode =
     \<lparr> ks_config = cfg, ks_variant = variant, ks_mode = mode, ks_error = None, ks_client_accepted = False,
       ks_rejected_at = None, ks_attacker_read_request = False, ks_forged_response_accepted = False \<rparr>"

text \<open>\<^verbatim>\<open>json.loads\<close>, and \<^verbatim>\<open>{**d, k: v}\<close>, which keeps the place of a key that is there.\<close>

definition loads :: "prims \<Rightarrow> bytes \<Rightarrow> json res" where
  "loads P b = (case json_loads P b of None \<Rightarrow> Inl JSONDecodeError | Some j \<Rightarrow> Inr j)"

definition json_set :: "json \<Rightarrow> string \<Rightarrow> json \<Rightarrow> json res" where
  "json_set j k v =
     (case j of
        JObj kvs \<Rightarrow> Inr (JObj (if k \<in> fst ` set kvs then map (\<lambda>p. if fst p = k then (k, v) else p) kvs else kvs @ [(k, v)]))
      | _ \<Rightarrow> Inl TypeError)"

text \<open>The handshake the client sees, and the attacker's server when keys were replaced.\<close>

definition substitute_keys ::
  "prims \<Rightarrow> string \<Rightarrow> (nat \<Rightarrow> rng) \<Rightarrow> span \<Rightarrow> string \<Rightarrow> string \<Rightarrow> identity_key \<Rightarrow> json_strings
     \<Rightarrow> (json_strings \<times> server_crypto option) res" where
  "substitute_keys P u rs sp cfg variant attacker_identity real_hs =
     (if variant = ''substitute'' \<or> variant = ''substitute_resign'' then
        bind_res (get_server_crypto cfg) (\<lambda>srv.
        bind_res (get_item real_hs ''handshake_id'') (\<lambda>hid.
        case srv_new_handshake P u (rs 0) sp (Some hid) srv of
          (_, Inl e) \<Rightarrow> Inl e
        | (atk_server, Inr bundle) \<Rightarrow>
            let hs = real_hs(''kex_public_key'' \<mapsto> b64e (hb_kex_public_key bundle),
                             ''sig_public_key'' \<mapsto> b64e (hb_sig_public_key bundle)) in
            if variant = ''substitute_resign'' then
              bind_res (get_item hs ''kex_algorithm'') (\<lambda>kex_algorithm.
              bind_res (get_item hs ''sig_algorithm'') (\<lambda>sig_algorithm.
              bind_res (transcript P hid kex_algorithm sig_algorithm (hb_kex_public_key bundle) (hb_sig_public_key bundle)) (\<lambda>msg.
              bind_res (identity_sign P (rs 1 0) sp attacker_identity msg) (\<lambda>(sg, _).
              Inr (hs(''transcript_signature'' \<mapsto> b64e sg), Some atk_server)))))
            else Inr (hs, Some atk_server)))
      else Inr (real_hs, None))"

definition post_predict :: "txn_net \<Rightarrow> string \<Rightarrow> bytes \<Rightarrow> aead_result \<Rightarrow> secure_predict_response res" where
  "post_predict net handshake_id kex_blob req =
     bind_res (tn_predict net None \<lparr> rq_handshake_id = handshake_id, rq_kex_blob = b64e kex_blob,
        rq_nonce = b64e (ar_nonce req), rq_ciphertext = b64e (ar_ciphertext req), rq_keep_session = False \<rparr>) (\<lambda>(status, body).
     bind_res (raise_for_status status) (\<lambda>_. body))"

text \<open>The attacker in the middle: read the request, forward it upstream, forge and sign the answer.\<close>

definition forge_leg ::
  "prims \<Rightarrow> (nat \<Rightarrow> rng) \<Rightarrow> span \<Rightarrow> txn_net \<Rightarrow> client_crypto \<Rightarrow> json \<Rightarrow> json_strings \<Rightarrow> server_crypto \<Rightarrow> bytes \<Rightarrow> aead_result
     \<Rightarrow> (bool \<times> bytes \<times> bytes \<times> bytes) res" where
  "forge_leg P rs sp net cl request real_hs atk_server kex_blob req =
     bind_res (get_item real_hs ''handshake_id'') (\<lambda>hid.
     bind_res (srv_accept P sp atk_server hid kex_blob) (\<lambda>(atk_key, _).
     bind_res (aead_decrypt P atk_key (ar_nonce req) (ar_ciphertext req) None) (\<lambda>plaintext.
     bind_res (loads P plaintext) (\<lambda>seen.
     bind_res (bind_res (get_item real_hs ''kex_public_key'') b64d) (\<lambda>real_kex.
     bind_res (cl_establish P (rs 3) sp cl real_kex) (\<lambda>up_est.
     bind_res (aead_encrypt P (rs 3 2) (er_session_key up_est) plaintext None) (\<lambda>up_req.
     bind_res (post_predict net hid (er_kex_blob up_est) up_req) (\<lambda>rj.
     bind_res (b64d (rp_nonce rj)) (\<lambda>n.
     bind_res (b64d (rp_ciphertext rj)) (\<lambda>c.
     bind_res (aead_decrypt P (er_session_key up_est) n c None) (\<lambda>genuine_bytes.
     bind_res (loads P genuine_bytes) (\<lambda>genuine.
     bind_res (json_set genuine ''prediction'' (JStr FORGED_PREDICTION)) (\<lambda>forged.
     bind_res (aead_encrypt P (rs 4 0) atk_key (json_dumps P forged) None) (\<lambda>resp.
     bind_res (srv_sign P (rs 4 1) sp atk_server hid (ar_nonce resp @ ar_ciphertext resp)) (\<lambda>(signature, _).
     Inr (seen = request, ar_nonce resp, ar_ciphertext resp, signature))))))))))))))))"

definition flip_last :: "bytes \<Rightarrow> bytes res" where
  "flip_last c = (if c = [] then Inl IndexError else Inr (butlast c @ [xor (last c) 1]))"

text \<open>The attacker who only relays; with a guessed key it cannot read the request.\<close>

definition relay_leg ::
  "prims \<Rightarrow> (nat \<Rightarrow> rng) \<Rightarrow> txn_net \<Rightarrow> string \<Rightarrow> json_strings \<Rightarrow> bytes \<Rightarrow> aead_result \<Rightarrow> (bool \<times> bytes \<times> bytes \<times> bytes) res" where
  "relay_leg P rs net variant hs kex_blob req =
     bind_res (if variant = ''relay_tamper'' then
          (case aead_decrypt P (urandom (rs 5 0) 32) (ar_nonce req) (ar_ciphertext req) None of
             Inr _ \<Rightarrow> Inr True
           | Inl AEADError \<Rightarrow> Inr False
           | Inl e \<Rightarrow> Inl e)
        else Inr False) (\<lambda>read.
     bind_res (get_item hs ''handshake_id'') (\<lambda>hid.
     bind_res (post_predict net hid kex_blob req) (\<lambda>rj.
     bind_res (b64d (rp_nonce rj)) (\<lambda>n.
     bind_res (b64d (rp_ciphertext rj)) (\<lambda>c.
     bind_res (b64d (rp_signature rj)) (\<lambda>signature.
     bind_res (if variant = ''relay_tamper'' then flip_last c else Inr c) (\<lambda>c'.
     Inr (read, n, c', signature))))))))"

text \<open>The client's checks on the response: AEAD first, then the signature.\<close>

definition client_checks ::
  "prims \<Rightarrow> span \<Rightarrow> client_crypto \<Rightarrow> bytes \<Rightarrow> json_strings \<Rightarrow> bytes \<Rightarrow> bytes \<Rightarrow> bytes \<Rightarrow> ks_row \<Rightarrow> ks_row res" where
  "client_checks P sp cl key hs n c signature out =
     (case aead_decrypt P key n c None of
        Inl AEADError \<Rightarrow> Inr (out \<lparr> ks_rejected_at := Some ''aead'' \<rparr>)
      | Inl e \<Rightarrow> Inl e
      | Inr plaintext \<Rightarrow>
          bind_res (loads P plaintext) (\<lambda>body.
          bind_res (bind_res (get_item hs ''sig_public_key'') b64d) (\<lambda>sig_pk.
          bind_res (cl_verify P sp cl (n @ c) signature sig_pk) (\<lambda>(valid, _).
          if \<not> valid then Inr (out \<lparr> ks_rejected_at := Some ''signature'' \<rparr>)
          else bind_res (body_get body ''prediction'' JNull) (\<lambda>p.
            Inr (out \<lparr> ks_client_accepted := True, ks_forged_response_accepted := (p = JStr FORGED_PREDICTION) \<rparr>))))))"

definition ks_trial ::
  "prims \<Rightarrow> string \<Rightarrow> (nat \<Rightarrow> rng) \<Rightarrow> span \<Rightarrow> rat \<times> rat \<Rightarrow> txn_net \<Rightarrow> json \<Rightarrow> string \<Rightarrow> string \<Rightarrow> string
     \<Rightarrow> pinned_identity \<Rightarrow> identity_key \<Rightarrow> ks_row res" where
  "ks_trial P u rs sp clk net request cfg variant mode pinned attacker_identity =
     (let out = ks_row0 cfg variant mode in
      bind_res (get_client_crypto cfg) (\<lambda>cl.
      bind_res (do_handshake net clk) (\<lambda>(real_hs, _).
      bind_res (substitute_keys P u rs sp cfg variant attacker_identity real_hs) (\<lambda>(hs, atk_server).
      bind_res (if mode = ''pinned'' then map_sum id fst (verify_handshake P sp hs pinned b64d) else Inr True) (\<lambda>ok.
      if \<not> ok then Inr (out \<lparr> ks_rejected_at := Some ''handshake'' \<rparr>)
      else
        bind_res (bind_res (get_item hs ''kex_public_key'') b64d) (\<lambda>kex_pk.
        bind_res (cl_establish P (rs 2) sp cl kex_pk) (\<lambda>est.
        bind_res (aead_encrypt P (rs 2 2) (er_session_key est) (json_dumps P request) None) (\<lambda>req.
        bind_res (case atk_server of
            Some srv \<Rightarrow> forge_leg P rs sp net cl request real_hs srv (er_kex_blob est) req
          | None \<Rightarrow> relay_leg P rs net variant hs (er_kex_blob est) req) (\<lambda>(read, n, c, signature).
        client_checks P sp cl (er_session_key est) hs n c signature (out \<lparr> ks_attacker_read_request := read \<rparr>))))))))))"

section \<open>Without authentication the attack succeeds\<close>

lemma json_set_obj:
  "\<exists>kvs'. json_set (JObj kvs) k v = Inr (JObj kvs') \<and> map_of kvs' k = Some v"
proof (cases "k \<in> fst ` set kvs")
  case True
  have "map_of (map (\<lambda>p. if fst p = k then (k, v) else p) kvs) k = Some v"
    using True by (induction kvs) auto
  then show ?thesis using True by (simp add: json_set_def)
next
  case False
  have "map_of (kvs @ [(k, v)]) k = Some v"
    using False by (induction kvs) auto
  then show ?thesis using False by (simp add: json_set_def)
qed

text \<open>What the real server behind the attacker answers.\<close>

lemma post_predict_honest:
  assumes "prims_ok P" "srv_holds P (ap_crypto app) b" "hid = hb_handshake_id b"
    and "tn_predict net = predict_over P predict r clk app"
    and "cl_establish P r' sp (server_client (ap_crypto app)) (hb_kex_public_key b) = Inr e"
    and "aead_encrypt P t (er_session_key e) (json_dumps P body) None = Inr a"
    and "json_loads P (json_dumps P body) = Some body" "run_model predict body = Inr (result, ms)"
  obtains rj a' where "post_predict net hid (er_kex_blob e) a = Inr rj"
    and "rp_nonce rj = b64e (ar_nonce (a' :: aead_result))" "rp_ciphertext rj = b64e (ar_ciphertext a')"
    and "aead_decrypt P (er_session_key e) (ar_nonce a') (ar_ciphertext a') None = Inr (json_dumps P result)"
proof -
  obtain m where m: "srv_accept P (pc_accept clk) (ap_crypto app) hid (er_kex_blob e) = Inr (er_session_key e, m)"
      "gcm_key_ok P (er_session_key e)" "er_kex_blob e \<noteq> []"
    using srv_agree [OF assms(1,2), of r' sp "pc_accept clk"] assms(3,5) by auto
  define req where "req = \<lparr> rq_handshake_id = hid, rq_kex_blob = b64e (er_kex_blob e),
        rq_nonce = b64e (ar_nonce a), rq_ciphertext = b64e (ar_ciphertext a), rq_keep_session = False \<rparr>"
  have key: "session_key_for P (pc_accept clk) app req (er_kex_blob e) = (app, Inr (er_session_key e, m))"
    using m by (simp add: session_key_for_def accept_request_def req_def)
  obtain rj a' sg where served:
      "secure_predict P predict r clk None req app =
         (if rq_keep_session req then app else forget_session (hb_handshake_id b) app, Inr rj)"
      "rp_nonce rj = b64e (ar_nonce (a' :: aead_result))" "rp_ciphertext rj = b64e (ar_ciphertext a')" "rp_signature rj = b64e sg"
      "aead_decrypt P (er_session_key e) (ar_nonce a') (ar_ciphertext a') None = Inr (json_dumps P result)"
      "\<forall>sp. cl_verify P sp (server_client (ap_crypto app)) (ar_nonce a' @ ar_ciphertext a') sg (hb_sig_public_key b)
           = Inr (True, mk_verify_meta sp)"
    by (rule secure_predict_honest [OF assms(1,2) _ _ _ _ key m(2) assms(6-8), of r None]) (simp_all add: req_def assms(3))
  show ?thesis
  proof (rule that)
    show "post_predict net hid (er_kex_blob e) a = Inr rj"
      using served(1) by (simp add: post_predict_def assms(4) predict_over_def raise_for_status_def req_def)
  qed (rule served)+
qed

text \<open>The attacker's own server, opened under the victim's handshake id.\<close>

lemma substitute_keys_ok:
  assumes "prims_ok P" "get_server_crypto cfg = Inr srv" "hid \<noteq> []" "real_hs ''handshake_id'' = Some hid"
    and "variant = ''substitute''"
  obtains atk b where "substitute_keys P u rs sp cfg variant ik real_hs =
      Inr (real_hs(''kex_public_key'' \<mapsto> b64e (hb_kex_public_key b), ''sig_public_key'' \<mapsto> b64e (hb_sig_public_key b)), Some atk)"
    and "srv_holds P atk b" "hb_handshake_id b = hid" "server_client atk = server_client srv"
proof -
  obtain atk b where n: "srv_new_handshake P u (rs 0) sp (Some hid) srv = (atk, Inr b)"
    using srv_new_total [OF assms(1)] by blast
  show ?thesis
  proof (rule that)
    show "substitute_keys P u rs sp cfg variant ik real_hs =
      Inr (real_hs(''kex_public_key'' \<mapsto> b64e (hb_kex_public_key b), ''sig_public_key'' \<mapsto> b64e (hb_sig_public_key b)), Some atk)"
      using assms(2,4,5) n by (simp add: substitute_keys_def)
    show "srv_holds P atk b" by (rule srv_new_holds [OF assms(1) n])
    show "hb_handshake_id b = hid" using srv_table.open_id [OF n] assms(3) by simp
    show "server_client atk = server_client srv" by (rule srv_new_client [OF n])
  qed
qed

theorem substitution_unauthenticated:
  assumes ok: "prims_ok P" and opened: "session_open P predict backend cfg resp app" "hr_handshake_id resp \<noteq> []"
    and net: "tn_get_handshake net = Inr (200, Inr (handshake_json resp))" "tn_predict net = predict_over P predict r clk' app"
    and codec: "json_loads P (json_dumps P request) = Some request" "json_loads P (json_dumps P result) = Some result"
      "json_set result ''prediction'' (JStr FORGED_PREDICTION) = Inr forged" "json_loads P (json_dumps P forged) = Some forged"
    and model: "run_model predict request = Inr (result, ms)"
    and mode: "mode \<noteq> ''pinned''"
  shows "ks_trial P u rs sp clk net request cfg ''substitute'' mode pinned ik =
    Inr ((ks_row0 cfg ''substitute'' mode) \<lparr> ks_client_accepted := True, ks_attacker_read_request := True,
            ks_forged_response_accepted := True \<rparr>)"
proof -
  obtain real_hs where rh: "real_hs = handshake_json resp" by blast
  have aok: "aead_ok P" using ok by (simp add: prims_ok_def)
  obtain b where b: "srv_holds P (ap_crypto app) b" "issued_for real_hs b"
      "get_client_crypto cfg = Inr (server_client (ap_crypto app))"
    using session_openE [OF ok opened(1)] rh by blast
  let ?cl = "server_client (ap_crypto app)"
  obtain srv where srv: "get_server_crypto cfg = Inr srv" "server_client srv = ?cl"
    using b(3) by (auto simp: get_client_crypto_def get_server_crypto_def get_item_def CONFIGS_def split: option.splits if_splits)
  have hid: "real_hs ''handshake_id'' = Some (hb_handshake_id b)" "hb_handshake_id b \<noteq> []"
    using b(2) opened(2) by (auto simp: rh issued_for_def handshake_json_def get_item_eq_Inr)
  obtain atk b' where sub: "substitute_keys P u rs sp cfg ''substitute'' ik real_hs =
      Inr (real_hs(''kex_public_key'' \<mapsto> b64e (hb_kex_public_key b'), ''sig_public_key'' \<mapsto> b64e (hb_sig_public_key b')), Some atk)"
    and atk: "srv_holds P atk b'" "hb_handshake_id b' = hb_handshake_id b" "server_client atk = ?cl"
    using substitute_keys_ok [where real_hs = real_hs and variant = "''substitute''" and u = u and rs = rs
        and sp = sp and ik = ik, OF ok srv(1) hid(2,1) refl] srv(2) by metis
  obtain e m where e: "cl_establish P (rs 2) sp ?cl (hb_kex_public_key b') = Inr e"
      "srv_accept P sp atk (hb_handshake_id b) (er_kex_blob e) = Inr (er_session_key e, m)" "gcm_key_ok P (er_session_key e)"
    using srv_agree [OF ok atk(1), of "rs 2" sp sp] atk(2,3) by auto
  obtain a where a: "aead_encrypt P (rs 2 2) (er_session_key e) (json_dumps P request) None = Inr a"
    using e(3) by (simp add: aead_encrypt_eq_Inr)
  obtain e' where e': "cl_establish P (rs 3) sp ?cl (hb_kex_public_key b) = Inr e'" "gcm_key_ok P (er_session_key e')"
    using srv_agree [OF ok b(1), of "rs 3" sp sp] by auto
  obtain a1 where a1: "aead_encrypt P (rs 3 2) (er_session_key e') (json_dumps P request) None = Inr a1"
    using e'(2) by (simp add: aead_encrypt_eq_Inr)
  obtain rj a2 where rj: "post_predict net (hb_handshake_id b) (er_kex_blob e') a1 = Inr rj"
      "rp_nonce rj = b64e (ar_nonce (a2 :: aead_result))" "rp_ciphertext rj = b64e (ar_ciphertext a2)"
      "aead_decrypt P (er_session_key e') (ar_nonce a2) (ar_ciphertext a2) None = Inr (json_dumps P result)"
    by (rule post_predict_honest [OF ok b(1) refl net(2) e'(1) a1 codec(1) model])
  obtain a3 where a3: "aead_encrypt P (rs 4 0) (er_session_key e) (json_dumps P forged) None = Inr a3"
    using e(3) by (simp add: aead_encrypt_eq_Inr)
  obtain sg sm vm where sg: "srv_sign P (rs 4 1) sp atk (hb_handshake_id b) (ar_nonce a3 @ ar_ciphertext a3) = Inr (sg, sm)"
      "cl_verify P sp ?cl (ar_nonce a3 @ ar_ciphertext a3) sg (hb_sig_public_key b') = Inr (True, vm)"
    using srv_sign_verifies [OF ok atk(1), of "rs 4 1" sp _ sp] atk(2,3) by metis
  have real_kex: "bind_res (get_item real_hs ''kex_public_key'') b64d = Inr (hb_kex_public_key b)"
    using b(2) by (simp add: issued_for_def)
  obtain kvs where kvs: "result = JObj kvs" using run_model_obj [OF model] by blast
  obtain fvs where fvs: "forged = JObj fvs" "map_of fvs ''prediction'' = Some (JStr FORGED_PREDICTION)"
    using json_set_obj [of kvs "''prediction''" "JStr FORGED_PREDICTION"] codec(3) kvs by auto
  have forge: "forge_leg P rs sp net ?cl request real_hs atk (er_kex_blob e) a =
      Inr (True, ar_nonce a3, ar_ciphertext a3, sg)"
    by (simp add: forge_leg_def hid(1) e(2) aead_round_trip [OF aok a] loads_def codec real_kex e'(1) a1 rj a3 sg(1)
        del: bind_res_eq_Inr One_nat_def)
  show ?thesis
    using mode fvs(2)
    by (simp add: ks_trial_def b(3) do_handshake_def net(1) [folded rh] raise_for_status_def sub e(1) a forge client_checks_def
        aead_round_trip [OF aok a3] loads_def codec(4) [unfolded fvs(1)] sg(2) body_get_def fvs(1) ks_row0_def del: bind_res_eq_Inr)
qed

section \<open>A pinned identity stops it at the handshake\<close>

text \<open>
  The fields the transcript is computed from; \<open>pin_unforged\<close>: under the pinned key only the
  transcript of the genuine handshake has a valid signature among those the client is shown.
\<close>

definition transcript_of :: "prims \<Rightarrow> json_strings \<Rightarrow> bytes res" where
  "transcript_of P hs =
     bind_res (get_item hs ''handshake_id'') (\<lambda>handshake_id.
     bind_res (get_item hs ''kex_algorithm'') (\<lambda>kex_algorithm.
     bind_res (get_item hs ''sig_algorithm'') (\<lambda>sig_algorithm.
     bind_res (bind_res (get_item hs ''kex_public_key'') b64d) (\<lambda>kex_public_key.
     bind_res (bind_res (get_item hs ''sig_public_key'') b64d) (\<lambda>sig_public_key.
     transcript P handshake_id kex_algorithm sig_algorithm kex_public_key sig_public_key)))))"

definition pin_unforged :: "prims \<Rightarrow> pinned_identity \<Rightarrow> json_strings \<Rightarrow> json_strings \<Rightarrow> bool" where
  "pin_unforged P pin real_hs hs \<longleftrightarrow> (\<forall>s sg msg sp m. hs ''transcript_signature'' = Some s \<longrightarrow> b64d s = Inr sg \<longrightarrow>
     verify_identity P sp (pin_algorithm pin) (pin_public_key pin) msg sg = Inr (True, m) \<longrightarrow> transcript_of P real_hs = Inr msg)"

text \<open>What a pinned client accepts carries the transcript the server signed.\<close>

lemma verify_handshake_authentic:
  assumes "verify_handshake P sp hs pin b64d = Inr (True, meta)" "pin_unforged P pin real_hs hs"
  shows "\<exists>msg. transcript_of P hs = Inr msg \<and> transcript_of P real_hs = Inr msg"
proof -
  obtain s where s: "hs ''transcript_signature'' = Some s" "s \<noteq> []"
    using assms(1) by (auto simp: verify_handshake_def split: option.splits if_splits)
  obtain h ka sa kx sx kp sgp msg sg m where h: "hs ''handshake_id'' = Some h" "hs ''kex_algorithm'' = Some ka"
      "hs ''sig_algorithm'' = Some sa" "hs ''kex_public_key'' = Some kx" "b64d kx = Inr kp"
      "hs ''sig_public_key'' = Some sx" "b64d sx = Inr sgp" "transcript P h ka sa kp sgp = Inr msg" "b64d s = Inr sg"
      "verify_identity P sp (pin_algorithm pin) (pin_public_key pin) msg sg = Inr (True, m)"
    using assms(1) s by (auto simp: verify_handshake_def get_item_eq_Inr)
  have "transcript_of P hs = Inr msg"
    using h(1-8) by (simp add: transcript_of_def)
  moreover have "transcript_of P real_hs = Inr msg"
    using assms(2) s(1) h(9,10) unfolding pin_unforged_def by blast
  ultimately show ?thesis by blast
qed

text \<open>The bytes hashed for a handshake whose fields decode, and the two keys it carries.\<close>

definition handshake_inputs :: "json_strings \<Rightarrow> bytes set" where
  "handshake_inputs hs = {x. \<exists>h ka sa kx kp sx sgp. hs ''handshake_id'' = Some h \<and> hs ''kex_algorithm'' = Some ka \<and>
     hs ''sig_algorithm'' = Some sa \<and> hs ''kex_public_key'' = Some kx \<and> b64d kx = Inr kp \<and>
     hs ''sig_public_key'' = Some sx \<and> b64d sx = Inr sgp \<and> x = transcript_input h ka sa kp sgp}"

definition handshake_keys :: "json_strings \<Rightarrow> bytes res \<times> bytes res" where
  "handshake_keys hs = (bind_res (get_item hs ''kex_public_key'') b64d, bind_res (get_item hs ''sig_public_key'') b64d)"

lemma transcript_of_keys:
  assumes "transcript_of P hs = Inr msg" "transcript_of P hs' = Inr msg"
    and "inj_on (sha256 P) (handshake_inputs hs \<union> handshake_inputs hs')"
  shows "handshake_keys hs = handshake_keys hs'"
proof -
  obtain h ka sa kx kp sx sgp where t: "hs ''handshake_id'' = Some h" "hs ''kex_algorithm'' = Some ka"
      "hs ''sig_algorithm'' = Some sa" "hs ''kex_public_key'' = Some kx" "b64d kx = Inr kp"
      "hs ''sig_public_key'' = Some sx" "b64d sx = Inr sgp" "transcript P h ka sa kp sgp = Inr msg"
    using assms(1) by (auto simp: transcript_of_def get_item_eq_Inr)
  obtain h' ka' sa' kx' kp' sx' sgp' where t': "hs' ''handshake_id'' = Some h'" "hs' ''kex_algorithm'' = Some ka'"
      "hs' ''sig_algorithm'' = Some sa'" "hs' ''kex_public_key'' = Some kx'" "b64d kx' = Inr kp'"
      "hs' ''sig_public_key'' = Some sx'" "b64d sx' = Inr sgp'" "transcript P h' ka' sa' kp' sgp' = Inr msg"
    using assms(2) by (auto simp: transcript_of_def get_item_eq_Inr)
  have "inj_on (sha256 P) {transcript_input h ka sa kp sgp, transcript_input h' ka' sa' kp' sgp'}"
  proof (rule inj_on_subset [OF assms(3)], simp, intro conjI)
    show "transcript_input h ka sa kp sgp \<in> handshake_inputs hs \<or> transcript_input h ka sa kp sgp \<in> handshake_inputs hs'"
      using t by (auto simp: handshake_inputs_def)
    show "transcript_input h' ka' sa' kp' sgp' \<in> handshake_inputs hs \<or> transcript_input h' ka' sa' kp' sgp' \<in> handshake_inputs hs'"
      using t' by (auto simp: handshake_inputs_def)
  qed
  from transcript_binds [OF t(8) t'(8) this] show ?thesis
    using t t' by (simp add: handshake_keys_def)
qed

theorem substitution_pinned:
  assumes "do_handshake net clk = Inr (real_hs, ms)" "substitute_keys P u rs sp cfg variant ik real_hs = Inr (hs, atk)"
    and "pin_unforged P pin real_hs hs" "inj_on (sha256 P) (handshake_inputs hs \<union> handshake_inputs real_hs)"
    and "handshake_keys hs \<noteq> handshake_keys real_hs"
    and "ks_trial P u rs sp clk net request cfg variant ''pinned'' pin ik = Inr row"
  shows "row = (ks_row0 cfg variant ''pinned'') \<lparr> ks_rejected_at := Some ''handshake'' \<rparr>"
proof -
  obtain cl where cl: "get_client_crypto cfg = Inr cl"
    using assms(6) by (cases "get_client_crypto cfg") (simp_all add: ks_trial_def)
  obtain ok meta where v: "verify_handshake P sp hs pin b64d = Inr (ok, meta)"
    using assms(6) cl by (cases "verify_handshake P sp hs pin b64d") (auto simp: ks_trial_def assms(1,2))
  have "\<not> ok"
  proof
    assume ok
    then obtain msg where "transcript_of P hs = Inr msg" "transcript_of P real_hs = Inr msg"
      using verify_handshake_authentic [OF _ assms(3), of sp meta] v by auto
    then show False using transcript_of_keys assms(4,5) by blast
  qed
  then show ?thesis
    using assms(6) by (simp add: ks_trial_def cl assms(1,2) v del: bind_res_eq_Inr)
qed

section \<open>Summaries\<close>

record ks_summary =
  su_config :: string
  su_variant :: string
  su_mode :: string
  su_n_trials :: nat
  su_n_valid :: nat
  su_accepted :: nat
  su_accepted_ci95 :: "(rat \<times> rat) option"
  su_attacker_read_request :: nat
  su_forged_response_accepted :: nat
  su_forged_ci95 :: "(rat \<times> rat) option"
  su_rejected_at :: "(string \<times> nat) list"

text \<open>\<^verbatim>\<open>at[k] = at.get(k, 0) + 1\<close>, a dictionary in insertion order.\<close>

fun bump :: "string \<Rightarrow> (string \<times> nat) list \<Rightarrow> (string \<times> nat) list" where
  "bump k [] = [(k, 1)]"
| "bump k ((k', n) # kvs) = (if k' = k then (k', n + 1) # kvs else (k', n) # bump k kvs)"

definition ks_summarize :: "(rat \<Rightarrow> nat \<Rightarrow> nat \<Rightarrow> rat) \<Rightarrow> ks_row list \<Rightarrow> ks_summary res" where
  "ks_summarize ppf rows =
     (case rows of
        [] \<Rightarrow> Inl IndexError
      | row # _ \<Rightarrow>
          let valid = filter (\<lambda>r. ks_error r = None) rows;
              k_acc = length (filter ks_client_accepted valid);
              k_read = length (filter ks_attacker_read_request valid);
              k_forged = length (filter ks_forged_response_accepted valid);
              nv = length valid in
          Inr \<lparr> su_config = ks_config row, su_variant = ks_variant row, su_mode = ks_mode row, su_n_trials = length rows,
                su_n_valid = nv, su_accepted = k_acc,
                su_accepted_ci95 = (if nv = 0 then None else Some (clopper_pearson ppf k_acc nv)),
                su_attacker_read_request = k_read, su_forged_response_accepted = k_forged,
                su_forged_ci95 = (if nv = 0 then None else Some (clopper_pearson ppf k_forged nv)),
                su_rejected_at = foldl (\<lambda>acc r. case ks_rejected_at r of None \<Rightarrow> acc
                                         | Some k \<Rightarrow> if k = [] then acc else bump k acc) [] valid \<rparr>)"

text \<open>A trial that raises becomes an error row; the cells run in the order of modes and variants.\<close>

definition trial_row_of :: "string \<Rightarrow> string \<Rightarrow> string \<Rightarrow> ks_row res \<Rightarrow> ks_row" where
  "trial_row_of cfg variant mode r =
     (case r of Inr row \<Rightarrow> row | Inl e \<Rightarrow> (ks_row0 cfg variant mode) \<lparr> ks_error := Some e \<rparr>)"

definition ks_run_config ::
  "prims \<Rightarrow> (rat \<Rightarrow> nat \<Rightarrow> nat \<Rightarrow> rat) \<Rightarrow> tape \<Rightarrow> (string \<Rightarrow> string \<Rightarrow> nat \<Rightarrow> string \<times> (nat \<Rightarrow> rng) \<times> span \<times> (rat \<times> rat) \<times> txn_net)
     \<Rightarrow> txn_net \<Rightarrow> json \<Rightarrow> string \<Rightarrow> nat \<Rightarrow> ks_summary list res" where
  "ks_run_config P ppf idt env net request cfg trials =
     bind_res (fetch_identity net) (\<lambda>pinned.
     bind_res (identity_generate P idt (pin_algorithm pinned)) (\<lambda>attacker_identity.
     map_res (\<lambda>(mode, variant).
       ks_summarize ppf (map (\<lambda>i. case env mode variant i of (u, rs, sp, clk, net) \<Rightarrow>
         trial_row_of cfg variant mode (ks_trial P u rs sp clk net request cfg variant mode pinned attacker_identity)) [0..<trials]))
       (List.product MODES VARIANTS)))"

lemma bump_total: "sum_list (map snd (bump k acc)) = Suc (sum_list (map snd acc))"
  by (induction k acc rule: bump.induct) auto

lemma rejected_total:
  "sum_list (map snd (foldl (\<lambda>acc r. case ks_rejected_at r of None \<Rightarrow> acc | Some k \<Rightarrow> if k = [] then acc else bump k acc) acc rows)) \<le>
     sum_list (map snd acc) + length (rows :: ks_row list)"
proof (induction rows arbitrary: acc)
  case (Cons r rows)
  let ?step = "\<lambda>acc r. case ks_rejected_at r of None \<Rightarrow> acc | Some k \<Rightarrow> if k = [] then acc else bump k acc"
  have "sum_list (map snd (?step acc r)) \<le> Suc (sum_list (map snd acc))"
    by (simp add: bump_total split: option.split)
  then show ?case
    using Cons.IH [of "?step acc r"] by simp
qed simp

text \<open>Rows that stop at the handshake count for nothing the attacker wanted.\<close>

lemma summarize_blocked:
  assumes "ks_summarize ppf rows = Inr s"
    and "\<And>r. r \<in> set rows \<Longrightarrow> ks_error r \<noteq> None \<or> r = (ks_row0 cfg variant mode) \<lparr> ks_rejected_at := Some ''handshake'' \<rparr>"
  shows "su_accepted s = 0 \<and> su_attacker_read_request s = 0 \<and> su_forged_response_accepted s = 0 \<and> su_n_valid s \<le> su_n_trials s"
proof -
  have no: "filter Q (filter (\<lambda>r. ks_error r = None) rows) = []"
    if "\<not> Q ((ks_row0 cfg variant mode) \<lparr> ks_rejected_at := Some ''handshake'' \<rparr>)" for Q
    using assms(2) that by (auto simp: filter_empty_conv)
  show ?thesis
    using assms(1) no [of ks_client_accepted] no [of ks_attacker_read_request] no [of ks_forged_response_accepted]
    by (auto simp: ks_summarize_def Let_def ks_row0_def le_SucI split: list.splits simp del: filter_filter)
qed

end
