(* ===== verification/SessionSecurity.thy ===== *)
theory SessionSecurity
  imports KeySubstitution
begin

text \<open>
  What the session tables of the application guarantee over time: requests of other sessions
  change nothing of a session, a finished session answers no request any more, and a client that
  pinned the server's identity accepts every handshake the server issues.
\<close>

section \<open>The identity key\<close>

lemma app_step_identity: "app_step P predict backend app h app' \<Longrightarrow> ap_identity app' = ap_identity app"
proof (erule app_stepE)
  fix r sp sp' resp assume "handshake P h r sp sp' app = (app', resp)"
  then show ?thesis by (auto simp: handshake_def Let_def split: prod.splits)
next
  fix r clk dbg req resp assume "secure_predict P predict r clk dbg req app = (app', resp)"
  then show ?thesis
    by (auto simp: secure_predict_def session_key_for_def Let_def forget_session_def
        split: sum.splits prod.splits if_splits option.splits)
next
  fix rs sps sp req resp assume "secure_predict_stream P backend rs sps sp req app = (app', resp)"
  then show ?thesis by (auto simp: secure_predict_stream_def Let_def split: sum.splits)
qed

lemma app_steps_identity: "app_steps P predict backend app hs app' \<Longrightarrow> ap_identity app' = ap_identity app"
  by (induction rule: app_steps.induct) (auto simp: app_step_identity)

text \<open>The pin is what \<^verbatim>\<open>/secure/identity\<close> serves.\<close>

definition pin_of :: "app \<Rightarrow> pinned_identity res" where
  "pin_of app = bind_res (get_identity app) (\<lambda>(algorithm, public_key).
     bind_res (b64d public_key) (\<lambda>pk. Inr \<lparr> pin_algorithm = algorithm, pin_public_key = pk \<rparr>))"

lemma pinned_accepts:
  assumes "prims_ok P" "build_app P t True config = Inr app0" "app_steps P predict backend app0 before app1"
    and "handshake P uuid r sp sp' app1 = (app2, Inr resp)"
  shows "\<exists>pin m. pin_of app0 = Inr pin \<and> verify_handshake P sp'' (handshake_json resp) pin b64d = Inr (True, m)"
proof -
  obtain ik where ik: "ap_identity app0 = Some ik" "identity_ok P ik"
    using assms(2) identity_generate_ok [OF assms(1), of t] by (auto simp: build_app_def) (metis sum.inject(2))
  have id1: "ap_identity app1 = Some ik"
    using app_steps_identity [OF assms(3)] ik(1) by simp
  obtain c b msg sg sm where h: "srv_new_handshake P uuid r sp None (ap_crypto app1) = (c, Inr b)"
      "transcript P (hb_handshake_id b) (srv_kex_algorithm c) (srv_sig_algorithm c) (hb_kex_public_key b) (hb_sig_public_key b) = Inr msg"
      "identity_sign P (r 3) sp' ik msg = Inr (sg, sm)"
    and resp: "hr_handshake_id resp = hb_handshake_id b" "hr_kex_algorithm resp = srv_kex_algorithm c"
      "hr_sig_algorithm resp = srv_sig_algorithm c" "hr_kex_public_key resp = b64e (hb_kex_public_key b)"
      "hr_sig_public_key resp = b64e (hb_sig_public_key b)" "hr_transcript_signature resp = Some (b64e sg)"
    using assms(4) id1 by (auto simp: handshake_def Let_def split: prod.splits)
  obtain m where v: "sg \<noteq> []" "verify_identity P sp'' (ik_algorithm ik) (ik_public_key ik) msg sg = Inr (True, m)"
    using ik(2) h(3) unfolding identity_ok_def by (metis fst_conv sum.inject(2))
  let ?pin = "\<lparr> pin_algorithm = ik_algorithm ik, pin_public_key = ik_public_key ik \<rparr>"
  have "verify_handshake P sp'' (handshake_json resp) ?pin b64d = Inr (True, TranscriptVerified m)"
    using v h(2) by (simp add: verify_handshake_def handshake_json_def resp)
  then show ?thesis
    using ik(1) by (simp add: pin_of_def get_identity_def)
qed

section \<open>A finished session\<close>

lemma cleared_predict:
  assumes "cleared app (rq_handshake_id req)"
  shows "secure_predict P predict r clk dbg req app =
    (app, Inl (HTTPException (case decode_request req of Inl _ \<Rightarrow> 400 | Inr _ \<Rightarrow> 404)))"
proof (cases "decode_request req")
  case (Inl e)
  then have "e = HTTPException 400" by (auto simp: decode_request_def split: sum.splits)
  with Inl show ?thesis by (simp add: secure_predict_def)
next
  case (Inr q)
  obtain blob n c where q: "q = (blob, n, c)" by (cases q)
  have "session_key_for P (pc_accept clk) app req blob = (app, Inl (HTTPException 404))"
    using assms srv_dead_accept [of "ap_crypto app" "rq_handshake_id req" P "pc_accept clk" blob]
    by (simp add: session_key_for_def accept_request_def cleared_def)
  with Inr q show ?thesis by (simp add: secure_predict_def)
qed

lemma cleared_stream:
  assumes "cleared app (rq_handshake_id req)"
  shows "secure_predict_stream P backend rs sps sp req app =
    (app, Inl (HTTPException (case decode_request req of Inl _ \<Rightarrow> 400 | Inr _ \<Rightarrow> 404)))"
proof (cases "decode_request req")
  case (Inl e)
  then have "e = HTTPException 400" by (auto simp: decode_request_def split: sum.splits)
  with Inl show ?thesis by (simp add: secure_predict_stream_def open_stream_request_def)
next
  case (Inr q)
  obtain blob n c where q: "q = (blob, n, c)" by (cases q)
  have "accept_request P sp (ap_crypto app) (rq_handshake_id req) blob = Inl (HTTPException 404)"
    using assms srv_dead_accept [of "ap_crypto app" "rq_handshake_id req" P sp blob]
    by (simp add: accept_request_def cleared_def)
  with Inr q show ?thesis by (simp add: secure_predict_stream_def open_stream_request_def)
qed

lemma cleared_steps:
  assumes "app_steps P predict backend app hs app'" "hid \<notin> set hs" "cleared app hid"
  shows "cleared app' hid"
  using assms app_steps_keys [OF assms(1,2)] app_steps_keeps(3) [OF assms(1,2)] by (simp add: cleared_def)

text \<open>A one-shot request that is answered ends its session.\<close>

lemma answered_predict_clears:
  assumes "secure_predict P predict r clk dbg req app = (app', Inr resp)" "\<not> rq_keep_session req"
  shows "cleared app' (rq_handshake_id req)"
  using assms by (auto simp: secure_predict_def Let_def split: sum.splits prod.splits)

end
