(* ===== verification/CampaignDetection.thy ===== *)
theory CampaignDetection
  imports AttackCampaign
begin

text \<open>
  What the campaign of \<^verbatim>\<open>threats/streaming_attack_campaign.py\<close> must report: on genuine captures,
  every static attack on either strategy and every adaptive attack against the enforced checkpoint
  schedule is rejected, so a cell's detected count equals its trial count.
\<close>

section \<open>Genuine captures\<close>

text \<open>
  The capture of a stream the server produced: the rows carry its envelopes in order and, for a
  checkpointed chain, exactly the scheduled rows are signed.
\<close>

definition genuine_capture :: "prims \<Rightarrow> session_log list \<Rightarrow> string \<Rightarrow> int option \<Rightarrow> capture \<Rightarrow> env list \<Rightarrow> bool" where
  "genuine_capture P logs strategy k cap es \<longleftrightarrow>
     (strategy = ''per_chunk'' \<and> PcLog (cp_handshake_id cap) es \<in> set logs \<or>
      strategy = ''hash_chain'' \<and> HcLog (cp_handshake_id cap) es \<in> set logs) \<and>
     length es < 2 ^ 32 \<and> map row_env (cp_chunks cap) = map Some (indexed es) \<and>
     (strategy = ''hash_chain'' \<longrightarrow> (\<forall>i < length es. has_signature (cp_chunks cap ! i) \<longleftrightarrow>
        (case k of None \<Rightarrow> False | Some d \<Rightarrow> 0 < d \<and> Suc i mod nat d = 0)))"

text \<open>The donor stream carries other envelopes than the victim's.\<close>

definition donor_differs :: "capture \<Rightarrow> capture \<Rightarrow> bool" where
  "donor_differs cap donor \<longleftrightarrow> cp_chunks donor \<noteq> [] \<and>
     (\<forall>i < min (length (cp_chunks cap)) (length (cp_chunks donor)). row_env (cp_chunks donor ! i) \<noteq> row_env (cp_chunks cap ! i))"

lemma genuine_len: "map row_env rows = map Some (indexed es) \<Longrightarrow> length rows = length es"
  by (drule arg_cong [where f = length]) simp

lemma genuine_env_nth:
  assumes "map row_env rows = map Some (indexed es)" "i < length rows"
  shows "row_env (rows ! i) = Some (int i, envelope (es ! i))"
proof -
  have "row_env (rows ! i) = map Some (indexed es) ! i"
    using assms(2) by (simp only: assms(1) [symmetric] nth_map)
  then show ?thesis
    using genuine_len [OF assms(1)] assms(2) by (simp add: indexed_def)
qed

text \<open>A swap is visible in the indices, a dropped or repeated row in the length.\<close>

lemma swap_not_genuine:
  assumes "map row_env rows = map Some (indexed es)" "Suc i < length rows"
  shows "map row_env (swap_at rows i) \<noteq> map Some (indexed es)"
proof
  assume eq: "map row_env (swap_at rows i) = map Some (indexed es)"
  have "row_env (swap_at rows i ! i) = row_env (rows ! i)"
    using genuine_env_nth [OF eq, of i] genuine_env_nth [OF assms(1), of i] assms(2) by (simp add: swap_at_def)
  moreover have "swap_at rows i ! i = rows ! Suc i"
    using assms(2) by (simp add: swap_at_def)
  ultimately show False
    using genuine_env_nth [OF assms(1), of i] genuine_env_nth [OF assms(1), of "Suc i"] assms(2) by simp
qed

lemma length_not_genuine:
  "map row_env rows = map Some (indexed es) \<Longrightarrow> length rows' \<noteq> length rows \<Longrightarrow> map row_env rows' \<noteq> map Some (indexed es)"
  using genuine_len by fastforce

lemma static_mutate_cases:
  assumes "static_mutate d cap donor attack = Inr (cap', mutated, final, first)"
  obtains (drop) i where "attack = ''drop''" "mutated = drop_at (cp_chunks cap) i" "i < length (cp_chunks cap)"
    | (reorder) i where "attack = ''reorder''" "mutated = swap_at (cp_chunks cap) i" "Suc i < length (cp_chunks cap)"
    | (dup) i where "attack = ''duplicate''" "mutated = dup_at (cp_chunks cap) i" "i < length (cp_chunks cap)"
    | (replay) i where "attack = ''replay''" "mutated = (cp_chunks cap)[i := cp_chunks donor ! i]"
        "i < length (cp_chunks cap)" "i < length (cp_chunks donor)"
    | (truncate) "attack = ''truncate''" "final = None"
    | (session) "attack \<notin> {''drop'', ''reorder'', ''duplicate'', ''replay'', ''truncate''}"
        "mutated = cp_chunks donor" "final = cp_final donor"
proof -
  have r: "lo \<le> i \<and> i < hi" if "randrange d lo hi = Inr i" for lo hi i
    using randrange_bounds [OF that] .
  consider "attack = ''drop''" | "attack = ''reorder''" | "attack = ''duplicate''" | "attack = ''replay''"
    | "attack = ''truncate''" | "attack \<notin> {''drop'', ''reorder'', ''duplicate'', ''replay'', ''truncate''}"
    by blast
  then show thesis
  proof cases
    case 1
    then show ?thesis using assms by (auto simp: static_mutate_def Let_def intro: drop dest: r)
  next
    case 2
    then obtain i where "randrange d 0 (length (cp_chunks cap) - 1) = Inr i" "mutated = swap_at (cp_chunks cap) i"
      using assms by (auto simp: static_mutate_def Let_def)
    with 2 show ?thesis using r [of 0 "length (cp_chunks cap) - 1" i] by (intro reorder) auto
  next
    case 3
    then show ?thesis using assms by (auto simp: static_mutate_def Let_def intro: dup dest: r)
  next
    case 4
    then obtain i where "randrange d 0 (min (length (cp_chunks cap)) (length (cp_chunks donor))) = Inr i"
        "mutated = (cp_chunks cap)[i := cp_chunks donor ! i]"
      using assms by (auto simp: static_mutate_def Let_def)
    with 4 show ?thesis using r [of 0 "min (length (cp_chunks cap)) (length (cp_chunks donor))" i] by (intro replay) auto
  next
    case 5
    then show ?thesis using assms by (auto simp: static_mutate_def Let_def intro: truncate)
  next
    case 6
    then show ?thesis using assms by (intro session) (simp_all add: static_mutate_def Let_def)
  qed
qed

lemma static_mutate_changes:
  assumes "map row_env (cp_chunks cap) = map Some (indexed es)" "donor_differs cap donor"
    and "static_mutate d cap donor attack = Inr (cap', mutated, final, first)" "attack \<noteq> ''truncate''"
  shows "map row_env mutated \<noteq> map Some (indexed es)"
proof -
  let ?cs = "cp_chunks cap"
  from assms(3) show ?thesis
  proof (cases rule: static_mutate_cases)
    case drop
    then show ?thesis by (intro length_not_genuine [OF assms(1)]) (auto simp: drop_at_def)
  next
    case reorder
    then show ?thesis using swap_not_genuine [OF assms(1)] by simp
  next
    case dup
    then show ?thesis by (intro length_not_genuine [OF assms(1)]) (auto simp: dup_at_def)
  next
    case (replay i)
    show ?thesis
    proof
      assume eq: "map row_env mutated = map Some (indexed es)"
      have "row_env (cp_chunks donor ! i) = row_env (?cs ! i)"
        using genuine_env_nth [OF eq, of i] genuine_env_nth [OF assms(1), of i] replay(2,3) by simp
      then show False using assms(2) replay(3,4) by (simp add: donor_differs_def)
    qed
  next
    case session
    show ?thesis
    proof
      assume eq: "map row_env mutated = map Some (indexed es)"
      then have len: "length (cp_chunks donor) = length ?cs"
        using genuine_len [OF assms(1)] genuine_len [of mutated es] session by simp
      have ne: "cp_chunks donor \<noteq> []" using assms(2) by (simp add: donor_differs_def)
      have "?cs \<noteq> []"
      proof
        assume "?cs = []"
        then have "length (cp_chunks donor) = 0" using len by simp
        with ne show False by simp
      qed
      have "row_env (cp_chunks donor ! 0) = row_env (?cs ! 0)"
        using genuine_env_nth [OF eq, of 0] genuine_env_nth [OF assms(1), of 0] session(2) len ne \<open>?cs \<noteq> []\<close> by simp
      moreover have "0 < min (length ?cs) (length (cp_chunks donor))" using \<open>?cs \<noteq> []\<close> ne by simp
      ultimately show False using assms(2) unfolding donor_differs_def by blast
    qed
  qed (use assms(4) in simp)
qed

lemma adaptive_mutate_cases:
  assumes "adaptive_mutate d cap attack strategy = Inr (Some (cap', mutated, final, first))"
  obtains (strip) j where "attack = ''checkpoint_strip'' \<or> attack = ''checkpoint_strip_v2client''" "strategy = ''hash_chain''"
        "mutated = map strip_signature (cp_chunks cap)" "j \<in> set (ckpt_positions (cp_chunks cap))"
    | (move) j where "attack = ''checkpoint_move''" "strategy = ''hash_chain''" "mutated = move_signature (cp_chunks cap) j"
        "j \<in> set (ckpt_positions (cp_chunks cap))" "Suc j < length (cp_chunks cap)"
    | (before) j where "attack = ''drop_before_ckpt''" "mutated = take (j - 1) (cp_chunks cap) @ drop j (cp_chunks cap)"
        "j \<in> set (ckpt_positions (cp_chunks cap))" "0 < j"
    | (after) j where "attack = ''drop_after_ckpt''" "mutated = take (j + 1) (cp_chunks cap) @ drop (j + 2) (cp_chunks cap)"
        "Suc j < length (cp_chunks cap)"
    | (across) j where "attack = ''reorder_across''" "mutated = swap_at (cp_chunks cap) j" "Suc j < length (cp_chunks cap)"
proof -
  let ?ck = "ckpt_positions (cp_chunks cap)"
  let ?j = "?ck ! (d mod length ?ck)"
  have hc: "strategy = ''hash_chain''" and ne: "?ck \<noteq> []"
    using assms by (simp_all add: adaptive_mutate_def Let_def split: if_split_asm)
  have j: "?j \<in> set ?ck" "?ck ! 0 \<in> set ?ck"
    using ne by simp_all
  consider "attack = ''checkpoint_strip'' \<or> attack = ''checkpoint_strip_v2client''"
    | "attack = ''checkpoint_move''" | "attack = ''drop_before_ckpt''" | "attack = ''drop_after_ckpt''"
    | "attack = ''reorder_across''"
    using assms by (simp add: adaptive_mutate_def Let_def split: if_split_asm)
  then show thesis
  proof cases
    case 1
    then show ?thesis using assms hc ne j by (intro strip [OF _ hc _ j(2)]) (auto simp: adaptive_mutate_def Let_def)
  next
    case 2
    then show ?thesis using assms hc ne j
      by (intro move [of ?j]) (auto simp: adaptive_mutate_def Let_def split: if_split_asm)
  next
    case 3
    then show ?thesis using assms hc ne j
      by (intro before [of ?j]) (auto simp: adaptive_mutate_def Let_def split: if_split_asm)
  next
    case 4
    then show ?thesis using assms hc ne
      by (intro after [of ?j]) (auto simp: adaptive_mutate_def Let_def split: if_split_asm)
  next
    case 5
    then show ?thesis using assms hc ne
      by (intro across [of ?j]) (auto simp: adaptive_mutate_def Let_def split: if_split_asm)
  qed
qed

lemma adaptive_mutate_changes:
  assumes "map row_env (cp_chunks cap) = map Some (indexed es)"
    and "adaptive_mutate d cap attack strategy = Inr (Some (cap', mutated, final, first))"
    and "attack \<notin> {''checkpoint_strip'', ''checkpoint_strip_v2client'', ''checkpoint_move''}"
  shows "map row_env mutated \<noteq> map Some (indexed es)"
  using assms(2)
proof (cases rule: adaptive_mutate_cases)
  case (before j)
  then have "j < length (cp_chunks cap)" by (simp add: ckpt_positions_mem)
  with before show ?thesis by (intro length_not_genuine [OF assms(1)]) auto
next
  case (after j)
  then show ?thesis by (intro length_not_genuine [OF assms(1)]) auto
next
  case (across j)
  then show ?thesis using swap_not_genuine [OF assms(1)] by simp
qed (use assms(3) in auto)

section \<open>The enforced checkpoint schedule\<close>

text \<open>An accepted run of the chain loop has seen a signature on every scheduled row.\<close>

lemma replay_hc_scheduled:
  assumes "replay_hc P sps cap pos covered cs rows = Inr (None, covered', cs')"
    and "cs_n_absorbed cs = int pos" "cs_checkpoint_interval cs = Some d" "0 < d"
    and "i < length rows" "Suc (pos + i) mod nat d = 0"
  shows "has_signature (rows ! i)"
  using assms
proof (induction rows arbitrary: pos covered cs i)
  case (Cons row rows)
  obtain c cs1 r where c: "decode_hc_chunk row = Inr c"
    and v: "verify_hash_chain_chunk P (sps pos) c cs (cp_session_key cap) (Some (cp_sig_public_key cap)) (Some (cp_client cap)) = Inr (cs1, r)"
    and ok: "\<not> (hr_aead_ok r \<noteq> Some True \<or> hr_checkpoint_missing r \<or> (hr_checkpoint r \<and> hr_checkpoint_valid r \<noteq> Some True))"
    and rest: "replay_hc P sps cap (Suc pos) (if hr_checkpoint r then pos + 1 else covered) cs1 rows = Inr (None, covered', cs')"
    using Cons.prems(1) by (auto split: if_splits)
  obtain dg where ab: "absorb P (hk_index c) (hk_nonce c) (hk_ciphertext c) cs = Inr (cs1, dg)"
    using verify_hash_chain_chunk_state(1) [OF v] by blast
  have n1: "cs_n_absorbed cs1 = int (Suc pos)" and k1: "cs_checkpoint_interval cs1 = Some d"
    using ab Cons.prems(2,3) by (auto simp: absorb_def)
  show ?case
  proof (cases i)
    case 0
    have "checkpoint_expected (cs_checkpoint_interval cs1) (cs_n_absorbed cs1)"
      using Cons.prems(4,6) 0 by (simp only: k1 n1 checkpoint_expected_nat) simp
    then have "hr_checkpoint r"
      using ok verify_hash_chain_chunk_state(2,3) [OF v] by blast
    then have "truthy_bytes (hk_signature c)"
      using verify_hash_chain_chunk_state(3) [OF v] by blast
    then show ?thesis
      using c 0 by (auto simp: decode_hc_chunk_def has_signature_def truthy_bytes_def split: option.splits if_splits)
  next
    case (Suc i')
    show ?thesis
      using Cons.IH [OF rest n1 k1 Cons.prems(4), of i'] Cons.prems(5,6) Suc by simp
  qed
qed simp

lemma replay_hc_decodes:
  "replay_hc P sps cap pos covered cs rows = Inr (None, covered', cs') \<Longrightarrow> \<exists>ys. map row_env rows = map Some ys"
proof (induction rows arbitrary: pos covered cs)
  case (Cons row rows)
  obtain c pos1 covered1 cs1 where c: "decode_hc_chunk row = Inr c"
      "replay_hc P sps cap pos1 covered1 cs1 rows = Inr (None, covered', cs')"
    using Cons.prems by (auto split: if_splits)
  obtain ys where "map row_env rows = map Some ys"
    using Cons.IH [OF c(2)] by blast
  then show ?case
    using decode_hc_chunk_Inr(1) [OF c(1)]
    by (intro exI [of _ "(hk_index c, hk_nonce c @ hk_ciphertext c) # ys"]) simp
qed simp

lemma replay_truncated:
  "replay_through_client P sps cap mutated None strategy k enf = Inr (rej, covered) \<Longrightarrow> rej \<noteq> None"
  by (auto simp: replay_through_client_def replay_pc_final_def replay_hc_final_def split: if_split_asm option.splits)

text \<open>A signature taken off its scheduled row is missed under the enforced schedule.\<close>

lemma unscheduled_rejected:
  assumes "genuine_capture P logs ''hash_chain'' k cap es" "j \<in> set (ckpt_positions (cp_chunks cap))"
    and "j < length mutated" "\<not> has_signature (mutated ! j)"
  shows "replay_through_client P sps cap mutated final ''hash_chain'' k True \<noteq> Inr (None, covered)"
proof
  assume acc: "replay_through_client P sps cap mutated final ''hash_chain'' k True = Inr (None, covered)"
  have j: "j < length es" "has_signature (cp_chunks cap ! j)"
    using assms(1,2) genuine_len [of "cp_chunks cap" es] by (auto simp: ckpt_positions_mem genuine_capture_def)
  then obtain d where d: "k = Some d" "0 < d" "Suc j mod nat d = 0"
    using assms(1) by (auto simp: genuine_capture_def split: option.splits)
  obtain cov cs where "replay_hc P sps cap 0 0 (chain_init P (cp_handshake_id cap) k) mutated = Inr (None, cov, cs)"
    using acc by (auto simp: replay_through_client_def split: option.splits)
  from replay_hc_scheduled [OF this _ _ d(2) assms(3)] have "has_signature (mutated ! j)"
    using d by (simp add: chain_init_def)
  with assms(4) show False ..
qed

lemma strip_unsigned: "j < length rows \<Longrightarrow> \<not> has_signature (map strip_signature rows ! j)"
  by (simp add: strip_signature_def) (simp add: has_signature_def)

lemma move_unsigned: "Suc j < length rows \<Longrightarrow> \<not> has_signature (move_signature rows j ! j)"
  by (simp add: move_signature_def has_signature_def)

theorem mutation_detected:
  assumes "contexts_distinct P logs" "sha_ok P" "genuine_capture P logs strategy k cap es" "donor_differs cap donor"
    and "mutate d cap donor attack strategy = Inr (Some (cap', mutated, final, first))" "attack \<noteq> ''checkpoint_strip_v2client''"
    and "unforged P (cp_client cap) (cp_sig_public_key cap) (signed_in P logs) (delivered_sigs mutated final)"
    and "\<And>ys. strategy = ''hash_chain'' \<Longrightarrow> map row_env mutated = map Some ys \<Longrightarrow> chain_free P (cp_handshake_id cap) ys es"
  shows "replay_through_client P sps cap mutated final strategy k True \<noteq> Inr (None, covered)"
proof
  assume acc: "replay_through_client P sps cap mutated final strategy k True = Inr (None, covered)"
  have env: "map row_env (cp_chunks cap) = map Some (indexed es)" "length es < 2 ^ 32"
      "strategy = ''per_chunk'' \<and> PcLog (cp_handshake_id cap) es \<in> set logs \<or>
       strategy = ''hash_chain'' \<and> HcLog (cp_handshake_id cap) es \<in> set logs"
    using assms(3) by (simp_all add: genuine_capture_def)
  have gen: "map row_env mutated = map Some (indexed es)"
    using env(3)
  proof
    assume "strategy = ''per_chunk'' \<and> PcLog (cp_handshake_id cap) es \<in> set logs"
    then show ?thesis
      using per_chunk_accept_genuine [OF assms(1) _ assms(2,7)] acc by blast
  next
    assume hc: "strategy = ''hash_chain'' \<and> HcLog (cp_handshake_id cap) es \<in> set logs"
    obtain cov cs where "replay_hc P sps cap 0 0 (chain_init P (cp_handshake_id cap) k) mutated = Inr (None, cov, cs)"
      using acc hc by (auto simp: replay_through_client_def split: option.splits)
    then obtain ys where ys: "map row_env mutated = map Some ys"
      using replay_hc_decodes by blast
    moreover have "ys = indexed es"
      using hash_chain_replay_sound(3) [OF assms(1) _ assms(2) env(2) assms(7) ys assms(8) [OF _ ys], of sps k True None covered]
        acc hc by simp
    ultimately show ?thesis by simp
  qed
  show False
  proof (cases "attack \<in> set STATIC_ATTACKS")
    case True
    then have m: "static_mutate d cap donor attack = Inr (cap', mutated, final, first)"
      using assms(5) by (simp add: mutate_def)
    show False
    proof (cases "attack = ''truncate''")
      case True
      with m have "final = None" by (cases rule: static_mutate_cases) auto
      then show False using replay_truncated acc by blast
    next
      case False
      then show False using static_mutate_changes [OF env(1) assms(4) m] gen by blast
    qed
  next
    case False
    then have m: "adaptive_mutate d cap attack strategy = Inr (Some (cap', mutated, final, first))"
      using assms(5) by (simp add: mutate_def)
    from m show False
    proof (cases rule: adaptive_mutate_cases)
      case (strip j)
      then have "j < length (cp_chunks cap)" by (simp add: ckpt_positions_mem)
      then show False
        using unscheduled_rejected [of P logs k cap es j mutated sps final covered] assms(3) acc strip
          strip_unsigned by simp
    next
      case (move j)
      then show False
        using unscheduled_rejected [of P logs k cap es j mutated sps final covered] assms(3) acc
          move_unsigned by (simp add: move_signature_def)
    qed (use adaptive_mutate_changes [OF env(1) m] gen in auto)
  qed
qed

section \<open>A cell of the campaign\<close>

text \<open>
  What is assumed of one attempt: a genuine victim, a donor with other envelopes, and that the
  attacker neither forges a signature nor finds a SHA-256 collision.
\<close>

definition attempt_sound ::
  "prims \<Rightarrow> session_log list \<Rightarrow> string \<Rightarrow> int option \<Rightarrow> capture list \<Rightarrow> string \<Rightarrow> nat \<times> nat \<times> nat \<Rightarrow> bool" where
  "attempt_sound P logs strategy k pool attack draw \<longleftrightarrow> (case draw of (a, b, d) \<Rightarrow>
     donor_differs (pool ! a) (pool ! b) \<and>
     (\<exists>es. genuine_capture P logs strategy k (pool ! a) es \<and>
       (\<forall>cap' mutated final first. mutate d (pool ! a) (pool ! b) attack strategy = Inr (Some (cap', mutated, final, first)) \<longrightarrow>
          unforged P (cp_client (pool ! a)) (cp_sig_public_key (pool ! a)) (signed_in P logs) (delivered_sigs mutated final) \<and>
          (strategy = ''hash_chain'' \<longrightarrow> (\<forall>ys. map row_env mutated = map Some ys \<longrightarrow>
             chain_free P (cp_handshake_id (pool ! a)) ys es)))))"

lemma attempt_soundE:
  assumes "attempt_sound P logs strategy k pool attack (a, b, d)"
    and "mutate d (pool ! a) (pool ! b) attack strategy = Inr (Some (cap', mutated, final, first))"
  obtains es where "genuine_capture P logs strategy k (pool ! a) es" "donor_differs (pool ! a) (pool ! b)"
    and "unforged P (cp_client (pool ! a)) (cp_sig_public_key (pool ! a)) (signed_in P logs) (delivered_sigs mutated final)"
    and "strategy = ''hash_chain'' \<longrightarrow> (\<forall>ys. map row_env mutated = map Some ys \<longrightarrow> chain_free P (cp_handshake_id (pool ! a)) ys es)"
proof -
  obtain es where es: "genuine_capture P logs strategy k (pool ! a) es" "donor_differs (pool ! a) (pool ! b)"
    and all: "\<forall>cap' mutated final first. mutate d (pool ! a) (pool ! b) attack strategy = Inr (Some (cap', mutated, final, first)) \<longrightarrow>
          unforged P (cp_client (pool ! a)) (cp_sig_public_key (pool ! a)) (signed_in P logs) (delivered_sigs mutated final) \<and>
          (strategy = ''hash_chain'' \<longrightarrow> (\<forall>ys. map row_env mutated = map Some ys \<longrightarrow>
             chain_free P (cp_handshake_id (pool ! a)) ys es))"
    using assms(1) unfolding attempt_sound_def prod.case by (elim conjE exE)
  note m = all [THEN spec, THEN spec, THEN spec, THEN spec, THEN mp, OF assms(2)]
  show thesis
    by (rule that [OF es m [THEN conjunct1] m [THEN conjunct2]])
qed

theorem trial_loop_detects_all:
  assumes "contexts_distinct P logs" "sha_ok P" "attack \<noteq> ''checkpoint_strip_v2client''"
    and "\<And>t. t < tries \<Longrightarrow> attempt_sound P logs strategy k pool attack (draws t)"
    and "ta_det ta = ta_n ta" "trial_loop P sps draws pool attack strategy k trials tries ta = Inr ta'"
  shows "ta_det ta' = ta_n ta'"
  using assms(4-6)
proof (induction tries arbitrary: ta)
  case (Suc tries)
  show ?case
  proof (cases "trials \<le> ta_n ta \<or> length pool < 2")
    case False
    obtain a b d where abd: "draws tries = (a, b, d)" by (cases "draws tries") auto
    have earlier: "attempt_sound P logs strategy k pool attack (draws t)" if "t < tries" for t
      using Suc.prems(1) [of t] that by simp
    have so: "attempt_sound P logs strategy k pool attack (a, b, d)"
      using Suc.prems(1) [of tries] abd by simp
    from Suc.prems(3) False obtain m where m: "mutate d (pool ! a) (pool ! b) attack strategy = Inr m"
        "(case m of None \<Rightarrow> trial_loop P sps draws pool attack strategy k trials tries ta
        | Some (cap, mutated, final, first) \<Rightarrow>
            bind_res (replay_through_client P sps cap mutated final strategy k (attack \<noteq> ''checkpoint_strip_v2client'')) (\<lambda>outcome.
            trial_loop P sps draws pool attack strategy k trials tries
              (tally_trial attack first (length mutated) outcome ta))) = Inr ta'"
      by (auto simp: abd)
    show ?thesis
    proof (cases m)
      case None
      then have rest: "trial_loop P sps draws pool attack strategy k trials tries ta = Inr ta'" using m(2) by simp
      show ?thesis by (rule Suc.IH [OF earlier Suc.prems(2) rest])
    next
      case (Some q)
      obtain cap mutated final first where q: "q = (cap, mutated, final, first)" by (cases q) auto
      have cap: "cap = pool ! a"
        using mutate_prefix [of d "pool ! a" "pool ! b" attack strategy cap mutated final first] m(1) Some q by simp
      obtain outcome where out: "replay_through_client P sps cap mutated final strategy k True = Inr outcome"
        and rest: "trial_loop P sps draws pool attack strategy k trials tries
          (tally_trial attack first (length mutated) outcome ta) = Inr ta'"
        using m(2) Some q assms(3) by auto
      have mm: "mutate d (pool ! a) (pool ! b) attack strategy = Inr (Some (cap, mutated, final, first))"
        using m(1) Some q by simp
      obtain es where es: "genuine_capture P logs strategy k (pool ! a) es" "donor_differs (pool ! a) (pool ! b)"
          "unforged P (cp_client (pool ! a)) (cp_sig_public_key (pool ! a)) (signed_in P logs) (delivered_sigs mutated final)"
          "strategy = ''hash_chain'' \<longrightarrow> (\<forall>ys. map row_env mutated = map Some ys \<longrightarrow> chain_free P (cp_handshake_id (pool ! a)) ys es)"
        by (rule attempt_soundE [OF so mm])
      have "fst outcome \<noteq> None"
        using mutation_detected [OF assms(1,2) es(1,2) mm assms(3) es(3) es(4) [THEN mp, THEN spec, THEN mp], of sps "snd outcome"] out cap
        by (cases outcome) auto
      then have det: "ta_det (tally_trial attack first (length mutated) outcome ta) =
          ta_n (tally_trial attack first (length mutated) outcome ta)"
        using Suc.prems(2) by (auto simp: tally_trial_def)
      show ?thesis
        by (rule Suc.IH [OF earlier det rest])
    qed
  qed (use Suc.prems in \<open>auto split: if_splits\<close>)
qed simp

end
