(* ===== verification/ToySessions.thy ===== *)
theory ToySessions
  imports StreamReplay
begin

text \<open>
  Concrete instances on which the properties of the other theories are exercised: primitives
  with a one-document JSON codec, a hash that separates inputs by length, and captured streams
  of one chunk with their signatures.
\<close>

section \<open>Primitives\<close>

definition wit_span :: span where
  "wit_span = (\<lparr> perf_counter = 0, thread_time = 0 \<rparr>, \<lparr> perf_counter = 1, thread_time = 1 \<rparr>)"

text \<open>The concrete primitives with a JSON codec for one document.\<close>

definition codec_prims :: "json \<Rightarrow> prims" where
  "codec_prims j = toy_prims \<lparr> json_loads := (\<lambda>_. Some j) \<rparr>"

lemma codec_prims_ok: "prims_ok (codec_prims j)"
  using toy_prims_ok
  by (simp add: codec_prims_def prims_ok_def sha_ok_def aead_ok_def rsa_ok_def ec_ok_def x25519_ok_def kem_ok_def dsa_ok_def)

lemma codec_prims_json: "json_loads (codec_prims j) x = Some j"
  by (simp add: codec_prims_def)

text \<open>
  A concrete capture for the witnesses: an ECDSA-signed session under the toy primitives, whose
  signatures are the public key \<open>[1]\<close> followed by the message.
\<close>

definition wit_env :: env where
  "wit_env = ([5], 7 # replicate 16 0)"

definition wit_capture :: capture where
  "wit_capture = \<lparr> cp_handshake_id = ''h'', cp_session_key = [], cp_sig_public_key = [1], cp_client = EcdheClient,
     cp_chunks = [], cp_final = None \<rparr>"

definition wit_row :: "bytes \<Rightarrow> string option \<Rightarrow> string chunk_row" where
  "wit_row h sg = \<lparr> ck_index = 0, ck_nonce = b64e [5], ck_ciphertext = b64e (7 # replicate 16 0), ck_chain_hash = Some (b64e h),
     ck_signature = sg, ck_sign_ms = 0, ck_sign_cpu_ms = 0, ck_signature_bytes = 0 \<rparr>"

lemma toy_unforged:
  assumes "pk \<noteq> []" "\<forall>sg \<in> sigs. \<exists>m \<in> S. sg = pk @ m" "ec_verify P = ec_verify toy_prims" "load_der_ok P = load_der_ok toy_prims"
  shows "unforged P EcdheClient pk S sigs"
  using assms by (auto simp: unforged_def ecdhe_verify_def toy_prims_def split: if_splits)

lemma toy_ecdhe_verify:
  "pk \<noteq> [] \<Longrightarrow> ec_verify P = ec_verify toy_prims \<Longrightarrow> load_der_ok P = load_der_ok toy_prims \<Longrightarrow>
   ecdhe_verify P sp msg sg pk = Inr (sg = pk @ msg, mk_verify_meta sp)"
  by (auto simp: ecdhe_verify_def toy_prims_def)

definition wit_pc_message :: bytes where
  "wit_pc_message = encode ''CHK'' @ stream_context toy_prims ''h'' @ be32 0 @ 5 # 7 # replicate 16 0"

definition wit_end_message :: bytes where
  "wit_end_message = encode ''END'' @ stream_context toy_prims ''h'' @ be32 1"

definition wit_pc_final :: "string row" where
  "wit_pc_final = FinalPerChunk \<lparr> pe_n_chunks = 1, pe_signature = b64e (1 # wit_end_message), pe_sign_ms = 0,
     pe_sign_cpu_ms = 0, pe_signature_bytes = 0 \<rparr>"

lemma wit_pc_signed:
  "wit_pc_message \<in> signed_in toy_prims [PcLog ''h'' [wit_env]]" "wit_end_message \<in> signed_in toy_prims [PcLog ''h'' [wit_env]]"
  using signed_chunk [of 0 "[wit_env]" toy_prims "''h''" wit_pc_message] signed_end [of toy_prims "''h''" "[wit_env]" wit_end_message]
  by (auto simp: signed_in_def message_Inr idx_ok_def wit_env_def wit_pc_message_def wit_end_message_def)

lemma wit_pc_replay:
  "replay_through_client toy_prims (\<lambda>_. sp) wit_capture [wit_row [] (Some (b64e (1 # wit_pc_message)))] (Some wit_pc_final)
     ''per_chunk'' None False = Inr (None, 1)"
  by (simp add: replay_through_client_def replay_pc_final_def decode_pc_chunk_def verify_per_chunk_def verify_per_chunk_final_def
      wit_row_def wit_capture_def wit_pc_final_def b64d_field_def toy_ecdhe_verify chunk_message_def end_message_def
      index_bytes_def wit_pc_message_def wit_end_message_def decrypt_into_def aead_decrypt_def toy_prims_def)

section \<open>A captured hash chain\<close>

text \<open>A hash that separates inputs of different lengths.\<close>

definition len_prims :: prims where
  "len_prims = toy_prims \<lparr> sha256 := (\<lambda>x. take 32 (be32 (length x) @ replicate 28 0)) \<rparr>"

lemma len_sha: "sha256 len_prims x = take 32 (be32 (length x) @ replicate 28 0)"
  by (simp add: len_prims_def)

lemma len_prims_simps [simp]:
  "ec_verify len_prims = ec_verify toy_prims" "load_der_ok len_prims = load_der_ok toy_prims"
  "gcm_key_ok len_prims k" "gcm_decrypt len_prims = gcm_decrypt toy_prims"
  by (simp_all add: len_prims_def toy_prims_def)

lemma len_sha_ok: "sha_ok len_prims"
  by (simp add: sha_ok_def len_sha)

lemma len_sha_inj: "length x < 2 ^ 32 \<Longrightarrow> length y < 2 ^ 32 \<Longrightarrow> length x \<noteq> length y \<Longrightarrow> sha256 len_prims x \<noteq> sha256 len_prims y"
  by (auto simp: len_sha be32_inj dest!: append_eq_lengthD)

definition wit_link :: bytes where
  "wit_link = sha256 len_prims (chain_input (genesis_hash len_prims ''h'') (be32 0) (5 # 7 # replicate 16 0))"

definition wit_ckp_message :: bytes where
  "wit_ckp_message = encode ''CKP'' @ stream_context len_prims ''h'' @ be32 0 @ wit_link"

definition wit_fin_message :: bytes where
  "wit_fin_message = encode ''FIN'' @ stream_context len_prims ''h'' @ be32 1 @ wit_link"

definition wit_hc_final :: "string row" where
  "wit_hc_final = FinalChain \<lparr> fc_final_chain_hash = b64e wit_link, fc_n_chunks = 1, fc_signature = b64e (1 # wit_fin_message),
     fc_sign_ms = 0, fc_sign_cpu_ms = 0, fc_signature_bytes = 0 \<rparr>"

lemma wit_chain_at: "chain_at len_prims ''h'' [wit_env] (Suc 0) = wit_link"
  by (simp add: chain_at_def indexed_def wit_env_def wit_link_def envelope_def)

lemma wit_hc_signed:
  "wit_ckp_message \<in> signed_in len_prims [HcLog ''h'' [wit_env]]" "wit_fin_message \<in> signed_in len_prims [HcLog ''h'' [wit_env]]"
  using signed_ckp [of 0 "[wit_env]" len_prims "''h''" wit_ckp_message] signed_fin [of len_prims "''h''" "[wit_env]" wit_fin_message]
  by (simp_all add: signed_in_def message_Inr idx_ok_def wit_ckp_message_def wit_fin_message_def wit_chain_at)

lemma wit_hc_loop:
  "replay_hc len_prims (\<lambda>_. sp) wit_capture 0 0 (chain_init len_prims ''h'' (Some 1)) [wit_row wit_link (Some (b64e (1 # wit_ckp_message)))] =
     Inr (None, 1, (chain_init len_prims ''h'' (Some 1)) \<lparr> cs_running_hash := wit_link, cs_n_absorbed := 1 \<rparr>)"
  by (simp del: bind_res_eq_Inr add: decode_hc_chunk_def verify_hash_chain_chunk_def checkpoint_check_some absorb_def chain_init_def
      checkpoint_expected_def wit_row_def wit_capture_def toy_ecdhe_verify checkpoint_message_def index_bytes_def chain_step_def
      wit_ckp_message_def decrypt_into_def aead_decrypt_def Let_def flip: wit_link_def)
     (simp add: toy_prims_def)

lemma wit_hc_end:
  "replay_hc_final len_prims sp wit_capture ((chain_init len_prims ''h'' (Some 1)) \<lparr> cs_running_hash := wit_link, cs_n_absorbed := 1 \<rparr>)
     (Some wit_hc_final) = Inr True"
  by (simp del: bind_res_eq_Inr add: replay_hc_final_def verify_hash_chain_final_def chain_init_def wit_capture_def wit_hc_final_def
      b64d_field_def toy_ecdhe_verify final_chain_message_def index_bytes_def wit_fin_message_def Let_def)

lemma wit_capture_id: "cp_handshake_id wit_capture = ''h''"
  by (simp add: wit_capture_def)

lemma wit_hc_replay:
  "replay_through_client len_prims (\<lambda>_. sp) wit_capture [wit_row wit_link (Some (b64e (1 # wit_ckp_message)))] (Some wit_hc_final)
     ''hash_chain'' (Some 1) True = Inr (None, 1)"
  by (simp del: bind_res_eq_Inr replay_hc.simps add: replay_through_client_def wit_hc_loop wit_hc_end wit_capture_id)

text \<open>The two hashed inputs of this chain differ in length.\<close>

lemma wit_chain_free: "chain_free len_prims ''h'' [(0, 5 # 7 # replicate 16 0)] [wit_env]"
proof -
  have "length (stream_context len_prims ''h'') = 32" "length (genesis_hash len_prims ''h'') = 32"
    by (simp_all add: stream_context_len genesis_len len_sha_ok)
  then have "sha256 len_prims (genesis_hash len_prims ''h'' @ be32 0 @ 5 # 7 # replicate 16 0) \<noteq>
      sha256 len_prims (encode ''GEN'' @ stream_context len_prims ''h'')"
    by (intro len_sha_inj) simp_all
  then show ?thesis
    by (auto simp: chain_free_def wit_env_def indexed_def envelope_def chain_input_def inj_on_def)
qed

end
