(* ===== verification/ToyCampaign.thy ===== *)
theory ToyCampaign
  imports CampaignDetection ToySessions
begin

text \<open>Two captured streams of one chunk, for the campaign's witnesses.\<close>

definition wit_victim :: capture where
  "wit_victim = wit_capture \<lparr> cp_chunks := [wit_row [] (Some (b64e (1 # wit_pc_message)))], cp_final := Some wit_pc_final \<rparr>"

definition wit_donor :: capture where
  "wit_donor = wit_capture \<lparr> cp_chunks := [(wit_row [] None) \<lparr> ck_nonce := b64e [6] \<rparr>] \<rparr>"

lemma wit_victim_simps [simp]:
  "cp_chunks wit_victim = [wit_row [] (Some (b64e (1 # wit_pc_message)))]" "cp_final wit_victim = Some wit_pc_final"
  "cp_handshake_id wit_victim = ''h''" "cp_client wit_victim = EcdheClient" "cp_sig_public_key wit_victim = [1]"
  "cp_chunks wit_donor = [(wit_row [] None) \<lparr> ck_nonce := b64e [6] \<rparr>]"
  by (simp_all add: wit_victim_def wit_donor_def wit_capture_def)

lemma wit_row_env [simp]:
  "row_env (wit_row h sg) = Some (0, 5 # 7 # replicate 16 0)"
  "row_env ((wit_row h sg) \<lparr> ck_nonce := b64e [6] \<rparr>) = Some (0, 6 # 7 # replicate 16 0)"
  by (simp_all add: row_env_def wit_row_def)

lemma wit_drop: "mutate 0 wit_victim donor ''drop'' strategy = Inr (Some (wit_victim, [], Some wit_pc_final, 0))"
  by (simp del: bind_res_eq_Inr add: mutate_def STATIC_ATTACKS_def static_mutate_def randrange_def drop_at_def)

lemma wit_drop_replay:
  "replay_through_client toy_prims (\<lambda>_. sp) wit_victim [] (Some wit_pc_final) ''per_chunk'' None True = Inr (Some 0, 0)"
  by (simp del: bind_res_eq_Inr add: replay_through_client_def replay_pc_final_def wit_pc_final_def b64d_field_def
      verify_per_chunk_final_def toy_ecdhe_verify end_message_def index_bytes_def)

lemma wit_campaign_run:
  "\<exists>ta. trial_loop toy_prims (\<lambda>_. wit_span) (\<lambda>_. (0, 1, 0)) [wit_victim, wit_donor] ''drop'' ''per_chunk'' None 1 5 tally0 = Inr ta \<and> ta_n ta = 1"
  by (simp del: bind_res_eq_Inr add: numeral_eq_Suc wit_drop wit_drop_replay tally0_def tally_trial_def)

lemma wit_attempt_sound:
  "attempt_sound toy_prims [PcLog ''h'' [wit_env]] ''per_chunk'' None [wit_victim, wit_donor] ''drop'' (0, 1, 0)"
proof -
  have "unforged toy_prims EcdheClient [1] (signed_in toy_prims [PcLog ''h'' [wit_env]]) (delivered_sigs [] (Some wit_pc_final))"
    using wit_pc_signed
    by (intro toy_unforged) (auto simp: delivered_sigs_def chunk_sigs_def final_sigs_def wit_pc_final_def)
  then show ?thesis
    by (auto simp: attempt_sound_def donor_differs_def genuine_capture_def indexed_def wit_env_def envelope_def wit_drop)
qed

end
