(* ===== verification/Runner.thy ===== *)
theory Runner
  imports SecureClient "HOL-Library.Multiset"
begin

text \<open>
  \<^verbatim>\<open>bench/runner.py\<close>: the load generator. A cell of a sweep is a concurrent program: workers that
  share a counter (under a lock), a semaphore and a list of results. It is a step relation over
  the state of the workers; the transaction a worker runs is the client's, over the network of
  its request index.
\<close>

section \<open>Rows\<close>

definition CONFIG_TO_MODULE_NAME :: "(string \<times> string) list" where
  "CONFIG_TO_MODULE_NAME = [(''control'', ''control''), (''control-2rt'', ''control_2rt''), (''classical'', ''classical''),
     (''classical-ecdhe'', ''classical_ecdhe''), (''hybrid'', ''hybrid''), (''hybrid-kex'', ''hybrid_kex''),
     (''hybrid-kex-pq'', ''hybrid_kex_pq''), (''full-pqc'', ''full_pqc'')]"

definition CSV_FIELDS :: "string list" where
  "CSV_FIELDS = [''run_id'', ''config'', ''payload_profile'', ''network_profile'', ''requests_per_handshake'', ''resumed'',
     ''auth_handshake'', ''concurrency'', ''repetition'', ''request_index'', ''rtt_ms'', ''handshake_ms'', ''total_ms'',
     ''handshake_auth_verify_ms'', ''client_establish_ms'', ''verify_ms'', ''valid_signature'', ''kex_blob_bytes'',
     ''signature_bytes'', ''request_plaintext_bytes'', ''response_plaintext_bytes'', ''response_ciphertext_bytes'',
     ''server_decapsulate_ms'', ''server_inference_ms'', ''server_encrypt_ms'', ''server_sign_ms'', ''server_crypto_ms'',
     ''server_total_ms'', ''prediction'', ''error'']"

text \<open>The error entry of a row: the failures of the protected client, of the control transaction, of the streaming client.\<close>

datatype control_failure = ControlHandshakeHTTP nat | ControlHTTP nat | ControlExn exn

datatype row_error = TxnError txn_failure | ControlError control_failure | StreamError txn_error

datatype cell_value = CNone | CStr string | CNat nat | CInt int | CRat rat | CBool bool | CJson json | CErr row_error

definition opt_value :: "('a \<Rightarrow> cell_value) \<Rightarrow> 'a option \<Rightarrow> cell_value" where
  "opt_value f x = (case x of None \<Rightarrow> CNone | Some y \<Rightarrow> f y)"

record control_row =
  ct_config :: string
  ct_error :: "control_failure option"
  ct_rtt_ms :: "rat option"
  ct_total_ms :: "rat option"
  ct_handshake_ms :: "rat option"
  ct_request_plaintext_bytes :: "nat option"
  ct_response_plaintext_bytes :: "nat option"
  ct_prediction :: "json option"

text \<open>
  The unprotected transaction: the network gives the status of \<^verbatim>\<open>GET /handshake\<close>, and for
  \<^verbatim>\<open>POST /predict\<close> the status, the content's length and the parsed body.
\<close>

record control_net =
  cn_get_handshake :: "nat res"
  cn_predict :: "json \<Rightarrow> (nat \<times> nat \<times> json res) res"

definition control_transaction ::
  "prims \<Rightarrow> rat \<times> rat \<Rightarrow> rat \<times> rat \<Rightarrow> control_net \<Rightarrow> json \<Rightarrow> bool \<Rightarrow> control_row" where
  "control_transaction P clk_h clk_p net body two_round_trips =
     (let row = \<lparr> ct_config = (if two_round_trips then ''control_2rt'' else ''control''), ct_error = None, ct_rtt_ms = None,
            ct_total_ms = None, ct_handshake_ms = None, ct_request_plaintext_bytes = None, ct_response_plaintext_bytes = None,
            ct_prediction = None \<rparr>;
          request_bytes = length (json_dumps P body);
          predict = (\<lambda>handshake_ms.
            case cn_predict net body of
              Inl e \<Rightarrow> row \<lparr> ct_error := Some (ControlExn e) \<rparr>
            | Inr (status, content_len, parsed) \<Rightarrow>
                let rtt_ms = ms_between clk_p;
                    row1 = row \<lparr> ct_rtt_ms := Some rtt_ms, ct_total_ms := Some (handshake_ms + rtt_ms),
                                 ct_handshake_ms := Some handshake_ms, ct_request_plaintext_bytes := Some request_bytes \<rparr> in
                if status = 200 then
                  (case bind_res parsed (\<lambda>j. body_get j ''prediction'' JNull) of
                     Inl e \<Rightarrow> row1 \<lparr> ct_response_plaintext_bytes := Some content_len, ct_error := Some (ControlExn e) \<rparr>
                   | Inr p \<Rightarrow> row1 \<lparr> ct_response_plaintext_bytes := Some content_len, ct_prediction := Some p \<rparr>)
                else row1 \<lparr> ct_error := Some (ControlHTTP status) \<rparr>) in
      if two_round_trips then
        (case cn_get_handshake net of
           Inl e \<Rightarrow> row \<lparr> ct_error := Some (ControlExn e) \<rparr>
         | Inr status \<Rightarrow>
             if status \<noteq> 200 then row \<lparr> ct_error := Some (ControlHandshakeHTTP status) \<rparr>
             else predict (ms_between clk_h))
      else predict 0)"

text \<open>A finished transaction of either kind, with the two keys the worker adds.\<close>

datatype bench_row = ControlRow control_row | TxnRow txn_row

record run_tags =
  tg_run_id :: string
  tg_config_name :: string
  tg_payload_profile :: string
  tg_concurrency :: nat
  tg_repetition :: nat

type_synonym csv_row = "(string \<times> cell_value) list"

definition flatten :: "bench_row \<Rightarrow> nat \<Rightarrow> bool \<Rightarrow> run_tags \<Rightarrow> nat \<Rightarrow> csv_row" where
  "flatten row requests_per_handshake auth_handshake tags idx =
     (let txn = (\<lambda>f. case row of ControlRow _ \<Rightarrow> CNone | TxnRow r \<Rightarrow> f r);
          either = (\<lambda>f g. case row of ControlRow r \<Rightarrow> f r | TxnRow r \<Rightarrow> g r);
          timing = (\<lambda>f. txn (\<lambda>r. opt_value (\<lambda>t. CRat (f t)) (tr_server_timing r))) in
      [(''run_id'', CStr (tg_run_id tags)),
       (''config'', CStr (tg_config_name tags)),
       (''payload_profile'', CStr (tg_payload_profile tags)),
       (''network_profile'', CStr ''localhost''),
       (''requests_per_handshake'', CNat requests_per_handshake),
       (''resumed'', either (\<lambda>_. CBool False) (\<lambda>r. case tr_resumed r of None \<Rightarrow> CBool False | Some b \<Rightarrow> CBool b)),
       (''auth_handshake'', CBool auth_handshake),
       (''concurrency'', CNat (tg_concurrency tags)),
       (''repetition'', CNat (tg_repetition tags)),
       (''request_index'', CNat idx),
       (''rtt_ms'', either (opt_value CRat \<circ> ct_rtt_ms) (opt_value CRat \<circ> tr_rtt_ms)),
       (''handshake_ms'', either (opt_value CRat \<circ> ct_handshake_ms) (opt_value CRat \<circ> tr_handshake_ms)),
       (''total_ms'', either (opt_value CRat \<circ> ct_total_ms) (opt_value CRat \<circ> tr_total_ms)),
       (''handshake_auth_verify_ms'', txn (opt_value CRat \<circ> tr_handshake_auth_verify_ms)),
       (''client_establish_ms'', txn (opt_value CRat \<circ> tr_client_establish_ms)),
       (''verify_ms'', txn (opt_value CRat \<circ> tr_verify_ms)),
       (''valid_signature'', txn (opt_value CBool \<circ> tr_valid_signature)),
       (''kex_blob_bytes'', txn (opt_value CNat \<circ> tr_kex_blob_bytes)),
       (''signature_bytes'', txn (opt_value CNat \<circ> tr_signature_bytes)),
       (''request_plaintext_bytes'', either (opt_value CNat \<circ> ct_request_plaintext_bytes) (opt_value CNat \<circ> tr_request_plaintext_bytes)),
       (''response_plaintext_bytes'', either (opt_value CNat \<circ> ct_response_plaintext_bytes) (opt_value CNat \<circ> tr_response_plaintext_bytes)),
       (''response_ciphertext_bytes'', txn (\<lambda>r. opt_value (\<lambda>d. CNat (dm_response_ciphertext_bytes d)) (tr_debug r))),
       (''server_decapsulate_ms'', timing st_decapsulate_ms),
       (''server_inference_ms'', timing st_inference_ms),
       (''server_encrypt_ms'', timing st_encrypt_ms),
       (''server_sign_ms'', timing st_sign_ms),
       (''server_crypto_ms'', timing st_server_crypto_ms),
       (''server_total_ms'', timing st_server_total_ms),
       (''prediction'', either (opt_value CJson \<circ> ct_prediction) (opt_value CJson \<circ> tr_prediction)),
       (''error'', either (opt_value (CErr \<circ> ControlError) \<circ> ct_error) (opt_value (CErr \<circ> TxnError) \<circ> tr_error))])"

text \<open>The columns of a row are those of the CSV header, so \<^verbatim>\<open>DictWriter\<close> accepts every row.\<close>

definition dict_writer :: "string list \<Rightarrow> csv_row list \<Rightarrow> cell_value list list res" where
  "dict_writer header rows =
     (if \<exists>row \<in> set rows. \<not> set (map fst row) \<subseteq> set header then Inl ValueError
      else Inr (map (\<lambda>row. map (\<lambda>f. case map_of row f of None \<Rightarrow> CStr [] | Some v \<Rightarrow> v) header) rows))"

definition write_csv :: "csv_row list \<Rightarrow> (string list \<times> cell_value list list) res" where
  "write_csv rows = map_sum id (Pair CSV_FIELDS) (dict_writer CSV_FIELDS rows)"

lemma flatten_fields: "map fst (flatten row rph auth tags idx) = CSV_FIELDS"
  by (simp add: flatten_def CSV_FIELDS_def Let_def)

lemma flatten_index: "map_of (flatten row rph auth tags idx) ''request_index'' = Some (CNat idx)"
  by (simp add: flatten_def Let_def)

lemma distinct_CSV_FIELDS: "distinct CSV_FIELDS"
  by (simp add: CSV_FIELDS_def)

lemma map_of_fields: "distinct (map fst row) \<Longrightarrow> map (\<lambda>f. case map_of row f of None \<Rightarrow> d | Some v \<Rightarrow> v) (map fst row) = map snd row"
proof (induction row)
  case (Cons kv row)
  obtain k v where kv: "kv = (k, v)" by fastforce
  have "map (\<lambda>f. case map_of (kv # row) f of None \<Rightarrow> d | Some v \<Rightarrow> v) (map fst row) = map (\<lambda>f. case map_of row f of None \<Rightarrow> d | Some v \<Rightarrow> v) (map fst row)"
    using Cons.prems kv by (intro map_cong) auto
  then show ?case using Cons kv by simp
qed simp

lemma write_csv_flat:
  assumes "\<forall>row \<in> set rows. map fst row = CSV_FIELDS"
  shows "write_csv rows = Inr (CSV_FIELDS, map (map snd) rows)"
proof -
  have "map (\<lambda>f. case map_of row f of None \<Rightarrow> CStr [] | Some v \<Rightarrow> v) CSV_FIELDS = map snd row" if "row \<in> set rows" for row
    using map_of_fields [of row "CStr []"] assms that distinct_CSV_FIELDS by simp
  then show ?thesis
    using assms by (auto simp: write_csv_def dict_writer_def)
qed

section \<open>A cell of the sweep\<close>

text \<open>
  What a worker needs for the request it sends: the configuration, the options of the cell and,
  per request index, the randomness, clocks, network and request body.
\<close>

record cell_env =
  en_prims :: prims
  en_config_name :: string
  en_requests_per_handshake :: nat
  en_cached_handshake :: "json_strings option"
  en_pinned :: "pinned_identity option"
  en_rng :: "nat \<Rightarrow> rng"
  en_clock :: "nat \<Rightarrow> txn_clock"
  en_net :: "nat \<Rightarrow> txn_net"
  en_control_net :: "nat \<Rightarrow> control_net"
  en_body :: "nat \<Rightarrow> json"
  en_tags :: run_tags
  en_n_requests :: nat

definition is_control :: "string \<Rightarrow> bool" where
  "is_control config_name \<longleftrightarrow> config_name = ''control'' \<or> config_name = ''control_2rt''"

text \<open>The session a request runs under: a new one when the old is used up or was dropped.\<close>

definition worker_session :: "nat \<Rightarrow> client_session option \<Rightarrow> client_session option" where
  "worker_session requests_per_handshake session =
     (if 1 < requests_per_handshake \<and> (case session of None \<Rightarrow> True | Some s \<Rightarrow> sn_requests_left s \<le> 0)
      then Some \<lparr> sn_requests_left = int requests_per_handshake, sn_handshake_json = None, sn_session_key = None \<rparr>
      else session)"

definition send_one :: "cell_env \<Rightarrow> nat \<Rightarrow> client_session option \<Rightarrow> (csv_row \<times> client_session option) res" where
  "send_one env i session =
     (let cfg = en_config_name env; rph = en_requests_per_handshake env;
          finish = (\<lambda>row. flatten row rph (en_pinned env \<noteq> None) (en_tags env) i) in
      if is_control cfg then
        Inr (finish (ControlRow (control_transaction (en_prims env) (tc_handshake (en_clock env i)) (tc_post (en_clock env i))
               (en_control_net env i) (en_body env i) (cfg = ''control_2rt''))), session)
      else
        let session1 = worker_session rph session in
        bind_res (secure_predict_transaction (en_prims env) (en_rng env i) (en_clock env i) (en_net env i) cfg (en_body env i) True
                    (en_cached_handshake env) (if 1 < rph then session1 else None) (en_pinned env)) (\<lambda>(row, session2).
        Inr (finish (TxnRow row),
             if tr_error row \<noteq> None then None else if 1 < rph then session2 else session1)))"

text \<open>
  A worker is about to claim an index, waits for the semaphore with one, has a request under way,
  has left its loop, or raised.
\<close>

datatype phase = AtLoop | Waiting nat | Sending nat | Left | Raised exn

record worker =
  wk_phase :: phase
  wk_session :: "client_session option"

record cell =
  cl_counter :: nat
  cl_permits :: nat
  cl_workers :: "worker list"
  cl_results :: "csv_row list"

definition cell_init :: "nat \<Rightarrow> cell" where
  "cell_init concurrency =
     \<lparr> cl_counter = 0, cl_permits = concurrency,
       cl_workers = replicate concurrency \<lparr> wk_phase = AtLoop, wk_session = None \<rparr>, cl_results = [] \<rparr>"

definition put_worker :: "nat \<Rightarrow> worker \<Rightarrow> cell \<Rightarrow> cell" where
  "put_worker w wk c = c \<lparr> cl_workers := (cl_workers c)[w := wk] \<rparr>"

text \<open>One step of worker \<open>w\<close>; \<open>None\<close> when it is done or blocked on the semaphore.\<close>

definition step_worker :: "cell_env \<Rightarrow> nat \<Rightarrow> cell \<Rightarrow> cell option" where
  "step_worker env w c =
     (if length (cl_workers c) \<le> w then None
      else let wk = cl_workers c ! w in
        case wk_phase wk of
          AtLoop \<Rightarrow>
            if en_n_requests env \<le> cl_counter c then Some (put_worker w (wk \<lparr> wk_phase := Left \<rparr>) c)
            else Some ((put_worker w (wk \<lparr> wk_phase := Waiting (cl_counter c) \<rparr>) c) \<lparr> cl_counter := cl_counter c + 1 \<rparr>)
        | Waiting i \<Rightarrow>
            if cl_permits c = 0 then None
            else Some ((put_worker w (wk \<lparr> wk_phase := Sending i \<rparr>) c) \<lparr> cl_permits := cl_permits c - 1 \<rparr>)
        | Sending i \<Rightarrow>
            (case send_one env i (wk_session wk) of
               Inl e \<Rightarrow> Some ((put_worker w (wk \<lparr> wk_phase := Raised e \<rparr>) c) \<lparr> cl_permits := cl_permits c + 1 \<rparr>)
             | Inr (row, session) \<Rightarrow>
                 Some ((put_worker w (wk \<lparr> wk_phase := AtLoop, wk_session := session \<rparr>) c)
                   \<lparr> cl_permits := cl_permits c + 1, cl_results := cl_results c @ [row] \<rparr>))
        | Left \<Rightarrow> None
        | Raised e \<Rightarrow> None)"

inductive cell_steps :: "cell_env \<Rightarrow> cell \<Rightarrow> nat \<Rightarrow> cell \<Rightarrow> bool" for env where
  no_step: "cell_steps env c 0 c"
| one_step: "cell_steps env c n c1 \<Longrightarrow> step_worker env w c1 = Some c2 \<Longrightarrow> cell_steps env c (Suc n) c2"

inductive_cases cell_stepsE: "cell_steps env c n c'"

definition all_left :: "cell \<Rightarrow> bool" where
  "all_left c \<longleftrightarrow> (\<forall>wk \<in> set (cl_workers c). wk_phase wk = Left)"

section \<open>Every request is sent exactly once\<close>

text \<open>The indices a worker has claimed and not yet turned into a row, and those in the results.\<close>

fun claimed :: "phase \<Rightarrow> nat list" where
  "claimed (Waiting i) = [i]"
| "claimed (Sending i) = [i]"
| "claimed _ = []"

fun sending :: "phase \<Rightarrow> nat" where
  "sending (Sending i) = 1"
| "sending _ = 0"

definition row_index :: "csv_row \<Rightarrow> nat" where
  "row_index row = (case map_of row ''request_index'' of Some (CNat i) \<Rightarrow> i | _ \<Rightarrow> 0)"

definition open_indices :: "cell \<Rightarrow> nat list" where
  "open_indices c = concat (map (claimed \<circ> wk_phase) (cl_workers c))"

definition weight :: "phase \<Rightarrow> nat" where
  "weight p = (case p of AtLoop \<Rightarrow> 1 | Waiting _ \<Rightarrow> 3 | Sending _ \<Rightarrow> 2 | Left \<Rightarrow> 0 | Raised _ \<Rightarrow> 0)"

definition potential :: "cell_env \<Rightarrow> cell \<Rightarrow> nat" where
  "potential env c = 3 * (en_n_requests env - cl_counter c) + sum_list (map (weight \<circ> wk_phase) (cl_workers c))"

definition cell_inv :: "cell_env \<Rightarrow> nat \<Rightarrow> cell \<Rightarrow> bool" where
  "cell_inv env concurrency c \<longleftrightarrow>
     length (cl_workers c) = concurrency \<and>
     cl_counter c \<le> en_n_requests env \<and>
     cl_permits c + sum_list (map (sending \<circ> wk_phase) (cl_workers c)) = concurrency \<and>
     mset (open_indices c) + mset (map row_index (cl_results c)) = mset [0..<cl_counter c] \<and>
     (\<forall>wk \<in> set (cl_workers c). (wk_phase wk = Left \<longrightarrow> cl_counter c = en_n_requests env) \<and> (\<forall>e. wk_phase wk \<noteq> Raised e)) \<and>
     (\<forall>row \<in> set (cl_results c). map fst row = CSV_FIELDS)"

lemma concat_update_mset:
  "w < length xs \<Longrightarrow> mset (concat (map f (xs[w := y]))) + mset (f (xs ! w)) = mset (concat (map f xs)) + mset (f y)"
proof (induction xs arbitrary: w)
  case (Cons x xs)
  show ?case
  proof (cases w)
    case (Suc w')
    then show ?thesis using Cons.IH [of w'] Cons.prems by (simp add: add.assoc)
  qed (simp add: add_ac)
qed simp

lemma sum_update: "w < length xs \<Longrightarrow> sum_list (map f (xs[w := y])) + f (xs ! w) = sum_list (map f xs) + (f y :: nat)"
proof (induction xs arbitrary: w)
  case (Cons x xs)
  show ?case
  proof (cases w)
    case (Suc w')
    then show ?thesis using Cons.IH [of w'] Cons.prems by (simp add: add.assoc)
  qed (simp add: add_ac)
qed simp

text \<open>For a configuration that exists no transaction raises.\<close>

lemma send_one_ok:
  assumes "is_control (en_config_name env) \<or> en_config_name env \<in> set CONFIG_NAMES"
  obtains row session' where "send_one env i session = Inr (row, session')" "map fst row = CSV_FIELDS" "row_index row = i"
proof (cases "is_control (en_config_name env)")
  case True
  then show ?thesis
    using that by (simp add: send_one_def Let_def flatten_fields row_index_def flatten_index)
next
  case False
  then obtain cl where cl: "get_client_crypto (en_config_name env) = Inr cl"
    using assms get_crypto_total by blast
  let ?s = "if 1 < en_requests_per_handshake env then worker_session (en_requests_per_handshake env) session else None"
  obtain q where "secure_predict_transaction (en_prims env) (en_rng env i) (en_clock env i) (en_net env i) (en_config_name env)
      (en_body env i) True (en_cached_handshake env) ?s (en_pinned env) = Inr q"
    using cl by (simp add: secure_predict_transaction_def)
  then show ?thesis
    using that False
    by (cases q) (simp add: send_one_def Let_def flatten_fields row_index_def flatten_index)
qed

lemma step_worker_cases:
  assumes "step_worker env w c = Some c'" "is_control (en_config_name env) \<or> en_config_name env \<in> set CONFIG_NAMES"
  obtains (leave) "w < length (cl_workers c)" "wk_phase (cl_workers c ! w) = AtLoop" "en_n_requests env \<le> cl_counter c"
        "c' = put_worker w ((cl_workers c ! w) \<lparr> wk_phase := Left \<rparr>) c"
    | (claim) "w < length (cl_workers c)" "wk_phase (cl_workers c ! w) = AtLoop" "cl_counter c < en_n_requests env"
        "c' = (put_worker w ((cl_workers c ! w) \<lparr> wk_phase := Waiting (cl_counter c) \<rparr>) c) \<lparr> cl_counter := cl_counter c + 1 \<rparr>"
    | (acquire) i where "w < length (cl_workers c)" "wk_phase (cl_workers c ! w) = Waiting i" "0 < cl_permits c"
        "c' = (put_worker w ((cl_workers c ! w) \<lparr> wk_phase := Sending i \<rparr>) c) \<lparr> cl_permits := cl_permits c - 1 \<rparr>"
    | (finish) i row session where "w < length (cl_workers c)" "wk_phase (cl_workers c ! w) = Sending i"
        "map fst row = CSV_FIELDS" "row_index row = i"
        "c' = (put_worker w ((cl_workers c ! w) \<lparr> wk_phase := AtLoop, wk_session := session \<rparr>) c)
                \<lparr> cl_permits := cl_permits c + 1, cl_results := cl_results c @ [row] \<rparr>"
proof -
  have w: "w < length (cl_workers c)"
    using assms(1) by (simp add: step_worker_def split: if_split_asm)
  show thesis
  proof (cases "wk_phase (cl_workers c ! w)")
    case AtLoop
    then show ?thesis
      using assms(1) w leave claim by (auto simp: step_worker_def Let_def split: if_split_asm)
  next
    case (Waiting i)
    then show ?thesis
      using assms(1) w acquire by (auto simp: step_worker_def Let_def split: if_split_asm)
  next
    case (Sending i)
    obtain row session' where "send_one env i (wk_session (cl_workers c ! w)) = Inr (row, session')"
        "map fst row = CSV_FIELDS" "row_index row = i"
      using send_one_ok [OF assms(2)] by metis
    then show ?thesis
      using assms(1) w Sending by (intro finish [of i row session']) (auto simp: step_worker_def Let_def)
  qed (use assms(1) w in \<open>simp_all add: step_worker_def Let_def\<close>)
qed

lemma put_worker_simps [simp]:
  "cl_workers (put_worker w wk c) = (cl_workers c)[w := wk]" "cl_counter (put_worker w wk c) = cl_counter c"
  "cl_permits (put_worker w wk c) = cl_permits c" "cl_results (put_worker w wk c) = cl_results c"
  by (simp_all add: put_worker_def)

lemma step_worker_inv:
  assumes "cell_inv env concurrency c" "step_worker env w c = Some c'"
    and "is_control (en_config_name env) \<or> en_config_name env \<in> set CONFIG_NAMES"
  shows "cell_inv env concurrency c' \<and> Suc (potential env c') = potential env c"
  using assms(2,3)
proof (cases rule: step_worker_cases)
  case leave
  let ?wk = "(cl_workers c ! w) \<lparr> wk_phase := Left \<rparr>"
  show ?thesis
    using assms(1) leave sum_update [OF leave(1), of "weight \<circ> wk_phase" ?wk] sum_update [OF leave(1), of "sending \<circ> wk_phase" ?wk]
      concat_update_mset [OF leave(1), of "claimed \<circ> wk_phase" ?wk]
    by (auto simp: cell_inv_def potential_def open_indices_def weight_def dest!: set_update_subset_insert [THEN subsetD])
next
  case claim
  let ?wk = "(cl_workers c ! w) \<lparr> wk_phase := Waiting (cl_counter c) \<rparr>"
  have "\<forall>wk \<in> set (cl_workers c). wk_phase wk \<noteq> Left"
    using assms(1) claim(3) by (auto simp: cell_inv_def)
  then show ?thesis
    using assms(1) claim sum_update [OF claim(1), of "weight \<circ> wk_phase" ?wk] sum_update [OF claim(1), of "sending \<circ> wk_phase" ?wk]
      concat_update_mset [OF claim(1), of "claimed \<circ> wk_phase" ?wk]
    by (auto simp: cell_inv_def potential_def open_indices_def weight_def dest!: set_update_subset_insert [THEN subsetD])
next
  case (acquire i)
  let ?wk = "(cl_workers c ! w) \<lparr> wk_phase := Sending i \<rparr>"
  show ?thesis
    using assms(1) acquire sum_update [OF acquire(1), of "weight \<circ> wk_phase" ?wk] sum_update [OF acquire(1), of "sending \<circ> wk_phase" ?wk]
      concat_update_mset [OF acquire(1), of "claimed \<circ> wk_phase" ?wk]
    by (auto simp: cell_inv_def potential_def open_indices_def weight_def dest!: set_update_subset_insert [THEN subsetD])
next
  case (finish i row session)
  let ?wk = "(cl_workers c ! w) \<lparr> wk_phase := AtLoop, wk_session := session \<rparr>"
  show ?thesis
    using assms(1) finish sum_update [OF finish(1), of "weight \<circ> wk_phase" ?wk] sum_update [OF finish(1), of "sending \<circ> wk_phase" ?wk]
      concat_update_mset [OF finish(1), of "claimed \<circ> wk_phase" ?wk]
    by (auto simp: cell_inv_def potential_def open_indices_def weight_def dest!: set_update_subset_insert [THEN subsetD])
       (metis union_mset_add_mset_left)
qed

lemma cell_steps_inv:
  assumes "cell_steps env (cell_init concurrency) m c" "is_control (en_config_name env) \<or> en_config_name env \<in> set CONFIG_NAMES"
  shows "cell_inv env concurrency c \<and> m + potential env c = 3 * en_n_requests env + concurrency"
  using assms(1)
proof (induction "cell_init concurrency" m c rule: cell_steps.induct)
  case no_step
  show ?case
    by (auto simp: cell_inv_def cell_init_def open_indices_def potential_def weight_def map_replicate_const sum_list_replicate)
next
  case (one_step m c1 w c2)
  have IH: "cell_inv env concurrency c1" "m + potential env c1 = 3 * en_n_requests env + concurrency"
    using one_step(2) by simp_all
  show ?case
    using step_worker_inv [OF IH(1) one_step(3) assms(2)] IH(2) by simp
qed

text \<open>A worker that cannot move has left, or waits for a permit another worker holds.\<close>

lemma cell_progress:
  assumes "cell_inv env concurrency c" "0 < concurrency" "\<not> all_left c"
  shows "\<exists>w. step_worker env w c \<noteq> None"
proof (rule ccontr)
  assume no: "\<nexists>w. step_worker env w c \<noteq> None"
  have ph: "wk_phase wk = Left \<or> (\<exists>i. wk_phase wk = Waiting i) \<and> cl_permits c = 0" if mem: "wk \<in> set (cl_workers c)" for wk
  proof -
    obtain w where w: "w < length (cl_workers c)" "wk = cl_workers c ! w"
      using mem unfolding in_set_conv_nth by blast
    have "step_worker env w c = None" using no by blast
    moreover have "\<forall>e. wk_phase wk \<noteq> Raised e" using assms(1) mem by (simp add: cell_inv_def)
    ultimately show ?thesis
      using w(1) w(2) [symmetric]
      by (cases "wk_phase wk") (simp_all add: step_worker_def Let_def split: if_split_asm sum.split_asm prod.split_asm)
  qed
  obtain wk where wk: "wk \<in> set (cl_workers c)" "wk_phase wk \<noteq> Left"
    using assms(3) by (auto simp: all_left_def)
  then have "cl_permits c = 0" using ph by blast
  moreover have "sum_list (map (sending \<circ> wk_phase) (cl_workers c)) = 0"
  proof -
    have "sending (wk_phase wk) = 0" if "wk \<in> set (cl_workers c)" for wk
      using ph [OF that] by auto
    then show ?thesis by (simp add: sum_list_eq_0_iff)
  qed
  ultimately show False
    using assms(1,2) by (simp add: cell_inv_def del: sum_list_eq_0_iff)
qed

text \<open>When every worker has left, the rows carry each request index exactly once.\<close>

lemma cell_complete:
  assumes "cell_inv env concurrency c" "all_left c" "0 < concurrency"
  shows "mset (map row_index (cl_results c)) = mset [0..<en_n_requests env]" "potential env c = 0"
    and "cl_permits c = concurrency"
proof -
  have left: "wk_phase wk = Left" if "wk \<in> set (cl_workers c)" for wk
    using assms(2) that by (simp add: all_left_def)
  have "cl_workers c \<noteq> []" using assms(1,3) by (auto simp: cell_inv_def)
  then have n: "cl_counter c = en_n_requests env"
    using assms(1) left by (auto simp: cell_inv_def neq_Nil_conv)
  have "open_indices c = []" "sum_list (map (weight \<circ> wk_phase) (cl_workers c)) = 0"
      "sum_list (map (sending \<circ> wk_phase) (cl_workers c)) = 0"
    using left by (auto simp: open_indices_def sum_list_eq_0_iff weight_def)
  with n assms(1) show "mset (map row_index (cl_results c)) = mset [0..<en_n_requests env]" "potential env c = 0" "cl_permits c = concurrency"
    by (simp_all add: cell_inv_def potential_def del: sum_list_eq_0_iff)
qed

section \<open>The command line's cell\<close>

text \<open>
  \<^verbatim>\<open>main\<close> after the cell: rows in request order, the warm-up count, the errors and the throughput.
\<close>

definition row_error_of :: "csv_row \<Rightarrow> bool" where
  "row_error_of row \<longleftrightarrow> (case map_of row ''error'' of Some (CErr _) \<Rightarrow> True | _ \<Rightarrow> False)"

record runner_summary =
  ru_rows :: "csv_row list"
  ru_wall_seconds :: rat
  ru_throughput_rps :: "rat option"
  ru_n_errors :: nat
  ru_n_warmup :: nat

definition summarize_run :: "csv_row list \<Rightarrow> rat \<Rightarrow> rat \<Rightarrow> runner_summary" where
  "summarize_run rows wall_s warmup_fraction =
     \<lparr> ru_rows = sort_key row_index rows, ru_wall_seconds = wall_s,
       ru_throughput_rps = (if 0 < wall_s then Some (of_nat (length rows) / wall_s) else None),
       ru_n_errors = length (filter row_error_of rows),
       ru_n_warmup = (if 20 < length rows then max 1 (nat (PyValues.truncate (of_nat (length rows) * warmup_fraction))) else 0) \<rparr>"

lemma sorted_rows_indices:
  assumes "mset (map row_index rows) = mset [0..<n]"
  shows "map row_index (ru_rows (summarize_run rows wall_s f)) = [0..<n]"
proof -
  have "sorted (map row_index (sort_key row_index rows))" by simp
  moreover have "mset (map row_index (sort_key row_index rows)) = mset [0..<n]"
    using assms by (metis mset_map mset_sort)
  ultimately have "map row_index (sort_key row_index rows) = sort [0..<n]"
    by (intro properties_for_sort [symmetric]) simp_all
  then show ?thesis
    by (simp add: summarize_run_def sorted_sort_id)
qed

end
