(* ===== verification/Netem.thy ===== *)
theory Netem
  imports Primitives
begin

text \<open>
  \<^verbatim>\<open>bench/netem_proxy.py\<close> and \<^verbatim>\<open>bench/metrics.py\<close>: the network emulator's bottleneck link, the pump
  of one direction of a connection and the proxy with its two links; the metric rows of a run.
  Clock readings are arguments, in seconds as rationals.
\<close>

section \<open>The bottleneck link\<close>

record net_profile =
  np_rtt_ms :: rat
  np_bandwidth_mbps :: rat

definition NETWORK_PROFILES :: "(string \<times> net_profile option) list" where
  "NETWORK_PROFILES = [(''localhost'', None),
     (''metro'', Some \<lparr> np_rtt_ms = 10, np_bandwidth_mbps = 100 \<rparr>),
     (''wan'', Some \<lparr> np_rtt_ms = 50, np_bandwidth_mbps = 20 \<rparr>),
     (''mobile'', Some \<lparr> np_rtt_ms = 100, np_bandwidth_mbps = 5 \<rparr>)]"

record link =
  lk_delay :: rat
  lk_bw :: rat
  lk_tx_free :: rat

definition link_init :: "rat \<Rightarrow> rat \<Rightarrow> link" where
  "link_init one_way_delay_s bandwidth_bps = \<lparr> lk_delay = one_way_delay_s, lk_bw = bandwidth_bps, lk_tx_free = 0 \<rparr>"

definition serialization :: "rat \<Rightarrow> nat \<Rightarrow> rat" where
  "serialization bw nbytes = (if 0 < bw then of_nat nbytes * 8 / bw else 0)"

definition release_time :: "rat \<Rightarrow> nat \<Rightarrow> link \<Rightarrow> rat \<times> link" where
  "release_time now nbytes lk =
     (let start = max now (lk_tx_free lk);
          tx_free = start + serialization (lk_bw lk) nbytes in
      (tx_free + lk_delay lk, lk \<lparr> lk_tx_free := tx_free \<rparr>))"

section \<open>One direction of a connection\<close>

text \<open>
  The reader half: each read is the clock and the bytes, an empty read is the end of the stream;
  what is queued carries its release time. The writer half sleeps until the release time and
  writes; \<open>drain n\<close> is the time the \<open>n\<close>-th write takes, \<open>None\<close> a broken connection.
\<close>

fun pump_reads :: "(rat \<times> bytes) list \<Rightarrow> link \<Rightarrow> (rat \<times> bytes) list \<times> link" where
  "pump_reads [] lk = ([], lk)"
| "pump_reads ((now, data) # reads) lk =
     (if data = [] then ([], lk)
      else let (at_time, lk') = release_time now (length data) lk;
               (items, lk'') = pump_reads reads lk' in
           ((at_time, data) # items, lk''))"

fun deliver_items :: "(nat \<Rightarrow> rat option) \<Rightarrow> rat \<Rightarrow> nat \<Rightarrow> (rat \<times> bytes) list \<Rightarrow> (rat \<times> bytes) list" where
  "deliver_items drain now n [] = []"
| "deliver_items drain now n ((at_time, data) # items) =
     (let write_at = (if 0 < at_time - now then now + (at_time - now) else now) in
      case drain n of
        None \<Rightarrow> []
      | Some d \<Rightarrow> (write_at, data) # deliver_items drain (write_at + d) (Suc n) items)"

definition pump :: "(nat \<Rightarrow> rat option) \<Rightarrow> rat \<Rightarrow> (rat \<times> bytes) list \<Rightarrow> link \<Rightarrow> (rat \<times> bytes) list \<times> link" where
  "pump drain now reads lk = (let (items, lk') = pump_reads reads lk in (deliver_items drain now 0 items, lk'))"

section \<open>The proxy\<close>

text \<open>Two links, shared by all connections: \<open>Up\<close> and \<open>Down\<close> are reads on either side of any connection.\<close>

record proxy =
  px_uplink :: link
  px_downlink :: link

definition serve_links :: "rat \<Rightarrow> rat \<Rightarrow> proxy" where
  "serve_links rtt_ms bandwidth_mbps =
     (let one_way = rtt_ms / 2000; bw = bandwidth_mbps * 1000000 in
      \<lparr> px_uplink = link_init one_way bw, px_downlink = link_init one_way bw \<rparr>)"

datatype transfer = Up rat nat | Down rat nat

fun proxy_step :: "transfer \<Rightarrow> proxy \<Rightarrow> rat \<times> proxy" where
  "proxy_step (Up now n) px = (let (t, lk) = release_time now n (px_uplink px) in (t, px \<lparr> px_uplink := lk \<rparr>))"
| "proxy_step (Down now n) px = (let (t, lk) = release_time now n (px_downlink px) in (t, px \<lparr> px_downlink := lk \<rparr>))"

fun proxy_run :: "transfer list \<Rightarrow> proxy \<Rightarrow> rat list \<times> proxy" where
  "proxy_run [] px = ([], px)"
| "proxy_run (ev # evs) px = (let (t, px') = proxy_step ev px; (ts, px'') = proxy_run evs px' in (t # ts, px''))"

section \<open>Properties of the link\<close>

lemma serialization_nonneg [simp]: "0 \<le> serialization bw n"
  by (simp add: serialization_def)

text \<open>A sequence of sends on one link.\<close>

fun link_run :: "(rat \<times> nat) list \<Rightarrow> link \<Rightarrow> rat list \<times> link" where
  "link_run [] lk = ([], lk)"
| "link_run ((now, n) # sends) lk =
     (let (t, lk') = release_time now n lk; (ts, lk'') = link_run sends lk' in (t # ts, lk''))"

definition sends_total :: "rat \<Rightarrow> (rat \<times> nat) list \<Rightarrow> rat" where
  "sends_total bw sends = sum_list (map (serialization bw \<circ> snd) sends)"

lemma sends_total_simps [simp]:
  "sends_total bw [] = 0" "sends_total bw (s # sends) = serialization bw (snd s) + sends_total bw sends"
  by (simp_all add: sends_total_def)

lemma sends_total_nonneg [simp]: "0 \<le> sends_total bw sends"
  by (induction sends) auto

lemma release_time_eq:
  assumes "release_time now n lk = (t, lk')"
  shows "t = lk_tx_free lk' + lk_delay lk" "lk_delay lk' = lk_delay lk" "lk_bw lk' = lk_bw lk"
    and "lk_tx_free lk' = max now (lk_tx_free lk) + serialization (lk_bw lk) n"
  using assms by (auto simp: release_time_def Let_def)

lemma link_run_Cons:
  assumes "link_run ((now, n) # sends) lk = (ts, lk')"
  obtains t lk1 ts1 where "release_time now n lk = (t, lk1)" "link_run sends lk1 = (ts1, lk')" "ts = t # ts1"
  using assms by (cases "release_time now n lk"; cases "link_run sends (snd (release_time now n lk))") (simp add: Let_def)

lemma link_run_sorted:
  "link_run sends lk = (ts, lk') \<Longrightarrow> length ts = length sends \<and> sorted ts \<and> (\<forall>t \<in> set ts. lk_tx_free lk + lk_delay lk \<le> t)"
proof (induction sends arbitrary: lk ts)
  case (Cons x sends)
  obtain now n where x: "x = (now, n)" by fastforce
  obtain t lk1 ts1 where r: "release_time now n lk = (t, lk1)" "link_run sends lk1 = (ts1, lk')" "ts = t # ts1"
    using link_run_Cons Cons.prems x by metis
  have "lk_tx_free lk \<le> lk_tx_free lk1"
    using release_time_eq(4) [OF r(1)] serialization_nonneg [of "lk_bw lk" n] by linarith
  then show ?case
    using Cons.IH [OF r(2)] release_time_eq(1,2) [OF r(1)] r(3) by (auto intro: order_trans)
qed simp

text \<open>
  The reference: the link is free again at the latest time at which it could be if the busy period
  had begun at any of the sends, or with the earlier backlog.
\<close>

fun busy_until :: "rat \<Rightarrow> rat \<Rightarrow> (rat \<times> nat) list \<Rightarrow> rat" where
  "busy_until bw tx [] = tx"
| "busy_until bw tx ((now, n) # sends) =
     max (tx + sends_total bw ((now, n) # sends)) (busy_until bw (now + serialization bw n) sends)"

lemma busy_until_ge: "tx + sends_total bw sends \<le> busy_until bw tx sends"
  by (cases sends) auto

lemma busy_until_max: "busy_until bw (max a b) sends = max (busy_until bw a sends) (busy_until bw b sends)"
  by (induction bw a sends rule: busy_until.induct) (auto simp: max_def)

lemma busy_until_start:
  "max (busy_until bw u sends) (busy_until bw v sends) = max (u + sends_total bw sends) (busy_until bw v sends)"
proof (cases sends)
  case (Cons s rest)
  then show ?thesis by (cases s) (simp add: max.assoc max.left_commute)
qed simp

lemma link_run_busy:
  "link_run sends lk = (ts, lk') \<Longrightarrow> lk_tx_free lk' = busy_until (lk_bw lk) (lk_tx_free lk) sends"
proof (induction sends arbitrary: lk ts)
  case (Cons x sends)
  obtain now n where x: "x = (now, n)" by fastforce
  obtain t lk1 ts1 where r: "release_time now n lk = (t, lk1)" "link_run sends lk1 = (ts1, lk')" "ts = t # ts1"
    using link_run_Cons Cons.prems x by metis
  let ?s = "serialization (lk_bw lk) n"
  have "lk_tx_free lk1 = max (lk_tx_free lk + ?s) (now + ?s)"
    using release_time_eq(4) [OF r(1)] by (simp add: max_def)
  then have "lk_tx_free lk' = max (busy_until (lk_bw lk) (lk_tx_free lk + ?s) sends) (busy_until (lk_bw lk) (now + ?s) sends)"
    using Cons.IH [OF r(2)] release_time_eq(3) [OF r(1)] by (simp only: busy_until_max)
  then show ?case
    by (simp add: busy_until_start x add.assoc)
qed simp

section \<open>The pump and the proxy over the link\<close>

text \<open>What is written is a prefix of what was read, in order, each piece no earlier than its release.\<close>

lemma pump_reads_spec:
  "pump_reads reads lk = (items, lk') \<Longrightarrow>
     map snd items = takeWhile (\<lambda>d. d \<noteq> []) (map snd reads) \<and>
     (map fst items, lk') = link_run (map (\<lambda>(now, d). (now, length d)) (takeWhile (\<lambda>r. snd r \<noteq> []) reads)) lk"
proof (induction reads arbitrary: lk items)
  case (Cons r reads)
  obtain now data where r: "r = (now, data)" by fastforce
  show ?case
  proof (cases "data = []")
    case False
    obtain t lk1 where rel: "release_time now (length data) lk = (t, lk1)" by fastforce
    obtain items1 where i: "pump_reads reads lk1 = (items1, lk')" "items = (t, data) # items1"
      using Cons.prems r False rel by (cases "pump_reads reads lk1") (auto simp: Let_def)
    show ?thesis
      using Cons.IH [OF i(1)] i(2) r False rel by (simp add: Let_def split: prod.splits) (metis Pair_inject)
  qed (use Cons.prems r in simp)
qed simp

lemma deliver_items_spec:
  "\<exists>rest. map snd items = map snd (deliver_items drain now n items) @ rest \<and>
     (\<forall>k < length (deliver_items drain now n items). fst (items ! k) \<le> fst (deliver_items drain now n items ! k)) \<and>
     ((\<forall>m. drain m \<noteq> None) \<longrightarrow> rest = [])"
proof (induction drain now n items rule: deliver_items.induct)
  case (2 drain now n at_time data items)
  show ?case
  proof (cases "drain n")
    case (Some d)
    let ?w = "if 0 < at_time - now then now + (at_time - now) else now"
    obtain rest where IH: "map snd items = map snd (deliver_items drain (?w + d) (Suc n) items) @ rest"
        "\<forall>k < length (deliver_items drain (?w + d) (Suc n) items). fst (items ! k) \<le> fst (deliver_items drain (?w + d) (Suc n) items ! k)"
        "(\<forall>m. drain m \<noteq> None) \<longrightarrow> rest = []"
      using 2 Some by blast
    have eq: "deliver_items drain now n ((at_time, data) # items) = (?w, data) # deliver_items drain (?w + d) (Suc n) items"
      using Some by (simp add: Let_def)
    show ?thesis
      unfolding eq using IH
      by (intro exI [of _ rest]) (auto simp: nth_Cons split: nat.splits)
  qed auto
qed simp

text \<open>The two directions do not delay each other.\<close>

fun up_of :: "transfer list \<Rightarrow> (rat \<times> nat) list" where
  "up_of [] = []"
| "up_of (Up now n # evs) = (now, n) # up_of evs"
| "up_of (Down now n # evs) = up_of evs"

fun down_of :: "transfer list \<Rightarrow> (rat \<times> nat) list" where
  "down_of [] = []"
| "down_of (Up now n # evs) = down_of evs"
| "down_of (Down now n # evs) = (now, n) # down_of evs"

lemma proxy_run_links:
  "proxy_run evs px = (ts, px') \<Longrightarrow>
     px_uplink px' = snd (link_run (up_of evs) (px_uplink px)) \<and> px_downlink px' = snd (link_run (down_of evs) (px_downlink px))"
proof (induction evs arbitrary: px ts)
  case (Cons ev evs)
  obtain t px1 where st: "proxy_step ev px = (t, px1)" by fastforce
  obtain ts1 where r: "proxy_run evs px1 = (ts1, px')"
    using Cons.prems st by (cases "proxy_run evs px1") (auto simp: Let_def)
  show ?case
    using Cons.IH [OF r] st by (cases ev) (auto simp: Let_def split: prod.splits)
qed simp

section \<open>Metric rows\<close>

record request_metric =
  rm_configuration :: string
  rm_concurrency :: int
  rm_repetition :: int
  rm_request_index :: int
  rm_rtt_ms :: rat
  rm_handshake_ms :: rat
  rm_server_crypto_ms :: rat
  rm_process_cpu_seconds :: rat
  rm_process_rss_bytes :: int
  rm_ok :: bool
  rm_error :: string

definition asdict :: "request_metric \<Rightarrow> (string \<times> json) list" where
  "asdict m = [(''configuration'', JStr (rm_configuration m)), (''concurrency'', JInt (rm_concurrency m)),
     (''repetition'', JInt (rm_repetition m)), (''request_index'', JInt (rm_request_index m)), (''rtt_ms'', JFloat (rm_rtt_ms m)),
     (''handshake_ms'', JFloat (rm_handshake_ms m)), (''server_crypto_ms'', JFloat (rm_server_crypto_ms m)),
     (''process_cpu_seconds'', JFloat (rm_process_cpu_seconds m)), (''process_rss_bytes'', JInt (rm_process_rss_bytes m)),
     (''ok'', JBool (rm_ok m)), (''error'', JStr (rm_error m))]"

text \<open>What is written: nothing for an empty list, else the header and one row per metric.\<close>

definition write_metrics :: "request_metric list \<Rightarrow> (string list \<times> json list list) option" where
  "write_metrics metrics =
     (case metrics of [] \<Rightarrow> None | m # _ \<Rightarrow> Some (map fst (asdict m), map (\<lambda>m. map snd (asdict m)) metrics))"

end
