(* ===== verification/Orchestrator.thy ===== *)
theory Orchestrator
  imports Runner Netem Instrumentation
begin

text \<open>
  \<^verbatim>\<open>bench/orchestrator.py\<close>: the full sweep. Processes, sockets and files are a trace of events;
  what the environment answers (health polls, the rows of a cell, clock readings, resource
  samples) is a parameter. An exception inside the \<^verbatim>\<open>try\<close> still stops the proxy and the server
  before it propagates.
\<close>

section \<open>Decimal numerals and file names\<close>

definition digit_char :: "nat \<Rightarrow> char" where
  "digit_char d = char_of (48 + d)"

fun nat_str :: "nat \<Rightarrow> string" where
  "nat_str n = (if n < 10 then [digit_char n] else nat_str (n div 10) @ [digit_char (n mod 10)])"

declare nat_str.simps [simp del]

definition is_digit :: "char \<Rightarrow> bool" where
  "is_digit c \<longleftrightarrow> c \<in> set ''0123456789''"

lemma digit_char_list: "d < 10 \<Longrightarrow> digit_char d = ''0123456789'' ! d"
proof -
  assume "d < 10"
  then have "d = 0 \<or> d = 1 \<or> d = 2 \<or> d = 3 \<or> d = 4 \<or> d = 5 \<or> d = 6 \<or> d = 7 \<or> d = 8 \<or> d = 9" by presburger
  then show ?thesis by (elim disjE) (simp_all add: digit_char_def char_of_def bit_iff_odd)
qed

lemma digit_char_inj: "a < 10 \<Longrightarrow> b < 10 \<Longrightarrow> digit_char a = digit_char b \<longleftrightarrow> a = b"
  using nth_eq_iff_index_eq [of "''0123456789''" a b] by (simp add: digit_char_list)

lemma digit_char_is_digit: "d < 10 \<Longrightarrow> is_digit (digit_char d)"
  using nth_mem [of d "''0123456789''"] by (simp add: digit_char_list is_digit_def)

lemma nat_str_digits: "c \<in> set (nat_str n) \<Longrightarrow> is_digit c"
proof (induction n rule: nat_str.induct)
  case (1 n)
  have "is_digit (digit_char (n mod 10))" "n < 10 \<Longrightarrow> is_digit (digit_char n)"
    by (simp_all add: digit_char_is_digit)
  then show ?case
    using 1 by (subst (asm) nat_str.simps) (auto split: if_split_asm)
qed

lemma nat_str_ne: "nat_str n \<noteq> []"
  by (subst nat_str.simps) simp

lemma nat_str_inj: "nat_str m = nat_str n \<Longrightarrow> m = n"
proof (induction m arbitrary: n rule: nat_str.induct)
  case (1 m)
  show ?case
  proof (cases "m < 10")
    case True
    then have m: "nat_str m = [digit_char m]" by (simp add: nat_str.simps)
    show ?thesis
    proof (cases "n < 10")
      case True
      then show ?thesis using 1(2) m \<open>m < 10\<close> by (simp add: nat_str.simps [of n] digit_char_inj)
    next
      case False
      then show ?thesis using 1(2) m nat_str_ne [of "n div 10"] by (simp add: nat_str.simps [of n])
    qed
  next
    case False
    then have m: "nat_str m = nat_str (m div 10) @ [digit_char (m mod 10)]" by (simp add: nat_str.simps [of m])
    have n: "\<not> n < 10"
    proof
      assume "n < 10"
      then show False using 1(2) m nat_str_ne [of "m div 10"] by (simp add: nat_str.simps [of n])
    qed
    then have "nat_str (m div 10) = nat_str (n div 10)" "digit_char (m mod 10) = digit_char (n mod 10)"
      using 1(2) m by (simp_all add: nat_str.simps [of n])
    then have "m div 10 = n div 10" "m mod 10 = n mod 10"
      using 1(1) [OF False] by (simp_all add: digit_char_inj)
    then show ?thesis by (metis div_mult_mod_eq)
  qed
qed

text \<open>A numeral after a separator that is no digit is read back from the right.\<close>

lemma split_numeral:
  assumes "xs @ s # nat_str m = ys @ s # nat_str n" "\<not> is_digit s"
  shows "xs = ys \<and> m = n"
proof -
  have r: "takeWhile is_digit (rev (zs @ s # nat_str k)) = rev (nat_str k)"
      "dropWhile is_digit (rev (zs @ s # nat_str k)) = s # rev zs" for zs k
    using assms(2) nat_str_digits by (auto simp: takeWhile_append dropWhile_append)
  have "rev (nat_str m) = rev (nat_str n)" "s # rev xs = s # rev ys"
    using r [of xs m] r [of ys n] assms(1) by metis+
  then show ?thesis using nat_str_inj by simp
qed

text \<open>\<^verbatim>\<open>fname\<close> of a cell; the tags say network profile, resumption and authentication.\<close>

record sweep_params =
  sw_run_id :: string
  sw_payload_profile :: string
  sw_network_profile :: string
  sw_requests_per_handshake :: nat
  sw_auth_handshake :: bool

definition fname_tags :: "sweep_params \<Rightarrow> string" where
  "fname_tags sw =
     (let net_tag = (if sw_network_profile sw = ''localhost'' then [] else ''-net_'' @ sw_network_profile sw);
          rph_tag = (if sw_requests_per_handshake sw = 1 then [] else ''-rph'' @ nat_str (sw_requests_per_handshake sw));
          auth_tag = (if sw_auth_handshake sw then ''-auth'' else []) in
      sw_payload_profile sw @ net_tag @ rph_tag @ auth_tag)"

definition cell_fname :: "sweep_params \<Rightarrow> string \<Rightarrow> nat \<Rightarrow> nat \<Rightarrow> string" where
  "cell_fname sw config_key concurrency repetition =
     config_key @ ''-'' @ fname_tags sw @ ''-c'' @ nat_str concurrency @ ''-r'' @ nat_str repetition @ ''-'' @ sw_run_id sw @ ''.csv''"

lemma cell_fname_inj:
  assumes "cell_fname sw c1 n1 r1 = cell_fname sw c2 n2 r2"
  shows "c1 = c2 \<and> n1 = n2 \<and> r1 = r2"
proof -
  let ?pre = "\<lambda>c. c @ ''-'' @ fname_tags sw @ ''-''"
  let ?mid = "\<lambda>c n. ?pre c @ CHR ''c'' # nat_str n @ ''-''"
  have f: "cell_fname sw c n r = (?mid c n @ CHR ''r'' # nat_str r) @ ''-'' @ sw_run_id sw @ ''.csv''" for c n r
    by (simp add: cell_fname_def)
  have "?mid c1 n1 @ CHR ''r'' # nat_str r1 = ?mid c2 n2 @ CHR ''r'' # nat_str r2"
    using assms unfolding f by (simp only: append_same_eq)
  then have r: "?mid c1 n1 = ?mid c2 n2 \<and> r1 = r2"
    by (rule split_numeral) (simp add: is_digit_def)
  then have "(?pre c1 @ CHR ''c'' # nat_str n1) @ ''-'' = (?pre c2 @ CHR ''c'' # nat_str n2) @ ''-''"
    by simp
  then have "?pre c1 @ CHR ''c'' # nat_str n1 = ?pre c2 @ CHR ''c'' # nat_str n2"
    by (simp only: append_same_eq)
  then have "?pre c1 = ?pre c2 \<and> n1 = n2"
    by (rule split_numeral) (simp add: is_digit_def)
  then show ?thesis using r by simp
qed

section \<open>Waiting for a server\<close>

text \<open>Each poll is the clock at the loop test and the answer of \<^verbatim>\<open>GET /healthz\<close>.\<close>

fun wait_healthy :: "rat \<Rightarrow> (rat \<times> nat res) list \<Rightarrow> unit res" where
  "wait_healthy deadline [] = Inl RuntimeError"
| "wait_healthy deadline ((now, answer) # polls) =
     (if now < deadline then (if answer = Inr 200 then Inr () else wait_healthy deadline polls) else Inl RuntimeError)"

lemma wait_healthy_spec:
  "wait_healthy deadline polls = Inr () \<longleftrightarrow>
     (\<exists>k < length polls. snd (polls ! k) = Inr 200 \<and> (\<forall>j \<le> k. fst (polls ! j) < deadline))"
proof (induction deadline polls rule: wait_healthy.induct)
  case (2 deadline now answer polls)
  show ?case
  proof (cases "now < deadline \<and> answer \<noteq> Inr 200")
    case True
    have "(\<exists>k < Suc (length polls). snd (((now, answer) # polls) ! k) = Inr 200 \<and> (\<forall>j \<le> k. fst (((now, answer) # polls) ! j) < deadline)) \<longleftrightarrow>
        (\<exists>k < length polls. snd (polls ! k) = Inr 200 \<and> (\<forall>j \<le> k. fst (polls ! j) < deadline))" (is "?A \<longleftrightarrow> ?B")
    proof
      assume ?A
      then obtain k where k: "k < Suc (length polls)" "snd (((now, answer) # polls) ! k) = Inr 200"
          "\<forall>j \<le> k. fst (((now, answer) # polls) ! j) < deadline" by blast
      then obtain k' where "k = Suc k'" using True by (cases k) auto
      with k show ?B by (intro exI [of _ k']) fastforce
    next
      assume ?B
      then obtain k where k: "k < length polls" "snd (polls ! k) = Inr 200" "\<forall>j \<le> k. fst (polls ! j) < deadline" by blast
      have "fst (((now, answer) # polls) ! j) < deadline" if "j \<le> Suc k" for j
        using k(3) that True by (cases j) auto
      with k show ?A by (intro exI [of _ "Suc k"]) simp
    qed
    then show ?thesis using 2 True by simp
  next
    case False
    then show ?thesis by (cases "now < deadline") (auto intro: exI [of _ 0])
  qed
qed simp

section \<open>The sweep\<close>

datatype orch_event =
    StartServer string
  | StartProxy net_profile
  | RunCell string nat nat nat
  | WriteCsv string string "csv_row list"
  | StopProxy
  | StopServer string
  | WriteSummary string

definition SERVER_MODULES :: "(string \<times> string) list" where
  "SERVER_MODULES = [(''control'', ''api.server:app''), (''control-2rt'', ''api.server:app''),
     (''classical'', ''api.server_config_a:app''), (''classical-ecdhe'', ''api.server_config_ecdhe:app''),
     (''hybrid'', ''api.server_config_b:app''), (''hybrid-kex'', ''api.server_config_hybridkex:app''),
     (''hybrid-kex-pq'', ''api.server_config_hybridkexpq:app''), (''full-pqc'', ''api.server_config_c:app'')]"

definition crypto_name :: "string \<Rightarrow> string res" where
  "crypto_name config_key = get_item (map_of
     [(''control'', ''control''), (''control-2rt'', ''control_2rt''), (''classical'', ''classical''),
      (''classical-ecdhe'', ''classical_ecdhe''), (''hybrid'', ''hybrid''), (''hybrid-kex'', ''hybrid_kex''),
      (''full-pqc'', ''full_pqc''), (''hybrid-kex-pq'', ''hybrid_kex_pq'')]) config_key"

record orch_env =
  oe_polls :: "string \<Rightarrow> (rat \<times> nat res) list"
  oe_proxy_polls :: "string \<Rightarrow> (rat \<times> nat res) list"
  oe_rows :: "string \<Rightarrow> string \<Rightarrow> nat \<Rightarrow> nat \<Rightarrow> nat \<Rightarrow> csv_row list res"
  oe_wall :: "string \<Rightarrow> nat \<Rightarrow> nat \<Rightarrow> rat"
  oe_samples :: "string \<Rightarrow> nat \<Rightarrow> nat \<Rightarrow> resource_sample list"
  oe_deadline :: rat

record cell_summary =
  cs_run_id :: string
  cs_config :: string
  cs_params :: sweep_params
  cs_net :: "net_profile option"
  cs_cell_concurrency :: nat
  cs_cell_repetition :: nat
  cs_requests :: nat
  cs_wall_seconds :: rat
  cs_throughput_rps :: "rat option"
  cs_n_errors :: nat
  cs_output :: string
  cs_resources :: resource_summary

definition set_network :: "string \<Rightarrow> csv_row \<Rightarrow> csv_row" where
  "set_network profile row = map (\<lambda>(k, v). (k, if k = ''network_profile'' then CStr profile else v)) row"

text \<open>
  One cell: rows, CSV file, summary; the progress line formats the throughput with \<^verbatim>\<open>:.1f\<close>, which
  raises when the wall time was not positive.
\<close>

definition orch_cell ::
  "orch_env \<Rightarrow> sweep_params \<Rightarrow> net_profile option \<Rightarrow> string \<Rightarrow> string \<Rightarrow> nat \<Rightarrow> nat \<Rightarrow> nat
     \<Rightarrow> orch_event list \<times> cell_summary list \<times> unit res" where
  "orch_cell env sw netem raw_dir config_key concurrency n_requests repetition =
     (let out_path = raw_dir @ ''/'' @ cell_fname sw config_key concurrency repetition;
          wall_s = oe_wall env config_key concurrency repetition in
      case bind_res (crypto_name config_key) (\<lambda>crypto. oe_rows env config_key crypto concurrency n_requests repetition) of
        Inl e \<Rightarrow> ([RunCell config_key concurrency n_requests repetition], [], Inl e)
      | Inr rows0 \<Rightarrow>
          case sampler_summary (oe_samples env config_key concurrency repetition) of
            Inl e \<Rightarrow> ([RunCell config_key concurrency n_requests repetition], [], Inl e)
          | Inr resources \<Rightarrow>
              let rows = map (set_network (sw_network_profile sw)) rows0 in
              case write_csv rows of
                Inl e \<Rightarrow> ([RunCell config_key concurrency n_requests repetition], [], Inl e)
              | Inr _ \<Rightarrow>
                  let summary = \<lparr> cs_run_id = sw_run_id sw, cs_config = config_key, cs_params = sw, cs_net = netem,
                        cs_cell_concurrency = concurrency, cs_cell_repetition = repetition, cs_requests = n_requests,
                        cs_wall_seconds = wall_s,
                        cs_throughput_rps = (if 0 < wall_s then Some (of_nat (length rows) / wall_s) else None),
                        cs_n_errors = length (filter row_error_of rows), cs_output = out_path, cs_resources = resources \<rparr> in
                  ([RunCell config_key concurrency n_requests repetition, WriteCsv config_key out_path rows], [summary],
                   if 0 < wall_s then Inr () else Inl TypeError))"

text \<open>Statements in sequence: the first exception ends the sequence, what happened before it stays.\<close>

fun in_sequence :: "('e list \<times> 's list \<times> unit res) list \<Rightarrow> 'e list \<times> 's list \<times> unit res" where
  "in_sequence [] = ([], [], Inr ())"
| "in_sequence ((evs, sm, r) # rest) =
     (case r of
        Inl e \<Rightarrow> (evs, sm, Inl e)
      | Inr _ \<Rightarrow> (case in_sequence rest of (evs', sm', r') \<Rightarrow> (evs @ evs', sm @ sm', r')))"

text \<open>The body of the \<^verbatim>\<open>try\<close> and its \<^verbatim>\<open>finally\<close> for one configuration.\<close>

definition orch_try ::
  "orch_env \<Rightarrow> net_profile option \<Rightarrow> string \<Rightarrow> orch_event list \<times> cell_summary list \<times> unit res
     \<Rightarrow> orch_event list \<times> cell_summary list \<times> unit res" where
  "orch_try env netem config_key cells =
     (case wait_healthy (oe_deadline env) (oe_polls env config_key) of
        Inl e \<Rightarrow> ([], [], Inl e)
      | Inr _ \<Rightarrow>
          (case netem of
             None \<Rightarrow> cells
           | Some np \<Rightarrow>
               (case wait_healthy (oe_deadline env) (oe_proxy_polls env config_key) of
                  Inl e \<Rightarrow> ([StartProxy np], [], Inl e)
                | Inr _ \<Rightarrow> (StartProxy np # fst cells, fst (snd cells), snd (snd cells)))))"

definition orch_cells ::
  "orch_env \<Rightarrow> sweep_params \<Rightarrow> net_profile option \<Rightarrow> string \<Rightarrow> nat list \<Rightarrow> nat \<Rightarrow> nat \<Rightarrow> nat \<Rightarrow> string
     \<Rightarrow> orch_event list \<times> cell_summary list \<times> unit res" where
  "orch_cells env sw netem raw_dir levels repetitions requests_per_concurrency min_requests config_key =
     in_sequence (map (\<lambda>(concurrency, repetition).
        orch_cell env sw netem raw_dir config_key concurrency (max min_requests (concurrency * requests_per_concurrency)) repetition)
       (List.product levels [1..<repetitions + 1]))"

definition is_start_proxy :: "orch_event \<Rightarrow> bool" where
  "is_start_proxy ev = (case ev of StartProxy _ \<Rightarrow> True | _ \<Rightarrow> False)"

definition orch_config ::
  "orch_env \<Rightarrow> sweep_params \<Rightarrow> net_profile option \<Rightarrow> string \<Rightarrow> nat list \<Rightarrow> nat \<Rightarrow> nat \<Rightarrow> nat \<Rightarrow> string
     \<Rightarrow> orch_event list \<times> cell_summary list \<times> unit res" where
  "orch_config env sw netem raw_dir levels repetitions requests_per_concurrency min_requests config_key =
     (case get_item (map_of SERVER_MODULES) config_key of
        Inl e \<Rightarrow> ([], [], Inl e)
      | Inr _ \<Rightarrow>
          (case orch_try env netem config_key
                  (orch_cells env sw netem raw_dir levels repetitions requests_per_concurrency min_requests config_key) of
             (evs, sm, r) \<Rightarrow>
               (StartServer config_key # evs @ (if list_ex is_start_proxy evs then [StopProxy] else []) @ [StopServer config_key],
                sm, r)))"

definition run_full_sweep ::
  "orch_env \<Rightarrow> sweep_params \<Rightarrow> string \<Rightarrow> string \<Rightarrow> string list \<Rightarrow> nat list \<Rightarrow> nat \<Rightarrow> nat \<Rightarrow> nat
     \<Rightarrow> orch_event list \<times> cell_summary list res" where
  "run_full_sweep env sw raw_dir summary_dir configs levels repetitions requests_per_concurrency min_requests =
     (case get_item (map_of NETWORK_PROFILES) (sw_network_profile sw) of
        Inl e \<Rightarrow> ([], Inl e)
      | Inr netem \<Rightarrow>
          (case in_sequence (map (orch_config env sw netem raw_dir levels repetitions requests_per_concurrency min_requests) configs) of
             (evs, sm, Inl e) \<Rightarrow> (evs, Inl e)
           | (evs, sm, Inr _) \<Rightarrow>
               (evs @ (if sm = [] then [] else [WriteSummary (summary_dir @ ''/'' @ sw_run_id sw @ ''.json'')]), Inr sm)))"

section \<open>Servers are always stopped, one at a time\<close>

text \<open>What is alive: the server of a configuration, with or without a proxy in front; \<open>None\<close> is a misuse.\<close>

datatype alive = NoneUp | ServerUp string | BothUp string

fun track :: "alive \<Rightarrow> orch_event \<Rightarrow> alive option" where
  "track NoneUp (StartServer c) = Some (ServerUp c)"
| "track (ServerUp c) (StartProxy np) = Some (BothUp c)"
| "track (ServerUp c) (StopServer c') = (if c = c' then Some NoneUp else None)"
| "track (BothUp c) StopProxy = Some (ServerUp c)"
| "track (ServerUp c) (RunCell c' _ _ _) = (if c = c' then Some (ServerUp c) else None)"
| "track (BothUp c) (RunCell c' _ _ _) = (if c = c' then Some (BothUp c) else None)"
| "track a (WriteCsv _ _ _) = Some a"
| "track NoneUp (WriteSummary _) = Some NoneUp"
| "track _ _ = None"

fun track_all :: "alive \<Rightarrow> orch_event list \<Rightarrow> alive option" where
  "track_all a [] = Some a"
| "track_all a (ev # evs) = (case track a ev of None \<Rightarrow> None | Some a' \<Rightarrow> track_all a' evs)"

lemma track_all_append: "track_all a (xs @ ys) = (case track_all a xs of None \<Rightarrow> None | Some a' \<Rightarrow> track_all a' ys)"
  by (induction xs arbitrary: a) (auto split: option.splits)

lemma in_sequence_track:
  assumes "\<And>x. x \<in> set xs \<Longrightarrow> track_all a (fst x) = Some a"
  shows "track_all a (fst (in_sequence xs)) = Some a"
  using assms
proof (induction xs)
  case (Cons x xs)
  obtain evs sm r where x: "x = (evs, sm, r)" by (cases x)
  have "track_all a evs = Some a" "track_all a (fst (in_sequence xs)) = Some a"
    using Cons x by (auto intro: Cons.prems [of "(evs, sm, r)", simplified])
  then show ?case
    by (auto simp: x track_all_append split: sum.split prod.split)
qed simp

lemma orch_cell_track:
  "a = ServerUp c \<or> a = BothUp c \<Longrightarrow> track_all a (fst (orch_cell env sw netem raw_dir c n nr rep)) = Some a"
  by (auto simp: orch_cell_def Let_def split: sum.split)

lemma in_sequence_events: "ev \<in> set (fst (in_sequence xs)) \<Longrightarrow> \<exists>x \<in> set xs. ev \<in> set (fst x)"
proof (induction xs)
  case (Cons x xs)
  obtain evs sm r where x: "x = (evs, sm, r)" by (cases x)
  then show ?case using Cons by (auto split: sum.splits prod.splits)
qed simp

lemma orch_cell_no_proxy: "ev \<in> set (fst (orch_cell env sw netem raw_dir c n nr rep)) \<Longrightarrow> \<not> is_start_proxy ev"
  by (auto simp: orch_cell_def Let_def is_start_proxy_def split: sum.splits)

lemma orch_cells_no_proxy: "\<not> list_ex is_start_proxy (fst (orch_cells env sw netem raw_dir levels repetitions rpc mn c))"
proof -
  have "\<not> is_start_proxy ev" if "ev \<in> set (fst (orch_cells env sw netem raw_dir levels repetitions rpc mn c))" for ev
    using in_sequence_events [OF that [unfolded orch_cells_def]] orch_cell_no_proxy by auto
  then show ?thesis by (auto simp: list_ex_iff)
qed

lemma orch_cells_track:
  "a = ServerUp c \<or> a = BothUp c \<Longrightarrow> track_all a (fst (orch_cells env sw netem raw_dir levels repetitions rpc mn c)) = Some a"
  unfolding orch_cells_def by (rule in_sequence_track) (use orch_cell_track in auto)

lemma orch_try_events:
  "fst (orch_try env netem c cells) \<in> {[], fst cells} \<union> (\<Union>np. {[StartProxy np], StartProxy np # fst cells})"
  by (auto simp: orch_try_def split: sum.split option.split)

lemma orch_config_track:
  "track_all NoneUp (fst (orch_config env sw netem raw_dir levels repetitions rpc mn c)) = Some NoneUp"
proof (cases "get_item (map_of SERVER_MODULES) c")
  case (Inr m)
  let ?cells = "orch_cells env sw netem raw_dir levels repetitions rpc mn c"
  obtain evs sm r where t: "orch_try env netem c ?cells = (evs, sm, r)" by (cases "orch_try env netem c ?cells")
  have cfg: "fst (orch_config env sw netem raw_dir levels repetitions rpc mn c) =
      StartServer c # evs @ (if list_ex is_start_proxy evs then [StopProxy] else []) @ [StopServer c]"
    by (simp add: orch_config_def Inr t)
  have cells: "track_all (ServerUp c) (fst ?cells) = Some (ServerUp c)" "track_all (BothUp c) (fst ?cells) = Some (BothUp c)"
    by (simp_all add: orch_cells_track)
  consider "evs = []" | "evs = fst ?cells" | np where "evs = [StartProxy np]" | np where "evs = StartProxy np # fst ?cells"
    using orch_try_events [of env netem c ?cells] t by auto
  then show ?thesis
    unfolding cfg by cases (simp_all add: track_all_append cells orch_cells_no_proxy is_start_proxy_def)
qed (simp add: orch_config_def)

lemma sweep_track:
  "track_all NoneUp (fst (run_full_sweep env sw raw_dir summary_dir configs levels repetitions rpc mn)) = Some NoneUp"
proof (cases "get_item (map_of NETWORK_PROFILES) (sw_network_profile sw)")
  case (Inr netem)
  let ?all = "in_sequence (map (orch_config env sw netem raw_dir levels repetitions rpc mn) configs)"
  have "track_all NoneUp (fst ?all) = Some NoneUp"
    by (rule in_sequence_track) (auto simp: orch_config_track)
  then show ?thesis
    by (auto simp: run_full_sweep_def Inr track_all_append split: prod.split sum.split)
qed (simp add: run_full_sweep_def)

section \<open>No cell overwrites another's file\<close>

fun csv_paths :: "orch_event list \<Rightarrow> string list" where
  "csv_paths [] = []"
| "csv_paths (WriteCsv c p rows # evs) = p # csv_paths evs"
| "csv_paths (ev # evs) = csv_paths evs"

lemma csv_paths_append: "csv_paths (xs @ ys) = csv_paths xs @ csv_paths ys"
  by (induction xs rule: csv_paths.induct) simp_all

lemma in_sequence_paths:
  assumes "\<And>k. k \<in> set ks \<Longrightarrow> distinct (csv_paths (fst (g k))) \<and> set (csv_paths (fst (g k))) \<subseteq> S k"
    and "distinct ks" "\<And>a b. a \<in> set ks \<Longrightarrow> b \<in> set ks \<Longrightarrow> a \<noteq> b \<Longrightarrow> S a \<inter> S b = {}"
  shows "distinct (csv_paths (fst (in_sequence (map g ks)))) \<and> set (csv_paths (fst (in_sequence (map g ks)))) \<subseteq> (\<Union>k \<in> set ks. S k)"
  using assms
proof (induction ks)
  case (Cons k ks)
  obtain evs sm r where g: "g k = (evs, sm, r)" by (cases "g k")
  obtain evs' sm' r' where rest: "in_sequence (map g ks) = (evs', sm', r')" by (cases "in_sequence (map g ks)")
  have IH: "distinct (csv_paths evs')" "set (csv_paths evs') \<subseteq> (\<Union>k \<in> set ks. S k)"
    using Cons.IH Cons.prems rest by (simp_all)
  have k: "distinct (csv_paths evs)" "set (csv_paths evs) \<subseteq> S k"
    using Cons.prems(1) [of k] g by simp_all
  have dj: "set (csv_paths evs) \<inter> set (csv_paths evs') = {}"
    using Cons.prems(2,3) IH(2) k(2) by fastforce
  show ?case
    using IH k dj by (auto simp: g rest csv_paths_append split: sum.split)
qed simp

lemma orch_cell_paths:
  "set (csv_paths (fst (orch_cell env sw netem raw_dir c n nr rep))) \<subseteq> {raw_dir @ ''/'' @ cell_fname sw c n rep} \<and>
   distinct (csv_paths (fst (orch_cell env sw netem raw_dir c n nr rep)))"
  by (auto simp: orch_cell_def Let_def split: sum.split)

definition config_paths :: "sweep_params \<Rightarrow> string \<Rightarrow> string \<Rightarrow> string set" where
  "config_paths sw raw_dir c = {raw_dir @ ''/'' @ cell_fname sw c n rep | n rep. True}"

lemma config_paths_disjoint: "a \<noteq> b \<Longrightarrow> config_paths sw raw_dir a \<inter> config_paths sw raw_dir b = {}"
  using cell_fname_inj by (fastforce simp: config_paths_def)

lemma orch_cells_paths:
  assumes "distinct levels"
  shows "distinct (csv_paths (fst (orch_cells env sw netem raw_dir levels repetitions rpc mn c))) \<and>
    set (csv_paths (fst (orch_cells env sw netem raw_dir levels repetitions rpc mn c))) \<subseteq> config_paths sw raw_dir c"
proof -
  let ?g = "\<lambda>(concurrency, repetition). orch_cell env sw netem raw_dir c concurrency (max mn (concurrency * rpc)) repetition"
  let ?ks = "List.product levels [1..<repetitions + 1]"
  let ?S = "\<lambda>k. {raw_dir @ ''/'' @ cell_fname sw c (fst k) (snd k)}"
  have "distinct (csv_paths (fst (in_sequence (map ?g ?ks)))) \<and>
      set (csv_paths (fst (in_sequence (map ?g ?ks)))) \<subseteq> (\<Union>k \<in> set ?ks. ?S k)"
  proof (rule in_sequence_paths)
    show "distinct ?ks" using assms by (simp add: distinct_product)
    show "distinct (csv_paths (fst (?g k))) \<and> set (csv_paths (fst (?g k))) \<subseteq> ?S k" for k
      using orch_cell_paths by (cases k) simp
    show "?S a \<inter> ?S b = {}" if "a \<noteq> b" for a b
      using that cell_fname_inj [of sw c "fst a" "snd a" c "fst b" "snd b"] by (auto simp: prod_eq_iff)
  qed
  moreover have "(\<Union>k \<in> set ?ks. ?S k) \<subseteq> config_paths sw raw_dir c"
    by (auto simp: config_paths_def)
  ultimately show ?thesis
    unfolding orch_cells_def by blast
qed

lemma orch_config_paths:
  assumes "distinct levels"
  shows "distinct (csv_paths (fst (orch_config env sw netem raw_dir levels repetitions rpc mn c))) \<and>
    set (csv_paths (fst (orch_config env sw netem raw_dir levels repetitions rpc mn c))) \<subseteq> config_paths sw raw_dir c"
proof (cases "get_item (map_of SERVER_MODULES) c")
  case (Inr m)
  let ?cells = "orch_cells env sw netem raw_dir levels repetitions rpc mn c"
  obtain evs sm r where t: "orch_try env netem c ?cells = (evs, sm, r)" by (cases "orch_try env netem c ?cells")
  have cfg: "csv_paths (fst (orch_config env sw netem raw_dir levels repetitions rpc mn c)) = csv_paths evs"
    by (simp add: orch_config_def Inr t csv_paths_append)
  have "csv_paths evs \<in> {[], csv_paths (fst ?cells)}"
    using orch_try_events [of env netem c ?cells] t by auto
  then show ?thesis
    unfolding cfg using orch_cells_paths [OF assms, of env sw netem raw_dir repetitions rpc mn c] by auto
qed (simp add: orch_config_def)

lemma sweep_paths:
  assumes "distinct configs" "distinct levels"
  shows "distinct (csv_paths (fst (run_full_sweep env sw raw_dir summary_dir configs levels repetitions rpc mn)))"
proof (cases "get_item (map_of NETWORK_PROFILES) (sw_network_profile sw)")
  case (Inr netem)
  have "distinct (csv_paths (fst (in_sequence (map (orch_config env sw netem raw_dir levels repetitions rpc mn) configs))))"
    using in_sequence_paths [of configs "orch_config env sw netem raw_dir levels repetitions rpc mn" "config_paths sw raw_dir"]
      orch_config_paths [OF assms(2)] assms(1) config_paths_disjoint by blast
  then show ?thesis
    by (auto simp: run_full_sweep_def Inr csv_paths_append split: prod.split sum.split)
qed (simp add: run_full_sweep_def)

end
