(* ===== verification/StreamingRunner.thy ===== *)
theory StreamingRunner
  imports Orchestrator
begin

text \<open>
  \<^verbatim>\<open>bench/streaming_runner.py\<close>: the sweep over strategies, response lengths, chunk sizes and
  checkpoint intervals. The seeded shuffle is a parameter that permutes the combinations.
\<close>

section \<open>Rows\<close>

definition STREAM_CSV_FIELDS :: "string list" where
  "STREAM_CSV_FIELDS = [''run_id'', ''backend'', ''config'', ''strategy'', ''max_tokens'', ''chunk_size_tokens'', ''repetition'',
     ''handshake_ms'', ''ttft_ms'', ''total_ms'', ''n_chunks'', ''total_signature_bytes'', ''total_signing_ms'', ''total_verify_ms'',
     ''total_signing_cpu_ms'', ''total_verify_cpu_ms'', ''all_signatures_valid'', ''all_aead_ok'', ''all_in_order'',
     ''stream_fully_verified'', ''reconstructed_bytes'', ''checkpoint_interval'', ''n_signatures'', ''max_unverified_chunks'',
     ''max_verification_lag_ms'', ''protocol_version'', ''error'']"

definition STREAM_PROTOCOL_VERSION :: string where
  "STREAM_PROTOCOL_VERSION = ''v2''"

definition CONFIG_TO_CRYPTO_NAME :: "(string \<times> string) list" where
  "CONFIG_TO_CRYPTO_NAME = [(''classical'', ''classical''), (''classical-ecdhe'', ''classical_ecdhe''), (''hybrid'', ''hybrid''),
     (''hybrid-kex'', ''hybrid_kex''), (''full-pqc'', ''full_pqc''), (''hybrid-kex-pq'', ''hybrid_kex_pq'')]"

definition DEFAULT_PROMPT :: string where
  "DEFAULT_PROMPT = ''Summarize the key risks of migrating a production API to post-quantum cryptography, focusing on latency-sensitive workloads.''"

definition stream_csv_row :: "stream_metrics \<Rightarrow> int \<Rightarrow> int \<Rightarrow> nat \<Rightarrow> string \<Rightarrow> string \<Rightarrow> csv_row" where
  "stream_csv_row m max_tokens chunk_size_tokens repetition run_id backend =
     [(''run_id'', CStr run_id), (''backend'', CStr backend), (''config'', CStr (sm_config m)), (''strategy'', CStr (sm_strategy m)),
      (''max_tokens'', CInt max_tokens), (''chunk_size_tokens'', CInt chunk_size_tokens), (''repetition'', CNat repetition),
      (''handshake_ms'', opt_value CRat (sm_handshake_ms m)), (''ttft_ms'', opt_value CRat (sm_ttft_ms m)),
      (''total_ms'', opt_value CRat (sm_total_ms m)), (''n_chunks'', CNat (sm_n_chunks m)),
      (''total_signature_bytes'', CNat (sm_total_signature_bytes m)), (''total_signing_ms'', CRat (sm_total_signing_ms m)),
      (''total_verify_ms'', CRat (sm_total_verify_ms m)), (''total_signing_cpu_ms'', CRat (sm_total_signing_cpu_ms m)),
      (''total_verify_cpu_ms'', CRat (sm_total_verify_cpu_ms m)), (''all_signatures_valid'', CBool (sm_all_signatures_valid m)),
      (''all_aead_ok'', CBool (sm_all_aead_ok m)), (''all_in_order'', CBool (sm_all_in_order m)),
      (''stream_fully_verified'', opt_value CBool (sm_stream_fully_verified m)),
      (''reconstructed_bytes'', CNat (sm_reconstructed_bytes m)), (''checkpoint_interval'', opt_value CInt (sm_checkpoint_interval m)),
      (''n_signatures'', CNat (sm_n_signatures m)), (''max_unverified_chunks'', CNat (sm_max_unverified_chunks m)),
      (''max_verification_lag_ms'', CRat (sm_max_verification_lag_ms m)), (''protocol_version'', CStr STREAM_PROTOCOL_VERSION),
      (''error'', opt_value (CErr \<circ> StreamError) (sm_error m))]"

lemma stream_csv_row_fields: "map fst (stream_csv_row m mx c rep rid be) = STREAM_CSV_FIELDS"
  by (simp add: stream_csv_row_def STREAM_CSV_FIELDS_def)

type_synonym combo = "string \<times> int \<times> int \<times> int option"

text \<open>The network a transaction of the sweep sees, with its randomness and clocks.\<close>

record stream_env =
  se_prims :: prims
  se_rng :: "combo \<Rightarrow> nat \<Rightarrow> rng"
  se_span :: span
  se_net :: "string \<Rightarrow> combo \<Rightarrow> nat \<Rightarrow> stream_net"
  se_times :: "combo \<Rightarrow> nat \<Rightarrow> rat \<times> rat"
  se_polls :: "string \<Rightarrow> (rat \<times> nat res) list"
  se_deadline :: rat
  se_run_id :: string
  se_backend :: string

definition run_one :: "stream_env \<Rightarrow> string \<Rightarrow> combo \<Rightarrow> nat \<Rightarrow> string \<Rightarrow> csv_row res" where
  "run_one env config_key combo repetition backend =
     (case combo of (strategy, max_tokens, chunk_size, k) \<Rightarrow>
        bind_res (get_item (map_of CONFIG_TO_CRYPTO_NAME) config_key) (\<lambda>crypto.
        bind_res (run_streaming_transaction (se_prims env) (se_rng env combo repetition) (se_span env) (se_net env config_key combo repetition)
                    (fst (se_times env combo repetition)) (snd (se_times env combo repetition)) crypto DEFAULT_PROMPT strategy chunk_size
                    max_tokens k) (\<lambda>(m, _).
        Inr (stream_csv_row m max_tokens chunk_size repetition (se_run_id env) backend))))"

section \<open>The sweep\<close>

definition sweep_combos :: "string list \<Rightarrow> int list \<Rightarrow> int list \<Rightarrow> int option list \<Rightarrow> combo list" where
  "sweep_combos strategies max_tokens_values chunk_size_values checkpoint_intervals =
     concat (map (\<lambda>(strategy, max_tokens, chunk_size).
        map (\<lambda>k. (strategy, max_tokens, chunk_size, k)) (if strategy = ''hash_chain'' then checkpoint_intervals else [None]))
       (List.product strategies (List.product max_tokens_values chunk_size_values)))"

definition or_plain :: "int option list option \<Rightarrow> int option list" where
  "or_plain intervals = (case intervals of None \<Rightarrow> [None] | Some ks \<Rightarrow> if ks = [] then [None] else ks)"

datatype sweep_event = StartStreaming string | Warmup string | Measure string combo nat | WriteStream string string | StopStreaming string

text \<open>The progress line formats \<^verbatim>\<open>ttft_ms\<close> of a row without error, which raises when it is missing.\<close>

definition measure_one :: "stream_env \<Rightarrow> string \<Rightarrow> combo \<times> nat \<Rightarrow> sweep_event list \<times> csv_row list \<times> unit res" where
  "measure_one env config_key x =
     (case x of (combo, rep) \<Rightarrow>
        case run_one env config_key combo rep (se_backend env) of
          Inl e \<Rightarrow> ([Measure config_key combo rep], [], Inl e)
        | Inr row \<Rightarrow> ([Measure config_key combo rep], [row],
            if \<not> row_error_of row \<and> map_of row ''ttft_ms'' = Some CNone then Inl TypeError else Inr ()))"

definition warmup_one :: "stream_env \<Rightarrow> string \<Rightarrow> string list \<Rightarrow> int list \<Rightarrow> int list \<Rightarrow> sweep_event list \<times> csv_row list \<times> unit res" where
  "warmup_one env config_key strategies max_tokens_values chunk_size_values =
     (case (strategies, max_tokens_values, chunk_size_values) of
        (s # _, m # ms, c # _) \<Rightarrow>
          (case run_one env config_key (s, foldl min m ms, c, None) 0 [] of
             Inl e \<Rightarrow> ([Warmup config_key], [], Inl e)
           | Inr _ \<Rightarrow> ([Warmup config_key], [], Inr ()))
      | ([], _, _) \<Rightarrow> ([], [], Inl IndexError)
      | (_, [], _) \<Rightarrow> ([], [], Inl ValueError)
      | _ \<Rightarrow> ([], [], Inl IndexError))"

definition stream_config ::
  "stream_env \<Rightarrow> (string \<Rightarrow> combo list \<Rightarrow> combo list) \<Rightarrow> string \<Rightarrow> nat \<Rightarrow> string list \<Rightarrow> int list \<Rightarrow> int list
     \<Rightarrow> int option list option \<Rightarrow> nat \<Rightarrow> string \<Rightarrow> sweep_event list \<times> csv_row list \<times> unit res" where
  "stream_config env shuffle output_dir warmups strategies max_tokens_values chunk_size_values intervals repetitions config_key =
     (case get_item (map_of SERVER_MODULES) config_key of
        Inl e \<Rightarrow> ([], [], Inl e)
      | Inr _ \<Rightarrow>
          let combos = shuffle config_key (sweep_combos strategies max_tokens_values chunk_size_values (or_plain intervals));
              (evs, rows, r) =
                (case wait_healthy (se_deadline env) (se_polls env config_key) of
                   Inl e \<Rightarrow> ([], [], Inl e)
                 | Inr _ \<Rightarrow>
                     in_sequence (replicate warmups (warmup_one env config_key strategies max_tokens_values chunk_size_values)
                       @ map (measure_one env config_key) (List.product combos [1..<repetitions + 1])));
              out_path = output_dir @ ''/'' @ config_key @ ''-streaming-'' @ se_run_id env @ ''.csv'' in
          (StartStreaming config_key # evs @ (case r of Inl _ \<Rightarrow> [] | Inr _ \<Rightarrow> [WriteStream config_key out_path]) @ [StopStreaming config_key],
           rows, r))"

definition run_stream_sweep ::
  "stream_env \<Rightarrow> (string \<Rightarrow> combo list \<Rightarrow> combo list) \<Rightarrow> string \<Rightarrow> nat \<Rightarrow> string list \<Rightarrow> string list \<Rightarrow> int list \<Rightarrow> int list
     \<Rightarrow> int option list option \<Rightarrow> nat \<Rightarrow> sweep_event list \<times> csv_row list \<times> unit res" where
  "run_stream_sweep env shuffle output_dir warmups configs strategies max_tokens_values chunk_size_values intervals repetitions =
     in_sequence (map (stream_config env shuffle output_dir warmups strategies max_tokens_values chunk_size_values intervals repetitions) configs)"

section \<open>Every combination is measured, in whatever order\<close>

lemma in_sequence_ok:
  "in_sequence xs = (evs, rows, Inr ()) \<Longrightarrow> rows = concat (map (fst \<circ> snd) xs) \<and> evs = concat (map fst xs) \<and> (\<forall>x \<in> set xs. snd (snd x) = Inr ())"
proof (induction xs arbitrary: evs rows)
  case (Cons x xs)
  obtain e s r where x: "x = (e, s, r)" by (cases x)
  obtain e' s' r' where rest: "in_sequence xs = (e', s', r')" by (cases "in_sequence xs")
  have "r = Inr ()" "r' = Inr ()" "evs = e @ e'" "rows = s @ s'"
    using Cons.prems x rest by (auto split: sum.splits)
  then show ?case
    using Cons.IH [of e' s'] rest x by auto
qed simp

lemma sweep_combos_length:
  "length (sweep_combos strategies ms cs ks) =
     length ms * length cs * sum_list (map (\<lambda>s. if s = ''hash_chain'' then length ks else 1) strategies)"
proof (induction strategies)
  case (Cons s strategies)
  have "length (concat (map (\<lambda>(strategy, max_tokens, chunk_size).
      map (\<lambda>k. (strategy, max_tokens, chunk_size, k)) (if strategy = ''hash_chain'' then ks else [None])) (map (Pair s) (List.product ms cs)))) =
      length ms * length cs * (if s = ''hash_chain'' then length ks else 1)"
    by (simp add: length_concat comp_def case_prod_beta map_replicate_const sum_list_replicate length_product)
  then show ?case
    using Cons.IH by (simp add: sweep_combos_def algebra_simps)
qed (simp add: sweep_combos_def)

definition measured :: "stream_env \<Rightarrow> string \<Rightarrow> combo \<times> nat \<Rightarrow> csv_row" where
  "measured env config_key x = (case run_one env config_key (fst x) (snd x) (se_backend env) of Inr row \<Rightarrow> row | Inl _ \<Rightarrow> [])"

lemma measure_one_ok:
  "measure_one env c x = (evs, rows, Inr ()) \<Longrightarrow> rows = [measured env c x] \<and> map fst (measured env c x) = STREAM_CSV_FIELDS"
  by (cases x) (auto simp: measure_one_def measured_def run_one_def stream_csv_row_fields split: sum.splits if_splits prod.splits)

lemma concat_map_single: "(\<And>x. x \<in> set xs \<Longrightarrow> f x = [g x]) \<Longrightarrow> concat (map f xs) = map g xs"
  by (induction xs) auto

lemma mset_product_left:
  assumes "mset xs = mset ys"
  shows "mset (List.product xs zs) = mset (List.product ys zs)"
proof -
  have "mset (List.product us zs) = sum_mset (image_mset (\<lambda>x. mset (map (Pair x) zs)) (mset us))" for us :: "'a list"
    by (induction us) (simp_all add: add.commute)
  then show ?thesis using assms by simp
qed

lemma stream_config_complete:
  assumes "stream_config env shuffle out warmups strategies ms cs intervals reps c = (evs, rows, Inr ())"
    and "mset (shuffle c (sweep_combos strategies ms cs (or_plain intervals))) = mset (sweep_combos strategies ms cs (or_plain intervals))"
  shows "mset rows = mset (map (measured env c) (List.product (sweep_combos strategies ms cs (or_plain intervals)) [1..<reps + 1]))"
    and "\<forall>row \<in> set rows. map fst row = STREAM_CSV_FIELDS"
proof -
  let ?combos = "shuffle c (sweep_combos strategies ms cs (or_plain intervals))"
  let ?w = "replicate warmups (warmup_one env c strategies ms cs)"
  let ?m = "map (measure_one env c) (List.product ?combos [1..<reps + 1])"
  obtain evs' where seq: "in_sequence (?w @ ?m) = (evs', rows, Inr ())"
    using assms(1) by (auto simp: stream_config_def Let_def split: sum.splits prod.splits)
  note ok = in_sequence_ok [OF seq]
  have w: "concat (map (fst \<circ> snd) ?w) = []"
    by (auto simp: warmup_one_def split: list.splits sum.splits)
  have m: "fst (snd (measure_one env c x)) = [measured env c x] \<and> map fst (measured env c x) = STREAM_CSV_FIELDS"
    if "x \<in> set (List.product ?combos [1..<reps + 1])" for x
  proof -
    have "snd (snd (measure_one env c x)) = Inr ()"
      using ok that by auto
    then show ?thesis
      using measure_one_ok [of env c x] by (metis prod.collapse)
  qed
  have "concat (map (fst \<circ> snd) ?m) = map (measured env c) (List.product ?combos [1..<reps + 1])"
    unfolding map_map by (rule concat_map_single) (use m in \<open>simp add: comp_def\<close>)
  with w have rows: "rows = map (measured env c) (List.product ?combos [1..<reps + 1])"
    using ok by simp
  show "mset rows = mset (map (measured env c) (List.product (sweep_combos strategies ms cs (or_plain intervals)) [1..<reps + 1]))"
    unfolding rows mset_map by (simp only: mset_product_left [OF assms(2)])
  show "\<forall>row \<in> set rows. map fst row = STREAM_CSV_FIELDS"
    using m rows by auto
qed

end
