(* ===== verification/Aggregate.thy ===== *)
theory Aggregate
  imports PyValues "HOL-Library.Char_ord" "HOL-Library.List_Lexorder" "HOL-Library.Product_Lexorder" "HOL-Library.Multiset"
begin

text \<open>
  \<^verbatim>\<open>analysis/aggregate.py\<close>: warm-up trimming, per-cell statistics and the comparison with the
  baseline. A data frame is its column names and its list of rows; a missing or NaN number is
  \<open>None\<close>. The square sqrt_f of the standard deviation and SciPy's Mann-Whitney test are parameters.
\<close>

section \<open>Data frames\<close>

record meas =
  me_run_id :: string
  me_config :: string
  me_concurrency :: int
  me_repetition :: int
  me_request_index :: int
  me_error :: "string option"
  me_value :: "string \<Rightarrow> rat option"

record frame =
  fr_columns :: "string list"
  fr_rows :: "meas list"

definition METRIC_COLUMNS :: "string list" where
  "METRIC_COLUMNS = [''rtt_ms'', ''handshake_ms'', ''total_ms'', ''server_decapsulate_ms'',
     ''server_inference_ms'', ''server_sign_ms'', ''server_crypto_ms'', ''server_total_ms'', ''verify_ms'']"

text \<open>Loading: the concatenation of the files, restricted to the wanted runs; \<open>None\<close> is \<^verbatim>\<open>SystemExit\<close>.\<close>

definition load_raw :: "(string \<times> frame) list \<Rightarrow> string list option \<Rightarrow> frame option" where
  "load_raw files run_ids =
     (if files = [] then None
      else
        let frames = map snd (sort_key fst files);
            df = \<lparr> fr_columns = rev (remdups (rev (concat (map fr_columns frames)))), fr_rows = concat (map fr_rows frames) \<rparr> in
        case run_ids of
          None \<Rightarrow> Some df
        | Some ids \<Rightarrow>
            if ids = [] then Some df
            else if ''run_id'' \<notin> set (fr_columns df) then None
            else let rows = filter (\<lambda>r. me_run_id r \<in> set ids) (fr_rows df) in
              if rows = [] then None else Some (df \<lparr> fr_rows := rows \<rparr>))"

section \<open>Discarding the warm-up\<close>

type_synonym cell_key = "string \<times> string \<times> int \<times> int"

definition cell_key :: "frame \<Rightarrow> meas \<Rightarrow> cell_key" where
  "cell_key df r = (if ''run_id'' \<in> set (fr_columns df) then me_run_id r else [], me_config r, me_concurrency r, me_repetition r)"

text \<open>
  How many rows \<^verbatim>\<open>group.index[:cutoff]\<close> has: a negative cutoff counts from the end, so a negative
  fraction drops all but the last rows.
\<close>

definition slice_length :: "int \<Rightarrow> nat \<Rightarrow> nat" where
  "slice_length cutoff n = (if 0 \<le> cutoff then min n (nat cutoff) else n - nat (- cutoff))"

definition warmup_cutoff :: "rat \<Rightarrow> nat \<Rightarrow> nat" where
  "warmup_cutoff warmup_fraction n = (if n < 20 then 0 else slice_length (PyValues.truncate (of_nat n * warmup_fraction)) n)"

text \<open>The mask: a row is kept when at least the cutoff of its cell's rows come before it.\<close>

fun keep_rows :: "('k \<Rightarrow> nat) \<Rightarrow> ('a \<Rightarrow> 'k) \<Rightarrow> ('k \<Rightarrow> nat) \<Rightarrow> 'a list \<Rightarrow> 'a list" where
  "keep_rows cutoff key seen [] = []"
| "keep_rows cutoff key seen (r # rs) =
     (let rest = keep_rows cutoff key (seen(key r := Suc (seen (key r)))) rs in
      if cutoff (key r) \<le> seen (key r) then r # rest else rest)"

definition sort_frame :: "frame \<Rightarrow> meas list" where
  "sort_frame df = sort_key (\<lambda>r. (cell_key df r, me_request_index r)) (fr_rows df)"

definition discard_warmup :: "frame \<Rightarrow> rat \<Rightarrow> frame" where
  "discard_warmup df warmup_fraction =
     (let rows = sort_frame df;
          cutoff = (\<lambda>c. warmup_cutoff warmup_fraction (length (filter (\<lambda>r. cell_key df r = c) rows))) in
      df \<lparr> fr_rows := keep_rows cutoff (cell_key df) (\<lambda>_. 0) rows \<rparr>)"

lemma keep_rows_cell:
  "filter (\<lambda>r. key r = c) (keep_rows cutoff key seen rs) = drop (cutoff c - seen c) (filter (\<lambda>r. key r = c) rs)"
  by (induction rs arbitrary: seen) (auto simp: Let_def drop_Cons' Suc_diff_le not_le)

text \<open>Each cell loses exactly its first rows in request order, and only when it has at least 20.\<close>

lemma discard_warmup_cell:
  "filter (\<lambda>r. cell_key df r = c) (fr_rows (discard_warmup df f)) =
     (let g = sort_key me_request_index (filter (\<lambda>r. cell_key df r = c) (fr_rows df)) in
      drop (warmup_cutoff f (length g)) g)"
proof -
  let ?P = "\<lambda>r. cell_key df r = c"
  have g: "filter ?P (sort_frame df) = sort_key me_request_index (filter ?P (fr_rows df))"
  proof -
    have "filter ?P (sort_frame df) = sort_key (\<lambda>r. (cell_key df r, me_request_index r)) (filter ?P (fr_rows df))"
      by (simp add: sort_frame_def filter_sort)
    also have "\<dots> = sort_key me_request_index (filter ?P (fr_rows df))"
    proof (rule properties_for_sort_key [symmetric])
      let ?s = "sort_key (\<lambda>r. (cell_key df r, me_request_index r)) (filter ?P (fr_rows df))"
      show "mset ?s = mset (filter ?P (fr_rows df))" by simp
      show "sorted (map me_request_index ?s)"
      proof -
        have srt: "sorted (map (\<lambda>r. (cell_key df r, me_request_index r)) ?s)" by simp
        have mem: "cell_key df r = c" if "r \<in> set ?s" for r using that by simp
        have "sorted_wrt (\<lambda>a b. me_request_index a \<le> me_request_index b) ?s"
        proof (rule sorted_wrt_mono_rel)
          show "sorted_wrt (\<lambda>a b. (cell_key df a, me_request_index a) \<le> (cell_key df b, me_request_index b)) ?s"
            using srt by (simp add: sorted_wrt_map del: sorted_sort_key)
          show "me_request_index a \<le> me_request_index b"
            if "a \<in> set ?s" "b \<in> set ?s" "(cell_key df a, me_request_index a) \<le> (cell_key df b, me_request_index b)" for a b
            using that mem [OF that(1)] mem [OF that(2)] by (simp add: less_eq_prod_def)
        qed
        then show ?thesis by (simp add: sorted_wrt_map)
      qed
      show "filter (\<lambda>r. me_request_index k = me_request_index r) ?s = filter (\<lambda>r. me_request_index k = me_request_index r) (filter ?P (fr_rows df))"
        if "k \<in> set ?s" for k
      proof -
        have "filter (\<lambda>r. me_request_index k = me_request_index r) ?s =
            filter (\<lambda>r. (cell_key df r, me_request_index r) = (c, me_request_index k)) ?s"
          by (rule filter_cong) auto
        also have "\<dots> = filter (\<lambda>r. (cell_key df r, me_request_index r) = (c, me_request_index k)) (filter ?P (fr_rows df))"
          by (rule sort_key_stable)
        also have "\<dots> = filter (\<lambda>r. me_request_index k = me_request_index r) (filter ?P (fr_rows df))"
          by (rule filter_cong) auto
        finally show ?thesis .
      qed
    qed
    finally show ?thesis .
  qed
  show ?thesis
    by (simp add: discard_warmup_def Let_def keep_rows_cell g)
qed

section \<open>Statistics\<close>

definition median :: "rat list \<Rightarrow> rat" where
  "median xs = (let s = sort xs; n = length s in
     if odd n then s ! (n div 2) else (s ! (n div 2 - 1) + s ! (n div 2)) / 2)"

text \<open>NumPy's default percentile: linear interpolation between the two closest ranks.\<close>

definition percentile :: "rat list \<Rightarrow> rat \<Rightarrow> rat" where
  "percentile xs q =
     (let s = sort xs; pos = q / 100 * of_nat (length s - 1); lo = nat \<lfloor>pos\<rfloor>; fr = pos - of_int \<lfloor>pos\<rfloor> in
      if Suc lo < length s then s ! lo + fr * (s ! Suc lo - s ! lo) else s ! lo)"

definition variance :: "rat list \<Rightarrow> rat" where
  "variance xs = sum_list (map (\<lambda>x. (x - mean xs) ^ 2) xs) / of_nat (length xs - 1)"

record metric_stats =
  ms_mean :: rat
  ms_median :: rat
  ms_std :: rat
  ms_p95 :: rat
  ms_p99 :: rat

definition stats_of :: "(rat \<Rightarrow> rat) \<Rightarrow> rat list \<Rightarrow> metric_stats" where
  "stats_of sqrt_f vals =
     \<lparr> ms_mean = mean vals, ms_median = median vals, ms_std = (if 1 < length vals then sqrt_f (variance vals) else 0),
       ms_p95 = percentile vals 95, ms_p99 = percentile vals 99 \<rparr>"

record summary_row =
  sr_config :: string
  sr_concurrency :: int
  sr_n_requests :: nat
  sr_n_repetitions :: nat
  sr_n_attempted :: nat
  sr_n_errors :: nat
  sr_error_rate :: rat
  sr_stats :: "(string \<times> metric_stats) list"

definition is_err :: "meas \<Rightarrow> bool" where
  "is_err r \<longleftrightarrow> (case me_error r of None \<Rightarrow> False | Some e \<Rightarrow> e \<noteq> [])"

definition values_of :: "string \<Rightarrow> meas list \<Rightarrow> rat list" where
  "values_of col rows = map the (filter (\<lambda>v. v \<noteq> None) (map (\<lambda>r. me_value r col) rows))"

text \<open>The groups of \<^verbatim>\<open>groupby\<close>, in the order of their keys.\<close>

definition group_keys :: "('a \<Rightarrow> 'k :: linorder) \<Rightarrow> 'a list \<Rightarrow> 'k list" where
  "group_keys key rows = sort (remdups (map key rows))"

definition summarize_cell :: "(rat \<Rightarrow> rat) \<Rightarrow> frame \<Rightarrow> string \<times> int \<Rightarrow> summary_row" where
  "summarize_cell sqrt_f df cell =
     (let attempted = filter (\<lambda>r. (me_config r, me_concurrency r) = cell) (fr_rows df);
          group = filter (\<lambda>r. \<not> is_err r) attempted;
          n_errors = length (filter is_err attempted) in
      \<lparr> sr_config = fst cell, sr_concurrency = snd cell, sr_n_requests = length group,
        sr_n_repetitions = length (remdups (map me_repetition attempted)), sr_n_attempted = length attempted,
        sr_n_errors = n_errors, sr_error_rate = of_nat n_errors / of_nat (length attempted),
        sr_stats = map (\<lambda>col. (col, stats_of sqrt_f (values_of col group)))
          (filter (\<lambda>col. col \<in> set (fr_columns df) \<and> values_of col group \<noteq> []) METRIC_COLUMNS) \<rparr>)"

definition summarize_frame :: "(rat \<Rightarrow> rat) \<Rightarrow> frame \<Rightarrow> summary_row list" where
  "summarize_frame sqrt_f df =
     sort_key (\<lambda>r. (sr_concurrency r, sr_config r))
       (map (summarize_cell sqrt_f df) (group_keys (\<lambda>r. (me_config r, me_concurrency r)) (fr_rows df)))"

section \<open>Comparison with the baseline\<close>

definition resolve_baseline_config :: "string list \<Rightarrow> string option \<Rightarrow> string" where
  "resolve_baseline_config available_configs baseline_config =
     (case baseline_config of
        Some b \<Rightarrow> b
      | None \<Rightarrow> if ''control'' \<in> set available_configs then ''control'' else ''classical'')"

record 'g mw_row =
  mw_group :: 'g
  mw_config :: string
  mw_metric :: string
  mw_baseline :: string
  mw_n_control :: nat
  mw_n_treatment :: nat
  mw_median_control :: rat
  mw_median_treatment :: rat
  mw_overhead_pct :: "rat option"
  mw_u_statistic :: rat
  mw_p_value :: rat
  mw_significant :: bool

definition mann_whitney_vs_control ::
  "(rat list \<Rightarrow> rat list \<Rightarrow> rat \<times> rat) \<Rightarrow> frame \<Rightarrow> string \<Rightarrow> (meas \<Rightarrow> 'g :: linorder) \<Rightarrow> string option \<Rightarrow> 'g mw_row list" where
  "mann_whitney_vs_control mwu df metric group_of baseline_config =
     (let ok = filter (\<lambda>r. \<not> is_err r) (fr_rows df);
          baseline = resolve_baseline_config (map me_config ok) baseline_config;
          rows = concat (map (\<lambda>g.
            let grp = filter (\<lambda>r. group_of r = g) ok;
                vals = (\<lambda>c. values_of metric (filter (\<lambda>r. me_config r = c) grp));
                control_vals = vals baseline in
            if length control_vals < 2 then []
            else concat (map (\<lambda>c.
              let treatment_vals = vals c; mc = median control_vals; mt = median treatment_vals; (u, p) = mwu treatment_vals control_vals in
              if c = baseline \<or> length treatment_vals < 2 then []
              else [\<lparr> mw_group = g, mw_config = c, mw_metric = metric, mw_baseline = baseline,
                      mw_n_control = length control_vals, mw_n_treatment = length treatment_vals,
                      mw_median_control = mc, mw_median_treatment = mt,
                      mw_overhead_pct = (if 0 < mc then Some ((mt - mc) / mc * 100) else None),
                      mw_u_statistic = u, mw_p_value = p, mw_significant = p < 1 / 20 \<rparr>])
              (remdups (map me_config grp))))
            (group_keys group_of ok)) in
      sort_key (\<lambda>r. (mw_group r, mw_config r)) rows)"

section \<open>The statistics are ordered\<close>

definition interpolate :: "rat list \<Rightarrow> rat \<Rightarrow> rat" where
  "interpolate s pos =
     (let lo = nat \<lfloor>pos\<rfloor>; fr = pos - of_int \<lfloor>pos\<rfloor> in
      if Suc lo < length s then s ! lo + fr * (s ! Suc lo - s ! lo) else s ! lo)"

lemma percentile_interpolate: "percentile xs q = interpolate (sort xs) (q / 100 * of_nat (length xs - 1))"
  unfolding percentile_def interpolate_def Let_def by (simp only: length_sort)

lemma interpolate_between:
  assumes "sorted s" "0 \<le> pos" "pos \<le> of_nat (length s - 1)" "s \<noteq> []"
  shows "s ! nat \<lfloor>pos\<rfloor> \<le> interpolate s pos"
    and "Suc (nat \<lfloor>pos\<rfloor>) < length s \<Longrightarrow> interpolate s pos \<le> s ! Suc (nat \<lfloor>pos\<rfloor>)"
    and "nat \<lfloor>pos\<rfloor> < length s"
proof -
  let ?lo = "nat \<lfloor>pos\<rfloor>" and ?fr = "pos - of_int \<lfloor>pos\<rfloor>"
  have fr: "0 \<le> ?fr" "?fr \<le> 1"
    using floor_correct [of pos] by linarith+
  have "\<lfloor>pos\<rfloor> \<le> \<lfloor>of_nat (length s - 1) :: rat\<rfloor>"
    using assms(3) by (rule floor_mono)
  then have "?lo \<le> length s - 1"
    by (simp only: floor_of_nat nat_le_iff)
  then show lt: "?lo < length s"
    using assms(4) by (cases s) auto
  have step: "s ! ?lo \<le> s ! Suc ?lo" if "Suc ?lo < length s"
    using assms(1) that by (simp add: sorted_nth_mono)
  have "0 \<le> ?fr * (s ! Suc ?lo - s ! ?lo)" if "Suc ?lo < length s"
    using fr(1) step [OF that] by (intro mult_nonneg_nonneg) simp_all
  then show "s ! ?lo \<le> interpolate s pos"
    by (simp add: interpolate_def Let_def)
  show "interpolate s pos \<le> s ! Suc ?lo" if "Suc ?lo < length s"
  proof -
    have "?fr * (s ! Suc ?lo - s ! ?lo) \<le> 1 * (s ! Suc ?lo - s ! ?lo)"
      using fr(2) step [OF that] by (intro mult_right_mono) simp_all
    then show ?thesis using that by (simp add: interpolate_def Let_def)
  qed
qed

lemma interpolate_mono:
  assumes "sorted s" "0 \<le> p" "p \<le> q" "q \<le> of_nat (length s - 1)" "s \<noteq> []"
  shows "interpolate s p \<le> interpolate s q"
proof (cases "\<lfloor>p\<rfloor> = \<lfloor>q\<rfloor>")
  case True
  let ?lo = "nat \<lfloor>q\<rfloor>"
  have "(p - of_int \<lfloor>p\<rfloor>) * (s ! Suc ?lo - s ! ?lo) \<le> (q - of_int \<lfloor>q\<rfloor>) * (s ! Suc ?lo - s ! ?lo)" if "Suc ?lo < length s"
    using assms(1,3) that True by (intro mult_right_mono) (simp_all add: sorted_nth_mono)
  then show ?thesis
    using True by (simp add: interpolate_def Let_def)
next
  case False
  have lo: "\<lfloor>p\<rfloor> < \<lfloor>q\<rfloor>" "0 \<le> \<lfloor>p\<rfloor>"
    using False floor_mono [OF assms(3)] assms(2) by simp_all
  then have le: "Suc (nat \<lfloor>p\<rfloor>) \<le> nat \<lfloor>q\<rfloor>" by linarith
  have q: "nat \<lfloor>q\<rfloor> < length s" "s ! nat \<lfloor>q\<rfloor> \<le> interpolate s q"
    using interpolate_between [OF assms(1) _ assms(4,5)] assms(2,3) by simp_all
  have "interpolate s p \<le> s ! Suc (nat \<lfloor>p\<rfloor>)"
    by (rule interpolate_between(2) [OF assms(1,2) _ assms(5)]) (use assms(3,4) le q(1) in simp_all)
  also have "\<dots> \<le> s ! nat \<lfloor>q\<rfloor>"
    using assms(1) le q(1) by (simp add: sorted_nth_mono)
  finally show ?thesis using q(2) by simp
qed

lemma sort_ne: "xs \<noteq> [] \<Longrightarrow> sort xs \<noteq> []"
  by (metis length_0_conv length_sort)

lemma percentile_mono:
  assumes "xs \<noteq> []" "0 \<le> p" "p \<le> q" "q \<le> 100"
  shows "percentile xs p \<le> percentile xs q"
proof -
  have "p / 100 * of_nat (length xs - 1) \<le> q / 100 * of_nat (length xs - 1)"
    using assms(3) by (intro mult_right_mono) simp_all
  moreover have "q / 100 * of_nat (length xs - 1) \<le> 1 * of_nat (length xs - 1)"
    using assms(4) by (intro mult_right_mono) simp_all
  ultimately show ?thesis
    unfolding percentile_interpolate using assms(1,2)
    by (intro interpolate_mono) (simp_all add: sort_ne)
qed

lemma sorted_ends:
  assumes "sorted s" "y \<in> set s"
  shows "s ! 0 \<le> y \<and> y \<le> s ! (length s - 1)"
proof -
  obtain i where i: "i < length s" "y = s ! i"
    using assms(2) unfolding in_set_conv_nth by blast
  then show ?thesis
    using sorted_nth_mono [OF assms(1), of 0 i] sorted_nth_mono [OF assms(1), of i "length s - 1"] by simp
qed

lemma percentile_ends:
  assumes "xs \<noteq> []"
  shows "percentile xs 0 = Min (set xs)" "percentile xs 100 = Max (set xs)"
proof -
  have s: "sorted (sort xs)" "sort xs \<noteq> []" "set (sort xs) = set xs"
    using assms by (simp_all add: sort_ne)
  have mem: "sort xs ! i \<in> set xs" if "i < length xs" for i
    using nth_mem [of i "sort xs"] that s(3) by simp
  have "percentile xs 0 = sort xs ! 0"
    by (simp add: percentile_interpolate interpolate_def)
  also have "\<dots> = Min (set xs)"
    by (rule Min_eqI [symmetric]) (use sorted_ends [OF s(1)] s(3) mem assms in auto)
  finally show "percentile xs 0 = Min (set xs)" .
  have "percentile xs 100 = sort xs ! (length xs - 1)"
    using assms by (simp add: percentile_interpolate interpolate_def Let_def)
  also have "\<dots> = Max (set xs)"
    by (rule Max_eqI [symmetric]) (use sorted_ends [OF s(1)] s(3) mem assms in auto)
  finally show "percentile xs 100 = Max (set xs)" .
qed

text \<open>The median is the 50th percentile.\<close>

lemma median_percentile:
  assumes "xs \<noteq> []"
  shows "median xs = percentile xs 50"
proof (cases "odd (length xs)")
  case True
  then obtain k where k: "length xs = 2 * k + 1" by (elim oddE)
  then have "(50 :: rat) / 100 * of_nat (length xs - 1) = of_nat k" by simp
  then show ?thesis
    using k by (simp add: percentile_interpolate interpolate_def median_def Let_def)
next
  case False
  then obtain k where "length xs = 2 * k" by auto
  then obtain j where j: "length xs = 2 * j + 2" using assms by (cases k) auto
  have fl: "\<lfloor>of_nat j + 1 / 2 :: rat\<rfloor> = int j"
    by (rule floor_unique) simp_all
  have mid: "interpolate s (of_nat j + 1 / 2) = s ! j + 1 / 2 * (s ! Suc j - s ! j)" if "Suc j < length s" for s
    unfolding interpolate_def fl Let_def using that by simp
  have pos: "(50 :: rat) / 100 * of_nat (length xs - 1) = of_nat j + 1 / 2"
    using j by (simp add: field_simps)
  have "percentile xs 50 = sort xs ! j + 1 / 2 * (sort xs ! Suc j - sort xs ! j)"
    unfolding percentile_interpolate pos by (rule mid) (simp add: j)
  then show ?thesis
    using j by (simp add: median_def Let_def field_simps)
qed

section \<open>No attempted cell vanishes\<close>

lemma summarize_cells:
  "set (map (\<lambda>r. (sr_config r, sr_concurrency r)) (summarize_frame sqrt_f df)) = (\<lambda>r. (me_config r, me_concurrency r)) ` set (fr_rows df)"
  "length (summarize_frame sqrt_f df) = card ((\<lambda>r. (me_config r, me_concurrency r)) ` set (fr_rows df))"
proof -
  let ?key = "\<lambda>r. (me_config r, me_concurrency r)"
  have k: "(sr_config (summarize_cell sqrt_f df c), sr_concurrency (summarize_cell sqrt_f df c)) = c" for c
    by (simp add: summarize_cell_def Let_def)
  show "set (map (\<lambda>r. (sr_config r, sr_concurrency r)) (summarize_frame sqrt_f df)) = ?key ` set (fr_rows df)"
    by (simp add: summarize_frame_def group_keys_def image_image k)
  show "length (summarize_frame sqrt_f df) = card (?key ` set (fr_rows df))"
    by (simp add: summarize_frame_def group_keys_def length_remdups_card_conv)
qed

lemma summarize_counts:
  assumes "r \<in> set (summarize_frame sqrt_f df)"
  shows "sr_n_requests r + sr_n_errors r = sr_n_attempted r" "0 < sr_n_attempted r" "0 \<le> sr_error_rate r" "sr_error_rate r \<le> 1"
proof -
  obtain cell where c: "cell \<in> set (group_keys (\<lambda>r. (me_config r, me_concurrency r)) (fr_rows df))" "r = summarize_cell sqrt_f df cell"
    using assms by (auto simp: summarize_frame_def)
  let ?att = "filter (\<lambda>r. (me_config r, me_concurrency r) = cell) (fr_rows df)"
  have "?att \<noteq> []" using c(1) by (auto simp: group_keys_def filter_empty_conv)
  then show "0 < sr_n_attempted r" by (simp add: c(2) summarize_cell_def Let_def)
  show sum: "sr_n_requests r + sr_n_errors r = sr_n_attempted r"
    using sum_length_filter_compl [of is_err ?att] by (simp add: c(2) summarize_cell_def Let_def)
  have "sr_error_rate r = of_nat (sr_n_errors r) / of_nat (sr_n_attempted r)"
    by (simp add: c(2) summarize_cell_def Let_def)
  then show "0 \<le> sr_error_rate r" "sr_error_rate r \<le> 1"
    using sum \<open>0 < sr_n_attempted r\<close> by (simp_all add: divide_le_eq)
qed

end
