(* ===== verification/Tradeoff.thy ===== *)
theory Tradeoff
  imports Aggregate
begin

text \<open>
  \<^verbatim>\<open>analysis/tradeoff_matrix.py\<close>: the security scores, their streaming variant and the composite
  score matrix. A number of a data frame is \<open>Some x\<close>, or \<open>None\<close> for NaN; Python's \<^verbatim>\<open>None\<close> in a
  row is the outer option.
\<close>

section \<open>Scores\<close>

definition SECURITY_SCORES :: "(string \<times> rat option) list" where
  "SECURITY_SCORES = [(''control'', None), (''control_2rt'', None), (''classical'', Some 0), (''classical_ecdhe'', Some 0),
     (''hybrid'', Some (4 / 5)), (''hybrid_kex'', Some (4 / 5)), (''full_pqc'', Some 1), (''hybrid_kex_pq'', Some 1)]"

definition DEFAULT_EXPOSURE_SHARE :: rat where
  "DEFAULT_EXPOSURE_SHARE = 3 / 10"

record exposure_summary =
  mi_config :: string
  mi_strategy :: string
  mi_fraction_mean :: "rat option"

definition sequence_integrity_resistance :: "exposure_summary list \<Rightarrow> string \<Rightarrow> string \<Rightarrow> rat option" where
  "sequence_integrity_resistance summaries config strategy =
     (if strategy = ''buffer_and_sign'' then Some 1
      else
        let fractions = map (the \<circ> mi_fraction_mean) (filter (\<lambda>s. mi_config s = config \<and> mi_strategy s = strategy
              \<and> mi_fraction_mean s \<noteq> None) summaries) in
        if fractions = [] then None else Some (1 - mean fractions))"

definition streaming_security_score :: "string \<Rightarrow> string \<Rightarrow> exposure_summary list \<Rightarrow> rat \<Rightarrow> rat option" where
  "streaming_security_score config strategy summaries exposure_share =
     (case map_of SECURITY_SCORES config of
        Some (Some sec_score) \<Rightarrow>
          map_option (\<lambda>exposure_resistance. (1 - exposure_share) * sec_score + exposure_share * exposure_resistance)
            (sequence_integrity_resistance summaries config strategy)
      | _ \<Rightarrow> None)"

definition WEIGHTINGS :: "(string \<times> rat \<times> rat) list" where
  "WEIGHTINGS = [(''security_priority'', 4 / 5, 1 / 5), (''balanced'', 1 / 2, 1 / 2), (''performance_priority'', 1 / 5, 4 / 5)]"

section \<open>The matrix\<close>

record matrix_row =
  mx_config :: string
  mx_scale :: int
  mx_baseline_config :: string
  mx_w_sec :: rat
  mx_w_perf :: rat
  mx_security_score :: rat
  mx_median :: "rat option option"
  mx_baseline_median :: "rat option"
  mx_overhead :: "rat option option"
  mx_composite :: "rat option option"
  mx_error_rate :: rat
  mx_available :: bool

text \<open>Median of a group, skipping NaN; NaN for a group without numbers.\<close>

definition group_median :: "string \<Rightarrow> meas list \<Rightarrow> rat option" where
  "group_median metric_col rows = (let vals = values_of metric_col rows in if vals = [] then None else Some (median vals))"

definition cell_rows :: "(meas \<Rightarrow> int) \<Rightarrow> string \<Rightarrow> int \<Rightarrow> meas list \<Rightarrow> meas list" where
  "cell_rows scale_of config scale_val rows = filter (\<lambda>r. me_config r = config \<and> scale_of r = scale_val) rows"

definition median_metric :: "(meas \<Rightarrow> int) \<Rightarrow> string \<Rightarrow> meas list \<Rightarrow> string \<Rightarrow> int \<Rightarrow> rat option option" where
  "median_metric scale_of metric_col ok config scale_val =
     (let g = cell_rows scale_of config scale_val ok in if g = [] then None else Some (group_median metric_col g))"

definition error_rate :: "meas list \<Rightarrow> rat" where
  "error_rate rows = of_nat (length (filter is_err rows)) / of_nat (length rows)"

text \<open>\<^verbatim>\<open>(config_val - baseline_val) / baseline_val if baseline_val > 0 else None\<close>, and \<^verbatim>\<open>overhead_pct or 0.0\<close>.\<close>

definition overhead_pct :: "rat option \<Rightarrow> rat option \<Rightarrow> rat option option" where
  "overhead_pct config_val baseline_val =
     (case baseline_val of
        Some b \<Rightarrow> if 0 < b then Some (map_option (\<lambda>c. (c - b) / b) config_val) else None
      | None \<Rightarrow> None)"

definition composite_score :: "rat \<Rightarrow> rat \<Rightarrow> rat \<Rightarrow> rat option option \<Rightarrow> rat option" where
  "composite_score w_sec w_perf sec_score overhead =
     (case overhead of None \<Rightarrow> Some (w_sec * sec_score) | Some x \<Rightarrow> map_option (\<lambda>o_pct. w_sec * sec_score - w_perf * o_pct) x)"

definition matrix_row_of ::
  "meas list \<Rightarrow> rat \<Rightarrow> rat \<Rightarrow> string \<Rightarrow> (meas \<Rightarrow> int) \<Rightarrow> string \<Rightarrow> rat option \<Rightarrow> int \<Rightarrow> string \<times> rat \<Rightarrow> matrix_row list" where
  "matrix_row_of rows w_sec w_perf baseline scale_of metric_col baseline_val scale_val cs =
     (let config = fst cs; sec_score = snd cs;
          attempted = cell_rows scale_of config scale_val rows;
          row = \<lparr> mx_config = config, mx_scale = scale_val, mx_baseline_config = baseline, mx_w_sec = w_sec, mx_w_perf = w_perf,
            mx_security_score = sec_score, mx_median = None, mx_baseline_median = baseline_val, mx_overhead = None,
            mx_composite = None, mx_error_rate = error_rate attempted, mx_available = False \<rparr> in
      if attempted = [] then []
      else case median_metric scale_of metric_col (filter (\<lambda>r. \<not> is_err r) rows) config scale_val of
        None \<Rightarrow> [row]
      | Some config_val \<Rightarrow>
          let ov = overhead_pct config_val baseline_val in
          [row \<lparr> mx_median := Some config_val, mx_overhead := ov, mx_composite := Some (composite_score w_sec w_perf sec_score ov),
                 mx_available := True \<rparr>])"

definition scored_configs :: "(string \<times> rat option) list \<Rightarrow> meas list \<Rightarrow> (string \<times> rat) list" where
  "scored_configs scores rows =
     map (\<lambda>(c, s). (c, the s)) (filter (\<lambda>(c, s). s \<noteq> None \<and> c \<in> set (map me_config rows)) scores)"

definition build_matrix_at ::
  "meas list \<Rightarrow> rat \<Rightarrow> rat \<Rightarrow> string option \<Rightarrow> (meas \<Rightarrow> int) \<Rightarrow> string \<Rightarrow> (string \<times> rat option) list option \<Rightarrow> matrix_row list" where
  "build_matrix_at rows w_sec w_perf baseline_config scale_of metric_col security_scores =
     (let ok = filter (\<lambda>r. \<not> is_err r) rows;
          baseline = resolve_baseline_config (map me_config ok) baseline_config;
          scores = (case security_scores of None \<Rightarrow> SECURITY_SCORES | Some s \<Rightarrow> s) in
      concat (map (\<lambda>scale_val.
        case median_metric scale_of metric_col ok baseline scale_val of
          None \<Rightarrow> []
        | Some baseline_val \<Rightarrow>
            concat (map (matrix_row_of rows w_sec w_perf baseline scale_of metric_col baseline_val scale_val) (scored_configs scores rows)))
        (group_keys scale_of ok)))"

definition build_matrix :: "meas list \<Rightarrow> string option \<Rightarrow> (string \<times> matrix_row) list" where
  "build_matrix rows baseline_config =
     concat (map (\<lambda>(weighting_name, w_sec, w_perf).
       map (Pair weighting_name) (build_matrix_at rows w_sec w_perf baseline_config me_concurrency ''total_ms'' None)) WEIGHTINGS)"

section \<open>Ranges\<close>

lemma security_scores_range: "map_of SECURITY_SCORES config = Some (Some s) \<Longrightarrow> 0 \<le> s \<and> s \<le> 1"
  by (auto simp: SECURITY_SCORES_def split: if_splits)

lemma resistance_range:
  assumes "\<And>s f. s \<in> set summaries \<Longrightarrow> mi_fraction_mean s = Some f \<Longrightarrow> 0 \<le> f \<and> f \<le> 1"
    and "sequence_integrity_resistance summaries config strategy = Some r"
  shows "0 \<le> r \<and> r \<le> 1"
proof -
  let ?fs = "map (the \<circ> mi_fraction_mean) (filter (\<lambda>s. mi_config s = config \<and> mi_strategy s = strategy \<and> mi_fraction_mean s \<noteq> None) summaries)"
  have "0 \<le> mean ?fs \<and> mean ?fs \<le> 1" if "?fs \<noteq> []"
    using that assms(1) by (intro conjI mean_ge mean_le) auto
  then show ?thesis
    using assms(2) by (auto simp: sequence_integrity_resistance_def Let_def split: if_splits)
qed

lemma streaming_score_range:
  assumes "\<And>s f. s \<in> set summaries \<Longrightarrow> mi_fraction_mean s = Some f \<Longrightarrow> 0 \<le> f \<and> f \<le> 1"
    and "0 \<le> share" "share \<le> 1" "streaming_security_score config strategy summaries share = Some score"
  shows "0 \<le> score \<and> score \<le> 1"
proof -
  obtain s r where s: "map_of SECURITY_SCORES config = Some (Some s)"
      "sequence_integrity_resistance summaries config strategy = Some r" "score = (1 - share) * s + share * r"
    using assms(4) by (auto simp: streaming_security_score_def split: option.splits)
  have "0 \<le> s" "s \<le> 1" "0 \<le> r" "r \<le> 1"
    using security_scores_range [OF s(1)] resistance_range [OF assms(1) s(2)] by simp_all
  then show ?thesis
    using assms(2,3) mult_left_mono [of s 1 "1 - share"] mult_left_mono [of r 1 share]
      mult_nonneg_nonneg [of "1 - share" s] mult_nonneg_nonneg [of share r]
    unfolding s(3) by simp
qed

section \<open>The matrix orders by latency and never loses an attempted configuration\<close>

lemma composite_antimono:
  assumes "0 < w_perf" "0 < b"
  shows "composite_score w_sec w_perf s (overhead_pct (Some c) (Some b)) = Some (w_sec * s - w_perf * ((c - b) / b))"
    and "c < c' \<Longrightarrow> w_sec * s - w_perf * ((c' - b) / b) < w_sec * s - w_perf * ((c - b) / b)"
proof -
  show "composite_score w_sec w_perf s (overhead_pct (Some c) (Some b)) = Some (w_sec * s - w_perf * ((c - b) / b))"
    using assms(2) by (simp add: composite_score_def overhead_pct_def)
  show "w_sec * s - w_perf * ((c' - b) / b) < w_sec * s - w_perf * ((c - b) / b)" if "c < c'"
    using assms that by (simp add: divide_strict_right_mono)
qed

lemma matrix_cells:
  assumes "r \<in> set rows" "(me_config r, s) \<in> set (scored_configs (case scs of None \<Rightarrow> SECURITY_SCORES | Some x \<Rightarrow> x) rows)"
    and "scale_of r \<in> scale_of ` set (filter (\<lambda>r. \<not> is_err r) rows)"
    and "median_metric scale_of metric_col (filter (\<lambda>r. \<not> is_err r) rows)
           (resolve_baseline_config (map me_config (filter (\<lambda>r. \<not> is_err r) rows)) bl) (scale_of r) = Some bv"
  shows "\<exists>row \<in> set (build_matrix_at rows w_sec w_perf bl scale_of metric_col scs). mx_config row = me_config r \<and> mx_scale row = scale_of r \<and>
    (mx_available row \<longleftrightarrow> cell_rows scale_of (me_config r) (scale_of r) (filter (\<lambda>r. \<not> is_err r) rows) \<noteq> [])"
proof -
  let ?base = "resolve_baseline_config (map me_config (filter (\<lambda>r. \<not> is_err r) rows)) bl"
  have att: "cell_rows scale_of (me_config r) (scale_of r) rows \<noteq> []"
    using assms(1) by (auto simp: cell_rows_def filter_empty_conv)
  obtain row where row: "row \<in> set (matrix_row_of rows w_sec w_perf ?base scale_of metric_col bv (scale_of r) (me_config r, s))"
      "mx_config row = me_config r" "mx_scale row = scale_of r"
      "mx_available row \<longleftrightarrow> cell_rows scale_of (me_config r) (scale_of r) (filter (\<lambda>r. \<not> is_err r) rows) \<noteq> []"
    using att by (cases "median_metric scale_of metric_col (filter (\<lambda>r. \<not> is_err r) rows) (me_config r) (scale_of r)")
      (auto simp: matrix_row_of_def Let_def median_metric_def split: if_splits)
  have "scale_of r \<in> set (group_keys scale_of (filter (\<lambda>r. \<not> is_err r) rows))"
    using assms(3) by (simp add: group_keys_def)
  then have "row \<in> set (build_matrix_at rows w_sec w_perf bl scale_of metric_col scs)"
    using row(1) assms(2,4) by (auto simp: build_matrix_at_def Let_def intro!: bexI [of _ "scale_of r"] bexI [of _ "(me_config r, s)"])
  with row(2-4) show ?thesis by blast
qed

end
