(* ===== verification/ThreatProperties.thy ===== *)
theory ThreatProperties
  imports SessionSecurity ToyCampaign StreamingRunner Netem Tradeoff
begin

text \<open>
  The properties of the sessions and of the two active attackers: the key-substituting man in the
  middle of \<^verbatim>\<open>threats/key_substitution.py\<close> and the stream campaign.
\<close>

section \<open>The stream attack campaign\<close>

text \<open>C7
  The attack campaign on genuine captures: whatever attack of the campaign runs against the
  enforced client (every static attack on either strategy, every adaptive one on a checkpointed
  chain), each applied trial is detected, provided the attacker forges no signature and finds no
  SHA-256 collision, and the donor stream differs from the victim's. The one attack left out runs
  against a client that does not know the schedule.
\<close>

theorem campaign_detects_all:
  assumes "contexts_distinct P logs" "sha_ok P" "attack \<noteq> ''checkpoint_strip_v2client''"
    and "\<And>t. t < tries \<Longrightarrow> attempt_sound P logs strategy k pool attack (draws t)"
    and "trial_loop P sps draws pool attack strategy k trials tries tally0 = Inr ta"
  shows "ta_det ta = ta_n ta \<and> ta_n ta \<le> trials \<and> length (ta_exposures ta) = ta_n ta"
  using trial_loop_detects_all [OF assms(1-4) _ assms(5)]
    trial_loop_ok [of attack trials tally0, OF _ assms(5)]
  by (simp add: tally_ok_def tally0_def)

text \<open>A dropped chunk of a one-chunk \<^verbatim>\<open>per_chunk\<close> stream.\<close>

lemma campaign_detects_all_witness:
  "\<exists>ta. trial_loop toy_prims (\<lambda>_. wit_span) (\<lambda>_. (0, 1, 0)) [wit_victim, wit_donor] ''drop'' ''per_chunk'' None 1 5 tally0 = Inr ta \<and>
     ta_n ta = 1 \<and> ta_det ta = 1"
proof -
  have "\<exists>ta. trial_loop toy_prims (\<lambda>_. wit_span) (\<lambda>_. (0, 1, 0)) [wit_victim, wit_donor] ''drop'' ''per_chunk'' None 1 5 tally0 = Inr ta \<and> ta_n ta = 1"
    by (rule wit_campaign_run)
  then obtain ta where ta: "trial_loop toy_prims (\<lambda>_. wit_span) (\<lambda>_. (0, 1, 0)) [wit_victim, wit_donor] ''drop'' ''per_chunk'' None 1 5 tally0 = Inr ta" "ta_n ta = 1"
    by blast
  have "ta_det ta = ta_n ta \<and> ta_n ta \<le> 1 \<and> length (ta_exposures ta) = ta_n ta"
    by (rule campaign_detects_all [OF _ _ _ wit_attempt_sound ta(1)])
       (use toy_prims_ok in \<open>simp_all add: contexts_distinct_def prims_ok_def\<close>)
  with ta show ?thesis by auto
qed

section \<open>Key substitution\<close>

text \<open>C8
  Key substitution against the unauthenticated handshake succeeds: for every configuration, when
  the attacker replaces the key shares and the real server answers, the client accepts, the
  attacker has read the request and the forged prediction is what the client got.
\<close>

theorem key_substitution_succeeds:
  assumes "prims_ok P" "session_open P predict backend cfg resp app" "hr_handshake_id resp \<noteq> []"
    and "tn_get_handshake net = Inr (200, Inr (handshake_json resp))" "tn_predict net = predict_over P predict r clk' app"
    and "json_loads P (json_dumps P request) = Some request" "json_loads P (json_dumps P result) = Some result"
    and "json_set result ''prediction'' (JStr FORGED_PREDICTION) = Inr forged" "json_loads P (json_dumps P forged) = Some forged"
    and "run_model predict request = Inr (result, ms)"
  shows "ks_trial P u rs sp clk net request cfg ''substitute'' ''unauthenticated'' pinned ik =
    Inr ((ks_row0 cfg ''substitute'' ''unauthenticated'') \<lparr> ks_client_accepted := True, ks_attacker_read_request := True,
            ks_forged_response_accepted := True \<rparr>)"
  by (rule substitution_unauthenticated [OF assms]) simp

definition wit_forged :: json where
  "wit_forged = JObj [(''prediction'', JStr FORGED_PREDICTION)]"

definition wit_model :: "json \<Rightarrow> json res" where
  "wit_model j = Inr (JObj [(''prediction'', JStr FORGED_PREDICTION), (''_inference_ms'', JFloat 1)])"

lemma key_substitution_succeeds_witness:
  "\<exists>resp app net row pinned ik. session_open (codec_prims wit_forged) wit_model (\<lambda>_ _. []) ''full_pqc'' resp app \<and>
    tn_get_handshake net = Inr (200, Inr (handshake_json resp)) \<and>
    ks_trial (codec_prims wit_forged) [] (\<lambda>_ _ _. 0) wit_span (0, 1) net wit_forged ''full_pqc'' ''substitute'' ''unauthenticated''
      pinned ik = Inr row \<and> ks_client_accepted row \<and> ks_attacker_read_request row \<and> ks_forged_response_accepted row"
proof -
  obtain resp app where so: "session_open (codec_prims wit_forged) wit_model (\<lambda>_ _. []) ''full_pqc'' resp app"
      "hr_handshake_id resp = ''s''"
    by (rule session_open_exists_id [OF codec_prims_ok, of "''full_pqc''"]) (simp add: CONFIG_NAMES_def CONFIGS_def)
  fix clk' :: predict_clock
  define net where "net = \<lparr> tn_get_handshake = Inr (200, Inr (handshake_json resp)), tn_get_identity = Inl RuntimeError,
      tn_predict = predict_over (codec_prims wit_forged) wit_model (\<lambda>_ _. 0) clk' app \<rparr>"
  have tn: "tn_get_handshake net = Inr (200, Inr (handshake_json resp))"
      "tn_predict net = predict_over (codec_prims wit_forged) wit_model (\<lambda>_ _. 0) clk' app"
    by (simp_all add: net_def)
  have m: "run_model wit_model wit_forged = Inr (wit_forged, 1)"
    by (simp add: run_model_def wit_model_def json_pop_def wit_forged_def)
  have f: "json_set wit_forged ''prediction'' (JStr FORGED_PREDICTION) = Inr wit_forged"
    by (simp add: json_set_def wit_forged_def)
  have "ks_trial (codec_prims wit_forged) [] (\<lambda>_ _ _. 0) wit_span (0, 1) net wit_forged ''full_pqc'' ''substitute'' ''unauthenticated''
      pinned ik = Inr ((ks_row0 ''full_pqc'' ''substitute'' ''unauthenticated'') \<lparr> ks_client_accepted := True,
        ks_attacker_read_request := True, ks_forged_response_accepted := True \<rparr>)"
    by (rule key_substitution_succeeds [OF codec_prims_ok so(1) _ tn codec_prims_json codec_prims_json f codec_prims_json m])
       (simp add: so(2))
  with so(1) tn(1) show ?thesis by fastforce
qed

text \<open>C9
  With a pinned identity the same attacker is stopped at the handshake, whether it keeps the
  server's transcript signature or signs with a key of its own: the trial ends there, the request
  was not sent, nothing forged is accepted. The pinned key's signatures are not forged, the two
  transcripts do not collide under SHA-256, and the attacker's keys are not the server's.
\<close>

theorem key_substitution_blocked:
  assumes "do_handshake net clk = Inr (real_hs, ms)" "substitute_keys P u rs sp cfg variant ik real_hs = Inr (hs, atk)"
    and "pin_unforged P pin real_hs hs" "inj_on (sha256 P) (handshake_inputs hs \<union> handshake_inputs real_hs)"
    and "handshake_keys hs \<noteq> handshake_keys real_hs"
    and "ks_trial P u rs sp clk net request cfg variant ''pinned'' pin ik = Inr row"
  shows "ks_rejected_at row = Some ''handshake'' \<and> \<not> ks_client_accepted row \<and> \<not> ks_attacker_read_request row \<and>
    \<not> ks_forged_response_accepted row"
  by (simp add: substitution_pinned [OF assms] ks_row0_def)

definition wit_real_hs :: json_strings where
  "wit_real_hs = [''handshake_id'' \<mapsto> ''s'', ''kex_algorithm'' \<mapsto> ''k'', ''sig_algorithm'' \<mapsto> ''a'',
     ''kex_public_key'' \<mapsto> b64e [1], ''sig_public_key'' \<mapsto> b64e [2],
     ''transcript_signature'' \<mapsto> b64e (9 # sha256 len_prims (transcript_input ''s'' ''k'' ''a'' [1] [2]))]"

definition wit_hs_net :: txn_net where
  "wit_hs_net = \<lparr> tn_get_handshake = Inr (200, Inr wit_real_hs), tn_get_identity = Inl RuntimeError, tn_predict = (\<lambda>_ _. Inl RuntimeError) \<rparr>"

definition wit_pin :: pinned_identity where
  "wit_pin = \<lparr> pin_algorithm = ECDSA, pin_public_key = [9] \<rparr>"

definition wit_sub_hs :: json_strings where
  "wit_sub_hs = wit_real_hs(''kex_public_key'' \<mapsto> b64e (replicate 32 0), ''sig_public_key'' \<mapsto> b64e [0])"

lemma wit_substitute: "\<exists>atk. substitute_keys len_prims [] (\<lambda>_ _ _. 0) wit_span ''classical_ecdhe'' ''substitute'' ik wit_real_hs = Inr (wit_sub_hs, Some atk)"
  by (simp add: substitute_keys_def get_server_crypto_def CONFIGS_def ecdhe_new_handshake_def wit_real_hs_def wit_sub_hs_def
      len_prims_def toy_prims_def Let_def x25519_raw_def X25519_PUBLIC_KEY_BYTES_def del: bind_res_eq_Inr)

lemma wit_transcripts:
  "transcript_of len_prims wit_real_hs = Inr (sha256 len_prims (transcript_input ''s'' ''k'' ''a'' [1] [2]))"
  "transcript_of len_prims wit_sub_hs = Inr (sha256 len_prims (transcript_input ''s'' ''k'' ''a'' (replicate 32 0) [0]))"
  "handshake_inputs wit_real_hs = {transcript_input ''s'' ''k'' ''a'' [1] [2]}"
  "handshake_inputs wit_sub_hs = {transcript_input ''s'' ''k'' ''a'' (replicate 32 0) [0]}"
  by (auto simp: transcript_of_def wit_real_hs_def wit_sub_hs_def transcript_Inr handshake_inputs_def)

lemma wit_transcripts_differ:
  "sha256 len_prims (transcript_input ''s'' ''k'' ''a'' (replicate 32 0) [0]) \<noteq> sha256 len_prims (transcript_input ''s'' ''k'' ''a'' [1] [2])"
  by (rule len_sha_inj) (simp_all add: transcript_input_def HS_DOMAIN_def)

lemma wit_verify_identity:
  "verify_identity len_prims sp (pin_algorithm wit_pin) (pin_public_key wit_pin) msg sg = Inr (sg = 9 # msg, mk_verify_meta sp)"
  by (simp add: verify_identity_def wit_pin_def ECDSA_def MLDSA65_ALGORITHM_def) (simp add: toy_prims_def)

lemma key_substitution_blocked_witness:
  "\<exists>ik row. ks_trial len_prims [] (\<lambda>_ _ _. 0) wit_span (0, 1) wit_hs_net JNull ''classical_ecdhe'' ''substitute'' ''pinned'' wit_pin ik = Inr row \<and>
    ks_rejected_at row = Some ''handshake'' \<and> \<not> ks_attacker_read_request row"
proof -
  fix ik
  obtain atk where sub: "substitute_keys len_prims [] (\<lambda>_ _ _. 0) wit_span ''classical_ecdhe'' ''substitute'' ik wit_real_hs = Inr (wit_sub_hs, Some atk)"
    using wit_substitute by blast
  have hs: "do_handshake wit_hs_net (0, 1) = Inr (wit_real_hs, 1000)"
    by (simp add: do_handshake_def wit_hs_net_def raise_for_status_def ms_between_def)
  have v: "\<exists>m. verify_handshake len_prims wit_span wit_sub_hs wit_pin b64d = Inr (False, m)"
    using wit_transcripts_differ
    by (auto simp: verify_handshake_def wit_sub_hs_def wit_real_hs_def transcript_Inr wit_verify_identity)
  obtain row where row: "ks_trial len_prims [] (\<lambda>_ _ _. 0) wit_span (0, 1) wit_hs_net JNull ''classical_ecdhe'' ''substitute'' ''pinned'' wit_pin ik = Inr row"
    using v by (auto simp: ks_trial_def hs sub get_client_crypto_def CONFIGS_def)
  have "ks_rejected_at row = Some ''handshake'' \<and> \<not> ks_client_accepted row \<and> \<not> ks_attacker_read_request row \<and>
      \<not> ks_forged_response_accepted row"
  proof (rule key_substitution_blocked [OF hs sub _ _ _ row])
    show "pin_unforged len_prims wit_pin wit_real_hs wit_sub_hs"
      by (auto simp: pin_unforged_def wit_verify_identity wit_transcripts(1)) (auto simp: wit_sub_hs_def wit_real_hs_def)
    show "inj_on (sha256 len_prims) (handshake_inputs wit_sub_hs \<union> handshake_inputs wit_real_hs)"
      using wit_transcripts_differ unfolding wit_transcripts by (auto simp: inj_on_def dest: sym)
    show "handshake_keys wit_sub_hs \<noteq> handshake_keys wit_real_hs"
      by (simp add: handshake_keys_def wit_sub_hs_def wit_real_hs_def)
  qed
  with row show ?thesis by blast
qed

section \<open>Authenticated handshakes and finished sessions\<close>

text \<open>C10
  No false rejection: whatever the server did since start-up, a client that pinned its identity
  accepts every handshake it issues, for every configuration.
\<close>

theorem pinned_client_accepts:
  assumes "prims_ok P" "build_app P t True config = Inr app0" "app_steps P predict backend app0 before app1"
    and "handshake P uuid r sp sp' app1 = (app2, Inr resp)"
  shows "\<exists>pin m. pin_of app0 = Inr pin \<and> verify_handshake P sp'' (handshake_json resp) pin b64d = Inr (True, m)"
  by (rule pinned_accepts [OF assms])

lemma pinned_client_accepts_witness:
  "\<exists>app0 app2 resp pin m. build_app toy_prims (\<lambda>_. 0) True ''classical_ecdhe'' = Inr app0 \<and>
    handshake toy_prims ''s'' (\<lambda>_ _. 0) wit_span wit_span app0 = (app2, Inr resp) \<and>
    pin_of app0 = Inr pin \<and> verify_handshake toy_prims wit_span (handshake_json resp) pin b64d = Inr (True, m)"
proof -
  have "\<exists>app0 app2 resp. build_app toy_prims (\<lambda>_. 0) True ''classical_ecdhe'' = Inr app0 \<and>
      handshake toy_prims ''s'' (\<lambda>_ _. 0) wit_span wit_span app0 = (app2, Inr resp)"
    by (simp add: build_app_def get_server_crypto_def CONFIGS_def identity_generate_def identity_algorithm_for_def
        handshake_def ecdhe_new_handshake_def Let_def x25519_raw_def X25519_PUBLIC_KEY_BYTES_def identity_sign_def
        ecdhe_kex_algorithm_def ecdhe_sig_algorithm_def MLDSA65_ALGORITHM_def ECDSA_def transcript_Inr)
       (simp add: toy_prims_def)
  then obtain app0 app2 resp where s: "build_app toy_prims (\<lambda>_. 0) True ''classical_ecdhe'' = Inr app0"
      "handshake toy_prims ''s'' (\<lambda>_ _. 0) wit_span wit_span app0 = (app2, Inr resp)"
    by blast
  show ?thesis
    using pinned_client_accepts [OF toy_prims_ok s(1) app_refl s(2), of wit_span] s by blast
qed

text \<open>C11
  A one-shot request that was answered cannot be replayed: after it, and after any requests of
  other sessions, every further request under its handshake id gets an HTTP error (404 unless its
  base64 is broken) on both routes and changes nothing.
\<close>

theorem answered_request_not_replayable:
  assumes "secure_predict P predict r clk dbg req app = (app1, Inr resp)" "\<not> rq_keep_session req"
    and "app_steps P predict backend app1 hs app2" "rq_handshake_id req \<notin> set hs" "rq_handshake_id req' = rq_handshake_id req"
  shows "secure_predict P predict r' clk' dbg' req' app2 =
      (app2, Inl (HTTPException (case decode_request req' of Inl _ \<Rightarrow> 400 | Inr _ \<Rightarrow> 404))) \<and>
    secure_predict_stream P backend rs sps sp req' app2 =
      (app2, Inl (HTTPException (case decode_request req' of Inl _ \<Rightarrow> 400 | Inr _ \<Rightarrow> 404)))"
proof -
  have "cleared app2 (rq_handshake_id req')"
    using cleared_steps [OF assms(3,4) answered_predict_clears [OF assms(1,2)]] assms(5) by simp
  then show ?thesis
    by (simp add: cleared_predict cleared_stream)
qed

lemma answered_request_exists:
  assumes "prims_ok P" "session_open P predict backend cfg resp app"
    and "json_loads P (json_dumps P body) = Some body" "run_model predict body = Inr (result, ms)"
  shows "\<exists>req r clk app1 rp. secure_predict P predict r clk None req app = (app1, Inr rp) \<and> \<not> rq_keep_session req \<and>
    rq_handshake_id req = hr_handshake_id resp"
proof -
  fix r :: rng and clk :: predict_clock and sp :: span
  obtain b where b: "srv_holds P (ap_crypto app) b" "issued_for (handshake_json resp) b"
    using session_openE [OF assms(1,2)] .
  obtain e where e: "cl_establish P r sp (server_client (ap_crypto app)) (hb_kex_public_key b) = Inr e" "gcm_key_ok P (er_session_key e)"
    using srv_agree [OF assms(1) b(1), of r sp sp] by blast
  obtain a where a: "aead_encrypt P (r 2) (er_session_key e) (json_dumps P body) None = Inr a"
    using e(2) by (simp add: aead_encrypt_eq_Inr)
  define net where "net = \<lparr> tn_get_handshake = Inl RuntimeError, tn_get_identity = Inl RuntimeError,
      tn_predict = predict_over P predict r clk app \<rparr>"
  have tn: "tn_predict net = predict_over P predict r clk app" by (simp add: net_def)
  obtain rj where rj: "post_predict net (hb_handshake_id b) (er_kex_blob e) a = Inr rj"
    by (rule post_predict_honest [OF assms(1) b(1) refl tn e(1) a assms(3,4)])
  let ?req = "\<lparr> rq_handshake_id = hb_handshake_id b, rq_kex_blob = b64e (er_kex_blob e),
      rq_nonce = b64e (ar_nonce a), rq_ciphertext = b64e (ar_ciphertext a), rq_keep_session = False \<rparr>"
  have "snd (secure_predict P predict r clk None ?req app) = Inr rj"
    using rj by (auto simp: post_predict_def tn predict_over_def raise_for_status_def split: sum.splits exn.splits if_splits)
  then have "secure_predict P predict r clk None ?req app = (fst (secure_predict P predict r clk None ?req app), Inr rj)"
    by (metis prod.collapse)
  moreover have "hb_handshake_id b = hr_handshake_id resp"
    using b(2) by (simp add: issued_for_def)
  ultimately show ?thesis
    by (intro exI [of _ ?req] exI conjI) simp_all
qed

lemma answered_request_not_replayable_witness:
  "\<exists>req r clk app app1 rp. secure_predict (codec_prims wit_forged) wit_model r clk None req app = (app1, Inr rp) \<and>
    secure_predict (codec_prims wit_forged) wit_model r clk None req app1 =
      (app1, Inl (HTTPException (case decode_request req of Inl _ \<Rightarrow> 400 | Inr _ \<Rightarrow> 404)))"
proof -
  obtain resp app where so: "session_open (codec_prims wit_forged) wit_model (\<lambda>_ _. []) ''hybrid'' resp app"
    by (rule session_open_exists [OF codec_prims_ok, of "''hybrid''"]) (simp add: CONFIG_NAMES_def CONFIGS_def)
  have m: "run_model wit_model wit_forged = Inr (wit_forged, 1)"
    by (simp add: run_model_def wit_model_def json_pop_def wit_forged_def)
  obtain req r clk app1 rp where q: "secure_predict (codec_prims wit_forged) wit_model r clk None req app = (app1, Inr rp)"
      "\<not> rq_keep_session req"
    using answered_request_exists [OF codec_prims_ok so codec_prims_json m] by blast
  have "secure_predict (codec_prims wit_forged) wit_model r clk None req app1 =
      (app1, Inl (HTTPException (case decode_request req of Inl _ \<Rightarrow> 400 | Inr _ \<Rightarrow> 404)))"
    using answered_request_not_replayable [OF q app_refl, where backend = "\<lambda>_ _. []" and req' = req] by simp
  with q show ?thesis by blast
qed

text \<open>C12
  Sessions do not interfere: requests and handshakes under other ids leave a session's kept key,
  its private material and its liveness as they are, and never change the configuration or the
  identity key.
\<close>

theorem other_sessions_do_not_interfere:
  assumes "app_steps P predict backend app hs app'" "hid \<notin> set hs"
  shows "ap_session_keys app' hid = ap_session_keys app hid \<and>
    (srv_live (ap_crypto app') hid \<longleftrightarrow> srv_live (ap_crypto app) hid) \<and>
    (\<forall>b. srv_holds P (ap_crypto app) b \<and> hb_handshake_id b = hid \<longrightarrow> srv_holds P (ap_crypto app') b) \<and>
    server_client (ap_crypto app') = server_client (ap_crypto app) \<and> ap_identity app' = ap_identity app"
  using app_steps_keys [OF assms] app_steps_keeps [OF assms(1)] assms(2) app_steps_identity [OF assms(1)] by blast

lemma other_sessions_do_not_interfere_witness:
  "\<exists>resp app app'. session_open toy_prims (\<lambda>_. Inl ValueError) (\<lambda>_ _. []) ''hybrid_kex'' resp app \<and>
    app_steps toy_prims (\<lambda>_. Inl ValueError) (\<lambda>_ _. []) app [''other''] app' \<and> hr_handshake_id resp = ''s'' \<and>
    (srv_live (ap_crypto app') ''s'' \<longleftrightarrow> srv_live (ap_crypto app) ''s'') \<and> ap_session_keys app' ''s'' = ap_session_keys app ''s''"
proof -
  obtain resp app where so: "session_open toy_prims (\<lambda>_. Inl ValueError) (\<lambda>_ _. []) ''hybrid_kex'' resp app" "hr_handshake_id resp = ''s''"
    by (rule session_open_exists_id [OF toy_prims_ok, of "''hybrid_kex''"]) (simp add: CONFIG_NAMES_def CONFIGS_def)
  fix r :: rng
  obtain app' rp where h: "handshake toy_prims ''other'' r wit_span wit_span app = (app', rp)"
    by (cases "handshake toy_prims ''other'' r wit_span wit_span app")
  have st: "app_steps toy_prims (\<lambda>_. Inl ValueError) (\<lambda>_ _. []) app [''other''] app'"
    by (rule app_more [OF app_handshake [OF h] app_refl])
  show ?thesis
    using other_sessions_do_not_interfere [OF st, of "''s''"] so st by fastforce
qed

end
