(* ===== verification/WireProperties.thy ===== *)
theory WireProperties
  imports PredictTransaction StreamMitm CampaignDetection ToyCampaign
begin

text \<open>
  Properties of the encodings and of the primitives' wrappers: what travels on the wire is read
  back as it was, signed messages of different kinds and positions never coincide, and the
  summaries of the experiments count consistently.
\<close>

section \<open>Encodings\<close>

text \<open>
  Every byte string survives the wire: decoding the base64 text the application sends gives the
  bytes back, and different bytes have different texts.
\<close>

lemma wire_bytes_round_trip: "b64d (b64e bs) = Inr bs \<and> (b64e bs = b64e bs' \<longleftrightarrow> bs = bs')"
  by (simp add: b64e_eq_iff)

text \<open>
  The chunk index is encoded in four bytes without wrapping: indices of the range round-trip and
  are told apart, everything else is an overflow error instead of a truncated index.
\<close>

lemma index_encoding_exact:
  "index_bytes i = (if 0 \<le> i \<and> i < 4294967296 then Inr (be32 (nat i)) else Inl OverflowError) \<and>
   (if 0 \<le> i \<and> i < 4294967296 then from_be32 (be32 (nat i)) = nat i else True)"
proof -
  have "from_be32 (be32 (nat i)) = nat i" if "0 \<le> i \<and> i < 4294967296"
    by (rule from_be32_be32) (use that in \<open>simp add: nat_less_iff\<close>)
  then show ?thesis
    by (simp add: index_bytes_def)
qed

text \<open>
  A chunk's signed message determines the session, the position and the envelope, and is never the
  message of another kind: the final record, a checkpoint, the end of a chain or a buffered
  response.
\<close>

lemma chunk_message_binds:
  assumes "chunk_message ctx i n c = Inr m" "length ctx = 32"
  shows "buffered_message ctx' n' c' \<noteq> m \<and> end_message ctx' j \<noteq> Inr m \<and> checkpoint_message ctx' j h \<noteq> Inr m \<and>
    final_chain_message ctx' j h \<noteq> Inr m \<and>
    (if chunk_message ctx' j n' c' = Inr m \<and> length ctx' = 32 \<and> length n' = length n
     then ctx' = ctx \<and> j = i \<and> n' = n \<and> c' = c else True)"
proof -
  have inj: "ctx' = ctx \<and> j = i \<and> n' = n \<and> c' = c"
    if "chunk_message ctx' j n' c' = Inr m" "length ctx' = 32" "length n' = length n"
  proof -
    have j: "ctx' = ctx \<and> j = i \<and> n' @ c' = n @ c"
      by (rule chunk_message_inj [OF that(1) assms(1) that(2) assms(2)])
    then have "n' = n \<and> c' = c"
      using that(3) append_eq_append_conv [of n' n c' c] by blast
    with j show ?thesis by simp
  qed
  obtain x where m: "m = encode ''CHK'' @ x"
    using assms(1) unfolding chunk_message_def bind_res_eq_Inr by blast
  have buf: "buffered_message ctx' n' c' \<noteq> m"
    unfolding buffered_message_def m by (rule labels_distinct(1))
  have e: "end_message ctx' j \<noteq> Inr m"
  proof
    assume "end_message ctx' j = Inr m"
    then obtain y where "m = encode ''END'' @ y" unfolding end_message_def bind_res_eq_Inr by blast
    then show False using labels_distinct(5) unfolding m by blast
  qed
  have k: "checkpoint_message ctx' j h \<noteq> Inr m"
  proof
    assume "checkpoint_message ctx' j h = Inr m"
    then obtain y where "m = encode ''CKP'' @ y" unfolding checkpoint_message_def bind_res_eq_Inr by blast
    then show False using labels_distinct(6) unfolding m by blast
  qed
  have f: "final_chain_message ctx' j h \<noteq> Inr m"
  proof
    assume "final_chain_message ctx' j h = Inr m"
    then obtain y where "m = encode ''FIN'' @ y" unfolding final_chain_message_def bind_res_eq_Inr by blast
    then show False using labels_distinct(7) unfolding m by blast
  qed
  show ?thesis
    using inj by (intro conjI buf e k f) simp
qed

text \<open>C14
  The signed transcript binds the handshake: unless SHA-256 collides on the two inputs, equal
  transcripts come from the same handshake id, algorithms and public keys.
\<close>

theorem transcript_binds_handshake:
  assumes "transcript P h ka sa kp sp = Inr d" "transcript P h' ka' sa' kp' sp' = Inr d"
    and "inj_on (sha256 P) {transcript_input h ka sa kp sp, transcript_input h' ka' sa' kp' sp'}"
  shows "h = h' \<and> ka = ka' \<and> sa = sa' \<and> kp = kp' \<and> sp = sp'"
  by (rule transcript_binds [OF assms])

lemma transcript_binds_handshake_witness:
  "\<exists>d. transcript toy_prims ''h'' ''k'' ''s'' [1] [2] = Inr d \<and>
     ''h'' = ''h'' \<and> ''k'' = ''k'' \<and> ''s'' = ''s'' \<and> [1 :: byte] = [1] \<and> [2 :: byte] = [2]"
proof -
  obtain d where d: "transcript toy_prims ''h'' ''k'' ''s'' [1] [2] = Inr d"
    by (simp add: transcript_def hs_field_def del: bind_res_eq_Inr)
  have inj: "inj_on (sha256 toy_prims) {transcript_input ''h'' ''k'' ''s'' [1] [2], transcript_input ''h'' ''k'' ''s'' [1] [2]}"
    by simp
  from transcript_binds_handshake [OF d d inj] d show ?thesis by blast
qed

section \<open>Primitives\<close>

text \<open>
  The ML-KEM-768 wrapper round-trips with its C buffers at the sizes of FIPS 203: what a key pair's
  public key encapsulates, its secret key decapsulates to the same 32 bytes.
\<close>

lemma kem_wrapper_round_trip:
  assumes "kem_ok P" "MLKEM768_keypair P t = Inr kp"
  shows "\<exists>ct ss. MLKEM768_encaps P t' (kp_public_key kp) = Inr (ct, ss) \<and> MLKEM768_decaps P ct (kp_secret_key kp) = Inr ss \<and>
    length ct = 1088 \<and> length ss = 32"
  using MLKEM768_agree [OF assms, of t'] by blast

text \<open>
  A known-answer run that leaves the fixed-randomness block without error consumed the vector
  exactly: what the C library was handed, over all its requests, is the vector's bytes.
\<close>

lemma fixed_randomness_consumed:
  assumes "fr_run ns (fr_init data) = (out, st)" "fr_exit True st = Inr ()"
  shows "concat out = data \<and> sum_list ns = length data"
proof -
  have "concat out = data" by (rule fr_exact [OF assms])
  moreover have "map length out = ns" using fr_run_spec [OF assms(1)] by simp
  ultimately show ?thesis by (metis length_concat)
qed

text \<open>
  The start-up self-test cannot pass with a library that computes different shared secrets, rejects
  its own signatures or accepts a tampered message: a report means all three checks held.
\<close>

lemma self_test_sound:
  assumes "verify_algorithms P r = Inr rep"
  shows "\<exists>kp ct ss skp sg. MLKEM768_keypair P (r 0) = Inr kp \<and> MLKEM768_encaps P (r 1) (kp_public_key kp) = Inr (ct, ss) \<and>
    MLKEM768_decaps P ct (kp_secret_key kp) = Inr ss \<and> MLDSA65_keypair P (r 2) = Inr skp \<and>
    MLDSA65_verify P (encode ''pq-shield self-test'') sg (sp_public_key skp) = Inr True \<and>
    MLDSA65_verify P (encode ''tampered message'') sg (sp_public_key skp) = Inr False"
  using assms by (fastforce simp: verify_algorithms_def Let_def split: prod.splits if_splits)

section \<open>Chunks and counts\<close>

text \<open>C15
  The streaming generator, which buffers tokens and flushes full buffers while it runs, emits
  exactly what the strategy emits on the tokens regrouped beforehand, the incomplete last group
  included, and counts the groups: ceil(tokens / chunk size) of them.
\<close>

theorem generator_equals_regrouping:
  assumes "0 < k"
  shows "event_generator P rs sps srv k ts \<lparr> gn_strategy = st, gn_index = 0, gn_buffer = [] \<rparr> =
      map_sum id (\<lambda>rows. (rows, (length ts + k - 1) div k)) (run_chunks P rs sps srv st (groups k [] ts) 0) \<and>
    concat (groups k [] ts) = encode (concat ts)"
  using groups_length [OF assms, of "[]" ts] assms by (simp add: event_generator_groups groups_concat)

lemma generator_equals_regrouping_witness:
  "\<forall>P rs sps srv st. event_generator P rs sps srv 2 [''a'', ''b'', ''c''] \<lparr> gn_strategy = st, gn_index = 0, gn_buffer = [] \<rparr> =
      map_sum id (\<lambda>rows. (rows, 2)) (run_chunks P rs sps srv st (groups 2 [] [''a'', ''b'', ''c'']) 0)"
proof (intro allI)
  fix P rs sps srv st
  have n: "(length [''a'', ''b'', ''c''] + 2 - 1) div 2 = (2 :: nat)" "0 < (2 :: nat)" by simp_all
  show "event_generator P rs sps srv 2 [''a'', ''b'', ''c''] \<lparr> gn_strategy = st, gn_index = 0, gn_buffer = [] \<rparr> =
      map_sum id (\<lambda>rows. (rows, 2)) (run_chunks P rs sps srv st (groups 2 [] [''a'', ''b'', ''c'']) 0)"
    by (rule generator_equals_regrouping [OF n(2), of P rs sps srv "[''a'', ''b'', ''c'']" st, THEN conjunct1, unfolded n(1)])
qed

definition rates_ok :: "mitm_summary \<Rightarrow> bool" where
  "rates_ok s \<longleftrightarrow>
     (case su_detection_rate s of
        None \<Rightarrow> su_n_valid_trials s = 0
      | Some d \<Rightarrow> 0 \<le> d \<and> d \<le> 1 \<and> (case su_mid_stream_detection_rate s of None \<Rightarrow> False | Some m \<Rightarrow> m \<le> d))"

lemma summarize_rates_ok:
  assumes "\<forall>r \<in> set rows. row_ok r"
  shows "rates_ok (summarize rows c s a)"
proof -
  have none: "(su_detection_rate (summarize rows c s a) = None) = (su_n_valid_trials (summarize rows c s a) = 0)"
    "(su_mid_stream_detection_rate (summarize rows c s a) = None) = (su_n_valid_trials (summarize rows c s a) = 0)"
    by (simp_all add: summarize_def Let_def ratio_or_none_def)
  show ?thesis
    using none summarize_rates [OF assms, of c s a] by (auto simp: rates_ok_def split: option.splits)
qed

text \<open>
  The summaries of the streaming man-in-the-middle experiment are consistent whatever the server and
  the captures do: there is a detection rate exactly when there was a valid trial, it lies between 0
  and 1, and it is never below the rate of detections before the end of the stream.
\<close>

lemma mitm_rates_consistent:
  "list_all rates_ok (snd (run_experiment P sps captures configs strategies attacks trials k))"
  by (auto simp: run_experiment_def Let_def list_all_iff intro!: summarize_rates_ok combo_rows_ok [THEN bspec])

text \<open>
  The counts of a campaign cell stay consistent through every outcome of a trial: at most as many
  trials as asked for, at most as many detections as trials, mid-stream detections among the
  detections, and one exposure value per detection.
\<close>

lemma campaign_counts_consistent:
  assumes "trial_loop P sps draws pool attack strategy k trials tries tally0 = Inr ta"
  shows "ta_n ta \<le> trials \<and> ta_det ta \<le> ta_n ta \<and> ta_mid ta \<le> ta_det ta \<and> length (ta_exposures ta) = ta_det ta"
proof -
  have "tally_ok attack trials tally0" by (simp add: tally_ok_def tally0_def)
  from trial_loop_ok [OF this assms] show ?thesis by (simp add: tally_ok_def)
qed

end
