(* ===== verification/BenchProperties.thy ===== *)
theory BenchProperties
  imports StreamingRunner Tradeoff ToySessions
begin

text \<open>
  Properties of the measurement side: the load generator, the orchestrator, the network emulator,
  the streaming sweep and the analysis of their rows.
\<close>

section \<open>The load generator\<close>

text \<open>C13
  A cell of the sweep sends every request exactly once. Whatever the interleaving of the workers,
  at most three steps per request and one per worker are taken; while a worker is still in its
  loop some worker can move; and once all have left, the rows hold each request index exactly once
  and every permit of the semaphore is back.
\<close>

theorem sweep_cell_complete:
  assumes "cell_steps env (cell_init concurrency) m c" "0 < concurrency"
    and "is_control (en_config_name env) \<or> en_config_name env \<in> set CONFIG_NAMES"
  shows "m \<le> 3 * en_n_requests env + concurrency \<and>
    (if all_left c then mset (map row_index (cl_results c)) = mset [0..<en_n_requests env] \<and> cl_permits c = concurrency
     else \<exists>w c'. step_worker env w c = Some c')"
proof -
  note inv = cell_steps_inv [OF assms(1,3)]
  show ?thesis
    using inv cell_complete [of env concurrency c] cell_progress [of env concurrency c] assms(2) by auto
qed

definition wit_control_net :: control_net where
  "wit_control_net = \<lparr> cn_get_handshake = Inl RuntimeError, cn_predict = (\<lambda>_. Inl RuntimeError) \<rparr>"

definition wit_txn_net :: txn_net where
  "wit_txn_net = \<lparr> tn_get_handshake = Inl RuntimeError, tn_get_identity = Inl RuntimeError, tn_predict = (\<lambda>_ _. Inl RuntimeError) \<rparr>"

definition wit_cell_env :: "txn_clock \<Rightarrow> cell_env" where
  "wit_cell_env clk = \<lparr> en_prims = toy_prims, en_config_name = ''control'', en_requests_per_handshake = 1, en_cached_handshake = None,
     en_pinned = None, en_rng = (\<lambda>_ _ _. 0), en_clock = (\<lambda>_. clk), en_net = (\<lambda>_. wit_txn_net),
     en_control_net = (\<lambda>_. wit_control_net), en_body = (\<lambda>_. JNull),
     en_tags = \<lparr> tg_run_id = ''r'', tg_config_name = ''control'', tg_payload_profile = ''p'', tg_concurrency = 1, tg_repetition = 1 \<rparr>,
     en_n_requests = 1 \<rparr>"

lemma wit_cell_run: "\<exists>c. cell_steps (wit_cell_env clk) (cell_init 1) 4 c \<and> all_left c"
proof -
  let ?env = "wit_cell_env clk"
  obtain row where row: "send_one ?env 0 None = Inr (row, None)"
    by (simp add: send_one_def wit_cell_env_def is_control_def)
  define c where "c n p ph rs = \<lparr> cl_counter = n, cl_permits = p, cl_workers = [\<lparr> wk_phase = ph, wk_session = None \<rparr>], cl_results = rs \<rparr>"
    for n p ph rs
  have n: "en_n_requests ?env = 1" by (simp add: wit_cell_env_def)
  have init: "cell_init 1 = c 0 1 AtLoop []" by (simp add: cell_init_def c_def)
  have st: "step_worker ?env 0 (c 0 1 AtLoop []) = Some (c 1 1 (Waiting 0) [])"
      "step_worker ?env 0 (c 1 1 (Waiting 0) []) = Some (c 1 0 (Sending 0) [])"
      "step_worker ?env 0 (c 1 0 (Sending 0) []) = Some (c 1 1 AtLoop [row])"
      "step_worker ?env 0 (c 1 1 AtLoop [row]) = Some (c 1 1 Left [row])"
    by (simp_all add: step_worker_def put_worker_def c_def n row)
  have "cell_steps ?env (cell_init 1) (Suc (Suc (Suc (Suc 0)))) (c 1 1 Left [row])"
    unfolding init by (rule one_step [OF one_step [OF one_step [OF one_step [OF no_step st(1)] st(2)] st(3)] st(4)])
  moreover have "all_left (c 1 1 Left [row])"
    by (simp add: all_left_def c_def)
  ultimately show ?thesis
    by (auto simp: eval_nat_numeral)
qed

lemma sweep_cell_complete_witness:
  "\<exists>env c. cell_steps env (cell_init 1) 4 c \<and> all_left c \<and> mset (map row_index (cl_results c)) = {#0#} \<and> cl_permits c = 1"
proof -
  fix clk :: txn_clock
  obtain c where c: "cell_steps (wit_cell_env clk) (cell_init 1) 4 c" "all_left c"
    using wit_cell_run by blast
  have "mset (map row_index (cl_results c)) = {#0#} \<and> cl_permits c = 1"
    using sweep_cell_complete [OF c(1)] c(2) by (simp add: wit_cell_env_def is_control_def)
  with c show ?thesis
    by (intro exI [of _ "wit_cell_env clk"] exI [of _ c]) simp
qed

text \<open>C20
  The CSV a cell writes has the header of \<^verbatim>\<open>CSV_FIELDS\<close> and one line per row, with the values in
  the order of the header: \<^verbatim>\<open>_flatten\<close> produces exactly the columns of the file, for both kinds of
  transaction.
\<close>

theorem csv_has_every_column:
  "write_csv (map (\<lambda>(row, idx). flatten row rph auth tags idx) rows) =
     Inr (CSV_FIELDS, map (\<lambda>(row, idx). map snd (flatten row rph auth tags idx)) rows)"
proof -
  let ?rows = "map (\<lambda>(row, idx). flatten row rph auth tags idx) rows"
  have "\<forall>row \<in> set ?rows. map fst row = CSV_FIELDS"
    by (auto simp: flatten_fields)
  then have "write_csv ?rows = Inr (CSV_FIELDS, map (map snd) ?rows)"
    by (rule write_csv_flat)
  then show ?thesis
    by (simp add: comp_def case_prod_beta)
qed

section \<open>The orchestrator\<close>


text \<open>
  No cell of a sweep overwrites the file of another: with distinct configurations and distinct
  concurrency levels all the CSV paths written are different.
\<close>

lemma sweep_files_distinct:
  assumes "distinct configs" "distinct levels"
  shows "distinct (csv_paths (fst (run_full_sweep env sw raw_dir summary_dir configs levels repetitions rpc mn)))"
  by (rule sweep_paths [OF assms])

text \<open>
  Waiting for a server succeeds exactly when some poll answers 200 and no loop test up to it was
  at or after the deadline.
\<close>

lemma wait_healthy_exact:
  "wait_healthy deadline polls = Inr () \<longleftrightarrow>
     (\<exists>k < length polls. snd (polls ! k) = Inr 200 \<and> list_all (\<lambda>p. fst p < deadline) (take (Suc k) polls))"
proof -
  have "(\<forall>j \<le> k. fst (polls ! j) < deadline) = list_all (\<lambda>p. fst p < deadline) (take (Suc k) polls)" if "k < length polls" for k
    using that by (auto simp: list_all_length less_Suc_eq_le min_def)
  then show ?thesis
    unfolding wait_healthy_spec by blast
qed

section \<open>The network emulator\<close>

text \<open>C18
  The emulated link is a FIFO bottleneck: releases never overtake each other, and after any
  sequence of sends the link is busy until the latest end of a busy period, as the reference
  \<^verbatim>\<open>busy_until\<close> computes it from all possible starts of that period.
\<close>

theorem link_is_fifo_bottleneck:
  "case link_run sends lk of (ts, lk') \<Rightarrow>
     length ts = length sends \<and> sorted ts \<and> lk_tx_free lk' = busy_until (lk_bw lk) (lk_tx_free lk) sends"
proof (cases "link_run sends lk")
  case (Pair ts lk')
  then show ?thesis using link_run_sorted [OF Pair] link_run_busy [OF Pair] by simp
qed

text \<open>
  The two directions of the proxy are independent and shared by all connections: after any
  interleaving of transfers each link is where its own transfers alone would have put it.
\<close>

lemma proxy_directions_independent:
  "snd (proxy_run evs px) = \<lparr> px_uplink = snd (link_run (up_of evs) (px_uplink px)), px_downlink = snd (link_run (down_of evs) (px_downlink px)) \<rparr>"
proof -
  obtain ts px' where r: "proxy_run evs px = (ts, px')" by (cases "proxy_run evs px")
  show ?thesis
    using proxy_run_links [OF r] by (simp add: r)
qed

section \<open>The streaming sweep\<close>

text \<open>C17
  A configuration of the streaming sweep that ends without an exception has measured every
  combination in every repetition, once, whatever order the shuffle chose: the rows are, as a
  multiset, those of the unshuffled product, there are as many as the sizes of the parameter lists
  say (checkpoint intervals multiply only the hash_chain strategy), and every row has the columns
  of the CSV file.
\<close>

theorem streaming_sweep_complete:
  assumes "stream_config env shuffle out warmups strategies ms cs intervals reps c = (evs, rows, Inr ())"
    and "mset (shuffle c (sweep_combos strategies ms cs (or_plain intervals))) = mset (sweep_combos strategies ms cs (or_plain intervals))"
  shows "mset rows = mset (map (measured env c) (List.product (sweep_combos strategies ms cs (or_plain intervals)) [1..<reps + 1])) \<and>
    length rows = length ms * length cs * sum_list (map (\<lambda>s. if s = ''hash_chain'' then length (or_plain intervals) else 1) strategies) * reps \<and>
    list_all (\<lambda>row. map fst row = STREAM_CSV_FIELDS) rows"
proof -
  note ok = stream_config_complete [OF assms]
  have "length rows = length (sweep_combos strategies ms cs (or_plain intervals)) * reps"
    using arg_cong [OF ok(1), of size] by (simp add: length_product)
  then show ?thesis
    using ok by (simp add: sweep_combos_length list_all_iff)
qed

definition wit_stream_env :: stream_env where
  "wit_stream_env = \<lparr> se_prims = toy_prims, se_rng = (\<lambda>_ _ _ _. 0), se_span = wit_span,
     se_net = (\<lambda>_ _ _. \<lparr> nt_handshake = Inl RuntimeError, nt_stream = (\<lambda>_. Inl RuntimeError) \<rparr>), se_times = (\<lambda>_ _. (0, 1)),
     se_polls = (\<lambda>_. [(0, Inl RuntimeError), (1, Inr 200)]), se_deadline = 5, se_run_id = ''r'', se_backend = ''synthetic'' \<rparr>"

lemma wit_run_one: "\<exists>row. run_one wit_stream_env ''hybrid'' combo n be = Inr row \<and> row_error_of row"
proof -
  obtain cl where cl: "get_client_crypto ''hybrid'' = Inr cl"
    using get_crypto_total [of "''hybrid''"] by (auto simp: CONFIG_NAMES_def CONFIGS_def)
  show ?thesis
    by (cases combo) (simp add: run_one_def CONFIG_TO_CRYPTO_NAME_def run_streaming_transaction_def cl wit_stream_env_def Let_def
        stream_csv_row_def row_error_of_def opt_value_def)
qed

lemma in_sequence_all_ok: "(\<And>x. x \<in> set xs \<Longrightarrow> snd (snd x) = Inr ()) \<Longrightarrow> snd (snd (in_sequence xs)) = Inr ()"
proof (induction xs)
  case (Cons x xs)
  obtain evs sm r where x: "x = (evs, sm, r)" by (cases x)
  have "r = Inr ()" "snd (snd (in_sequence xs)) = Inr ()"
    using Cons.prems [of x] Cons.IH Cons.prems x by simp_all
  then show ?case by (cases "in_sequence xs") (simp add: x)
qed simp

lemma wit_stream_config:
  "\<exists>evs rows. stream_config wit_stream_env (\<lambda>_. rev) ''out'' 1 [''per_chunk'', ''hash_chain''] [50, 200] [5] (Some [None, Some 2]) 3 ''hybrid''
     = (evs, rows, Inr ())"
proof -
  let ?combos = "rev (sweep_combos [''per_chunk'', ''hash_chain''] [50, 200] [5] [None, Some 2])"
  let ?xs = "replicate 1 (warmup_one wit_stream_env ''hybrid'' [''per_chunk'', ''hash_chain''] [50, 200] [5])
      @ map (measure_one wit_stream_env ''hybrid'') (List.product ?combos [1..<3 + 1])"
  have w: "snd (snd (warmup_one wit_stream_env ''hybrid'' [''per_chunk'', ''hash_chain''] [50, 200] [5])) = Inr ()"
    using wit_run_one [of "(''per_chunk'', 50, 5, None)" 0 "[]"] by (auto simp: warmup_one_def)
  have m: "snd (snd (measure_one wit_stream_env ''hybrid'' (combo, n))) = Inr ()" for combo n
    using wit_run_one [of combo n "se_backend wit_stream_env"] by (auto simp: measure_one_def)
  have "snd (snd (in_sequence ?xs)) = Inr ()"
    by (rule in_sequence_all_ok) (use w m in auto)
  then obtain evs rows where r: "in_sequence ?xs = (evs, rows, Inr ())"
    by (metis prod.collapse)
  have h: "wait_healthy (se_deadline wit_stream_env) (se_polls wit_stream_env ''hybrid'') = Inr ()"
    by (simp add: wit_stream_env_def)
  show ?thesis
    by (simp only: stream_config_def Let_def or_plain_def h r list.simps option.case sum.case prod.case if_False)
       (simp add: SERVER_MODULES_def r [simplified])
qed

lemma streaming_sweep_complete_witness:
  "\<exists>evs rows. stream_config wit_stream_env (\<lambda>_. rev) ''out'' 1 [''per_chunk'', ''hash_chain''] [50, 200] [5] (Some [None, Some 2]) 3 ''hybrid''
     = (evs, rows, Inr ()) \<and> length rows = 18"
proof -
  obtain evs rows where r: "stream_config wit_stream_env (\<lambda>_. rev) ''out'' 1 [''per_chunk'', ''hash_chain''] [50, 200] [5] (Some [None, Some 2]) 3 ''hybrid''
     = (evs, rows, Inr ())"
    using wit_stream_config by blast
  have "length rows = 18"
    using streaming_sweep_complete [OF r] by (simp add: or_plain_def)
  with r show ?thesis by blast
qed

section \<open>The analysis of the rows\<close>

text \<open>C19
  Warm-up trimming is exact per cell: of each (run, configuration, concurrency, repetition) the
  rows that stay are those in request order without the first \<^verbatim>\<open>int(n * fraction)\<close>, and nothing is
  removed from a cell of fewer than 20 rows. With a negative fraction the slice of dropped rows ends that
  many rows before the end of the cell, so only the last rows stay.
\<close>

theorem warmup_trims_each_cell:
  "filter (\<lambda>r. cell_key df r = c) (fr_rows (discard_warmup df f)) =
     (let g = sort_key me_request_index (filter (\<lambda>r. cell_key df r = c) (fr_rows df));
          k = PyValues.truncate (of_nat (length g) * f) in
      if length g < 20 then g else if 0 \<le> k then drop (nat k) g else drop (length g - nat (- k)) g)"
  by (simp add: discard_warmup_cell Let_def warmup_cutoff_def slice_length_def min_def)

text \<open>
  Every attempted cell has exactly one summary row, also when all of its requests failed.
\<close>

lemma every_cell_summarized:
  "set (map (\<lambda>r. (sr_config r, sr_concurrency r)) (summarize_frame sqrt_f df)) = (\<lambda>r. (me_config r, me_concurrency r)) ` set (fr_rows df) \<and>
   distinct (map (\<lambda>r. (sr_config r, sr_concurrency r)) (summarize_frame sqrt_f df)) \<and>
   list_all (\<lambda>r. 0 < sr_n_attempted r \<and> sr_n_requests r + sr_n_errors r = sr_n_attempted r \<and> 0 \<le> sr_error_rate r \<and> sr_error_rate r \<le> 1)
     (summarize_frame sqrt_f df)"
proof -
  let ?s = "summarize_frame sqrt_f df"
  have "card (set (map (\<lambda>r. (sr_config r, sr_concurrency r)) ?s)) = length (map (\<lambda>r. (sr_config r, sr_concurrency r)) ?s)"
    unfolding summarize_cells(1) length_map summarize_cells(2) ..
  then show ?thesis
    using summarize_counts [of _ sqrt_f df] summarize_cells(1) [of sqrt_f df] by (simp add: card_distinct list_all_iff)
qed

text \<open>
  The percentiles of a summary are ordered and in range: for a non-empty sample the p-th percentile
  grows with p, the 0th is the minimum, the 50th the median and the 100th the maximum.
\<close>

lemma percentiles_ordered:
  assumes "xs \<noteq> []" "0 \<le> p" "p \<le> q" "q \<le> 100"
  shows "Min (set xs) \<le> percentile xs p \<and> percentile xs p \<le> percentile xs q \<and> percentile xs q \<le> Max (set xs) \<and> median xs = percentile xs 50"
proof -
  have "percentile xs 0 \<le> percentile xs p" "percentile xs q \<le> percentile xs 100"
    using assms by (simp_all add: percentile_mono)
  then show ?thesis
    using percentile_ends [OF assms(1)] percentile_mono [OF assms] median_percentile [OF assms(1)] by simp
qed

text \<open>
  The streaming security score stays on the scale of the categorical one: whenever it is defined,
  from measured fractions between 0 and 1 and a share between 0 and 1, it lies between 0 and 1.
\<close>

lemma streaming_score_in_range:
  assumes "list_all (\<lambda>s. case mi_fraction_mean s of None \<Rightarrow> True | Some f \<Rightarrow> 0 \<le> f \<and> f \<le> 1) summaries"
    and "0 \<le> share" "share \<le> 1" "streaming_security_score config strategy summaries share = Some score"
  shows "0 \<le> score \<and> score \<le> 1"
  by (rule streaming_score_range [OF _ assms(2-4)]) (use assms(1) in \<open>auto simp: list_all_iff split: option.splits\<close>)

text \<open>
  In the trade-off matrix a scored configuration that was attempted at a scale where the baseline
  succeeded has a row there, marked available exactly when it has a successful request.
\<close>

lemma matrix_keeps_attempted:
  assumes "r \<in> set rows" "(me_config r, s) \<in> set (scored_configs SECURITY_SCORES rows)"
    and "q \<in> set rows" "\<not> is_err q" "me_config q = resolve_baseline_config (map me_config (filter (\<lambda>r. \<not> is_err r) rows)) bl"
    and "me_concurrency q = me_concurrency r"
  shows "\<exists>row. row \<in> set (build_matrix_at rows w_sec w_perf bl me_concurrency ''total_ms'' None) \<and> mx_config row = me_config r \<and>
    mx_scale row = me_concurrency r \<and>
    (mx_available row \<longleftrightarrow> cell_rows me_concurrency (me_config r) (me_concurrency r) (filter (\<lambda>r. \<not> is_err r) rows) \<noteq> [])"
proof -
  let ?base = "resolve_baseline_config (map me_config (filter (\<lambda>r. \<not> is_err r) rows)) bl"
  have "q \<in> set (cell_rows me_concurrency ?base (me_concurrency r) (filter (\<lambda>r. \<not> is_err r) rows))"
    using assms(3-6) by (simp add: cell_rows_def)
  then obtain bv where bv: "median_metric me_concurrency ''total_ms'' (filter (\<lambda>r. \<not> is_err r) rows) ?base (me_concurrency r) = Some bv"
    by (cases "cell_rows me_concurrency ?base (me_concurrency r) (filter (\<lambda>r. \<not> is_err r) rows)") (simp_all add: median_metric_def Let_def)
  have "me_concurrency r \<in> me_concurrency ` set (filter (\<lambda>r. \<not> is_err r) rows)"
    using assms(3,4,6) by (auto intro!: image_eqI [of _ _ q])
  from matrix_cells [OF assms(1) _ this bv, of s None] assms(2) show ?thesis
    by auto
qed

definition wit_meas :: "string \<Rightarrow> string option \<Rightarrow> meas" where
  "wit_meas c err = \<lparr> me_run_id = ''r'', me_config = c, me_concurrency = 10, me_repetition = 1, me_request_index = 0, me_error = err,
     me_value = (\<lambda>_. Some 5) \<rparr>"

text \<open>
  A scale at which the baseline has no successful request has no row at all, whatever was attempted
  there.
\<close>

lemma matrix_drops_scale:
  assumes "cell_rows scale_of (resolve_baseline_config (map me_config (filter (\<lambda>r. \<not> is_err r) rows)) bl) scale_val (filter (\<lambda>r. \<not> is_err r) rows) = []"
    and "row \<in> set (build_matrix_at rows w_sec w_perf bl scale_of metric_col scs)"
  shows "mx_scale row \<noteq> scale_val"
proof
  assume "mx_scale row = scale_val"
  moreover
  let ?ok = "filter (\<lambda>r. \<not> is_err r) rows"
  let ?base = "resolve_baseline_config (map me_config ?ok) bl"
  let ?F = "\<lambda>v bv. concat (map (matrix_row_of rows w_sec w_perf ?base scale_of metric_col bv v)
      (scored_configs (case scs of None \<Rightarrow> SECURITY_SCORES | Some x \<Rightarrow> x) rows))"
  obtain v where "row \<in> set (case median_metric scale_of metric_col ?ok ?base v of None \<Rightarrow> [] | Some bv \<Rightarrow> ?F v bv)"
    using assms(2) unfolding build_matrix_at_def Let_def set_concat set_map by blast
  then obtain bv cs where v: "median_metric scale_of metric_col ?ok ?base v = Some bv"
      "row \<in> set (matrix_row_of rows w_sec w_perf ?base scale_of metric_col bv v cs)"
    by (cases "median_metric scale_of metric_col ?ok ?base v") (simp, simp, blast)
  moreover from v(2) have "mx_scale row = v"
    by (auto simp: matrix_row_of_def Let_def split: if_splits option.splits)
  ultimately show False
    using assms(1) by (simp add: median_metric_def)
qed

end
