(* ===== verification/StreamHarvest.thy ===== *)
theory StreamHarvest
  imports StreamTransaction SecureClient
begin

text \<open>
  \<^verbatim>\<open>threats/hndl_capture.py\<close> and \<^verbatim>\<open>threats/streaming_hndl_experiment.py\<close>: what a passive
  adversary who stores the wire has to keep, per request and per stream, and how much of it a
  broken key exchange would open. The observer reads the same lines as the streaming client and
  never decrypts.
\<close>

section \<open>What a quantum computer would open\<close>

definition KEX_DECRYPTABLE_UNDER_CRQC :: "(string \<times> bool) list" where
  "KEX_DECRYPTABLE_UNDER_CRQC = [(''classical'', True), (''classical_ecdhe'', True), (''hybrid'', False),
     (''hybrid_kex_pq'', False), (''hybrid_kex'', False), (''full_pqc'', False)]"

definition PAYLOAD_DECRYPTABLE_UNDER_CRQC :: bool where
  "PAYLOAD_DECRYPTABLE_UNDER_CRQC = False"

definition kex_decryptable :: "string \<Rightarrow> bool option" where
  "kex_decryptable config = map_of KEX_DECRYPTABLE_UNDER_CRQC config"

section \<open>One request at a time\<close>

text \<open>Python's \<^verbatim>\<open>x or y or 0\<close> on optional counts.\<close>

fun first_count :: "nat option list \<Rightarrow> nat" where
  "first_count [] = 0"
| "first_count (x # xs) = (case x of Some (Suc n) \<Rightarrow> Suc n | _ \<Rightarrow> first_count xs)"

record hndl_row =
  hn_request_id :: nat
  hn_config :: string
  hn_kex_algorithm :: "string option"
  hn_sig_algorithm :: "string option"
  hn_kex_blob_bytes :: nat
  hn_response_ciphertext_bytes :: nat
  hn_signature_bytes :: nat
  hn_total_bytes_stored :: nat
  hn_kex_decryptable :: "bool option"
  hn_payload_decryptable :: bool
  hn_error :: "txn_failure option"

definition hndl_row_of :: "string \<Rightarrow> nat \<Rightarrow> txn_row \<Rightarrow> hndl_row" where
  "hndl_row_of config_name i row =
     (let debug = tr_debug row;
          kex_bytes = first_count [map_option dm_kex_blob_bytes debug, tr_kex_blob_bytes row];
          payload_bytes = first_count [map_option dm_response_ciphertext_bytes debug];
          sig_bytes = first_count [map_option dm_signature_bytes debug, tr_signature_bytes row] in
      \<lparr> hn_request_id = i, hn_config = config_name, hn_kex_algorithm = map_option dm_kex_algorithm debug,
        hn_sig_algorithm = map_option dm_sig_algorithm debug, hn_kex_blob_bytes = kex_bytes,
        hn_response_ciphertext_bytes = payload_bytes, hn_signature_bytes = sig_bytes,
        hn_total_bytes_stored = kex_bytes + payload_bytes + sig_bytes, hn_kex_decryptable = kex_decryptable config_name,
        hn_payload_decryptable = PAYLOAD_DECRYPTABLE_UNDER_CRQC, hn_error = tr_error row \<rparr>)"

text \<open>The capture: request \<open>i\<close> is a transaction with its own randomness, clock and network.\<close>

definition hndl_capture ::
  "prims \<Rightarrow> (nat \<Rightarrow> rng) \<Rightarrow> (nat \<Rightarrow> txn_clock) \<Rightarrow> (nat \<Rightarrow> txn_net) \<Rightarrow> (nat \<Rightarrow> json) \<Rightarrow> string \<Rightarrow> nat \<Rightarrow> hndl_row list res" where
  "hndl_capture P rs clk nets body config_name n_requests =
     map_res (\<lambda>i. bind_res (secure_predict_transaction P (rs i) (clk i) (nets i) config_name (body i) True None None None)
        (\<lambda>(row, _). Inr (hndl_row_of config_name i row))) [0..<n_requests]"

record hndl_summary =
  hs_config :: string
  hs_n_requests :: nat
  hs_n_ok :: nat
  hs_total_bytes_stored :: nat
  hs_bytes_per_request_mean :: "rat option"
  hs_kex_bytes_per_request :: "nat option"
  hs_signature_bytes_per_request :: "nat option"
  hs_kex_decryptable :: "bool option"
  hs_projected_bytes_per_1000 :: "rat option"

definition hndl_summarize :: "hndl_row list \<Rightarrow> string \<Rightarrow> hndl_summary" where
  "hndl_summarize rows config_name =
     (let ok_rows = filter (\<lambda>r. hn_error r = None) rows;
          total_bytes = sum_list (map hn_total_bytes_stored ok_rows);
          n = length ok_rows in
      \<lparr> hs_config = config_name, hs_n_requests = length rows, hs_n_ok = n, hs_total_bytes_stored = total_bytes,
        hs_bytes_per_request_mean = (if n = 0 then None else Some (of_nat total_bytes / of_nat n)),
        hs_kex_bytes_per_request = (case ok_rows of [] \<Rightarrow> None | r # _ \<Rightarrow> Some (hn_kex_blob_bytes r)),
        hs_signature_bytes_per_request = (case ok_rows of [] \<Rightarrow> None | r # _ \<Rightarrow> Some (hn_signature_bytes r)),
        hs_kex_decryptable = kex_decryptable config_name,
        hs_projected_bytes_per_1000 = (if n = 0 then None else Some (of_nat total_bytes / of_nat n * 1000)) \<rparr>)"

section \<open>A stream seen from outside\<close>

record harvest =
  hv_config :: string
  hv_strategy :: string
  hv_max_tokens :: int
  hv_chunk_size_tokens :: int
  hv_error :: "txn_error option"
  hv_kex_blob_bytes :: "nat option"
  hv_total_ciphertext_bytes :: nat
  hv_total_bytes_harvestable :: "nat option"
  hv_total_integrity_bytes :: nat
  hv_n_wire_events :: nat
  hv_n_chunks :: nat
  hv_event_bytes_min :: "nat option"
  hv_event_bytes_max :: "nat option"
  hv_event_bytes_mean :: "rat option"
  hv_kex_decryptable :: "bool option"
  hv_payload_decryptable :: bool
  hv_decryptable_bytes :: "nat option"

definition harvest0 :: "string \<Rightarrow> string \<Rightarrow> int \<Rightarrow> int \<Rightarrow> harvest" where
  "harvest0 config_name strategy max_tokens chunk_size_tokens =
     \<lparr> hv_config = config_name, hv_strategy = strategy, hv_max_tokens = max_tokens, hv_chunk_size_tokens = chunk_size_tokens,
       hv_error = None, hv_kex_blob_bytes = None, hv_total_ciphertext_bytes = 0, hv_total_bytes_harvestable = None,
       hv_total_integrity_bytes = 0, hv_n_wire_events = 0, hv_n_chunks = 0, hv_event_bytes_min = None,
       hv_event_bytes_max = None, hv_event_bytes_mean = None, hv_kex_decryptable = kex_decryptable config_name,
       hv_payload_decryptable = PAYLOAD_DECRYPTABLE_UNDER_CRQC, hv_decryptable_bytes = None \<rparr>"

text \<open>The fields of a row the observer looks at.\<close>

fun row_envelope :: "'b row \<Rightarrow> ('b \<times> 'b) option" where
  "row_envelope (Chunk c) = Some (ck_nonce c, ck_ciphertext c)"
| "row_envelope (FinalBuffered f) = Some (fb_nonce f, fb_ciphertext f)"
| "row_envelope _ = None"

fun row_integrity :: "'b row \<Rightarrow> 'b option list" where
  "row_integrity (Chunk c) = [ck_signature c, ck_chain_hash c]"
| "row_integrity (FinalBuffered f) = [Some (fb_signature f)]"
| "row_integrity (FinalPerChunk f) = [Some (pe_signature f)]"
| "row_integrity (FinalChain f) = [Some (fc_signature f), Some (fc_final_chain_hash f)]"

fun is_chunk_row :: "'b row \<Rightarrow> bool" where
  "is_chunk_row (Chunk c) = True"
| "is_chunk_row _ = False"

definition wire_len :: "string option \<Rightarrow> nat res" where
  "wire_len x = (case x of None \<Rightarrow> Inr 0 | Some s \<Rightarrow> if s = [] then Inr 0 else map_sum id length (b64d s))"

definition envelope_len :: "string row \<Rightarrow> nat res" where
  "envelope_len row =
     (case row_envelope row of
        None \<Rightarrow> Inr 0
      | Some (nonce, ciphertext) \<Rightarrow> bind_res (b64d nonce) (\<lambda>n. bind_res (b64d ciphertext) (\<lambda>c. Inr (length n + length c))))"

text \<open>One event; when a field does not decode, what was added before stays.\<close>

definition observe :: "string row \<Rightarrow> harvest \<times> nat list \<Rightarrow> (harvest \<times> nat list) \<times> exn option" where
  "observe row st =
     (case envelope_len row of
        Inl e \<Rightarrow> (st, Some e)
      | Inr ciphertext_bytes \<Rightarrow>
          let h1 = (fst st) \<lparr> hv_total_ciphertext_bytes := hv_total_ciphertext_bytes (fst st) + ciphertext_bytes \<rparr> in
          (case map_sum id sum_list (map_res wire_len (row_integrity row)) of
             Inl e \<Rightarrow> ((h1, snd st), Some e)
           | Inr integrity_bytes \<Rightarrow>
               ((h1 \<lparr> hv_total_integrity_bytes := hv_total_integrity_bytes h1 + integrity_bytes,
                      hv_n_chunks := hv_n_chunks h1 + (if is_chunk_row row then 1 else 0),
                      hv_n_wire_events := hv_n_wire_events h1 + 1 \<rparr>,
                 snd st @ [ciphertext_bytes + integrity_bytes]), None)))"

fun observe_lines :: "sse_line list \<Rightarrow> harvest \<times> nat list \<Rightarrow> (harvest \<times> nat list) \<times> exn option" where
  "observe_lines [] st = (st, None)"
| "observe_lines (NonData # ls) st = observe_lines ls st"
| "observe_lines (DataOther # ls) st = observe_lines ls st"
| "observe_lines (DataMalformed # ls) st = (st, Some JSONDecodeError)"
| "observe_lines (DataRow row # ls) st =
     (case observe row st of (st', Some e) \<Rightarrow> (st', Some e) | (st', None) \<Rightarrow> observe_lines ls st')"

definition conclude :: "nat \<Rightarrow> harvest \<times> nat list \<Rightarrow> harvest" where
  "conclude kex_blob_bytes st =
     (let h = (fst st) \<lparr> hv_total_bytes_harvestable := Some (kex_blob_bytes + hv_total_ciphertext_bytes (fst st)),
                hv_decryptable_bytes := Some (if kex_decryptable (hv_config (fst st)) = Some True then hv_total_ciphertext_bytes (fst st) else 0) \<rparr>;
          sizes = snd st in
      if sizes = [] then h
      else h \<lparr> hv_event_bytes_min := Some (Min (set sizes)), hv_event_bytes_max := Some (Max (set sizes)),
               hv_event_bytes_mean := Some (of_nat (sum_list sizes) / of_nat (length sizes)) \<rparr>)"

text \<open>The observer's own request: the client's, without reading the signature key.\<close>

definition open_harvest ::
  "prims \<Rightarrow> rng \<Rightarrow> span \<Rightarrow> client_crypto \<Rightarrow> json \<Rightarrow> json_strings \<Rightarrow> (nat \<times> secure_predict_request res) res" where
  "open_harvest P r sp cl body hs_json =
     bind_res (bind_res (get_item hs_json ''kex_public_key'') b64d) (\<lambda>kex_public_key.
     bind_res (get_item hs_json ''handshake_id'') (\<lambda>handshake_id.
     bind_res (cl_establish P r sp cl kex_public_key) (\<lambda>est.
     Inr (length (er_kex_blob est),
       bind_res (aead_encrypt P (r 2) (er_session_key est) (json_dumps P body) None) (\<lambda>req_aead.
       Inr \<lparr> rq_handshake_id = handshake_id, rq_kex_blob = b64e (er_kex_blob est), rq_nonce = b64e (ar_nonce req_aead),
             rq_ciphertext = b64e (ar_ciphertext req_aead), rq_keep_session = False \<rparr>)))))"

definition capture_transaction ::
  "prims \<Rightarrow> rng \<Rightarrow> span \<Rightarrow> stream_net \<Rightarrow> string \<Rightarrow> string \<Rightarrow> int \<Rightarrow> int \<Rightarrow> string \<Rightarrow> harvest res" where
  "capture_transaction P r sp net config_name strategy max_tokens chunk_size_tokens prompt =
     bind_res (get_client_crypto config_name) (\<lambda>cl.
     let h0 = harvest0 config_name strategy max_tokens chunk_size_tokens;
         failed = (\<lambda>h e. h \<lparr> hv_error := Some (ErrExn e) \<rparr>) in
     Inr (case nt_handshake net of
        Inl e \<Rightarrow> failed h0 e
      | Inr (hs_json, _) \<Rightarrow>
          (case open_harvest P r sp cl (stream_request_body prompt strategy chunk_size_tokens max_tokens None) hs_json of
             Inl e \<Rightarrow> failed h0 e
           | Inr (kex_blob_bytes, request) \<Rightarrow>
               let h1 = h0 \<lparr> hv_kex_blob_bytes := Some kex_blob_bytes \<rparr> in
               (case bind_res request (nt_stream net) of
                  Inl e \<Rightarrow> failed h1 e
                | Inr (status, events) \<Rightarrow>
                    if status \<noteq> 200 then h1 \<lparr> hv_error := Some (ErrHTTP status) \<rparr>
                    else (case observe_lines (map ev_line events) (h1, []) of
                            (st, Some e) \<Rightarrow> failed (fst st) e
                          | (st, None) \<Rightarrow> conclude kex_blob_bytes st)))))"

section \<open>The experiment\<close>

text \<open>\<open>run\<close> is a capture of the given strategy and length against the server under test.\<close>

definition run_length_sweep :: "(string \<Rightarrow> int \<Rightarrow> harvest res) \<Rightarrow> string \<Rightarrow> int list \<Rightarrow> harvest list res" where
  "run_length_sweep run strategy max_tokens_values = map_res (run strategy) max_tokens_values"

definition GCM_TAG_BYTES :: nat where
  "GCM_TAG_BYTES = 16"

record independence =
  in_config :: string
  in_max_tokens :: int
  in_chunk_size_tokens :: int
  in_harvestable :: "(string \<times> nat option) list"
  in_ciphertext :: "(string \<times> nat) list"
  in_n_chunks :: "(string \<times> nat) list"
  in_exact_match :: bool
  in_deltas :: "(string \<times> int \<times> int) list"
  in_rows :: "(string \<times> harvest) list"

definition overhead_deltas :: "(string \<times> nat) list \<Rightarrow> (string \<times> nat) list \<Rightarrow> (string \<times> int \<times> int) list" where
  "overhead_deltas ciphertext n_chunks =
     (case map_of ciphertext ''buffer_and_sign'' of
        None \<Rightarrow> []
      | Some base \<Rightarrow>
          concat (map (\<lambda>s. case (map_of ciphertext s, map_of n_chunks s) of
              (Some c, Some n) \<Rightarrow> [(s, (int n - 1) * int (GCM_NONCE_BYTES + GCM_TAG_BYTES), int c - int base)]
            | _ \<Rightarrow> []) [''per_chunk'', ''hash_chain'']))"

definition run_strategy_independence_check :: "(string \<Rightarrow> int \<Rightarrow> harvest res) \<Rightarrow> string \<Rightarrow> int \<Rightarrow> int \<Rightarrow> independence res" where
  "run_strategy_independence_check run config_name max_tokens chunk_size_tokens =
     bind_res (map_res (\<lambda>s. map_sum id (Pair s) (run s max_tokens)) STRATEGY_NAMES) (\<lambda>rows.
     let ok = filter (\<lambda>(s, h). hv_error h = None) rows;
         harvestable = map (\<lambda>(s, h). (s, hv_total_bytes_harvestable h)) ok;
         ciphertext = map (\<lambda>(s, h). (s, hv_total_ciphertext_bytes h)) ok;
         n_chunks = map (\<lambda>(s, h). (s, hv_n_chunks h)) ok in
     Inr \<lparr> in_config = config_name, in_max_tokens = max_tokens, in_chunk_size_tokens = chunk_size_tokens,
           in_harvestable = harvestable, in_ciphertext = ciphertext, in_n_chunks = n_chunks,
           in_exact_match = (if harvestable = [] then False else length (remdups (map snd harvestable)) \<le> 1),
           in_deltas = overhead_deltas ciphertext n_chunks, in_rows = rows \<rparr>)"

record sweep_summary =
  ss_config :: string
  ss_strategy :: string
  ss_n_lengths :: nat
  ss_max_tokens_values :: "int list"
  ss_harvestable_by_length :: "nat option list"
  ss_decryptable_by_length :: "nat option list"
  ss_kex_decryptable :: "bool option"
  ss_monotonic :: bool
  ss_fraction_decryptable :: rat

definition summarize_length_sweep :: "harvest list \<Rightarrow> string \<Rightarrow> string \<Rightarrow> sweep_summary" where
  "summarize_length_sweep rows config_name strategy =
     (let ok_rows = filter (\<lambda>r. hv_error r = None) rows;
          harvestable = map hv_total_bytes_harvestable ok_rows in
      \<lparr> ss_config = config_name, ss_strategy = strategy, ss_n_lengths = length ok_rows,
        ss_max_tokens_values = map hv_max_tokens ok_rows, ss_harvestable_by_length = harvestable,
        ss_decryptable_by_length = map hv_decryptable_bytes ok_rows, ss_kex_decryptable = kex_decryptable config_name,
        ss_monotonic = list_all (\<lambda>i. the (harvestable ! i) \<le> the (harvestable ! Suc i)) [0..<length harvestable - 1],
        ss_fraction_decryptable = (if kex_decryptable config_name = Some True then 1 else 0) \<rparr>)"

definition run_one_config ::
  "(string \<Rightarrow> int \<Rightarrow> harvest res) \<Rightarrow> string \<Rightarrow> int list \<Rightarrow> int \<Rightarrow> string \<Rightarrow> (harvest list \<times> sweep_summary \<times> independence) res" where
  "run_one_config run crypto_name max_tokens_values chunk_size_tokens primary_strategy =
     bind_res (run_length_sweep run primary_strategy max_tokens_values) (\<lambda>sweep_rows.
     bind_res (case max_tokens_values of [] \<Rightarrow> Inl ValueError | m # ms \<Rightarrow> Inr (foldl min m ms)) (\<lambda>shortest.
     bind_res (run_strategy_independence_check run crypto_name shortest chunk_size_tokens) (\<lambda>check.
     Inr (sweep_rows, summarize_length_sweep sweep_rows crypto_name primary_strategy, check))))"

end
