(* ===== verification/HarvestBounds.thy ===== *)
theory HarvestBounds
  imports StreamHarvest
begin

text \<open>
  What the stream observer of \<^verbatim>\<open>threats/streaming_hndl_experiment.py\<close> must measure on an honest
  server: envelopes that open to the text, 28 bytes longer each, one per chunk or one in all.
  \<open>harvest_contract\<close> extends the streaming contract by what a strategy's envelopes hold; every
  strategy interprets it.
\<close>

section \<open>Sizes of rows\<close>

definition row_env_bytes :: "bytes row \<Rightarrow> nat" where
  "row_env_bytes row = (case row_envelope row of None \<Rightarrow> 0 | Some (n, c) \<Rightarrow> length n + length c)"

definition row_int_bytes :: "bytes row \<Rightarrow> nat" where
  "row_int_bytes row = sum_list (map (\<lambda>x. case x of None \<Rightarrow> 0 | Some b \<Rightarrow> length b) (row_integrity row))"

lemma wire_len_b64e [simp]: "wire_len (Some (b64e b)) = Inr (length b)"
  by (cases "b = []") (simp_all add: wire_len_def b64e_eq_Nil)

lemma wire_len_option: "wire_len (map_option b64e x) = Inr (case x of None \<Rightarrow> 0 | Some b \<Rightarrow> length b)"
  by (cases x) (simp_all, simp add: wire_len_def)

lemma envelope_len_wire: "envelope_len (encode_for_wire row) = Inr (row_env_bytes row)"
  by (cases row) (simp_all add: envelope_len_def row_env_bytes_def encode_chunk_def)

lemma integrity_len_wire: "map_sum id sum_list (map_res wire_len (row_integrity (encode_for_wire row))) = Inr (row_int_bytes row)"
  by (cases row) (simp_all add: row_int_bytes_def encode_chunk_def wire_len_option)

lemma is_chunk_wire [simp]: "is_chunk_row (encode_for_wire row) = is_chunk_row row"
  by (cases row) simp_all

definition seen :: "bytes row list \<Rightarrow> harvest \<times> nat list \<Rightarrow> harvest \<times> nat list" where
  "seen rows st =
     ((fst st) \<lparr> hv_total_ciphertext_bytes := hv_total_ciphertext_bytes (fst st) + sum_list (map row_env_bytes rows),
                 hv_total_integrity_bytes := hv_total_integrity_bytes (fst st) + sum_list (map row_int_bytes rows),
                 hv_n_chunks := hv_n_chunks (fst st) + length (filter is_chunk_row rows),
                 hv_n_wire_events := hv_n_wire_events (fst st) + length rows \<rparr>,
      snd st @ map (\<lambda>row. row_env_bytes row + row_int_bytes row) rows)"

lemma observe_wire: "observe (encode_for_wire row) st = (seen [row] st, None)"
  by (simp add: observe_def envelope_len_wire integrity_len_wire seen_def Let_def)

lemma seen_Cons: "seen rows (seen [row] st) = seen (row # rows) st"
  by (simp add: seen_def)

lemma observe_rows:
  "observe_lines (concat (map (\<lambda>row. [DataRow (encode_for_wire row), NonData]) rows) @ rest) st = observe_lines rest (seen rows st)"
proof (induction rows arbitrary: st)
  case (Cons row rows)
  then show ?case by (simp add: observe_wire seen_Cons)
qed (simp add: seen_def)

lemma observe_response: "observe_lines (sse_lines rows) st = (seen rows st, None)"
  by (simp add: sse_lines_def observe_rows)

section \<open>The envelopes of a strategy\<close>

text \<open>The AES-GCM envelopes of the rows, and what the session key makes of one: its text, with 28 bytes more on the wire.\<close>

definition envelopes :: "bytes row list \<Rightarrow> (bytes \<times> bytes) list" where
  "envelopes rows = List.map_filter row_envelope rows"

definition opens_to :: "prims \<Rightarrow> bytes \<Rightarrow> bytes \<times> bytes \<Rightarrow> bytes \<Rightarrow> bool" where
  "opens_to P key env p \<longleftrightarrow> aead_decrypt P key (fst env) (snd env) None = Inr p \<and> length (fst env) + length (snd env) = length p + 28"

lemma envelopes_simps [simp]:
  "envelopes [] = []"
  "envelopes (row # rows) = (case row_envelope row of None \<Rightarrow> envelopes rows | Some e \<Rightarrow> e # envelopes rows)"
  by (simp_all add: envelopes_def List.map_filter_def split: option.splits)

lemma opens_encrypted:
  assumes "aead_ok P" "aead_encrypt P t key p None = Inr a"
  shows "opens_to P key (ar_nonce a, ar_ciphertext a) p"
  using aead_encrypt_sizes [OF assms] aead_round_trip [OF assms] by (simp add: opens_to_def)

lemma opened_bytes:
  "list_all2 (opens_to P key) (envelopes rows) ps \<Longrightarrow> sum_list (map row_env_bytes rows) = length (concat ps) + 28 * length ps"
proof (induction rows arbitrary: ps)
  case (Cons row rows)
  then show ?case
    by (cases "row_envelope row") (auto simp: row_env_bytes_def opens_to_def list_all2_Cons1 split: prod.splits)
qed simp

lemma run_chunks_per_chunk:
  assumes "aead_ok P" "run_chunks P rs sps srv (PerChunk st) cs i = Inr rows"
  shows "list_all2 (opens_to P (pc_session_key st)) (envelopes rows) cs \<and> length (filter is_chunk_row rows) = length cs"
  using assms(2)
proof (induction cs arbitrary: i rows)
  case Nil
  then show ?case by (auto simp: pc_finalize_def split: prod.splits)
next
  case (Cons c cs)
  obtain a sg ms cms rest where r: "aead_encrypt P (rs i 0) (pc_session_key st) c None = Inr a"
      "run_chunks P rs sps srv (PerChunk st) cs (Suc i) = Inr rest"
      "rows = Chunk \<lparr> ck_index = int i, ck_nonce = ar_nonce a, ck_ciphertext = ar_ciphertext a, ck_chain_hash = None,
         ck_signature = Some sg, ck_sign_ms = ms, ck_sign_cpu_ms = cms, ck_signature_bytes = length sg \<rparr> # rest"
    using Cons.prems by (auto simp: pc_add_chunk_def)
  show ?case
    using Cons.IH [OF r(2)] opens_encrypted [OF assms(1) r(1)] by (simp add: r(3))
qed

lemma hc_add_chunk_row:
  assumes "aead_ok P" "hc_add_chunk P r sp srv c i st = Inr (st', out)"
  obtains row env where "out = Some row" "row_envelope row = Some env" "opens_to P (hc_session_key st) env c" "is_chunk_row row"
    "hc_session_key st' = hc_session_key st"
proof -
  obtain a where a: "aead_encrypt P (r 0) (hc_session_key st) c None = Inr a"
    using assms(2) by (auto simp: hc_add_chunk_def)
  obtain ch sg ms cs sb where "out = Some (Chunk \<lparr> ck_index = i, ck_nonce = ar_nonce a, ck_ciphertext = ar_ciphertext a,
      ck_chain_hash = Some ch, ck_signature = sg, ck_sign_ms = ms, ck_sign_cpu_ms = cs, ck_signature_bytes = sb \<rparr>)"
      "hc_session_key st' = hc_session_key st"
    using assms(2) a by (auto simp: hc_add_chunk_def Let_def split: if_splits)
  then show ?thesis
    using that opens_encrypted [OF assms(1) a] by simp
qed

lemma run_chunks_hash_chain:
  assumes "aead_ok P" "run_chunks P rs sps srv (HashChain st) cs i = Inr rows"
  shows "list_all2 (opens_to P (hc_session_key st)) (envelopes rows) cs \<and> length (filter is_chunk_row rows) = length cs"
  using assms(2)
proof (induction cs arbitrary: st i rows)
  case Nil
  then show ?case by (auto simp: hc_finalize_def split: prod.splits)
next
  case (Cons c cs)
  obtain st' out rest where r: "hc_add_chunk P (rs i) (sps i) srv c (int i) st = Inr (st', out)"
      "run_chunks P rs sps srv (HashChain st') cs (Suc i) = Inr rest" "rows = (case out of None \<Rightarrow> rest | Some row \<Rightarrow> row # rest)"
    using Cons.prems by (auto simp: map_sum_def apfst_def map_prod_def split: sum.splits)
  obtain row env where "out = Some row" "row_envelope row = Some env" "opens_to P (hc_session_key st) env c" "is_chunk_row row"
      "hc_session_key st' = hc_session_key st"
    using hc_add_chunk_row [OF assms(1) r(1)] .
  then show ?case
    using Cons.IH [OF r(2)] r(3) by simp
qed

lemma run_chunks_buffer:
  assumes "aead_ok P" "run_chunks P rs sps srv (BufferAndSign st) cs i = Inr rows"
  shows "list_all2 (opens_to P (bs_session_key st)) (envelopes rows) [bs_buffer st @ concat cs] \<and> length (filter is_chunk_row rows) = 0"
  using assms(2)
proof (induction cs arbitrary: st i rows)
  case Nil
  then obtain a sg ms cms where a: "aead_encrypt P (rs i 0) (bs_session_key st) (bs_buffer st) None = Inr a"
      "rows = [FinalBuffered \<lparr> fb_nonce = ar_nonce a, fb_ciphertext = ar_ciphertext a, fb_signature = sg,
         fb_sign_ms = ms, fb_sign_cpu_ms = cms, fb_signature_bytes = length sg \<rparr>]"
    by (auto simp: buf_finalize_def)
  show ?case
    using opens_encrypted [OF assms(1) a(1)] by (simp add: a(2))
next
  case (Cons c cs)
  then show ?case
    using Cons.IH [of "st \<lparr> bs_buffer := bs_buffer st @ c \<rparr>" "Suc i" rows] by (simp add: buf_add_chunk_def)
qed

section \<open>A harvested stream\<close>

text \<open>The observer sends the client's request and knows its key-exchange blob.\<close>

lemma open_harvest_stream:
  assumes "open_stream P r sp cl strategy body hs = Inr (v, req)" "issued_for hs b"
  obtains e where "open_harvest P r sp cl body hs = Inr (length (er_kex_blob e), Inr req)" "rq_kex_blob req = b64e (er_kex_blob e)"
    and "cl_establish P r sp cl (hb_kex_public_key b) = Inr e" "sv_key v = er_session_key e"
proof -
  obtain e a where e: "cl_establish P r sp cl (hb_kex_public_key b) = Inr e" "sv_key v = er_session_key e"
      "aead_encrypt P (r 2) (er_session_key e) (json_dumps P body) None = Inr a"
      "req = \<lparr> rq_handshake_id = hb_handshake_id b, rq_kex_blob = b64e (er_kex_blob e), rq_nonce = b64e (ar_nonce a),
        rq_ciphertext = b64e (ar_ciphertext a), rq_keep_session = False \<rparr>"
    using assms by (auto simp: open_stream_def issued_for_def get_item_def)
  then show ?thesis
    using assms(2) by (intro that [of e]) (auto simp: open_harvest_def issued_for_def get_item_def)
qed

lemma conclude_fields:
  "hv_error (conclude k st) = hv_error (fst st)" "hv_kex_blob_bytes (conclude k st) = hv_kex_blob_bytes (fst st)"
  "hv_total_ciphertext_bytes (conclude k st) = hv_total_ciphertext_bytes (fst st)" "hv_n_chunks (conclude k st) = hv_n_chunks (fst st)"
  "hv_total_bytes_harvestable (conclude k st) = Some (k + hv_total_ciphertext_bytes (fst st))"
  "hv_decryptable_bytes (conclude k st) =
     Some (if kex_decryptable (hv_config (fst st)) = Some True then hv_total_ciphertext_bytes (fst st) else 0)"
  by (simp_all add: conclude_def Let_def)

lemma seen_fields:
  "hv_error (fst (seen rows st)) = hv_error (fst st)" "hv_kex_blob_bytes (fst (seen rows st)) = hv_kex_blob_bytes (fst st)"
  "hv_config (fst (seen rows st)) = hv_config (fst st)"
  "hv_total_ciphertext_bytes (fst (seen rows st)) = hv_total_ciphertext_bytes (fst st) + sum_list (map row_env_bytes rows)"
  "hv_n_chunks (fst (seen rows st)) = hv_n_chunks (fst st) + length (filter is_chunk_row rows)"
  by (simp_all add: seen_def)

lemma harvest0_fields:
  "hv_error (harvest0 c s x k) = None" "hv_config (harvest0 c s x k) = c"
  "hv_total_ciphertext_bytes (harvest0 c s x k) = 0" "hv_n_chunks (harvest0 c s x k) = 0"
  by (simp_all add: harvest0_def)

lemma capture_transaction_opened:
  assumes "get_client_crypto config = Inr cl" "nt_handshake net = Inr (hs, hms)"
    and "open_harvest P r sp cl (stream_request_body prompt name c mx None) hs = Inr (kex, Inr req)"
    and "nt_stream net req = Inr (200, deliver clk (sse_lines rows))"
  shows "capture_transaction P r sp net config name mx c prompt =
    Inr (conclude kex (seen rows ((harvest0 config name mx c) \<lparr> hv_kex_blob_bytes := Some kex \<rparr>, [])))"
  unfolding capture_transaction_def assms(1) by (simp add: assms(2,3,4) observe_response Let_def)

lemmas harvest_fields = conclude_fields seen_fields harvest0_fields

text \<open>
  What the observer stored of a stream whose envelopes hold \<open>ps\<close>: the blob of the key exchange, from which
  the server derives the key that opens every envelope, and the counts of both.
\<close>

definition exposed ::
  "prims \<Rightarrow> app \<Rightarrow> string \<Rightarrow> string \<Rightarrow> (nat \<times> secure_predict_request res) res
     \<Rightarrow> (secure_predict_request \<Rightarrow> (nat \<times> sse_event list) res) \<Rightarrow> (nat \<Rightarrow> rat \<times> span \<times> rat) \<Rightarrow> bytes list \<Rightarrow> nat \<Rightarrow> harvest \<Rightarrow> bool" where
  "exposed P app hid config opened net clk ps n h \<longleftrightarrow> hv_error h = None \<and>
     (\<exists>blob key req rows. opened = Inr (length blob, Inr req) \<and> rq_kex_blob req = b64e blob \<and>
        (\<forall>sp. \<exists>m. srv_accept P sp (ap_crypto app) hid blob = Inr (key, m)) \<and>
        net req = Inr (200, deliver clk (sse_lines rows)) \<and> list_all2 (opens_to P key) (envelopes rows) ps \<and>
        hv_kex_blob_bytes h = Some (length blob) \<and>
        hv_total_bytes_harvestable h = Some (length blob + hv_total_ciphertext_bytes h)) \<and>
     hv_total_ciphertext_bytes h = length (concat ps) + 28 * length ps \<and> hv_n_chunks h = n \<and>
     hv_decryptable_bytes h = Some (if kex_decryptable config = Some True then hv_total_ciphertext_bytes h else 0)"

locale harvest_contract = stream_contract +
  fixes sealed :: "bytes list \<Rightarrow> bytes list"
    and n_chunk_rows :: "nat \<Rightarrow> nat"
  assumes shape: "aead_ok P \<Longrightarrow> run_chunks P rs sps srv (init P h key k) cs 0 = Inr rows \<Longrightarrow>
    list_all2 (opens_to P key) (envelopes rows) (sealed cs) \<and> length (filter is_chunk_row rows) = n_chunk_rows (length cs)"
begin

lemma harvested:
  assumes "prims_ok P" "srv_holds P (ap_crypto app) b" "issued_for hs b"
    and "get_client_crypto config = Inr (server_client (ap_crypto app))"
    and "json_loads P (json_dumps P (stream_request_body prompt name c mx None)) = Some (stream_request_body prompt name c mx None)"
    and "length (backend (JStr prompt) (max 1 mx)) + 1 < 2 ^ 32"
    and "nt_handshake net = Inr (hs, hms)" "nt_stream net = stream_over P backend rs sps sp' clk app"
  obtains h where "capture_transaction P r sp net config name mx c prompt = Inr h"
    and "exposed P app (hb_handshake_id b) config
      (open_harvest P r sp (server_client (ap_crypto app)) (stream_request_body prompt name c mx None) hs) (nt_stream net) clk
      (sealed (chunk_groups c (backend (JStr prompt) (max 1 mx)))) (n_chunk_rows (length (chunk_groups c (backend (JStr prompt) (max 1 mx))))) h"
proof -
  let ?cs = "chunk_groups c (backend (JStr prompt) (max 1 mx))"
  obtain v req rows where v: "open_stream P r sp (server_client (ap_crypto app)) name (stream_request_body prompt name c mx None) hs = Inr (v, req)"
      "run_chunks P rs sps (ap_crypto app) (init P (sv_handshake_id v) (sv_key v) None) ?cs 0 = Inr rows"
      "stream_over P backend rs sps sp' clk app req = Inr (200, deliver clk (sse_lines rows))"
    by (rule response [where backend = backend, OF assms(1-3,5,6)]) (rule that)
  obtain e where e: "open_harvest P r sp (server_client (ap_crypto app)) (stream_request_body prompt name c mx None) hs =
      Inr (length (er_kex_blob e), Inr req)" "rq_kex_blob req = b64e (er_kex_blob e)"
      "cl_establish P r sp (server_client (ap_crypto app)) (hb_kex_public_key b) = Inr e" "sv_key v = er_session_key e"
    by (rule open_harvest_stream [OF v(1) assms(3)])
  let ?kex = "length (er_kex_blob e)"
  let ?h0 = "(harvest0 config name mx c) \<lparr> hv_kex_blob_bytes := Some ?kex \<rparr>"
  have cap: "capture_transaction P r sp net config name mx c prompt = Inr (conclude ?kex (seen rows (?h0, [])))"
    by (rule capture_transaction_opened [OF assms(4,7) e(1)]) (simp only: assms(8) v(3))
  have sizes: "list_all2 (opens_to P (sv_key v)) (envelopes rows) (sealed ?cs)"
      "length (filter is_chunk_row rows) = n_chunk_rows (length ?cs)"
    using shape [OF _ v(2)] assms(1) by (simp_all add: prims_ok_def)
  have accept: "\<exists>m. srv_accept P spx (ap_crypto app) (hb_handshake_id b) (er_kex_blob e) = Inr (sv_key v, m)" for spx
    using srv_agree [OF assms(1,2), of r sp spx] by (auto simp: e(3,4))
  show ?thesis
    by (rule that [OF cap], unfold exposed_def)
       (intro conjI exI [of _ "er_kex_blob e"] exI [of _ "sv_key v"] exI [of _ req] exI [of _ rows] allI accept e(1,2) sizes(1),
        simp_all add: harvest_fields sizes(2) opened_bytes [OF sizes(1)] assms(8) v(3))
qed

end

interpretation pc_harvest: harvest_contract "''per_chunk''" "\<lambda>P h key k. PerChunk (pc_init P h key)" "\<lambda>k n. n + 1" "\<lambda>cs. cs" "\<lambda>n. n"
  by unfold_locales (drule (1) run_chunks_per_chunk, simp add: pc_init_def)

interpretation hc_harvest: harvest_contract "''hash_chain''" "\<lambda>P h key k. HashChain (hc_init P h key k)"
  "\<lambda>k n. ckp_count k 0 n + 1" "\<lambda>cs. cs" "\<lambda>n. n"
  by unfold_locales (drule (1) run_chunks_hash_chain, simp add: hc_init_def)

interpretation buf_harvest: harvest_contract "''buffer_and_sign''" "\<lambda>P h key k. BufferAndSign (buf_init P h key)" "\<lambda>k n. 1" "\<lambda>cs. [concat cs]" "\<lambda>n. 0"
  by unfold_locales (drule (1) run_chunks_buffer, simp add: buf_init_def)

section \<open>The report of the strategy check\<close>

lemma independence_rows:
  assumes "run ''buffer_and_sign'' mx = Inr hb" "run ''per_chunk'' mx = Inr hp" "run ''hash_chain'' mx = Inr hh"
    and "hv_error hb = None" "hv_error hp = None" "hv_error hh = None"
  shows "\<exists>chk. run_strategy_independence_check run config mx c = Inr chk \<and>
    in_deltas chk = overhead_deltas
      [(''buffer_and_sign'', hv_total_ciphertext_bytes hb), (''per_chunk'', hv_total_ciphertext_bytes hp), (''hash_chain'', hv_total_ciphertext_bytes hh)]
      [(''buffer_and_sign'', hv_n_chunks hb), (''per_chunk'', hv_n_chunks hp), (''hash_chain'', hv_n_chunks hh)]"
  using assms by (simp add: run_strategy_independence_check_def STRATEGY_NAMES_def Let_def del: bind_res_eq_Inr)

lemma overhead_deltas_three:
  "overhead_deltas [(''buffer_and_sign'', b), (''per_chunk'', p), (''hash_chain'', h)] [(''buffer_and_sign'', i), (''per_chunk'', j), (''hash_chain'', k)] =
     [(''per_chunk'', (int j - 1) * 28, int p - int b), (''hash_chain'', (int k - 1) * 28, int h - int b)]"
  by (simp add: overhead_deltas_def GCM_NONCE_BYTES_def GCM_TAG_BYTES_def)

end
