(* ===== verification/HarvestProperties.thy ===== *)
theory HarvestProperties
  imports HarvestBounds AppSteps ToySessions
begin

text \<open>
  The two results the harvesting experiment reports, on an honest server: the bytes a stream
  exposes, and the predicted overhead of one envelope per chunk over one envelope in all.
\<close>

text \<open>What the envelopes of a strategy hold, and the events the observer counts as chunks.\<close>

definition sealed_texts :: "string \<Rightarrow> bytes list \<Rightarrow> bytes list" where
  "sealed_texts strategy cs = (if strategy = ''buffer_and_sign'' then [concat cs] else cs)"

definition counted_chunks :: "string \<Rightarrow> nat \<Rightarrow> nat" where
  "counted_chunks strategy n = (if strategy = ''buffer_and_sign'' then 0 else n)"

lemma harvested_any:
  assumes "prims_ok P" "session_open P predict backend config resp app" "strategy \<in> set STRATEGY_NAMES"
    and "json_loads P (json_dumps P (stream_request_body prompt strategy c mx None)) = Some (stream_request_body prompt strategy c mx None)"
    and "length (backend (JStr prompt) (max 1 mx)) + 1 < 2 ^ 32"
    and "nt_handshake net = Inr (handshake_json resp, hms)" "nt_stream net = stream_over P backend rs sps sp' clk app"
  obtains h where "capture_transaction P r sp net config strategy mx c prompt = Inr h"
    and "exposed P app (hr_handshake_id resp) config
      (open_harvest P r sp (server_client (ap_crypto app)) (stream_request_body prompt strategy c mx None) (handshake_json resp)) (nt_stream net) clk
      (sealed_texts strategy (chunk_groups c (backend (JStr prompt) (max 1 mx))))
      (counted_chunks strategy (length (chunk_groups c (backend (JStr prompt) (max 1 mx))))) h"
proof -
  obtain b where b: "srv_holds P (ap_crypto app) b" "issued_for (handshake_json resp) b"
      "get_client_crypto config = Inr (server_client (ap_crypto app))"
    using session_openE [OF assms(1,2)] .
  have id: "hb_handshake_id b = hr_handshake_id resp"
    using b(2) by (simp add: issued_for_def)
  have shapes: "sealed_texts ''buffer_and_sign'' cs = [concat cs]" "sealed_texts ''per_chunk'' cs = cs" "sealed_texts ''hash_chain'' cs = cs"
      "counted_chunks ''buffer_and_sign'' n = 0" "counted_chunks ''per_chunk'' n = n" "counted_chunks ''hash_chain'' n = n" for cs n
    by (simp_all add: sealed_texts_def counted_chunks_def)
  consider (buf) "strategy = ''buffer_and_sign''" | (pc) "strategy = ''per_chunk''" | (hc) "strategy = ''hash_chain''"
    using assms(3) by (auto simp: STRATEGY_NAMES_def)
  then show ?thesis
  proof cases
    case buf
    show ?thesis
      by (rule buf_harvest.harvested [OF assms(1) b(1,2,3) assms(4) [unfolded buf] assms(5-7), of r sp], rule that)
         (simp_all only: buf shapes id)
  next
    case pc
    show ?thesis
      by (rule pc_harvest.harvested [OF assms(1) b(1,2,3) assms(4) [unfolded pc] assms(5-7), of r sp], rule that)
         (simp_all only: pc shapes id)
  next
    case hc
    show ?thesis
      by (rule hc_harvest.harvested [OF assms(1) b(1,2,3) assms(4) [unfolded hc] assms(5-7), of r sp], rule that)
         (simp_all only: hc shapes id)
  qed
qed

lemma sealed_sizes:
  "length (concat (sealed_texts strategy cs)) = length (concat cs)"
  "length (sealed_texts strategy cs) = (if strategy = ''buffer_and_sign'' then 1 else length cs)"
  by (simp_all add: sealed_texts_def)

lemma length_groups: "length (concat (chunk_groups c ts)) = length (concat ts)"
  by (simp add: chunk_groups_concat)

text \<open>C21
  What a passive observer of an honest stream stores. Of the key exchange it stores the client's
  blob, and the key the server derives from that blob opens every recorded envelope: chunk by chunk under the
  two chunk strategies, in one piece under buffer-and-sign, the envelopes open to the text the
  backend produced. The counts are those of the blob and of the envelopes, 28 bytes more than
  the text per envelope. The bytes reported as decryptable are all of the envelopes' for the
  two classical configurations, and none otherwise.
\<close>

theorem stream_exposure_exact:
  assumes "prims_ok P" "session_open P predict backend config resp app" "strategy \<in> set STRATEGY_NAMES"
    and "json_loads P (json_dumps P (stream_request_body prompt strategy c mx None)) = Some (stream_request_body prompt strategy c mx None)"
    and "length (backend (JStr prompt) (max 1 mx)) + 1 < 2 ^ 32"
    and "nt_handshake net = Inr (handshake_json resp, hms)" "nt_stream net = stream_over P backend rs sps sp' clk app"
  shows "\<exists>h blob key req rows n. capture_transaction P r sp net config strategy mx c prompt = Inr h \<and> hv_error h = None \<and>
    open_harvest P r sp (server_client (ap_crypto app)) (stream_request_body prompt strategy c mx None) (handshake_json resp) = Inr (length blob, Inr req) \<and>
    rq_kex_blob req = b64e blob \<and> nt_stream net req = Inr (200, deliver clk (sse_lines rows)) \<and>
    (\<forall>spx. \<exists>m. srv_accept P spx (ap_crypto app) (hr_handshake_id resp) blob = Inr (key, m)) \<and>
    list_all2 (opens_to P key) (envelopes rows) (sealed_texts strategy (chunk_groups c (backend (JStr prompt) (max 1 mx)))) \<and>
    concat (chunk_groups c (backend (JStr prompt) (max 1 mx))) = encode (concat (backend (JStr prompt) (max 1 mx))) \<and>
    n = length (concat (backend (JStr prompt) (max 1 mx))) +
      28 * (if strategy = ''buffer_and_sign'' then 1 else (length (backend (JStr prompt) (max 1 mx)) + nat (max 1 c) - 1) div nat (max 1 c)) \<and>
    hv_kex_blob_bytes h = Some (length blob) \<and> hv_total_ciphertext_bytes h = n \<and> hv_total_bytes_harvestable h = Some (length blob + n) \<and>
    hv_decryptable_bytes h = Some (if config \<in> {''classical'', ''classical_ecdhe''} then n else 0)"
proof -
  have static: "(kex_decryptable config = Some True) = (config \<in> {''classical'', ''classical_ecdhe''})"
    by (simp add: kex_decryptable_def KEX_DECRYPTABLE_UNDER_CRQC_def)
  obtain h where h: "capture_transaction P r sp net config strategy mx c prompt = Inr h"
      "exposed P app (hr_handshake_id resp) config
        (open_harvest P r sp (server_client (ap_crypto app)) (stream_request_body prompt strategy c mx None) (handshake_json resp)) (nt_stream net) clk
        (sealed_texts strategy (chunk_groups c (backend (JStr prompt) (max 1 mx))))
        (counted_chunks strategy (length (chunk_groups c (backend (JStr prompt) (max 1 mx))))) h"
    by (rule harvested_any [where backend = backend, OF assms, of r sp])
  from h(2) show ?thesis
    unfolding exposed_def static sealed_sizes length_groups chunk_groups_length
    by (elim conjE exE) (intro exI conjI; (rule h(1) chunk_groups_concat refl | assumption)?; simp)
qed

text \<open>
  The strategy check of the experiment explains its own measurement: against honest servers, with
  one session per strategy, the measured difference of each per-chunk strategy to
  buffer-and-sign is the predicted (chunks - 1) * 28 bytes, in both rows of the report.
\<close>

lemma envelope_overhead_predicted:
  assumes "prims_ok P" "\<And>s. s \<in> set STRATEGY_NAMES \<Longrightarrow> session_open P predict backend config (resp s) (app s)"
    and "\<And>s. s \<in> set STRATEGY_NAMES \<Longrightarrow>
      json_loads P (json_dumps P (stream_request_body prompt s c mx None)) = Some (stream_request_body prompt s c mx None)"
    and "length (backend (JStr prompt) (max 1 mx)) + 1 < 2 ^ 32"
    and "\<And>s. nt_handshake (net s) = Inr (handshake_json (resp s), hms)"
    and "\<And>s. nt_stream (net s) = stream_over P backend rs sps sp' clk (app s)"
  shows "\<exists>chk n. run_strategy_independence_check (\<lambda>s m. capture_transaction P (r s) sp (net s) config s m c prompt) config mx c = Inr chk \<and>
    n = (length (backend (JStr prompt) (max 1 mx)) + nat (max 1 c) - 1) div nat (max 1 c) \<and>
    in_deltas chk = [(''per_chunk'', (int n - 1) * 28, (int n - 1) * 28), (''hash_chain'', (int n - 1) * 28, (int n - 1) * 28)]"
proof -
  let ?n = "(length (backend (JStr prompt) (max 1 mx)) + nat (max 1 c) - 1) div nat (max 1 c)"
  let ?len = "length (concat (backend (JStr prompt) (max 1 mx)))"
  define cap where "cap s h \<longleftrightarrow> capture_transaction P (r s) sp (net s) config s mx c prompt = Inr h \<and> hv_error h = None \<and>
      hv_total_ciphertext_bytes h = ?len + 28 * (if s = ''buffer_and_sign'' then 1 else ?n) \<and> hv_n_chunks h = counted_chunks s ?n" for s h
  have cap: "\<exists>h. cap s h" if s: "s \<in> set STRATEGY_NAMES" for s
  proof -
    obtain h where "capture_transaction P (r s) sp (net s) config s mx c prompt = Inr h"
        "exposed P (app s) (hr_handshake_id (resp s)) config
          (open_harvest P (r s) sp (server_client (ap_crypto (app s))) (stream_request_body prompt s c mx None) (handshake_json (resp s))) (nt_stream (net s)) clk
          (sealed_texts s (chunk_groups c (backend (JStr prompt) (max 1 mx))))
          (counted_chunks s (length (chunk_groups c (backend (JStr prompt) (max 1 mx))))) h"
      by (rule harvested_any [where backend = backend, OF assms(1) assms(2) [OF s] s assms(3) [OF s] assms(4) assms(5,6), of "r s" sp])
    then show ?thesis
      unfolding cap_def exposed_def sealed_sizes length_groups chunk_groups_length by blast
  qed
  obtain hb hp hh where h: "cap ''buffer_and_sign'' hb" "cap ''per_chunk'' hp" "cap ''hash_chain'' hh"
    using cap [of "''buffer_and_sign''"] cap [of "''per_chunk''"] cap [of "''hash_chain''"] by (auto simp: STRATEGY_NAMES_def)
  obtain chk where chk: "run_strategy_independence_check (\<lambda>s m. capture_transaction P (r s) sp (net s) config s m c prompt) config mx c = Inr chk"
      "in_deltas chk = overhead_deltas
         [(''buffer_and_sign'', hv_total_ciphertext_bytes hb), (''per_chunk'', hv_total_ciphertext_bytes hp), (''hash_chain'', hv_total_ciphertext_bytes hh)]
         [(''buffer_and_sign'', hv_n_chunks hb), (''per_chunk'', hv_n_chunks hp), (''hash_chain'', hv_n_chunks hh)]"
  proof (rule exE [OF independence_rows [of "\<lambda>s m. capture_transaction P (r s) sp (net s) config s m c prompt" mx hb hp hh config c]])
  qed (use h that in \<open>auto simp: cap_def\<close>)
  have "in_deltas chk = [(''per_chunk'', (int ?n - 1) * 28, (int ?n - 1) * 28), (''hash_chain'', (int ?n - 1) * 28, (int ?n - 1) * 28)]"
    using h unfolding chk(2) cap_def by (simp add: overhead_deltas_three counted_chunks_def)
  with chk(1) show ?thesis by (intro exI conjI) simp_all
qed

text \<open>One JSON document serves the three requests when the codec knows them all.\<close>

definition strategy_body :: "string \<Rightarrow> json" where
  "strategy_body s = stream_request_body ''hi'' s 2 8 None"

definition wit_backend :: "json \<Rightarrow> int \<Rightarrow> string list" where
  "wit_backend prompt n = [''he'', ''llo '', ''world'']"

lemma stream_exposure_exact_witness:
  "\<exists>resp app net h. session_open (codec_prims (strategy_body ''per_chunk'')) (\<lambda>_. Inl ValueError) wit_backend ''classical'' resp app \<and>
     capture_transaction (codec_prims (strategy_body ''per_chunk'')) (\<lambda>_ _. 0) wit_span net ''classical'' ''per_chunk'' 8 2 ''hi'' = Inr h \<and>
     hv_decryptable_bytes h = Some 67 \<and>
     (\<exists>key rows. list_all2 (opens_to (codec_prims (strategy_body ''per_chunk'')) key) (envelopes rows) [encode ''hello '', encode ''world''])"
proof -
  let ?P = "codec_prims (strategy_body ''per_chunk'')"
  obtain resp app where so: "session_open ?P (\<lambda>_. Inl ValueError) wit_backend ''classical'' resp app"
    by (rule session_open_exists [OF codec_prims_ok, of "''classical''"]) (simp add: CONFIG_NAMES_def CONFIGS_def)
  define net where "net = \<lparr> nt_handshake = Inr (handshake_json resp, 0),
      nt_stream = stream_over ?P wit_backend (\<lambda>_ _ _. 0) (\<lambda>_. wit_span) wit_span (\<lambda>_. (0, wit_span, 0)) app \<rparr>"
  have net: "nt_handshake net = Inr (handshake_json resp, 0)"
      "nt_stream net = stream_over ?P wit_backend (\<lambda>_ _ _. 0) (\<lambda>_. wit_span) wit_span (\<lambda>_. (0, wit_span, 0)) app"
    by (simp_all add: net_def)
  have j: "json_loads ?P (json_dumps ?P (stream_request_body ''hi'' ''per_chunk'' 2 8 None)) = Some (stream_request_body ''hi'' ''per_chunk'' 2 8 None)"
    by (simp add: codec_prims_json strategy_body_def)
  have "sealed_texts ''per_chunk'' (chunk_groups 2 (wit_backend (JStr ''hi'') (max 1 8))) = [encode ''hello '', encode ''world'']"
    by code_simp
  note exposed = stream_exposure_exact [OF codec_prims_ok so _ j _ net, of "\<lambda>_ _. 0" wit_span, unfolded this]
  have "''per_chunk'' \<in> set STRATEGY_NAMES" "length (wit_backend (JStr ''hi'') (max 1 8)) + 1 < 2 ^ 32"
    by (simp_all add: STRATEGY_NAMES_def wit_backend_def)
  from exposed [OF this] show ?thesis
    using so by (elim exE conjE) (intro exI conjI, assumption, assumption, simp add: wit_backend_def, assumption)
qed

text \<open>A codec for all three request bodies: the first byte of the text tells them apart.\<close>

definition tag_of :: "json \<Rightarrow> byte" where
  "tag_of j = (if j = strategy_body ''per_chunk'' then 1 else if j = strategy_body ''hash_chain'' then 2 else 0)"

definition tagged_prims :: prims where
  "tagged_prims = toy_prims \<lparr> json_dumps := (\<lambda>j. [tag_of j]),
     json_loads := (\<lambda>b. Some (strategy_body (if b = [1] then ''per_chunk'' else if b = [2] then ''hash_chain'' else ''buffer_and_sign''))) \<rparr>"

lemma tagged_prims_ok: "prims_ok tagged_prims"
  using toy_prims_ok
  by (simp add: tagged_prims_def prims_ok_def sha_ok_def aead_ok_def rsa_ok_def ec_ok_def x25519_ok_def kem_ok_def dsa_ok_def)

lemma tagged_round_trip:
  assumes "s \<in> set STRATEGY_NAMES"
  shows "json_loads tagged_prims (json_dumps tagged_prims (stream_request_body ''hi'' s 2 8 None)) = Some (stream_request_body ''hi'' s 2 8 None)"
proof -
  have "strategy_body ''per_chunk'' \<noteq> strategy_body ''hash_chain''" "strategy_body ''buffer_and_sign'' \<noteq> strategy_body ''per_chunk''"
      "strategy_body ''buffer_and_sign'' \<noteq> strategy_body ''hash_chain''"
    by (simp_all add: strategy_body_def stream_request_body_def)
  then show ?thesis
    using assms unfolding strategy_body_def [symmetric] by (auto simp: STRATEGY_NAMES_def tagged_prims_def tag_of_def)
qed

end
