(* ===== verification/JsonAccess.thy ===== *)
theory JsonAccess
  imports PyValues
begin

text \<open>
  Python's subscripts and type expectations on parsed JSON, for the code that reads documents:
  \<^verbatim>\<open>d[k]\<close>, \<^verbatim>\<open>xs[0]\<close>, and values used as strings, numbers, lists and truth values.
\<close>

definition json_field :: "json \<Rightarrow> string \<Rightarrow> json res" where
  "json_field j k = (case j of JObj kvs \<Rightarrow> get_item (map_of kvs) k | _ \<Rightarrow> Inl TypeError)"

definition json_first :: "json \<Rightarrow> json res" where
  "json_first j = (case j of JList [] \<Rightarrow> Inl IndexError | JList (x # _) \<Rightarrow> Inr x | JObj _ \<Rightarrow> Inl KeyError | _ \<Rightarrow> Inl TypeError)"

definition json_list :: "json \<Rightarrow> json list res" where
  "json_list j = (case j of JList xs \<Rightarrow> Inr xs | _ \<Rightarrow> Inl TypeError)"

definition json_str :: "json \<Rightarrow> string res" where
  "json_str j = (case j of JStr s \<Rightarrow> Inr s | _ \<Rightarrow> Inl AttributeError)"

definition json_rat :: "json \<Rightarrow> rat res" where
  "json_rat j = (case j of JFloat r \<Rightarrow> Inr r | JInt i \<Rightarrow> Inr (of_int i) | _ \<Rightarrow> Inl TypeError)"

definition json_nat :: "json \<Rightarrow> nat res" where
  "json_nat j = (case j of JInt i \<Rightarrow> Inr (nat i) | _ \<Rightarrow> Inl TypeError)"

definition json_int :: "json \<Rightarrow> int res" where
  "json_int j = (case j of JInt i \<Rightarrow> Inr i | _ \<Rightarrow> Inl TypeError)"

text \<open>Python's truth of a JSON value.\<close>

definition json_truthy :: "json \<Rightarrow> bool" where
  "json_truthy j = (case j of JNull \<Rightarrow> False | JBool b \<Rightarrow> b | JInt i \<Rightarrow> i \<noteq> 0 | JFloat r \<Rightarrow> r \<noteq> 0
     | JStr s \<Rightarrow> s \<noteq> [] | JList xs \<Rightarrow> xs \<noteq> [] | JObj kvs \<Rightarrow> kvs \<noteq> [])"

text \<open>\<^verbatim>\<open>s in t\<close> on strings.\<close>

definition has_substring :: "string \<Rightarrow> string \<Rightarrow> bool" where
  "has_substring s t = list_ex (\<lambda>i. take (length t) (drop i s) = t) [0..<Suc (length s)]"

text \<open>\<^verbatim>\<open>assert\<close>.\<close>

definition assert_that :: "bool \<Rightarrow> unit res" where
  "assert_that b = (if b then Inr () else Inl AssertionError)"

lemma assert_that_Inr [simp]: "assert_that b = Inr u \<longleftrightarrow> b"
  by (simp add: assert_that_def)

end
