(* ===== verification/TamperProxy.thy ===== *)
theory TamperProxy
  imports KeySubstitution Aggregate JsonAccess
begin

text \<open>
  \<^verbatim>\<open>threats/mitm_harness.py\<close> and \<^verbatim>\<open>threats/mitm_experiment.py\<close>: a forward proxy that flips one byte
  of a prediction response, and the experiment that drives protected transactions through it. The
  proxy works on HTTP replies, so a response travels as the JSON text of the response model; the
  upstream connection and the random draw of a request are arguments.
\<close>

section \<open>The response model as JSON\<close>

definition timing_json :: "server_timing \<Rightarrow> json" where
  "timing_json t = JObj
     [(''decapsulate_ms'', JFloat (st_decapsulate_ms t)), (''inference_ms'', JFloat (st_inference_ms t)),
      (''encrypt_ms'', JFloat (st_encrypt_ms t)), (''sign_ms'', JFloat (st_sign_ms t)),
      (''server_crypto_ms'', JFloat (st_server_crypto_ms t)), (''server_total_ms'', JFloat (st_server_total_ms t))]"

definition debug_json :: "debug_metrics \<Rightarrow> json" where
  "debug_json d = JObj
     [(''kex_blob_bytes'', JInt (int (dm_kex_blob_bytes d))),
      (''response_ciphertext_bytes'', JInt (int (dm_response_ciphertext_bytes d))),
      (''signature_bytes'', JInt (int (dm_signature_bytes d))),
      (''kex_algorithm'', JStr (dm_kex_algorithm d)), (''sig_algorithm'', JStr (dm_sig_algorithm d))]"

definition predict_response_json :: "secure_predict_response \<Rightarrow> json" where
  "predict_response_json r = JObj
     [(''nonce'', JStr (rp_nonce r)), (''ciphertext'', JStr (rp_ciphertext r)), (''signature'', JStr (rp_signature r)),
      (''server_timing_ms'', timing_json (rp_server_timing r)),
      (''debug'', case rp_debug r of None \<Rightarrow> JNull | Some d \<Rightarrow> debug_json d)]"

text \<open>The client's subscripts of the parsed response; further keys are ignored.\<close>

definition read_timing :: "json \<Rightarrow> server_timing res" where
  "read_timing j =
     bind_res (bind_res (json_field j ''decapsulate_ms'') json_rat) (\<lambda>a.
     bind_res (bind_res (json_field j ''inference_ms'') json_rat) (\<lambda>b.
     bind_res (bind_res (json_field j ''encrypt_ms'') json_rat) (\<lambda>c.
     bind_res (bind_res (json_field j ''sign_ms'') json_rat) (\<lambda>d.
     bind_res (bind_res (json_field j ''server_crypto_ms'') json_rat) (\<lambda>e.
     bind_res (bind_res (json_field j ''server_total_ms'') json_rat) (\<lambda>f.
     Inr \<lparr> st_decapsulate_ms = a, st_inference_ms = b, st_encrypt_ms = c, st_sign_ms = d,
           st_server_crypto_ms = e, st_server_total_ms = f \<rparr>))))))"

definition read_debug :: "json \<Rightarrow> debug_metrics option res" where
  "read_debug j =
     (if j = JNull then Inr None else
      bind_res (bind_res (json_field j ''kex_blob_bytes'') json_nat) (\<lambda>a.
      bind_res (bind_res (json_field j ''response_ciphertext_bytes'') json_nat) (\<lambda>b.
      bind_res (bind_res (json_field j ''signature_bytes'') json_nat) (\<lambda>c.
      bind_res (bind_res (json_field j ''kex_algorithm'') json_str) (\<lambda>d.
      bind_res (bind_res (json_field j ''sig_algorithm'') json_str) (\<lambda>e.
      Inr (Some \<lparr> dm_kex_blob_bytes = a, dm_response_ciphertext_bytes = b, dm_signature_bytes = c,
                  dm_kex_algorithm = d, dm_sig_algorithm = e \<rparr>)))))))"

definition read_predict_response :: "json \<Rightarrow> secure_predict_response res" where
  "read_predict_response j =
     bind_res (bind_res (json_field j ''nonce'') json_str) (\<lambda>n.
     bind_res (bind_res (json_field j ''ciphertext'') json_str) (\<lambda>c.
     bind_res (bind_res (json_field j ''signature'') json_str) (\<lambda>s.
     bind_res (bind_res (json_field j ''server_timing_ms'') read_timing) (\<lambda>t.
     bind_res (bind_res (json_field j ''debug'') read_debug) (\<lambda>d.
     Inr \<lparr> rp_nonce = n, rp_ciphertext = c, rp_signature = s, rp_server_timing = t, rp_debug = d \<rparr>)))))"

section \<open>Tampering with a body\<close>

text \<open>\<^verbatim>\<open>raw[len(raw) // 2] ^= 0xFF\<close>.\<close>

definition flip_middle :: "bytes \<Rightarrow> bytes" where
  "flip_middle raw = raw[length raw div 2 := xor (raw ! (length raw div 2)) 255]"

text \<open>\<^verbatim>\<open>field in payload\<close> depends on the value's type.\<close>

definition json_in :: "string \<Rightarrow> json \<Rightarrow> bool res" where
  "json_in k j = (case j of
       JObj kvs \<Rightarrow> Inr (map_of kvs k \<noteq> None)
     | JList xs \<Rightarrow> Inr (list_ex (\<lambda>x. x = JStr k) xs)
     | JStr s \<Rightarrow> Inr (has_substring s k)
     | _ \<Rightarrow> Inl TypeError)"

definition tamper_field :: "string \<Rightarrow> string" where
  "tamper_field target = (if target = ''ciphertext'' then ''ciphertext'' else ''signature'')"

definition tamper_response_body :: "prims \<Rightarrow> bytes \<Rightarrow> string \<Rightarrow> bytes res" where
  "tamper_response_body P body target =
     (case json_loads P body of
        None \<Rightarrow> Inr body
      | Some payload \<Rightarrow>
          let field = tamper_field target in
          bind_res (json_in field payload) (\<lambda>present.
          if \<not> present then Inr body
          else bind_res (json_field payload field) (\<lambda>value.
            if \<not> json_truthy value then Inr body
            else bind_res (bind_res (case value of JStr s \<Rightarrow> Inr s | _ \<Rightarrow> Inl TypeError) b64d) (\<lambda>raw.
              if raw = [] then Inr body
              else bind_res (json_set payload field (JStr (b64e (flip_middle raw)))) (\<lambda>payload1.
                bind_res (json_set payload1 ''_mitm_tampered'' (JStr target)) (\<lambda>payload2.
                Inr (json_dumps P payload2)))))))"

section \<open>The proxy\<close>

record http_request =
  hq_method :: string
  hq_path :: string
  hq_query :: string
  hq_headers :: "(string \<times> string) list"
  hq_body :: bytes

record http_reply =
  hp_status :: nat
  hp_headers :: "(string \<times> string) list"
  hp_body :: bytes

definition ends_with :: "string \<Rightarrow> string \<Rightarrow> bool" where
  "ends_with s t \<longleftrightarrow> length t \<le> length s \<and> drop (length s - length t) s = t"

definition should_tamper :: "http_request \<Rightarrow> http_reply \<Rightarrow> rat \<Rightarrow> rat \<Rightarrow> bool" where
  "should_tamper request reply draw tamper_probability \<longleftrightarrow>
     ends_with (hq_path request) ''/secure/predict'' \<and> hq_method request = ''POST'' \<and> hp_status reply = 200 \<and>
     draw < tamper_probability"

definition proxy_handle ::
  "prims \<Rightarrow> (http_request \<Rightarrow> http_reply res) \<Rightarrow> string \<Rightarrow> rat \<Rightarrow> rat \<Rightarrow> http_request \<Rightarrow> http_reply res" where
  "proxy_handle P upstream tamper_target tamper_probability draw request =
     bind_res (upstream (request \<lparr> hq_headers := filter (\<lambda>(k, v). lower k \<noteq> ''host'') (hq_headers request) \<rparr>)) (\<lambda>reply.
     bind_res (if should_tamper request reply draw tamper_probability
               then tamper_response_body P (hp_body reply) tamper_target else Inr (hp_body reply)) (\<lambda>body.
     Inr \<lparr> hp_status = hp_status reply,
           hp_headers = filter (\<lambda>(k, v). lower k \<notin> {''content-length'', ''content-encoding'', ''transfer-encoding''})
                          (hp_headers reply),
           hp_body = body \<rparr>))"

text \<open>
  The client's network with the proxy in it: its POST as an HTTP request, the reply read back. A
  reply without a response object has a body that is not the response's JSON; an exception of the
  handler is answered with status 500. The two GET requests pass through.
\<close>

definition predict_http :: "string option \<Rightarrow> http_request" where
  "predict_http header = \<lparr> hq_method = ''POST'', hq_path = ''/secure/predict'', hq_query = [],
     hq_headers = (case header of None \<Rightarrow> [] | Some v \<Rightarrow> [(''X-Debug-Metrics'', v)]), hq_body = [] \<rparr>"

definition through_proxy :: "prims \<Rightarrow> string \<Rightarrow> rat \<Rightarrow> rat \<Rightarrow> txn_net \<Rightarrow> txn_net" where
  "through_proxy P tamper_target tamper_probability draw net =
     net \<lparr> tn_predict := (\<lambda>header req.
       case tn_predict net header req of
         Inr (status, Inr resp) \<Rightarrow>
           (case proxy_handle P (\<lambda>_. Inr \<lparr> hp_status = status, hp_headers = [], hp_body = json_dumps P (predict_response_json resp) \<rparr>)
                   tamper_target tamper_probability draw (predict_http header) of
              Inr reply \<Rightarrow> Inr (hp_status reply, bind_res (loads P (hp_body reply)) read_predict_response)
            | Inl _ \<Rightarrow> Inr (500, Inl JSONDecodeError))
       | Inr (status, Inl e) \<Rightarrow> Inr (status, Inl e)
       | Inl _ \<Rightarrow> Inr (500, Inl JSONDecodeError)) \<rparr>"

section \<open>The experiment\<close>

record mitm_row =
  mt_request_id :: nat
  mt_config :: string
  mt_tamper_target :: string
  mt_tampered_by_proxy :: bool
  mt_detected :: bool
  mt_detection_layer :: "string option"
  mt_detection_ms :: "rat option"
  mt_rtt_ms :: "rat option"
  mt_verify_ms :: "rat option"
  mt_aead_decrypt_ms :: "rat option"
  mt_valid_signature :: "bool option"
  mt_error :: "txn_failure option"

text \<open>
  The layer that rejected a transaction. Of the client's error texts only the one of a response
  that failed AES-GCM contains \<^verbatim>\<open>AEAD authentication failed\<close>.
\<close>

definition detection_of :: "txn_row \<Rightarrow> bool \<times> string option \<times> rat option" where
  "detection_of row =
     (if tr_error row = Some TxnTampered then (True, Some ''aead_ciphertext'', tr_aead_decrypt_ms row)
      else if tr_valid_signature row = Some False then (True, Some ''signature'', tr_verify_ms row)
      else if tr_error row \<noteq> None then (False, Some ''transport_error'', None)
      else (False, None, None))"

definition mitm_row_of :: "nat \<Rightarrow> string \<Rightarrow> string \<Rightarrow> txn_row \<Rightarrow> mitm_row" where
  "mitm_row_of i config_name tamper_target row =
     (let (detected, layer, ms) = detection_of row in
      \<lparr> mt_request_id = i, mt_config = config_name, mt_tamper_target = tamper_target, mt_tampered_by_proxy = True,
        mt_detected = detected, mt_detection_layer = layer, mt_detection_ms = ms, mt_rtt_ms = tr_rtt_ms row,
        mt_verify_ms = tr_verify_ms row, mt_aead_decrypt_ms = tr_aead_decrypt_ms row,
        mt_valid_signature = tr_valid_signature row, mt_error = tr_error row \<rparr>)"

text \<open>\<open>net i\<close> is the network of the \<open>i\<close>th transaction, the proxy included.\<close>

definition mitm_run ::
  "prims \<Rightarrow> (nat \<Rightarrow> rng) \<Rightarrow> (nat \<Rightarrow> txn_clock) \<Rightarrow> (nat \<Rightarrow> txn_net) \<Rightarrow> json \<Rightarrow> string \<Rightarrow> nat \<Rightarrow> string \<Rightarrow> mitm_row list res" where
  "mitm_run P rs clks nets sample_request config_name n_requests tamper_target =
     map_res (\<lambda>i. bind_res (secure_predict_transaction P (rs i) (clks i) (nets i) config_name sample_request True None None None)
                    (\<lambda>(row, _). Inr (mitm_row_of i config_name tamper_target row))) [0..<n_requests]"

record mitm_summary =
  mu_config :: string
  mu_tamper_target :: string
  mu_n_requests :: nat
  mu_n_detected :: nat
  mu_detection_rate :: "rat option"
  mu_detection_ms_mean :: "rat option"
  mu_detection_ms_median :: "rat option"
  mu_detection_ms_std :: "rat option"
  mu_detection_ms_min :: "rat option"
  mu_detection_ms_max :: "rat option"
  mu_verdict :: string

definition when_any :: "rat list \<Rightarrow> (rat list \<Rightarrow> rat) \<Rightarrow> rat option" where
  "when_any xs f = (if xs = [] then None else Some (f xs))"

definition tamper_summarize :: "(rat \<Rightarrow> rat) \<Rightarrow> mitm_row list \<Rightarrow> string \<Rightarrow> string \<Rightarrow> mitm_summary" where
  "tamper_summarize sqrt_f rows config_name tamper_target =
     (let n = length rows; n_detected = length (filter mt_detected rows);
          detect_times = List.map_filter mt_detection_ms rows in
      \<lparr> mu_config = config_name, mu_tamper_target = tamper_target, mu_n_requests = n, mu_n_detected = n_detected,
        mu_detection_rate = (if n = 0 then None else Some (of_nat n_detected / of_nat n)),
        mu_detection_ms_mean = when_any detect_times mean,
        mu_detection_ms_median = when_any detect_times median,
        mu_detection_ms_std = (if 1 < length detect_times then Some (sqrt_f (variance detect_times)) else None),
        mu_detection_ms_min = when_any detect_times (\<lambda>xs. Min (set xs)),
        mu_detection_ms_max = when_any detect_times (\<lambda>xs. Max (set xs)),
        mu_verdict = (if n_detected = n \<and> 0 < n then ''ALL TAMPERED RESPONSES REJECTED''
                      else ''GAP DETECTED -- INVESTIGATE'') \<rparr>)"

section \<open>Facts about the parts\<close>

lemma response_json_round_trip [simp]: "read_predict_response (predict_response_json r) = Inr r"
  by (cases "rp_debug r")
     (simp_all add: read_predict_response_def predict_response_json_def json_field_def json_str_def read_timing_def timing_json_def
        json_rat_def read_debug_def debug_json_def json_nat_def)

lemma length_flip_middle [simp]: "length (flip_middle raw) = length raw"
  by (simp add: flip_middle_def)

lemma middle_index: "raw \<noteq> [] \<Longrightarrow> length raw div 2 < length raw"
  by (cases raw) auto

lemma xor_byte_neq: "xor x 255 \<noteq> (x :: byte)"
proof
  assume "xor x 255 = x"
  then have "xor x (xor x 255) = 0"
    by simp
  then have "(255 :: byte) = 0"
    by (simp add: xor.assoc [symmetric])
  then show False
    by simp
qed

lemma flip_middle_other: "raw \<noteq> [] \<Longrightarrow> flip_middle raw \<noteq> raw"
  using nth_list_update_eq [OF middle_index, of raw "xor (raw ! (length raw div 2)) 255"] xor_byte_neq
  by (metis flip_middle_def)

lemma flip_middle_involution: "flip_middle (flip_middle raw) = raw"
proof (cases "raw = []")
  case False
  then have "length raw div 2 < length raw"
    by (rule middle_index)
  moreover have "xor (xor x 255) 255 = x" for x :: byte
    by (simp add: xor.assoc)
  ultimately show ?thesis
    by (simp add: flip_middle_def)
qed (simp add: flip_middle_def)

end
