(* ===== verification/TamperDetection.thy ===== *)
theory TamperDetection
  imports TamperProxy ToySessions "HOL-Library.Countable"
begin

text \<open>
  What the experiment behind the tampering proxy reports against an honest application: every
  tampered response is rejected, at the AEAD layer or at the signature layer, unless AES-GCM or
  the signature scheme accepts the modified value.
\<close>

section \<open>A codec for every document\<close>

text \<open>JSON values are countable, so a document can travel as the length of a byte string.\<close>

instance json :: countable
  by countable_datatype

definition json_prims :: prims where
  "json_prims = toy_prims \<lparr> json_dumps := (\<lambda>j. replicate (to_nat j) 0), json_loads := (\<lambda>b. Some (from_nat (length b))) \<rparr>"

lemma json_prims_ok: "prims_ok json_prims"
  using toy_prims_ok
  by (simp add: json_prims_def prims_ok_def sha_ok_def aead_ok_def rsa_ok_def ec_ok_def x25519_ok_def kem_ok_def dsa_ok_def)

lemma json_prims_json: "json_ok json_prims"
  by (simp add: json_ok_def json_prims_def)

definition wit_txn_clock :: txn_clock where
  "wit_txn_clock = \<lparr> tc_handshake = (0, 1), tc_auth = wit_span, tc_establish = wit_span, tc_post = (0, 1), tc_aead = (0, 1),
     tc_verify = wit_span \<rparr>"

section \<open>The tampered body\<close>

text \<open>The response with its field flipped, and its JSON with the proxy's marker.\<close>

definition flipped :: "string \<Rightarrow> bytes \<Rightarrow> bytes \<Rightarrow> secure_predict_response \<Rightarrow> secure_predict_response" where
  "flipped target c sg resp =
     (if target = ''ciphertext'' then resp \<lparr> rp_ciphertext := b64e (flip_middle c) \<rparr>
      else resp \<lparr> rp_signature := b64e (flip_middle sg) \<rparr>)"

definition marked_json :: "string \<Rightarrow> secure_predict_response \<Rightarrow> json" where
  "marked_json target resp =
     (case predict_response_json resp of JObj kvs \<Rightarrow> JObj (kvs @ [(''_mitm_tampered'', JStr target)]) | j \<Rightarrow> j)"

lemma marked_json_read [simp]: "read_predict_response (marked_json target resp) = Inr resp"
proof -
  have "json_field (marked_json target resp) k = json_field (predict_response_json resp) k"
    if "k \<in> {''nonce'', ''ciphertext'', ''signature'', ''server_timing_ms'', ''debug''}" for k
    using that by (auto simp: marked_json_def predict_response_json_def json_field_def get_item_def)
  then have "read_predict_response (marked_json target resp) = read_predict_response (predict_response_json resp)"
    by (simp add: read_predict_response_def)
  then show ?thesis
    by simp
qed

lemma tamper_body:
  assumes "json_loads P sent = Some (predict_response_json resp)"
    and "rp_ciphertext resp = b64e c" "rp_signature resp = b64e sg" "c \<noteq> []" "sg \<noteq> []"
  shows "tamper_response_body P sent target =
     Inr (json_dumps P (marked_json target (flipped target c sg resp)))"
  using assms
  by (cases "target = ''ciphertext''")
     (simp_all del: bind_res_eq_Inr add: tamper_response_body_def tamper_field_def Let_def json_truthy_def
        predict_response_json_def json_in_def json_field_def json_set_def marked_json_def flipped_def)

lemma tampered_reply:
  assumes "json_loads P (json_dumps P (predict_response_json resp)) = Some (predict_response_json resp)"
    and "json_loads P (json_dumps P (marked_json target (flipped target c sg resp))) = Some (marked_json target (flipped target c sg resp))"
    and "rp_ciphertext resp = b64e c" "rp_signature resp = b64e sg" "c \<noteq> []" "sg \<noteq> []"
    and "tn_predict net header req = Inr (200, Inr resp)" "draw < probability"
  shows "tn_predict (through_proxy P target probability draw net) header req = Inr (200, Inr (flipped target c sg resp))"
  using assms tamper_body [OF assms(1,3-6), of target]
  by (simp add: through_proxy_def proxy_handle_def should_tamper_def ends_with_def predict_http_def loads_def)

text \<open>A draw outside the probability leaves the response alone.\<close>

lemma untampered_reply:
  assumes "json_loads P (json_dumps P (predict_response_json resp)) = Some (predict_response_json resp)"
    and "tn_predict net header req = Inr (200, Inr resp)" "probability \<le> draw"
  shows "tn_predict (through_proxy P target probability draw net) header req = Inr (200, Inr resp)"
  using assms by (simp add: through_proxy_def proxy_handle_def should_tamper_def loads_def)

lemma through_proxy_handshake [simp]:
  "tn_get_handshake (through_proxy P target probability draw net) = tn_get_handshake net"
  by (simp add: through_proxy_def)

section \<open>The client behind the proxy\<close>

text \<open>A first request up to the response: what follows is the response leg.\<close>

lemma transaction_reaches_response:
  assumes "issued_for hs b" "tn_get_handshake net = Inr (200, Inr hs)"
    and "cl_establish P r (tc_establish clk) cl (hb_kex_public_key b) = Inr e"
    and "aead_encrypt P (r 2) (er_session_key e) (json_dumps P body) None = Inr a"
    and "tn_predict net (if debug then Some ''true'' else None)
          \<lparr> rq_handshake_id = hb_handshake_id b, rq_kex_blob = b64e (er_kex_blob e), rq_nonce = b64e (ar_nonce a),
            rq_ciphertext = b64e (ar_ciphertext a), rq_keep_session = False \<rparr> = Inr (200, Inr resp)"
  obtains row where "transaction_steps P r clk net cl body debug None None (new_row config, None) =
      response_leg P clk cl (er_session_key e) (hb_sig_public_key b) resp (row, None)"
    and "tr_error row = None" "tr_valid_signature row = None" "tr_prediction row = None"
  using that assms
  by (simp add: transaction_steps_def request_leg_def handshake_leg_def is_resumed_def do_handshake_def raise_for_status_def key_leg_def
      issued_for_def keep_of_def use_up_def new_row_def put_row_def Let_def)

text \<open>What the experiment records of a response whose fields decode.\<close>

lemma response_recorded:
  assumes "rp_nonce resp = b64e n" "rp_ciphertext resp = b64e c" "rp_signature resp = b64e sg" "gcm_key_ok P key"
    and "tr_error row0 = None" "tr_valid_signature row0 = None" "tr_prediction row0 = None"
    and "response_leg P clk cl key pk resp (row0, None) = ((row, sess), fl)"
    and "row' = (case fl of Raise e \<Rightarrow> row \<lparr> tr_error := Some (TxnExn e) \<rparr> | _ \<Rightarrow> row)"
  shows "gcm_decrypt P key n c None = None \<Longrightarrow>
      mt_detected (mitm_row_of i config target row') \<and> mt_detection_layer (mitm_row_of i config target row') = Some ''aead_ciphertext'' \<and>
      tr_prediction row' = None"
    and "gcm_decrypt P key n c None = Some x \<Longrightarrow> cl_verify P (tc_verify clk) cl (n @ c) sg pk = Inr (False, m) \<Longrightarrow>
      mt_detected (mitm_row_of i config target row') \<and> mt_detection_layer (mitm_row_of i config target row') = Some ''signature''"
    and "gcm_decrypt P key n c None = Some x \<Longrightarrow> cl_verify P (tc_verify clk) cl (n @ c) sg pk = Inr (True, m) \<Longrightarrow>
      \<not> mt_detected (mitm_row_of i config target row')"
    and "gcm_decrypt P key n c None = Some x \<Longrightarrow> cl_verify P (tc_verify clk) cl (n @ c) sg pk = Inl e \<Longrightarrow>
      mt_detection_layer (mitm_row_of i config target row') = Some ''transport_error'' \<and> tr_prediction row' = None"
  using assms
  by (auto simp: response_leg_def aead_decrypt_def put_row_def Let_def mitm_row_of_def detection_of_def then_go_def try_go_def
      split: sum.splits flow.splits)

lemma response_leg_session:
  "response_leg P clk cl key pk resp s = (s', fl) \<Longrightarrow> snd s' = snd s"
  by (auto simp: response_leg_def put_row_def Let_def then_go_def try_go_def split: sum.splits flow.splits exn.splits prod.splits)

text \<open>A whole run: the summary's verdict is exact.\<close>

lemma tamper_verdict:
  "mu_verdict (tamper_summarize f rows config target) = ''ALL TAMPERED RESPONSES REJECTED'' \<longleftrightarrow>
     rows \<noteq> [] \<and> (\<forall>row \<in> set rows. mt_detected row)"
proof -
  have "length (filter mt_detected rows) = length rows \<longleftrightarrow> (\<forall>row \<in> set rows. mt_detected row)"
    by (metis length_filter_less less_irrefl filter_True)
  then show ?thesis
    by (simp add: tamper_summarize_def Let_def)
qed

section \<open>Behind an honest application\<close>

text \<open>What the application seals and signs for the client's first request, and the row the experiment starts from.\<close>

lemma behind_proxy:
  assumes ok: "prims_ok P" "srv_holds P (ap_crypto app) b" "issued_for hs b"
      "get_client_crypto config = Inr (server_client (ap_crypto app))"
    and json: "json_ok P" and model: "run_model predict body = Inr (result, ms)"
    and net: "tn_get_handshake net = Inr (200, Inr hs)" "tn_predict net = predict_over P predict r' clk' app"
    and draw: "draw < probability"
  obtains key n c sg resp row where "gcm_key_ok P key" "c \<noteq> []" "sg \<noteq> []"
    and "c = gcm_encrypt P key n (json_dumps P result) None"
    and "\<exists>t sp m. srv_sign P t sp (ap_crypto app) (hb_handshake_id b) (n @ c) = Inr (sg, m)"
    and "aead_decrypt P key n c None = Inr (json_dumps P result)"
    and "\<forall>sp. cl_verify P sp (server_client (ap_crypto app)) (n @ c) sg (hb_sig_public_key b) = Inr (True, mk_verify_meta sp)"
    and "rp_nonce resp = b64e n" "rp_ciphertext resp = b64e c" "rp_signature resp = b64e sg"
    and "transaction_steps P r clk (through_proxy P target probability draw net) (server_client (ap_crypto app)) body True None None
           (new_row config, None) =
         response_leg P clk (server_client (ap_crypto app)) key (hb_sig_public_key b) (flipped target c sg resp) (row, None)"
    and "tr_error row = None" "tr_valid_signature row = None" "tr_prediction row = None"
proof -
  have aead: "aead_ok P" using ok(1) by (simp add: prims_ok_def)
  have codec: "json_loads P (json_dumps P j) = Some j" for j
    using json by (simp add: json_ok_def)
  obtain e where e: "cl_establish P r (tc_establish clk) (server_client (ap_crypto app)) (hb_kex_public_key b) = Inr e"
      "gcm_key_ok P (er_session_key e)" "er_kex_blob e \<noteq> []"
    using srv_agree [OF ok(1,2), of r "tc_establish clk"] by blast
  obtain m where m: "srv_accept P (pc_accept clk') (ap_crypto app) (hb_handshake_id b) (er_kex_blob e) = Inr (er_session_key e, m)"
    using srv_agree [OF ok(1,2), of r "tc_establish clk" "pc_accept clk'"] e(1) by auto
  obtain a where a: "aead_encrypt P (r 2) (er_session_key e) (json_dumps P body) None = Inr a"
    using e(2) by (simp add: aead_encrypt_eq_Inr)
  define req where "req = \<lparr> rq_handshake_id = hb_handshake_id b, rq_kex_blob = b64e (er_kex_blob e), rq_nonce = b64e (ar_nonce a),
            rq_ciphertext = b64e (ar_ciphertext a), rq_keep_session = False \<rparr>"
  have key: "session_key_for P (pc_accept clk') app req (er_kex_blob e) = (app, Inr (er_session_key e, m))"
    using m e(3) by (simp add: session_key_for_def accept_request_def req_def)
  obtain a' where a': "aead_encrypt P (r' 0) (er_session_key e) (json_dumps P result) None = Inr a'"
    using e(2) by (simp add: aead_encrypt_eq_Inr)
  obtain sg sm vm where sg: "srv_sign P (r' 1) (pc_sign clk') (ap_crypto app) (hb_handshake_id b) (ar_nonce a' @ ar_ciphertext a') = Inr (sg, sm)"
      "cl_verify P (pc_sign clk') (server_client (ap_crypto app)) (ar_nonce a' @ ar_ciphertext a') sg (hb_sig_public_key b) = Inr (True, vm)"
      "sg \<noteq> []"
    using srv_sign_verifies [OF ok(1,2)] by blast
  have op: "open_request P (er_session_key e) (ar_nonce a) (ar_ciphertext a) = Inr (json_dumps P body)"
    by (simp add: open_request_def aead_round_trip [OF aead a])
  have dec: "decode_request req = Inr (er_kex_blob e, ar_nonce a, ar_ciphertext a)"
    by (simp add: decode_request_def req_def)
  have "\<exists>resp after. secure_predict P predict r' clk' (Some ''true'') req app = (after, Inr resp) \<and>
     rp_nonce resp = b64e (ar_nonce a') \<and> rp_ciphertext resp = b64e (ar_ciphertext a') \<and> rp_signature resp = b64e sg"
    using sg(1) by (simp add: secure_predict_def dec key codec op a' model) (simp add: req_def Let_def)
  then obtain resp after where resp: "secure_predict P predict r' clk' (Some ''true'') req app = (after, Inr resp)"
     "rp_nonce resp = b64e (ar_nonce a')" "rp_ciphertext resp = b64e (ar_ciphertext a')" "rp_signature resp = b64e sg"
    by (elim exE conjE)
  have nonempty: "ar_ciphertext a' \<noteq> []"
    using aead_encrypt_sizes(2) [OF aead a'] by auto
  have "tn_predict net (Some ''true'') req = Inr (200, Inr resp)"
    by (simp add: net(2) predict_over_def resp(1))
  then have reach: "tn_predict (through_proxy P target probability draw net) (Some ''true'') req =
      Inr (200, Inr (flipped target (ar_ciphertext a') sg resp))"
    by (rule tampered_reply [OF codec codec resp(3,4) nonempty sg(3) _ draw])
  obtain row where "transaction_steps P r clk (through_proxy P target probability draw net) (server_client (ap_crypto app)) body True None None
           (new_row config, None) =
         response_leg P clk (server_client (ap_crypto app)) (er_session_key e) (hb_sig_public_key b)
           (flipped target (ar_ciphertext a') sg resp) (row, None)"
      "tr_error row = None" "tr_valid_signature row = None" "tr_prediction row = None"
    by (rule transaction_reaches_response [OF ok(3) _ e(1) a, where debug = True and config = config
          and net = "through_proxy P target probability draw net" and resp = "flipped target (ar_ciphertext a') sg resp"])
       (use reach net(1) in \<open>simp_all add: req_def\<close>)
  moreover have "\<forall>sp. cl_verify P sp (server_client (ap_crypto app)) (ar_nonce a' @ ar_ciphertext a') sg (hb_sig_public_key b) =
      Inr (True, mk_verify_meta sp)"
    by (rule allI, rule cl_verify_span [OF sg(2)])
  moreover have "\<exists>t sp m. srv_sign P t sp (ap_crypto app) (hb_handshake_id b) (ar_nonce a' @ ar_ciphertext a') = Inr (sg, m)"
    using sg(1) by blast
  moreover have "ar_ciphertext a' = gcm_encrypt P (er_session_key e) (ar_nonce a') (json_dumps P result) None"
    using a' by (auto simp: aead_encrypt_eq_Inr)
  ultimately show ?thesis
    by (intro that [OF e(2) nonempty sg(3) _ _ aead_round_trip [OF aead a'] _ resp(2-4)]) simp_all
qed

text \<open>
  What the detection rests on, for the modification the proxy makes: AES-GCM opens no ciphertext
  whose middle byte was flipped, and the scheme accepts no signature of the server whose middle
  byte was flipped. (A single changed block always changes the tag of AES-GCM, its hash key being
  non-zero; for the signature it is unforgeability in the form the experiment needs.)
\<close>

definition gcm_rejects_flips :: "prims \<Rightarrow> bool" where
  "gcm_rejects_flips P \<longleftrightarrow> (\<forall>key n p. gcm_key_ok P key \<longrightarrow> gcm_decrypt P key n (flip_middle (gcm_encrypt P key n p None)) None = None)"

definition scheme_rejects_flips :: "prims \<Rightarrow> server_crypto \<Rightarrow> string \<Rightarrow> bytes \<Rightarrow> bool" where
  "scheme_rejects_flips P srv hid pk \<longleftrightarrow> (\<forall>t sp msg sg m sp' m'. srv_sign P t sp srv hid msg = Inr (sg, m) \<longrightarrow>
     cl_verify P sp' (server_client srv) msg (flip_middle sg) pk \<noteq> Inr (True, m'))"

definition expected_layer :: "string \<Rightarrow> string" where
  "expected_layer target = (if target = ''ciphertext'' then ''aead_ciphertext'' else ''signature'')"

text \<open>A public key that verifies something verifies, or rejects, everything.\<close>

lemma cl_verify_total:
  "cl_verify P sp cl msg sg pk = Inr x \<Longrightarrow> \<exists>ok m. cl_verify P sp' cl msg' sg' pk = Inr (ok, m)"
  by (cases cl) (auto simp: config_simps hybrid_kex_pq_defs MLDSA65_verify_def split: if_splits)

lemma flipped_response_detected:
  assumes "gcm_key_ok P key" "c \<noteq> []" "sg \<noteq> []" "c = gcm_encrypt P key n (json_dumps P result) None"
    and "\<exists>t sp m. srv_sign P t sp srv hid (n @ c) = Inr (sg, m)" "aead_decrypt P key n c None = Inr (json_dumps P result)"
    and "\<forall>sp. cl_verify P sp (server_client srv) (n @ c) sg pk = Inr (True, mk_verify_meta sp)"
    and "rp_nonce resp = b64e n" "rp_ciphertext resp = b64e c" "rp_signature resp = b64e sg"
    and "tr_error row0 = None" "tr_valid_signature row0 = None" "tr_prediction row0 = None"
    and "response_leg P clk (server_client srv) key pk (flipped target c sg resp) (row0, None) = ((row, sess), fl)"
    and "row' = (case fl of Raise e \<Rightarrow> row \<lparr> tr_error := Some (TxnExn e) \<rparr> | _ \<Rightarrow> row)"
    and "target = ''ciphertext'' \<Longrightarrow> gcm_rejects_flips P" "target \<noteq> ''ciphertext'' \<Longrightarrow> scheme_rejects_flips P srv hid pk"
  shows "mt_detected (mitm_row_of i config target row')"
    "mt_detection_layer (mitm_row_of i config target row') = Some (expected_layer target)"
proof -
  have "mt_detected (mitm_row_of i config target row') \<and> mt_detection_layer (mitm_row_of i config target row') = Some (expected_layer target)"
  proof (cases "target = ''ciphertext''")
    case True
    have fields: "rp_nonce (flipped target c sg resp) = b64e n" "rp_ciphertext (flipped target c sg resp) = b64e (flip_middle c)"
        "rp_signature (flipped target c sg resp) = b64e sg"
      using assms(8-10) True by (simp_all add: flipped_def)
    have "gcm_decrypt P key n (flip_middle c) None = None"
      using assms(16) [OF True] assms(1,4) by (simp add: gcm_rejects_flips_def)
    then show ?thesis
      using response_recorded(1) [OF fields assms(1,11-15)] True by (simp add: expected_layer_def)
  next
    case False
    have fields: "rp_nonce (flipped target c sg resp) = b64e n" "rp_ciphertext (flipped target c sg resp) = b64e c"
        "rp_signature (flipped target c sg resp) = b64e (flip_middle sg)"
      using assms(8-10) False by (simp_all add: flipped_def)
    obtain ok m where v: "cl_verify P (tc_verify clk) (server_client srv) (n @ c) (flip_middle sg) pk = Inr (ok, m)"
      using cl_verify_total assms(7) by blast
    moreover have "\<not> ok"
    proof
      assume "ok"
      then have accepted: "cl_verify P (tc_verify clk) (server_client srv) (n @ c) (flip_middle sg) pk = Inr (True, m)"
        using v by simp
      obtain t sp sm where "srv_sign P t sp srv hid (n @ c) = Inr (sg, sm)"
        using assms(5) by blast
      from assms(17) [OF False, unfolded scheme_rejects_flips_def, rule_format, OF this] accepted show False
        by (rule notE)
    qed
    moreover have "gcm_decrypt P key n c None = Some (json_dumps P result)"
      using assms(6) by (simp add: aead_decrypt_def split: if_splits option.splits)
    ultimately show ?thesis
      using response_recorded(2) [OF fields assms(1,11-15)] False by (simp add: expected_layer_def)
  qed
  then show "mt_detected (mitm_row_of i config target row')"
    "mt_detection_layer (mitm_row_of i config target row') = Some (expected_layer target)" by simp_all
qed

text \<open>One transaction of the experiment behind the proxy.\<close>

lemma tampered_transaction:
  assumes "prims_ok P" "session_open P predict backend config resp app" "json_ok P" "run_model predict body = Inr (result, ms)"
    and "tn_get_handshake net = Inr (200, Inr (handshake_json resp))" "tn_predict net = predict_over P predict r' clk' app"
    and "draw < probability" "b64d (hr_sig_public_key resp) = Inr pk"
    and "target = ''ciphertext'' \<Longrightarrow> gcm_rejects_flips P"
    and "target \<noteq> ''ciphertext'' \<Longrightarrow> scheme_rejects_flips P (ap_crypto app) (hr_handshake_id resp) pk"
  obtains row where "secure_predict_transaction P r clk (through_proxy P target probability draw net) config body True None None None = Inr (row, None)"
    and "mt_detected (mitm_row_of i config target row)" "mt_detection_layer (mitm_row_of i config target row) = Some (expected_layer target)"
proof -
  obtain b where b: "srv_holds P (ap_crypto app) b" "issued_for (handshake_json resp) b"
      "get_client_crypto config = Inr (server_client (ap_crypto app))"
    using session_openE [OF assms(1,2)] .
  have ids: "hb_handshake_id b = hr_handshake_id resp" "hb_sig_public_key b = pk"
    using b(2) assms(8) by (simp_all add: issued_for_def)
  let ?cl = "server_client (ap_crypto app)"
  obtain key n c sg rp row0 where *: "gcm_key_ok P key" "c \<noteq> []" "sg \<noteq> []" "c = gcm_encrypt P key n (json_dumps P result) None"
      "\<exists>t sp m. srv_sign P t sp (ap_crypto app) (hb_handshake_id b) (n @ c) = Inr (sg, m)"
      "aead_decrypt P key n c None = Inr (json_dumps P result)"
      "\<forall>sp. cl_verify P sp ?cl (n @ c) sg (hb_sig_public_key b) = Inr (True, mk_verify_meta sp)"
      "rp_nonce rp = b64e n" "rp_ciphertext rp = b64e c" "rp_signature rp = b64e sg"
      "transaction_steps P r clk (through_proxy P target probability draw net) ?cl body True None None (new_row config, None) =
         response_leg P clk ?cl key (hb_sig_public_key b) (flipped target c sg rp) (row0, None)"
      "tr_error row0 = None" "tr_valid_signature row0 = None" "tr_prediction row0 = None"
    by (rule behind_proxy [OF assms(1) b assms(3-7)])
  obtain row sess fl where leg: "response_leg P clk ?cl key (hb_sig_public_key b) (flipped target c sg rp) (row0, None) = ((row, sess), fl)"
    by (metis prod.exhaust)
  then have "sess = None"
    using response_leg_session by fastforce
  then have txn: "secure_predict_transaction P r clk (through_proxy P target probability draw net) config body True None None None =
      Inr (case fl of Raise e \<Rightarrow> row \<lparr> tr_error := Some (TxnExn e) \<rparr> | _ \<Rightarrow> row, None)"
    by (cases fl) (simp_all add: secure_predict_transaction_def b(3) *(11) leg put_row_def)
  note detected = flipped_response_detected [OF *(1-10,12-14) leg refl, unfolded ids]
  show ?thesis
    by (rule that [OF txn]) (rule detected; (rule assms(9,10))?; assumption)+
qed

text \<open>C22
  Every response the proxy modified is rejected, and the experiment says so: in a run of any
  number of transactions, each behind the proxy to an application in any state of its sessions, every
  row records a detection, at the AEAD layer for a flipped ciphertext and at the signature layer
  for a flipped signature, and the summary's verdict is that all were rejected. AES-GCM and the signature
  scheme are assumed to reject a value whose middle byte was flipped.
\<close>

theorem tampered_responses_rejected:
  assumes "prims_ok P" "json_ok P" "run_model predict body = Inr (result, ms)" "0 < n"
    and "\<And>i. i < n \<Longrightarrow> session_open P predict backend config (resp i) (app i)"
    and "\<And>i. i < n \<Longrightarrow> tn_get_handshake (net i) = Inr (200, Inr (handshake_json (resp i)))"
    and "\<And>i. i < n \<Longrightarrow> tn_predict (net i) = predict_over P predict (rs' i) (clks' i) (app i)"
    and "\<And>i. i < n \<Longrightarrow> draw i < probability" "\<And>i. i < n \<Longrightarrow> b64d (hr_sig_public_key (resp i)) = Inr (pk i)"
    and "target = ''ciphertext'' \<Longrightarrow> gcm_rejects_flips P"
    and "\<And>i. i < n \<Longrightarrow> target \<noteq> ''ciphertext'' \<Longrightarrow> scheme_rejects_flips P (ap_crypto (app i)) (hr_handshake_id (resp i)) (pk i)"
  shows "\<exists>rows. mitm_run P rs clks (\<lambda>i. through_proxy P target probability (draw i) (net i)) body config n target = Inr rows \<and>
     length rows = n \<and> (\<forall>row \<in> set rows. mt_detected row \<and> mt_detection_layer row = Some (expected_layer target)) \<and>
     mu_verdict (tamper_summarize sqrt_f rows config target) = ''ALL TAMPERED RESPONSES REJECTED''"
proof -
  let ?net = "\<lambda>i. through_proxy P target probability (draw i) (net i)"
  define txn where "txn i = bind_res (secure_predict_transaction P (rs i) (clks i) (?net i) config body True None None None)
      (\<lambda>(row, _). Inr (mitm_row_of i config target row))" for i
  have "\<exists>out. txn i = Inr out \<and> mt_detected out \<and> mt_detection_layer out = Some (expected_layer target)" if i: "i < n" for i
  proof -
    obtain row where "secure_predict_transaction P (rs i) (clks i) (?net i) config body True None None None = Inr (row, None)"
        "mt_detected (mitm_row_of i config target row)" "mt_detection_layer (mitm_row_of i config target row) = Some (expected_layer target)"
      by (rule tampered_transaction [OF assms(1) assms(5) [OF i] assms(2,3) assms(6-9) [OF i] assms(10) assms(11) [OF i]])
    then show ?thesis by (simp add: txn_def)
  qed
  then obtain out where out: "\<And>i. i < n \<Longrightarrow> txn i = Inr (out i) \<and> mt_detected (out i) \<and> mt_detection_layer (out i) = Some (expected_layer target)"
    by metis
  have "map_res txn is = Inr (map out is)" if "set is \<subseteq> {..<n}" for "is"
    using that out by (induction "is") auto
  from this [of "[0..<n]"] have run: "mitm_run P rs clks ?net body config n target = Inr (map out [0..<n])"
    by (simp add: mitm_run_def txn_def [abs_def] lessThan_atLeast0 del: bind_res_eq_Inr)
  have rows: "\<forall>row \<in> set (map out [0..<n]). mt_detected row \<and> mt_detection_layer row = Some (expected_layer target)"
    using out by auto
  then show ?thesis
    using assms(4) by (intro exI [of _ "map out [0..<n]"] conjI run) (auto simp: tamper_verdict)
qed

text \<open>
  An instance whose AES-GCM has a real tag: the sum of the plaintext's bytes, which a flipped
  byte changes.
\<close>

definition sum_tag :: "bytes \<Rightarrow> bytes" where
  "sum_tag p = sum_list p # replicate 15 0"

definition tag_prims :: prims where
  "tag_prims = json_prims \<lparr> gcm_encrypt := (\<lambda>k n p a. p @ sum_tag p),
     gcm_decrypt := (\<lambda>k n c a. if 16 \<le> length c \<and> drop (length c - 16) c = sum_tag (take (length c - 16) c)
                               then Some (take (length c - 16) c) else None) \<rparr>"

lemma length_sum_tag [simp]: "length (sum_tag p) = 16"
  by (simp add: sum_tag_def)

lemma tag_prims_ok: "prims_ok tag_prims"
  using json_prims_ok
  by (simp add: tag_prims_def prims_ok_def sha_ok_def aead_ok_def rsa_ok_def ec_ok_def x25519_ok_def kem_ok_def dsa_ok_def)

lemma tag_prims_json: "json_ok tag_prims"
  using json_prims_json by (simp add: tag_prims_def json_ok_def)

lemma sum_list_update_byte:
  "i < length p \<Longrightarrow> sum_list (p[i := x]) = sum_list p - p ! i + (x :: byte)"
  by (induction p arbitrary: i) (auto simp: nth_Cons split: nat.splits)

lemma flipped_byte_sum: "i < length p \<Longrightarrow> sum_list (p[i := xor (p ! i) 255]) \<noteq> sum_list (p :: bytes)"
  using xor_byte_neq [of "p ! i"] by (simp add: sum_list_update_byte)

lemma tag_prims_flips: "gcm_rejects_flips tag_prims"
  unfolding gcm_rejects_flips_def
proof (intro allI impI)
  fix key n p
  let ?c = "p @ sum_tag p" and ?i = "length (p @ sum_tag p) div 2"
  have "drop (length p) (flip_middle ?c) \<noteq> sum_tag (take (length p) (flip_middle ?c))"
  proof (cases "?i < length p")
    case True
    then have "take (length p) (flip_middle ?c) = p[?i := xor (p ! ?i) 255]" "drop (length p) (flip_middle ?c) = sum_tag p"
      by (simp_all add: flip_middle_def nth_append list_update_append)
    then show ?thesis using flipped_byte_sum [OF True] by (simp add: sum_tag_def)
  next
    case False
    then have "take (length p) (flip_middle ?c) = p" by (simp add: flip_middle_def list_update_append)
    moreover have "flip_middle ?c \<noteq> ?c" by (rule flip_middle_other) (simp add: sum_tag_def)
    ultimately show ?thesis by (metis append_take_drop_id)
  qed
  then show "gcm_decrypt tag_prims key n (flip_middle (gcm_encrypt tag_prims key n p None)) None = None"
    by (simp add: tag_prims_def)
qed

definition wit_echo :: "json \<Rightarrow> json res" where
  "wit_echo j = Inr (JObj [(''prediction'', j), (''_inference_ms'', JFloat 1)])"

text \<open>So do the signatures of its \<^verbatim>\<open>full_pqc\<close> server.\<close>

lemma tag_prims_signature_flips: "scheme_rejects_flips tag_prims (FullPqcServer srv) hid pk"
proof -
  have "flip_middle (take 3309 (msg @ replicate 3309 0)) \<noteq> take 3309 (msg @ replicate 3309 0)" for msg :: bytes
  proof (rule flip_middle_other)
    have "length (take 3309 (msg @ replicate 3309 0)) = 3309" by simp
    then show "take 3309 (msg @ replicate 3309 0) \<noteq> []" by (metis list.size(3) zero_neq_numeral)
  qed
  moreover have "3309 - min (length msg) 3309 = 3309 - length msg" for msg :: bytes
    by simp
  ultimately show ?thesis
    unfolding scheme_rejects_flips_def
    by (auto simp: full_pqc_sign_def full_pqc_verify_def MLDSA65_sign_def MLDSA65_verify_def tag_prims_def json_prims_def toy_prims_def
        oqs_sizes cbuf_def split: if_splits option.splits)
qed

lemma tampered_responses_rejected_witness:
  "\<exists>resp app net. session_open tag_prims wit_echo (\<lambda>_ _. []) ''full_pqc'' resp app \<and>
     list_all (\<lambda>target. \<exists>rows. mitm_run tag_prims (\<lambda>_ _ _. 0) (\<lambda>_. wit_txn_clock)
         (\<lambda>_. through_proxy tag_prims target 1 (1 / 2) net) (JInt 7) ''full_pqc'' 3 target = Inr rows \<and>
       length rows = 3 \<and> list_all (\<lambda>row. mt_detected row \<and> mt_detection_layer row = Some (expected_layer target)) rows \<and>
       mu_verdict (tamper_summarize id rows ''full_pqc'' target) = ''ALL TAMPERED RESPONSES REJECTED'')
     [''ciphertext'', ''signature'']"
proof -
  obtain resp app where so: "session_open tag_prims wit_echo (\<lambda>_ _. []) ''full_pqc'' resp app"
    by (rule session_open_exists [OF tag_prims_ok, of "''full_pqc''"]) (simp add: CONFIG_NAMES_def CONFIGS_def)
  obtain b where b: "issued_for (handshake_json resp) b" "get_client_crypto ''full_pqc'' = Inr (server_client (ap_crypto app))"
    using session_openE [OF tag_prims_ok so] .
  then have pk: "b64d (hr_sig_public_key resp) = Inr (hb_sig_public_key b)"
    by (simp add: issued_for_def)
  obtain srv where srv: "ap_crypto app = FullPqcServer srv"
    using b(2) by (cases "ap_crypto app") (auto simp: get_client_crypto_def CONFIGS_def get_item_def)
  fix clk' :: predict_clock
  define net where "net = \<lparr> tn_get_handshake = Inr (200, Inr (handshake_json resp)), tn_get_identity = Inl RuntimeError,
      tn_predict = predict_over tag_prims wit_echo (\<lambda>_ _. 0) clk' app \<rparr>"
  have m: "run_model wit_echo (JInt 7) = Inr (JObj [(''prediction'', JInt 7)], 1)"
    by (simp add: run_model_def wit_echo_def json_pop_def)
  have "\<exists>rows. mitm_run tag_prims (\<lambda>_ _ _. 0) (\<lambda>_. wit_txn_clock)
        (\<lambda>i. through_proxy tag_prims target 1 (1 / 2) net) (JInt 7) ''full_pqc'' 3 target = Inr rows \<and>
     length rows = 3 \<and> (\<forall>row \<in> set rows. mt_detected row \<and> mt_detection_layer row = Some (expected_layer target)) \<and>
     mu_verdict (tamper_summarize id rows ''full_pqc'' target) = ''ALL TAMPERED RESPONSES REJECTED''" for target
    by (rule tampered_responses_rejected [OF tag_prims_ok tag_prims_json m, where resp = "\<lambda>_. resp" and app = "\<lambda>_. app"
          and net = "\<lambda>_. net" and draw = "\<lambda>_. 1 / 2" and pk = "\<lambda>_. hb_sig_public_key b" and rs' = "\<lambda>_ _ _. 0" and clks' = "\<lambda>_. clk'"
          and backend = "\<lambda>_ _. []"])
       (simp_all add: so net_def pk tag_prims_flips srv tag_prims_signature_flips)
  with so show ?thesis
    by (intro exI [of _ resp] exI [of _ app] exI [of _ net]) (simp add: list_all_iff)
qed

end
