(* ===== verification/ReferenceData.thy ===== *)
theory ReferenceData
  imports OqsAdapter
begin

text \<open>
  \<^verbatim>\<open>validation/reference_data.py\<close>: the published parameter sizes the measurements are checked
  against, here without their citations, and the agreement of the buffer sizes of
  \<^verbatim>\<open>crypto/oqs_adapter.py\<close> with them.
\<close>

record kem_parameters =
  kem_name :: string
  kem_security_category :: nat
  kem_public_key_bytes :: nat
  kem_secret_key_bytes :: nat
  kem_ciphertext_bytes :: nat
  kem_shared_secret_bytes :: nat

record signature_parameters =
  dsa_name :: string
  dsa_security_category :: nat
  dsa_public_key_bytes :: nat
  dsa_secret_key_bytes :: nat
  dsa_signature_bytes :: nat

definition FIPS_203_ML_KEM_768 :: kem_parameters where
  "FIPS_203_ML_KEM_768 =
     \<lparr> kem_name = ''ML-KEM-768'', kem_security_category = 3, kem_public_key_bytes = 1184, kem_secret_key_bytes = 2400,
       kem_ciphertext_bytes = 1088, kem_shared_secret_bytes = 32 \<rparr>"

definition FIPS_204_ML_DSA_65 :: signature_parameters where
  "FIPS_204_ML_DSA_65 =
     \<lparr> dsa_name = ''ML-DSA-65'', dsa_security_category = 3, dsa_public_key_bytes = 1952, dsa_secret_key_bytes = 4032,
       dsa_signature_bytes = 3309 \<rparr>"

definition ROUND3_DILITHIUM3_SUPERSEDED :: signature_parameters where
  "ROUND3_DILITHIUM3_SUPERSEDED =
     \<lparr> dsa_name = ''Dilithium3 (superseded, NIST Round 3)'', dsa_security_category = 3, dsa_public_key_bytes = 1952,
       dsa_secret_key_bytes = 4000, dsa_signature_bytes = 3293 \<rparr>"

lemma adapter_buffers_conform:
  "ML_KEM_768_PUBLIC_KEY_BYTES = kem_public_key_bytes FIPS_203_ML_KEM_768"
  "ML_KEM_768_SECRET_KEY_BYTES = kem_secret_key_bytes FIPS_203_ML_KEM_768"
  "ML_KEM_768_CIPHERTEXT_BYTES = kem_ciphertext_bytes FIPS_203_ML_KEM_768"
  "ML_KEM_768_SHARED_SECRET_BYTES = kem_shared_secret_bytes FIPS_203_ML_KEM_768"
  "ML_DSA_65_PUBLIC_KEY_BYTES = dsa_public_key_bytes FIPS_204_ML_DSA_65"
  "ML_DSA_65_SECRET_KEY_BYTES = dsa_secret_key_bytes FIPS_204_ML_DSA_65"
  "ML_DSA_65_SIGNATURE_MAX_BYTES = dsa_signature_bytes FIPS_204_ML_DSA_65"
  by (simp_all add: oqs_sizes FIPS_203_ML_KEM_768_def FIPS_204_ML_DSA_65_def)

record published_throughput =
  pt_platform :: string
  pt_algorithm :: string
  pt_operation :: string
  pt_ops_per_second :: rat

definition pi4 :: string where "pi4 = ''Raspberry Pi 4B (ARM Cortex-A72)''"

definition pi5 :: string where "pi5 = ''Raspberry Pi 5 (ARM Cortex-A76)''"

definition PUBLISHED_THROUGHPUT :: "published_throughput list" where
  "PUBLISHED_THROUGHPUT =
     [\<lparr> pt_platform = pi4, pt_algorithm = ''ML-KEM-768'', pt_operation = ''keygen'', pt_ops_per_second = 2539 \<rparr>,
      \<lparr> pt_platform = pi4, pt_algorithm = ''ML-KEM-768'', pt_operation = ''encaps'', pt_ops_per_second = 3905 \<rparr>,
      \<lparr> pt_platform = pi4, pt_algorithm = ''ML-KEM-768'', pt_operation = ''decaps'', pt_ops_per_second = 25715 / 10 \<rparr>,
      \<lparr> pt_platform = pi5, pt_algorithm = ''ML-KEM-768'', pt_operation = ''keygen'', pt_ops_per_second = 139766 / 10 \<rparr>,
      \<lparr> pt_platform = pi5, pt_algorithm = ''ML-KEM-768'', pt_operation = ''encaps'', pt_ops_per_second = 119006 / 10 \<rparr>,
      \<lparr> pt_platform = pi5, pt_algorithm = ''ML-KEM-768'', pt_operation = ''decaps'', pt_ops_per_second = 96146 / 10 \<rparr>]"

end
