(* ===== verification/SignatureCost.thy ===== *)
theory SignatureCost
  imports StreamingRunner Aggregate ReferenceData
begin

text \<open>
  \<^verbatim>\<open>analysis/streaming_model_validation.py\<close>: the analytical model of what a stream's signatures
  cost, and the check of recorded rows against it. A row is the CSV row of the streaming sweep; the
  primitive benchmark is a table of statistics. A ratio is a rational, or \<open>None\<close> for infinity.
\<close>

section \<open>Constants and tables\<close>

definition ECDSA_P256_DER_MIN_BYTES :: int where
  "ECDSA_P256_DER_MIN_BYTES = 70"

definition ECDSA_P256_DER_MAX_BYTES :: int where
  "ECDSA_P256_DER_MAX_BYTES = 72"

definition ML_DSA_65_SIGNATURE_BYTES :: int where
  "ML_DSA_65_SIGNATURE_BYTES = int (dsa_signature_bytes FIPS_204_ML_DSA_65)"

definition SIG_ALGORITHM_TO_BENCH_KEY :: "(string \<times> string \<times> string) list" where
  "SIG_ALGORITHM_TO_BENCH_KEY = [(''ML-DSA-65'', ''ml_dsa_65'', ''sign''), (''ECDSA-P256-SHA256'', ''classical'', ''ecdsa_p256_sign'')]"

definition SIG_ALGORITHM_TO_COLD_START_KEY :: "(string \<times> string) list" where
  "SIG_ALGORITHM_TO_COLD_START_KEY = [(''ML-DSA-65'', ''ml_dsa_65_sign''), (''ECDSA-P256-SHA256'', ''ecdsa_p256_sign'')]"

record op_stats =
  os_mean_us :: rat
  os_median_us :: rat
  os_p99_us :: rat

record cold_stats =
  os_mean_ms :: rat
  os_max_ms :: rat

record bench_table =
  bt_stats :: "string \<times> string \<rightharpoonup> op_stats"
  bt_cold_start :: "(string \<rightharpoonup> cold_stats) option"

definition sig_algorithm_for_config :: "string \<Rightarrow> string res" where
  "sig_algorithm_for_config config_name = map_sum id srv_sig_algorithm (get_server_crypto config_name)"

section \<open>Predictions\<close>

definition mean_sign_us_and_tolerance :: "string \<Rightarrow> bench_table \<Rightarrow> (rat \<times> rat) res" where
  "mean_sign_us_and_tolerance sig_algorithm primitive_bench =
     bind_res (get_item (map_of SIG_ALGORITHM_TO_BENCH_KEY) sig_algorithm) (\<lambda>key.
     bind_res (get_item (bt_stats primitive_bench) key) (\<lambda>stats.
     Inr (os_mean_us stats, if os_median_us stats \<noteq> 0 then os_p99_us stats / os_median_us stats else 3)))"

definition cold_start_ms_and_tolerance :: "string \<Rightarrow> bench_table \<Rightarrow> (rat \<times> rat) option res" where
  "cold_start_ms_and_tolerance sig_algorithm primitive_bench =
     (case bt_cold_start primitive_bench of
        None \<Rightarrow> Inr None
      | Some cold \<Rightarrow>
          bind_res (get_item (map_of SIG_ALGORITHM_TO_COLD_START_KEY) sig_algorithm) (\<lambda>key.
          Inr (case cold key of
                 None \<Rightarrow> None
               | Some stats \<Rightarrow>
                   Some (os_mean_ms stats, max (3 / 2) (if os_mean_ms stats \<noteq> 0 then os_max_ms stats / os_mean_ms stats else 3 / 2)))))"

definition expected_signature_count :: "string \<Rightarrow> int \<Rightarrow> int option \<Rightarrow> string option \<Rightarrow> int res" where
  "expected_signature_count strategy n_chunks checkpoint_interval protocol_version =
     (if strategy = ''buffer_and_sign'' then Inr 1
      else if strategy = ''per_chunk'' then Inr (max 0 n_chunks + (if protocol_version = Some ''v2'' then 1 else 0))
      else if strategy = ''hash_chain'' then
        (case checkpoint_interval of
           None \<Rightarrow> Inr 1
         | Some k \<Rightarrow> if k \<le> 0 then Inr 1 else Inr (n_chunks div k + 1))
      else Inl ValueError)"

definition expected_signature_bytes :: "string \<Rightarrow> int \<Rightarrow> (int \<times> int) res" where
  "expected_signature_bytes sig_algorithm n_signatures =
     (if sig_algorithm = ''ML-DSA-65'' then Inr (n_signatures * ML_DSA_65_SIGNATURE_BYTES, n_signatures * ML_DSA_65_SIGNATURE_BYTES)
      else if sig_algorithm = ''ECDSA-P256-SHA256'' then
        Inr (n_signatures * ECDSA_P256_DER_MIN_BYTES, n_signatures * ECDSA_P256_DER_MAX_BYTES)
      else Inl ValueError)"

section \<open>One row\<close>

text \<open>\<^verbatim>\<open>int(...)\<close>, \<^verbatim>\<open>float(...)\<close> and string columns of a row; an empty CSV cell is read as NaN.\<close>

definition cell_int :: "cell_value \<Rightarrow> int res" where
  "cell_int v = (case v of
       CNat n \<Rightarrow> Inr (int n) | CInt i \<Rightarrow> Inr i | CRat r \<Rightarrow> Inr (PyValues.truncate r) | CBool b \<Rightarrow> Inr (if b then 1 else 0)
     | CStr s \<Rightarrow> (case parse_int s of None \<Rightarrow> Inl ValueError | Some i \<Rightarrow> Inr i) | CNone \<Rightarrow> Inl ValueError | _ \<Rightarrow> Inl TypeError)"

definition cell_float :: "cell_value \<Rightarrow> rat res" where
  "cell_float v = (case v of
       CNat n \<Rightarrow> Inr (of_nat n) | CInt i \<Rightarrow> Inr (of_int i) | CRat r \<Rightarrow> Inr r | CBool b \<Rightarrow> Inr (if b then 1 else 0)
     | CStr s \<Rightarrow> Inl ValueError | _ \<Rightarrow> Inl TypeError)"

definition cell_str :: "cell_value \<Rightarrow> string res" where
  "cell_str v = (case v of CStr s \<Rightarrow> Inr s | _ \<Rightarrow> Inl TypeError)"

definition row_interval :: "csv_row \<Rightarrow> int option res" where
  "row_interval row =
     (case map_of row ''checkpoint_interval'' of
        None \<Rightarrow> Inr None
      | Some v \<Rightarrow> if v \<in> {CNone, CStr [], CStr ''nan''} then Inr None else map_sum id Some (cell_int v))"

definition row_protocol_version :: "csv_row \<Rightarrow> string option" where
  "row_protocol_version row = (case map_of row ''protocol_version'' of Some (CStr s) \<Rightarrow> Some s | _ \<Rightarrow> None)"

record cold_check =
  cc_predicted_ms :: rat
  cc_timing_ratio :: "rat option"
  cc_timing_ok :: bool
  cc_tolerance_ratio :: rat

record validated_row =
  vr_config :: string
  vr_strategy :: string
  vr_n_chunks :: int
  vr_checkpoint_interval :: "int option"
  vr_checkpoint_interval_assumed :: bool
  vr_sig_algorithm :: string
  vr_expected_signatures :: int
  vr_expected_bytes_min :: int
  vr_expected_bytes_max :: int
  vr_expected_bytes_exact_scheme :: bool
  vr_measured_bytes :: int
  vr_bytes_ok :: bool
  vr_mean_sign_us :: rat
  vr_tolerance_ratio :: rat
  vr_predicted_signing_ms :: rat
  vr_measured_signing_ms :: rat
  vr_timing_ratio :: "rat option"
  vr_timing_ok :: bool
  vr_cold_start :: "cold_check option"

text \<open>\<^verbatim>\<open>(1.0 / tolerance) <= ratio <= tolerance\<close>.\<close>

definition within_tolerance :: "rat \<Rightarrow> rat option \<Rightarrow> bool res" where
  "within_tolerance tolerance ratio =
     (if tolerance = 0 then Inl ZeroDivisionError
      else Inr (case ratio of None \<Rightarrow> False | Some r \<Rightarrow> 1 / tolerance \<le> r \<and> r \<le> tolerance))"

definition warm_timing :: "rat \<Rightarrow> rat \<Rightarrow> rat \<Rightarrow> (rat option \<times> bool) res" where
  "warm_timing predicted measured_ms tolerance =
     (if 0 < predicted then bind_res (within_tolerance tolerance (Some (measured_ms / predicted))) (\<lambda>ok. Inr (Some (measured_ms / predicted), ok))
      else Inr (if measured_ms = 0 then Some 1 else None, measured_ms = 0))"

definition cold_timing :: "string \<Rightarrow> string \<Rightarrow> int \<Rightarrow> rat \<Rightarrow> bench_table \<Rightarrow> cold_check option res" where
  "cold_timing strategy sig_algorithm expected_sigs measured_ms primitive_bench =
     (if strategy \<noteq> ''buffer_and_sign'' then Inr None
      else bind_res (cold_start_ms_and_tolerance sig_algorithm primitive_bench) (\<lambda>cold.
        case cold of
          None \<Rightarrow> Inr None
        | Some (cold_mean_ms, tolerance) \<Rightarrow>
            let predicted = of_int expected_sigs * cold_mean_ms;
                ratio = (if 0 < predicted then Some (measured_ms / predicted) else None) in
            bind_res (within_tolerance tolerance ratio) (\<lambda>ok.
            Inr (Some \<lparr> cc_predicted_ms = predicted, cc_timing_ratio = ratio, cc_timing_ok = ok, cc_tolerance_ratio = tolerance \<rparr>))))"

definition validate_row :: "csv_row \<Rightarrow> bench_table \<Rightarrow> validated_row res" where
  "validate_row row primitive_bench =
     bind_res (bind_res (get_item (map_of row) ''config'') cell_str) (\<lambda>config.
     bind_res (bind_res (get_item (map_of row) ''strategy'') cell_str) (\<lambda>strategy.
     bind_res (bind_res (get_item (map_of row) ''n_chunks'') cell_int) (\<lambda>n_chunks.
     bind_res (row_interval row) (\<lambda>checkpoint_interval.
     bind_res (sig_algorithm_for_config config) (\<lambda>sig_algorithm.
     bind_res (bind_res (get_item (map_of row) ''total_signature_bytes'') cell_int) (\<lambda>measured_bytes.
     bind_res (bind_res (get_item (map_of row) ''total_signing_ms'') cell_float) (\<lambda>measured_signing_ms.
     bind_res (expected_signature_count strategy n_chunks checkpoint_interval (row_protocol_version row)) (\<lambda>expected_sigs.
     bind_res (expected_signature_bytes sig_algorithm expected_sigs) (\<lambda>(bytes_min, bytes_max).
     bind_res (mean_sign_us_and_tolerance sig_algorithm primitive_bench) (\<lambda>(mean_sign_us, tolerance_ratio).
     let predicted = of_int expected_sigs * mean_sign_us / 1000 in
     bind_res (warm_timing predicted measured_signing_ms tolerance_ratio) (\<lambda>(timing_ratio, timing_ok).
     bind_res (cold_timing strategy sig_algorithm expected_sigs measured_signing_ms primitive_bench) (\<lambda>cold.
     Inr \<lparr> vr_config = config, vr_strategy = strategy, vr_n_chunks = n_chunks, vr_checkpoint_interval = checkpoint_interval,
           vr_checkpoint_interval_assumed = (map_of row ''checkpoint_interval'' = None), vr_sig_algorithm = sig_algorithm,
           vr_expected_signatures = expected_sigs, vr_expected_bytes_min = bytes_min, vr_expected_bytes_max = bytes_max,
           vr_expected_bytes_exact_scheme = (sig_algorithm = ''ML-DSA-65''), vr_measured_bytes = measured_bytes,
           vr_bytes_ok = (bytes_min \<le> measured_bytes \<and> measured_bytes \<le> bytes_max), vr_mean_sign_us = mean_sign_us,
           vr_tolerance_ratio = tolerance_ratio, vr_predicted_signing_ms = predicted, vr_measured_signing_ms = measured_signing_ms,
           vr_timing_ratio = timing_ratio, vr_timing_ok = timing_ok, vr_cold_start = cold \<rparr>))))))))))))"

section \<open>All rows\<close>

definition timing_ok_best :: "validated_row \<Rightarrow> bool" where
  "timing_ok_best r = (case vr_cold_start r of None \<Rightarrow> vr_timing_ok r | Some c \<Rightarrow> cc_timing_ok c)"

text \<open>The smaller and the larger of two ratios, and the extrema of a group.\<close>

definition ratio_min :: "rat option \<Rightarrow> rat option \<Rightarrow> rat option" where
  "ratio_min a b = (case (a, b) of (None, _) \<Rightarrow> b | (_, None) \<Rightarrow> a | (Some x, Some y) \<Rightarrow> Some (min x y))"

definition ratio_max :: "rat option \<Rightarrow> rat option \<Rightarrow> rat option" where
  "ratio_max a b = (case (a, b) of (Some x, Some y) \<Rightarrow> Some (max x y) | _ \<Rightarrow> None)"

record cost_group =
  cg_group :: string
  cg_n_rows :: nat
  cg_bytes_ok :: nat
  cg_bytes_exact_scheme :: bool
  cg_timing_ok :: nat
  cg_timing_ratio_min :: "rat option"
  cg_timing_ratio_max :: "rat option"
  cg_tolerance_ratio :: rat
  cg_timing_ok_best :: nat
  cg_used_cold_start_baseline :: bool

record cost_summary =
  cm_total_rows :: nat
  cm_excluded_error_rows :: nat
  cm_validated_rows :: nat
  cm_bytes_ok :: nat
  cm_bytes_all_ok :: bool
  cm_timing_ok :: nat
  cm_timing_all_ok :: bool
  cm_timing_ok_best :: nat
  cm_timing_all_ok_best :: bool

definition count_of :: "('a \<Rightarrow> bool) \<Rightarrow> 'a list \<Rightarrow> nat" where
  "count_of p xs = length (filter p xs)"

definition group_name :: "validated_row \<Rightarrow> string" where
  "group_name r = vr_config r @ ''/'' @ vr_strategy r"

definition summarize_group :: "string \<Rightarrow> validated_row list \<Rightarrow> cost_group" where
  "summarize_group key rows =
     (let group = filter (\<lambda>r. group_name r = key) rows; ratios = map vr_timing_ratio group in
      \<lparr> cg_group = key, cg_n_rows = length group, cg_bytes_ok = count_of vr_bytes_ok group,
        cg_bytes_exact_scheme = vr_expected_bytes_exact_scheme (hd group), cg_timing_ok = count_of vr_timing_ok group,
        cg_timing_ratio_min = foldl ratio_min (hd ratios) (tl ratios), cg_timing_ratio_max = foldl ratio_max (hd ratios) (tl ratios),
        cg_tolerance_ratio = vr_tolerance_ratio (hd group), cg_timing_ok_best = count_of timing_ok_best group,
        cg_used_cold_start_baseline = list_ex (\<lambda>r. vr_cold_start r \<noteq> None) group \<rparr>)"

definition summarize_cost :: "nat \<Rightarrow> nat \<Rightarrow> validated_row list \<Rightarrow> cost_summary" where
  "summarize_cost n_total excluded rows =
     \<lparr> cm_total_rows = n_total, cm_excluded_error_rows = excluded, cm_validated_rows = length rows,
       cm_bytes_ok = count_of vr_bytes_ok rows, cm_bytes_all_ok = (count_of vr_bytes_ok rows = length rows),
       cm_timing_ok = count_of vr_timing_ok rows, cm_timing_all_ok = (count_of vr_timing_ok rows = length rows),
       cm_timing_ok_best = count_of timing_ok_best rows, cm_timing_all_ok_best = (count_of timing_ok_best rows = length rows) \<rparr>"

definition error_free :: "csv_row \<Rightarrow> bool" where
  "error_free row \<longleftrightarrow> map_of row ''error'' \<in> {None, Some CNone, Some (CStr [])}"

definition run_validation :: "csv_row list \<Rightarrow> bench_table \<Rightarrow> (validated_row list \<times> cost_group list \<times> cost_summary) res" where
  "run_validation df primitive_bench =
     (let ok = filter error_free df; n_excluded = length df - length ok in
      bind_res (map_res (\<lambda>r. validate_row r primitive_bench) ok) (\<lambda>rows.
      Inr (rows, map (\<lambda>key. summarize_group key rows) (group_keys group_name rows), summarize_cost (length df) n_excluded rows)))"

end
