(* ===== verification/SignatureCostProofs.thy ===== *)
theory SignatureCostProofs
  imports SignatureCost HarvestBounds AppSteps
begin

text \<open>
  Why the cost model of \<open>SignatureCost\<close> predicts an honest stream: the server's rows carry
  signatures of the scheme's length, the client adds up what they claim and counts one signature
  per signed row, and the number of signed rows is the strategy's. \<open>cost_contract\<close> extends the
  harvesting contract by the model's count; every strategy interprets it.
\<close>

section \<open>The client's books\<close>

text \<open>A wire row whose signature, if it has one, is claimed with \<open>lo\<close> to \<open>hi\<close> bytes.\<close>

fun claims_within :: "nat \<Rightarrow> nat \<Rightarrow> string row \<Rightarrow> bool" where
  "claims_within lo hi (Chunk c) =
     (case ck_signature c of
        None \<Rightarrow> ck_signature_bytes c = 0
      | Some s \<Rightarrow> s \<noteq> [] \<and> b64d s \<noteq> Inr [] \<and> lo \<le> ck_signature_bytes c \<and> ck_signature_bytes c \<le> hi)"
| "claims_within lo hi (FinalBuffered f) = (lo \<le> fb_signature_bytes f \<and> fb_signature_bytes f \<le> hi)"
| "claims_within lo hi (FinalPerChunk f) = (lo \<le> pe_signature_bytes f \<and> pe_signature_bytes f \<le> hi)"
| "claims_within lo hi (FinalChain f) = (lo \<le> fc_signature_bytes f \<and> fc_signature_bytes f \<le> hi)"

definition books_within :: "nat \<Rightarrow> nat \<Rightarrow> stream_client \<Rightarrow> bool" where
  "books_within lo hi st \<longleftrightarrow>
     lo * sm_n_signatures (sc_metrics st) \<le> sm_total_signature_bytes (sc_metrics st) \<and>
     sm_total_signature_bytes (sc_metrics st) \<le> hi * sm_n_signatures (sc_metrics st)"

definition counts_chunks :: "session_view \<Rightarrow> bool" where
  "counts_chunks v \<longleftrightarrow> sv_strategy v \<in> {''per_chunk'', ''hash_chain''}"

lemma ttft_books [simp]:
  "books_within lo hi (set_ttft t a st) = books_within lo hi st"
  "sm_n_chunks (sc_metrics (set_ttft t a st)) = sm_n_chunks (sc_metrics st)"
  by (simp_all add: books_within_def set_ttft_def)

text \<open>What one row adds to the counts: signature bytes, signatures, chunks.\<close>

definition counts :: "stream_client \<Rightarrow> nat \<times> nat \<times> nat" where
  "counts st = (sm_total_signature_bytes (sc_metrics st), sm_n_signatures (sc_metrics st), sm_n_chunks (sc_metrics st))"

lemma counts_cover [simp]: "counts (cover_pending now st) = counts st"
  by (simp add: counts_def cover_pending_def split: list.splits)

lemma counts_after:
  "counts st = (b, n, c) \<Longrightarrow> counts (after_per_chunk ev ck pr st) = (b + ck_signature_bytes ck, n + 1, c + 1)"
  "counts st = (b, n, c) \<Longrightarrow> counts (after_hash_chunk ev ck cs hr st) =
     (b + ck_signature_bytes ck, if hr_checkpoint hr then n + 1 else n, c + 1)"
  "counts st = (b, n, c) \<Longrightarrow> counts (after_final_buffered fb br st) = (b + fb_signature_bytes fb, n + 1, c)"
  "counts st = (b, n, c) \<Longrightarrow> counts (after_final_per_chunk fe pf st) = (b + pe_signature_bytes fe, n + 1, c)"
  "counts st = (b, n, c) \<Longrightarrow> counts (after_final_chain ev fc hf st) = (b + fc_signature_bytes fc, n + 1, c)"
  by (simp_all add: after_per_chunk_def after_hash_chunk_def after_final_buffered_def after_final_per_chunk_def after_final_chain_def
      Let_def if_distrib [of counts] cong: if_cong)
     (simp_all add: counts_def add_costs_def)

lemma books_counts: "counts st = (b, n, c) \<Longrightarrow> books_within lo hi st \<longleftrightarrow> lo * n \<le> b \<and> b \<le> hi * n"
  by (simp add: counts_def books_within_def)

text \<open>The call of a row that did not raise, by the kind of the row.\<close>

lemma on_row_after:
  assumes "on_row P v ev row st = Inr st'"
  shows "case row of
      Chunk c \<Rightarrow>
        (sv_strategy v = ''per_chunk'' \<and> ck_signature c \<noteq> None \<and> (\<exists>res. st' = after_per_chunk ev c res st)) \<or>
        (sv_strategy v = ''hash_chain'' \<and> (\<exists>chunk cs res. decode_hc_chunk c = Inr chunk \<and>
            hr_checkpoint res = truthy_bytes (hk_signature chunk) \<and> st' = after_hash_chunk ev c cs res st)) \<or>
        (\<not> counts_chunks v \<and> st' = st)
    | FinalBuffered f \<Rightarrow> (\<exists>res. st' = after_final_buffered f res st)
    | FinalPerChunk f \<Rightarrow> (\<exists>res. st' = after_final_per_chunk f res st)
    | FinalChain f \<Rightarrow> (\<exists>res. st' = after_final_chain ev f res st)"
proof (cases row)
  case (Chunk c)
  have ck: "hr_checkpoint res = truthy_bytes (hk_signature chunk)"
    if "verify_hash_chain_chunk P sp chunk cs key (Some pk) (Some cl) = Inr (cs', res)" for sp chunk cs key pk cl cs' res
    using that by (auto simp: verify_hash_chain_chunk_Inr checkpoint_check_some split: if_splits)
  consider "sv_strategy v = ''per_chunk''" | "sv_strategy v = ''hash_chain''" | "\<not> counts_chunks v"
    by (auto simp: counts_chunks_def)
  then show ?thesis
  proof cases
    case 1
    then have "on_per_chunk P v ev c st = Inr st'"
      using assms Chunk by (simp add: on_row_def)
    then obtain chunk res where "decode_pc_chunk c = Inr chunk" "st' = after_per_chunk ev c res st"
      unfolding on_per_chunk_def bind_res_eq_Inr by blast
    then show ?thesis
      using 1 Chunk by (auto simp: decode_pc_chunk_def b64d_field_def split: option.splits)
  next
    case 2
    then have "on_hash_chunk P v ev c st = Inr st'"
      using assms Chunk by (simp add: on_row_def)
    then obtain chunk cs cs' res where h: "decode_hc_chunk c = Inr chunk" "st' = after_hash_chunk ev c cs' res st"
        "verify_hash_chain_chunk P (ev_span ev) chunk cs (sv_key v) (Some (sv_sig_public_key v)) (Some (sv_client v)) = Inr (cs', res)"
      unfolding on_hash_chunk_def bind_res_eq_Inr by (auto simp del: bind_res_eq_Inr)
    show ?thesis
      using 2 Chunk h(1,2) ck [OF h(3)] by auto
  next
    case 3
    then show ?thesis
      using assms Chunk by (simp add: on_row_def counts_chunks_def)
  qed
next
  case (FinalBuffered f)
  then show ?thesis
    using assms unfolding on_row_def on_final_buffered_def by (simp only: row.case bind_res_eq_Inr) blast
next
  case (FinalPerChunk f)
  then show ?thesis
    using assms unfolding on_row_def on_final_per_chunk_def by (simp only: row.case bind_res_eq_Inr) blast
next
  case (FinalChain f)
  then show ?thesis
    using assms unfolding on_row_def on_final_chain_def by (simp only: row.case bind_res_eq_Inr) blast
qed

lemma decoded_signature:
  "claims_within lo hi (Chunk c) \<Longrightarrow> decode_hc_chunk c = Inr chunk \<Longrightarrow> truthy_bytes (hk_signature chunk) \<longleftrightarrow> ck_signature c \<noteq> None"
  by (auto simp: decode_hc_chunk_def split: option.splits if_splits)

lemma on_row_books:
  assumes "claims_within lo hi row" "on_row P v ev row st = Inr st'" "books_within lo hi st"
  shows "books_within lo hi st'"
proof -
  obtain b n c where cn: "counts st = (b, n, c)"
    by (metis prod.exhaust)
  then have bn: "lo * n \<le> b" "b \<le> hi * n"
    using assms(3) by (simp_all add: books_counts)
  note after = counts_after [OF cn, THEN books_counts]
  show ?thesis
  proof (cases row)
    case (Chunk ck)
    then show ?thesis
      using on_row_after [OF assms(2)] assms(1,3) bn decoded_signature [OF assms(1) [unfolded Chunk]]
      by (auto simp: after split: option.splits)
  qed (use on_row_after [OF assms(2)] assms(1) bn in \<open>auto simp: after\<close>)
qed

lemma on_row_chunks:
  assumes "counts_chunks v" "on_row P v ev row st = Inr st'"
  shows "sm_n_chunks (sc_metrics st') = sm_n_chunks (sc_metrics st) + (if is_chunk_row row then 1 else 0)"
proof -
  obtain b n c where cn: "counts st = (b, n, c)"
    by (metis prod.exhaust)
  have chunks: "sm_n_chunks (sc_metrics s) = snd (snd (counts s))" for s
    by (simp add: counts_def)
  show ?thesis
    using on_row_after [OF assms(2)] assms(1)
    by (auto simp: chunks cn counts_after [OF cn] split: row.splits)
qed

fun is_chunk_line :: "sse_line \<Rightarrow> bool" where
  "is_chunk_line (DataRow row) = is_chunk_row row"
| "is_chunk_line _ = False"

lemma consume_books:
  "consume P v t evs st = (st', None) \<Longrightarrow> \<forall>ev \<in> set evs. \<forall>row. ev_line ev = DataRow row \<longrightarrow> claims_within lo hi row \<Longrightarrow>
   books_within lo hi st \<Longrightarrow> books_within lo hi st'"
proof (induction evs arbitrary: st)
  case (Cons ev evs)
  obtain st1 where st1: "on_event P v t ev st = (st1, None)" "consume P v t evs st1 = (st', None)"
    using Cons.prems(1) by (auto split: prod.splits option.splits)
  have "books_within lo hi st1"
    using st1(1) Cons.prems(2,3) by (auto simp: on_event_def split: sse_line.splits sum.splits intro: on_row_books)
  then show ?case
    using Cons.IH [OF st1(2)] Cons.prems(2) by simp
qed simp

lemma consume_chunks:
  "consume P v t evs st = (st', None) \<Longrightarrow> counts_chunks v \<Longrightarrow>
   sm_n_chunks (sc_metrics st') = sm_n_chunks (sc_metrics st) + length (filter is_chunk_line (map ev_line evs))"
proof (induction evs arbitrary: st)
  case (Cons ev evs)
  obtain st1 where st1: "on_event P v t ev st = (st1, None)" "consume P v t evs st1 = (st', None)"
    using Cons.prems(1) by (auto split: prod.splits option.splits)
  have "sm_n_chunks (sc_metrics st1) = sm_n_chunks (sc_metrics st) + (if is_chunk_line (ev_line ev) then 1 else 0)"
    using st1(1) on_row_chunks [OF Cons.prems(2)] by (auto simp: on_event_def split: sse_line.splits sum.splits)
  then show ?case
    using Cons.IH [OF st1(2) Cons.prems(2)] by simp
qed simp

section \<open>The server's signatures\<close>

definition signs_within :: "prims \<Rightarrow> server_crypto \<Rightarrow> string \<Rightarrow> nat \<Rightarrow> nat \<Rightarrow> bool" where
  "signs_within P srv h lo hi \<longleftrightarrow>
     (\<forall>t sp msg sg m. srv_sign P t sp srv h msg = Inr (sg, m) \<longrightarrow> lo \<le> length sg \<and> length sg \<le> hi)"

lemma signs_withinD: "signs_within P srv h lo hi \<Longrightarrow> srv_sign P t sp srv h msg = Inr (sg, m) \<Longrightarrow> lo \<le> length sg \<and> length sg \<le> hi"
  unfolding signs_within_def by blast

fun strat_handshake :: "strategy \<Rightarrow> string" where
  "strat_handshake (BufferAndSign s) = bs_handshake_id s"
| "strat_handshake (PerChunk s) = pc_handshake_id s"
| "strat_handshake (HashChain s) = hc_handshake_id s"

lemma strat_add_chunk_claims:
  assumes "signs_within P srv (strat_handshake st) lo hi" "0 < lo" "strat_add_chunk P r sp srv c i st = Inr (st', out)"
  shows "strat_handshake st' = strat_handshake st \<and> (\<forall>row. out = Some row \<longrightarrow> claims_within lo hi (encode_for_wire row))"
proof -
  note w = signs_withinD [OF assms(1)]
  show ?thesis
    using assms(2,3) w
    by (cases st) (fastforce simp: buf_add_chunk_def pc_add_chunk_def hc_add_chunk_def encode_chunk_def Let_def split: if_splits)+
qed

lemma strat_finalize_claims:
  assumes "signs_within P srv (strat_handshake st) lo hi" "strat_finalize P r sp srv n st = Inr (Some row)"
  shows "claims_within lo hi (encode_for_wire row)"
  using assms(2) signs_withinD [OF assms(1)]
  by (cases st) (fastforce simp: buf_finalize_def pc_finalize_def hc_finalize_def)+

lemma run_chunks_claims:
  "run_chunks P rs sps srv st cs i = Inr rows \<Longrightarrow> signs_within P srv (strat_handshake st) lo hi \<Longrightarrow> 0 < lo \<Longrightarrow>
   row \<in> set rows \<Longrightarrow> claims_within lo hi (encode_for_wire row)"
proof (induction cs arbitrary: st i rows)
  case Nil
  then obtain final where "strat_finalize P (rs i) (sps i) srv (int i) st = Inr final" "rows = (case final of None \<Rightarrow> [] | Some row \<Rightarrow> [row])"
    by auto
  then show ?case
    using Nil.prems(4) strat_finalize_claims [OF Nil.prems(2), of "rs i" "sps i" "int i" row] by (cases final) simp_all
next
  case (Cons c cs)
  obtain st1 out rest where r: "strat_add_chunk P (rs i) (sps i) srv c (int i) st = Inr (st1, out)"
      "run_chunks P rs sps srv st1 cs (Suc i) = Inr rest" "rows = (case out of None \<Rightarrow> rest | Some row \<Rightarrow> row # rest)"
    using Cons.prems(1) by auto
  note add = strat_add_chunk_claims [OF Cons.prems(2,3) r(1)]
  then show ?case
    using Cons.IH [OF r(2)] Cons.prems(2-4) r(3) by (auto split: option.splits)
qed

text \<open>The length of an ML-DSA-65 signature is fixed; that of a DER-encoded ECDSA signature is not.\<close>

lemma mldsa_signs_within:
  assumes "prims_ok P" "srv_holds P srv b" "srv_sig_algorithm srv = ''ML-DSA-65''"
  shows "signs_within P srv (hb_handshake_id b) 3309 3309"
proof -
  have ok: "dsa_ok P" using assms(1) by (simp add: prims_ok_def)
  have len: "length sg = 3309" if "MLDSA65_keypair P t = Inr skp" "MLDSA65_sign P t' m (sp_secret_key skp) = Inr sg" for t skp t' m sg
    using MLDSA65_sign_verify [OF ok that(1), of t' m] that(2) by auto
  show ?thesis
    using assms(2,3) len
    by (cases srv)
       (fastforce simp: signs_within_def classical_sig_algorithm_def ecdhe_sig_algorithm_def hybrid_sig_algorithm_def
          hybrid_kex_sig_algorithm_def full_pqc_holds_def hybrid_kex_pq_holds_def config_simps)+
qed

section \<open>The contract of a strategy\<close>

text \<open>What the client echoes from its request never changes.\<close>

definition labels :: "stream_client \<Rightarrow> string \<times> string \<times> int option" where
  "labels st = (sm_config (sc_metrics st), sm_strategy (sc_metrics st), sm_checkpoint_interval (sc_metrics st))"

lemma labels_cover [simp]: "labels (cover_pending now st) = labels st" "labels (set_ttft t a st) = labels st"
  by (simp_all add: labels_def cover_pending_def set_ttft_def split: list.splits)

lemma labels_after:
  "labels (after_per_chunk ev ck pr st) = labels st" "labels (after_hash_chunk ev ck cs hr st) = labels st"
  "labels (after_final_buffered fb br st) = labels st" "labels (after_final_per_chunk fe pf st) = labels st"
  "labels (after_final_chain ev fc hf st) = labels st"
  by (simp_all add: after_per_chunk_def after_hash_chunk_def after_final_buffered_def after_final_per_chunk_def after_final_chain_def
      Let_def if_distrib [of labels] cong: if_cong)
     (simp_all add: labels_def add_costs_def)

lemma on_row_labels: "on_row P v ev row st = Inr st' \<Longrightarrow> labels st' = labels st"
  by (drule on_row_after) (auto simp: labels_after split: row.splits)

lemma consume_labels: "consume P v t evs st = (st', None) \<Longrightarrow> labels st' = labels st"
proof (induction evs arbitrary: st)
  case (Cons ev evs)
  obtain st1 where st1: "on_event P v t ev st = (st1, None)" "consume P v t evs st1 = (st', None)"
    using Cons.prems by (auto split: prod.splits option.splits)
  have "labels st1 = labels st"
    using st1(1) by (auto simp: on_event_def split: sse_line.splits sum.splits dest: on_row_labels)
  then show ?case
    using Cons.IH [OF st1(2)] by simp
qed simp

lemma sse_lines_rows: "DataRow row \<in> set (sse_lines rows) \<Longrightarrow> \<exists>r \<in> set rows. row = encode_for_wire r"
  by (auto simp: sse_lines_def)

lemma sse_lines_chunks: "length (filter is_chunk_line (sse_lines rows)) = length (filter is_chunk_row rows)"
proof -
  have "filter is_chunk_line (concat (map (\<lambda>row. [DataRow (encode_for_wire row), NonData]) rows)) =
      map (\<lambda>row. DataRow (encode_for_wire row)) (filter is_chunk_row rows)"
    by (induction rows) simp_all
  then show ?thesis
    by (simp add: sse_lines_def)
qed

locale cost_contract = harvest_contract +
  assumes cost: "\<forall>d. k = Some d \<longrightarrow> 0 \<le> d \<Longrightarrow>
      expected_signature_count name (int (n_chunk_rows n)) k (Some STREAM_PROTOCOL_VERSION) = Inr (int (n_sigs k n))"
    and counted: "name \<in> {''per_chunk'', ''hash_chain''} \<or> name = ''buffer_and_sign'' \<and> (\<forall>k n. n_sigs k n = 1)"
    and for_handshake: "strat_handshake (init P h key k) = h"
begin

lemma costed:
  assumes "prims_ok P" "srv_holds P (ap_crypto app) b" "issued_for hs b"
    and "get_client_crypto config = Inr (server_client (ap_crypto app))"
    and "json_loads P (json_dumps P (stream_request_body prompt name c mx k)) = Some (stream_request_body prompt name c mx k)"
    and "length (backend (JStr prompt) (max 1 mx)) + 1 < 2 ^ 32"
    and "nt_handshake net = Inr (hs, hms)" "nt_stream net = stream_over P backend rs sps sp' clk app"
    and "\<forall>d. k = Some d \<longrightarrow> 0 \<le> d"
  obtains m where "run_streaming_transaction P r sp net t0 t1 config prompt name c mx k =
      Inr (m, encode (concat (backend (JStr prompt) (max 1 mx))))"
    and "sm_error m = None" "sm_config m = config" "sm_strategy m = name" "sm_checkpoint_interval m = k"
    and "expected_signature_count name (int (sm_n_chunks m)) k (Some STREAM_PROTOCOL_VERSION) = Inr (int (sm_n_signatures m))"
    and "\<forall>lo hi. 0 < lo \<longrightarrow> signs_within P (ap_crypto app) (hb_handshake_id b) lo hi \<longrightarrow>
      lo * sm_n_signatures m \<le> sm_total_signature_bytes m \<and> sm_total_signature_bytes m \<le> hi * sm_n_signatures m"
proof -
  let ?cs = "chunk_groups c (backend (JStr prompt) (max 1 mx))"
  let ?m = "(init_metrics config name c mx k) \<lparr> sm_handshake_ms := Some hms \<rparr>"
  obtain v rows st where t: "matched P (ap_crypto app) b v" "sv_strategy v = name"
      "run_chunks P rs sps (ap_crypto app) (init P (sv_handshake_id v) (sv_key v) k) ?cs 0 = Inr rows"
      "consume P v t0 (deliver clk (sse_lines rows)) (start_client P v k ?m) = (st, None)"
      "delivered st (concat ?cs) (n_sigs k (length ?cs)) (sum_list (map row_signature_bytes rows))"
      "run_streaming_transaction P r sp net t0 t1 config prompt name c mx k = Inr (wrap_up t0 t1 st, sc_reconstructed st)"
      "sm_error (sc_metrics st) = None"
    by (rule transaction_rows [where backend = backend and r = r and sp = sp and ?t0.0 = t0 and ?t1.0 = t1, OF assms(1-8)])
  let ?w = "wrap_up t0 t1 st"
  have wrap: "sm_n_chunks ?w = sm_n_chunks (sc_metrics st)" "sm_n_signatures ?w = sm_n_signatures (sc_metrics st)"
      "sm_total_signature_bytes ?w = sm_total_signature_bytes (sc_metrics st)" "sm_config ?w = sm_config (sc_metrics st)"
      "sm_strategy ?w = sm_strategy (sc_metrics st)" "sm_checkpoint_interval ?w = sm_checkpoint_interval (sc_metrics st)"
    by (simp_all add: wrap_up_def Let_def)
  have hid: "strat_handshake (init P (sv_handshake_id v) (sv_key v) k) = hb_handshake_id b"
    using t(1) by (simp add: for_handshake matched_def)
  have claims: "claims_within lo hi row" if "ev \<in> set (deliver clk (sse_lines rows))" "ev_line ev = DataRow row"
      "signs_within P (ap_crypto app) (hb_handshake_id b) lo hi" "0 < lo" for ev row lo hi
  proof -
    have "DataRow row \<in> set (sse_lines rows)"
      using that(1,2) deliver_lines [of clk "sse_lines rows"] by (metis image_eqI list.set_map)
    then obtain r where "r \<in> set rows" "row = encode_for_wire r"
      using sse_lines_rows by blast
    then show ?thesis
      using run_chunks_claims [OF t(3) that(3) [folded hid] that(4)] by blast
  qed
  have books: "books_within lo hi st" if "signs_within P (ap_crypto app) (hb_handshake_id b) lo hi" "0 < lo" for lo hi
    using claims [OF _ _ that] by (intro consume_books [OF t(4)]) (auto simp: books_within_def start_client_def init_metrics_def)
  have sigs: "sm_n_signatures (sc_metrics st) = n_sigs k (length ?cs)"
    using t(5) by (simp add: delivered_def)
  have count: "expected_signature_count name (int (sm_n_chunks (sc_metrics st))) k (Some STREAM_PROTOCOL_VERSION) =
      Inr (int (sm_n_signatures (sc_metrics st)))"
  proof (cases "name = ''buffer_and_sign''")
    case True
    then show ?thesis
      using counted by (auto simp: expected_signature_count_def sigs)
  next
    case False
    then have "counts_chunks v"
      using counted t(2) by (auto simp: counts_chunks_def)
    from consume_chunks [OF t(4) this] have "sm_n_chunks (sc_metrics st) = length (filter is_chunk_row rows)"
      by (simp add: start_client_def init_metrics_def sse_lines_chunks)
    moreover have "length (filter is_chunk_row rows) = n_chunk_rows (length ?cs)"
      using shape [OF _ t(3)] assms(1) by (simp add: prims_ok_def)
    ultimately show ?thesis
      using cost [OF assms(9), of "length ?cs"] sigs by simp
  qed
  have "labels st = (config, name, k)"
    using consume_labels [OF t(4)] by (simp add: labels_def start_client_def init_metrics_def)
  then show ?thesis
    using t(5,6,7) books count
    by (intro that [of ?w]) (auto simp: wrap labels_def books_within_def delivered_def chunk_groups_concat)
qed

end

interpretation pc_cost: cost_contract "''per_chunk''" "\<lambda>P h key k. PerChunk (pc_init P h key)" "\<lambda>k n. n + 1" "\<lambda>cs. cs" "\<lambda>n. n"
  by unfold_locales (simp_all add: expected_signature_count_def STREAM_PROTOCOL_VERSION_def pc_init_def)

lemma chain_count:
  assumes "\<forall>d. k = Some d \<longrightarrow> 0 \<le> d"
  shows "expected_signature_count ''hash_chain'' (int n) k v = Inr (int (ckp_count k 0 n + 1))"
proof (cases k)
  case (Some d)
  show ?thesis
  proof (cases "d = 0")
    case False
    then have "0 < d" using assms Some by force
    then show ?thesis
      using Some ckp_count_div [of d n] by (simp add: expected_signature_count_def zdiv_int)
  qed (simp add: Some expected_signature_count_def ckp_count_def ckp_due_def)
qed (simp add: expected_signature_count_def ckp_count_None)

interpretation hc_cost: cost_contract "''hash_chain''" "\<lambda>P h key k. HashChain (hc_init P h key k)"
  "\<lambda>k n. ckp_count k 0 n + 1" "\<lambda>cs. cs" "\<lambda>n. n"
  by unfold_locales (simp_all add: chain_count hc_init_def)

interpretation buf_cost: cost_contract "''buffer_and_sign''" "\<lambda>P h key k. BufferAndSign (buf_init P h key)" "\<lambda>k n. 1" "\<lambda>cs. [concat cs]" "\<lambda>n. 0"
  by unfold_locales (simp_all add: expected_signature_count_def buf_init_def)

end
