(* ===== verification/CostProperties.thy ===== *)
theory CostProperties
  imports SignatureCostProofs ToySessions
begin

text \<open>
  What the cost validation says of the row of an honest stream, and the bookkeeping of its report.
\<close>

section \<open>The model predicts an honest stream\<close>

lemma server_client_algorithm:
  "server_client s = server_client s' \<Longrightarrow> srv_sig_algorithm s = srv_sig_algorithm s'"
  by (cases s; cases s') simp_all

lemma srv_sig_algorithm_cases: "srv_sig_algorithm srv \<in> {''ML-DSA-65'', ''ECDSA-P256-SHA256''}"
  by (cases srv) (simp_all add: classical_sig_algorithm_def ecdhe_sig_algorithm_def hybrid_sig_algorithm_def
      hybrid_kex_sig_algorithm_def full_pqc_sig_algorithm_def hybrid_kex_pq_sig_algorithm_def MLDSA65_ALGORITHM_def)

text \<open>The benchmark has usable statistics for a scheme.\<close>

definition benchmarked :: "bench_table \<Rightarrow> string \<Rightarrow> bool" where
  "benchmarked bench alg \<longleftrightarrow> (\<exists>key st. map_of SIG_ALGORITHM_TO_BENCH_KEY alg = Some key \<and> bt_stats bench key = Some st \<and>
     0 < os_median_us st \<and> 0 < os_p99_us st)"

lemma cold_timing_total:
  assumes "alg \<in> {''ML-DSA-65'', ''ECDSA-P256-SHA256''}"
  shows "\<exists>cold. cold_timing strategy alg n ms bench = Inr cold"
proof (cases "cold_start_ms_and_tolerance alg bench")
  case (Inl e)
  then show ?thesis
    using assms by (auto simp: cold_start_ms_and_tolerance_def get_item_def SIG_ALGORITHM_TO_COLD_START_KEY_def split: option.splits)
next
  case (Inr x)
  have "t \<noteq> 0" if "x = Some (m, t)" for m t
    using Inr that by (auto simp: cold_start_ms_and_tolerance_def max_def split: option.splits if_splits)
  then show ?thesis
    using Inr by (cases x) (auto simp: cold_timing_def within_tolerance_def Let_def)
qed

text \<open>
  The verdicts on a row of \<open>n\<close> signatures: the bytes against the product, exact for ML-DSA-65 and
  between 70 and 72 per signature for ECDSA; the signing time against the benchmarked mean,
  within the scheme's own p99 over median.
\<close>

definition bytes_verdict :: "string \<Rightarrow> nat \<Rightarrow> nat \<Rightarrow> bool" where
  "bytes_verdict alg n b \<longleftrightarrow> (if alg = ''ML-DSA-65'' then b = 3309 * n else 70 * n \<le> b \<and> b \<le> 72 * n)"

definition timing_verdict :: "rat \<Rightarrow> rat \<Rightarrow> rat \<Rightarrow> bool" where
  "timing_verdict predicted ms tol \<longleftrightarrow> (if 0 < predicted then 1 / tol \<le> ms / predicted \<and> ms / predicted \<le> tol else ms = 0)"

lemma validate_row_judges:
  assumes "get_server_crypto config = Inr srv" "benchmarked bench (srv_sig_algorithm srv)"
    and "sm_config m = config" "sm_strategy m = strategy" "sm_checkpoint_interval m = k"
    and "expected_signature_count strategy (int (sm_n_chunks m)) k (Some STREAM_PROTOCOL_VERSION) = Inr (int (sm_n_signatures m))"
  shows "\<exists>v us tol. validate_row (stream_csv_row m mx c rep rid backend) bench = Inr v \<and>
     vr_expected_signatures v = int (sm_n_signatures m) \<and> \<not> vr_checkpoint_interval_assumed v \<and>
     vr_measured_bytes v = int (sm_total_signature_bytes m) \<and>
     vr_bytes_ok v = bytes_verdict (srv_sig_algorithm srv) (sm_n_signatures m) (sm_total_signature_bytes m) \<and>
     mean_sign_us_and_tolerance (srv_sig_algorithm srv) bench = Inr (us, tol) \<and>
     vr_predicted_signing_ms v = of_nat (sm_n_signatures m) * us / 1000 \<and> vr_measured_signing_ms v = sm_total_signing_ms m \<and>
     vr_timing_ok v = timing_verdict (of_nat (sm_n_signatures m) * us / 1000) (sm_total_signing_ms m) tol"
proof -
  let ?row = "stream_csv_row m mx c rep rid backend" and ?alg = "srv_sig_algorithm srv"
  let ?n = "int (sm_n_signatures m)"
  have cells: "get_item (map_of ?row) ''config'' = Inr (CStr config)" "get_item (map_of ?row) ''strategy'' = Inr (CStr strategy)"
      "get_item (map_of ?row) ''n_chunks'' = Inr (CNat (sm_n_chunks m))"
      "get_item (map_of ?row) ''total_signature_bytes'' = Inr (CNat (sm_total_signature_bytes m))"
      "get_item (map_of ?row) ''total_signing_ms'' = Inr (CRat (sm_total_signing_ms m))"
      "map_of ?row ''checkpoint_interval'' = Some (opt_value CInt k)"
      "map_of ?row ''protocol_version'' = Some (CStr STREAM_PROTOCOL_VERSION)"
    using assms(3-5) by (simp_all add: stream_csv_row_def get_item_def)
  have interval: "row_interval ?row = Inr k"
    by (cases k) (simp_all add: row_interval_def cells opt_value_def cell_int_def)
  have version: "row_protocol_version ?row = Some STREAM_PROTOCOL_VERSION"
    by (simp add: row_protocol_version_def cells)
  have alg: "sig_algorithm_for_config config = Inr ?alg"
    by (simp add: sig_algorithm_for_config_def assms(1))
  obtain lo hi where bytes: "expected_signature_bytes ?alg ?n = Inr (lo, hi)"
      "(lo \<le> int (sm_total_signature_bytes m) \<and> int (sm_total_signature_bytes m) \<le> hi) =
        bytes_verdict ?alg (sm_n_signatures m) (sm_total_signature_bytes m)"
    using srv_sig_algorithm_cases [of srv]
    by (fastforce simp: expected_signature_bytes_def bytes_verdict_def ML_DSA_65_SIGNATURE_BYTES_def FIPS_204_ML_DSA_65_def
        ECDSA_P256_DER_MIN_BYTES_def ECDSA_P256_DER_MAX_BYTES_def)
  obtain us tol where warm: "mean_sign_us_and_tolerance ?alg bench = Inr (us, tol)" "tol \<noteq> 0"
    using assms(2) by (auto simp: benchmarked_def mean_sign_us_and_tolerance_def)
  obtain ratio where timing: "warm_timing (of_int ?n * us / 1000) (sm_total_signing_ms m) tol =
      Inr (ratio, timing_verdict (of_nat (sm_n_signatures m) * us / 1000) (sm_total_signing_ms m) tol)"
    using warm(2) by (cases "0 < of_int ?n * us / 1000") (simp_all add: warm_timing_def within_tolerance_def timing_verdict_def)
  obtain cold where cold: "cold_timing strategy ?alg ?n (sm_total_signing_ms m) bench = Inr cold"
    using cold_timing_total [OF srv_sig_algorithm_cases] by blast
  show ?thesis
    unfolding validate_row_def
    by (simp add: cells interval version alg assms(6) bytes warm(1) timing cold cell_str_def cell_int_def cell_float_def Let_def
        del: bind_res_eq_Inr of_int_of_nat_eq)
qed

text \<open>C23
  What the cost model says of an honest streaming transaction, end to end, over any configuration
  and strategy: its CSV row validates, records its interval, and is expected to hold exactly
  the signatures the client counted. An ML-DSA-65 row always has the exact bytes. An ECDSA row is
  judged by 70 to 72 bytes per signature, and its bytes are between its count times the
  shortest and the longest signature of the server. The timing verdict compares the recorded
  signing time with the count times the benchmarked mean, within the scheme's p99 over median.
\<close>

theorem stream_cost_predicted:
  assumes "prims_ok P" "session_open P predict backend config resp app" "strategy \<in> set STRATEGY_NAMES"
    and "json_loads P (json_dumps P (stream_request_body prompt strategy c mx k)) = Some (stream_request_body prompt strategy c mx k)"
    and "length (backend (JStr prompt) (max 1 mx)) + 1 < 2 ^ 32"
    and "nt_handshake net = Inr (handshake_json resp, hms)" "nt_stream net = stream_over P backend rs sps sp' clk app"
    and "\<forall>d. k = Some d \<longrightarrow> 0 \<le> d" "sig_algorithm_for_config config = Inr alg" "benchmarked bench alg"
  shows "\<exists>m body v us tol. run_streaming_transaction P r sp net t0 t1 config prompt strategy c mx k = Inr (m, body) \<and> sm_error m = None \<and>
     validate_row (stream_csv_row m mx c rep rid be) bench = Inr v \<and> \<not> vr_checkpoint_interval_assumed v \<and>
     vr_expected_signatures v = int (sm_n_signatures m) \<and> vr_measured_bytes v = int (sm_total_signature_bytes m) \<and>
     vr_bytes_ok v = bytes_verdict alg (sm_n_signatures m) (sm_total_signature_bytes m) \<and>
     (alg = ''ML-DSA-65'' \<longrightarrow> vr_bytes_ok v) \<and>
     (\<forall>lo hi. 0 < lo \<longrightarrow> signs_within P (ap_crypto app) (hr_handshake_id resp) lo hi \<longrightarrow>
        lo * sm_n_signatures m \<le> sm_total_signature_bytes m \<and> sm_total_signature_bytes m \<le> hi * sm_n_signatures m) \<and>
     mean_sign_us_and_tolerance alg bench = Inr (us, tol) \<and>
     vr_predicted_signing_ms v = of_nat (sm_n_signatures m) * us / 1000 \<and> vr_measured_signing_ms v = sm_total_signing_ms m \<and>
     vr_timing_ok v = timing_verdict (of_nat (sm_n_signatures m) * us / 1000) (sm_total_signing_ms m) tol"
proof -
  obtain b where b: "srv_holds P (ap_crypto app) b" "issued_for (handshake_json resp) b"
      "get_client_crypto config = Inr (server_client (ap_crypto app))"
    using session_openE [OF assms(1,2)] .
  have hid: "hb_handshake_id b = hr_handshake_id resp"
    using b(2) by (simp add: issued_for_def)
  obtain srv where srv: "get_server_crypto config = Inr srv" "srv_sig_algorithm srv = alg"
    using assms(9) by (auto simp: sig_algorithm_for_config_def)
  have same: "srv_sig_algorithm (ap_crypto app) = alg"
    using server_client_algorithm [OF get_crypto_pair(1) [OF srv(1) b(3)]] srv(2) by simp
  consider (buf) "strategy = ''buffer_and_sign''" | (pc) "strategy = ''per_chunk''" | (hc) "strategy = ''hash_chain''"
    using assms(3) by (auto simp: STRATEGY_NAMES_def)
  then obtain m body where m: "run_streaming_transaction P r sp net t0 t1 config prompt strategy c mx k = Inr (m, body)"
      "sm_error m = None" "sm_config m = config" "sm_strategy m = strategy" "sm_checkpoint_interval m = k"
      "expected_signature_count strategy (int (sm_n_chunks m)) k (Some STREAM_PROTOCOL_VERSION) = Inr (int (sm_n_signatures m))"
      "\<forall>lo hi. 0 < lo \<longrightarrow> signs_within P (ap_crypto app) (hb_handshake_id b) lo hi \<longrightarrow>
        lo * sm_n_signatures m \<le> sm_total_signature_bytes m \<and> sm_total_signature_bytes m \<le> hi * sm_n_signatures m"
  proof cases
    case buf
    show ?thesis
      by (rule buf_cost.costed [where backend = backend and r = r and sp = sp and ?t0.0 = t0 and ?t1.0 = t1,
            OF assms(1) b assms(4) [unfolded buf] assms(5-8)]) (rule that, simp_all only: buf)
  next
    case pc
    show ?thesis
      by (rule pc_cost.costed [where backend = backend and r = r and sp = sp and ?t0.0 = t0 and ?t1.0 = t1,
            OF assms(1) b assms(4) [unfolded pc] assms(5-8)]) (rule that, simp_all only: pc)
  next
    case hc
    show ?thesis
      by (rule hc_cost.costed [where backend = backend and r = r and sp = sp and ?t0.0 = t0 and ?t1.0 = t1,
            OF assms(1) b assms(4) [unfolded hc] assms(5-8)]) (rule that, simp_all only: hc)
  qed
  have exact: "bytes_verdict alg (sm_n_signatures m) (sm_total_signature_bytes m)" if "alg = ''ML-DSA-65''"
    using mldsa_signs_within [OF assms(1) b(1)] same m(7) [rule_format, of 3309 3309] that
    by (simp add: bytes_verdict_def)
  have "benchmarked bench (srv_sig_algorithm srv)"
    using assms(10) srv(2) by simp
  from validate_row_judges [OF srv(1) this m(3-6), unfolded srv(2), of mx c rep rid be] obtain v us tol where
      v: "validate_row (stream_csv_row m mx c rep rid be) bench = Inr v"
      "vr_expected_signatures v = int (sm_n_signatures m)" "\<not> vr_checkpoint_interval_assumed v"
      "vr_measured_bytes v = int (sm_total_signature_bytes m)"
      "vr_bytes_ok v = bytes_verdict alg (sm_n_signatures m) (sm_total_signature_bytes m)"
      "mean_sign_us_and_tolerance alg bench = Inr (us, tol)"
      "vr_predicted_signing_ms v = of_nat (sm_n_signatures m) * us / 1000" "vr_measured_signing_ms v = sm_total_signing_ms m"
      "vr_timing_ok v = timing_verdict (of_nat (sm_n_signatures m) * us / 1000) (sm_total_signing_ms m) tol"
    by (elim exE conjE)
  show ?thesis
    using m(1,2,7) v exact unfolding hid by blast
qed

definition wit_bench :: bench_table where
  "wit_bench = \<lparr> bt_stats = [(''ml_dsa_65'', ''sign'') \<mapsto> \<lparr> os_mean_us = 120, os_median_us = 100, os_p99_us = 300 \<rparr>,
                             (''classical'', ''ecdsa_p256_sign'') \<mapsto> \<lparr> os_mean_us = 30, os_median_us = 30, os_p99_us = 45 \<rparr>],
     bt_cold_start = None \<rparr>"

text \<open>One stream under ML-DSA-65 with checkpoints, one under ECDSA with a signature per chunk.\<close>

lemma stream_cost_predicted_witness:
  "list_all (\<lambda>(config, strategy, k, alg). \<exists>resp app net m body v us tol.
     session_open (codec_prims (stream_request_body ''hi'' strategy 1 8 k)) (\<lambda>_. Inl ValueError)
       (\<lambda>_ _. [''a'', ''b'', ''c'']) config resp app \<and>
     run_streaming_transaction (codec_prims (stream_request_body ''hi'' strategy 1 8 k)) (\<lambda>_ _. 0) wit_span net 0 1
       config ''hi'' strategy 1 8 k = Inr (m, body) \<and>
     validate_row (stream_csv_row m 8 1 0 ''r'' ''synthetic'') wit_bench = Inr v \<and>
     vr_expected_signatures v = int (sm_n_signatures m) \<and> \<not> vr_checkpoint_interval_assumed v \<and>
     vr_bytes_ok v = bytes_verdict alg (sm_n_signatures m) (sm_total_signature_bytes m) \<and>
     mean_sign_us_and_tolerance alg wit_bench = Inr (us, tol) \<and>
     vr_timing_ok v = timing_verdict (of_nat (sm_n_signatures m) * us / 1000) (sm_total_signing_ms m) tol)
   [(''full_pqc'', ''hash_chain'', Some 2, ''ML-DSA-65''), (''classical'', ''per_chunk'', None, ''ECDSA-P256-SHA256'')]"
proof -
  let ?backend = "\<lambda>(_ :: json) (_ :: int). [''a'', ''b'', ''c'']"
  have instance_of: "\<exists>resp app net m body v us tol.
     session_open (codec_prims (stream_request_body ''hi'' strategy 1 8 k)) (\<lambda>_. Inl ValueError) ?backend config resp app \<and>
     run_streaming_transaction (codec_prims (stream_request_body ''hi'' strategy 1 8 k)) (\<lambda>_ _. 0) wit_span net 0 1
       config ''hi'' strategy 1 8 k = Inr (m, body) \<and>
     validate_row (stream_csv_row m 8 1 0 ''r'' ''synthetic'') wit_bench = Inr v \<and>
     vr_expected_signatures v = int (sm_n_signatures m) \<and> \<not> vr_checkpoint_interval_assumed v \<and>
     vr_bytes_ok v = bytes_verdict alg (sm_n_signatures m) (sm_total_signature_bytes m) \<and>
     mean_sign_us_and_tolerance alg wit_bench = Inr (us, tol) \<and>
     vr_timing_ok v = timing_verdict (of_nat (sm_n_signatures m) * us / 1000) (sm_total_signing_ms m) tol"
    if known: "config \<in> set CONFIG_NAMES" "strategy \<in> set STRATEGY_NAMES" "\<forall>d. k = Some d \<longrightarrow> 0 \<le> d"
      and alg: "sig_algorithm_for_config config = Inr alg" and bench: "benchmarked wit_bench alg" for config strategy alg k
  proof -
    let ?P = "codec_prims (stream_request_body ''hi'' strategy 1 8 k)"
    obtain resp app where so: "session_open ?P (\<lambda>_. Inl ValueError) ?backend config resp app"
      by (rule session_open_exists [OF codec_prims_ok known(1), where predict = "\<lambda>_. Inl ValueError" and backend = ?backend])
    define net where "net = \<lparr> nt_handshake = Inr (handshake_json resp, 0),
        nt_stream = stream_over ?P ?backend (\<lambda>_ _ _. 0) (\<lambda>_. wit_span) wit_span (\<lambda>_. (0, wit_span, 0)) app \<rparr>"
    have net: "nt_handshake net = Inr (handshake_json resp, 0)"
        "nt_stream net = stream_over ?P ?backend (\<lambda>_ _ _. 0) (\<lambda>_. wit_span) wit_span (\<lambda>_. (0, wit_span, 0)) app"
      by (simp_all add: net_def)
    have "length (?backend (JStr ''hi'') (max 1 8)) + 1 < 2 ^ 32"
      by simp
    from stream_cost_predicted [where backend = ?backend, OF codec_prims_ok so known(2) codec_prims_json this net known(3) alg bench, where r = "\<lambda>_ _. 0"
        and sp = wit_span and ?t0.0 = 0 and ?t1.0 = 1 and rep = 0 and rid = "''r''" and be = "''synthetic''"]
    show ?thesis
      using so by (elim exE conjE) (intro exI conjI; assumption)
  qed
  have "sig_algorithm_for_config ''full_pqc'' = Inr ''ML-DSA-65''" "sig_algorithm_for_config ''classical'' = Inr ''ECDSA-P256-SHA256''"
    by (simp_all add: sig_algorithm_for_config_def get_server_crypto_def CONFIGS_def get_item_def full_pqc_sig_algorithm_def
        classical_sig_algorithm_def MLDSA65_ALGORITHM_def)
  moreover have "benchmarked wit_bench ''ML-DSA-65''" "benchmarked wit_bench ''ECDSA-P256-SHA256''"
    by (simp_all add: benchmarked_def SIG_ALGORITHM_TO_BENCH_KEY_def wit_bench_def)
  moreover have "''full_pqc'' \<in> set CONFIG_NAMES" "''classical'' \<in> set CONFIG_NAMES" "''hash_chain'' \<in> set STRATEGY_NAMES" "''per_chunk'' \<in> set STRATEGY_NAMES"
    by (simp_all add: CONFIG_NAMES_def CONFIGS_def STRATEGY_NAMES_def)
  ultimately show ?thesis
    unfolding list.pred_inject prod.case by (intro conjI instance_of TrueI) simp_all
qed

section \<open>The report\<close>

lemma count_of_le: "count_of p xs \<le> length xs"
  by (simp add: count_of_def)

text \<open>Every validated row is in exactly one group, and the groups' counts add up to the summary's.\<close>

lemma groups_partition:
  fixes key :: "'a \<Rightarrow> 'k :: linorder"
  shows "sum_list (map (\<lambda>k. count_of p (filter (\<lambda>x. key x = k) xs)) (group_keys key xs)) = count_of p xs"
proof -
  have "sum_list (map (\<lambda>k. count_of p (filter (\<lambda>x. key x = k) xs)) (group_keys key xs)) =
      (\<Sum>k \<in> set (map key xs). card {i. i < length xs \<and> p (xs ! i) \<and> key (xs ! i) = k})"
    by (simp add: sum_list_distinct_conv_sum_set group_keys_def count_of_def filter_filter length_filter_conv_card conj_commute)
  also have "\<dots> = card (\<Union>k \<in> set (map key xs). {i. i < length xs \<and> p (xs ! i) \<and> key (xs ! i) = k})"
    by (rule card_UN_disjoint [symmetric]) auto
  also have "(\<Union>k \<in> set (map key xs). {i. i < length xs \<and> p (xs ! i) \<and> key (xs ! i) = k}) = {i. i < length xs \<and> p (xs ! i)}"
    by (auto intro!: bexI [OF refl nth_mem])
  finally show ?thesis
    by (simp add: count_of_def length_filter_conv_card)
qed

lemma validation_report_consistent:
  assumes "run_validation df bench = Inr (rows, gs, s)"
  shows "sum_list (map cg_n_rows gs) = cm_validated_rows s" "sum_list (map cg_bytes_ok gs) = cm_bytes_ok s"
    "sum_list (map cg_timing_ok gs) = cm_timing_ok s" "cm_validated_rows s + cm_excluded_error_rows s = cm_total_rows s"
    "cm_bytes_all_ok s \<longleftrightarrow> (\<forall>r \<in> set rows. vr_bytes_ok r)"
proof -
  have rows: "map_res (\<lambda>r. validate_row r bench) (filter error_free df) = Inr rows"
      "gs = map (\<lambda>key. summarize_group key rows) (group_keys group_name rows)"
      "s = summarize_cost (length df) (length df - length (filter error_free df)) rows"
    using assms by (auto simp: run_validation_def Let_def)
  have len: "length xs = count_of (\<lambda>_. True) xs" for xs :: "'x list"
    by (simp add: count_of_def)
  show "sum_list (map cg_n_rows gs) = cm_validated_rows s"
    using groups_partition [of "\<lambda>_. True" group_name rows]
    by (simp add: rows(2,3) summarize_group_def summarize_cost_def Let_def comp_def count_of_def)
  show "sum_list (map cg_bytes_ok gs) = cm_bytes_ok s" "sum_list (map cg_timing_ok gs) = cm_timing_ok s"
    using groups_partition [of vr_bytes_ok group_name rows] groups_partition [of vr_timing_ok group_name rows]
    by (simp_all add: rows(2,3) summarize_group_def summarize_cost_def Let_def comp_def)
  show "cm_validated_rows s + cm_excluded_error_rows s = cm_total_rows s"
    using map_res_length [OF rows(1)] by (simp add: rows(3) summarize_cost_def)
  show "cm_bytes_all_ok s \<longleftrightarrow> (\<forall>r \<in> set rows. vr_bytes_ok r)"
    by (simp add: rows(3) summarize_cost_def count_of_def) (metis filter_True length_filter_less less_irrefl)
qed

end
