(* ===== verification/KatVectors.thy ===== *)
theory KatVectors
  imports JsonAccess
begin

text \<open>
  \<^verbatim>\<open>validation/kat_vectors.py\<close>: NIST's known-answer vectors as records, and the loaders that read
  them from the parsed vector files. A document is the JSON value of a file.
\<close>

section \<open>Hexadecimal\<close>

definition hex_value :: "char \<Rightarrow> nat option" where
  "hex_value c =
     (let n = of_char c :: nat in
      if 48 \<le> n \<and> n \<le> 57 then Some (n - 48)
      else if 65 \<le> n \<and> n \<le> 70 then Some (n - 55)
      else if 97 \<le> n \<and> n \<le> 102 then Some (n - 87) else None)"

text \<open>\<^verbatim>\<open>bytes.fromhex\<close>: pairs of digits, with white space between pairs allowed.\<close>

fun from_hex :: "string \<Rightarrow> bytes res" where
  "from_hex [] = Inr []"
| "from_hex [c] = (if is_space c then Inr [] else Inl ValueError)"
| "from_hex (c # d # cs) =
     (if is_space c then from_hex (d # cs)
      else case (hex_value c, hex_value d) of
        (Some h, Some l) \<Rightarrow> bind_res (from_hex cs) (\<lambda>bs. Inr (word_of_nat (16 * h + l) # bs))
      | _ \<Rightarrow> Inl ValueError)"

text \<open>A hexadecimal field, and an optional one with \<^verbatim>\<open>""\<close> for its default.\<close>

definition hx :: "json \<Rightarrow> string \<Rightarrow> bytes res" where
  "hx t k = bind_res (bind_res (json_field t k) json_str) from_hex"

definition str_get :: "json \<Rightarrow> string \<Rightarrow> string res" where
  "str_get t k = bind_res (body_get t k (JStr [])) json_str"

section \<open>Vectors\<close>

record keygen_vector =
  kg_tc_id :: int
  kg_d :: bytes
  kg_z :: bytes
  kg_ek :: bytes
  kg_dk :: bytes

definition coins :: "keygen_vector \<Rightarrow> bytes" where
  "coins v = kg_d v @ kg_z v"

record encaps_vector =
  ev_tc_id :: int
  ev_ek :: bytes
  ev_m :: bytes
  ev_expected_c :: bytes
  ev_expected_k :: bytes

record decaps_vector =
  dv_tc_id :: int
  dv_dk :: bytes
  dv_c :: bytes
  dv_expected_k :: bytes
  dv_reason :: string

record sigver_vector =
  sv_tc_id :: int
  sv_pk :: bytes
  sv_message :: bytes
  sv_context :: bytes
  sv_signature :: bytes
  sv_expected_valid :: bool
  sv_reason :: string

record dsa_keygen_vector =
  dk_tc_id :: int
  dk_seed :: bytes
  dk_pk :: bytes
  dk_sk :: bytes

record siggen_vector =
  sg_tc_id :: int
  sg_deterministic :: bool
  sg_sk :: bytes
  sg_message :: bytes
  sg_context :: bytes
  sg_rnd :: bytes
  sg_signature :: bytes

text \<open>Where the vectors come from.\<close>

record provenance =
  pv_source :: json
  pv_fetched :: json
  pv_note :: json

definition provenance_of :: "json \<Rightarrow> provenance res" where
  "provenance_of doc =
     bind_res (json_field doc ''_source'') (\<lambda>s.
     bind_res (json_field doc ''_fetched'') (\<lambda>f.
     bind_res (json_field doc ''_note'') (\<lambda>n. Inr \<lparr> pv_source = s, pv_fetched = f, pv_note = n \<rparr>)))"

section \<open>Loaders\<close>

definition field_is :: "json \<Rightarrow> string \<Rightarrow> string \<Rightarrow> unit res" where
  "field_is j k v = bind_res (json_field j k) (\<lambda>x. assert_that (x = JStr v))"

definition tc_id_of :: "json \<Rightarrow> int res" where
  "tc_id_of t = bind_res (json_field t ''tcId'') json_int"

definition tests_of :: "json \<Rightarrow> json list res" where
  "tests_of g = bind_res (json_field g ''tests'') json_list"

definition load_ml_kem_768_keygen_vectors :: "json \<Rightarrow> (keygen_vector list \<times> provenance) res" where
  "load_ml_kem_768_keygen_vectors doc =
     bind_res (bind_res (json_field doc ''testGroups'') json_first) (\<lambda>g.
     bind_res (field_is g ''parameterSet'' ''ML-KEM-768'') (\<lambda>_.
     bind_res (tests_of g) (\<lambda>ts.
     bind_res (map_res (\<lambda>t.
         bind_res (tc_id_of t) (\<lambda>i. bind_res (hx t ''d'') (\<lambda>d. bind_res (hx t ''z'') (\<lambda>z.
         bind_res (hx t ''ek'') (\<lambda>ek. bind_res (hx t ''dk'') (\<lambda>dk.
         Inr \<lparr> kg_tc_id = i, kg_d = d, kg_z = z, kg_ek = ek, kg_dk = dk \<rparr>)))))) ts) (\<lambda>vectors.
     bind_res (provenance_of doc) (\<lambda>p. Inr (vectors, p))))))"

text \<open>\<^verbatim>\<open>{g["function"]: g ...}\<close>: the groups by function, the last of a name.\<close>

definition groups_by_function :: "json \<Rightarrow> (string \<times> json) list res" where
  "groups_by_function doc =
     bind_res (bind_res (json_field doc ''testGroups'') json_list) (\<lambda>gs.
     map_res (\<lambda>g. bind_res (bind_res (json_field g ''function'') json_str) (\<lambda>f. Inr (f, g))) gs)"

definition load_ml_kem_768_encap_decap_vectors :: "json \<Rightarrow> (encaps_vector list \<times> decaps_vector list \<times> provenance) res" where
  "load_ml_kem_768_encap_decap_vectors doc =
     bind_res (groups_by_function doc) (\<lambda>gs.
     bind_res (assert_that (set (map fst gs) = {''encapsulation'', ''decapsulation''})) (\<lambda>_.
     bind_res (bind_res (get_item (map_of (rev gs)) ''encapsulation'') tests_of) (\<lambda>es.
     bind_res (map_res (\<lambda>t.
         bind_res (tc_id_of t) (\<lambda>i. bind_res (hx t ''ek'') (\<lambda>ek. bind_res (hx t ''m'') (\<lambda>m.
         bind_res (hx t ''c'') (\<lambda>c. bind_res (hx t ''k'') (\<lambda>k.
         Inr \<lparr> ev_tc_id = i, ev_ek = ek, ev_m = m, ev_expected_c = c, ev_expected_k = k \<rparr>)))))) es) (\<lambda>encaps.
     bind_res (bind_res (get_item (map_of (rev gs)) ''decapsulation'') tests_of) (\<lambda>ds.
     bind_res (map_res (\<lambda>t.
         bind_res (tc_id_of t) (\<lambda>i. bind_res (hx t ''dk'') (\<lambda>dk. bind_res (hx t ''c'') (\<lambda>c.
         bind_res (hx t ''k'') (\<lambda>k. bind_res (str_get t ''reason'') (\<lambda>r.
         Inr \<lparr> dv_tc_id = i, dv_dk = dk, dv_c = c, dv_expected_k = k, dv_reason = r \<rparr>)))))) ds) (\<lambda>decaps.
     bind_res (provenance_of doc) (\<lambda>p. Inr (encaps, decaps, p))))))))"

definition load_ml_dsa_65_sigver_vectors :: "json \<Rightarrow> (sigver_vector list \<times> provenance) res" where
  "load_ml_dsa_65_sigver_vectors doc =
     bind_res (bind_res (json_field doc ''testGroups'') json_first) (\<lambda>g.
     bind_res (field_is g ''parameterSet'' ''ML-DSA-65'') (\<lambda>_.
     bind_res (field_is g ''signatureInterface'' ''external'') (\<lambda>_.
     bind_res (field_is g ''preHash'' ''pure'') (\<lambda>_.
     bind_res (tests_of g) (\<lambda>ts.
     bind_res (map_res (\<lambda>t.
         bind_res (tc_id_of t) (\<lambda>i. bind_res (hx t ''pk'') (\<lambda>pk. bind_res (hx t ''message'') (\<lambda>m.
         bind_res (bind_res (str_get t ''context'') from_hex) (\<lambda>c. bind_res (hx t ''signature'') (\<lambda>s.
         bind_res (json_field t ''testPassed'') (\<lambda>b. bind_res (str_get t ''reason'') (\<lambda>r.
         Inr \<lparr> sv_tc_id = i, sv_pk = pk, sv_message = m, sv_context = c, sv_signature = s, sv_expected_valid = json_truthy b,
               sv_reason = r \<rparr>)))))))) ts) (\<lambda>vectors.
     bind_res (provenance_of doc) (\<lambda>p. Inr (vectors, p))))))))"

definition load_ml_dsa_65_keygen_vectors :: "json \<Rightarrow> (dsa_keygen_vector list \<times> provenance) res" where
  "load_ml_dsa_65_keygen_vectors doc =
     bind_res (bind_res (json_field doc ''testGroups'') json_first) (\<lambda>g.
     bind_res (field_is g ''parameterSet'' ''ML-DSA-65'') (\<lambda>_.
     bind_res (tests_of g) (\<lambda>ts.
     bind_res (map_res (\<lambda>t.
         bind_res (tc_id_of t) (\<lambda>i. bind_res (hx t ''seed'') (\<lambda>s. bind_res (hx t ''pk'') (\<lambda>pk. bind_res (hx t ''sk'') (\<lambda>sk.
         Inr \<lparr> dk_tc_id = i, dk_seed = s, dk_pk = pk, dk_sk = sk \<rparr>))))) ts) (\<lambda>vectors.
     bind_res (provenance_of doc) (\<lambda>p. Inr (vectors, p))))))"

definition load_siggen_group :: "json \<Rightarrow> siggen_vector list res" where
  "load_siggen_group g =
     bind_res (field_is g ''parameterSet'' ''ML-DSA-65'') (\<lambda>_.
     bind_res (field_is g ''signatureInterface'' ''external'') (\<lambda>_.
     bind_res (field_is g ''preHash'' ''pure'') (\<lambda>_.
     bind_res (map_sum id json_truthy (json_field g ''deterministic'')) (\<lambda>det.
     bind_res (tests_of g) (\<lambda>ts.
     map_res (\<lambda>t.
         bind_res (tc_id_of t) (\<lambda>i. bind_res (hx t ''sk'') (\<lambda>sk. bind_res (hx t ''message'') (\<lambda>m.
         bind_res (bind_res (str_get t ''context'') from_hex) (\<lambda>c.
         bind_res (if det then Inr (replicate 32 0) else hx t ''rnd'') (\<lambda>r. bind_res (hx t ''signature'') (\<lambda>s.
         Inr \<lparr> sg_tc_id = i, sg_deterministic = det, sg_sk = sk, sg_message = m, sg_context = c, sg_rnd = r,
               sg_signature = s \<rparr>))))))) ts)))))"

definition load_ml_dsa_65_siggen_vectors :: "json \<Rightarrow> (siggen_vector list \<times> provenance) res" where
  "load_ml_dsa_65_siggen_vectors doc =
     bind_res (bind_res (json_field doc ''testGroups'') json_list) (\<lambda>gs.
     bind_res (map_res load_siggen_group gs) (\<lambda>vss.
     bind_res (provenance_of doc) (\<lambda>p. Inr (concat vss, p))))"

section \<open>Hexadecimal round trip\<close>

definition hex_char :: "nat \<Rightarrow> char" where
  "hex_char n = (if n < 10 then char_of (48 + n) else char_of (87 + n))"

definition to_hex :: "bytes \<Rightarrow> string" where
  "to_hex bs = concat (map (\<lambda>b. [hex_char (unat b div 16), hex_char (unat b mod 16)]) bs)"

lemma hex_value_char [simp]: "n < 16 \<Longrightarrow> hex_value (hex_char n) = Some n"
  by (auto simp: hex_value_def hex_char_def Let_def)

lemma hex_char_not_space [simp]: "n < 16 \<Longrightarrow> \<not> is_space (hex_char n)"
  by (auto simp: is_space_def hex_char_def Let_def)

lemma hex_round_trip: "from_hex (to_hex bs) = Inr bs"
proof (induction bs)
  case (Cons b bs)
  have "unat b < 256" using unsigned_less [of b] by simp
  then have "unat b div 16 < 16" by simp
  moreover have "word_of_nat (16 * (unat b div 16) + unat b mod 16) = b"
    by simp
  ultimately show ?case
    using Cons by (simp add: to_hex_def)
qed (simp add: to_hex_def)

text \<open>Deterministic signing vectors carry 32 zero bytes of randomness.\<close>

lemma siggen_deterministic:
  assumes "load_siggen_group g = Inr vs" "v \<in> set vs" "sg_deterministic v"
  shows "sg_rnd v = replicate 32 0"
proof -
  have *: "map_res f ts = Inr vs \<Longrightarrow> v \<in> set vs \<Longrightarrow> \<exists>t \<in> set ts. f t = Inr v" for f :: "json \<Rightarrow> siggen_vector res" and ts vs
    by (induction ts arbitrary: vs) auto
  show ?thesis
    using assms by (auto simp: load_siggen_group_def dest!: * split: if_splits)
qed

end
