(* ===== verification/NistKat.thy ===== *)
theory NistKat
  imports KatVectors OqsAdapter
begin

text \<open>
  \<^verbatim>\<open>validation/nist_kat.py\<close>: the liboqs bindings run on NIST's known-answer vectors, and the report.
  A run of ML-DSA code under \<^verbatim>\<open>fixed_randomness\<close> asks the replaced random source for the byte
  counts \<open>ns\<close>, which are the library's choice and so a parameter.
\<close>

section \<open>Running under fixed randomness\<close>

definition tape_of :: "bytes \<Rightarrow> tape" where
  "tape_of bs = (\<lambda>i. if i < length bs then bs ! i else 0)"

text \<open>The block's body sees what the callback handed out; the check on exit applies when it did not raise.\<close>

definition with_fixed_randomness :: "bytes \<Rightarrow> nat list \<Rightarrow> (tape \<Rightarrow> 'a res) \<Rightarrow> 'a res" where
  "with_fixed_randomness data ns body =
     (let (out, st) = fr_run ns (fr_init data) in
      case body (tape_of (concat out)) of
        Inl e \<Rightarrow> Inl e
      | Inr x \<Rightarrow> bind_res (fr_exit True st) (\<lambda>_. Inr x))"

lemma with_fixed_randomness_Inr:
  "with_fixed_randomness data ns body = Inr x \<Longrightarrow> body (tape_of data) = Inr x \<and> sum_list ns = length data"
proof -
  assume *: "with_fixed_randomness data ns body = Inr x"
  obtain out st where run: "fr_run ns (fr_init data) = (out, st)" by fastforce
  with * have b: "body (tape_of (concat out)) = Inr x" "fr_exit True st = Inr ()"
    by (auto simp: with_fixed_randomness_def split: sum.splits)
  have "concat out = data"
    by (rule fr_exact [OF run b(2)])
  moreover have "map length out = ns"
    using fr_run_spec [OF run] by simp
  ultimately show "body (tape_of data) = Inr x \<and> sum_list ns = length data"
    using b(1) by (metis length_concat)
qed

section \<open>The five suites\<close>

text \<open>What a suite counts.\<close>

record tally =
  ta_passed :: nat
  ta_total :: nat

definition tally_of :: "('r \<Rightarrow> bool) \<Rightarrow> 'r list \<Rightarrow> tally" where
  "tally_of passed rs = \<lparr> ta_passed = length (filter passed rs), ta_total = length rs \<rparr>"

record keygen_result =
  kr_tc_id :: int
  kr_ek_match :: bool
  kr_dk_match :: bool
  kr_passed :: bool

definition run_ml_kem_768_keygen :: "prims \<Rightarrow> keygen_vector list \<Rightarrow> (keygen_result list \<times> tally) res" where
  "run_ml_kem_768_keygen P vectors =
     bind_res (map_res (\<lambda>v. bind_res (MLKEM768_keypair_derand P (coins v)) (\<lambda>kp.
         Inr \<lparr> kr_tc_id = kg_tc_id v, kr_ek_match = (kp_public_key kp = kg_ek v), kr_dk_match = (kp_secret_key kp = kg_dk v),
               kr_passed = (kp_public_key kp = kg_ek v \<and> kp_secret_key kp = kg_dk v) \<rparr>)) vectors)
       (\<lambda>rs. Inr (rs, tally_of kr_passed rs))"

record encaps_result =
  er_tc_id :: int
  er_c_match :: bool
  er_k_match :: bool
  er_passed :: bool

record decaps_result =
  dr_tc_id :: int
  dr_reason :: string
  dr_passed :: bool

record encap_decap_report =
  ed_encaps :: "encaps_result list"
  ed_encaps_tally :: tally
  ed_decaps :: "decaps_result list"
  ed_implicit_rejection_cases :: nat
  ed_decaps_tally :: tally

definition run_ml_kem_768_encap_decap :: "prims \<Rightarrow> encaps_vector list \<Rightarrow> decaps_vector list \<Rightarrow> encap_decap_report res" where
  "run_ml_kem_768_encap_decap P encaps_vectors decaps_vectors =
     bind_res (map_res (\<lambda>v. bind_res (MLKEM768_encaps_derand P (ev_ek v) (ev_m v)) (\<lambda>(ct, ss).
         Inr \<lparr> er_tc_id = ev_tc_id v, er_c_match = (ct = ev_expected_c v), er_k_match = (ss = ev_expected_k v),
               er_passed = (ct = ev_expected_c v \<and> ss = ev_expected_k v) \<rparr>)) encaps_vectors) (\<lambda>es.
     bind_res (map_res (\<lambda>v. bind_res (MLKEM768_decaps P (dv_c v) (dv_dk v)) (\<lambda>ss.
         Inr \<lparr> dr_tc_id = dv_tc_id v, dr_reason = dv_reason v, dr_passed = (ss = dv_expected_k v) \<rparr>)) decaps_vectors) (\<lambda>ds.
     Inr \<lparr> ed_encaps = es, ed_encaps_tally = tally_of er_passed es, ed_decaps = ds,
           ed_implicit_rejection_cases = length (filter (\<lambda>r. has_substring (dr_reason r) ''modified'') ds),
           ed_decaps_tally = tally_of dr_passed ds \<rparr>))"

record sigver_result =
  vr_tc_id :: int
  vr_reason :: string
  vr_context_bytes :: nat
  vr_expected_valid :: bool
  vr_actual_valid :: bool
  vr_passed :: bool

definition run_ml_dsa_65_sigver :: "prims \<Rightarrow> sigver_vector list \<Rightarrow> (sigver_result list \<times> tally) res" where
  "run_ml_dsa_65_sigver P vectors =
     bind_res (map_res (\<lambda>v. bind_res (MLDSA65_verify_with_context P (sv_message v) (sv_signature v) (sv_context v) (sv_pk v)) (\<lambda>actual.
         Inr \<lparr> vr_tc_id = sv_tc_id v, vr_reason = sv_reason v, vr_context_bytes = length (sv_context v),
               vr_expected_valid = sv_expected_valid v, vr_actual_valid = actual, vr_passed = (actual = sv_expected_valid v) \<rparr>)) vectors)
       (\<lambda>rs. Inr (rs, tally_of vr_passed rs))"

record dsa_keygen_result =
  kd_tc_id :: int
  kd_pk_match :: bool
  kd_sk_match :: bool
  kd_passed :: bool

text \<open>\<open>ns v\<close> are the random requests of the library for a vector.\<close>

definition run_ml_dsa_65_keygen :: "prims \<Rightarrow> (dsa_keygen_vector \<Rightarrow> nat list) \<Rightarrow> dsa_keygen_vector list \<Rightarrow> (dsa_keygen_result list \<times> tally) res" where
  "run_ml_dsa_65_keygen P ns vectors =
     bind_res (map_res (\<lambda>v. bind_res (with_fixed_randomness (dk_seed v) (ns v) (MLDSA65_keypair P)) (\<lambda>kp.
         Inr \<lparr> kd_tc_id = dk_tc_id v, kd_pk_match = (sp_public_key kp = dk_pk v), kd_sk_match = (sp_secret_key kp = dk_sk v),
               kd_passed = (sp_public_key kp = dk_pk v \<and> sp_secret_key kp = dk_sk v) \<rparr>)) vectors)
       (\<lambda>rs. Inr (rs, tally_of kd_passed rs))"

record siggen_result =
  gr_tc_id :: int
  gr_deterministic :: bool
  gr_context_bytes :: nat
  gr_passed :: bool

record siggen_report =
  gp_results :: "siggen_result list"
  gp_deterministic_passed :: nat
  gp_hedged_passed :: nat
  gp_tally :: tally

definition run_ml_dsa_65_siggen :: "prims \<Rightarrow> (siggen_vector \<Rightarrow> nat list) \<Rightarrow> siggen_vector list \<Rightarrow> siggen_report res" where
  "run_ml_dsa_65_siggen P ns vectors =
     bind_res (map_res (\<lambda>v. bind_res (with_fixed_randomness (sg_rnd v) (ns v)
             (\<lambda>t. MLDSA65_sign_with_context P t (sg_message v) (sg_context v) (sg_sk v))) (\<lambda>sig.
         Inr \<lparr> gr_tc_id = sg_tc_id v, gr_deterministic = sg_deterministic v, gr_context_bytes = length (sg_context v),
               gr_passed = (sig = sg_signature v) \<rparr>)) vectors) (\<lambda>rs.
     Inr \<lparr> gp_results = rs, gp_deterministic_passed = length (filter gr_passed (filter gr_deterministic rs)),
           gp_hedged_passed = length (filter gr_passed (filter (\<lambda>r. \<not> gr_deterministic r) rs)),
           gp_tally = tally_of gr_passed rs \<rparr>)"

section \<open>The report\<close>

record kat_vectors =
  kv_keygen :: "keygen_vector list"
  kv_encaps :: "encaps_vector list"
  kv_decaps :: "decaps_vector list"
  kv_sigver :: "sigver_vector list"
  kv_dsa_keygen :: "dsa_keygen_vector list"
  kv_siggen :: "siggen_vector list"

record kat_report =
  kt_keygen :: "keygen_result list \<times> tally"
  kt_encap_decap :: encap_decap_report
  kt_sigver :: "sigver_result list \<times> tally"
  kt_dsa_keygen :: "dsa_keygen_result list \<times> tally"
  kt_siggen :: siggen_report
  kt_total_checks :: nat
  kt_passed :: nat
  kt_all_passed :: bool

definition run_all :: "prims \<Rightarrow> (dsa_keygen_vector \<Rightarrow> nat list) \<Rightarrow> (siggen_vector \<Rightarrow> nat list) \<Rightarrow> kat_vectors \<Rightarrow> kat_report res" where
  "run_all P ns ns' vs =
     bind_res (run_ml_kem_768_keygen P (kv_keygen vs)) (\<lambda>keygen.
     bind_res (run_ml_kem_768_encap_decap P (kv_encaps vs) (kv_decaps vs)) (\<lambda>encap_decap.
     bind_res (run_ml_dsa_65_sigver P (kv_sigver vs)) (\<lambda>sigver.
     bind_res (run_ml_dsa_65_keygen P ns (kv_dsa_keygen vs)) (\<lambda>dsa_keygen.
     bind_res (run_ml_dsa_65_siggen P ns' (kv_siggen vs)) (\<lambda>siggen.
     let tallies = [snd keygen, ed_encaps_tally encap_decap, ed_decaps_tally encap_decap, snd sigver, snd dsa_keygen, gp_tally siggen];
         total_passed = sum_list (map ta_passed tallies);
         n_total = sum_list (map ta_total tallies) in
     Inr \<lparr> kt_keygen = keygen, kt_encap_decap = encap_decap, kt_sigver = sigver, kt_dsa_keygen = dsa_keygen, kt_siggen = siggen,
           kt_total_checks = n_total, kt_passed = total_passed, kt_all_passed = (total_passed = n_total) \<rparr>)))))"

text \<open>Every vector is answered as NIST does, with exactly the vector's randomness.\<close>

definition vectors_agree :: "prims \<Rightarrow> (dsa_keygen_vector \<Rightarrow> nat list) \<Rightarrow> (siggen_vector \<Rightarrow> nat list) \<Rightarrow> kat_vectors \<Rightarrow> bool" where
  "vectors_agree P ns ns' vs \<longleftrightarrow>
     (\<forall>v \<in> set (kv_keygen vs). MLKEM768_keypair_derand P (kg_d v @ kg_z v) = Inr \<lparr> kp_public_key = kg_ek v, kp_secret_key = kg_dk v \<rparr>) \<and>
     (\<forall>v \<in> set (kv_encaps vs). MLKEM768_encaps_derand P (ev_ek v) (ev_m v) = Inr (ev_expected_c v, ev_expected_k v)) \<and>
     (\<forall>v \<in> set (kv_decaps vs). MLKEM768_decaps P (dv_c v) (dv_dk v) = Inr (dv_expected_k v)) \<and>
     (\<forall>v \<in> set (kv_sigver vs). MLDSA65_verify_with_context P (sv_message v) (sv_signature v) (sv_context v) (sv_pk v) = Inr (sv_expected_valid v)) \<and>
     (\<forall>v \<in> set (kv_dsa_keygen vs). sum_list (ns v) = length (dk_seed v) \<and>
        MLDSA65_keypair P (tape_of (dk_seed v)) = Inr \<lparr> sp_public_key = dk_pk v, sp_secret_key = dk_sk v \<rparr>) \<and>
     (\<forall>v \<in> set (kv_siggen vs). sum_list (ns' v) = length (sg_rnd v) \<and>
        MLDSA65_sign_with_context P (tape_of (sg_rnd v)) (sg_message v) (sg_context v) (sg_sk v) = Inr (sg_signature v))"

lemma tally_le: "ta_passed (tally_of p rs) \<le> ta_total (tally_of p rs)"
  by (simp add: tally_of_def)

lemma tally_all: "ta_passed (tally_of p rs) = ta_total (tally_of p rs) \<longleftrightarrow> (\<forall>r \<in> set rs. p r)"
proof -
  have "length (filter p rs) = length rs \<longleftrightarrow> (\<forall>r \<in> set rs. p r)"
    by (metis filter_True length_filter_less less_irrefl)
  then show ?thesis by (simp add: tally_of_def)
qed

lemma map_res_set: "map_res f xs = Inr ys \<Longrightarrow> x \<in> set xs \<Longrightarrow> \<exists>y \<in> set ys. f x = Inr y"
  by (induction xs arbitrary: ys) auto

text \<open>A suite never counts more than it ran, and counts all only if every vector was answered.\<close>

definition counts_soundly :: "tally \<Rightarrow> bool \<Rightarrow> bool" where
  "counts_soundly ta agree \<longleftrightarrow> ta_passed ta \<le> ta_total ta \<and> (ta_passed ta = ta_total ta \<longrightarrow> agree)"

lemma counts_le: "counts_soundly ta Q \<Longrightarrow> ta_passed ta \<le> ta_total ta"
  and counts_all: "counts_soundly ta Q \<Longrightarrow> ta_passed ta = ta_total ta \<Longrightarrow> Q"
  by (simp_all add: counts_soundly_def)

lemma suite_sound:
  assumes "map_res f vs = Inr rs" "\<And>v r. f v = Inr r \<Longrightarrow> p r \<Longrightarrow> Q v"
  shows "counts_soundly (tally_of p rs) (\<forall>v \<in> set vs. Q v)"
proof -
  have "Q v" if "\<forall>r \<in> set rs. p r" "v \<in> set vs" for v
    using map_res_set [OF assms(1) that(2)] assms(2) that(1) by blast
  then show ?thesis
    by (simp add: counts_soundly_def tally_le tally_all)
qed

lemma ml_kem_keygen_suite:
  assumes "run_ml_kem_768_keygen P vs = Inr (rs, ta)"
  shows "counts_soundly ta
    (\<forall>v \<in> set vs. MLKEM768_keypair_derand P (kg_d v @ kg_z v) = Inr \<lparr> kp_public_key = kg_ek v, kp_secret_key = kg_dk v \<rparr>)"
proof -
  have "ta = tally_of kr_passed rs"
    using assms by (auto simp: run_ml_kem_768_keygen_def)
  moreover have "counts_soundly (tally_of kr_passed rs)
    (\<forall>v \<in> set vs. MLKEM768_keypair_derand P (kg_d v @ kg_z v) = Inr \<lparr> kp_public_key = kg_ek v, kp_secret_key = kg_dk v \<rparr>)"
    by (rule suite_sound) (use assms in \<open>auto simp: run_ml_kem_768_keygen_def coins_def\<close>)
  ultimately show ?thesis by simp
qed

lemma ml_kem_encap_decap_suite:
  assumes "run_ml_kem_768_encap_decap P es ds = Inr rep"
  shows "counts_soundly (ed_encaps_tally rep)
      (\<forall>v \<in> set es. MLKEM768_encaps_derand P (ev_ek v) (ev_m v) = Inr (ev_expected_c v, ev_expected_k v))"
    and "counts_soundly (ed_decaps_tally rep) (\<forall>v \<in> set ds. MLKEM768_decaps P (dv_c v) (dv_dk v) = Inr (dv_expected_k v))"
proof -
  have t: "ed_encaps_tally rep = tally_of er_passed (ed_encaps rep)" "ed_decaps_tally rep = tally_of dr_passed (ed_decaps rep)"
    using assms by (auto simp: run_ml_kem_768_encap_decap_def)
  show "counts_soundly (ed_encaps_tally rep)
      (\<forall>v \<in> set es. MLKEM768_encaps_derand P (ev_ek v) (ev_m v) = Inr (ev_expected_c v, ev_expected_k v))"
    unfolding t by (rule suite_sound) (use assms in \<open>auto simp: run_ml_kem_768_encap_decap_def split: prod.splits\<close>)
  show "counts_soundly (ed_decaps_tally rep) (\<forall>v \<in> set ds. MLKEM768_decaps P (dv_c v) (dv_dk v) = Inr (dv_expected_k v))"
    unfolding t by (rule suite_sound) (use assms in \<open>auto simp: run_ml_kem_768_encap_decap_def\<close>)
qed

lemma ml_dsa_sigver_suite:
  assumes "run_ml_dsa_65_sigver P vs = Inr (rs, ta)"
  shows "counts_soundly ta (\<forall>v \<in> set vs.
    MLDSA65_verify_with_context P (sv_message v) (sv_signature v) (sv_context v) (sv_pk v) = Inr (sv_expected_valid v))"
proof -
  have t: "ta = tally_of vr_passed rs"
    using assms by (auto simp: run_ml_dsa_65_sigver_def)
  show ?thesis
    unfolding t by (rule suite_sound) (use assms in \<open>auto simp: run_ml_dsa_65_sigver_def\<close>)
qed

lemma ml_dsa_keygen_suite:
  assumes "run_ml_dsa_65_keygen P ns vs = Inr (rs, ta)"
  shows "counts_soundly ta (\<forall>v \<in> set vs. sum_list (ns v) = length (dk_seed v) \<and>
    MLDSA65_keypair P (tape_of (dk_seed v)) = Inr \<lparr> sp_public_key = dk_pk v, sp_secret_key = dk_sk v \<rparr>)"
proof -
  let ?f = "\<lambda>v. bind_res (with_fixed_randomness (dk_seed v) (ns v) (MLDSA65_keypair P)) (\<lambda>kp.
      Inr \<lparr> kd_tc_id = dk_tc_id v, kd_pk_match = (sp_public_key kp = dk_pk v), kd_sk_match = (sp_secret_key kp = dk_sk v),
            kd_passed = (sp_public_key kp = dk_pk v \<and> sp_secret_key kp = dk_sk v) \<rparr>)"
  have m: "map_res ?f vs = Inr rs" and t: "ta = tally_of kd_passed rs"
    using assms by (auto simp: run_ml_dsa_65_keygen_def)
  have "sum_list (ns v) = length (dk_seed v) \<and>
      MLDSA65_keypair P (tape_of (dk_seed v)) = Inr \<lparr> sp_public_key = dk_pk v, sp_secret_key = dk_sk v \<rparr>"
    if f: "?f v = Inr r" and p: "kd_passed r" for v r
  proof -
    obtain kp where kp: "with_fixed_randomness (dk_seed v) (ns v) (MLDSA65_keypair P) = Inr kp"
        "sp_public_key kp = dk_pk v" "sp_secret_key kp = dk_sk v"
      using f p by auto
    then show ?thesis
      using with_fixed_randomness_Inr [OF kp(1)] by simp
  qed
  from suite_sound [OF m this] t show ?thesis by simp
qed

lemma ml_dsa_siggen_suite:
  assumes "run_ml_dsa_65_siggen P ns vs = Inr rep"
  shows "counts_soundly (gp_tally rep) (\<forall>v \<in> set vs. sum_list (ns v) = length (sg_rnd v) \<and>
    MLDSA65_sign_with_context P (tape_of (sg_rnd v)) (sg_message v) (sg_context v) (sg_sk v) = Inr (sg_signature v))"
proof -
  let ?b = "\<lambda>v. with_fixed_randomness (sg_rnd v) (ns v) (\<lambda>t. MLDSA65_sign_with_context P t (sg_message v) (sg_context v) (sg_sk v))"
  let ?f = "\<lambda>v. bind_res (?b v) (\<lambda>sig.
      Inr \<lparr> gr_tc_id = sg_tc_id v, gr_deterministic = sg_deterministic v, gr_context_bytes = length (sg_context v),
            gr_passed = (sig = sg_signature v) \<rparr>)"
  have m: "map_res ?f vs = Inr (gp_results rep)" and t: "gp_tally rep = tally_of gr_passed (gp_results rep)"
    using assms by (auto simp: run_ml_dsa_65_siggen_def)
  have "sum_list (ns v) = length (sg_rnd v) \<and>
      MLDSA65_sign_with_context P (tape_of (sg_rnd v)) (sg_message v) (sg_context v) (sg_sk v) = Inr (sg_signature v)"
    if f: "?f v = Inr r" and p: "gr_passed r" for v r
  proof -
    have b: "?b v = Inr (sg_signature v)"
      using f p by auto
    then show ?thesis
      using with_fixed_randomness_Inr [OF b] by simp
  qed
  from suite_sound [OF m this] t show ?thesis by simp
qed

lemmas suites_sound = ml_kem_keygen_suite ml_kem_encap_decap_suite ml_dsa_sigver_suite ml_dsa_keygen_suite ml_dsa_siggen_suite

end
