(* ===== verification/SpecConformance.thy ===== *)
theory SpecConformance
  imports ReferenceData Registry
begin

text \<open>
  \<^verbatim>\<open>validation/spec_conformance.py\<close>: the sizes and correctness properties of the liboqs bindings
  checked against FIPS 203 and FIPS 204, the standard they track, and what the configurations put on
  the wire. The citations of the checks are left out; \<open>r\<close> gives the successive random draws.
\<close>

record conformance_check =
  cf_parameter :: string
  cf_measured_bytes :: "nat option"
  cf_specified_bytes :: "nat option"
  cf_conformant :: bool

definition check_size :: "string \<Rightarrow> nat \<Rightarrow> nat \<Rightarrow> conformance_check" where
  "check_size label measured_bytes expected =
     \<lparr> cf_parameter = label, cf_measured_bytes = Some measured_bytes, cf_specified_bytes = Some expected,
       cf_conformant = (measured_bytes = expected) \<rparr>"

definition check_property :: "string \<Rightarrow> bool \<Rightarrow> conformance_check" where
  "check_property label ok = \<lparr> cf_parameter = label, cf_measured_bytes = None, cf_specified_bytes = None, cf_conformant = ok \<rparr>"

definition check_ml_kem_768 :: "prims \<Rightarrow> rng \<Rightarrow> conformance_check list res" where
  "check_ml_kem_768 P r =
     (let spec = FIPS_203_ML_KEM_768 in
      bind_res (MLKEM768_keypair P (r 0)) (\<lambda>kp.
      bind_res (MLKEM768_encaps P (r 1) (kp_public_key kp)) (\<lambda>(ct, ss).
      bind_res (MLKEM768_decaps P ct (kp_secret_key kp)) (\<lambda>ss2.
      Inr [check_size ''ML-KEM-768 public key'' (length (kp_public_key kp)) (kem_public_key_bytes spec),
           check_size ''ML-KEM-768 secret key'' (length (kp_secret_key kp)) (kem_secret_key_bytes spec),
           check_size ''ML-KEM-768 ciphertext'' (length ct) (kem_ciphertext_bytes spec),
           check_size ''ML-KEM-768 shared secret'' (length ss) (kem_shared_secret_bytes spec),
           check_property ''ML-KEM-768 encaps/decaps shared-secret agreement'' (ss = ss2)]))))"

definition spec_probe :: bytes where
  "spec_probe = encode ''pq-shield spec conformance probe''"

definition check_ml_dsa_65 :: "prims \<Rightarrow> rng \<Rightarrow> conformance_check list res" where
  "check_ml_dsa_65 P r =
     (let spec = FIPS_204_ML_DSA_65 in
      bind_res (MLDSA65_keypair P (r 2)) (\<lambda>kp.
      bind_res (MLDSA65_sign P (r 3) spec_probe (sp_secret_key kp)) (\<lambda>sig.
      bind_res (MLDSA65_verify P spec_probe sig (sp_public_key kp)) (\<lambda>ok.
      bind_res (MLDSA65_verify P (encode ''a different message'') sig (sp_public_key kp)) (\<lambda>other.
      Inr [check_size ''ML-DSA-65 public key'' (length (sp_public_key kp)) (dsa_public_key_bytes spec),
           check_size ''ML-DSA-65 secret key'' (length (sp_secret_key kp)) (dsa_secret_key_bytes spec),
           check_size ''ML-DSA-65 signature'' (length sig) (dsa_signature_bytes spec),
           check_property ''ML-DSA-65 sign/verify round trip'' ok,
           check_property ''ML-DSA-65 rejects tampered message'' (\<not> other)])))))"

record drift_report =
  df_secret_key :: nat
  df_signature :: nat
  df_matches_fips_204_final :: bool
  df_matches_superseded_round3 :: bool

definition check_standard_version_drift :: "prims \<Rightarrow> rng \<Rightarrow> drift_report res" where
  "check_standard_version_drift P r =
     bind_res (MLDSA65_keypair P (r 4)) (\<lambda>kp.
     bind_res (MLDSA65_sign P (r 5) (encode ''probe'') (sp_secret_key kp)) (\<lambda>sig.
     let secret_key = length (sp_secret_key kp); signature = length sig in
     Inr \<lparr> df_secret_key = secret_key, df_signature = signature,
           df_matches_fips_204_final =
             (secret_key = dsa_secret_key_bytes FIPS_204_ML_DSA_65 \<and> signature = dsa_signature_bytes FIPS_204_ML_DSA_65),
           df_matches_superseded_round3 =
             (secret_key = dsa_secret_key_bytes ROUND3_DILITHIUM3_SUPERSEDED \<and>
              signature = dsa_signature_bytes ROUND3_DILITHIUM3_SUPERSEDED) \<rparr>))"

record wire_size_row =
  ws_config :: string
  ws_kex_algorithm :: string
  ws_sig_algorithm :: string
  ws_kex_public_key_bytes :: nat
  ws_sig_public_key_bytes :: nat
  ws_signature_bytes :: nat

text \<open>A fresh server of each class; \<open>uuid\<close>, the draws and the clocks are per configuration.\<close>

definition wire_size_of ::
  "prims \<Rightarrow> (string \<Rightarrow> string) \<Rightarrow> (string \<Rightarrow> rng) \<Rightarrow> span \<Rightarrow> string \<times> server_crypto \<Rightarrow> wire_size_row res" where
  "wire_size_of P uuids rs sp = (\<lambda>(name, server).
     let (server1, rb) = srv_new_handshake P (uuids name) (rs name) sp None server in
     bind_res rb (\<lambda>bundle.
     bind_res (srv_sign P (rs name 4) sp server1 (hb_handshake_id bundle) (encode ''envelope probe'')) (\<lambda>(signature, sig_meta).
     Inr \<lparr> ws_config = name, ws_kex_algorithm = srv_kex_algorithm server1, ws_sig_algorithm = srv_sig_algorithm server1,
           ws_kex_public_key_bytes = length (hb_kex_public_key bundle), ws_sig_public_key_bytes = length (hb_sig_public_key bundle),
           ws_signature_bytes = signature_bytes sig_meta \<rparr>)))"

definition check_wire_sizes :: "prims \<Rightarrow> (string \<Rightarrow> string) \<Rightarrow> (string \<Rightarrow> rng) \<Rightarrow> span \<Rightarrow> wire_size_row list res" where
  "check_wire_sizes P uuids rs sp =
     map_res (wire_size_of P uuids rs sp)
       [(''classical'', ClassicalServer Map.empty), (''hybrid'', HybridServer Map.empty), (''full_pqc'', FullPqcServer Map.empty)]"

record conformance_report =
  cp_ml_kem_768 :: "conformance_check list"
  cp_ml_dsa_65 :: "conformance_check list"
  cp_standard_version_drift :: drift_report
  cp_wire_sizes :: "wire_size_row list"
  cp_total_checks :: nat
  cp_conformant :: nat
  cp_all_conformant :: bool

definition run_conformance :: "prims \<Rightarrow> rng \<Rightarrow> (string \<Rightarrow> string) \<Rightarrow> (string \<Rightarrow> rng) \<Rightarrow> span \<Rightarrow> conformance_report res" where
  "run_conformance P r uuids rs sp =
     bind_res (check_ml_kem_768 P r) (\<lambda>kem.
     bind_res (check_ml_dsa_65 P r) (\<lambda>sig.
     bind_res (check_standard_version_drift P r) (\<lambda>drift.
     bind_res (check_wire_sizes P uuids rs sp) (\<lambda>sizes.
     let all_checks = kem @ sig in
     Inr \<lparr> cp_ml_kem_768 = kem, cp_ml_dsa_65 = sig, cp_standard_version_drift = drift, cp_wire_sizes = sizes,
           cp_total_checks = length all_checks, cp_conformant = length (filter cf_conformant all_checks),
           cp_all_conformant = list_all cf_conformant all_checks \<rparr>))))"

text \<open>
  The one check whose outcome is the scheme's and not the wrappers': whether the signature of the
  probe verifies on the other message. It does not under an unforgeable scheme, unless by chance.
\<close>

definition tampered_check :: "bool \<Rightarrow> conformance_check" where
  "tampered_check accepted = check_property ''ML-DSA-65 rejects tampered message'' (\<not> accepted)"

definition probe_verdict :: "prims \<Rightarrow> rng \<Rightarrow> bool res" where
  "probe_verdict P r =
     bind_res (MLDSA65_keypair P (r 2)) (\<lambda>kp.
     bind_res (MLDSA65_sign P (r 3) spec_probe (sp_secret_key kp)) (\<lambda>sig.
     MLDSA65_verify P (encode ''a different message'') sig (sp_public_key kp)))"

lemma kem_checks_pass:
  assumes "kem_ok P"
  shows "\<exists>cs. check_ml_kem_768 P r = Inr cs \<and> length cs = 5 \<and> list_all cf_conformant cs"
proof -
  obtain kp where kp: "MLKEM768_keypair P (r 0) = Inr kp"
    using MLKEM768_keypair_ok [OF assms] by blast
  obtain ct ss where "MLKEM768_encaps P (r 1) (kp_public_key kp) = Inr (ct, ss)" "MLKEM768_decaps P ct (kp_secret_key kp) = Inr ss"
    using MLKEM768_agree [OF assms kp] by blast
  then show ?thesis
    using kp by (simp add: check_ml_kem_768_def check_size_def check_property_def wire_simps adapter_buffers_conform [symmetric] oqs_sizes Let_def)
qed

lemma dsa_checks_pass:
  assumes "dsa_ok P"
  shows "\<exists>cs accepted. probe_verdict P r = Inr accepted \<and> check_ml_dsa_65 P r = Inr (cs @ [tampered_check accepted]) \<and>
     length cs = 4 \<and> list_all cf_conformant cs"
proof -
  obtain kp where kp: "MLDSA65_keypair P (r 2) = Inr kp"
    using MLDSA65_keypair_ok [OF assms] by blast
  obtain sg where sg: "MLDSA65_sign P (r 3) spec_probe (sp_secret_key kp) = Inr sg" "length sg = 3309"
      "MLDSA65_verify P spec_probe sg (sp_public_key kp) = Inr True"
    using MLDSA65_sign_verify [OF assms kp] by blast
  obtain accepted where "MLDSA65_verify P (encode ''a different message'') sg (sp_public_key kp) = Inr accepted"
    using MLDSA65_verify_total MLDSA65_lengths(1) [OF kp] by blast
  then show ?thesis
    using kp sg MLDSA65_lengths(1) [OF kp]
    by (simp add: check_ml_dsa_65_def probe_verdict_def check_size_def check_property_def tampered_check_def FIPS_204_ML_DSA_65_def Let_def)
qed

lemma drift_final:
  assumes "dsa_ok P"
  shows "\<exists>d. check_standard_version_drift P r = Inr d \<and> df_matches_fips_204_final d \<and> \<not> df_matches_superseded_round3 d"
proof -
  obtain kp where kp: "MLDSA65_keypair P (r 4) = Inr kp"
    using MLDSA65_keypair_ok [OF assms] by blast
  obtain sg where "MLDSA65_sign P (r 5) (encode ''probe'') (sp_secret_key kp) = Inr sg" "length sg = 3309"
    using MLDSA65_sign_verify [OF assms kp] by blast
  then show ?thesis
    using kp MLDSA65_lengths(1) [OF kp]
    by (simp add: check_standard_version_drift_def FIPS_204_ML_DSA_65_def ROUND3_DILITHIUM3_SUPERSEDED_def Let_def)
qed

lemma wire_size_total:
  assumes "prims_ok P"
  obtains row where "wire_size_of P uuids rs sp (name, server) = Inr row" "ws_config row = name"
proof -
  obtain server1 b where b: "srv_new_handshake P (uuids name) (rs name) sp None server = (server1, Inr b)"
    using srv_new_total [OF assms] by blast
  obtain sg m where "srv_sign P (rs name 4) sp server1 (hb_handshake_id b) (encode ''envelope probe'') = Inr (sg, m)"
    using srv_sign_verifies [OF assms srv_new_holds [OF assms b]] by blast
  then show ?thesis
    using b that by (simp add: wire_size_of_def)
qed

text \<open>The sizes the standards fix, as the configurations send them.\<close>

definition pq_sizes :: "wire_size_row \<Rightarrow> bool" where
  "pq_sizes row \<longleftrightarrow>
     (ws_config row \<noteq> ''classical'' \<longrightarrow> ws_kex_public_key_bytes row = kem_public_key_bytes FIPS_203_ML_KEM_768) \<and>
     (ws_config row = ''full_pqc'' \<longrightarrow> ws_sig_public_key_bytes row = dsa_public_key_bytes FIPS_204_ML_DSA_65 \<and>
        ws_signature_bytes row = dsa_signature_bytes FIPS_204_ML_DSA_65)"

lemma hybrid_wire_sizes: "wire_size_of P uuids rs sp (name, HybridServer s) = Inr row \<Longrightarrow> ws_kex_public_key_bytes row = 1184"
  by (auto simp: wire_size_of_def hybrid_new_handshake_def Let_def wire_simps split: prod.splits sum.splits)

lemma full_pqc_wire_sizes:
  assumes "dsa_ok P" "wire_size_of P uuids rs sp (name, FullPqcServer s) = Inr row"
  shows "ws_kex_public_key_bytes row = 1184 \<and> ws_sig_public_key_bytes row = 1952 \<and> ws_signature_bytes row = 3309"
proof -
  obtain server1 b sg m where b: "full_pqc_new_handshake P (uuids name) (rs name) sp None s = (server1, Inr b)"
      "full_pqc_sign P (rs name 4) sp server1 (hb_handshake_id b) (encode ''envelope probe'') = Inr (sg, m)"
      "ws_kex_public_key_bytes row = length (hb_kex_public_key b)" "ws_sig_public_key_bytes row = length (hb_sig_public_key b)"
      "ws_signature_bytes row = signature_bytes m"
    using assms(2) by (cases "full_pqc_new_handshake P (uuids name) (rs name) sp None s") (auto simp: wire_size_of_def split: prod.splits)
  obtain t0 kp t1 skp where h: "MLKEM768_keypair P t0 = Inr kp" "MLDSA65_keypair P t1 = Inr skp" "hb_kex_public_key b = kp_public_key kp"
      "server1 (hb_handshake_id b) = Some \<lparr> fp_kem_secret_key = kp_secret_key kp, fp_sig_secret_key = sp_secret_key skp \<rparr>"
      "hb_sig_public_key b = sp_public_key skp"
    using full_pqc_new_holds [OF b(1)] unfolding full_pqc_holds_def by blast
  obtain sg' where "MLDSA65_sign P (rs name 4) (encode ''envelope probe'') (sp_secret_key skp) = Inr sg'" "length sg' = 3309"
    using MLDSA65_sign_verify [OF assms(1) h(2)] by blast
  then show ?thesis
    using b(2-5) h(3-5) MLKEM768_lengths(1) [OF h(1)] MLDSA65_lengths(1) [OF h(2)]
    by (auto simp: full_pqc_sign_def get_item_def mk_sign_meta_def)
qed

lemma wire_sizes_total:
  assumes "prims_ok P"
  shows "\<exists>rows. check_wire_sizes P uuids rs sp = Inr rows \<and> map ws_config rows = [''classical'', ''hybrid'', ''full_pqc''] \<and> list_all pq_sizes rows"
proof -
  have dsa: "dsa_ok P" using assms by (simp add: prims_ok_def)
  obtain a where a: "wire_size_of P uuids rs sp (''classical'', ClassicalServer Map.empty) = Inr a" "ws_config a = ''classical''"
    by (rule wire_size_total [OF assms])
  obtain b where b: "wire_size_of P uuids rs sp (''hybrid'', HybridServer Map.empty) = Inr b" "ws_config b = ''hybrid''"
    by (rule wire_size_total [OF assms])
  obtain c where c: "wire_size_of P uuids rs sp (''full_pqc'', FullPqcServer Map.empty) = Inr c" "ws_config c = ''full_pqc''"
    by (rule wire_size_total [OF assms])
  show ?thesis
    using a b c hybrid_wire_sizes [OF b(1)] full_pqc_wire_sizes [OF dsa c(1)]
    by (simp add: check_wire_sizes_def pq_sizes_def FIPS_203_ML_KEM_768_def FIPS_204_ML_DSA_65_def)
qed

end
