(* ===== verification/ConformanceProperties.thy ===== *)
theory ConformanceProperties
  imports NistKat SpecConformance
begin

text \<open>
  What the two validation reports are worth: a known-answer report without failure means every
  vector was answered as published, and the conformance report of a correct library has none.
\<close>

text \<open>C24
  A known-answer report that says all checks passed means that every one of NIST's vectors was
  reproduced: key pairs, ciphertexts, shared secrets and signatures byte for byte, every
  verification verdict, and each ML-DSA-65 run drew exactly the randomness of its vector.
\<close>

theorem kat_report_sound:
  assumes "run_all P ns ns' vs = Inr rep" "kt_all_passed rep"
  shows "vectors_agree P ns ns' vs"
proof -
  obtain kr es ds sv kd gr where s:
      "run_ml_kem_768_keygen P (kv_keygen vs) = Inr kr" "run_ml_kem_768_encap_decap P (kv_encaps vs) (kv_decaps vs) = Inr es"
      "run_ml_dsa_65_sigver P (kv_sigver vs) = Inr sv" "run_ml_dsa_65_keygen P ns (kv_dsa_keygen vs) = Inr kd"
      "run_ml_dsa_65_siggen P ns' (kv_siggen vs) = Inr gr"
    and rep: "kt_all_passed rep \<longleftrightarrow>
      sum_list (map ta_passed [snd kr, ed_encaps_tally es, ed_decaps_tally es, snd sv, snd kd, gp_tally gr]) =
      sum_list (map ta_total [snd kr, ed_encaps_tally es, ed_decaps_tally es, snd sv, snd kd, gp_tally gr])"
    using assms(1) unfolding run_all_def bind_res_eq_Inr Let_def
    by (elim exE conjE) (rule that, assumption+, drule sum.inject(2) [THEN iffD1], erule subst, simp only: kat_report.simps)
  obtain rs1 t1 rs3 t3 rs4 t4 where split: "kr = (rs1, t1)" "sv = (rs3, t3)" "kd = (rs4, t4)"
    by (metis prod.exhaust)
  note sound = ml_kem_keygen_suite [OF s(1) [unfolded split]] ml_kem_encap_decap_suite [OF s(2)] ml_dsa_sigver_suite [OF s(3) [unfolded split]]
    ml_dsa_keygen_suite [OF s(4) [unfolded split]] ml_dsa_siggen_suite [OF s(5)]
  have "ta_passed t1 = ta_total t1 \<and> ta_passed (ed_encaps_tally es) = ta_total (ed_encaps_tally es) \<and>
      ta_passed (ed_decaps_tally es) = ta_total (ed_decaps_tally es) \<and> ta_passed t3 = ta_total t3 \<and> ta_passed t4 = ta_total t4 \<and>
      ta_passed (gp_tally gr) = ta_total (gp_tally gr)"
    using sound [THEN counts_le] rep assms(2) by (simp add: split)
  then show ?thesis
    unfolding vectors_agree_def using sound [THEN counts_all] by (intro conjI) blast+
qed

definition wit_kat :: kat_vectors where
  "wit_kat = \<lparr> kv_keygen = [\<lparr> kg_tc_id = 1, kg_d = replicate 32 1, kg_z = replicate 32 2, kg_ek = replicate 1184 0, kg_dk = replicate 2400 0 \<rparr>],
     kv_encaps = [], kv_decaps = [\<lparr> dv_tc_id = 2, dv_dk = replicate 2400 0, dv_c = replicate 1088 5, dv_expected_k = replicate 32 5,
       dv_reason = ''valid decapsulation'' \<rparr>],
     kv_sigver = [], kv_dsa_keygen = [\<lparr> dk_tc_id = 3, dk_seed = replicate 32 7, dk_pk = replicate 1952 7, dk_sk = replicate 4032 7 \<rparr>],
     kv_siggen = [] \<rparr>"

lemma kat_report_sound_witness:
  "\<exists>rep. run_all toy_prims (\<lambda>_. [32]) (\<lambda>_. [32]) wit_kat = Inr rep \<and> kt_passed rep = 3 \<and>
     vectors_agree toy_prims (\<lambda>_. [32]) (\<lambda>_. [32]) wit_kat"
proof -
  have "\<exists>rep. run_all toy_prims (\<lambda>_. [32]) (\<lambda>_. [32]) wit_kat = Inr rep \<and> kt_passed rep = 3 \<and> kt_all_passed rep"
    by (simp add: run_all_def wit_kat_def run_ml_kem_768_keygen_def run_ml_kem_768_encap_decap_def run_ml_dsa_65_sigver_def
        run_ml_dsa_65_keygen_def run_ml_dsa_65_siggen_def tally_of_def MLKEM768_keypair_derand_def MLKEM768_decaps_def coins_def
        MLDSA65_keypair_def with_fixed_randomness_def fr_init_def fr_cb_def fr_exit_def tape_of_def cbuf_def oqs_sizes
        OQS_SUCCESS_def toy_prims_def Let_def)
  then show ?thesis
    using kat_report_sound by blast
qed

text \<open>C25
  With a liboqs that keeps to the standards, the conformance check makes ten checks. Nine hold, for
  any randomness; the tenth, that a signature is rejected on another message, reports the library's own verdict
  on that signature, and the report is all-conformant exactly when that verdict is a rejection.
  The drift report finds the final FIPS 204 sizes and not the superseded Round 3 ones. The three
  configurations of the wire table each have a row, in which the ML-KEM public key of the
  two post-quantum ones and the ML-DSA key and signature of the last have the standards' sizes: the
  ctypes wrappers lose and add no byte.
\<close>

theorem conformance_report_exact:
  assumes "prims_ok P"
  shows "\<exists>rep accepted. run_conformance P r uuids rs sp = Inr rep \<and> probe_verdict P r = Inr accepted \<and> cp_total_checks rep = 10 \<and>
    filter (\<lambda>c. \<not> cf_conformant c) (cp_ml_kem_768 rep @ cp_ml_dsa_65 rep) = (if accepted then [tampered_check True] else []) \<and>
    cp_conformant rep = (if accepted then 9 else 10) \<and> cp_all_conformant rep = (\<not> accepted) \<and>
    df_matches_fips_204_final (cp_standard_version_drift rep) \<and> \<not> df_matches_superseded_round3 (cp_standard_version_drift rep) \<and>
    map ws_config (cp_wire_sizes rep) = [''classical'', ''hybrid'', ''full_pqc''] \<and> list_all pq_sizes (cp_wire_sizes rep)"
proof -
  have ok: "kem_ok P" "dsa_ok P" using assms(1) by (simp_all add: prims_ok_def)
  obtain ks where ks: "check_ml_kem_768 P r = Inr ks" "length ks = 5" "list_all cf_conformant ks"
    using kem_checks_pass [OF ok(1)] by blast
  obtain ds accepted where ds: "probe_verdict P r = Inr accepted" "check_ml_dsa_65 P r = Inr (ds @ [tampered_check accepted])"
      "length ds = 4" "list_all cf_conformant ds"
    using dsa_checks_pass [OF ok(2)] by blast
  obtain drift where drift: "check_standard_version_drift P r = Inr drift" "df_matches_fips_204_final drift" "\<not> df_matches_superseded_round3 drift"
    using drift_final [OF ok(2)] by blast
  obtain rows where rows: "check_wire_sizes P uuids rs sp = Inr rows"
      "map ws_config rows = [''classical'', ''hybrid'', ''full_pqc'']" "list_all pq_sizes rows"
    using wire_sizes_total [OF assms(1), of uuids rs sp] by (elim exE conjE)
  let ?all = "ks @ ds @ [tampered_check accepted]"
  have run: "run_conformance P r uuids rs sp = Inr \<lparr> cp_ml_kem_768 = ks, cp_ml_dsa_65 = ds @ [tampered_check accepted],
      cp_standard_version_drift = drift, cp_wire_sizes = rows, cp_total_checks = length ?all,
      cp_conformant = length (filter cf_conformant ?all), cp_all_conformant = list_all cf_conformant ?all \<rparr>"
    using ks(1) ds(2) drift(1) rows(1) by (simp only: run_conformance_def bind_res_simps Let_def)
  have one: "cf_conformant (tampered_check accepted) = (\<not> accepted)"
    by (simp add: tampered_check_def check_property_def)
  have "filter cf_conformant ks = ks" "filter cf_conformant ds = ds" "filter (\<lambda>c. \<not> cf_conformant c) ks = []" "filter (\<lambda>c. \<not> cf_conformant c) ds = []"
    using ks(3) ds(4) by (simp_all add: list_all_iff)
  then show ?thesis
    unfolding run using ks(2,3) ds(1,3,4) drift rows one by simp
qed

lemma conformance_report_exact_witness:
  "\<exists>rep. run_conformance toy_prims (\<lambda>_ _. 1) (\<lambda>n. n) (\<lambda>_ _ _. 2) (\<lparr> perf_counter = 0, thread_time = 0 \<rparr>, \<lparr> perf_counter = 1, thread_time = 1 \<rparr>) = Inr rep \<and>
     cp_all_conformant rep \<and> cp_conformant rep = 10"
proof -
  let ?pad = "\<lambda>m. take 3309 (m @ replicate 3309 0) :: bytes"
  have "?pad spec_probe \<noteq> ?pad (encode ''a different message'')"
  proof
    assume "?pad spec_probe = ?pad (encode ''a different message'')"
    then have "take 1 (?pad spec_probe) = take 1 (?pad (encode ''a different message''))" by simp
    then show False by (simp add: encode_def spec_probe_def)
  qed
  moreover have "MLDSA65_sign toy_prims t spec_probe sk = Inr sg \<Longrightarrow> sg = ?pad spec_probe" for t sk sg
    by (auto simp: MLDSA65_sign_def toy_prims_def oqs_sizes OQS_SUCCESS_def split: if_splits)
  moreover have "MLDSA65_verify toy_prims m sg pk = Inr b \<Longrightarrow> b = (sg = ?pad m)" for m sg pk b
    by (auto simp: MLDSA65_verify_def toy_prims_def oqs_sizes OQS_SUCCESS_def split: if_splits)
  ultimately have rejected: "\<not> accepted" if "probe_verdict toy_prims (\<lambda>_ _. 1) = Inr accepted" for accepted
    using that unfolding probe_verdict_def bind_res_eq_Inr by blast
  obtain rep accepted where rep: "run_conformance toy_prims (\<lambda>_ _. 1) (\<lambda>n. n) (\<lambda>_ _ _. 2)
        (\<lparr> perf_counter = 0, thread_time = 0 \<rparr>, \<lparr> perf_counter = 1, thread_time = 1 \<rparr>) = Inr rep"
      "probe_verdict toy_prims (\<lambda>_ _. 1) = Inr accepted" "cp_conformant rep = (if accepted then 9 else 10)" "cp_all_conformant rep = (\<not> accepted)"
    using conformance_report_exact [OF toy_prims_ok, of "\<lambda>_ _. 1" "\<lambda>n. n" "\<lambda>_ _ _. 2"
        "(\<lparr> perf_counter = 0, thread_time = 0 \<rparr>, \<lparr> perf_counter = 1, thread_time = 1 \<rparr>)"]
    by (elim exE conjE)
  then show ?thesis
    using rejected [OF rep(2)] by auto
qed

end
