(* ===== verification/LiveDemo.thy ===== *)
theory LiveDemo
  imports TamperProxy StreamingClient
begin

text \<open>
  \<^verbatim>\<open>webapp/demo_transaction.py\<close>: the transactions behind the dashboard's live pages. They use the
  client functions of the benchmark, with the tampering inside the client: one prediction whose
  response is changed before it is checked, and a stream under one of seven attacks whose records
  are reported as they are verified. The text of a chunk is its bytes; \<open>sps n\<close> is the span of the
  verification of the \<open>n\<close>th record. Handshake metadata is left out.
\<close>

section \<open>One prediction\<close>

datatype demo_error = DemoHTTP nat | DemoExn exn | DemoTampered

record demo_row =
  dt_config :: string
  dt_error :: "demo_error option"
  dt_valid_signature :: "bool option"
  dt_tampered :: "string option"
  dt_decryption_ok :: "bool option"
  dt_handshake_ms :: "rat option"
  dt_kex_algorithm :: "string option"
  dt_sig_algorithm :: "string option"
  dt_client_establish_ms :: "rat option"
  dt_kex_blob_bytes :: "nat option"
  dt_rtt_ms :: "rat option"
  dt_server_timing :: "json option"
  dt_debug :: "json option"
  dt_verify_ms :: "rat option"
  dt_signature_bytes :: "nat option"
  dt_prediction :: "json option"
  dt_probabilities :: "json option"

definition demo_row0 :: "string \<Rightarrow> string option \<Rightarrow> demo_row" where
  "demo_row0 config_name tamper_target =
     \<lparr> dt_config = config_name, dt_error = None, dt_valid_signature = None, dt_tampered = tamper_target,
       dt_decryption_ok = None, dt_handshake_ms = None, dt_kex_algorithm = None, dt_sig_algorithm = None,
       dt_client_establish_ms = None, dt_kex_blob_bytes = None, dt_rtt_ms = None, dt_server_timing = None,
       dt_debug = None, dt_verify_ms = None, dt_signature_bytes = None, dt_prediction = None, dt_probabilities = None \<rparr>"

definition run_control_transaction :: "prims \<Rightarrow> (json \<Rightarrow> (nat \<times> bytes) res) \<Rightarrow> rat \<times> rat \<Rightarrow> rat list \<Rightarrow> demo_row" where
  "run_control_transaction P post clk features =
     (let row = demo_row0 ''control'' None in
      case post (JObj [(''input'', JList (map JFloat features))]) of
        Inl e \<Rightarrow> row \<lparr> dt_error := Some (DemoExn e) \<rparr>
      | Inr (status, body) \<Rightarrow>
          let row1 = row \<lparr> dt_rtt_ms := Some (ms_between clk) \<rparr> in
          if status \<noteq> 200 then row1 \<lparr> dt_error := Some (DemoHTTP status) \<rparr>
          else (case bind_res (loads P body) (\<lambda>j. bind_res (json_field j ''prediction'') (\<lambda>p. Inr (j, p))) of
                  Inl e \<Rightarrow> row1 \<lparr> dt_error := Some (DemoExn e) \<rparr>
                | Inr (j, p) \<Rightarrow>
                    let row2 = row1 \<lparr> dt_prediction := Some p \<rparr> in
                    (case json_field j ''probabilities'' of
                       Inl e \<Rightarrow> row2 \<lparr> dt_error := Some (DemoExn e) \<rparr>
                     | Inr q \<Rightarrow> row2 \<lparr> dt_probabilities := Some q \<rparr>)))"

text \<open>What the client holds after the key exchange.\<close>

record demo_session =
  ds_client :: client_crypto
  ds_key :: bytes
  ds_sig_public_key :: bytes

definition demo_request ::
  "prims \<Rightarrow> rng \<Rightarrow> span \<Rightarrow> client_crypto \<Rightarrow> json_strings \<Rightarrow> rat list \<Rightarrow> demo_row
     \<Rightarrow> demo_row \<times> (demo_session \<times> secure_predict_request) res" where
  "demo_request P r sp cl hs features row =
     (case bind_res (bind_res (get_item hs ''kex_public_key'') b64d) (\<lambda>kex_public_key.
           bind_res (bind_res (get_item hs ''sig_public_key'') b64d) (\<lambda>sig_public_key.
           bind_res (get_item hs ''handshake_id'') (\<lambda>handshake_id.
           bind_res (cl_establish P r sp cl kex_public_key) (\<lambda>est. Inr (sig_public_key, handshake_id, est))))) of
        Inl e \<Rightarrow> (row, Inl e)
      | Inr (sig_public_key, handshake_id, est) \<Rightarrow>
          (row \<lparr> dt_client_establish_ms := Some (handshake_encrypt_ms (er_meta est)),
                 dt_kex_blob_bytes := Some (length (er_kex_blob est)) \<rparr>,
           bind_res (aead_encrypt P (r 2) (er_session_key est)
                       (json_dumps P (JObj [(''input'', JList (map JFloat features))])) None) (\<lambda>req_aead.
           Inr (\<lparr> ds_client = cl, ds_key = er_session_key est, ds_sig_public_key = sig_public_key \<rparr>,
                \<lparr> rq_handshake_id = handshake_id, rq_kex_blob = b64e (er_kex_blob est),
                  rq_nonce = b64e (ar_nonce req_aead), rq_ciphertext = b64e (ar_ciphertext req_aead),
                  rq_keep_session = False \<rparr>))))"

text \<open>Decrypting the response; only a failed AES-GCM check has an error text of its own.\<close>

definition demo_decrypt :: "prims \<Rightarrow> demo_session \<Rightarrow> bytes \<Rightarrow> bytes \<Rightarrow> demo_row \<Rightarrow> demo_row" where
  "demo_decrypt P s resp_nonce resp_ciphertext row =
     (case aead_decrypt P (ds_key s) resp_nonce resp_ciphertext None of
        Inl e \<Rightarrow> if e = AEADError then row \<lparr> dt_decryption_ok := Some False, dt_error := Some DemoTampered \<rparr>
                 else row \<lparr> dt_error := Some (DemoExn e) \<rparr>
      | Inr plaintext \<Rightarrow>
          (case bind_res (loads P plaintext) (\<lambda>j.
                bind_res (body_get j ''prediction'' JNull) (\<lambda>p.
                bind_res (body_get j ''probabilities'' JNull) (\<lambda>q. Inr (p, q)))) of
             Inl e \<Rightarrow> row \<lparr> dt_error := Some (DemoExn e) \<rparr>
           | Inr (p, q) \<Rightarrow> row \<lparr> dt_prediction := Some p, dt_probabilities := Some q, dt_decryption_ok := Some True \<rparr>))"

definition demo_response :: "prims \<Rightarrow> span \<Rightarrow> demo_session \<Rightarrow> json \<Rightarrow> demo_row \<Rightarrow> demo_row" where
  "demo_response P sp s resp_json row =
     (case bind_res (body_get resp_json ''server_timing_ms'' (JObj [])) (\<lambda>timing.
           bind_res (body_get resp_json ''debug'' JNull) (\<lambda>debug. Inr (timing, debug))) of
        Inl e \<Rightarrow> row \<lparr> dt_error := Some (DemoExn e) \<rparr>
      | Inr (timing, debug) \<Rightarrow>
          let row1 = row \<lparr> dt_server_timing := Some timing, dt_debug := Some debug \<rparr> in
          (case bind_res (bind_res (bind_res (json_field resp_json ''nonce'') json_str) b64d) (\<lambda>resp_nonce.
                bind_res (bind_res (bind_res (json_field resp_json ''ciphertext'') json_str) b64d) (\<lambda>resp_ciphertext.
                bind_res (bind_res (bind_res (json_field resp_json ''signature'') json_str) b64d) (\<lambda>signature.
                bind_res (cl_verify P sp (ds_client s) (resp_nonce @ resp_ciphertext) signature (ds_sig_public_key s)) (\<lambda>(valid, meta).
                Inr (resp_nonce, resp_ciphertext, signature, valid, meta))))) of
             Inl e \<Rightarrow> row1 \<lparr> dt_error := Some (DemoExn e) \<rparr>
           | Inr (resp_nonce, resp_ciphertext, signature, valid, meta) \<Rightarrow>
               demo_decrypt P s resp_nonce resp_ciphertext
                 (row1 \<lparr> dt_valid_signature := Some valid, dt_verify_ms := Some (verify_ms meta),
                         dt_signature_bytes := Some (length signature) \<rparr>)))"

text \<open>\<open>post\<close> answers with a status and the raw body; the body is tampered with before it is parsed.\<close>

definition run_secure_transaction ::
  "prims \<Rightarrow> rng \<Rightarrow> txn_clock \<Rightarrow> (json_strings \<times> rat) res \<Rightarrow> (secure_predict_request \<Rightarrow> (nat \<times> bytes) res)
     \<Rightarrow> string \<Rightarrow> rat list \<Rightarrow> string option \<Rightarrow> demo_row res" where
  "run_secure_transaction P r clk handshake_result post config_name features tamper_target =
     bind_res (get_client_crypto config_name) (\<lambda>cl.
     let row = demo_row0 config_name tamper_target in
     Inr (case handshake_result of
        Inl e \<Rightarrow> row \<lparr> dt_error := Some (DemoExn e) \<rparr>
      | Inr (hs, handshake_ms) \<Rightarrow>
          let row1 = row \<lparr> dt_handshake_ms := Some handshake_ms, dt_kex_algorithm := hs ''kex_algorithm'',
                          dt_sig_algorithm := hs ''sig_algorithm'' \<rparr> in
          (case demo_request P r (tc_establish clk) cl hs features row1 of
             (row2, Inl e) \<Rightarrow> row2 \<lparr> dt_error := Some (DemoExn e) \<rparr>
           | (row2, Inr (s, payload)) \<Rightarrow>
               (case post payload of
                  Inl e \<Rightarrow> row2 \<lparr> dt_error := Some (DemoExn e) \<rparr>
                | Inr (status, content) \<Rightarrow>
                    let row3 = row2 \<lparr> dt_rtt_ms := Some (ms_between (tc_post clk)) \<rparr> in
                    if status \<noteq> 200 then row3 \<lparr> dt_error := Some (DemoHTTP status) \<rparr>
                    else (case bind_res (case tamper_target of
                                           None \<Rightarrow> Inr content
                                         | Some target \<Rightarrow> if target = [] then Inr content else tamper_response_body P content target)
                                 (loads P) of
                            Inl e \<Rightarrow> row3 \<lparr> dt_error := Some (DemoExn e) \<rparr>
                          | Inr resp_json \<Rightarrow> demo_response P (tc_verify clk) s resp_json row3)))))"

end
