(* ===== verification/LiveStream.thy ===== *)
theory LiveStream
  imports LiveDemo
begin

text \<open>
  \<^verbatim>\<open>run_streaming_transaction_live\<close> of \<^verbatim>\<open>webapp/demo_transaction.py\<close>: the stream of one demo run,
  the attack applied to its records on the way, and the events the page shows.
\<close>

section \<open>Events and state\<close>

datatype live_status = StVerified | StPending | StRejected

record live_chunk =
  lc_index :: int
  lc_text :: "bytes option"
  lc_status :: live_status
  lc_reason :: "string option"
  lc_attacked :: bool
  lc_signature_valid :: "bool option"
  lc_aead_ok :: "bool option"

datatype rejected_at = AtIndex int | AtEnd

record live_metrics =
  lm_config :: string
  lm_strategy :: string
  lm_checkpoint_interval :: "int option"
  lm_attack :: "string option"
  lm_handshake_ms :: "rat option"
  lm_ttft_ms :: "rat option"
  lm_total_ms :: "rat option"
  lm_n_chunks :: nat
  lm_n_signatures :: nat
  lm_total_signature_bytes :: nat
  lm_total_signing_ms :: rat
  lm_total_signing_cpu_ms :: rat
  lm_total_verify_ms :: rat
  lm_stream_fully_verified :: "bool option"
  lm_max_unverified_chunks :: nat
  lm_rejected_at_chunk :: "rejected_at option"

datatype live_event =
  EvChunk live_chunk | EvCovered int | EvFinal bool "string option" "bytes option" | EvSummary live_metrics | EvError txn_error

record live_state =
  lv_metrics :: live_metrics
  lv_expected :: int
  lv_pending :: nat
  lv_failed :: "string option"
  lv_terminal :: bool
  lv_held :: "string row option"
  lv_chain :: "chain_state option"

definition live_metrics0 :: "string \<Rightarrow> string \<Rightarrow> int option \<Rightarrow> string option \<Rightarrow> rat \<Rightarrow> live_metrics" where
  "live_metrics0 config_name strategy checkpoint_interval attack handshake_ms =
     \<lparr> lm_config = config_name, lm_strategy = strategy, lm_checkpoint_interval = checkpoint_interval, lm_attack = attack,
       lm_handshake_ms = Some handshake_ms, lm_ttft_ms = None, lm_total_ms = None, lm_n_chunks = 0, lm_n_signatures = 0,
       lm_total_signature_bytes = 0, lm_total_signing_ms = 0, lm_total_signing_cpu_ms = 0, lm_total_verify_ms = 0,
       lm_stream_fully_verified = None, lm_max_unverified_chunks = 0, lm_rejected_at_chunk = None \<rparr>"

definition live_start :: "prims \<Rightarrow> session_view \<Rightarrow> int option \<Rightarrow> bool \<Rightarrow> live_metrics \<Rightarrow> live_state" where
  "live_start P v checkpoint_interval enforce_schedule m =
     \<lparr> lv_metrics = m, lv_expected = 0, lv_pending = 0, lv_failed = None, lv_terminal = False, lv_held = None,
       lv_chain = (if sv_strategy v = ''hash_chain''
                   then Some (chain_init P (sv_handshake_id v) (if enforce_schedule then checkpoint_interval else None)) else None) \<rparr>"

section \<open>Verifying one record\<close>

definition account :: "nat \<Rightarrow> rat \<Rightarrow> rat \<Rightarrow> bool \<Rightarrow> live_metrics \<Rightarrow> live_metrics" where
  "account sig_bytes signing signing_cpu has_sig m =
     m \<lparr> lm_total_signature_bytes := lm_total_signature_bytes m + sig_bytes,
         lm_total_signing_ms := lm_total_signing_ms m + signing,
         lm_total_signing_cpu_ms := lm_total_signing_cpu_ms m + signing_cpu,
         lm_n_signatures := (if has_sig then lm_n_signatures m + 1 else lm_n_signatures m) \<rparr>"

definition add_verify :: "rat \<Rightarrow> live_metrics \<Rightarrow> live_metrics" where
  "add_verify ms m = m \<lparr> lm_total_verify_ms := lm_total_verify_ms m + ms \<rparr>"

text \<open>Only the first failure is kept.\<close>

definition fail_at :: "string option \<Rightarrow> rejected_at \<Rightarrow> live_state \<Rightarrow> live_state" where
  "fail_at reason pos st =
     (case reason of
        None \<Rightarrow> st
      | Some _ \<Rightarrow> if lv_failed st = None
                  then st \<lparr> lv_failed := reason, lv_metrics := (lv_metrics st) \<lparr> lm_rejected_at_chunk := Some pos \<rparr> \<rparr>
                  else st)"

definition text_of :: "bytes option \<Rightarrow> bytes option" where
  "text_of plaintext = (if truthy_bytes plaintext then plaintext else None)"

definition chunk_signed :: "string chunk_row \<Rightarrow> bool" where
  "chunk_signed data \<longleftrightarrow> (case ck_signature data of None \<Rightarrow> False | Some s \<Rightarrow> s \<noteq> [])"

definition count_chunk :: "string chunk_row \<Rightarrow> live_state \<Rightarrow> live_state" where
  "count_chunk data st =
     st \<lparr> lv_metrics := (let m = account (ck_signature_bytes data) (ck_sign_ms data) (ck_sign_cpu_ms data) (chunk_signed data) (lv_metrics st)
                        in m \<lparr> lm_n_chunks := lm_n_chunks m + 1 \<rparr>) \<rparr>"

definition pc_reason :: "pc_result \<Rightarrow> string option" where
  "pc_reason r =
     (if pr_signature_valid r \<and> pr_aead_ok r = Some True \<and> pr_in_order r then None
      else Some (if \<not> pr_signature_valid r then ''signature invalid''
                 else if pr_aead_ok r = Some False then ''AEAD tag failed'' else ''out of order''))"

definition show_pc :: "string chunk_row \<Rightarrow> bool \<Rightarrow> pc_result \<Rightarrow> live_state \<Rightarrow> live_state \<times> live_event list" where
  "show_pc data attacked r st =
     (let st1 = st \<lparr> lv_expected := lv_expected st + 1, lv_metrics := add_verify (pr_verify_ms r) (lv_metrics st) \<rparr>;
          reason = pc_reason r;
          st2 = fail_at reason (AtIndex (ck_index data)) st1 in
      (st2, [EvChunk \<lparr> lc_index = ck_index data, lc_text = text_of (pr_plaintext r),
               lc_status = (if reason = None \<and> lv_failed st2 = None then StVerified else StRejected),
               lc_reason = reason, lc_attacked = attacked, lc_signature_valid = Some (pr_signature_valid r),
               lc_aead_ok = pr_aead_ok r \<rparr>]))"

definition process_pc :: "prims \<Rightarrow> session_view \<Rightarrow> span \<Rightarrow> string chunk_row \<Rightarrow> bool \<Rightarrow> live_state \<Rightarrow> (live_state \<times> live_event list) res" where
  "process_pc P v sp data attacked st =
     bind_res (decode_pc_chunk data) (\<lambda>chunk.
     bind_res (verify_per_chunk P sp chunk (lv_expected st) (sv_key v) (sv_sig_public_key v) (sv_client v) (sv_handshake_id v)) (\<lambda>r.
     Inr (show_pc data attacked r (count_chunk data st))))"

text \<open>The optional signature is decoded before the chain value.\<close>

definition decode_live_hc :: "string chunk_row \<Rightarrow> hc_chunk res" where
  "decode_live_hc data =
     bind_res (b64d (ck_nonce data)) (\<lambda>nonce.
     bind_res (b64d (ck_ciphertext data)) (\<lambda>ciphertext.
     bind_res (case ck_signature data of
                 None \<Rightarrow> Inr None
               | Some s \<Rightarrow> if s = [] then Inr None else map_sum id Some (b64d s)) (\<lambda>signature.
     bind_res (case ck_chain_hash data of None \<Rightarrow> Inl KeyError | Some s \<Rightarrow> b64d s) (\<lambda>chain_hash.
     Inr \<lparr> hk_index = ck_index data, hk_nonce = nonce, hk_ciphertext = ciphertext, hk_chain_hash = chain_hash,
           hk_signature = signature \<rparr>))))"

definition hc_reason :: "hc_result \<Rightarrow> string option" where
  "hc_reason r =
     (if hr_aead_ok r \<noteq> Some True then Some ''AEAD tag failed''
      else if hr_checkpoint_missing r then Some ''expected checkpoint missing''
      else if hr_checkpoint r \<and> hr_checkpoint_valid r \<noteq> Some True then Some ''checkpoint signature does not match the chain''
      else None)"

definition show_hc :: "string chunk_row \<Rightarrow> bool \<Rightarrow> chain_state \<Rightarrow> hc_result \<Rightarrow> live_state \<Rightarrow> live_state \<times> live_event list" where
  "show_hc data attacked cs r st =
     (let st1 = st \<lparr> lv_chain := Some cs, lv_metrics := add_verify (hr_verify_ms r) (lv_metrics st) \<rparr>;
          reason = hc_reason r;
          st2 = fail_at reason (AtIndex (ck_index data)) st1;
          pending = lv_pending st2 + 1;
          st3 = st2 \<lparr> lv_pending := pending,
                      lv_metrics := (lv_metrics st2) \<lparr> lm_max_unverified_chunks := max (lm_max_unverified_chunks (lv_metrics st2)) pending \<rparr> \<rparr>;
          shown = EvChunk \<lparr> lc_index = ck_index data, lc_text = text_of (hr_plaintext r),
                    lc_status = (if lv_failed st3 \<noteq> None then StRejected else StPending), lc_reason = reason,
                    lc_attacked = attacked, lc_signature_valid = hr_checkpoint_valid r, lc_aead_ok = hr_aead_ok r \<rparr> in
      if hr_checkpoint r \<and> hr_checkpoint_valid r = Some True \<and> lv_failed st3 = None
      then (st3 \<lparr> lv_pending := 0 \<rparr>, [shown, EvCovered (ck_index data)])
      else (st3, [shown]))"

definition live_chain :: "live_state \<Rightarrow> chain_state res" where
  "live_chain st = (case lv_chain st of None \<Rightarrow> Inl AttributeError | Some cs \<Rightarrow> Inr cs)"

definition process_hc :: "prims \<Rightarrow> session_view \<Rightarrow> span \<Rightarrow> string chunk_row \<Rightarrow> bool \<Rightarrow> live_state \<Rightarrow> (live_state \<times> live_event list) res" where
  "process_hc P v sp data attacked st =
     bind_res (decode_live_hc data) (\<lambda>chunk.
     bind_res (live_chain st) (\<lambda>cs.
     bind_res (verify_hash_chain_chunk P sp chunk cs (sv_key v) (Some (sv_sig_public_key v)) (Some (sv_client v))) (\<lambda>(cs', r).
     Inr (show_hc data attacked cs' r (count_chunk data st)))))"

text \<open>A terminal record: the verdict is that nothing has failed, up to and including it.\<close>

definition show_final :: "rat \<Rightarrow> string option \<Rightarrow> bytes option \<Rightarrow> live_state \<Rightarrow> live_state \<times> live_event list" where
  "show_final ms reason text st =
     (let st1 = fail_at reason AtEnd (st \<lparr> lv_terminal := True, lv_metrics := add_verify ms (lv_metrics st) \<rparr>);
          verified = (lv_failed st1 = None);
          st2 = st1 \<lparr> lv_metrics := (lv_metrics st1) \<lparr> lm_stream_fully_verified := Some verified \<rparr> \<rparr> in
      (st2, (if verified then [EvCovered (int (lm_n_chunks (lv_metrics st2)) - 1)] else []) @ [EvFinal verified (lv_failed st2) text]))"

definition buffered_reason :: "buffered_result \<Rightarrow> string option" where
  "buffered_reason r =
     (if br_signature_valid r \<and> br_aead_ok r = Some True then None
      else Some (if br_aead_ok r = Some False then ''AEAD tag failed'' else ''signature invalid''))"

definition end_reason :: "pc_final_result \<Rightarrow> string option" where
  "end_reason r =
     (if pf_stream_fully_verified r then None
      else Some (if \<not> pf_signature_valid r then ''end record signature invalid''
                 else ''chunk count does not match the signed end record''))"

definition chain_end_reason :: "hc_final_result \<Rightarrow> string option" where
  "chain_end_reason r =
     (if hf_stream_fully_verified r then None
      else Some (if \<not> hf_signature_valid r then ''terminal signature invalid''
                 else ''chain or length does not match the signed terminal record''))"

definition process_buffered :: "prims \<Rightarrow> session_view \<Rightarrow> span \<Rightarrow> string buffered_row \<Rightarrow> live_state \<Rightarrow> (live_state \<times> live_event list) res" where
  "process_buffered P v sp data st =
     bind_res (b64d (fb_nonce data)) (\<lambda>nonce.
     bind_res (b64d (fb_ciphertext data)) (\<lambda>ciphertext.
     bind_res (b64d (fb_signature data)) (\<lambda>signature.
     bind_res (verify_buffer_and_sign_final P sp \<lparr> bc_nonce = nonce, bc_ciphertext = ciphertext, bc_signature = signature \<rparr>
                 (sv_key v) (sv_sig_public_key v) (sv_client v) (sv_handshake_id v)) (\<lambda>r.
     Inr (show_final (br_verify_ms r) (buffered_reason r) (text_of (br_plaintext r))
            (st \<lparr> lv_metrics := account (fb_signature_bytes data) (fb_sign_ms data) (fb_sign_cpu_ms data) (fb_signature data \<noteq> []) (lv_metrics st) \<rparr>))))))"

definition process_end :: "prims \<Rightarrow> session_view \<Rightarrow> span \<Rightarrow> string end_row \<Rightarrow> live_state \<Rightarrow> (live_state \<times> live_event list) res" where
  "process_end P v sp data st =
     bind_res (b64d (pe_signature data)) (\<lambda>signature.
     bind_res (verify_per_chunk_final P sp (pe_n_chunks data) signature (lv_expected st)
                 (sv_sig_public_key v) (sv_client v) (sv_handshake_id v)) (\<lambda>r.
     Inr (show_final (pf_verify_ms r) (end_reason r) None
            (st \<lparr> lv_metrics := account (pe_signature_bytes data) (pe_sign_ms data) (pe_sign_cpu_ms data) (pe_signature data \<noteq> []) (lv_metrics st) \<rparr>))))"

definition process_chain_end :: "prims \<Rightarrow> session_view \<Rightarrow> span \<Rightarrow> string final_row \<Rightarrow> live_state \<Rightarrow> (live_state \<times> live_event list) res" where
  "process_chain_end P v sp data st =
     bind_res (b64d (fc_final_chain_hash data)) (\<lambda>final_chain_hash.
     bind_res (b64d (fc_signature data)) (\<lambda>signature.
     bind_res (live_chain st) (\<lambda>cs.
     bind_res (verify_hash_chain_final P sp
                 \<lparr> hl_final_chain_hash = final_chain_hash, hl_n_chunks = fc_n_chunks data, hl_signature = signature \<rparr>
                 cs (sv_sig_public_key v) (sv_client v)) (\<lambda>r.
     Inr (show_final (hf_verify_ms r) (chain_end_reason r) None
            (st \<lparr> lv_metrics := account (fc_signature_bytes data) (fc_sign_ms data) (fc_sign_cpu_ms data) (fc_signature data \<noteq> []) (lv_metrics st) \<rparr>))))))"

text \<open>Every chunk of a strategy other than \<^verbatim>\<open>per_chunk\<close> goes to the hash chain.\<close>

definition live_process :: "prims \<Rightarrow> session_view \<Rightarrow> span \<Rightarrow> string row \<Rightarrow> bool \<Rightarrow> live_state \<Rightarrow> (live_state \<times> live_event list) res" where
  "live_process P v sp row attacked st =
     (case row of
        Chunk c \<Rightarrow> if sv_strategy v = ''per_chunk'' then process_pc P v sp c attacked st else process_hc P v sp c attacked st
      | FinalBuffered f \<Rightarrow> process_buffered P v sp f st
      | FinalPerChunk f \<Rightarrow> process_end P v sp f st
      | FinalChain f \<Rightarrow> process_chain_end P v sp f st)"

section \<open>The attacker\<close>

definition STREAM_ATTACKS :: "(string option \<times> string) list" where
  "STREAM_ATTACKS =
     [(None, ''No attack''), (Some ''tamper_ciphertext'', ''Flip a bit in one chunk's ciphertext''),
      (Some ''tamper_signature'', ''Flip a bit in a signature''), (Some ''drop'', ''Drop one chunk''),
      (Some ''reorder'', ''Swap one chunk with the next''), (Some ''duplicate'', ''Deliver one chunk twice''),
      (Some ''truncate'', ''Cut the stream after one chunk''),
      (Some ''strip_checkpoints'', ''Strip every checkpoint signature'')]"

definition flip_middle_byte :: "bytes \<Rightarrow> bytes" where
  "flip_middle_byte raw = (if raw = [] then raw else flip_middle raw)"

definition flip_b64 :: "string \<Rightarrow> string res" where
  "flip_b64 s = bind_res (b64d s) (\<lambda>raw. Inr (b64e (flip_middle_byte raw)))"

text \<open>\<^verbatim>\<open>_flip("ciphertext", data)\<close> and \<^verbatim>\<open>_flip("signature", data)\<close>.\<close>

fun flip_ciphertext :: "string row \<Rightarrow> string row res" where
  "flip_ciphertext (Chunk c) = bind_res (flip_b64 (ck_ciphertext c)) (\<lambda>s. Inr (Chunk (c \<lparr> ck_ciphertext := s \<rparr>)))"
| "flip_ciphertext (FinalBuffered f) = bind_res (flip_b64 (fb_ciphertext f)) (\<lambda>s. Inr (FinalBuffered (f \<lparr> fb_ciphertext := s \<rparr>)))"
| "flip_ciphertext _ = Inl KeyError"

fun flip_signature :: "string row \<Rightarrow> string row res" where
  "flip_signature (Chunk c) =
     bind_res (bind_res (case ck_signature c of None \<Rightarrow> Inl AttributeError | Some s \<Rightarrow> Inr s) flip_b64) (\<lambda>s.
     Inr (Chunk (c \<lparr> ck_signature := Some s \<rparr>)))"
| "flip_signature (FinalBuffered f) = bind_res (flip_b64 (fb_signature f)) (\<lambda>s. Inr (FinalBuffered (f \<lparr> fb_signature := s \<rparr>)))"
| "flip_signature (FinalPerChunk f) = bind_res (flip_b64 (pe_signature f)) (\<lambda>s. Inr (FinalPerChunk (f \<lparr> pe_signature := s \<rparr>)))"
| "flip_signature (FinalChain f) = bind_res (flip_b64 (fc_signature f)) (\<lambda>s. Inr (FinalChain (f \<lparr> fc_signature := s \<rparr>)))"

fun row_signed :: "string row \<Rightarrow> bool" where
  "row_signed (Chunk c) = chunk_signed c"
| "row_signed (FinalBuffered f) = (fb_signature f \<noteq> [])"
| "row_signed (FinalPerChunk f) = (pe_signature f \<noteq> [])"
| "row_signed (FinalChain f) = (fc_signature f \<noteq> [])"

fun is_chunk_row :: "string row \<Rightarrow> bool" where
  "is_chunk_row (Chunk c) = True"
| "is_chunk_row _ = False"

fun is_target :: "int \<Rightarrow> string row \<Rightarrow> bool" where
  "is_target attack_index (Chunk c) = (ck_index c = attack_index)"
| "is_target attack_index _ = False"

fun strip_signature :: "string row \<Rightarrow> string row" where
  "strip_signature (Chunk c) = Chunk (c \<lparr> ck_signature := None, ck_signature_bytes := 0 \<rparr>)"
| "strip_signature row = row"

text \<open>What is handed on for one record, and the record held back.\<close>

definition batch_of ::
  "string \<Rightarrow> string option \<Rightarrow> int \<Rightarrow> string row \<Rightarrow> string row option \<Rightarrow> ((string row \<times> bool) list \<times> string row option) res" where
  "batch_of strategy attack attack_index data held =
     (let target = is_target attack_index data; final = \<not> is_chunk_row data in
      if attack = Some ''tamper_ciphertext'' \<and> (target \<or> (strategy = ''buffer_and_sign'' \<and> final)) then
        map_sum id (\<lambda>d. ([(d, True)], held)) (flip_ciphertext data)
      else if attack = Some ''tamper_signature'' \<and> row_signed data \<and> (target \<or> (strategy \<noteq> ''per_chunk'' \<and> final)) then
        map_sum id (\<lambda>d. ([(d, True)], held)) (flip_signature data)
      else if attack = Some ''drop'' \<and> target then Inr ([], held)
      else if attack = Some ''duplicate'' \<and> target then Inr ([(data, False), (data, True)], held)
      else if attack = Some ''reorder'' \<and> target then Inr ([], Some data)
      else if attack = Some ''reorder'' \<and> held \<noteq> None \<and> is_chunk_row data then Inr ([(data, True), (the held, True)], None)
      else if attack = Some ''strip_checkpoints'' \<and> strategy = ''hash_chain'' \<and> is_chunk_row data \<and> row_signed data then
        Inr ([(strip_signature data, True)], held)
      else Inr ([(data, False)], held))"

definition cut_before :: "string \<Rightarrow> string option \<Rightarrow> string row \<Rightarrow> bool" where
  "cut_before strategy attack data \<longleftrightarrow> attack = Some ''truncate'' \<and> strategy = ''buffer_and_sign'' \<and> \<not> is_chunk_row data"

definition cut_after :: "string option \<Rightarrow> int \<Rightarrow> string row \<Rightarrow> bool" where
  "cut_after attack attack_index data \<longleftrightarrow> attack = Some ''truncate'' \<and> is_target attack_index data"

section \<open>The run\<close>

fun process_batch ::
  "prims \<Rightarrow> (nat \<Rightarrow> span) \<Rightarrow> session_view \<Rightarrow> nat \<Rightarrow> (string row \<times> bool) list \<Rightarrow> live_state
     \<Rightarrow> live_state \<times> live_event list \<times> exn option" where
  "process_batch P sps v n [] st = (st, [], None)"
| "process_batch P sps v n ((row, attacked) # batch) st =
     (case live_process P v (sps n) row attacked st of
        Inl e \<Rightarrow> (st, [], Some e)
      | Inr (st1, out) \<Rightarrow>
          (case process_batch P sps v (Suc n) batch st1 of (st2, out', exn) \<Rightarrow> (st2, out @ out', exn)))"

definition live_ttft :: "rat \<Rightarrow> rat \<Rightarrow> live_state \<Rightarrow> live_state" where
  "live_ttft t_start arrival st =
     (if lm_ttft_ms (lv_metrics st) = None
      then st \<lparr> lv_metrics := (lv_metrics st) \<lparr> lm_ttft_ms := Some ((arrival - t_start) * 1000) \<rparr> \<rparr> else st)"

text \<open>\<open>DataOther\<close> is a data line without a kind, such as the closing \<^verbatim>\<open>done\<close> line.\<close>

fun live_loop ::
  "prims \<Rightarrow> (nat \<Rightarrow> span) \<Rightarrow> session_view \<Rightarrow> string option \<Rightarrow> int \<Rightarrow> rat \<Rightarrow> nat \<Rightarrow> sse_event list \<Rightarrow> live_state
     \<Rightarrow> live_state \<times> live_event list \<times> exn option" where
  "live_loop P sps v attack i t_start n [] st = (st, [], None)"
| "live_loop P sps v attack i t_start n (ev # evs) st =
     (case ev_line ev of
        NonData \<Rightarrow> live_loop P sps v attack i t_start n evs st
      | DataMalformed \<Rightarrow> (st, [], Some JSONDecodeError)
      | DataOther \<Rightarrow> live_loop P sps v attack i t_start n evs st
      | DataRow data \<Rightarrow>
          (let st1 = live_ttft t_start (ev_arrival ev) st in
           case batch_of (sv_strategy v) attack i data (lv_held st1) of
             Inl e \<Rightarrow> (st1, [], Some e)
           | Inr (batch, held) \<Rightarrow>
               if cut_before (sv_strategy v) attack data then (st1, [], None)
               else (case process_batch P sps v n batch (st1 \<lparr> lv_held := held \<rparr>) of
                       (st2, out, Some e) \<Rightarrow> (st2, out, Some e)
                     | (st2, out, None) \<Rightarrow>
                         if cut_after attack i data then (st2, out, None)
                         else (case live_loop P sps v attack i t_start (n + length batch) evs st2 of
                                 (st3, out', exn) \<Rightarrow> (st3, out @ out', exn)))))"

definition live_end :: "rat \<Rightarrow> rat \<Rightarrow> live_state \<Rightarrow> live_event list" where
  "live_end t_start t_end st =
     (let m = (lv_metrics st) \<lparr> lm_total_ms := Some ((t_end - t_start) * 1000) \<rparr> in
      if lv_terminal st then [EvSummary m]
      else [EvFinal False (Some (case lv_failed st of
                                   None \<Rightarrow> ''stream ended without its signed terminal record (truncated)'' | Some reason \<Rightarrow> reason)) None,
            EvSummary (m \<lparr> lm_stream_fully_verified := Some False \<rparr>)])"

text \<open>An interval of 0 is left out of the request, as \<^verbatim>\<open>None\<close> is.\<close>

definition live_body :: "string \<Rightarrow> string \<Rightarrow> int \<Rightarrow> int \<Rightarrow> int option \<Rightarrow> json" where
  "live_body prompt strategy chunk_size_tokens max_tokens checkpoint_interval =
     stream_request_body prompt strategy chunk_size_tokens max_tokens
       (if checkpoint_interval = Some 0 then None else checkpoint_interval)"

definition live_open ::
  "prims \<Rightarrow> rng \<Rightarrow> span \<Rightarrow> client_crypto \<Rightarrow> string \<Rightarrow> json \<Rightarrow> json_strings \<Rightarrow> (session_view \<times> secure_predict_request) res" where
  "live_open P r sp cl strategy body hs =
     bind_res (bind_res (get_item hs ''sig_public_key'') b64d) (\<lambda>sig_public_key.
     bind_res (get_item hs ''handshake_id'') (\<lambda>handshake_id.
     bind_res (bind_res (get_item hs ''kex_public_key'') b64d) (\<lambda>kex_public_key.
     bind_res (cl_establish P r sp cl kex_public_key) (\<lambda>est.
     bind_res (aead_encrypt P (r 2) (er_session_key est) (json_dumps P body) None) (\<lambda>req_aead.
     Inr (\<lparr> sv_client = cl, sv_key = er_session_key est, sv_sig_public_key = sig_public_key,
            sv_handshake_id = handshake_id, sv_strategy = strategy \<rparr>,
          \<lparr> rq_handshake_id = handshake_id, rq_kex_blob = b64e (er_kex_blob est),
            rq_nonce = b64e (ar_nonce req_aead), rq_ciphertext = b64e (ar_ciphertext req_aead),
            rq_keep_session = False \<rparr>))))))"

definition run_streaming_transaction_live ::
  "prims \<Rightarrow> rng \<Rightarrow> span \<Rightarrow> (nat \<Rightarrow> span) \<Rightarrow> stream_net \<Rightarrow> rat \<Rightarrow> rat \<Rightarrow> string \<Rightarrow> string \<Rightarrow> string \<Rightarrow> int \<Rightarrow> int
     \<Rightarrow> int option \<Rightarrow> string option \<Rightarrow> int \<Rightarrow> bool \<Rightarrow> live_event list res" where
  "run_streaming_transaction_live P r sp sps net t_start t_end config_name prompt strategy chunk_size_tokens max_tokens
       checkpoint_interval attack attack_index enforce_schedule =
     bind_res (get_client_crypto config_name) (\<lambda>cl.
     let body = live_body prompt strategy chunk_size_tokens max_tokens checkpoint_interval in
     Inr (case bind_res (nt_handshake net) (\<lambda>(hs, handshake_ms).
               bind_res (live_open P r sp cl strategy body hs) (\<lambda>(v, request).
               bind_res (nt_stream net request) (\<lambda>(status, events). Inr (handshake_ms, v, status, events)))) of
        Inl e \<Rightarrow> [EvError (ErrExn e)]
      | Inr (handshake_ms, v, status, events) \<Rightarrow>
          if status \<noteq> 200 then [EvError (ErrHTTP status)]
          else (case live_loop P sps v attack attack_index t_start 0 events
                       (live_start P v checkpoint_interval enforce_schedule
                          (live_metrics0 config_name strategy checkpoint_interval attack handshake_ms)) of
                  (st, out, Some e) \<Rightarrow> out @ [EvError (ErrExn e)]
                | (st, out, None) \<Rightarrow> out @ live_end t_start t_end st)))"

end
