(* ===== verification/LiveAgreement.thy ===== *)
theory LiveAgreement
  imports LiveStream StreamReplay
begin

text \<open>
  The dashboard's verifier against the harness of the attack experiments: both verify the records
  of a stream one by one, but the dashboard goes on after a failure and keeps the first reason. The
  records an attack delivers are given separately, and a contract between the event loop and the
  verification of one strategy carries the verdict through the loop.
\<close>

section \<open>What an attack delivers\<close>

text \<open>The records of the data lines, and those the attack hands on.\<close>

fun line_rows :: "sse_event list \<Rightarrow> string row list" where
  "line_rows [] = []"
| "line_rows (ev # evs) = (case ev_line ev of DataRow row \<Rightarrow> row # line_rows evs | _ \<Rightarrow> line_rows evs)"

fun attacked ::
  "string \<Rightarrow> string option \<Rightarrow> int \<Rightarrow> string row option \<Rightarrow> string row list \<Rightarrow> string row list res" where
  "attacked strategy attack i held [] = Inr []"
| "attacked strategy attack i held (row # rest) =
     bind_res (batch_of strategy attack i row held) (\<lambda>(batch, held').
     if cut_before strategy attack row then Inr []
     else if cut_after attack i row then Inr (map fst batch)
     else bind_res (attacked strategy attack i held' rest) (\<lambda>rs. Inr (map fst batch @ rs)))"

definition delivered_list :: "string chunk_row list \<Rightarrow> string row option \<Rightarrow> string row list" where
  "delivered_list rows fin = map Chunk rows @ (case fin of None \<Rightarrow> [] | Some f \<Rightarrow> [f])"

text \<open>The terminal record of a strategy.\<close>

definition final_kind :: "string \<Rightarrow> string row \<Rightarrow> bool" where
  "final_kind strategy row \<longleftrightarrow> (case row of
       FinalPerChunk _ \<Rightarrow> strategy = ''per_chunk'' | FinalChain _ \<Rightarrow> strategy = ''hash_chain'' | _ \<Rightarrow> False)"

lemma final_kind_simps:
  "final_kind strategy row \<Longrightarrow> \<not> is_chunk_row row \<and> \<not> is_target i row"
  "final_kind strategy row \<Longrightarrow> flip_signature row = Inr row' \<Longrightarrow> final_kind strategy row'"
  "final_kind strategy row \<Longrightarrow> strategy \<noteq> ''buffer_and_sign''"
  by (cases row; auto simp: final_kind_def)+

lemma flip_chunk:
  "flip_ciphertext (Chunk c) = Inr d \<Longrightarrow> is_chunk_row d" "flip_signature (Chunk c) = Inr d \<Longrightarrow> is_chunk_row d"
  by auto

lemma chunk_list: "\<forall>x \<in> set xs. is_chunk_row x \<Longrightarrow> \<exists>cs. xs = map Chunk cs"
proof (induction xs)
  case (Cons x xs)
  then obtain c cs where "x = Chunk c" "xs = map Chunk cs" by (auto elim: is_chunk_row.elims)
  then have "x # xs = map Chunk (c # cs)" by simp
  then show ?case by (rule exI)
qed simp

lemma if_eqE: "(if b then x else y) = z \<Longrightarrow> (b \<Longrightarrow> x = z \<Longrightarrow> R) \<Longrightarrow> (\<not> b \<Longrightarrow> y = z \<Longrightarrow> R) \<Longrightarrow> R"
  by (cases b) simp_all

lemma batch_of_chunk:
  assumes "batch_of strategy attack i (Chunk c) held = Inr (batch, held')" "\<forall>h. held = Some h \<longrightarrow> is_chunk_row h"
  shows "\<exists>cs. map fst batch = map Chunk cs" "\<forall>h. held' = Some h \<longrightarrow> is_chunk_row h"
proof -
  have "(\<forall>x \<in> set (map fst batch). is_chunk_row x) \<and> (\<forall>h. held' = Some h \<longrightarrow> is_chunk_row h)"
    using assms(1) unfolding batch_of_def Let_def
    by (elim if_eqE) (use assms(2) in \<open>clarsimp simp del: flip_ciphertext.simps flip_signature.simps; force dest: flip_chunk\<close>)+
  then show "\<exists>cs. map fst batch = map Chunk cs" "\<forall>h. held' = Some h \<longrightarrow> is_chunk_row h"
    using chunk_list by blast+
qed

lemma batch_of_final:
  assumes "batch_of strategy attack i f held = Inr (batch, held')" "final_kind strategy f"
  shows "\<exists>f' a. batch = [(f', a)] \<and> final_kind strategy f'" "held' = held"
  using assms final_kind_simps [OF assms(2)]
  by (auto simp: batch_of_def Let_def map_sum_id_eq split: if_splits)

lemma fail_held [simp]: "lv_held (fail_at reason pos st) = lv_held st"
  by (simp add: fail_at_def split: option.split)

lemma show_held:
  "lv_held (fst (show_pc data b r (count_chunk data' st))) = lv_held st"
  "lv_held (fst (show_hc data b cs r' (count_chunk data' st))) = lv_held st"
  "lv_held (fst (show_final ms reason text' st)) = lv_held st"
  by (simp_all add: show_pc_def show_hc_def show_final_def count_chunk_def Let_def)

text \<open>Each kind of record is verified, then shown.\<close>

lemma process_shows:
  "process_pc P v sp data b st = Inr (st', out) \<Longrightarrow> \<exists>r. st' = fst (show_pc data b r (count_chunk data st))"
  "process_hc P v sp data b st = Inr (st', out) \<Longrightarrow> \<exists>cs r. st' = fst (show_hc data b cs r (count_chunk data st))"
  "process_buffered P v sp f1 st = Inr (st', out) \<Longrightarrow> \<exists>ms reason text' m. st' = fst (show_final ms reason text' (st \<lparr> lv_metrics := m \<rparr>))"
  "process_end P v sp f2 st = Inr (st', out) \<Longrightarrow> \<exists>ms reason text' m. st' = fst (show_final ms reason text' (st \<lparr> lv_metrics := m \<rparr>))"
  "process_chain_end P v sp f3 st = Inr (st', out) \<Longrightarrow> \<exists>ms reason text' m. st' = fst (show_final ms reason text' (st \<lparr> lv_metrics := m \<rparr>))"
  by (clarsimp simp: process_pc_def process_hc_def process_buffered_def process_end_def process_chain_end_def split_beta',
      metis fst_conv)+

lemma process_held: "live_process P v sp row b st = Inr (st', out) \<Longrightarrow> lv_held st' = lv_held st"
  by (auto simp: live_process_def show_held split: row.splits if_splits dest!: process_shows)

lemma batch_held: "process_batch P sps v n batch st = (st', out, None) \<Longrightarrow> lv_held st' = lv_held st"
  by (induction batch arbitrary: n st out) (auto split: sum.splits prod.splits dest!: process_held)

section \<open>The contract of a strategy\<close>

text \<open>
  \<open>sync st rs\<close>: the state after the chunks \<open>rs\<close>, before any terminal record. \<open>accepts rs f\<close> is
  the reference verdict on the chunks \<open>rs\<close> closed by \<open>f\<close>.
\<close>

locale live_contract =
  fixes P :: prims and sps :: "nat \<Rightarrow> span" and v :: session_view
    and sync :: "live_state \<Rightarrow> string chunk_row list \<Rightarrow> bool"
    and accepts :: "string chunk_row list \<Rightarrow> string row \<Rightarrow> bool"
  assumes frame: "sync st rs \<Longrightarrow> sync (live_ttft t a st) rs" "sync st rs \<Longrightarrow> sync (st \<lparr> lv_held := h \<rparr>) rs"
    and open_stream: "sync st rs \<Longrightarrow> \<not> lv_terminal st"
    and chunk_step: "sync st rs \<Longrightarrow> live_process P v (sps (length rs)) (Chunk c) b st = Inr (st', out) \<Longrightarrow> sync st' (rs @ [c])"
    and final_step: "sync st rs \<Longrightarrow> final_kind (sv_strategy v) f \<Longrightarrow> live_process P v (sps (length rs)) f b st = Inr (st', out) \<Longrightarrow>
      lv_terminal st' \<and> (lm_stream_fully_verified (lv_metrics st') = Some True \<longleftrightarrow> accepts rs f)"
begin

lemma batch_sync:
  assumes "process_batch P sps v (length rs) batch st = (st', out, None)" "map fst batch = map Chunk cs" "sync st rs"
  shows "sync st' (rs @ cs)"
  using assms
proof (induction batch arbitrary: rs st cs out)
  case (Cons x batch)
  obtain b where x: "x = (Chunk (hd cs), b)" and cs: "cs = hd cs # tl cs" "map fst batch = map Chunk (tl cs)"
    using Cons.prems(2) by (cases x; cases cs) auto
  obtain st1 out1 out2 where step: "live_process P v (sps (length rs)) (Chunk (hd cs)) b st = Inr (st1, out1)"
    and rest: "process_batch P sps v (Suc (length rs)) batch st1 = (st', out2, None)"
    using Cons.prems(1) x by (auto split: sum.splits prod.splits)
  have "sync st' ((rs @ [hd cs]) @ tl cs)"
    using rest by (intro Cons.IH [OF _ cs(2) chunk_step [OF Cons.prems(3) step], where out = out2]) simp
  then show ?case
    using cs(1) by (metis append.assoc append_Cons append_Nil)
qed auto

text \<open>Lines that carry no record leave the loop where it is.\<close>

lemma loop_tail:
  assumes "line_rows evs = []" "live_loop P sps v attack i t n evs st = (st', out, None)"
  shows "st' = st"
  using assms by (induction evs arbitrary: n st out) (auto split: sse_line.splits)

lemma loop_verdict:
  assumes "live_loop P sps v attack i t (length rs) evs st = (st', out, None)" "line_rows evs = map Chunk rows @ [f]"
    and "final_kind (sv_strategy v) f" "sync st rs" "\<forall>h. lv_held st = Some h \<longrightarrow> is_chunk_row h"
  shows "\<exists>rows' fin. attacked (sv_strategy v) attack i (lv_held st) (map Chunk rows @ [f]) = Inr (delivered_list rows' fin) \<and>
    (case fin of
       None \<Rightarrow> \<not> lv_terminal st'
     | Some f' \<Rightarrow> final_kind (sv_strategy v) f' \<and> lv_terminal st' \<and> (lm_stream_fully_verified (lv_metrics st') = Some True \<longleftrightarrow> accepts (rs @ rows') f'))"
  using assms
proof (induction evs arbitrary: rs st rows out)
  case (Cons ev evs)
  show ?case
  proof (cases "ev_line ev")
    case (DataRow row)
    let ?st1 = "live_ttft t (ev_arrival ev) st"
    have held1: "lv_held ?st1 = lv_held st" by (simp add: live_ttft_def)
    obtain batch held' st2 out1 where b: "batch_of (sv_strategy v) attack i row (lv_held st) = Inr (batch, held')"
      and cb: "\<not> cut_before (sv_strategy v) attack row"
      and pb: "process_batch P sps v (length rs) batch (?st1 \<lparr> lv_held := held' \<rparr>) = (st2, out1, None)"
      and rest: "(if cut_after attack i row then (st2, out1, None)
          else (case live_loop P sps v attack i t (length rs + length batch) evs st2 of (st3, out', exn) \<Rightarrow> (st3, out1 @ out', exn))) = (st', out, None)"
      using Cons.prems(1) DataRow held1 final_kind_simps(3) [OF Cons.prems(3)]
      by (auto simp: Let_def cut_before_def split: sum.splits prod.splits option.splits if_splits)
    have s1: "sync (?st1 \<lparr> lv_held := held' \<rparr>) rs"
      by (intro frame Cons.prems(4))
    show ?thesis
    proof (cases rows)
      case Nil
      then have row: "row = f" "line_rows evs = []" using Cons.prems(2) DataRow by simp_all
      have nc: "\<not> cut_after attack i f"
        using final_kind_simps(1) [OF Cons.prems(3)] by (simp add: cut_after_def)
      obtain f' a where f': "batch = [(f', a)]" "final_kind (sv_strategy v) f'"
        using batch_of_final [OF _ Cons.prems(3)] b row(1) by blast
      obtain out2 where lp: "live_process P v (sps (length rs)) f' a (?st1 \<lparr> lv_held := held' \<rparr>) = Inr (st2, out2)"
        using pb f'(1) by (auto split: sum.splits)
      obtain out3 where "live_loop P sps v attack i t (length rs + length batch) evs st2 = (st', out3, None)"
        using rest nc row(1) by (auto split: prod.splits)
      then have "st' = st2"
        using loop_tail row(2) by blast
      moreover have "attacked (sv_strategy v) attack i (lv_held st) [f] = Inr (delivered_list [] (Some f'))"
        using b cb nc row(1) f'(1) by (simp add: delivered_list_def)
      ultimately show ?thesis
        using final_step [OF s1 f'(2) lp] f'(2) Nil by (intro exI [of _ "[]"] exI [of _ "Some f'"]) simp
    next
      case (Cons c rows1)
      then have row: "row = Chunk c" "line_rows evs = map Chunk rows1 @ [f]" using Cons.prems(2) DataRow by simp_all
      obtain cs where cs: "map fst batch = map Chunk cs" and held': "\<forall>h. held' = Some h \<longrightarrow> is_chunk_row h"
        using batch_of_chunk [OF b [unfolded row(1)] Cons.prems(5)] by blast
      have s2: "sync st2 (rs @ cs)"
        by (rule batch_sync [OF pb cs s1])
      have len: "length batch = length cs"
        using cs by (metis length_map)
      show ?thesis
      proof (cases "cut_after attack i row")
        case True
        then have "attacked (sv_strategy v) attack i (lv_held st) (map Chunk rows @ [f]) = Inr (delivered_list cs None)"
          using b cb row(1) cs Cons by (simp add: delivered_list_def)
        then show ?thesis
          using open_stream [OF s2] rest True by (intro exI [of _ cs] exI [of _ None]) auto
      next
        case False
        have h2: "lv_held st2 = held'"
          using batch_held [OF pb] by simp
        obtain out3 where lp: "live_loop P sps v attack i t (length (rs @ cs)) evs st2 = (st', out3, None)"
          using rest False len by (auto split: prod.splits)
        obtain rows' fin where ih: "attacked (sv_strategy v) attack i held' (map Chunk rows1 @ [f]) = Inr (delivered_list rows' fin)"
          "case fin of None \<Rightarrow> \<not> lv_terminal st'
           | Some f' \<Rightarrow> final_kind (sv_strategy v) f' \<and> lv_terminal st' \<and> (lm_stream_fully_verified (lv_metrics st') = Some True \<longleftrightarrow> accepts ((rs @ cs) @ rows') f')"
          using Cons.IH [OF lp row(2) Cons.prems(3) s2] held' h2 by auto
        have "attacked (sv_strategy v) attack i (lv_held st) (map Chunk rows @ [f]) = Inr (delivered_list (cs @ rows') fin)"
          using b cb False row(1) cs Cons ih(1) by (simp add: delivered_list_def)
        then show ?thesis
          using ih(2) [unfolded append_assoc] by (intro exI [of _ "cs @ rows'"] exI [of _ fin]) simp
      qed
    qed
  qed (use Cons in \<open>auto split: prod.splits\<close>)
qed simp

end

section \<open>The two strategies with chunks\<close>

text \<open>The session as the harness sees it.\<close>

definition capture_of :: "session_view \<Rightarrow> capture" where
  "capture_of v = \<lparr> cp_handshake_id = sv_handshake_id v, cp_session_key = sv_key v, cp_sig_public_key = sv_sig_public_key v,
     cp_client = sv_client v, cp_chunks = [], cp_final = None \<rparr>"

lemma capture_of_simps [simp]:
  "cp_handshake_id (capture_of v) = sv_handshake_id v" "cp_session_key (capture_of v) = sv_key v"
  "cp_sig_public_key (capture_of v) = sv_sig_public_key v" "cp_client (capture_of v) = sv_client v"
  by (simp_all add: capture_of_def)

definition harness_accepts ::
  "prims \<Rightarrow> (nat \<Rightarrow> span) \<Rightarrow> session_view \<Rightarrow> int option \<Rightarrow> bool \<Rightarrow> string chunk_row list \<Rightarrow> string row option \<Rightarrow> bool" where
  "harness_accepts P sps v k enforce rows fin \<longleftrightarrow>
     (\<exists>covered. replay_through_client P sps (capture_of v) rows fin (sv_strategy v) k enforce = Inr (None, covered))"

lemma replay_pc_snoc:
  "replay_pc P sps cap pos ei (rs @ [c]) =
     bind_res (replay_pc P sps cap pos ei rs) (\<lambda>(rejected, e).
     case rejected of Some p \<Rightarrow> Inr (Some p, e) | None \<Rightarrow> replay_pc P sps cap (pos + length rs) e [c])"
  by (induction rs arbitrary: pos ei) (auto simp: bind_res_def split: sum.splits option.splits)

lemma replay_hc_snoc:
  "replay_hc P sps cap pos covered cs (rs @ [c]) =
     bind_res (replay_hc P sps cap pos covered cs rs) (\<lambda>(rejected, cov, cs').
     case rejected of Some p \<Rightarrow> Inr (Some p, cov, cs') | None \<Rightarrow> replay_hc P sps cap (pos + length rs) cov cs' [c])"
  by (induction rs arbitrary: pos covered cs) (auto simp: bind_res_def split: sum.splits option.splits)

lemma decode_live_hc_Inr: "decode_live_hc data = Inr c \<longleftrightarrow> decode_hc_chunk data = Inr c"
  by (auto simp: decode_live_hc_def decode_hc_chunk_def)

text \<open>What the bookkeeping does to the fields the verdict depends on.\<close>

lemma fail_fields [simp]:
  "lv_expected (fail_at reason pos st) = lv_expected st" "lv_terminal (fail_at reason pos st) = lv_terminal st"
  "lv_chain (fail_at reason pos st) = lv_chain st"
  "lv_failed (fail_at reason pos st) = None \<longleftrightarrow> reason = None \<and> lv_failed st = None"
  by (auto simp: fail_at_def split: option.split)

lemma ttft_fields [simp]:
  "lv_expected (live_ttft t a st) = lv_expected st" "lv_terminal (live_ttft t a st) = lv_terminal st"
  "lv_chain (live_ttft t a st) = lv_chain st" "lv_failed (live_ttft t a st) = lv_failed st"
  by (simp_all add: live_ttft_def)

lemma show_pc_fields:
  assumes "show_pc data b r (count_chunk data st) = (st', out)"
  shows "lv_expected st' = lv_expected st + 1" "lv_terminal st' = lv_terminal st" "lv_chain st' = lv_chain st"
    and "lv_failed st' = None \<longleftrightarrow> pc_reason r = None \<and> lv_failed st = None"
  using assms by (auto simp: show_pc_def count_chunk_def Let_def)

lemma show_hc_fields:
  assumes "show_hc data b cs r (count_chunk data st) = (st', out)"
  shows "lv_terminal st' = lv_terminal st" "lv_chain st' = Some cs"
    and "lv_failed st' = None \<longleftrightarrow> hc_reason r = None \<and> lv_failed st = None"
proof -
  show "lv_terminal st' = lv_terminal st" "lv_chain st' = Some cs"
    using assms by (auto simp: show_hc_def count_chunk_def Let_def split: if_splits)
  show "lv_failed st' = None \<longleftrightarrow> hc_reason r = None \<and> lv_failed st = None"
    using assms by (cases "hc_reason r"; cases "lv_failed st")
      (auto simp: show_hc_def count_chunk_def fail_at_def Let_def split: if_splits)
qed

lemma show_final_fields:
  assumes "show_final ms reason text' (st \<lparr> lv_metrics := m \<rparr>) = (st', out)"
  shows "lv_terminal st'" "lm_stream_fully_verified (lv_metrics st') = Some True \<longleftrightarrow> reason = None \<and> lv_failed st = None"
  using assms by (auto simp: show_final_def Let_def)

lemma end_reasons_None:
  "end_reason r = None \<longleftrightarrow> pf_stream_fully_verified r" "chain_end_reason r' = None \<longleftrightarrow> hf_stream_fully_verified r'"
  by (simp_all add: end_reason_def chain_end_reason_def)

lemma pc_reason_None: "pc_reason r = None \<longleftrightarrow> \<not> (\<not> pr_in_order r \<or> \<not> pr_signature_valid r \<or> pr_aead_ok r \<noteq> Some True)"
  by (auto simp: pc_reason_def)

lemma hc_reason_None:
  "hc_reason r = None \<longleftrightarrow> \<not> (hr_aead_ok r \<noteq> Some True \<or> hr_checkpoint_missing r \<or> (hr_checkpoint r \<and> hr_checkpoint_valid r \<noteq> Some True))"
  by (auto simp: hc_reason_def)

definition pc_sync :: "prims \<Rightarrow> (nat \<Rightarrow> span) \<Rightarrow> session_view \<Rightarrow> live_state \<Rightarrow> string chunk_row list \<Rightarrow> bool" where
  "pc_sync P sps v st rs \<longleftrightarrow> sv_strategy v = ''per_chunk'' \<and> \<not> lv_terminal st \<and> lv_expected st = int (length rs) \<and>
     (\<exists>rej e. replay_pc P sps (capture_of v) 0 0 rs = Inr (rej, e) \<and> (lv_failed st = None \<longleftrightarrow> rej = None) \<and>
        (rej = None \<longrightarrow> e = int (length rs)))"

definition hc_live_sync ::
  "prims \<Rightarrow> (nat \<Rightarrow> span) \<Rightarrow> session_view \<Rightarrow> int option \<Rightarrow> live_state \<Rightarrow> string chunk_row list \<Rightarrow> bool" where
  "hc_live_sync P sps v k st rs \<longleftrightarrow> sv_strategy v = ''hash_chain'' \<and> \<not> lv_terminal st \<and>
     (\<exists>rej cov cs. replay_hc P sps (capture_of v) 0 0 (chain_init P (sv_handshake_id v) k) rs = Inr (rej, cov, cs) \<and>
        (lv_failed st = None \<longleftrightarrow> rej = None) \<and> (rej = None \<longrightarrow> lv_chain st = Some cs))"

lemma pc_chunk_step:
  assumes "pc_sync P sps v st rs" "live_process P v (sps (length rs)) (Chunk c) b st = Inr (st', out)"
  shows "pc_sync P sps v st' (rs @ [c])"
proof -
  obtain rej e where s: "sv_strategy v = ''per_chunk''" "\<not> lv_terminal st" "lv_expected st = int (length rs)"
      "replay_pc P sps (capture_of v) 0 0 rs = Inr (rej, e)" "lv_failed st = None \<longleftrightarrow> rej = None" "rej = None \<longrightarrow> e = int (length rs)"
    using assms(1) by (auto simp: pc_sync_def)
  obtain chunk r where d: "decode_pc_chunk c = Inr chunk"
    and r: "verify_per_chunk P (sps (length rs)) chunk (lv_expected st) (sv_key v) (sv_sig_public_key v) (sv_client v) (sv_handshake_id v) = Inr r"
    and sh: "show_pc c b r (count_chunk c st) = (st', out)"
    using assms(2) s(1) by (auto simp: live_process_def process_pc_def)
  note f = show_pc_fields [OF sh]
  show ?thesis
  proof (cases rej)
    case None
    then have "replay_pc P sps (capture_of v) 0 0 (rs @ [c]) =
        Inr (if pc_reason r = None then None else Some (length rs), int (length rs) + 1)"
      using s d r by (simp add: replay_pc_snoc pc_reason_None)
    then show ?thesis
      using s f None by (auto simp: pc_sync_def)
  next
    case (Some p)
    then have "replay_pc P sps (capture_of v) 0 0 (rs @ [c]) = Inr (Some p, e)"
      using s by (simp add: replay_pc_snoc)
    then show ?thesis
      using s f Some by (auto simp: pc_sync_def)
  qed
qed

lemma pc_final_step:
  assumes "pc_sync P sps v st rs" "final_kind (sv_strategy v) f" "live_process P v (sps (length rs)) f b st = Inr (st', out)"
  shows "lv_terminal st' \<and> (lm_stream_fully_verified (lv_metrics st') = Some True \<longleftrightarrow> harness_accepts P sps v k enforce rs (Some f))"
proof -
  obtain rej e where s: "sv_strategy v = ''per_chunk''" "lv_expected st = int (length rs)"
      "replay_pc P sps (capture_of v) 0 0 rs = Inr (rej, e)" "lv_failed st = None \<longleftrightarrow> rej = None" "rej = None \<longrightarrow> e = int (length rs)"
    using assms(1) by (auto simp: pc_sync_def)
  obtain er where f: "f = FinalPerChunk er"
    using assms(2) s(1) by (auto simp: final_kind_def split: row.splits)
  obtain sg r ms m where d: "b64d (pe_signature er) = Inr sg"
    and r: "verify_per_chunk_final P (sps (length rs)) (pe_n_chunks er) sg (lv_expected st) (sv_sig_public_key v) (sv_client v) (sv_handshake_id v) = Inr r"
    and sh: "show_final ms (end_reason r) None (st \<lparr> lv_metrics := m \<rparr>) = (st', out)"
    using assms(3) f by (auto simp: live_process_def process_end_def)
  have "rej = None \<Longrightarrow> replay_pc_final P (sps (length rs)) (capture_of v) e (Some f) = Inr (pf_stream_fully_verified r)"
    using s d r f by (simp add: replay_pc_final_def b64d_field_def)
  then have "harness_accepts P sps v k enforce rs (Some f) \<longleftrightarrow> rej = None \<and> pf_stream_fully_verified r"
    using s by (cases rej) (auto simp: harness_accepts_def replay_through_client_def)
  then show ?thesis
    using show_final_fields [OF sh] s(4) by (auto simp: end_reasons_None)
qed

lemma hc_chunk_step:
  assumes "hc_live_sync P sps v k st rs" "live_process P v (sps (length rs)) (Chunk c) b st = Inr (st', out)"
  shows "hc_live_sync P sps v k st' (rs @ [c])"
proof -
  let ?c0 = "chain_init P (sv_handshake_id v) k"
  obtain rej cov cs where s: "sv_strategy v = ''hash_chain''" "\<not> lv_terminal st"
      "replay_hc P sps (capture_of v) 0 0 ?c0 rs = Inr (rej, cov, cs)" "lv_failed st = None \<longleftrightarrow> rej = None" "rej = None \<longrightarrow> lv_chain st = Some cs"
    using assms(1) by (auto simp: hc_live_sync_def)
  obtain chunk cs1 cs' r where d: "decode_hc_chunk c = Inr chunk" and ch: "live_chain st = Inr cs1"
    and r: "verify_hash_chain_chunk P (sps (length rs)) chunk cs1 (sv_key v) (Some (sv_sig_public_key v)) (Some (sv_client v)) = Inr (cs', r)"
    and sh: "show_hc c b cs' r (count_chunk c st) = (st', out)"
    using assms(2) s(1) by (auto simp: live_process_def process_hc_def decode_live_hc_Inr)
  note f = show_hc_fields [OF sh]
  show ?thesis
  proof (cases rej)
    case None
    then have "cs1 = cs" using ch s(5) by (simp add: live_chain_def)
    then have "replay_hc P sps (capture_of v) 0 0 ?c0 (rs @ [c]) =
        (if hc_reason r = None then Inr (None, if hr_checkpoint r then length rs + 1 else cov, cs') else Inr (Some (length rs), cov, cs'))"
      using s d r None by (simp add: replay_hc_snoc hc_reason_None)
    then show ?thesis
      using s f None by (auto simp: hc_live_sync_def)
  next
    case (Some p)
    then have "replay_hc P sps (capture_of v) 0 0 ?c0 (rs @ [c]) = Inr (Some p, cov, cs)"
      using s by (simp add: replay_hc_snoc)
    then show ?thesis
      using s f Some by (auto simp: hc_live_sync_def)
  qed
qed

lemma hc_final_step:
  assumes "hc_live_sync P sps v (if enforce then k else None) st rs" "final_kind (sv_strategy v) f"
    and "live_process P v (sps (length rs)) f b st = Inr (st', out)"
  shows "lv_terminal st' \<and> (lm_stream_fully_verified (lv_metrics st') = Some True \<longleftrightarrow> harness_accepts P sps v k enforce rs (Some f))"
proof -
  obtain rej cov cs where s: "sv_strategy v = ''hash_chain''"
      "replay_hc P sps (capture_of v) 0 0 (chain_init P (sv_handshake_id v) (if enforce then k else None)) rs = Inr (rej, cov, cs)"
      "lv_failed st = None \<longleftrightarrow> rej = None" "rej = None \<longrightarrow> lv_chain st = Some cs"
    using assms(1) by (auto simp: hc_live_sync_def)
  obtain fr where f: "f = FinalChain fr"
    using assms(2) s(1) by (auto simp: final_kind_def split: row.splits)
  obtain h sg cs1 r ms m where d: "b64d (fc_final_chain_hash fr) = Inr h" "b64d (fc_signature fr) = Inr sg" "live_chain st = Inr cs1"
    and r: "verify_hash_chain_final P (sps (length rs)) \<lparr> hl_final_chain_hash = h, hl_n_chunks = fc_n_chunks fr, hl_signature = sg \<rparr> cs1
      (sv_sig_public_key v) (sv_client v) = Inr r"
    and sh: "show_final ms (chain_end_reason r) None (st \<lparr> lv_metrics := m \<rparr>) = (st', out)"
    using assms(3) f by (auto simp: live_process_def process_chain_end_def)
  have "rej = None \<Longrightarrow> replay_hc_final P (sps (length rs)) (capture_of v) cs (Some f) = Inr (hf_stream_fully_verified r)"
    using s d r f by (simp add: replay_hc_final_def b64d_field_def live_chain_def)
  then have "harness_accepts P sps v k enforce rs (Some f) \<longleftrightarrow> rej = None \<and> hf_stream_fully_verified r"
    using s by (cases rej) (auto simp: harness_accepts_def replay_through_client_def)
  then show ?thesis
    using show_final_fields [OF sh] s(3) by (auto simp: end_reasons_None)
qed

interpretation pc_live: live_contract P sps v "pc_sync P sps v" "\<lambda>rs f. harness_accepts P sps v k enforce rs (Some f)"
  for P sps v k enforce
proof unfold_locales
  show "pc_sync P sps v st rs \<Longrightarrow> pc_sync P sps v (live_ttft t a st) rs" for st rs t a
    by (simp add: pc_sync_def)
  show "pc_sync P sps v st rs \<Longrightarrow> pc_sync P sps v (st \<lparr> lv_held := h \<rparr>) rs" for st rs h
    by (simp add: pc_sync_def)
  show "pc_sync P sps v st rs \<Longrightarrow> \<not> lv_terminal st" for st rs
    by (simp add: pc_sync_def)
qed (erule (1) pc_chunk_step, erule (2) pc_final_step)

interpretation hc_live: live_contract P sps v "hc_live_sync P sps v (if enforce then k else None)"
    "\<lambda>rs f. harness_accepts P sps v k enforce rs (Some f)"
  for P sps v k enforce
proof unfold_locales
  let ?s = "hc_live_sync P sps v (if enforce then k else None)"
  show "?s st rs \<Longrightarrow> ?s (live_ttft t a st) rs" for st rs t a
    by (simp add: hc_live_sync_def)
  show "?s st rs \<Longrightarrow> ?s (st \<lparr> lv_held := h \<rparr>) rs" for st rs h
    by (simp add: hc_live_sync_def)
  show "?s st rs \<Longrightarrow> \<not> lv_terminal st" for st rs
    by (simp add: hc_live_sync_def)
qed (erule (1) hc_chunk_step, erule (2) hc_final_step)

lemma live_start_sync:
  "sv_strategy v = ''per_chunk'' \<Longrightarrow> pc_sync P sps v (live_start P v k enforce m) []"
  "sv_strategy v = ''hash_chain'' \<Longrightarrow> hc_live_sync P sps v (if enforce then k else None) (live_start P v k enforce m) []"
  by (auto simp: pc_sync_def hc_live_sync_def live_start_def)

lemma no_final_no_accept: "\<not> harness_accepts P sps v k enforce rows None"
  by (auto simp: harness_accepts_def replay_through_client_def replay_pc_final_def replay_hc_final_def split: option.splits if_splits)

lemma live_loop_agrees:
  assumes "live_loop P sps v attack i t 0 evs (live_start P v k enforce m) = (st', out, None)"
    and "line_rows evs = map Chunk rows @ [f]" "final_kind (sv_strategy v) f"
  shows "\<exists>rows' fin. attacked (sv_strategy v) attack i None (map Chunk rows @ [f]) = Inr (delivered_list rows' fin) \<and>
    (\<forall>f'. fin = Some f' \<longrightarrow> final_kind (sv_strategy v) f') \<and>
    (lv_terminal st' \<and> lm_stream_fully_verified (lv_metrics st') = Some True \<longleftrightarrow> harness_accepts P sps v k enforce rows' fin)"
proof -
  let ?st = "live_start P v k enforce m"
  have held: "lv_held ?st = None" by (simp add: live_start_def)
  have h: "\<forall>h. lv_held ?st = Some h \<longrightarrow> is_chunk_row h" by (simp add: held)
  have l: "live_loop P sps v attack i t (length []) evs ?st = (st', out, None)" using assms(1) by simp
  let ?goal = "\<exists>rows' fin. attacked (sv_strategy v) attack i None (map Chunk rows @ [f]) = Inr (delivered_list rows' fin) \<and>
    (case fin of
       None \<Rightarrow> \<not> lv_terminal st'
     | Some f' \<Rightarrow> final_kind (sv_strategy v) f' \<and> lv_terminal st' \<and> (lm_stream_fully_verified (lv_metrics st') = Some True \<longleftrightarrow> harness_accepts P sps v k enforce rows' (Some f')))"
  have pc: ?goal if "sv_strategy v = ''per_chunk''"
    using pc_live.loop_verdict [OF l assms(2,3) live_start_sync(1) [OF that] h, of k enforce] unfolding held append_Nil .
  have hc: ?goal if "sv_strategy v = ''hash_chain''"
    using hc_live.loop_verdict [OF l assms(2,3) live_start_sync(2) [OF that] h] unfolding held append_Nil .
  have "sv_strategy v = ''per_chunk'' \<or> sv_strategy v = ''hash_chain''"
    using assms(3) by (auto simp: final_kind_def split: row.splits)
  then obtain rows' fin where *: "attacked (sv_strategy v) attack i None (map Chunk rows @ [f]) = Inr (delivered_list rows' fin)"
      "case fin of
         None \<Rightarrow> \<not> lv_terminal st'
       | Some f' \<Rightarrow> final_kind (sv_strategy v) f' \<and> lv_terminal st' \<and> (lm_stream_fully_verified (lv_metrics st') = Some True \<longleftrightarrow> harness_accepts P sps v k enforce rows' (Some f'))"
    using pc hc by blast
  then show ?thesis
    using no_final_no_accept [of P sps v k enforce rows'] by (intro exI [of _ rows'] exI [of _ fin]) (cases fin; simp)
qed

end
