(* ===== verification/DemoProperties.thy ===== *)
theory DemoProperties
  imports LiveAgreement CampaignDetection ToySessions
begin

text \<open>
  The dashboard's live stream: its verdict is the one of the attack experiments' harness on the
  records the attack delivered, and an attack that rearranges or changes chunks of a genuine stream
  is always shown as not verified.
\<close>

section \<open>The run and its loop\<close>

lemma live_end_last: "\<exists>m. last (out @ live_end t0 t1 st) = EvSummary m \<and>
    (lm_stream_fully_verified m = Some True \<longleftrightarrow> lv_terminal st \<and> lm_stream_fully_verified (lv_metrics st) = Some True)"
  by (auto simp: live_end_def Let_def)

lemma live_run_agrees:
  assumes "get_client_crypto config = Inr cl" "nt_handshake net = Inr (hs, ms)"
    and "live_open P r sp cl strategy (live_body prompt strategy c mx k) hs = Inr (v, request)"
    and "nt_stream net request = Inr (200, evs)" "line_rows evs = map Chunk rows @ [f]" "final_kind strategy f"
    and "run_streaming_transaction_live P r sp sps net t0 t1 config prompt strategy c mx k attack i enforce = Inr out"
    and "\<And>e. EvError e \<notin> set out"
  shows "\<exists>rows' fin m. attacked strategy attack i None (map Chunk rows @ [f]) = Inr (delivered_list rows' fin) \<and>
    (\<forall>f'. fin = Some f' \<longrightarrow> final_kind strategy f') \<and>
    last out = EvSummary m \<and> (lm_stream_fully_verified m = Some True \<longleftrightarrow> harness_accepts P sps v k enforce rows' fin)"
proof -
  have v: "sv_strategy v = strategy" using assms(3) by (auto simp: live_open_def)
  let ?st = "live_start P v k enforce (live_metrics0 config strategy k attack ms)"
  obtain st' out1 exn where loop: "live_loop P sps v attack i t0 0 evs ?st = (st', out1, exn)"
    by (cases "live_loop P sps v attack i t0 0 evs ?st")
  have o: "out = (case exn of Some e \<Rightarrow> out1 @ [EvError (ErrExn e)] | None \<Rightarrow> out1 @ live_end t0 t1 st')"
    using assms(7) unfolding run_streaming_transaction_live_def assms(1-4) bind_res_simps Let_def prod.case sum.case loop
    by (cases exn) simp_all
  have "exn = None"
  proof (rule ccontr)
    assume "exn \<noteq> None"
    then have "\<exists>e. EvError e \<in> set out" unfolding o by auto
    then show False using assms(8) by blast
  qed
  with o have exn: "exn = None" "out = out1 @ live_end t0 t1 st'"
    by simp_all
  obtain rows' fin where *: "attacked strategy attack i None (map Chunk rows @ [f]) = Inr (delivered_list rows' fin)"
      "\<forall>f'. fin = Some f' \<longrightarrow> final_kind strategy f'" "lv_terminal st' \<and> lm_stream_fully_verified (lv_metrics st') = Some True \<longleftrightarrow> harness_accepts P sps v k enforce rows' fin"
    using live_loop_agrees [OF loop [unfolded exn(1)] assms(5)] assms(6) unfolding v by blast
  obtain m where "last out = EvSummary m"
      "lm_stream_fully_verified m = Some True \<longleftrightarrow> lv_terminal st' \<and> lm_stream_fully_verified (lv_metrics st') = Some True"
    using live_end_last [of out1 t0 t1 st'] unfolding exn(2) by blast
  then show ?thesis
    using * by blast
qed

text \<open>C26
  For a stream of chunks closed by the strategy's terminal record and any attack on it, the summary
  of the live page says verified exactly when the harness of the attack experiments accepts the
  records the attack delivered: the page, which keeps going after a failure, never verifies a stream
  the harness rejects and never rejects one it accepts.
\<close>

theorem demo_agrees_with_harness:
  assumes "get_client_crypto config = Inr cl" "nt_handshake net = Inr (hs, ms)"
    and "live_open P r sp cl strategy (live_body prompt strategy c mx k) hs = Inr (v, request)"
    and "nt_stream net request = Inr (200, evs)" "line_rows evs = map Chunk rows @ [f]" "final_kind strategy f"
    and "run_streaming_transaction_live P r sp sps net t0 t1 config prompt strategy c mx k attack i enforce = Inr out"
    and "\<And>e. EvError e \<notin> set out"
  shows "\<exists>rows' fin m. attacked strategy attack i None (map Chunk rows @ [f]) = Inr (delivered_list rows' fin) \<and>
    (\<forall>f'. fin = Some f' \<longrightarrow> final_kind strategy f') \<and>
    last out = EvSummary m \<and> (lm_stream_fully_verified m = Some True \<longleftrightarrow> harness_accepts P sps v k enforce rows' fin)"
  using assms by (rule live_run_agrees)

section \<open>What the attacks do to a genuine stream\<close>

definition changing_attacks :: "string list" where
  "changing_attacks = [''drop'', ''duplicate'', ''reorder'', ''truncate'', ''tamper_ciphertext'']"

definition genuine_rows :: "string chunk_row list \<Rightarrow> env list \<Rightarrow> bool" where
  "genuine_rows rows es \<longleftrightarrow> map row_env rows = map Some (indexed es)"

lemma row_env_index: "row_env row = Some (i, e) \<Longrightarrow> ck_index row = i"
  by (auto simp: row_env_def split: sum.splits)

lemma genuine_nth: "genuine_rows rows es \<Longrightarrow> j < length rows \<Longrightarrow> j < length es \<and> row_env (rows ! j) = Some (int j, envelope (es ! j))"
  unfolding genuine_rows_def by (metis (no_types, lifting) indexed_nth length_indexed length_map nth_map)

lemma genuine_split:
  assumes "genuine_rows rows es" "0 \<le> i" "nat i < length rows"
  obtains xs y ys where "rows = xs @ y # ys" "length xs = nat i" "ck_index y = i" "\<forall>x \<in> set xs \<union> set ys. ck_index x \<noteq> i"
proof -
  have ix: "ck_index (rows ! j) = int j" if "j < length rows" for j
    using row_env_index genuine_nth [OF assms(1) that] by blast
  have "rows = take (nat i) rows @ rows ! nat i # drop (Suc (nat i)) rows"
    using assms(3) by (simp add: id_take_nth_drop)
  moreover have "ck_index x \<noteq> i" if x: "x \<in> set (take (nat i) rows)" for x
  proof -
    obtain j where "j < nat i" "x = rows ! j" using x by (auto simp: in_set_conv_nth)
    then show ?thesis using ix [of j] assms(2,3) by simp
  qed
  moreover have "ck_index x \<noteq> i" if x: "x \<in> set (drop (Suc (nat i)) rows)" for x
  proof -
    obtain j where "j < length rows - Suc (nat i)" "x = rows ! (Suc (nat i) + j)" using x by (auto simp: in_set_conv_nth)
    then show ?thesis using ix [of "Suc (nat i) + j"] assms(2) by simp
  qed
  moreover have "length (take (nat i) rows) = nat i" "ck_index (rows ! nat i) = i"
    using ix [OF assms(3)] assms(2,3) by simp_all
  ultimately show ?thesis
    using that [of "take (nat i) rows" "rows ! nat i" "drop (Suc (nat i)) rows"] by blast
qed

lemma attacked_untouched:
  assumes "a \<in> set changing_attacks" "\<forall>x \<in> set xs. ck_index x \<noteq> i"
  shows "attacked strategy (Some a) i None (map Chunk xs @ rest) = map_sum id ((@) (map Chunk xs)) (attacked strategy (Some a) i None rest)"
  using assms(2)
proof (induction xs)
  case Nil
  show ?case by (cases "attacked strategy (Some a) i None rest") auto
next
  case (Cons x xs)
  have "batch_of strategy (Some a) i (Chunk x) None = Inr ([(Chunk x, False)], None)"
    using assms(1) Cons.prems by (auto simp: batch_of_def changing_attacks_def Let_def)
  then show ?case
    using Cons by (cases "attacked strategy (Some a) i None rest") (auto simp: cut_before_def cut_after_def)
qed

lemma attacked_final:
  assumes "a \<in> set changing_attacks" "final_kind strategy f"
  shows "attacked strategy (Some a) i held [f] = Inr [f]"
  using assms final_kind_simps [OF assms(2)]
  by (auto simp: batch_of_def changing_attacks_def cut_before_def cut_after_def Let_def)

lemma attacked_rest:
  assumes "a \<in> set changing_attacks" "final_kind strategy f" "\<forall>x \<in> set ys. ck_index x \<noteq> i"
  shows "attacked strategy (Some a) i None (map Chunk ys @ [f]) = Inr (map Chunk ys @ [f])"
  using attacked_untouched [OF assms(1,3), of strategy "[f]"] attacked_final [OF assms(1,2)] by simp

text \<open>The delivered records, attack by attack.\<close>

lemma attacked_target:
  assumes "final_kind strategy f" "ck_index y = i" "\<forall>x \<in> set ys. ck_index x \<noteq> i"
  shows "attacked strategy (Some ''drop'') i None (Chunk y # map Chunk ys @ [f]) = Inr (map Chunk ys @ [f])"
    and "attacked strategy (Some ''duplicate'') i None (Chunk y # map Chunk ys @ [f]) = Inr (map Chunk (y # y # ys) @ [f])"
    and "attacked strategy (Some ''truncate'') i None (Chunk y # map Chunk ys @ [f]) = Inr [Chunk y]"
    and "attacked strategy (Some ''reorder'') i None (Chunk y # map Chunk ys @ [f]) =
      Inr (map Chunk (case ys of [] \<Rightarrow> [] | z # zs \<Rightarrow> z # y # zs) @ [f])"
    and "attacked strategy (Some ''tamper_ciphertext'') i None (Chunk y # map Chunk ys @ [f]) =
      map_sum id (\<lambda>s. map Chunk (y \<lparr> ck_ciphertext := s \<rparr> # ys) @ [f]) (flip_b64 (ck_ciphertext y))"
proof -
  note r = attacked_rest [OF _ assms(1), of _ ys i]
  note d = batch_of_def Let_def cut_before_def cut_after_def
  show "attacked strategy (Some ''drop'') i None (Chunk y # map Chunk ys @ [f]) = Inr (map Chunk ys @ [f])"
    "attacked strategy (Some ''duplicate'') i None (Chunk y # map Chunk ys @ [f]) = Inr (map Chunk (y # y # ys) @ [f])"
    "attacked strategy (Some ''truncate'') i None (Chunk y # map Chunk ys @ [f]) = Inr [Chunk y]"
    using r assms(2,3) by (simp_all add: d changing_attacks_def)
  show "attacked strategy (Some ''tamper_ciphertext'') i None (Chunk y # map Chunk ys @ [f]) =
      map_sum id (\<lambda>s. map Chunk (y \<lparr> ck_ciphertext := s \<rparr> # ys) @ [f]) (flip_b64 (ck_ciphertext y))"
    using r assms(2,3) by (cases "flip_b64 (ck_ciphertext y)") (simp_all add: d changing_attacks_def)
  show "attacked strategy (Some ''reorder'') i None (Chunk y # map Chunk ys @ [f]) =
      Inr (map Chunk (case ys of [] \<Rightarrow> [] | z # zs \<Rightarrow> z # y # zs) @ [f])"
  proof (cases ys)
    case Nil
    then show ?thesis
      using assms(2) attacked_final [OF _ assms(1), of "''reorder''"] by (simp add: d changing_attacks_def)
  next
    case (Cons z zs)
    then show ?thesis
      using assms(2,3) attacked_rest [OF _ assms(1), of "''reorder''" zs i] by (simp add: d changing_attacks_def)
  qed
qed

text \<open>No attack of the kind leaves a genuine stream with its terminal record.\<close>

lemma genuine_unique: "genuine_rows xs es \<Longrightarrow> genuine_rows ys es \<Longrightarrow> map row_env xs = map row_env ys"
  by (simp add: genuine_rows_def)

lemma genuine_decodes: "genuine_rows rows es \<Longrightarrow> x \<in> set rows \<Longrightarrow> \<exists>e. row_env x = Some (ck_index x, e)"
  by (metis genuine_nth in_set_conv_nth row_env_index)

lemma delivered_list_final: "\<not> is_chunk_row f \<Longrightarrow> map Chunk rows @ [f] = delivered_list rows' fin \<Longrightarrow> rows' = rows \<and> fin = Some f"
proof (cases fin)
  case None
  assume f: "\<not> is_chunk_row f" "map Chunk rows @ [f] = delivered_list rows' fin"
  have "f \<in> set (map Chunk rows @ [f])" by simp
  then have "f \<in> set (map Chunk rows')" using f(2) None by (simp add: delivered_list_def)
  then show ?thesis using f(1) by auto
next
  case (Some g)
  assume "map Chunk rows @ [f] = delivered_list rows' fin"
  then show ?thesis using Some by (auto simp: delivered_list_def inj_def dest: map_injective)
qed

lemma flipped_row:
  assumes "flip_b64 (ck_ciphertext y) = Inr s" "row_env y = Some (i, e)" "b64d (ck_ciphertext y) \<noteq> Inr []"
  shows "\<exists>e'. row_env (y \<lparr> ck_ciphertext := s \<rparr>) = Some (i, e') \<and> e' \<noteq> e"
proof -
  obtain n raw where "b64d (ck_nonce y) = Inr n" "b64d (ck_ciphertext y) = Inr raw" "e = n @ raw" "i = ck_index y"
    using assms(2) by (auto simp: row_env_def split: sum.splits)
  moreover from this have "raw \<noteq> []" "s = b64e (flip_middle raw)"
    using assms(1,3) by (auto simp: flip_b64_def flip_middle_byte_def)
  ultimately show ?thesis
    using flip_middle_other by (auto simp: row_env_def)
qed

definition visibly_changed :: "string chunk_row list \<Rightarrow> env list \<Rightarrow> string chunk_row list \<Rightarrow> bool" where
  "visibly_changed rows es rows' \<longleftrightarrow>
     \<not> genuine_rows rows' es \<and> chunk_sigs rows' \<subseteq> chunk_sigs rows \<and> (\<exists>ys. map row_env rows' = map Some ys)"

lemma decodes: "\<forall>z \<in> set zs. \<exists>e. row_env z = Some e \<Longrightarrow> \<exists>zs'. map row_env zs = map Some zs'"
  by (rule exI [of _ "map (the \<circ> row_env) zs"]) auto

lemma changedI:
  assumes "genuine_rows rows es" "set zs \<subseteq> set rows" "map row_env zs \<noteq> map row_env rows"
  shows "visibly_changed rows es zs"
proof -
  have "\<forall>z \<in> set zs. \<exists>e. row_env z = Some e"
    using genuine_decodes [OF assms(1)] assms(2) by blast
  then show ?thesis
    using chunk_sigs_mono [OF assms(2)] genuine_unique [OF _ assms(1), of zs] assms(3) decodes
    unfolding visibly_changed_def by blast
qed

lemma changed_length: "genuine_rows rows es \<Longrightarrow> set zs \<subseteq> set rows \<Longrightarrow> length zs \<noteq> length rows \<Longrightarrow> visibly_changed rows es zs"
  by (rule changedI) (auto dest: map_eq_imp_length_eq)

lemma changed_order:
  assumes "genuine_rows (xs @ y # z # zs) es" "ck_index z \<noteq> ck_index y"
  shows "visibly_changed (xs @ y # z # zs) es (xs @ z # y # zs)"
proof (rule changedI [OF assms(1)])
  obtain e e' where "row_env y = Some (ck_index y, e)" "row_env z = Some (ck_index z, e')"
    using genuine_decodes [OF assms(1)] by (metis in_set_conv_decomp list.set_intros(1) Un_iff set_append list.set_intros(2))
  then show "map row_env (xs @ z # y # zs) \<noteq> map row_env (xs @ y # z # zs)"
    using assms(2) by simp
qed auto

lemma changed_bytes:
  assumes "genuine_rows (xs @ y # ys) es" "flip_b64 (ck_ciphertext y) = Inr s" "b64d (ck_ciphertext y) \<noteq> Inr []"
  shows "visibly_changed (xs @ y # ys) es (xs @ y \<lparr> ck_ciphertext := s \<rparr> # ys)"
proof -
  have env: "\<exists>e. row_env x = Some (ck_index x, e)" if "x \<in> set (xs @ y # ys)" for x
    using genuine_decodes [OF assms(1) that] .
  obtain e where e: "row_env y = Some (ck_index y, e)" using env [of y] by auto
  obtain e' where e': "row_env (y \<lparr> ck_ciphertext := s \<rparr>) = Some (ck_index y, e')" "e' \<noteq> e"
    using flipped_row [OF assms(2) e assms(3)] by blast
  let ?zs = "xs @ y \<lparr> ck_ciphertext := s \<rparr> # ys"
  have "map row_env ?zs \<noteq> map row_env (xs @ y # ys)"
    using e e' by simp
  then have "\<not> genuine_rows ?zs es"
    using genuine_unique [OF _ assms(1), of ?zs] by blast
  moreover have "chunk_sigs ?zs \<subseteq> chunk_sigs (xs @ y # ys)"
    by (auto simp: chunk_sigs_def)
  moreover have "\<forall>z \<in> set ?zs. \<exists>e. row_env z = Some e"
  proof
    fix z assume "z \<in> set ?zs"
    then have "z = y \<lparr> ck_ciphertext := s \<rparr> \<or> z \<in> set (xs @ y # ys)" by auto
    then show "\<exists>e. row_env z = Some e" using e'(1) env [of z] by blast
  qed
  ultimately show ?thesis
    using decodes [of ?zs] unfolding visibly_changed_def by blast
qed

lemma attack_changes:
  assumes "a \<in> set changing_attacks" "genuine_rows rows es" "0 \<le> i" "nat i < length rows" "final_kind strategy f"
    and "\<forall>row \<in> set rows. b64d (ck_ciphertext row) \<noteq> Inr []"
    and "attacked strategy (Some a) i None (map Chunk rows @ [f]) = Inr (delivered_list rows' fin)"
    and "\<forall>g. fin = Some g \<longrightarrow> final_kind strategy g"
  shows "fin = None \<or> fin = Some f \<and> visibly_changed rows es rows'"
proof -
  obtain xs y ys where rows: "rows = xs @ y # ys" and y: "ck_index y = i" and other: "\<forall>x \<in> set xs \<union> set ys. ck_index x \<noteq> i"
    by (rule genuine_split [OF assms(2-4)])
  have nf: "\<not> is_chunk_row f" using final_kind_simps(1) [OF assms(5)] by blast
  have pre: "attacked strategy (Some a) i None (map Chunk rows @ [f]) =
      map_sum id ((@) (map Chunk xs)) (attacked strategy (Some a) i None (Chunk y # map Chunk ys @ [f]))"
    using attacked_untouched [OF assms(1), of xs i strategy "Chunk y # map Chunk ys @ [f]"] rows other by simp
  have ys: "\<forall>x \<in> set ys. ck_index x \<noteq> i" using other by blast
  note target = attacked_target [OF assms(5) y ys]
  have same: ?thesis if "map Chunk zs @ [f] = delivered_list rows' fin" "visibly_changed rows es zs" for zs
    using delivered_list_final [OF nf that(1)] that(2) by blast
  have "a = ''drop'' \<or> a = ''duplicate'' \<or> a = ''truncate'' \<or> a = ''reorder'' \<or> a = ''tamper_ciphertext''"
    using assms(1) unfolding changing_attacks_def list.set by blast
  then consider "a = ''drop''" | "a = ''duplicate''" | "a = ''truncate''" | "a = ''reorder''" | "a = ''tamper_ciphertext''"
    by (elim disjE)
  then show ?thesis
  proof cases
    case 1
    have "map Chunk (xs @ ys) @ [f] = delivered_list rows' fin" using assms(7) unfolding 1 pre [unfolded 1] target(1) by simp
    then show ?thesis
      by (rule same, intro changed_length [OF assms(2)]) (auto simp: rows)
  next
    case 2
    have "map Chunk (xs @ y # y # ys) @ [f] = delivered_list rows' fin" using assms(7) unfolding 2 pre [unfolded 2] target(2) by simp
    then show ?thesis
      by (rule same, intro changed_length [OF assms(2)]) (auto simp: rows)
  next
    case 3
    have d: "map Chunk xs @ [Chunk y] = delivered_list rows' fin" using assms(7) unfolding 3 pre [unfolded 3] target(3) by simp
    have "fin = None"
    proof (cases fin)
      case (Some g)
      then have "Chunk y = g" using d by (simp add: delivered_list_def)
      then show ?thesis using assms(8) Some by (auto simp: final_kind_def)
    qed simp
    then show ?thesis by simp
  next
    case 4
    show ?thesis
    proof (cases ys)
      case Nil
      have "map Chunk xs @ [f] = delivered_list rows' fin" using assms(7) unfolding 4 pre [unfolded 4] target(4) by (simp add: Nil)
      then show ?thesis
        by (rule same, intro changed_length [OF assms(2)]) (auto simp: rows)
    next
      case (Cons z zs)
      have "map Chunk (xs @ z # y # zs) @ [f] = delivered_list rows' fin" using assms(7) unfolding 4 pre [unfolded 4] target(4) by (simp add: Cons)
      then show ?thesis
      proof (rule same)
        have "ck_index z \<noteq> ck_index y" using ys y Cons by simp
        then show "visibly_changed rows es (xs @ z # y # zs)"
          using changed_order [of xs y z zs es] assms(2) unfolding rows Cons by blast
      qed
    qed
  next
    case 5
    obtain s where s: "flip_b64 (ck_ciphertext y) = Inr s"
        "map Chunk (xs @ y \<lparr> ck_ciphertext := s \<rparr> # ys) @ [f] = delivered_list rows' fin"
      using assms(7) unfolding 5 pre [unfolded 5] target(5) by (cases "flip_b64 (ck_ciphertext y)") simp_all
    have "b64d (ck_ciphertext y) \<noteq> Inr []" using assms(6) rows by simp
    then show ?thesis
      using same [OF s(2)] changed_bytes [OF assms(2) [unfolded rows] s(1)] unfolding rows by blast
  qed
qed

section \<open>Every such attack is shown\<close>

text \<open>
  The server's log of the stream, of either strategy; for the hash chain, no hash collision among
  the inputs of the delivered chain and of the genuine one.
\<close>

definition stream_logged ::
  "prims \<Rightarrow> session_log list \<Rightarrow> string \<Rightarrow> string \<Rightarrow> env list \<Rightarrow> string option \<Rightarrow> int \<Rightarrow> string row list \<Rightarrow> bool" where
  "stream_logged P logs strategy h es attack i rows \<longleftrightarrow>
     (strategy = ''per_chunk'' \<and> PcLog h es \<in> set logs) \<or>
     (strategy = ''hash_chain'' \<and> HcLog h es \<in> set logs \<and> length es < 2 ^ 32 \<and>
      (\<forall>rows' fin ys. attacked strategy attack i None rows = Inr (delivered_list rows' fin) \<longrightarrow>
         map row_env rows' = map Some ys \<longrightarrow> chain_free P h ys es))"

lemma accepted_is_genuine:
  assumes "harness_accepts P sps v k enforce rows' (Some f)" "contexts_distinct P logs" "sha_ok P"
    and "unforged P (sv_client v) (sv_sig_public_key v) (signed_in P logs) (delivered_sigs rows' (Some f))"
    and "stream_logged P logs (sv_strategy v) (sv_handshake_id v) es attack i rows"
    and "attacked (sv_strategy v) attack i None rows = Inr (delivered_list rows' (Some f))" "map row_env rows' = map Some ys"
  shows "genuine_rows rows' es"
proof -
  obtain covered where acc: "replay_through_client P sps (capture_of v) rows' (Some f) (sv_strategy v) k enforce = Inr (None, covered)"
    using assms(1) unfolding harness_accepts_def by blast
  consider (pc) "sv_strategy v = ''per_chunk''" "PcLog (sv_handshake_id v) es \<in> set logs"
    | (hc) "sv_strategy v = ''hash_chain''" "HcLog (sv_handshake_id v) es \<in> set logs" "length es < 2 ^ 32" "chain_free P (sv_handshake_id v) ys es"
    using assms(5-7) unfolding stream_logged_def by blast
  then show ?thesis
  proof cases
    case pc
    show ?thesis
      unfolding genuine_rows_def
      by (rule per_chunk_accept_genuine [where cap = "capture_of v" and k = k and enf = enforce and sps = sps and covered = covered])
         (use pc assms(2-4) acc in simp_all)
  next
    case hc
    have "ys = indexed es"
      by (rule hash_chain_replay_sound(3) [where cap = "capture_of v" and k = k and enf = enforce and sps = sps and covered = covered and rej = None
            and P = P and logs = logs and mutated = rows' and final = "Some f"])
         (use hc assms(2-4,7) acc in simp_all)
    then show ?thesis using assms(7) by (simp add: genuine_rows_def)
  qed
qed

text \<open>C27
  On the live page, dropping, repeating, reordering or changing a chunk of a genuine stream, or
  cutting the stream after it, always ends in a summary that says not verified, for both strategies
  that stream chunks, provided only the server's signatures verify.
\<close>

theorem demo_flags_attack:
  assumes "get_client_crypto config = Inr cl" "nt_handshake net = Inr (hs, ms)"
    and "live_open P r sp cl strategy (live_body prompt strategy c mx k) hs = Inr (v, request)"
    and "nt_stream net request = Inr (200, evs)" "line_rows evs = map Chunk rows @ [f]" "final_kind strategy f"
    and "run_streaming_transaction_live P r sp sps net t0 t1 config prompt strategy c mx k (Some a) i enforce = Inr out"
    and "\<And>e. EvError e \<notin> set out"
    and "a \<in> set changing_attacks" "genuine_rows rows es" "0 \<le> i" "nat i < length rows"
    and "\<forall>row \<in> set rows. b64d (ck_ciphertext row) \<noteq> Inr []"
    and "contexts_distinct P logs" "sha_ok P"
    and "unforged P (sv_client v) (sv_sig_public_key v) (signed_in P logs) (delivered_sigs rows (Some f))"
    and "stream_logged P logs strategy (sv_handshake_id v) es (Some a) i (map Chunk rows @ [f])"
  shows "\<exists>m. last out = EvSummary m \<and> lm_stream_fully_verified m \<noteq> Some True"
proof -
  have v: "sv_strategy v = strategy" using assms(3) by (auto simp: live_open_def)
  obtain rows' fin m where d: "attacked strategy (Some a) i None (map Chunk rows @ [f]) = Inr (delivered_list rows' fin)"
      "\<forall>f'. fin = Some f' \<longrightarrow> final_kind strategy f'"
    and m: "last out = EvSummary m" "lm_stream_fully_verified m = Some True \<longleftrightarrow> harness_accepts P sps v k enforce rows' fin"
    using live_run_agrees [OF assms(1-8)] by blast
  have "\<not> harness_accepts P sps v k enforce rows' fin"
  proof
    assume acc: "harness_accepts P sps v k enforce rows' fin"
    then have ch: "fin = Some f" "visibly_changed rows es rows'"
      using attack_changes [OF assms(9-12,6,13) d] no_final_no_accept by blast+
    obtain ys where ys: "map row_env rows' = map Some ys" "chunk_sigs rows' \<subseteq> chunk_sigs rows" "\<not> genuine_rows rows' es"
      using ch(2) unfolding visibly_changed_def by blast
    have "unforged P (sv_client v) (sv_sig_public_key v) (signed_in P logs) (delivered_sigs rows' (Some f))"
      using assms(16) ys(2) unfolding unforged_def delivered_sigs_def by blast
    then have "genuine_rows rows' es"
      using accepted_is_genuine [OF acc [unfolded ch(1)] assms(14,15)] assms(17) d(1) ch(1) ys(1) v by metis
    with ys(3) show False by blast
  qed
  with m show ?thesis by blast
qed

section \<open>A run that evaluates\<close>

definition wit_hs :: json_strings where
  "wit_hs = [''kex_public_key'' \<mapsto> b64e (replicate 32 1), ''sig_public_key'' \<mapsto> b64e [1], ''handshake_id'' \<mapsto> ''h'']"

definition wit_event :: "string row \<Rightarrow> sse_event" where
  "wit_event row = \<lparr> ev_line = DataRow row, ev_arrival = 0, ev_span = wit_span, ev_now = 0 \<rparr>"

definition wit_signed_row :: "string chunk_row" where
  "wit_signed_row = wit_row [] (Some (b64e (1 # wit_pc_message)))"

definition wit_live_net :: stream_net where
  "wit_live_net = \<lparr> nt_handshake = Inr (wit_hs, 0), nt_stream = (\<lambda>_. Inr (200, [wit_event (Chunk wit_signed_row), wit_event wit_pc_final])) \<rparr>"

lemma wit_live_open:
  obtains v request where
    "live_open toy_prims (\<lambda>_ _. 0) wit_span EcdheClient ''per_chunk'' body wit_hs = Inr (v, request)"
    "sv_client v = EcdheClient" "sv_sig_public_key v = [1]" "sv_handshake_id v = ''h''" "sv_strategy v = ''per_chunk''" "length (sv_key v) = 32"
  by (simp add: live_open_def wit_hs_def ecdhe_establish_def x25519_raw_def X25519_PUBLIC_KEY_BYTES_def derive_session_key_def
      aead_encrypt_def toy_prims_def AES_KEY_BYTES_def)

lemma live_process_no_error: "live_process P v sp row b st = Inr (st', out) \<Longrightarrow> EvError e \<notin> set out"
  by (auto simp: live_process_def process_pc_def process_hc_def process_buffered_def process_end_def process_chain_end_def
      show_pc_def show_hc_def show_final_def Let_def split: row.splits if_splits)

lemma process_batch_no_error: "process_batch P sps v n batch st = (st', out, x) \<Longrightarrow> EvError e \<notin> set out"
proof (induction batch arbitrary: n st out)
  case (Cons r batch)
  show ?case
  proof (cases "live_process P v (sps n) (fst r) (snd r) st")
    case (Inl err)
    then show ?thesis using Cons.prems by (cases r) auto
  next
    case (Inr y)
    obtain st1 out1 st2 out2 x2 where y: "y = (st1, out1)" "process_batch P sps v (Suc n) batch st1 = (st2, out2, x2)"
      by (metis prod_cases3 surj_pair)
    then have "out = out1 @ out2" "x2 = x" "st2 = st'" using Cons.prems Inr by (cases r; simp)+
    then show ?thesis
      using live_process_no_error [OF Inr [unfolded y(1)], of e] Cons.IH [OF y(2) [unfolded \<open>x2 = x\<close> \<open>st2 = st'\<close>]] by simp
  qed
qed simp

lemma live_loop_no_error: "live_loop P sps v attack i t n evs st = (st', out, x) \<Longrightarrow> EvError e \<notin> set out"
proof (induction evs arbitrary: n st out)
  case (Cons ev evs)
  show ?case
  proof (cases "ev_line ev")
    case (DataRow row)
    let ?st1 = "live_ttft t (ev_arrival ev) st"
    show ?thesis
    proof (cases "batch_of (sv_strategy v) attack i row (lv_held ?st1)")
      case (Inl err)
      then show ?thesis using Cons.prems DataRow by (simp add: Let_def)
    next
      case (Inr y)
      obtain batch held where y: "y = (batch, held)" by fastforce
      obtain st2 out1 x1 where pb: "process_batch P sps v n batch (?st1 \<lparr> lv_held := held \<rparr>) = (st2, out1, x1)"
        using prod_cases3 by blast
      obtain st3 out2 x2 where lp: "live_loop P sps v attack i t (n + length batch) evs st2 = (st3, out2, x2)"
        using prod_cases3 by blast
      have "set out \<subseteq> set out1 \<union> set out2 \<and> (set out \<subseteq> set out1 \<or> x2 = x \<and> st3 = st')"
        using Cons.prems DataRow Inr y pb lp by (auto simp: Let_def split: if_splits option.splits)
      then show ?thesis
        using process_batch_no_error [OF pb, of e] Cons.IH [of "n + length batch" st2 out2] lp by blast
    qed
  qed (use Cons in auto)
qed simp

lemma wit_live_chunk:
  assumes "sv_client v = EcdheClient" "sv_sig_public_key v = [1]" "sv_handshake_id v = ''h''" "sv_strategy v = ''per_chunk''"
    and "lv_expected st = 0"
  shows "\<exists>st' out. live_process toy_prims v sp (Chunk wit_signed_row) b st = Inr (st', out) \<and> lv_expected st' = 1"
  using assms
  by (simp add: live_process_def process_pc_def decode_pc_chunk_def verify_per_chunk_def wit_signed_row_def wit_row_def b64d_field_def
      toy_ecdhe_verify chunk_message_def index_bytes_def wit_pc_message_def decrypt_into_def aead_decrypt_def toy_prims_def
      show_pc_def count_chunk_def Let_def)

lemma wit_live_final:
  assumes "sv_client v = EcdheClient" "sv_sig_public_key v = [1]" "sv_handshake_id v = ''h''"
  shows "\<exists>st' out. live_process toy_prims v sp wit_pc_final b st = Inr (st', out)"
  using assms
  by (simp add: live_process_def process_end_def verify_per_chunk_final_def wit_pc_final_def b64d_field_def
      toy_ecdhe_verify end_message_def index_bytes_def Let_def)

definition wit_live_run :: "string option \<Rightarrow> live_event list res" where
  "wit_live_run attack = run_streaming_transaction_live toy_prims (\<lambda>_ _. 0) wit_span (\<lambda>_. wit_span) wit_live_net 0 1
     ''classical_ecdhe'' ''p'' ''per_chunk'' 1 1 None attack 0 False"

text \<open>The record is processed, or dropped, and the terminal record after it; nothing raises.\<close>

lemma wit_live_loop:
  assumes v: "sv_client v = EcdheClient" "sv_sig_public_key v = [1]" "sv_handshake_id v = ''h''" "sv_strategy v = ''per_chunk''"
    and "attack = None \<or> attack = Some ''drop''"
  shows "\<exists>st' out. live_loop toy_prims (\<lambda>_. wit_span) v attack 0 0 0 [wit_event (Chunk wit_signed_row), wit_event wit_pc_final]
    (live_start toy_prims v None False m) = (st', out, None)"
proof -
  let ?st1 = "live_ttft 0 0 (live_start toy_prims v None False m)"
  have e: "lv_expected (?st1 \<lparr> lv_held := None \<rparr>) = 0" "lv_held ?st1 = None"
    by (simp_all add: live_start_def live_ttft_def)
  have ix: "ck_index wit_signed_row = 0" by (simp add: wit_signed_row_def wit_row_def)
  have fin: "batch_of ''per_chunk'' attack 0 wit_pc_final held = Inr ([(wit_pc_final, False)], held)" for held
    using assms(5) by (auto simp: batch_of_def wit_pc_final_def Let_def)
  have cut: "\<not> cut_before ''per_chunk'' attack row" "\<not> cut_after attack 0 row" for row
    using assms(5) by (auto simp: cut_before_def cut_after_def)
  obtain st1 out1 where p: "live_process toy_prims v wit_span (Chunk wit_signed_row) False (?st1 \<lparr> lv_held := None \<rparr>) = Inr (st1, out1)"
    using wit_live_chunk [OF v e(1)] by blast
  have q: "\<exists>st' out. live_process toy_prims v wit_span wit_pc_final False st = Inr (st', out)" for st
    by (rule wit_live_final [OF v(1-3)])
  from assms(5) show ?thesis
  proof
    assume a: "attack = None"
    obtain st2 out2 where "live_process toy_prims v wit_span wit_pc_final False ((live_ttft 0 0 st1) \<lparr> lv_held := lv_held (live_ttft 0 0 st1) \<rparr>) = Inr (st2, out2)"
      using q by blast
    moreover have "batch_of ''per_chunk'' attack 0 (Chunk wit_signed_row) None = Inr ([(Chunk wit_signed_row, False)], None)"
      using a by (simp add: batch_of_def)
    ultimately show ?thesis
      using p e(2) fin cut v(4) by (simp add: wit_event_def Let_def)
  next
    assume a: "attack = Some ''drop''"
    let ?st2 = "live_ttft 0 0 (?st1 \<lparr> lv_held := None \<rparr>)"
    obtain st2 out2 where "live_process toy_prims v wit_span wit_pc_final False (?st2 \<lparr> lv_held := lv_held ?st2 \<rparr>) = Inr (st2, out2)"
      using q by blast
    moreover have "batch_of ''per_chunk'' attack 0 (Chunk wit_signed_row) None = Inr ([], None)"
      using a ix by (simp add: batch_of_def Let_def)
    ultimately show ?thesis
      using e(2) fin cut v(4) by (simp add: wit_event_def Let_def)
  qed
qed

lemma wit_live_run_ok:
  assumes "attack = None \<or> attack = Some ''drop''"
    and "live_open toy_prims (\<lambda>_ _. 0) wit_span EcdheClient ''per_chunk'' (live_body ''p'' ''per_chunk'' 1 1 None) wit_hs = Inr (v, request)"
    and "sv_client v = EcdheClient" "sv_sig_public_key v = [1]" "sv_handshake_id v = ''h''" "sv_strategy v = ''per_chunk''"
  shows "\<exists>out. wit_live_run attack = Inr out \<and> (\<forall>e. EvError e \<notin> set out)"
proof -
  let ?m = "live_metrics0 ''classical_ecdhe'' ''per_chunk'' None attack 0"
  obtain st' out where l: "live_loop toy_prims (\<lambda>_. wit_span) v attack 0 0 0 [wit_event (Chunk wit_signed_row), wit_event wit_pc_final]
      (live_start toy_prims v None False ?m) = (st', out, None)"
    using wit_live_loop [OF assms(3-6,1)] by blast
  have "wit_live_run attack = Inr (out @ live_end 0 1 st')"
    unfolding wit_live_run_def run_streaming_transaction_live_def
    using assms(2) l by (simp add: get_client_crypto_def CONFIGS_def wit_live_net_def del: live_loop.simps)
  then show ?thesis
    using live_loop_no_error [OF l] by (auto simp: live_end_def Let_def)
qed

lemmas wit_live_facts = wit_live_open wit_live_run_ok

lemma wit_line_rows: "line_rows [wit_event (Chunk wit_signed_row), wit_event wit_pc_final] = map Chunk [wit_signed_row] @ [wit_pc_final]"
  by (simp add: wit_event_def)

lemma wit_genuine: "genuine_rows [wit_signed_row] [wit_env]" "final_kind ''per_chunk'' wit_pc_final"
  by (simp_all add: genuine_rows_def wit_signed_row_def wit_row_def row_env_def indexed_def wit_env_def envelope_def
      final_kind_def wit_pc_final_def)

lemma wit_config: "get_client_crypto ''classical_ecdhe'' = Inr EcdheClient" "nt_handshake wit_live_net = Inr (wit_hs, 0)"
  "nt_stream wit_live_net request = Inr (200, [wit_event (Chunk wit_signed_row), wit_event wit_pc_final])"
  by (simp_all add: get_client_crypto_def CONFIGS_def wit_live_net_def)

text \<open>Without an attack the harness accepts the stream, so the page verifies it.\<close>

lemma demo_agrees_with_harness_witness:
  "\<exists>out m. wit_live_run None = Inr out \<and> last out = EvSummary m \<and> lm_stream_fully_verified m = Some True"
proof -
  obtain v request where v: "live_open toy_prims (\<lambda>_ _. 0) wit_span EcdheClient ''per_chunk'' (live_body ''p'' ''per_chunk'' 1 1 None) wit_hs = Inr (v, request)"
      "sv_client v = EcdheClient" "sv_sig_public_key v = [1]" "sv_handshake_id v = ''h''" "sv_strategy v = ''per_chunk''"
    by (rule wit_live_open)
  obtain out where out: "wit_live_run None = Inr out" "\<And>e. EvError e \<notin> set out"
    using wit_live_run_ok [OF _ v] by blast
  obtain rows' fin m where *: "attacked ''per_chunk'' None 0 None (map Chunk [wit_signed_row] @ [wit_pc_final]) = Inr (delivered_list rows' fin)"
      "last out = EvSummary m" "lm_stream_fully_verified m = Some True \<longleftrightarrow> harness_accepts toy_prims (\<lambda>_. wit_span) v None False rows' fin"
    using demo_agrees_with_harness [OF wit_config(1,2) v(1) wit_config(3) wit_line_rows wit_genuine(2) out(1) [unfolded wit_live_run_def] out(2)]
    by blast
  have "attacked ''per_chunk'' None 0 None (map Chunk [wit_signed_row] @ [wit_pc_final]) = Inr (map Chunk [wit_signed_row] @ [wit_pc_final])"
    by (simp add: batch_of_def cut_before_def cut_after_def)
  then have "rows' = [wit_signed_row]" "fin = Some wit_pc_final"
    using *(1) delivered_list_final [OF final_kind_simps(1) [OF wit_genuine(2), THEN conjunct1], of "[wit_signed_row]" rows' fin] by auto
  moreover have "harness_accepts toy_prims (\<lambda>_. wit_span) v None False [wit_signed_row] (Some wit_pc_final)"
    using v(2-5) by (simp add: harness_accepts_def replay_through_client_def replay_pc_final_def decode_pc_chunk_def verify_per_chunk_def
        verify_per_chunk_final_def wit_signed_row_def wit_row_def wit_pc_final_def b64d_field_def toy_ecdhe_verify chunk_message_def
        end_message_def index_bytes_def wit_pc_message_def wit_end_message_def decrypt_into_def aead_decrypt_def toy_prims_def)
  ultimately show ?thesis
    using out(1) * by blast
qed

lemma demo_flags_attack_witness:
  "\<exists>out m. wit_live_run (Some ''drop'') = Inr out \<and> last out = EvSummary m \<and> lm_stream_fully_verified m \<noteq> Some True"
proof -
  obtain v request where v: "live_open toy_prims (\<lambda>_ _. 0) wit_span EcdheClient ''per_chunk'' (live_body ''p'' ''per_chunk'' 1 1 None) wit_hs = Inr (v, request)"
      "sv_client v = EcdheClient" "sv_sig_public_key v = [1]" "sv_handshake_id v = ''h''" "sv_strategy v = ''per_chunk''"
    by (rule wit_live_open)
  obtain out where out: "wit_live_run (Some ''drop'') = Inr out" "\<And>e. EvError e \<notin> set out"
    using wit_live_run_ok [OF _ v] by blast
  have "unforged toy_prims EcdheClient [1] (signed_in toy_prims [PcLog ''h'' [wit_env]]) (delivered_sigs [wit_signed_row] (Some wit_pc_final))"
    using wit_pc_signed
    by (intro toy_unforged) (auto simp: delivered_sigs_def chunk_sigs_def final_sigs_def wit_signed_row_def wit_row_def wit_pc_final_def)
  moreover have "contexts_distinct toy_prims [PcLog ''h'' [wit_env]]" "sha_ok toy_prims"
    using toy_prims_ok by (simp_all add: contexts_distinct_def prims_ok_def)
  moreover have "\<forall>row \<in> set [wit_signed_row]. b64d (ck_ciphertext row) \<noteq> Inr []"
    by (simp add: wit_signed_row_def wit_row_def)
  moreover have "stream_logged toy_prims [PcLog ''h'' [wit_env]] ''per_chunk'' (sv_handshake_id v) [wit_env] (Some ''drop'') 0
      (map Chunk [wit_signed_row] @ [wit_pc_final])"
    by (simp add: stream_logged_def v(4))
  moreover have "''drop'' \<in> set changing_attacks" "0 \<le> (0 :: int)" "nat 0 < length [wit_signed_row]"
    by (simp_all add: changing_attacks_def)
  ultimately have "\<exists>m. last out = EvSummary m \<and> lm_stream_fully_verified m \<noteq> Some True"
    using demo_flags_attack [OF wit_config(1,2) v(1) wit_config(3) wit_line_rows wit_genuine(2) out(1) [unfolded wit_live_run_def] out(2) _ wit_genuine(1)]
    unfolding v(2,3) by blast
  with out(1) show ?thesis by blast
qed

end
