(* ===== verification/PaperRuns.thy ===== *)
theory PaperRuns
  imports StreamingRunner JsonAccess "HOL-Library.AList"
begin

text \<open>
  \<^verbatim>\<open>bench/paper_runs.py\<close>: the driver that runs every experiment of the paper in sequence. A step is
  a computation over the manifest dictionary and the trace of what the driver asked of the world
  (subprocesses, sweeps, servers, files, the clock); the answer of the world to each request, a
  value or an exception, is a parameter. The manifest keeps insertion order, as a Python
  dictionary does, so it is an association list.
\<close>

section \<open>Computations over the manifest\<close>

type_synonym manifest = "(string \<times> json) list"

record full_sweep_args =
  fa_configs :: "string list"
  fa_concurrency_levels :: "nat list"
  fa_repetitions :: nat
  fa_requests_per_concurrency :: nat
  fa_min_requests :: nat
  fa_payload_profile :: string
  fa_network_profile :: string
  fa_requests_per_handshake :: nat
  fa_auth_handshake :: bool

record stream_sweep_args =
  sa_configs :: "string list"
  sa_strategies :: "string list"
  sa_max_tokens_values :: "nat list"
  sa_chunk_size_values :: "nat list"
  sa_repetitions :: nat
  sa_warmup_transactions :: nat
  sa_shuffle_seed :: nat
  sa_checkpoint_intervals :: "nat option list option"

datatype run_action =
    RunCommand "string list" "(string \<times> string) list"
  | FullSweep full_sweep_args
  | StreamSweep stream_sweep_args
  | SetEnviron "(string \<times> string) list"
  | MakeDirs string
  | LaunchServer string
  | WaitHealthy
  | LaunchProxy string
  | StopProcess string
  | BeginStep int
  | SaveManifest manifest
  | Clock
  | CaptureEnvironment
  | IsDir string
  | CopyTree string string

type_synonym run_trace = "(run_action \<times> json res) list"
type_synonym world = "run_trace \<Rightarrow> run_action \<Rightarrow> json res"

record run_state =
  rs_manifest :: manifest
  rs_trace :: run_trace

type_synonym 'a run = "run_state \<Rightarrow> 'a res \<times> run_state"

definition run_return :: "'a \<Rightarrow> 'a run" where
  "run_return x s = (Inr x, s)"

definition run_lift :: "'a res \<Rightarrow> 'a run" where
  "run_lift r s = (r, s)"

definition run_bind :: "'a run \<Rightarrow> ('a \<Rightarrow> 'b run) \<Rightarrow> 'b run" where
  "run_bind m f s = (case m s of (Inl e, s') \<Rightarrow> (Inl e, s') | (Inr x, s') \<Rightarrow> f x s')"

definition run_then :: "'a run \<Rightarrow> 'b run \<Rightarrow> 'b run" where
  "run_then m m' = run_bind m (\<lambda>_. m')"

fun for_each :: "'a list \<Rightarrow> ('a \<Rightarrow> unit run) \<Rightarrow> unit run" where
  "for_each [] f = run_return ()"
| "for_each (x # xs) f = run_then (f x) (for_each xs f)"

text \<open>\<^verbatim>\<open>try: body finally: cleanup\<close>: an exception of the clean-up replaces that of the body.\<close>

definition run_finally :: "'a run \<Rightarrow> unit run \<Rightarrow> 'a run" where
  "run_finally body cleanup s =
     (case body s of (r, s1) \<Rightarrow> (case cleanup s1 of (Inl e, s2) \<Rightarrow> (Inl e, s2) | (Inr _, s2) \<Rightarrow> (r, s2)))"

text \<open>\<^verbatim>\<open>try: ... except Exception\<close>: the outcome becomes a value.\<close>

definition run_try :: "'a run \<Rightarrow> 'a res run" where
  "run_try m s = (case m s of (r, s') \<Rightarrow> (Inr r, s'))"

definition perform :: "world \<Rightarrow> run_action \<Rightarrow> json run" where
  "perform w act s = (let answer = w (rs_trace s) act in (answer, s \<lparr> rs_trace := rs_trace s @ [(act, answer)] \<rparr>))"

definition do_action :: "world \<Rightarrow> run_action \<Rightarrow> unit run" where
  "do_action w act = run_then (perform w act) (run_return ())"

definition set_key :: "string \<Rightarrow> json \<Rightarrow> unit run" where
  "set_key k v s = (Inr (), s \<lparr> rs_manifest := AList.update k v (rs_manifest s) \<rparr>)"

definition set_default :: "string \<Rightarrow> json \<Rightarrow> unit run" where
  "set_default k v s = (Inr (), case map_of (rs_manifest s) k of None \<Rightarrow> s \<lparr> rs_manifest := AList.update k v (rs_manifest s) \<rparr> | Some _ \<Rightarrow> s)"

definition append_json :: "json \<Rightarrow> json \<Rightarrow> json res" where
  "append_json j v = (case j of JList xs \<Rightarrow> Inr (JList (xs @ [v])) | _ \<Rightarrow> Inl AttributeError)"

text \<open>\<^verbatim>\<open>m[k].append(v)\<close>\<close>

definition append_key :: "string \<Rightarrow> json \<Rightarrow> unit run" where
  "append_key k v s = (case bind_res (get_item (map_of (rs_manifest s)) k) (\<lambda>j. append_json j v) of
      Inl e \<Rightarrow> (Inl e, s) | Inr j \<Rightarrow> set_key k j s)"

definition save_manifest :: "world \<Rightarrow> unit run" where
  "save_manifest w s = do_action w (SaveManifest (rs_manifest s)) s"

text \<open>The manifest file: absent, unreadable, or a document; \<^verbatim>\<open>main\<close> needs a dictionary.\<close>

definition load_manifest :: "json res option \<Rightarrow> manifest res" where
  "load_manifest file = (case file of None \<Rightarrow> Inr [] | Some (Inl e) \<Rightarrow> Inl e
     | Some (Inr (JObj kvs)) \<Rightarrow> Inr kvs | Some (Inr _) \<Rightarrow> Inl AttributeError)"

section \<open>Constants\<close>

definition ALL_CONFIGS :: "string list" where
  "ALL_CONFIGS = [''control'', ''control-2rt'', ''classical'', ''classical-ecdhe'', ''hybrid'', ''hybrid-kex'', ''full-pqc'']"

definition PROTECTED :: "string list" where
  "PROTECTED = [''classical'', ''classical-ecdhe'', ''hybrid'', ''hybrid-kex'', ''full-pqc'']"

definition PROTECTED_V2 :: "string list" where
  "PROTECTED_V2 = PROTECTED @ [''hybrid-kex-pq'']"

definition CRYPTO :: "(string \<times> string) list" where
  "CRYPTO = [(''classical'', ''classical''), (''classical-ecdhe'', ''classical_ecdhe''), (''hybrid'', ''hybrid''),
     (''hybrid-kex'', ''hybrid_kex''), (''full-pqc'', ''full_pqc''), (''hybrid-kex-pq'', ''hybrid_kex_pq'')]"

definition CHECKPOINT_KS :: "nat option list" where
  "CHECKPOINT_KS = [None, Some 1, Some 2, Some 5, Some 10, Some 20]"

definition PROFILES :: "string list" where
  "PROFILES = [''tabular_small'', ''image_cnn'', ''embedding'', ''llm_completion'']"

definition NETWORKS :: "string list" where
  "NETWORKS = [''localhost'', ''metro'', ''wan'', ''mobile'']"

definition PORT :: nat where
  "PORT = 8000"

text \<open>\<^verbatim>\<open>",".join(xs)\<close>\<close>

fun join_commas :: "string list \<Rightarrow> string" where
  "join_commas [] = ''''"
| "join_commas [x] = x"
| "join_commas (x # xs) = x @ '','' @ join_commas xs"

definition sweep_defaults :: "string list \<Rightarrow> nat list \<Rightarrow> nat \<Rightarrow> nat \<Rightarrow> nat \<Rightarrow> full_sweep_args" where
  "sweep_defaults configs levels repetitions requests_per_concurrency min_requests =
     \<lparr> fa_configs = configs, fa_concurrency_levels = levels, fa_repetitions = repetitions,
       fa_requests_per_concurrency = requests_per_concurrency, fa_min_requests = min_requests,
       fa_payload_profile = ''tabular_small'', fa_network_profile = ''localhost'', fa_requests_per_handshake = 1,
       fa_auth_handshake = False \<rparr>"

text \<open>\<^verbatim>\<open>rows[0]["run_id"]\<close>\<close>

definition first_run_id :: "json \<Rightarrow> json res" where
  "first_run_id rows = bind_res (json_first rows) (\<lambda>row. json_field row ''run_id'')"

definition run_cmd :: "world \<Rightarrow> string list \<Rightarrow> (string \<times> string) list \<Rightarrow> unit run" where
  "run_cmd w cmd env = do_action w (RunCommand cmd env)"

definition archive_results :: "world \<Rightarrow> json run" where
  "archive_results w = run_bind (perform w Clock) (\<lambda>t. run_bind (run_lift (json_str t)) (\<lambda>stamp.
     let dest = ''results/archive/pre_rerun_'' @ stamp in
     run_then (for_each [''hndl'', ''mitm'', ''streaming/mitm'', ''validation''] (\<lambda>dir.
         run_bind (perform w (IsDir (''results/'' @ dir))) (\<lambda>present.
           if json_truthy present then do_action w (CopyTree (''results/'' @ dir) (dest @ ''/'' @ dir)) else run_return ())))
       (run_return (JStr dest))))"

definition full_sweep :: "world \<Rightarrow> full_sweep_args \<Rightarrow> json run" where
  "full_sweep w args = run_bind (perform w (FullSweep args)) (\<lambda>cells. run_lift (first_run_id cells))"

section \<open>The steps\<close>

text \<open>
  A command leaves out the interpreter that starts it, and paths are relative to the repository;
  the log file of a server and the pauses between processes have no effect here.
\<close>

definition step_primitives :: "world \<Rightarrow> unit run" where
  "step_primitives w = run_then
     (run_cmd w [''-m'', ''validation.primitive_bench'', ''--iterations'', ''2000'', ''--output'', ''results/validation/primitive_bench.json''] [])
     (set_key ''primitives'' (JStr ''results/validation/primitive_bench.json''))"

definition sweep_to_key :: "world \<Rightarrow> string \<Rightarrow> full_sweep_args \<Rightarrow> unit run" where
  "sweep_to_key w k args = run_bind (full_sweep w args) (set_key k)"

definition step_concurrency :: "world \<Rightarrow> unit run" where
  "step_concurrency w = sweep_to_key w ''concurrency'' (sweep_defaults ALL_CONFIGS [10, 100, 1000] 5 10 50)"

text \<open>A list of sweeps under one key; the manifest is saved after each.\<close>

definition sweeps_to_list :: "world \<Rightarrow> string \<Rightarrow> 'a list \<Rightarrow> ('a \<Rightarrow> full_sweep_args) \<Rightarrow> ('a \<Rightarrow> json \<Rightarrow> json) \<Rightarrow> unit run" where
  "sweeps_to_list w k xs args entry = run_then (set_key k (JList []))
     (for_each xs (\<lambda>x. run_bind (full_sweep w (args x)) (\<lambda>run_id. run_then (append_key k (entry x run_id)) (save_manifest w))))"

definition step_payload :: "world \<Rightarrow> unit run" where
  "step_payload w = sweeps_to_list w ''payload'' PROFILES
     (\<lambda>prof. (sweep_defaults ALL_CONFIGS [10] 5 10 100) \<lparr> fa_payload_profile := prof \<rparr>) (\<lambda>_ run_id. run_id)"

definition step_network :: "world \<Rightarrow> unit run" where
  "step_network w = sweeps_to_list w ''network'' NETWORKS
     (\<lambda>net. (sweep_defaults ALL_CONFIGS [10] 5 10 100) \<lparr> fa_network_profile := net \<rparr>) (\<lambda>_ run_id. run_id)"

definition step_amortization :: "world \<Rightarrow> unit run" where
  "step_amortization w = sweeps_to_list w ''amortization'' [1, 10, 100]
     (\<lambda>n. (sweep_defaults ALL_CONFIGS [10] 5 100 1000) \<lparr> fa_requests_per_handshake := n \<rparr>) (\<lambda>_ run_id. run_id)"

text \<open>One configuration of the threat step: the server runs for the whole body, a proxy per target.\<close>

definition mitm_target :: "world \<Rightarrow> string \<Rightarrow> string \<Rightarrow> string \<Rightarrow> unit run" where
  "mitm_target w cfg crypto target = run_then (do_action w (LaunchProxy target)) (run_finally
     (run_cmd w [''-m'', ''threats.mitm_experiment'', ''--configuration'', cfg, ''--proxy-url'',
        ''http://127.0.0.1:'' @ nat_str (PORT + 1000), ''--requests'', ''100'', ''--tamper-target'', target,
        ''--output'', ''results/mitm/'' @ crypto @ ''-mitm-'' @ target @ ''.csv''] [])
     (do_action w (StopProcess target)))"

definition threat_config :: "world \<Rightarrow> string \<Rightarrow> unit run" where
  "threat_config w cfg = run_bind (run_lift (get_item (map_of CRYPTO) cfg)) (\<lambda>crypto.
     run_then (run_lift (get_item (map_of SERVER_MODULES) cfg))
     (run_then (do_action w (LaunchServer cfg)) (run_finally
       (run_then (do_action w WaitHealthy)
       (run_then (run_cmd w [''-m'', ''threats.hndl_capture'', ''--configuration'', cfg, ''--url'',
            ''http://127.0.0.1:'' @ nat_str PORT, ''--requests'', ''1000'',
            ''--output'', ''results/hndl/'' @ crypto @ ''-hndl.csv''] [])
         (for_each [''ciphertext'', ''signature''] (mitm_target w cfg crypto))))
       (do_action w (StopProcess cfg)))))"

definition or_protected :: "string list option \<Rightarrow> string list" where
  "or_protected configs = (case configs of None \<Rightarrow> PROTECTED | Some [] \<Rightarrow> PROTECTED | Some cs \<Rightarrow> cs)"

definition step_threats :: "world \<Rightarrow> string list option \<Rightarrow> unit run" where
  "step_threats w configs = run_then (do_action w (MakeDirs ''results/hndl''))
     (run_then (do_action w (MakeDirs ''results/mitm''))
     (run_then (for_each (or_protected configs) (threat_config w))
       (set_key ''threats'' (JStr ''results/hndl/*-hndl-summary.json, results/mitm/*-summary.json''))))"

definition llama_env :: "(string \<times> string) list" where
  "llama_env = [(''PQ_SHIELD_STREAMING_BACKEND'', ''llama_cpp'')]"

definition stream_sweep_to_key :: "world \<Rightarrow> string \<Rightarrow> stream_sweep_args \<Rightarrow> unit run" where
  "stream_sweep_to_key w k args = run_then (do_action w (SetEnviron llama_env))
     (run_bind (perform w (StreamSweep args)) (\<lambda>rows. run_bind (run_lift (first_run_id rows)) (set_key k)))"

definition streaming_args :: "string list \<Rightarrow> nat \<Rightarrow> stream_sweep_args" where
  "streaming_args configs seed = \<lparr> sa_configs = configs, sa_strategies = [''buffer_and_sign'', ''per_chunk'', ''hash_chain''],
     sa_max_tokens_values = [50, 200], sa_chunk_size_values = [5], sa_repetitions = 10, sa_warmup_transactions = 1,
     sa_shuffle_seed = seed, sa_checkpoint_intervals = None \<rparr>"

definition step_streaming :: "world \<Rightarrow> unit run" where
  "step_streaming w = run_then (stream_sweep_to_key w ''streaming'' (streaming_args PROTECTED 1))
     (set_key ''streaming_backend'' (JStr ''llama_cpp''))"

definition step_streaming_v2 :: "world \<Rightarrow> unit run" where
  "step_streaming_v2 w = run_then (stream_sweep_to_key w ''streaming'' (streaming_args PROTECTED_V2 3))
     (set_key ''streaming_backend'' (JStr ''llama_cpp''))"

definition step_streaming_hndl :: "world \<Rightarrow> string list option \<Rightarrow> unit run" where
  "step_streaming_hndl w configs = run_then
     (run_cmd w [''-m'', ''threats.streaming_hndl_experiment'', ''--configs'', join_commas (or_protected configs),
        ''--port'', nat_str PORT, ''--max-tokens'', ''50,200,500,2000''] llama_env)
     (set_key ''streaming_hndl'' (JStr ''results/hndl/streaming/ (llama_cpp)''))"

definition step_streaming_mitm :: "world \<Rightarrow> unit run" where
  "step_streaming_mitm w = run_then
     (run_cmd w [''-m'', ''threats.streaming_mitm_experiment'', ''--configs'', join_commas PROTECTED,
        ''--port'', nat_str PORT, ''--trials'', ''10''] llama_env)
     (set_key ''streaming_mitm'' (JStr ''results/streaming/mitm/ (llama_cpp)''))"

definition checkpoint_args :: "string list \<Rightarrow> nat \<Rightarrow> stream_sweep_args" where
  "checkpoint_args configs seed = \<lparr> sa_configs = configs, sa_strategies = [''hash_chain''], sa_max_tokens_values = [200],
     sa_chunk_size_values = [5], sa_repetitions = 5, sa_warmup_transactions = 1, sa_shuffle_seed = seed,
     sa_checkpoint_intervals = Some CHECKPOINT_KS \<rparr>"

definition step_checkpoint :: "world \<Rightarrow> unit run" where
  "step_checkpoint w = stream_sweep_to_key w ''checkpoint'' (checkpoint_args [''hybrid'', ''full-pqc''] 2)"

definition step_checkpoint_v2 :: "world \<Rightarrow> unit run" where
  "step_checkpoint_v2 w = stream_sweep_to_key w ''checkpoint'' (checkpoint_args [''hybrid'', ''full-pqc'', ''hybrid-kex-pq''] 4)"

text \<open>\<^verbatim>\<open>str(k) for k in CHECKPOINT_KS if k\<close>\<close>

definition checkpoint_texts :: "string list" where
  "checkpoint_texts = concat (map (\<lambda>k. case k of None \<Rightarrow> [] | Some n \<Rightarrow> if n = 0 then [] else [nat_str n]) CHECKPOINT_KS)"

definition step_checkpoint_attacks :: "world \<Rightarrow> unit run" where
  "step_checkpoint_attacks w = run_then
     (run_cmd w [''-m'', ''threats.streaming_mitm_experiment'', ''--configs'', ''hybrid,full-pqc'',
        ''--strategies'', ''hash_chain'', ''--attacks'', ''drop,reorder,replay'', ''--trials'', ''5'', ''--max-tokens'', ''200'',
        ''--checkpoint-intervals'', join_commas checkpoint_texts, ''--port'', nat_str PORT] llama_env)
     (set_key ''checkpoint_attacks'' (JStr ''results/streaming/mitm/checkpoints/ (llama_cpp)''))"

definition step_control_2rt :: "world \<Rightarrow> unit run" where
  "step_control_2rt w = sweep_to_key w ''concurrency_control_2rt'' (sweep_defaults [''control-2rt''] [10, 100, 1000] 5 10 50)"

definition step_concurrency_supplement :: "world \<Rightarrow> unit run" where
  "step_concurrency_supplement w =
     sweep_to_key w ''concurrency_supplement'' (sweep_defaults [''control'', ''hybrid-kex''] [10, 100, 1000] 5 10 50)"

definition step_signing_diagnostic :: "world \<Rightarrow> unit run" where
  "step_signing_diagnostic w = run_then
     (run_cmd w [''-m'', ''validation.contention_check'', ''--n'', ''300'', ''--n-spaced'', ''100'',
        ''--out'', ''results/validation/contention_check.csv''] llama_env)
     (set_key ''signing_diagnostic'' (JStr ''results/validation/contention_check.csv''))"

definition step_concurrency_hkpq :: "world \<Rightarrow> unit run" where
  "step_concurrency_hkpq w =
     sweep_to_key w ''concurrency_hybrid_kex_pq'' (sweep_defaults [''hybrid-kex-pq''] [10, 100, 1000] 5 10 50)"

definition step_attack_campaign :: "world \<Rightarrow> unit run" where
  "step_attack_campaign w = run_then
     (run_cmd w [''-m'', ''threats.streaming_attack_campaign'', ''--configs'', join_commas PROTECTED_V2,
        ''--trials'', ''500'', ''--pool'', ''10'', ''--max-tokens'', ''100'', ''--port'', nat_str PORT,
        ''--output'', ''results/streaming/mitm/campaign.json''] llama_env)
     (set_key ''attack_campaign'' (JStr ''results/streaming/mitm/campaign.json''))"

definition step_key_substitution :: "world \<Rightarrow> unit run" where
  "step_key_substitution w = run_then
     (run_cmd w [''-m'', ''threats.key_substitution'', ''--configs'', join_commas PROTECTED_V2,
        ''--trials'', ''300'', ''--port'', nat_str PORT, ''--output'', ''results/mitm/key_substitution.json''] [])
     (set_key ''key_substitution'' (JStr ''results/mitm/key_substitution.json''))"

text \<open>Each configuration with and without authentication, in alternating order.\<close>

definition auth_pairs :: "(string \<times> bool) list" where
  "auth_pairs = concat (map (\<lambda>(i, cfg). map (Pair cfg) (if even i then [False, True] else [True, False]))
     (enumerate 0 PROTECTED_V2))"

definition step_auth_cost :: "world \<Rightarrow> unit run" where
  "step_auth_cost w = sweeps_to_list w ''auth_cost'' auth_pairs
     (\<lambda>(cfg, auth). (sweep_defaults [cfg] [10] 5 10 100) \<lparr> fa_auth_handshake := auth \<rparr>)
     (\<lambda>(cfg, auth) run_id. JObj [(''config'', JStr cfg), (''auth'', JBool auth), (''run_id'', run_id)])"

definition step_hndl_hkpq :: "world \<Rightarrow> unit run" where
  "step_hndl_hkpq w = run_then (step_threats w (Some [''hybrid-kex-pq''])) (step_streaming_hndl w (Some [''hybrid-kex-pq'']))"

definition STEPS :: "world \<Rightarrow> (int \<times> unit run) list" where
  "STEPS w = [(1, step_primitives w), (2, step_concurrency w), (3, step_payload w), (4, step_network w),
     (5, step_threats w None), (6, step_streaming w), (7, step_streaming_hndl w None), (8, step_streaming_mitm w),
     (9, step_checkpoint w), (10, step_checkpoint_attacks w), (11, step_amortization w),
     (12, step_concurrency_supplement w), (13, step_control_2rt w), (14, step_signing_diagnostic w),
     (15, step_concurrency_hkpq w), (16, step_streaming_v2 w), (17, step_checkpoint_v2 w), (18, step_attack_campaign w),
     (19, step_key_substitution w), (20, step_auth_cost w), (21, step_hndl_hkpq w)]"

section \<open>The driver\<close>

text \<open>
  \<^verbatim>\<open>n not in m["completed_steps"]\<close> and the append, inside the \<^verbatim>\<open>try\<close>. Python compares numbers
  across types, so \<^verbatim>\<open>5.0\<close> in a manifest file counts as step 5.
\<close>

definition json_is_int :: "int \<Rightarrow> json \<Rightarrow> bool" where
  "json_is_int n j = (case j of JInt i \<Rightarrow> i = n | JFloat r \<Rightarrow> r = of_int n | JBool b \<Rightarrow> n = (if b then 1 else 0) | _ \<Rightarrow> False)"

definition json_contains :: "json \<Rightarrow> int \<Rightarrow> bool res" where
  "json_contains j n = (case j of JList xs \<Rightarrow> Inr (list_ex (json_is_int n) xs) | JObj kvs \<Rightarrow> Inr False | _ \<Rightarrow> Inl TypeError)"

definition mark_completed :: "int \<Rightarrow> unit run" where
  "mark_completed n = run_then (set_default ''completed_steps'' (JList [])) (\<lambda>s.
     case bind_res (get_item (map_of (rs_manifest s)) ''completed_steps'') (\<lambda>j. json_contains j n) of
       Inl e \<Rightarrow> (Inl e, s)
     | Inr present \<Rightarrow> if present then (Inr (), s) else append_key ''completed_steps'' (JInt n) s)"

text \<open>One turn of the loop: the failed steps so far come in and go out.\<close>

definition run_step :: "world \<Rightarrow> int \<Rightarrow> int list \<Rightarrow> int list run" where
  "run_step w n failed = run_bind (run_lift (get_item (map_of (STEPS w)) n)) (\<lambda>fn.
     run_then (do_action w (BeginStep n)) (run_bind (run_try (run_then fn (mark_completed n))) (\<lambda>r.
       let failed' = (case r of Inl _ \<Rightarrow> failed @ [n] | Inr _ \<Rightarrow> failed) in
       run_then (set_key ''failed_steps'' (JList (map JInt failed')))
         (run_then (save_manifest w) (run_return failed')))))"

fun run_steps :: "world \<Rightarrow> int list \<Rightarrow> int list \<Rightarrow> int list run" where
  "run_steps w [] failed = run_return failed"
| "run_steps w (n # ns) failed = run_bind (run_step w n failed) (run_steps w ns)"

definition ARCHIVED_STEPS :: "int list" where
  "ARCHIVED_STEPS = [1, 5, 7, 8, 10, 18, 19, 21]"

definition prepare_run :: "world \<Rightarrow> int list \<Rightarrow> unit run" where
  "prepare_run w steps = run_bind (perform w Clock) (\<lambda>started. run_then (set_default ''started'' started)
     (run_bind (perform w CaptureEnvironment) (\<lambda>env. run_then (set_key ''environment'' env)
       (run_then (if list_ex (\<lambda>s. s \<in> set steps) ARCHIVED_STEPS
                  then run_bind (archive_results w) (set_key ''archive'') else run_return ())
         (save_manifest w)))))"

definition finish_run :: "world \<Rightarrow> bool \<Rightarrow> int list \<Rightarrow> int run" where
  "finish_run w no_figures failed = run_bind (perform w Clock) (\<lambda>finished. run_then (set_key ''finished'' finished)
     (run_then (save_manifest w)
       (run_then (if no_figures then run_return () else run_cmd w [''-m'', ''analysis.paper_figures''] [])
         (run_return (if failed \<noteq> [] then 1 else 0)))))"

definition paper_main :: "world \<Rightarrow> json res option \<Rightarrow> int list \<Rightarrow> bool \<Rightarrow> int res \<times> run_state" where
  "paper_main w file steps no_figures =
     (case load_manifest file of
        Inl e \<Rightarrow> (Inl e, \<lparr> rs_manifest = [], rs_trace = [] \<rparr>)
      | Inr m \<Rightarrow> run_then (prepare_run w steps) (run_bind (run_steps w steps []) (finish_run w no_figures))
          \<lparr> rs_manifest = m, rs_trace = [] \<rparr>)"

end
