(* ===== verification/PaperRunProperties.thy ===== *)
theory PaperRunProperties
  imports PaperRuns
begin

text \<open>
  What the driver of \<^verbatim>\<open>bench/paper_runs.py\<close> guarantees whatever its steps run into: the manifest
  accounts for every requested step, and no server or proxy it starts stays up.
\<close>

section \<open>Relations every computation keeps\<close>

definition related :: "(run_state \<Rightarrow> run_state \<Rightarrow> bool) \<Rightarrow> 'a run \<Rightarrow> bool" where
  "related R m \<longleftrightarrow> (\<forall>s. R s (snd (m s)))"

lemma relatedD: "related R m \<Longrightarrow> m s = (r, s') \<Longrightarrow> R s s'"
  by (metis related_def snd_conv)

text \<open>
  A preorder on states that no neutral action and no free key disturbs; the combinators of the
  driver keep it.
\<close>

locale run_relation =
  fixes R :: "run_state \<Rightarrow> run_state \<Rightarrow> bool" and neutral :: "run_action \<Rightarrow> bool" and free :: "string \<Rightarrow> bool"
  assumes R_refl: "R s s"
    and R_trans: "R s t \<Longrightarrow> R t u \<Longrightarrow> R s u"
    and R_action: "neutral act \<Longrightarrow> R s (s \<lparr> rs_trace := rs_trace s @ [(act, a)] \<rparr>)"
    and R_key: "free k \<Longrightarrow> R s (s \<lparr> rs_manifest := AList.update k v (rs_manifest s) \<rparr>)"
begin

lemma keeps_return: "related R (run_return x)"
  by (simp add: related_def run_return_def R_refl)

lemma keeps_lift: "related R (run_lift x)"
  by (simp add: related_def run_lift_def R_refl)

lemma keeps_bind: "related R m \<Longrightarrow> (\<And>x. related R (f x)) \<Longrightarrow> related R (run_bind m f)"
  by (auto simp: related_def run_bind_def split: prod.split sum.split) (metis R_trans snd_conv)+

lemma keeps_then: "related R m \<Longrightarrow> related R m' \<Longrightarrow> related R (run_then m m')"
  by (simp add: run_then_def keeps_bind)

lemma keeps_each: "(\<And>x. x \<in> set xs \<Longrightarrow> related R (f x)) \<Longrightarrow> related R (for_each xs f)"
  by (induction xs) (simp_all add: keeps_return keeps_then)

lemma keeps_finally: "related R m \<Longrightarrow> related R c \<Longrightarrow> related R (run_finally m c)"
  by (auto simp: related_def run_finally_def split: prod.split sum.split) (metis R_trans snd_conv)+

lemma keeps_try: "related R m \<Longrightarrow> related R (run_try m)"
  by (auto simp: related_def run_try_def split: prod.split) (metis snd_conv)

lemma keeps_perform: "neutral act \<Longrightarrow> related R (perform w act)"
  by (simp add: related_def perform_def Let_def R_action)

lemma keeps_action: "neutral act \<Longrightarrow> related R (do_action w act)"
  by (simp add: do_action_def keeps_then keeps_perform keeps_return)

lemma keeps_set: "free k \<Longrightarrow> related R (set_key k v)"
  by (simp add: related_def set_key_def R_key)

lemma keeps_default: "free k \<Longrightarrow> related R (set_default k v)"
  by (simp add: related_def set_default_def R_key R_refl split: option.split)

lemma keeps_append: "free k \<Longrightarrow> related R (append_key k v)"
  by (simp add: related_def append_key_def set_key_def R_key R_refl split: sum.split)

lemma keeps_save: "(\<And>m. neutral (SaveManifest m)) \<Longrightarrow> related R (save_manifest w)"
  using keeps_action [of "SaveManifest m" w for m] by (simp add: related_def save_manifest_def)

lemmas keeps_combinators = keeps_return keeps_lift keeps_bind keeps_then keeps_each keeps_finally keeps_try keeps_action
  keeps_perform keeps_set keeps_default keeps_append keeps_save

end

text \<open>
  A relation for the steps of the driver: sweeps, commands and the file system are neutral, the
  keys the steps write are free, and the threat step, which alone starts processes, keeps it.
\<close>

definition step_keys :: "string list" where
  "step_keys = [''primitives'', ''concurrency'', ''payload'', ''network'', ''threats'', ''streaming'', ''streaming_backend'',
     ''streaming_hndl'', ''streaming_mitm'', ''checkpoint'', ''checkpoint_attacks'', ''amortization'', ''concurrency_control_2rt'',
     ''concurrency_supplement'', ''signing_diagnostic'', ''concurrency_hybrid_kex_pq'', ''attack_campaign'', ''key_substitution'',
     ''auth_cost'', ''started'', ''environment'', ''archive'', ''finished'']"

definition starts_or_stops :: "run_action \<Rightarrow> bool" where
  "starts_or_stops act = (case act of LaunchServer _ \<Rightarrow> True | LaunchProxy _ \<Rightarrow> True | StopProcess _ \<Rightarrow> True | BeginStep _ \<Rightarrow> True | _ \<Rightarrow> False)"

lemma starts_or_stops_simps [simp]:
  "starts_or_stops (LaunchServer c)" "starts_or_stops (LaunchProxy t)" "starts_or_stops (StopProcess c)" "starts_or_stops (BeginStep n)"
  "\<not> starts_or_stops (RunCommand cmd env)" "\<not> starts_or_stops (FullSweep fa)" "\<not> starts_or_stops (StreamSweep sa)"
  "\<not> starts_or_stops (SetEnviron env)" "\<not> starts_or_stops (MakeDirs d)" "\<not> starts_or_stops WaitHealthy"
  "\<not> starts_or_stops (SaveManifest m)" "\<not> starts_or_stops Clock" "\<not> starts_or_stops CaptureEnvironment"
  "\<not> starts_or_stops (IsDir d)" "\<not> starts_or_stops (CopyTree a b)"
  by (simp_all add: starts_or_stops_def)

locale step_relation = run_relation +
  assumes neutral_action: "\<not> starts_or_stops act \<Longrightarrow> neutral act"
    and free_key: "k \<in> set step_keys \<Longrightarrow> free k"
    and threats_keep: "related R (threat_config w cfg)"
begin

lemma keeps_cmd: "related R (run_cmd w cmd env)"
  by (simp add: run_cmd_def keeps_action neutral_action)

lemma keeps_saved: "related R (save_manifest w)"
  by (simp add: keeps_save neutral_action)

lemma keeps_full_sweep: "related R (full_sweep w args)"
  unfolding full_sweep_def by (intro keeps_combinators neutral_action) simp

lemma keeps_sweep_to_key: "free k \<Longrightarrow> related R (sweep_to_key w k args)"
  unfolding sweep_to_key_def by (intro keeps_combinators keeps_full_sweep)

lemma keeps_sweeps: "free k \<Longrightarrow> related R (sweeps_to_list w k xs args entry)"
  unfolding sweeps_to_list_def by (intro keeps_combinators keeps_full_sweep neutral_action) simp_all

lemma keeps_stream_sweep: "free k \<Longrightarrow> related R (stream_sweep_to_key w k args)"
  unfolding stream_sweep_to_key_def by (intro keeps_combinators neutral_action) simp_all

lemma keeps_cmd_then_key: "free k \<Longrightarrow> related R (run_then (run_cmd w cmd env) (set_key k v))"
  by (intro keeps_combinators keeps_cmd)

lemma keeps_threats: "related R (step_threats w configs)"
  unfolding step_threats_def
  by (intro keeps_combinators neutral_action threats_keep free_key) (simp_all add: step_keys_def)

lemma keeps_step: "(n, fn) \<in> set (STEPS w) \<Longrightarrow> related R fn"
proof -
  have hndl: "related R (step_streaming_hndl w configs)" for configs
    unfolding step_streaming_hndl_def by (intro keeps_cmd_then_key free_key) (simp add: step_keys_def)
  have hkpq: "related R (step_hndl_hkpq w)"
    unfolding step_hndl_hkpq_def by (intro keeps_then keeps_threats hndl)
  have stream: "related R (step_streaming w)" "related R (step_streaming_v2 w)"
    unfolding step_streaming_def step_streaming_v2_def
    by (intro keeps_then keeps_stream_sweep keeps_set free_key; simp add: step_keys_def)+
  have keys: "free k" if "k \<in> set step_keys" for k using free_key that .
  assume "(n, fn) \<in> set (STEPS w)"
  then show ?thesis
    by (auto simp: STEPS_def keeps_threats hndl hkpq stream step_primitives_def step_concurrency_def step_payload_def
        step_network_def step_streaming_mitm_def step_checkpoint_def step_checkpoint_attacks_def step_amortization_def
        step_concurrency_supplement_def step_control_2rt_def step_signing_diagnostic_def step_concurrency_hkpq_def
        step_checkpoint_v2_def step_attack_campaign_def step_key_substitution_def step_auth_cost_def
        intro!: keeps_cmd_then_key keeps_sweep_to_key keeps_sweeps keeps_stream_sweep free_key)
      (simp_all add: step_keys_def)
qed

lemma keeps_prepare: "related R (prepare_run w steps)"
proof -
  have "related R (archive_results w)"
    unfolding archive_results_def Let_def by (intro keeps_combinators neutral_action) (auto intro!: keeps_action keeps_return neutral_action)
  then show ?thesis
    unfolding prepare_run_def
    by (intro keeps_combinators neutral_action free_key) (auto simp: step_keys_def intro!: keeps_bind keeps_set keeps_return free_key)
qed

lemma keeps_finish: "related R (finish_run w no_figures failed)"
  unfolding finish_run_def
  by (intro keeps_combinators neutral_action free_key) (auto simp: step_keys_def intro!: keeps_cmd keeps_return)

end

section \<open>Processes\<close>













section \<open>Bookkeeping\<close>

text \<open>The steps begun, in order, and the manifests written.\<close>

definition attempted :: "run_trace \<Rightarrow> int list" where
  "attempted tr = concat (map (\<lambda>(act, _). case act of BeginStep n \<Rightarrow> [n] | _ \<Rightarrow> []) tr)"

definition saved_manifests :: "run_trace \<Rightarrow> manifest list" where
  "saved_manifests tr = concat (map (\<lambda>(act, r). case (act, r) of (SaveManifest m, Inr _) \<Rightarrow> [m] | _ \<Rightarrow> []) tr)"

definition same_books :: "run_state \<Rightarrow> run_state \<Rightarrow> bool" where
  "same_books s s' \<longleftrightarrow> (\<exists>ext. rs_trace s' = rs_trace s @ ext \<and> attempted ext = []) \<and>
     (\<forall>k \<in> {''completed_steps'', ''failed_steps''}. map_of (rs_manifest s') k = map_of (rs_manifest s) k)"

definition no_step_action :: "run_action \<Rightarrow> bool" where
  "no_step_action act = (case act of BeginStep _ \<Rightarrow> False | _ \<Rightarrow> True)"

lemma attempted_simps [simp]:
  "attempted [] = []" "attempted (tr @ tr') = attempted tr @ attempted tr'"
  "attempted ((act, r) # tr) = (case act of BeginStep n \<Rightarrow> n # attempted tr | _ \<Rightarrow> attempted tr)"
  by (simp_all add: attempted_def split: run_action.split)

interpretation book_rel: run_relation same_books no_step_action "\<lambda>k. k \<in> set step_keys"
proof unfold_locales
  show "same_books s (s \<lparr> rs_trace := rs_trace s @ [(act, a)] \<rparr>)" if "no_step_action act" for act s a
    using that by (cases act) (simp_all add: same_books_def no_step_action_def)
  show "same_books s (s \<lparr> rs_manifest := AList.update k v (rs_manifest s) \<rparr>)" if "k \<in> set step_keys" for k s v
  proof -
    have "k \<noteq> ''completed_steps''" "k \<noteq> ''failed_steps''"
      using that by (auto simp: step_keys_def)
    then show ?thesis by (simp add: same_books_def update_conv')
  qed
  show "same_books s u" if st: "same_books s t" "same_books t u" for s t u
  proof -
    obtain e e' where "rs_trace t = rs_trace s @ e" "attempted e = []" "rs_trace u = rs_trace t @ e'" "attempted e' = []"
      using st unfolding same_books_def by blast
    then have "rs_trace u = rs_trace s @ e @ e' \<and> attempted (e @ e') = []" by simp
    then show ?thesis using st unfolding same_books_def by metis
  qed
qed (auto simp: same_books_def)

interpretation book_steps: step_relation same_books no_step_action "\<lambda>k. k \<in> set step_keys"
proof unfold_locales
  show "no_step_action act" if "\<not> starts_or_stops act" for act
    using that by (cases act) (simp_all add: no_step_action_def)
  show "related same_books (threat_config w cfg)" for w cfg
    unfolding threat_config_def mitm_target_def run_cmd_def
    by (intro book_rel.keeps_combinators) (simp_all add: no_step_action_def)
qed simp

definition completed :: "run_state \<Rightarrow> int \<Rightarrow> bool" where
  "completed s n \<longleftrightarrow> (\<exists>xs. map_of (rs_manifest s) ''completed_steps'' = Some (JList xs) \<and> list_ex (json_is_int n) xs)"

lemma same_books_completed: "same_books s s' \<Longrightarrow> completed s' n \<longleftrightarrow> completed s n"
  by (simp add: same_books_def completed_def)

lemma json_is_int_self [simp]: "json_is_int n (JInt n)"
  by (simp add: json_is_int_def)

lemma mark_completed_spec:
  assumes "mark_completed n s = (r, s')"
  shows "rs_trace s' = rs_trace s \<and> map_of (rs_manifest s') ''failed_steps'' = map_of (rs_manifest s) ''failed_steps'' \<and>
    (\<forall>k. completed s k \<longrightarrow> completed s' k) \<and> (\<forall>u. r = Inr u \<longrightarrow> completed s' n)"
proof (cases "map_of (rs_manifest s) ''completed_steps''")
  case None
  then have "r = Inr ()" "s' = s \<lparr> rs_manifest := AList.update ''completed_steps'' (JList [JInt n])
      (AList.update ''completed_steps'' (JList []) (rs_manifest s)) \<rparr>"
    using assms by (auto simp: mark_completed_def run_then_def run_bind_def set_default_def update_conv' json_contains_def
        append_key_def append_json_def set_key_def)
  then show ?thesis using None by (simp add: completed_def update_conv')
next
  case (Some j)
  then show ?thesis
    using assms
    by (cases j) (auto simp: mark_completed_def run_then_def run_bind_def set_default_def update_conv' json_contains_def
        append_key_def append_json_def set_key_def completed_def split: if_splits)
qed

lemma run_bind_InrE:
  assumes "run_bind m f s = (Inr y, s')"
  obtains x s1 where "m s = (Inr x, s1)" "f x s1 = (Inr y, s')"
  using assms by (auto simp: run_bind_def split: prod.splits sum.splits)

lemma run_then_InrE:
  assumes "run_then m m' s = (Inr y, s')"
  obtains x s1 where "m s = (Inr x, s1)" "m' s1 = (Inr y, s')"
  using assms unfolding run_then_def by (rule run_bind_InrE)

lemma do_action_Inr:
  "do_action w act s = (Inr u, s') \<Longrightarrow> s' = s \<lparr> rs_trace := rs_trace s @ [(act, w (rs_trace s) act)] \<rparr>"
  by (auto simp: do_action_def run_then_def run_bind_def perform_def Let_def run_return_def split: sum.splits)

lemma saved_snoc: "saved_manifests (tr @ [(act, r)]) =
    saved_manifests tr @ (case (act, r) of (SaveManifest m, Inr _) \<Rightarrow> [m] | _ \<Rightarrow> [])"
  by (simp add: saved_manifests_def)

lemma do_action_saved:
  "do_action w act s = (Inr u, s') \<Longrightarrow> saved_manifests (rs_trace s') =
     saved_manifests (rs_trace s) @ (case act of SaveManifest m \<Rightarrow> [m] | _ \<Rightarrow> [])"
  by (auto simp: do_action_def run_then_def run_bind_def perform_def Let_def run_return_def saved_snoc
      split: sum.splits run_action.split)

text \<open>The manifest on disk is the one in memory.\<close>

definition on_disk :: "run_state \<Rightarrow> bool" where
  "on_disk s \<longleftrightarrow> last (saved_manifests (rs_trace s)) = rs_manifest s"

lemma save_on_disk: "save_manifest w s = (Inr v, s') \<Longrightarrow> on_disk s'"
  unfolding save_manifest_def by (frule do_action_saved, drule do_action_Inr) (simp add: on_disk_def)

lemma prepare_on_disk:
  assumes "prepare_run w steps s = (Inr u, s')"
  shows "on_disk s'"
proof -
  obtain s0 where "save_manifest w s0 = (Inr u, s')"
    using assms unfolding prepare_run_def by (elim run_bind_InrE run_then_InrE) (rule that)
  then show ?thesis by (rule save_on_disk)
qed

text \<open>
  The state in which the driver came to its \<open>i\<close>-th step, read off the trace: what was done
  before, and the manifest then on disk. A step raises in a state when running it, or entering it
  in the manifest, ends in an exception there.
\<close>

fun before_step :: "nat \<Rightarrow> run_trace \<Rightarrow> run_trace" where
  "before_step i [] = []"
| "before_step i ((BeginStep n, r) # tr) = (case i of 0 \<Rightarrow> [] | Suc j \<Rightarrow> (BeginStep n, r) # before_step j tr)"
| "before_step i (x # tr) = x # before_step i tr"

definition state_at :: "nat \<Rightarrow> run_trace \<Rightarrow> run_state" where
  "state_at i tr = \<lparr> rs_manifest = last (saved_manifests (before_step i tr)), rs_trace = before_step i tr \<rparr>"

definition step_raises :: "world \<Rightarrow> int \<Rightarrow> run_state \<Rightarrow> bool" where
  "step_raises w n s = (case map_of (STEPS w) n of
       None \<Rightarrow> True
     | Some fn \<Rightarrow> isl (fst (run_then (do_action w (BeginStep n)) (run_then fn (mark_completed n)) s)))"

lemma before_step_prefix:
  "before_step (length (attempted tr)) (tr @ (BeginStep n, r) # ext) = tr"
proof (induction tr)
  case (Cons x tr)
  obtain act a where "x = (act, a)" by (cases x)
  then show ?case using Cons by (cases act) simp_all
qed simp

lemma state_at_begin:
  assumes "on_disk s"
  shows "state_at (length (attempted (rs_trace s))) (rs_trace s @ (BeginStep n, r) # ext) = s"
  using assms by (simp add: state_at_def before_step_prefix on_disk_def)

lemma run_step_spec:
  assumes "run_step w n failed s = (Inr failed', s')"
  shows "(\<exists>r ext. rs_trace s' = rs_trace s @ (BeginStep n, r) # ext \<and> attempted ext = [])"
    and "failed' = (if step_raises w n s then failed @ [n] else failed)" "on_disk s'"
    and "map_of (rs_manifest s') ''failed_steps'' = Some (JList (map JInt failed'))"
    and "completed s k \<Longrightarrow> completed s' k" "\<not> step_raises w n s \<Longrightarrow> completed s' n"
proof -
  obtain fn where fn: "map_of (STEPS w) n = Some fn"
    using assms by (cases "map_of (STEPS w) n") (auto simp: run_step_def run_bind_def run_lift_def)
  define s1 where "s1 = s \<lparr> rs_trace := rs_trace s @ [(BeginStep n, w (rs_trace s) (BeginStep n))] \<rparr>"
  obtain r1 s2 where b: "run_then fn (mark_completed n) s1 = (r1, s2)" by (cases "run_then fn (mark_completed n) s1")
  define s3 where "s3 = s2 \<lparr> rs_manifest := AList.update ''failed_steps'' (JList (map JInt failed')) (rs_manifest s2) \<rparr>"
  have turn: "run_then (do_action w (BeginStep n)) (run_bind (run_try (run_then fn (mark_completed n))) (\<lambda>r.
       let failed' = (case r of Inl _ \<Rightarrow> failed @ [n] | Inr _ \<Rightarrow> failed) in
       run_then (set_key ''failed_steps'' (JList (map JInt failed')))
         (run_then (save_manifest w) (run_return failed')))) s = (Inr failed', s')"
    using assms by (simp add: run_step_def run_bind_def run_lift_def fn)
  obtain u sa where sa: "do_action w (BeginStep n) s = (Inr u, sa)"
      "run_bind (run_try (run_then fn (mark_completed n))) (\<lambda>r.
       let failed' = (case r of Inl _ \<Rightarrow> failed @ [n] | Inr _ \<Rightarrow> failed) in
       run_then (set_key ''failed_steps'' (JList (map JInt failed')))
         (run_then (save_manifest w) (run_return failed'))) sa = (Inr failed', s')"
    using turn by (rule run_then_InrE)
  have sa1: "sa = s1"
    using do_action_Inr [OF sa(1)] by (simp add: s1_def)
  have tail: "run_then (set_key ''failed_steps'' (JList (map JInt (case r1 of Inl _ \<Rightarrow> failed @ [n] | Inr _ \<Rightarrow> failed))))
         (run_then (save_manifest w) (run_return (case r1 of Inl _ \<Rightarrow> failed @ [n] | Inr _ \<Rightarrow> failed))) s2 = (Inr failed', s')"
    using sa(2) unfolding sa1 run_bind_def run_try_def Let_def by (simp add: b)
  have raises: "step_raises w n s = isl r1"
    by (simp add: step_raises_def fn run_then_def [of "do_action w (BeginStep n)"] run_bind_def [of "do_action w (BeginStep n)"] sa(1) sa1 b)
  have f: "failed' = (case r1 of Inl _ \<Rightarrow> failed @ [n] | Inr _ \<Rightarrow> failed)"
    using tail by (auto elim!: run_then_InrE simp: run_return_def)
  obtain v where save: "save_manifest w s3 = (Inr v, s')"
    using tail unfolding f [symmetric]
    by (auto elim!: run_then_InrE simp: run_return_def set_key_def s3_def)
  then have s': "s' = s3 \<lparr> rs_trace := rs_trace s3 @ [(SaveManifest (rs_manifest s3), w (rs_trace s3) (SaveManifest (rs_manifest s3)))] \<rparr>"
    unfolding save_manifest_def by (rule do_action_Inr)
  obtain r0 s0 where b0: "fn s1 = (r0, s0)" by (cases "fn s1")
  have keep: "same_books s1 s0"
    by (rule relatedD [OF book_steps.keeps_step [OF map_of_SomeD [OF fn]] b0])
  obtain e0 where e0: "rs_trace s0 = rs_trace s1 @ e0" "attempted e0 = []"
    using keep by (auto simp: same_books_def)
  have body: "rs_trace s2 = rs_trace s0 \<and> (\<forall>k. completed s k \<longrightarrow> completed s2 k) \<and> (\<not> isl r1 \<longrightarrow> completed s2 n)"
  proof -
    have c: "completed s0 k \<longleftrightarrow> completed s k" for k
      using same_books_completed [OF keep] by (simp add: completed_def s1_def)
    show ?thesis
    proof (cases r0)
      case (Inl e)
      then show ?thesis using b b0 c by (auto simp: run_then_def run_bind_def)
    next
      case (Inr u)
      then have "mark_completed n s0 = (r1, s2)"
        using b b0 by (simp add: run_then_def run_bind_def)
      from mark_completed_spec [OF this] show ?thesis using c by (cases r1) simp_all
    qed
  qed
  have c3: "completed s' k \<longleftrightarrow> completed s2 k" for k
    by (simp add: s' s3_def completed_def update_conv')
  have "rs_trace s' = rs_trace s @ (BeginStep n, w (rs_trace s) (BeginStep n)) # e0 @
      [(SaveManifest (rs_manifest s3), w (rs_trace s3) (SaveManifest (rs_manifest s3)))]"
    using body e0(1) by (simp add: s' s3_def s1_def)
  then show "\<exists>r ext. rs_trace s' = rs_trace s @ (BeginStep n, r) # ext \<and> attempted ext = []"
    using e0(2) by fastforce
  show "map_of (rs_manifest s') ''failed_steps'' = Some (JList (map JInt failed'))"
    by (simp add: s' s3_def update_conv')
  show "on_disk s'" by (rule save_on_disk [OF save])
  show "failed' = (if step_raises w n s then failed @ [n] else failed)"
    using f raises by (cases r1) simp_all
  show "completed s k \<Longrightarrow> completed s' k" "\<not> step_raises w n s \<Longrightarrow> completed s' n"
    using body c3 raises by simp_all
qed

text \<open>The loop, from a state whose manifest is on disk: \<open>i\<close> steps were begun before.\<close>

lemma run_steps_spec:
  assumes "run_steps w ns failed s = (Inr failed', s')" "on_disk s"
  shows "\<exists>ext. rs_trace s' = rs_trace s @ ext \<and> attempted ext = ns \<and>
      (\<forall>more. failed' = failed @ map fst (filter (\<lambda>(n, i). step_raises w n (state_at i (rs_trace s' @ more)))
          (zip ns [length (attempted (rs_trace s))..<length (attempted (rs_trace s)) + length ns])) \<and>
        (\<forall>(n, i) \<in> set (zip ns [length (attempted (rs_trace s))..<length (attempted (rs_trace s)) + length ns]).
           \<not> step_raises w n (state_at i (rs_trace s' @ more)) \<longrightarrow> completed s' n))"
    and "ns \<noteq> [] \<longrightarrow> map_of (rs_manifest s') ''failed_steps'' = Some (JList (map JInt failed'))"
    and "completed s k \<Longrightarrow> completed s' k"
proof -
  have "(\<exists>ext. rs_trace s' = rs_trace s @ ext \<and> attempted ext = ns \<and>
      (\<forall>more. failed' = failed @ map fst (filter (\<lambda>(n, i). step_raises w n (state_at i (rs_trace s' @ more)))
          (zip ns [length (attempted (rs_trace s))..<length (attempted (rs_trace s)) + length ns])) \<and>
        (\<forall>(n, i) \<in> set (zip ns [length (attempted (rs_trace s))..<length (attempted (rs_trace s)) + length ns]).
           \<not> step_raises w n (state_at i (rs_trace s' @ more)) \<longrightarrow> completed s' n))) \<and>
    (ns \<noteq> [] \<longrightarrow> map_of (rs_manifest s') ''failed_steps'' = Some (JList (map JInt failed'))) \<and> (\<forall>k. completed s k \<longrightarrow> completed s' k)"
    using assms
  proof (induction ns arbitrary: failed s)
    case Nil
    then show ?case by (simp add: run_return_def)
  next
    case (Cons n ns)
    obtain f1 s1 where s1: "run_step w n failed s = (Inr f1, s1)" "run_steps w ns f1 s1 = (Inr failed', s')"
      using Cons.prems(1) by (auto elim: run_bind_InrE)
    let ?i = "length (attempted (rs_trace s))"
    obtain r e1 where e1: "rs_trace s1 = rs_trace s @ (BeginStep n, r) # e1" "attempted e1 = []"
      using run_step_spec(1) [OF s1(1)] by blast
    have i: "length (attempted (rs_trace s1)) = Suc ?i"
      using e1 by simp
    from Cons.IH [OF s1(2) run_step_spec(3) [OF s1(1)]] obtain ext where
        ext: "rs_trace s' = rs_trace s1 @ ext" "attempted ext = ns"
      and failed: "\<And>more. failed' = f1 @ map fst (filter (\<lambda>(n, i). step_raises w n (state_at i (rs_trace s' @ more)))
          (zip ns [Suc ?i..<Suc ?i + length ns]))"
      and completed: "\<And>more n i. (n, i) \<in> set (zip ns [Suc ?i..<Suc ?i + length ns]) \<Longrightarrow>
           \<not> step_raises w n (state_at i (rs_trace s' @ more)) \<Longrightarrow> completed s' n"
      and rest: "ns \<noteq> [] \<longrightarrow> map_of (rs_manifest s') ''failed_steps'' = Some (JList (map JInt failed'))" "\<And>k. completed s1 k \<Longrightarrow> completed s' k"
      unfolding i by blast
    have start: "state_at ?i (rs_trace s' @ more) = s" for more
      using state_at_begin [OF Cons.prems(2), of n r "e1 @ ext @ more"] by (simp add: e1(1) ext(1))
    have zip: "zip (n # ns) [?i..<?i + length (n # ns)] = (n, ?i) # zip ns [Suc ?i..<Suc ?i + length ns]"
      using upt_conv_Cons [of ?i "?i + length (n # ns)"] by (simp del: upt_Suc)
    have "failed' = failed @ map fst (filter (\<lambda>(n, i). step_raises w n (state_at i (rs_trace s' @ more))) (zip (n # ns) [?i..<?i + length (n # ns)]))" for more
      using failed [of more] run_step_spec(2) [OF s1(1)] unfolding zip by (simp add: start)
    moreover have "completed s' m" if "(m, i) \<in> set (zip (n # ns) [?i..<?i + length (n # ns)])"
        "\<not> step_raises w m (state_at i (rs_trace s' @ more))" for m i more
      using that completed run_step_spec(6) [OF s1(1)] rest(2) unfolding zip by (auto simp: start)
    moreover have "rs_trace s' = rs_trace s @ ((BeginStep n, r) # e1 @ ext) \<and> attempted ((BeginStep n, r) # e1 @ ext) = n # ns"
      using e1 ext by simp
    moreover have "map_of (rs_manifest s') ''failed_steps'' = Some (JList (map JInt failed'))"
      using run_step_spec(4) [OF s1(1)] rest(1) s1(2) by (cases "ns = []") (auto simp: run_return_def)
    moreover have "completed s' k" if "completed s k" for k
      using run_step_spec(5) [OF s1(1) that] rest(2) by blast
    ultimately show ?case by blast
  qed
  then show "\<exists>ext. rs_trace s' = rs_trace s @ ext \<and> attempted ext = ns \<and>
      (\<forall>more. failed' = failed @ map fst (filter (\<lambda>(n, i). step_raises w n (state_at i (rs_trace s' @ more)))
          (zip ns [length (attempted (rs_trace s))..<length (attempted (rs_trace s)) + length ns])) \<and>
        (\<forall>(n, i) \<in> set (zip ns [length (attempted (rs_trace s))..<length (attempted (rs_trace s)) + length ns]).
           \<not> step_raises w n (state_at i (rs_trace s' @ more)) \<longrightarrow> completed s' n))"
    "ns \<noteq> [] \<longrightarrow> map_of (rs_manifest s') ''failed_steps'' = Some (JList (map JInt failed'))"
    "completed s k \<Longrightarrow> completed s' k" by blast+
qed

section \<open>The properties\<close>

lemma finish_run_spec:
  assumes "finish_run w nf failed s = (Inr code, s')"
  shows "code = (if failed = [] then 0 else 1) \<and> last (saved_manifests (rs_trace s')) = rs_manifest s'"
proof -
  obtain fin s1 where p: "perform w Clock s = (Inr fin, s1)"
      and r: "run_then (set_key ''finished'' fin) (run_then (save_manifest w)
       (run_then (if nf then run_return () else run_cmd w [''-m'', ''analysis.paper_figures''] [])
         (run_return (if failed \<noteq> [] then 1 else 0)))) s1 = (Inr code, s')"
    using assms unfolding finish_run_def by (rule run_bind_InrE)
  obtain v s2 s3 u s4 where k: "set_key ''finished'' fin s1 = (Inr v, s2)" "save_manifest w s2 = (Inr v, s3)"
      "(if nf then run_return () else run_cmd w [''-m'', ''analysis.paper_figures''] []) s3 = (Inr u, s4)"
      "run_return (if failed \<noteq> [] then 1 else 0) s4 = (Inr code, s')"
    using r by (auto elim!: run_then_InrE)
  have "saved_manifests (rs_trace s3) = saved_manifests (rs_trace s2) @ [rs_manifest s2]" "rs_manifest s3 = rs_manifest s2"
    using do_action_saved [OF k(2) [unfolded save_manifest_def]] do_action_Inr [OF k(2) [unfolded save_manifest_def]] by simp_all
  moreover have "saved_manifests (rs_trace s4) = saved_manifests (rs_trace s3) \<and> rs_manifest s4 = rs_manifest s3"
    using k(3) do_action_saved do_action_Inr
    by (cases nf) (auto simp: run_return_def run_cmd_def dest!: do_action_saved [of w "RunCommand cmd env" for cmd env] do_action_Inr)
  ultimately show ?thesis using k(4) by (auto simp: run_return_def)
qed

text \<open>C28
  The driver accounts for every requested step, exactly. Whatever the steps run into, a run that
  comes to its end has begun the requested steps in order; the manifest's list of failed steps
  is the steps that raised, in order, each judged in the state in which the driver came to it; every
  requested step that did not raise is among the completed ones; the exit code is 1 exactly when
  some step raised; and the manifest on disk is the final one.
\<close>

theorem paper_run_accounts:
  assumes "paper_main w file steps no_figures = (Inr code, s)"
  shows "attempted (rs_trace s) = steps \<and> last (saved_manifests (rs_trace s)) = rs_manifest s \<and>
    (\<exists>failed. failed = map fst (filter (\<lambda>(n, i). step_raises w n (state_at i (rs_trace s))) (zip steps [0..<length steps])) \<and>
      code = (if failed = [] then 0 else 1) \<and>
      (steps = [] \<or> map_of (rs_manifest s) ''failed_steps'' = Some (JList (map JInt failed)))) \<and>
    (\<forall>i < length steps. step_raises w (steps ! i) (state_at i (rs_trace s)) \<or> completed s (steps ! i))"
proof -
  obtain m where m: "load_manifest file = Inr m"
      "run_then (prepare_run w steps) (run_bind (run_steps w steps []) (finish_run w no_figures))
         \<lparr> rs_manifest = m, rs_trace = [] \<rparr> = (Inr code, s)"
    using assms by (cases "load_manifest file") (simp_all add: paper_main_def)
  obtain u s1 failed s2 where r: "prepare_run w steps \<lparr> rs_manifest = m, rs_trace = [] \<rparr> = (Inr u, s1)"
      "run_steps w steps [] s1 = (Inr failed, s2)" "finish_run w no_figures failed s2 = (Inr code, s)"
    using m(2) by (auto elim!: run_then_InrE run_bind_InrE)
  have "same_books \<lparr> rs_manifest = m, rs_trace = [] \<rparr> s1"
    by (rule relatedD [OF book_steps.keeps_prepare r(1)])
  then have a1: "attempted (rs_trace s1) = []"
    by (auto simp: same_books_def)
  have books: "same_books s2 s"
    by (rule relatedD [OF book_steps.keeps_finish r(3)])
  then obtain e where e: "rs_trace s = rs_trace s2 @ e" "attempted e = []"
      "map_of (rs_manifest s) ''failed_steps'' = map_of (rs_manifest s2) ''failed_steps''"
    by (auto simp: same_books_def)
  note steps_spec = run_steps_spec [OF r(2) prepare_on_disk [OF r(1)], unfolded a1, simplified]
  obtain ext where ext: "rs_trace s2 = rs_trace s1 @ ext" "attempted ext = steps"
      "failed = map fst (filter (\<lambda>(n, i). step_raises w n (state_at i (rs_trace s))) (zip steps [0..<length steps]))"
      "\<forall>(n, i) \<in> set (zip steps [0..<length steps]). \<not> step_raises w n (state_at i (rs_trace s)) \<longrightarrow> completed s2 n"
    using steps_spec(1) unfolding e(1) by blast
  have "step_raises w (steps ! i) (state_at i (rs_trace s)) \<or> completed s (steps ! i)" if "i < length steps" for i
    using that ext(4) same_books_completed [OF books] by (force simp: set_zip)
  then show ?thesis
    using ext steps_spec(2) finish_run_spec [OF r(3)] a1 e by auto
qed

text \<open>Two steps, the second of which cannot reach its server: exit code 1.\<close>

definition wit_world :: world where
  "wit_world tr act = (case act of
     FullSweep args \<Rightarrow> (if fa_configs args = [''control-2rt''] then Inl RuntimeError else Inr (JList [JObj [(''run_id'', JStr ''r1'')]]))
   | Clock \<Rightarrow> Inr (JStr ''now'') | _ \<Rightarrow> Inr JNull)"

lemma paper_run_accounts_witness:
  "\<exists>s. paper_main wit_world None [12, 13] True = (Inr 1, s) \<and> attempted (rs_trace s) = [12, 13] \<and>
     last (saved_manifests (rs_trace s)) = rs_manifest s"
proof -
  have "fst (paper_main wit_world None [12, 13] True) = Inr 1"
    by (simp add: paper_main_def load_manifest_def prepare_run_def finish_run_def run_step_def STEPS_def step_concurrency_supplement_def
        step_control_2rt_def sweep_to_key_def full_sweep_def sweep_defaults_def run_then_def run_bind_def run_lift_def run_return_def
        run_try_def do_action_def perform_def Let_def wit_world_def set_key_def set_default_def append_key_def append_json_def
        save_manifest_def mark_completed_def json_contains_def first_run_id_def json_first_def json_field_def ARCHIVED_STEPS_def
        update_conv' get_item_def)
  then obtain s where s: "paper_main wit_world None [12, 13] True = (Inr 1, s)"
    by (cases "paper_main wit_world None [12, 13] True") simp
  then show ?thesis
    using paper_run_accounts [OF s] by blast
qed


end
