(* ===== verification/PrimitiveBench.thy ===== *)
theory PrimitiveBench
  imports SignatureCost
begin

text \<open>
  \<^verbatim>\<open>validation/primitive_bench.py\<close>: the micro-benchmark of the primitives, whose report the
  signature-cost model reads. A timed operation is a function of the number of the call; the clock
  readings around each call and the randomness of each operation are parameters, by the name of
  the operation. The square root of the standard deviation is a parameter.
\<close>

section \<open>Timing one operation\<close>

text \<open>Python's list subscript: a negative index counts from the end.\<close>

definition py_index :: "'a list \<Rightarrow> int \<Rightarrow> 'a res" where
  "py_index xs i =
     (if 0 \<le> i \<and> i < int (length xs) then Inr (xs ! nat i)
      else if i < 0 \<and> - int (length xs) \<le> i then Inr (xs ! nat (int (length xs) + i))
      else Inl IndexError)"

record op_timing =
  ot_iterations :: nat
  ot_mean_us :: rat
  ot_median_us :: rat
  ot_stdev_us :: rat
  ot_p95_us :: rat
  ot_p99_us :: rat
  ot_min_us :: rat
  ot_max_us :: rat
  ot_ops_per_second :: "rat option"

definition timing_stats :: "(rat \<Rightarrow> rat) \<Rightarrow> nat \<Rightarrow> rat list \<Rightarrow> op_timing res" where
  "timing_stats sqrt_f iterations elapsed =
     (let samples = sort elapsed; n = int (length samples) in
      if samples = [] then Inl ValueError else
      bind_res (py_index samples (n * 95 div 100 - 1)) (\<lambda>p95.
      bind_res (py_index samples (n * 99 div 100 - 1)) (\<lambda>p99.
      let mean_us = mean samples in
      Inr \<lparr> ot_iterations = iterations, ot_mean_us = mean_us, ot_median_us = median samples,
            ot_stdev_us = (if 1 < length samples then sqrt_f (variance samples) else 0), ot_p95_us = p95, ot_p99_us = p99,
            ot_min_us = hd samples, ot_max_us = last samples,
            ot_ops_per_second = (if 0 < mean_us then Some (1000000 / mean_us) else None) \<rparr>)))"

text \<open>The warm-up calls come first; an exception of any call ends the measurement.\<close>

definition time_op :: "(rat \<Rightarrow> rat) \<Rightarrow> (nat \<Rightarrow> unit res) \<Rightarrow> (nat \<Rightarrow> rat \<times> rat) \<Rightarrow> nat \<Rightarrow> nat \<Rightarrow> op_timing res" where
  "time_op sqrt_f fn clk iterations warmup =
     bind_res (map_res fn [0..<warmup]) (\<lambda>_.
     bind_res (map_res (\<lambda>i. bind_res (fn (warmup + i)) (\<lambda>_. Inr ((snd (clk i) - fst (clk i)) * 1000000))) [0..<iterations])
       (timing_stats sqrt_f iterations))"

section \<open>The operations\<close>

definition MESSAGE :: bytes where
  "MESSAGE = encode ''pq-shield primitive benchmark message''"

text \<open>The result of a timed call is dropped.\<close>

definition drop_value :: "'a res \<Rightarrow> unit res" where
  "drop_value r = map_sum id (\<lambda>_. ()) r"

type_synonym timings = "(string \<times> op_timing) list"

record bench_env =
  be_rng :: "string \<Rightarrow> rng"
  be_clock :: "string \<times> string \<Rightarrow> nat \<Rightarrow> rat \<times> rat"
  be_sqrt :: "rat \<Rightarrow> rat"

text \<open>
  The entries of a dictionary display, evaluated in order; the clock readings of an entry are those of
  its operation in its group.
\<close>

definition timed_entry :: "bench_env \<Rightarrow> string \<Rightarrow> nat \<Rightarrow> nat \<Rightarrow> string \<times> (nat \<Rightarrow> unit res) \<Rightarrow> (string \<times> op_timing) res" where
  "timed_entry env grp iterations warmup entry =
     bind_res (time_op (be_sqrt env) (snd entry) (be_clock env (grp, fst entry)) iterations warmup) (\<lambda>t. Inr (fst entry, t))"

definition bench_ml_kem_768 :: "prims \<Rightarrow> bench_env \<Rightarrow> nat \<Rightarrow> timings res" where
  "bench_ml_kem_768 P env iterations =
     bind_res (MLKEM768_keypair P (be_rng env ''kem'' 0)) (\<lambda>kp.
     bind_res (MLKEM768_encaps P (be_rng env ''kem'' 1) (kp_public_key kp)) (\<lambda>(ct, _).
     map_res (timed_entry env ''ml_kem_768'' iterations 10)
       [(''keygen'', \<lambda>i. drop_value (MLKEM768_keypair P (be_rng env ''kem keygen'' i))),
        (''encaps'', \<lambda>i. drop_value (MLKEM768_encaps P (be_rng env ''kem encaps'' i) (kp_public_key kp))),
        (''decaps'', \<lambda>i. drop_value (MLKEM768_decaps P ct (kp_secret_key kp)))]))"

definition bench_ml_dsa_65 :: "prims \<Rightarrow> bench_env \<Rightarrow> nat \<Rightarrow> timings res" where
  "bench_ml_dsa_65 P env iterations =
     bind_res (MLDSA65_keypair P (be_rng env ''dsa'' 0)) (\<lambda>kp.
     bind_res (MLDSA65_sign P (be_rng env ''dsa'' 1) MESSAGE (sp_secret_key kp)) (\<lambda>sg.
     map_res (timed_entry env ''ml_dsa_65'' iterations 10)
       [(''keygen'', \<lambda>i. drop_value (MLDSA65_keypair P (be_rng env ''dsa keygen'' i))),
        (''sign'', \<lambda>i. drop_value (MLDSA65_sign P (be_rng env ''dsa sign'' i) MESSAGE (sp_secret_key kp))),
        (''verify'', \<lambda>i. drop_value (MLDSA65_verify P MESSAGE sg (sp_public_key kp)))]))"

definition or_value_error :: "'a option \<Rightarrow> 'a res" where
  "or_value_error x = (case x of None \<Rightarrow> Inl ValueError | Some v \<Rightarrow> Inr v)"

text \<open>\<^verbatim>\<open>keygen_iterations or max(50, iterations // 10)\<close>\<close>

definition keygen_count :: "nat option \<Rightarrow> nat \<Rightarrow> nat" where
  "keygen_count keygen_iterations iterations =
     (case keygen_iterations of None \<Rightarrow> max 50 (iterations div 10) | Some n \<Rightarrow> if n = 0 then max 50 (iterations div 10) else n)"

text \<open>\<open>_ec_verify\<close> swallows every exception, so its timed call cannot fail.\<close>

definition bench_classical :: "prims \<Rightarrow> bench_env \<Rightarrow> nat \<Rightarrow> nat option \<Rightarrow> timings res" where
  "bench_classical P env iterations keygen_iterations =
     (let rsa_key = rsa_generate P (be_rng env ''classical'' 0);
          secret = urandom (be_rng env ''classical'' 1) 32;
          x_key = x_generate P (be_rng env ''classical'' 3);
          x_peer = x_public_raw P (x_generate P (be_rng env ''classical'' 4));
          ec_key = ec_generate P (be_rng env ''classical'' 5);
          ec_sig = ec_sign P (be_rng env ''classical'' 6) ec_key MESSAGE in
      bind_res (rsa_encrypt P (be_rng env ''classical'' 2) (rsa_public_der P rsa_key) secret) (\<lambda>rsa_ct.
      bind_res (timed_entry env ''classical'' (keygen_count keygen_iterations iterations) 1
        (''rsa2048_keygen'', \<lambda>i. drop_value (Inr (rsa_generate P (be_rng env ''rsa keygen'' i))))) (\<lambda>first.
      bind_res (map_res (timed_entry env ''classical'' iterations 10)
       [(''rsa2048_oaep_encrypt'', \<lambda>i. drop_value (rsa_encrypt P (be_rng env ''rsa encrypt'' i) (rsa_public_der P rsa_key) secret)),
        (''rsa2048_oaep_decrypt'', \<lambda>i. drop_value (or_value_error (rsa_decrypt P rsa_key rsa_ct))),
        (''ecdsa_p256_keygen'', \<lambda>i. drop_value (Inr (ec_generate P (be_rng env ''ec keygen'' i)))),
        (''ecdsa_p256_sign'', \<lambda>i. drop_value (Inr (ec_sign P (be_rng env ''ec sign'' i) ec_key MESSAGE))),
        (''ecdsa_p256_verify'', \<lambda>i. drop_value (Inr (ec_verify P (ec_public_der P ec_key) ec_sig MESSAGE))),
        (''x25519_keygen'', \<lambda>i. drop_value (Inr (x_generate P (be_rng env ''x keygen'' i)))),
        (''x25519_exchange'', \<lambda>i. drop_value (or_value_error (x_exchange P x_key x_peer)))]) (\<lambda>rest.
      Inr (first # rest)))))"

section \<open>The first signature of a fresh process\<close>

definition locate_oqs_lib_for_subprocess :: "string option \<Rightarrow> (string \<Rightarrow> bool) \<Rightarrow> string \<Rightarrow> string" where
  "locate_oqs_lib_for_subprocess override isfile here =
     (case override of
        Some (c # cs) \<Rightarrow> c # cs
      | _ \<Rightarrow> (case List.find isfile (map (\<lambda>candidate. path_join (path_join (path_join here ''oqs-prefix'') ''lib'') candidate)
                 [''liboqs.so'', ''liboqs.dylib'']) of
               None \<Rightarrow> '''' | Some path \<Rightarrow> path))"

record cold_timing_stats =
  ct_n_processes :: nat
  ct_message_bytes :: nat
  ct_mean_ms :: rat
  ct_median_ms :: rat
  ct_min_ms :: rat
  ct_max_ms :: rat
  ct_samples_ms :: "rat list"

text \<open>Each process: its return code and what its standard output parses to.\<close>

definition cold_samples :: "(nat \<Rightarrow> int \<times> rat res) \<Rightarrow> nat \<Rightarrow> rat list res" where
  "cold_samples runs n_processes = map_res (\<lambda>i. if fst (runs i) \<noteq> 0 then Inl RuntimeError else snd (runs i)) [0..<n_processes]"

definition cold_stats_of :: "nat \<Rightarrow> rat list \<Rightarrow> cold_timing_stats res" where
  "cold_stats_of message_bytes samples =
     (if samples = [] then Inl ValueError else
      Inr \<lparr> ct_n_processes = length samples, ct_message_bytes = message_bytes, ct_mean_ms = mean samples,
            ct_median_ms = median samples, ct_min_ms = Min (set samples), ct_max_ms = Max (set samples), ct_samples_ms = samples \<rparr>)"

definition bench_cold_start_signing ::
  "(string \<Rightarrow> nat \<Rightarrow> int \<times> rat res) \<Rightarrow> nat \<Rightarrow> nat \<Rightarrow> (string \<times> cold_timing_stats) list res" where
  "bench_cold_start_signing runs n_processes message_bytes =
     bind_res (cold_samples (runs ''ecdsa_p256_sign'') n_processes) (\<lambda>ecdsa_samples.
     bind_res (cold_samples (runs ''ml_dsa_65_sign'') n_processes) (\<lambda>ml_dsa_samples.
     bind_res (cold_stats_of message_bytes ecdsa_samples) (\<lambda>ecdsa.
     bind_res (cold_stats_of message_bytes ml_dsa_samples) (\<lambda>ml_dsa.
     Inr [(''ecdsa_p256_sign'', ecdsa), (''ml_dsa_65_sign'', ml_dsa)]))))"

section \<open>Orderings and calibration\<close>

record ordering_check =
  oc_claim :: string
  oc_holds :: bool
  oc_evidence :: "(string \<times> rat option) list"

definition ratio_or_none :: "rat \<Rightarrow> rat \<Rightarrow> rat option" where
  "ratio_or_none a b = (if b \<noteq> 0 then Some (a / b) else None)"

definition check_orderings :: "timings \<Rightarrow> timings \<Rightarrow> timings \<Rightarrow> ordering_check list res" where
  "check_orderings kem sg classical =
     bind_res (get_item (map_of sg) ''verify'') (\<lambda>verify.
     bind_res (get_item (map_of sg) ''sign'') (\<lambda>sign.
     bind_res (get_item (map_of kem) ''keygen'') (\<lambda>keygen.
     bind_res (get_item (map_of classical) ''rsa2048_keygen'') (\<lambda>rsa.
     bind_res (get_item (map_of classical) ''ecdsa_p256_verify'') (\<lambda>ecdsa.
     Inr [\<lparr> oc_claim = ''ML-DSA-65 verification is faster than ML-DSA-65 signing'',
            oc_holds = ot_mean_us verify < ot_mean_us sign,
            oc_evidence = [(''ml_dsa_65_sign_mean_us'', Some (ot_mean_us sign)), (''ml_dsa_65_verify_mean_us'', Some (ot_mean_us verify)),
              (''sign_p99_us'', Some (ot_p99_us sign)), (''sign_p99_over_median'', ratio_or_none (ot_p99_us sign) (ot_median_us sign))] \<rparr>,
          \<lparr> oc_claim = ''ML-KEM-768 key generation is faster than RSA-2048 key generation'',
            oc_holds = ot_mean_us keygen < ot_mean_us rsa,
            oc_evidence = [(''ml_kem_768_keygen_mean_us'', Some (ot_mean_us keygen)), (''rsa2048_keygen_mean_us'', Some (ot_mean_us rsa)),
              (''speedup_factor'', ratio_or_none (ot_mean_us rsa) (ot_mean_us keygen)),
              (''speedup_factor_median'', ratio_or_none (ot_median_us rsa) (ot_median_us keygen)),
              (''rsa2048_keygen_iterations'', Some (of_nat (ot_iterations rsa)))] \<rparr>,
          \<lparr> oc_claim = ''ML-DSA-65 verification is not slower than ECDSA P-256 verification (H4)'',
            oc_holds = ot_mean_us verify \<le> ot_mean_us ecdsa,
            oc_evidence = [(''ml_dsa_65_verify_mean_us'', Some (ot_mean_us verify)), (''ecdsa_p256_verify_mean_us'', Some (ot_mean_us ecdsa)),
              (''ratio_mldsa_over_ecdsa'', ratio_or_none (ot_mean_us verify) (ot_mean_us ecdsa))] \<rparr>])))))"

record calibration_row =
  cr_algorithm :: string
  cr_operation :: string
  cr_this_host_ops_per_second :: "rat option"
  cr_published_platform :: string
  cr_published_ops_per_second :: rat
  cr_relative_speed :: "rat option"

definition calibration_row_of :: "timings \<Rightarrow> published_throughput \<Rightarrow> calibration_row list res" where
  "calibration_row_of kem pub =
     (case map_of kem (pt_operation pub) of
        None \<Rightarrow> Inr []
      | Some t \<Rightarrow>
          bind_res (if pt_ops_per_second pub = 0 then Inr None
                    else case ot_ops_per_second t of None \<Rightarrow> Inl TypeError | Some speed \<Rightarrow> Inr (Some (speed / pt_ops_per_second pub)))
          (\<lambda>speed. Inr [\<lparr> cr_algorithm = pt_algorithm pub, cr_operation = pt_operation pub,
             cr_this_host_ops_per_second = ot_ops_per_second t, cr_published_platform = pt_platform pub,
             cr_published_ops_per_second = pt_ops_per_second pub, cr_relative_speed = speed \<rparr>]))"

definition calibration_vs_published :: "timings \<Rightarrow> calibration_row list res" where
  "calibration_vs_published kem = map_sum id concat (map_res (calibration_row_of kem) PUBLISHED_THROUGHPUT)"

section \<open>The report\<close>

record bench_report =
  br_iterations :: nat
  br_ml_kem_768 :: timings
  br_ml_dsa_65 :: timings
  br_classical :: timings
  br_orderings :: "ordering_check list"
  br_calibration :: "calibration_row list"
  br_cold_start :: "(string \<times> cold_timing_stats) list option"

definition run_primitive_bench ::
  "prims \<Rightarrow> bench_env \<Rightarrow> (string \<Rightarrow> nat \<Rightarrow> int \<times> rat res) \<Rightarrow> nat \<Rightarrow> nat \<Rightarrow> nat option \<Rightarrow> bench_report res" where
  "run_primitive_bench P env runs iterations cold_start_processes rsa_keygen_iterations =
     bind_res (bench_ml_kem_768 P env iterations) (\<lambda>kem.
     bind_res (bench_ml_dsa_65 P env iterations) (\<lambda>sg.
     bind_res (bench_classical P env iterations rsa_keygen_iterations) (\<lambda>classical.
     bind_res (check_orderings kem sg classical) (\<lambda>checks.
     bind_res (calibration_vs_published kem) (\<lambda>calibration.
     bind_res (if 0 < cold_start_processes then map_sum id Some (bench_cold_start_signing runs cold_start_processes 2500) else Inr None) (\<lambda>cold.
     Inr \<lparr> br_iterations = iterations, br_ml_kem_768 = kem, br_ml_dsa_65 = sg, br_classical = classical,
           br_orderings = checks, br_calibration = calibration, br_cold_start = cold \<rparr>))))))"

text \<open>The report as \<^verbatim>\<open>analysis/streaming_model_validation.py\<close> reads it back.\<close>

definition stats_read :: "op_timing \<Rightarrow> op_stats" where
  "stats_read t = \<lparr> os_mean_us = ot_mean_us t, os_median_us = ot_median_us t, os_p99_us = ot_p99_us t \<rparr>"

definition report_table :: "bench_report \<Rightarrow> bench_table" where
  "report_table rep = \<lparr>
     bt_stats = (\<lambda>(grp, op). map_option stats_read (map_of
       (if grp = ''ml_kem_768'' then br_ml_kem_768 rep else if grp = ''ml_dsa_65'' then br_ml_dsa_65 rep
        else if grp = ''classical'' then br_classical rep else []) op)),
     bt_cold_start = map_option (\<lambda>cold key. map_option (\<lambda>c. \<lparr> os_mean_ms = ct_mean_ms c, os_max_ms = ct_max_ms c \<rparr>) (map_of cold key))
       (br_cold_start rep) \<rparr>"

section \<open>What a measurement yields\<close>

lemma py_index_sorted:
  assumes "sorted xs" "int j \<le> i" "i < int (length xs)"
  shows "\<exists>x. py_index xs i = Inr x \<and> xs ! j \<le> (x :: rat)"
proof -
  have "0 \<le> i" "nat i < length xs" "j \<le> nat i" using assms(2,3) by linarith+
  then show ?thesis using assms by (auto simp: py_index_def intro: sorted_nth_mono)
qed

lemma sum_list_positive: "(\<And>x. x \<in> set xs \<Longrightarrow> 0 < (x :: rat)) \<Longrightarrow> xs \<noteq> [] \<Longrightarrow> 0 < sum_list xs"
proof (induction xs)
  case (Cons x xs)
  then show ?case by (cases "xs = []") (simp_all add: add_pos_pos)
qed simp

text \<open>From three samples on, the 99th percentile by nearest rank is not below the median.\<close>

lemma timing_stats_ok:
  assumes "3 \<le> length elapsed" "\<And>x. x \<in> set elapsed \<Longrightarrow> 0 < x"
  shows "\<exists>t. timing_stats sqrt_f n elapsed = Inr t \<and> 0 < ot_mean_us t \<and> 0 < ot_median_us t \<and> ot_median_us t \<le> ot_p99_us t \<and>
    ot_ops_per_second t = Some (1000000 / ot_mean_us t)"
proof -
  let ?s = "sort elapsed" and ?n = "int (length elapsed)"
  have s: "sorted ?s" "length ?s = length elapsed" by simp_all
  have pos: "0 < ?s ! i" if "i < length elapsed" for i
    using assms(2) [of "?s ! i"] nth_mem [of i ?s] that by simp
  have ne: "elapsed \<noteq> []" using assms(1) by auto
  have sne: "?s \<noteq> []" using ne by (metis length_0_conv length_sort)
  have b: "int (length elapsed div 2) \<le> ?n * 99 div 100 - 1" "?n * 99 div 100 - 1 < ?n"
      "0 \<le> ?n * 95 div 100 - 1" "?n * 95 div 100 - 1 < ?n"
    using assms(1) by linarith+
  obtain p99 where p99: "py_index ?s (?n * 99 div 100 - 1) = Inr p99" "?s ! (length elapsed div 2) \<le> p99"
    using py_index_sorted [OF s(1) b(1)] b(2) by auto
  obtain p95 where p95: "py_index ?s (?n * 95 div 100 - 1) = Inr p95"
    using py_index_sorted [OF s(1), of 0 "?n * 95 div 100 - 1"] b(3,4) by auto
  have half: "length elapsed div 2 < length elapsed" using assms(1) by linarith
  have half': "length elapsed div 2 - 1 < length elapsed" using half by linarith
  have ss: "sort ?s = ?s" by (rule sorted_sort_id) simp
  have med: "median ?s \<le> ?s ! (length elapsed div 2)" "0 < median ?s"
    using sorted_nth_mono [OF s(1), of "length elapsed div 2 - 1" "length elapsed div 2"] half
      pos [OF half] pos [OF half']
    by (auto simp: median_def Let_def ss)
  have "0 < sum_list ?s"
    using assms(2) ne sne by (intro sum_list_positive) auto
  then have "0 < mean ?s"
    using ne by (simp add: mean_def)
  then show ?thesis
    using p95 p99 med ne sne by (auto simp: timing_stats_def Let_def)
qed

end
