(* ===== verification/BenchmarkProperties.thy ===== *)
theory BenchmarkProperties
  imports PrimitiveBench CostProperties
begin

text \<open>
  The micro-benchmark with a correct library: its report is complete, and it is the table the
  signature-cost model expects.
\<close>

text \<open>A clock that advances during every timed call.\<close>

definition clock_advances :: "bench_env \<Rightarrow> bool" where
  "clock_advances env \<longleftrightarrow> (\<forall>op i. fst (be_clock env op i) < snd (be_clock env op i))"

definition timing_good :: "op_timing \<Rightarrow> bool" where
  "timing_good t \<longleftrightarrow> 0 < ot_mean_us t \<and> 0 < ot_median_us t \<and> ot_median_us t \<le> ot_p99_us t \<and> ot_ops_per_second t \<noteq> None"

lemma timed_entry_ok:
  assumes "clock_advances env" "3 \<le> iterations" "\<And>i. snd entry i = Inr ()"
  shows "\<exists>t. timed_entry env grp iterations warmup entry = Inr (fst entry, t) \<and> timing_good t"
proof -
  let ?clk = "be_clock env (grp, fst entry)"
  let ?el = "map (\<lambda>i. (snd (?clk i) - fst (?clk i)) * 1000000) [0..<iterations]"
  have w: "map_res (snd entry) [0..<warmup] = Inr (map (\<lambda>_. ()) [0..<warmup])"
    by (rule map_res_Inr) (simp add: assms(3))
  have e: "map_res (\<lambda>i. bind_res (snd entry (warmup + i)) (\<lambda>_. Inr ((snd (?clk i) - fst (?clk i)) * 1000000))) [0..<iterations] = Inr ?el"
    by (rule map_res_Inr) (simp add: assms(3))
  have "\<exists>t. timing_stats (be_sqrt env) iterations ?el = Inr t \<and> 0 < ot_mean_us t \<and> 0 < ot_median_us t \<and>
      ot_median_us t \<le> ot_p99_us t \<and> ot_ops_per_second t = Some (1000000 / ot_mean_us t)"
    by (rule timing_stats_ok) (use assms(1,2) in \<open>auto simp: clock_advances_def\<close>)
  then obtain t where "timing_stats (be_sqrt env) iterations ?el = Inr t" "timing_good t"
    by (auto simp only: timing_good_def)
  then show ?thesis
    unfolding timed_entry_def time_op_def w e bind_res_simps by simp
qed

lemma timed_entries_ok:
  assumes "clock_advances env" "3 \<le> iterations" "\<And>entry i. entry \<in> set entries \<Longrightarrow> snd entry i = Inr ()"
  shows "\<exists>ts. map_res (timed_entry env grp iterations warmup) entries = Inr ts \<and> map fst ts = map fst entries \<and> (\<forall>x \<in> set ts. timing_good (snd x))"
  using assms(3)
proof (induction entries)
  case (Cons entry entries)
  obtain t where "timed_entry env grp iterations warmup entry = Inr (fst entry, t)" "timing_good t"
    using timed_entry_ok [OF assms(1,2), of entry grp warmup] Cons.prems by auto
  moreover obtain ts where "map_res (timed_entry env grp iterations warmup) entries = Inr ts" "map fst ts = map fst entries"
      "\<forall>x \<in> set ts. timing_good (snd x)"
    using Cons by auto
  ultimately show ?case by auto
qed simp

text \<open>A dictionary of timings with the given keys, every one good.\<close>

definition complete_timings :: "string list \<Rightarrow> timings \<Rightarrow> bool" where
  "complete_timings ops ts \<longleftrightarrow> map fst ts = ops \<and> (\<forall>x \<in> set ts. timing_good (snd x))"

lemma complete_lookup:
  assumes "complete_timings ops ts" "op \<in> set ops"
  obtains t where "map_of ts op = Some t" "timing_good t"
proof -
  have "op \<in> fst ` set ts" using assms by (auto simp: complete_timings_def)
  then obtain t where t: "map_of ts op = Some t" by (metis map_of_eq_None_iff not_Some_eq)
  then have "timing_good t" using assms(1) map_of_SomeD [OF t] by (auto simp: complete_timings_def)
  with t show ?thesis using that by blast
qed

lemma drop_value_Inr [simp]: "drop_value (Inr x) = Inr ()"
  by (simp add: drop_value_def)

lemma bench_kem_ok:
  assumes "kem_ok P" "clock_advances env" "3 \<le> iterations"
  shows "\<exists>ts. bench_ml_kem_768 P env iterations = Inr ts \<and> complete_timings [''keygen'', ''encaps'', ''decaps''] ts"
proof -
  obtain kp where kp: "MLKEM768_keypair P (be_rng env ''kem'' 0) = Inr kp"
    by (rule MLKEM768_keypair_ok [OF assms(1)])
  have enc: "\<exists>ct ss. MLKEM768_encaps P t (kp_public_key kp) = Inr (ct, ss) \<and> MLKEM768_decaps P ct (kp_secret_key kp) = Inr ss" for t
    by (rule MLKEM768_agree [OF assms(1) kp]) blast
  obtain ct ss where ct: "MLKEM768_encaps P (be_rng env ''kem'' 1) (kp_public_key kp) = Inr (ct, ss)"
      "MLKEM768_decaps P ct (kp_secret_key kp) = Inr ss"
    using enc by blast
  have gen: "drop_value (MLKEM768_keypair P t) = Inr ()" for t
    by (rule MLKEM768_keypair_ok [OF assms(1), of t]) simp
  have "drop_value (MLKEM768_encaps P t (kp_public_key kp)) = Inr ()" for t
    using enc [of t] by auto
  then show ?thesis
    using timed_entries_ok [OF assms(2,3), of "[(''keygen'', \<lambda>i. drop_value (MLKEM768_keypair P (be_rng env ''kem keygen'' i))),
        (''encaps'', \<lambda>i. drop_value (MLKEM768_encaps P (be_rng env ''kem encaps'' i) (kp_public_key kp))),
        (''decaps'', \<lambda>i. drop_value (MLKEM768_decaps P ct (kp_secret_key kp)))]" "''ml_kem_768''" 10] gen ct
    by (fastforce simp: bench_ml_kem_768_def kp complete_timings_def)
qed

lemma bench_dsa_ok:
  assumes "dsa_ok P" "clock_advances env" "3 \<le> iterations"
  shows "\<exists>ts. bench_ml_dsa_65 P env iterations = Inr ts \<and> complete_timings [''keygen'', ''sign'', ''verify''] ts"
proof -
  obtain kp where kp: "MLDSA65_keypair P (be_rng env ''dsa'' 0) = Inr kp"
    by (rule MLDSA65_keypair_ok [OF assms(1)])
  have sign: "\<exists>sg. MLDSA65_sign P t MESSAGE (sp_secret_key kp) = Inr sg \<and> MLDSA65_verify P MESSAGE sg (sp_public_key kp) = Inr True" for t
    by (rule MLDSA65_sign_verify [OF assms(1) kp]) blast
  obtain sg where sg: "MLDSA65_sign P (be_rng env ''dsa'' 1) MESSAGE (sp_secret_key kp) = Inr sg"
      "MLDSA65_verify P MESSAGE sg (sp_public_key kp) = Inr True"
    using sign by blast
  have gen: "drop_value (MLDSA65_keypair P t) = Inr ()" for t
    by (rule MLDSA65_keypair_ok [OF assms(1), of t]) simp
  have "drop_value (MLDSA65_sign P t MESSAGE (sp_secret_key kp)) = Inr ()" for t
    using sign [of t] by auto
  then show ?thesis
    using timed_entries_ok [OF assms(2,3), of "[(''keygen'', \<lambda>i. drop_value (MLDSA65_keypair P (be_rng env ''dsa keygen'' i))),
        (''sign'', \<lambda>i. drop_value (MLDSA65_sign P (be_rng env ''dsa sign'' i) MESSAGE (sp_secret_key kp))),
        (''verify'', \<lambda>i. drop_value (MLDSA65_verify P MESSAGE sg (sp_public_key kp)))]" "''ml_dsa_65''" 10] gen sg
    by (fastforce simp: bench_ml_dsa_65_def kp complete_timings_def)
qed

definition CLASSICAL_OPS :: "string list" where
  "CLASSICAL_OPS = [''rsa2048_keygen'', ''rsa2048_oaep_encrypt'', ''rsa2048_oaep_decrypt'', ''ecdsa_p256_keygen'', ''ecdsa_p256_sign'',
     ''ecdsa_p256_verify'', ''x25519_keygen'', ''x25519_exchange'']"

lemma bench_classical_ok:
  assumes "rsa_ok P" "x25519_ok P" "clock_advances env" "3 \<le> iterations" "\<And>n. keygen = Some n \<Longrightarrow> 3 \<le> n"
  shows "\<exists>ts. bench_classical P env iterations keygen = Inr ts \<and> complete_timings CLASSICAL_OPS ts"
proof -
  let ?rsa = "rsa_generate P (be_rng env ''classical'' 0)" and ?secret = "urandom (be_rng env ''classical'' 1) 32"
  have rsa: "\<exists>c. rsa_encrypt P t (rsa_public_der P ?rsa) ?secret = Inr c \<and> rsa_decrypt P ?rsa c = Some ?secret" for t
    by (rule rsa_ok_round_trip [OF assms(1), of ?secret t "be_rng env ''classical'' 0"]) auto
  obtain ct where ct: "rsa_encrypt P (be_rng env ''classical'' 2) (rsa_public_der P ?rsa) ?secret = Inr ct" "rsa_decrypt P ?rsa ct = Some ?secret"
    using rsa by blast
  have enc: "drop_value (rsa_encrypt P t (rsa_public_der P ?rsa) ?secret) = Inr ()" for t
    using rsa [of t] by auto
  obtain s where x: "x_exchange P (x_generate P (be_rng env ''classical'' 3)) (x_public_raw P (x_generate P (be_rng env ''classical'' 4))) = Some s"
    by (rule x25519_ok_agree [OF assms(2)])
  have k: "3 \<le> keygen_count keygen iterations"
    using assms(4,5) by (auto simp: keygen_count_def split: option.split)
  obtain t where t: "timed_entry env ''classical'' (keygen_count keygen iterations) 1
      (''rsa2048_keygen'', \<lambda>i. drop_value (Inr (rsa_generate P (be_rng env ''rsa keygen'' i)))) = Inr (''rsa2048_keygen'', t)" "timing_good t"
    using timed_entry_ok [OF assms(3) k, of "(''rsa2048_keygen'', \<lambda>i. drop_value (Inr (rsa_generate P (be_rng env ''rsa keygen'' i))))" "''classical''" 1] by auto
  let ?rest = "[(''rsa2048_oaep_encrypt'', \<lambda>i. drop_value (rsa_encrypt P (be_rng env ''rsa encrypt'' i) (rsa_public_der P ?rsa) ?secret)),
        (''rsa2048_oaep_decrypt'', \<lambda>i. drop_value (or_value_error (rsa_decrypt P ?rsa ct))),
        (''ecdsa_p256_keygen'', \<lambda>i. drop_value (Inr (ec_generate P (be_rng env ''ec keygen'' i)))),
        (''ecdsa_p256_sign'', \<lambda>i. drop_value (Inr (ec_sign P (be_rng env ''ec sign'' i) (ec_generate P (be_rng env ''classical'' 5)) MESSAGE))),
        (''ecdsa_p256_verify'', \<lambda>i. drop_value (Inr (ec_verify P (ec_public_der P (ec_generate P (be_rng env ''classical'' 5)))
           (ec_sign P (be_rng env ''classical'' 6) (ec_generate P (be_rng env ''classical'' 5)) MESSAGE) MESSAGE))),
        (''x25519_keygen'', \<lambda>i. drop_value (Inr (x_generate P (be_rng env ''x keygen'' i)))),
        (''x25519_exchange'', \<lambda>i. drop_value (or_value_error (x_exchange P (x_generate P (be_rng env ''classical'' 3))
           (x_public_raw P (x_generate P (be_rng env ''classical'' 4))))))]"
  have "snd entry i = Inr ()" if "entry \<in> set ?rest" for entry i
    using that ct x enc by (auto simp: or_value_error_def)
  then obtain ts where ts: "map_res (timed_entry env ''classical'' iterations 10) ?rest = Inr ts" "map fst ts = map fst ?rest" "\<forall>y \<in> set ts. timing_good (snd y)"
    using timed_entries_ok [OF assms(3,4), of ?rest "''classical''" 10] by blast
  have "bench_classical P env iterations keygen = Inr ((''rsa2048_keygen'', t) # ts)"
    unfolding bench_classical_def Let_def ct(1) bind_res_simps t(1) ts(1) ..
  then show ?thesis
    using ts(2,3) t(2) by (simp add: complete_timings_def CLASSICAL_OPS_def)
qed

section \<open>The report\<close>

lemma check_orderings_total:
  assumes "complete_timings [''keygen'', ''encaps'', ''decaps''] kem" "complete_timings [''keygen'', ''sign'', ''verify''] sg"
    "complete_timings CLASSICAL_OPS classical"
  shows "\<exists>checks. check_orderings kem sg classical = Inr checks"
proof -
  obtain a where "map_of kem ''keygen'' = Some a" by (rule complete_lookup [OF assms(1), of "''keygen''"]) simp
  moreover obtain b where "map_of sg ''sign'' = Some b" by (rule complete_lookup [OF assms(2), of "''sign''"]) simp
  moreover obtain c where "map_of sg ''verify'' = Some c" by (rule complete_lookup [OF assms(2), of "''verify''"]) simp
  moreover obtain d where "map_of classical ''rsa2048_keygen'' = Some d"
    by (rule complete_lookup [OF assms(3), of "''rsa2048_keygen''"]) (simp add: CLASSICAL_OPS_def)
  moreover obtain e where "map_of classical ''ecdsa_p256_verify'' = Some e"
    by (rule complete_lookup [OF assms(3), of "''ecdsa_p256_verify''"]) (simp add: CLASSICAL_OPS_def)
  ultimately show ?thesis by (simp add: check_orderings_def get_item_def)
qed

lemma calibration_complete:
  assumes "complete_timings [''keygen'', ''encaps'', ''decaps''] kem"
  shows "\<exists>rows. calibration_vs_published kem = Inr rows \<and> map cr_operation rows = map pt_operation PUBLISHED_THROUGHPUT"
proof -
  have row: "\<exists>row. calibration_row_of kem pub = Inr [row] \<and> cr_operation row = pt_operation pub"
    if "pub \<in> set PUBLISHED_THROUGHPUT" for pub
  proof -
    have "pt_operation pub \<in> set [''keygen'', ''encaps'', ''decaps'']"
      using that by (auto simp: PUBLISHED_THROUGHPUT_def)
    then obtain t where "map_of kem (pt_operation pub) = Some t" "timing_good t"
      by (rule complete_lookup [OF assms])
    then show ?thesis by (auto simp: calibration_row_of_def timing_good_def)
  qed
  have "\<exists>rows. map_res (calibration_row_of kem) pubs = Inr rows \<and> map cr_operation (concat rows) = map pt_operation pubs"
    if "set pubs \<subseteq> set PUBLISHED_THROUGHPUT" for pubs
    using that
  proof (induction pubs)
    case (Cons pub pubs)
    obtain row where "calibration_row_of kem pub = Inr [row]" "cr_operation row = pt_operation pub"
      using row [of pub] Cons.prems by auto
    moreover obtain rows where "map_res (calibration_row_of kem) pubs = Inr rows" "map cr_operation (concat rows) = map pt_operation pubs"
      using Cons by auto
    ultimately show ?case by simp
  qed simp
  from this [OF subset_refl] show ?thesis by (auto simp: calibration_vs_published_def)
qed

lemma cold_start_total:
  assumes "0 < n" "\<And>op i. fst (runs op i) = 0 \<and> (\<exists>x. snd (runs op i) = Inr x)"
  shows "\<exists>cold. bench_cold_start_signing runs n b = Inr cold"
proof -
  have "\<exists>xs. cold_samples (runs op) n = Inr xs \<and> xs \<noteq> []" for op
  proof -
    have "cold_samples (runs op) n = Inr (map (\<lambda>i. projr (snd (runs op i))) [0..<n])"
      unfolding cold_samples_def
    proof (rule map_res_Inr)
      show "(if fst (runs op i) \<noteq> 0 then Inl RuntimeError else snd (runs op i)) = Inr (projr (snd (runs op i)))" for i
        using assms(2) [of op i] by auto
    qed
    then show ?thesis using assms(1) by auto
  qed
  then obtain xs ys where "cold_samples (runs ''ecdsa_p256_sign'') n = Inr xs" "xs \<noteq> []"
      "cold_samples (runs ''ml_dsa_65_sign'') n = Inr ys" "ys \<noteq> []" by blast
  then show ?thesis by (simp add: bench_cold_start_signing_def cold_stats_of_def)
qed

text \<open>C30
  The micro-benchmark supplies what the signature-cost model needs. With a correct library, a clock
  that advances during each call, at least three iterations (also for the RSA key generation) and
  cold-start processes that succeed, it ends with a report that calibrates every published figure,
  and for the signature scheme of every registered configuration the report read back gives usable
  statistics: a positive mean and a tolerance of at least 1.
\<close>

theorem benchmark_feeds_cost_model:
  assumes "prims_ok P" "clock_advances env" "3 \<le> iterations" "\<And>n. keygen = Some n \<Longrightarrow> 3 \<le> n"
    and "\<And>op i. fst (runs op i) = 0 \<and> (\<exists>x. snd (runs op i) = Inr x)" "get_server_crypto config = Inr srv"
  shows "\<exists>rep mean_us tolerance. run_primitive_bench P env runs iterations n_cold keygen = Inr rep \<and>
    map cr_operation (br_calibration rep) = map pt_operation PUBLISHED_THROUGHPUT \<and>
    benchmarked (report_table rep) (srv_sig_algorithm srv) \<and>
    mean_sign_us_and_tolerance (srv_sig_algorithm srv) (report_table rep) = Inr (mean_us, tolerance) \<and>
    0 < mean_us \<and> 1 \<le> tolerance"
proof -
  have ok: "kem_ok P" "dsa_ok P" "rsa_ok P" "x25519_ok P" using assms(1) by (simp_all add: prims_ok_def)
  obtain kem where kem: "bench_ml_kem_768 P env iterations = Inr kem" "complete_timings [''keygen'', ''encaps'', ''decaps''] kem"
    using bench_kem_ok [OF ok(1) assms(2,3)] by blast
  obtain sg where sg: "bench_ml_dsa_65 P env iterations = Inr sg" "complete_timings [''keygen'', ''sign'', ''verify''] sg"
    using bench_dsa_ok [OF ok(2) assms(2,3)] by blast
  obtain cl where cl: "bench_classical P env iterations keygen = Inr cl" "complete_timings CLASSICAL_OPS cl"
    using bench_classical_ok [OF ok(3,4) assms(2,3,4)] by blast
  obtain checks where checks: "check_orderings kem sg cl = Inr checks"
    using check_orderings_total [OF kem(2) sg(2) cl(2)] by blast
  obtain cal where cal: "calibration_vs_published kem = Inr cal" "map cr_operation cal = map pt_operation PUBLISHED_THROUGHPUT"
    using calibration_complete [OF kem(2)] by blast
  obtain cold where cold: "(if 0 < n_cold then map_sum id Some (bench_cold_start_signing runs n_cold 2500) else Inr None) = Inr cold"
    using cold_start_total [of n_cold runs 2500, OF _ assms(5)] by (cases "0 < n_cold") fastforce+
  let ?rep = "\<lparr> br_iterations = iterations, br_ml_kem_768 = kem, br_ml_dsa_65 = sg, br_classical = cl, br_orderings = checks,
      br_calibration = cal, br_cold_start = cold \<rparr>"
  have run: "run_primitive_bench P env runs iterations n_cold keygen = Inr ?rep"
    unfolding run_primitive_bench_def kem(1) sg(1) cl(1) checks cal(1) cold bind_res_simps ..
  obtain ts where ts: "map_of sg ''sign'' = Some ts" "timing_good ts"
    by (rule complete_lookup [OF sg(2), of "''sign''"]) simp
  obtain tc where tc: "map_of cl ''ecdsa_p256_sign'' = Some tc" "timing_good tc"
    by (rule complete_lookup [OF cl(2), of "''ecdsa_p256_sign''"]) (simp add: CLASSICAL_OPS_def)
  have "\<exists>key t. map_of SIG_ALGORITHM_TO_BENCH_KEY (srv_sig_algorithm srv) = Some key \<and>
      bt_stats (report_table ?rep) key = Some (stats_read t) \<and> timing_good t"
    using srv_sig_algorithm_cases [of srv] ts tc by (auto simp: SIG_ALGORITHM_TO_BENCH_KEY_def report_table_def)
  then obtain key t where t: "map_of SIG_ALGORITHM_TO_BENCH_KEY (srv_sig_algorithm srv) = Some key"
      "bt_stats (report_table ?rep) key = Some (stats_read t)" "timing_good t" by blast
  have "benchmarked (report_table ?rep) (srv_sig_algorithm srv)"
    using t by (auto simp: benchmarked_def stats_read_def timing_good_def)
  moreover have "mean_sign_us_and_tolerance (srv_sig_algorithm srv) (report_table ?rep) = Inr (ot_mean_us t, ot_p99_us t / ot_median_us t)"
    using t by (simp add: mean_sign_us_and_tolerance_def stats_read_def timing_good_def)
  moreover have "1 \<le> ot_p99_us t / ot_median_us t" "0 < ot_mean_us t"
    using t(3) by (simp_all add: timing_good_def)
  ultimately show ?thesis using run cal(2) by fastforce
qed

lemma benchmark_feeds_cost_model_witness:
  "\<exists>rep mean_us tolerance. run_primitive_bench toy_prims
      \<lparr> be_rng = \<lambda>_ _ _. 0, be_clock = \<lambda>_ i. (0, of_nat i + 1), be_sqrt = \<lambda>x. x \<rparr> (\<lambda>_ _. (0, Inr 8)) 5 2 None = Inr rep \<and>
    mean_sign_us_and_tolerance ''ML-DSA-65'' (report_table rep) = Inr (mean_us, tolerance) \<and> 0 < mean_us \<and> 1 \<le> tolerance"
proof -
  obtain srv where srv: "get_server_crypto ''full_pqc'' = Inr srv" "srv_sig_algorithm srv = ''ML-DSA-65''"
    by (auto simp: get_server_crypto_def CONFIGS_def full_pqc_sig_algorithm_def MLDSA65_ALGORITHM_def)
  have c: "clock_advances \<lparr> be_rng = \<lambda>_ _ _. 0, be_clock = \<lambda>_ i. (0, of_nat i + 1), be_sqrt = \<lambda>x. x \<rparr>"
    by (simp add: clock_advances_def add_nonneg_pos)
  show ?thesis
    using benchmark_feeds_cost_model [OF toy_prims_ok c _ _ _ srv(1), of 5 None "\<lambda>_ _. (0, Inr 8)" 2] srv(2) by auto
qed

end
