(* ===== verification/DashboardRuns.thy ===== *)
theory DashboardRuns
  imports Tradeoff SignatureCost
begin

text \<open>
  \<^verbatim>\<open>webapp/data_loader.py\<close>: how the dashboard finds the runs it can show and selects the rows of
  one. A frame is its columns and its rows, each with the value of its \<^verbatim>\<open>run_id\<close> column (\<open>None\<close>
  for NaN or a missing column) and the rest of the row. Reading a file gives a frame or an
  exception; files come in the order \<^verbatim>\<open>sorted(glob(...))\<close> gives them.
\<close>

section \<open>Frames and runs\<close>

record 'r raw_frame =
  rf_columns :: "string list"
  rf_rows :: "(string option \<times> 'r) list"

definition LEGACY_RUN_ID :: string where
  "LEGACY_RUN_ID = ''legacy''"

definition concat_frames :: "'r raw_frame list \<Rightarrow> 'r raw_frame" where
  "concat_frames frames =
     \<lparr> rf_columns = rev (remdups (rev (concat (map rf_columns frames)))), rf_rows = concat (map rf_rows frames) \<rparr>"

text \<open>The concurrency sweep's files: unreadable ones are skipped.\<close>

definition load_raw_df :: "'r raw_frame res list \<Rightarrow> 'r raw_frame option" where
  "load_raw_df files =
     (if files = [] then None
      else let frames = List.map_filter (\<lambda>f. case f of Inl _ \<Rightarrow> None | Inr df \<Rightarrow> Some df) files in
        if frames = [] then None else Some (concat_frames frames))"

definition fill_legacy_run_id :: "'r raw_frame \<Rightarrow> 'r raw_frame" where
  "fill_legacy_run_id df =
     (if ''run_id'' \<notin> set (rf_columns df)
      then \<lparr> rf_columns = rf_columns df @ [''run_id''], rf_rows = map (\<lambda>(_, r). (Some LEGACY_RUN_ID, r)) (rf_rows df) \<rparr>
      else df \<lparr> rf_rows := map (\<lambda>(i, r). (Some (case i of None \<Rightarrow> LEGACY_RUN_ID | Some rid \<Rightarrow> rid), r)) (rf_rows df) \<rparr>)"

text \<open>Distinct run ids, latest first.\<close>

definition list_runs :: "'r raw_frame option \<Rightarrow> string list" where
  "list_runs df =
     (case df of
        None \<Rightarrow> []
      | Some d \<Rightarrow>
          if rf_rows d = [] \<or> ''run_id'' \<notin> set (rf_columns d) then []
          else rev (sort (remdups (List.map_filter fst (rf_rows d)))))"

definition latest_run_id :: "'r raw_frame option \<Rightarrow> string option" where
  "latest_run_id df =
     (case filter (\<lambda>r. r \<noteq> LEGACY_RUN_ID) (list_runs df) of
        r # _ \<Rightarrow> Some r
      | [] \<Rightarrow> (case list_runs df of r # _ \<Rightarrow> Some r | [] \<Rightarrow> None))"

definition get_available_runs :: "'r raw_frame res list \<Rightarrow> string list \<times> string option" where
  "get_available_runs files =
     (case load_raw_df files of
        None \<Rightarrow> ([], None)
      | Some df \<Rightarrow> (list_runs (Some (fill_legacy_run_id df)), latest_run_id (Some (fill_legacy_run_id df))))"

text \<open>Rows of one run; \<^verbatim>\<open>"__latest__"\<close> is resolved first. \<open>None\<close> stands for no data.\<close>

definition select_run :: "'r raw_frame \<Rightarrow> string option \<Rightarrow> 'r raw_frame option" where
  "select_run df run_id =
     (let rid = (if run_id = Some ''__latest__'' then latest_run_id (Some df) else run_id) in
      case rid of
        None \<Rightarrow> Some df
      | Some i \<Rightarrow>
          let rows = filter (\<lambda>row. fst row = Some i) (rf_rows df) in
          if rows = [] then None else Some (df \<lparr> rf_rows := rows \<rparr>))"

text \<open>The streaming sweep's files: an unreadable one raises.\<close>

definition load_streaming_df :: "'r raw_frame res list \<Rightarrow> string option \<Rightarrow> 'r raw_frame option res" where
  "load_streaming_df files run_id =
     (if files = [] then Inr None
      else bind_res (map_res id files) (\<lambda>frames. Inr (select_run (fill_legacy_run_id (concat_frames frames)) run_id)))"

definition get_available_streaming_runs :: "'r raw_frame res list \<Rightarrow> (string list \<times> string option) res" where
  "get_available_streaming_runs files =
     bind_res (load_streaming_df files None) (\<lambda>df.
       Inr (case df of None \<Rightarrow> ([], None) | Some d \<Rightarrow> (list_runs (Some d), latest_run_id (Some d))))"

text \<open>The rows of the chosen run as the frame \<^verbatim>\<open>analysis.aggregate\<close> works on.\<close>

definition to_frame :: "meas raw_frame \<Rightarrow> frame" where
  "to_frame df = \<lparr> fr_columns = rf_columns df,
     fr_rows = map (\<lambda>(i, r). case i of None \<Rightarrow> r | Some rid \<Rightarrow> r \<lparr> me_run_id := rid \<rparr>) (rf_rows df) \<rparr>"

definition get_trimmed_and_summary ::
  "(rat \<Rightarrow> rat) \<Rightarrow> meas raw_frame res list \<Rightarrow> rat \<Rightarrow> string option \<Rightarrow> (frame \<times> summary_row list) option" where
  "get_trimmed_and_summary sqrt_f files warmup_fraction run_id =
     (case load_raw_df files of
        None \<Rightarrow> None
      | Some df \<Rightarrow>
          (case select_run (fill_legacy_run_id df) run_id of
             None \<Rightarrow> None
           | Some d \<Rightarrow> let trimmed = discard_warmup (to_frame d) warmup_fraction in Some (trimmed, summarize_frame sqrt_f trimmed)))"

definition get_significance ::
  "(rat list \<Rightarrow> rat list \<Rightarrow> rat \<times> rat) \<Rightarrow> frame option \<Rightarrow> string \<Rightarrow> int mw_row list option" where
  "get_significance mwu trimmed_df metric =
     (case trimmed_df of
        None \<Rightarrow> None
      | Some df \<Rightarrow> if fr_rows df = [] then None else Some (mann_whitney_vs_control mwu df metric me_concurrency None))"

definition build_custom_tradeoff ::
  "frame \<Rightarrow> rat \<Rightarrow> rat \<Rightarrow> (meas \<Rightarrow> int) \<Rightarrow> string \<Rightarrow> (string \<times> rat option) list option \<Rightarrow> matrix_row list" where
  "build_custom_tradeoff trimmed_df w_sec w_perf scale_of metric_col security_scores =
     build_matrix_at (fr_rows trimmed_df) w_sec w_perf None scale_of metric_col security_scores"

section \<open>What files there are\<close>

record file_inventory =
  iv_file :: string
  iv_config :: "string option"
  iv_concurrency :: "int option"
  iv_repetition :: "int option"
  iv_n_requests :: "nat option"
  iv_n_errors :: "nat option"
  iv_error_rate :: "rat option"

text \<open>A file that cannot be read, or lacks a column the entry needs, has an empty entry.\<close>

definition blank_inventory :: "string \<Rightarrow> file_inventory" where
  "blank_inventory name = \<lparr> iv_file = name, iv_config = None, iv_concurrency = None, iv_repetition = None, iv_n_requests = None,
     iv_n_errors = None, iv_error_rate = None \<rparr>"

definition inventory_of :: "string \<times> meas raw_frame res \<Rightarrow> file_inventory" where
  "inventory_of file =
     (case snd file of
        Inl _ \<Rightarrow> blank_inventory (fst file)
      | Inr df \<Rightarrow>
          if ''error'' \<notin> set (rf_columns df) then blank_inventory (fst file) else
          let rows = map snd (rf_rows df); n_errors = length (filter is_err rows) in
          case rows of
            [] \<Rightarrow> (blank_inventory (fst file)) \<lparr> iv_n_requests := Some 0, iv_n_errors := Some 0 \<rparr>
          | r # _ \<Rightarrow>
              if \<not> {''config'', ''concurrency'', ''repetition''} \<subseteq> set (rf_columns df) then blank_inventory (fst file)
              else \<lparr> iv_file = fst file, iv_config = Some (me_config r), iv_concurrency = Some (me_concurrency r),
                     iv_repetition = Some (me_repetition r), iv_n_requests = Some (length rows), iv_n_errors = Some n_errors,
                     iv_error_rate = Some (of_nat n_errors / of_nat (length rows)) \<rparr>)"

definition raw_file_inventory :: "(string \<times> meas raw_frame res) list \<Rightarrow> file_inventory list" where
  "raw_file_inventory files = map inventory_of files"

definition run_label :: "(string \<Rightarrow> string option) \<Rightarrow> (nat \<Rightarrow> string) \<Rightarrow> string \<Rightarrow> 'r raw_frame option \<Rightarrow> string" where
  "run_label render number run_id df =
     (let base = (if run_id = LEGACY_RUN_ID then ''Legacy data (no run_id -- written before run tracking existed)''
                  else case render run_id of Some s \<Rightarrow> s | None \<Rightarrow> run_id) in
      case df of
        None \<Rightarrow> base
      | Some d \<Rightarrow>
          if ''run_id'' \<in> set (rf_columns d)
          then base @ '' ('' @ number (length (filter (\<lambda>row. fst row = Some run_id) (rf_rows d))) @ '' rows)'' else base)"

text \<open>The summaries of an experiment: every readable file, in order.\<close>

definition load_summaries :: "json res list \<Rightarrow> json list" where
  "load_summaries files = List.map_filter (\<lambda>f. case f of Inl _ \<Rightarrow> None | Inr j \<Rightarrow> Some j) files"

section \<open>One list for both kinds of run\<close>

datatype run_type = Concurrency | Streaming

record run_entry =
  re_type :: run_type
  re_run_id :: "string option"
  re_label :: string

definition re_key :: "run_entry \<Rightarrow> run_type \<times> string option" where
  "re_key e = (re_type e, re_run_id e)"

definition type_label :: "run_type \<Rightarrow> string" where
  "type_label t = (case t of Concurrency \<Rightarrow> ''Concurrency Sweep'' | Streaming \<Rightarrow> ''Streaming Sweep'')"

definition all_label :: "run_type \<Rightarrow> string" where
  "all_label t = (case t of Concurrency \<Rightarrow> ''All concurrency-sweep runs combined'' | Streaming \<Rightarrow> ''All streaming runs combined'')"

text \<open>\<open>render\<close> is \<^verbatim>\<open>datetime.strptime\<close> followed by \<^verbatim>\<open>strftime\<close>, \<open>None\<close> its \<^verbatim>\<open>ValueError\<close>; \<open>dash\<close> the separator.\<close>

definition timed_label :: "(string \<Rightarrow> string option) \<Rightarrow> string \<Rightarrow> string \<Rightarrow> run_type \<Rightarrow> string" where
  "timed_label render dash run_id t =
     (if run_id = LEGACY_RUN_ID then ''Legacy data (no run_id)'' else case render run_id of Some s \<Rightarrow> s | None \<Rightarrow> run_id)
       @ dash @ type_label t"

definition timed_entry_of :: "(string \<Rightarrow> string option) \<Rightarrow> string \<Rightarrow> run_type \<Rightarrow> string \<Rightarrow> run_entry" where
  "timed_entry_of render dash t run_id = \<lparr> re_type = t, re_run_id = Some run_id, re_label = timed_label render dash run_id t \<rparr>"

definition all_entry :: "(nat \<Rightarrow> string) \<Rightarrow> run_type \<times> string list \<Rightarrow> run_entry list" where
  "all_entry number tr =
     (if snd tr = [] then []
      else [\<lparr> re_type = fst tr, re_run_id = None, re_label = all_label (fst tr) @ '' ('' @ number (length (snd tr)) @ '' runs)'' \<rparr>])"

text \<open>\<^verbatim>\<open>list.sort(key=..., reverse=True)\<close> keeps the order of entries with equal keys.\<close>

definition sort_descending :: "('a \<Rightarrow> 'k :: linorder) \<Rightarrow> 'a list \<Rightarrow> 'a list" where
  "sort_descending f xs = rev (sort_key f (rev xs))"

text \<open>\<^verbatim>\<open>max(xs, key=...)\<close>: the first of the greatest.\<close>

definition first_max :: "('a \<Rightarrow> 'k :: linorder) \<Rightarrow> 'a \<Rightarrow> 'a list \<Rightarrow> 'a" where
  "first_max f x xs = foldl (\<lambda>best y. if f best < f y then y else best) x xs"

definition entry_id :: "run_entry \<Rightarrow> string" where
  "entry_id e = (case re_run_id e of None \<Rightarrow> [] | Some i \<Rightarrow> i)"

definition timed_entries :: "(string \<Rightarrow> string option) \<Rightarrow> string \<Rightarrow> string list \<Rightarrow> string list \<Rightarrow> run_entry list" where
  "timed_entries render dash conc_runs stream_runs = sort_descending entry_id
     (map (timed_entry_of render dash Concurrency) conc_runs @ map (timed_entry_of render dash Streaming) stream_runs)"

definition default_key_of :: "run_entry list \<Rightarrow> (run_type \<times> string option) option" where
  "default_key_of timed =
     (case filter (\<lambda>e. re_run_id e \<noteq> Some LEGACY_RUN_ID) timed of
        e # es \<Rightarrow> Some (re_key (first_max entry_id e es))
      | [] \<Rightarrow> (case timed of e # _ \<Rightarrow> Some (re_key e) | [] \<Rightarrow> None))"

definition get_unified_runs ::
  "(string \<Rightarrow> string option) \<Rightarrow> string \<Rightarrow> (nat \<Rightarrow> string) \<Rightarrow> 'r raw_frame res list \<Rightarrow> 'q raw_frame res list
     \<Rightarrow> (run_entry list \<times> (run_type \<times> string option) option) res" where
  "get_unified_runs render dash number conc_files stream_files =
     (let conc_runs = fst (get_available_runs conc_files) in
      bind_res (get_available_streaming_runs stream_files) (\<lambda>(stream_runs, _).
      let timed = timed_entries render dash conc_runs stream_runs in
      Inr (concat (map (all_entry number) [(Concurrency, conc_runs), (Streaming, stream_runs)]) @ timed, default_key_of timed)))"

section \<open>Resource summaries\<close>

text \<open>A summary entry: its run type, its run id and the rest; a file without a type is a concurrency sweep's.\<close>

record 'r resource_entry =
  rx_run_type :: "string option"
  rx_run_id :: string
  rx_rest :: 'r

definition load_sweep_summaries :: "'r resource_entry list res list \<Rightarrow> string option \<Rightarrow> 'r resource_entry list" where
  "load_sweep_summaries files run_id =
     (let rows = concat (List.map_filter (\<lambda>f. case f of Inl _ \<Rightarrow> None | Inr rs \<Rightarrow> Some rs) files) in
      case run_id of None \<Rightarrow> rows | Some i \<Rightarrow> filter (\<lambda>r. rx_run_id r = i) rows)"

definition load_resource_summaries :: "'r resource_entry list res list \<Rightarrow> string \<Rightarrow> string option \<Rightarrow> 'r resource_entry list" where
  "load_resource_summaries files run_type run_id =
     filter (\<lambda>r. rx_run_type r = Some run_type)
       (map (\<lambda>r. r \<lparr> rx_run_type := Some (case rx_run_type r of None \<Rightarrow> ''concurrency'' | Some t \<Rightarrow> t) \<rparr>)
         (load_sweep_summaries files run_id))"

section \<open>The analytic bytes of a checkpointed chain\<close>

text \<open>\<^verbatim>\<open>webapp/findings.py\<close>: signatures, bytes and the largest exposure in tokens.\<close>

definition analytic_signature_bytes :: "nat \<Rightarrow> nat \<Rightarrow> nat option \<Rightarrow> nat \<Rightarrow> (nat \<times> nat \<times> nat) res" where
  "analytic_signature_bytes n_tokens chunk k sig_bytes =
     (if chunk = 0 then Inl ZeroDivisionError else
      let n_chunks = (n_tokens + chunk - 1) div chunk;
          n_sig = (case k of None \<Rightarrow> 1 | Some d \<Rightarrow> if d = 0 then 1 else n_chunks div d + 1);
          exposure = (case k of None \<Rightarrow> n_chunks * chunk | Some d \<Rightarrow> if d = 0 then n_chunks * chunk else d * chunk) in
      Inr (n_sig, n_sig * sig_bytes, min exposure n_tokens))"

end
