(* ===== verification/SecurityValidation.thy ===== *)
theory SecurityValidation
  imports Tradeoff HarvestBounds TamperProxy "HOL-Library.AList"
begin

text \<open>
  \<^verbatim>\<open>analysis/security_validation.py\<close>: the comparison of the experiments' summaries with what the
  security scores assume. A summary is a parsed JSON object, read by key; a warning is its cause
  and the values it prints.
\<close>

section \<open>The checks\<close>

definition EXPECTED_KEX_DECRYPTABLE :: "(string \<times> bool) list" where
  "EXPECTED_KEX_DECRYPTABLE = [(''classical'', True), (''classical_ecdhe'', True), (''hybrid'', False), (''hybrid_kex'', False),
     (''full_pqc'', False), (''hybrid_kex_pq'', False)]"

definition NEAR_100PCT_THRESHOLD :: rat where
  "NEAR_100PCT_THRESHOLD = 99 / 100"

type_synonym json_dict = "(string \<times> json) list"

datatype confidentiality_warning = NoField string | Mismatch string json bool | MissingConfigs "string list"

text \<open>\<^verbatim>\<open>s.get("config")\<close> as a dictionary key: lists and dictionaries cannot be hashed.\<close>

definition config_key :: "json_dict \<Rightarrow> string option res" where
  "config_key s = (case map_of s ''config'' of
      Some (JStr c) \<Rightarrow> Inr (Some c) | Some (JList _) \<Rightarrow> Inl TypeError | Some (JObj _) \<Rightarrow> Inl TypeError | _ \<Rightarrow> Inr None)"

text \<open>Python compares a truth value with a number by value.\<close>

definition json_equals_bool :: "json \<Rightarrow> bool \<Rightarrow> bool" where
  "json_equals_bool j b = (case j of JBool b' \<Rightarrow> b' = b | JInt i \<Rightarrow> i = (if b then 1 else 0) | JFloat r \<Rightarrow> r = (if b then 1 else 0) | _ \<Rightarrow> False)"

definition field_warning :: "string \<Rightarrow> bool \<Rightarrow> json option \<Rightarrow> confidentiality_warning list" where
  "field_warning config expected measured_flag =
     (case measured_flag of
        None \<Rightarrow> [NoField config]
      | Some JNull \<Rightarrow> [NoField config]
      | Some j \<Rightarrow> if json_equals_bool j expected then [] else [Mismatch config j expected])"

text \<open>The loop: the warnings so far and the configurations seen.\<close>

fun confidentiality_loop :: "json_dict list \<Rightarrow> confidentiality_warning list \<Rightarrow> string list
    \<Rightarrow> (confidentiality_warning list \<times> string list) res" where
  "confidentiality_loop [] warnings seen_configs = Inr (warnings, seen_configs)"
| "confidentiality_loop (s # ss) warnings seen_configs =
     bind_res (config_key s) (\<lambda>key.
       case key of
         None \<Rightarrow> confidentiality_loop ss warnings seen_configs
       | Some config \<Rightarrow>
           (case map_of EXPECTED_KEX_DECRYPTABLE config of
              None \<Rightarrow> confidentiality_loop ss warnings seen_configs
            | Some expected \<Rightarrow>
                confidentiality_loop ss
                  (warnings @ field_warning config expected (map_of s ''kex_decryptable_under_future_crqc'')) (config # seen_configs)))"

definition validate_confidentiality_axis :: "json_dict list \<Rightarrow> confidentiality_warning list res" where
  "validate_confidentiality_axis hndl_summaries =
     bind_res (confidentiality_loop hndl_summaries [] []) (\<lambda>(warnings, seen_configs).
       let missing = sort (filter (\<lambda>c. c \<notin> set seen_configs) (map fst EXPECTED_KEX_DECRYPTABLE)) in
       Inr (warnings @ (if missing = [] then [] else [MissingConfigs missing])))"

datatype authenticity_note = AllRejected | NotUniformlyHigh | NoResults

record authenticity_check =
  ac_per_config :: "(string \<times> json) list"
  ac_all_near_100pct :: bool
  ac_note :: authenticity_note

text \<open>The dictionary comprehension: a later summary of the same configuration replaces the rate in place.\<close>

definition is_signature_summary :: "json_dict \<Rightarrow> bool" where
  "is_signature_summary s \<longleftrightarrow> map_of s ''tamper_target'' = Some (JStr ''signature'')"

fun rates_by_config :: "json_dict list \<Rightarrow> (string \<times> json) list \<Rightarrow> (string \<times> json) list res" where
  "rates_by_config [] acc = Inr acc"
| "rates_by_config (s # ss) acc =
     (if is_signature_summary s then
        bind_res (config_key s) (\<lambda>key.
          case key of
            None \<Rightarrow> rates_by_config ss acc
          | Some config \<Rightarrow>
              if config \<in> set (map fst SECURITY_SCORES)
              then rates_by_config ss (AList.update config (case map_of s ''detection_rate'' of None \<Rightarrow> JNull | Some j \<Rightarrow> j) acc)
              else rates_by_config ss acc)
      else rates_by_config ss acc)"

definition validate_authenticity_near_term :: "json_dict list \<Rightarrow> authenticity_check res" where
  "validate_authenticity_near_term mitm_summaries =
     bind_res (rates_by_config mitm_summaries []) (\<lambda>per_config.
     bind_res (map_res json_rat (filter (\<lambda>j. j \<noteq> JNull) (map snd per_config))) (\<lambda>rates.
     let all_high = (rates \<noteq> [] \<and> NEAR_100PCT_THRESHOLD \<le> Min (set rates)) in
     Inr \<lparr> ac_per_config = per_config, ac_all_near_100pct = all_high,
           ac_note = (if all_high then AllRejected else if rates \<noteq> [] then NotUniformlyHigh else NoResults) \<rparr>))"

section \<open>The summaries as the files hold them\<close>

definition json_of_opt :: "('a \<Rightarrow> json) \<Rightarrow> 'a option \<Rightarrow> json" where
  "json_of_opt f x = (case x of None \<Rightarrow> JNull | Some v \<Rightarrow> f v)"

definition hndl_summary_dict :: "hndl_summary \<Rightarrow> json_dict" where
  "hndl_summary_dict s =
     [(''config'', JStr (hs_config s)), (''n_requests'', JInt (int (hs_n_requests s))), (''n_ok'', JInt (int (hs_n_ok s))),
      (''total_bytes_stored'', JInt (int (hs_total_bytes_stored s))),
      (''bytes_per_request_mean'', json_of_opt JFloat (hs_bytes_per_request_mean s)),
      (''kex_bytes_per_request'', json_of_opt (\<lambda>n. JInt (int n)) (hs_kex_bytes_per_request s)),
      (''signature_bytes_per_request'', json_of_opt (\<lambda>n. JInt (int n)) (hs_signature_bytes_per_request s)),
      (''kex_decryptable_under_future_crqc'', json_of_opt JBool (hs_kex_decryptable s)),
      (''projected_bytes_per_1000_requests'', json_of_opt JFloat (hs_projected_bytes_per_1000 s))]"

definition mitm_summary_dict :: "mitm_summary \<Rightarrow> json_dict" where
  "mitm_summary_dict s =
     [(''config'', JStr (mu_config s)), (''tamper_target'', JStr (mu_tamper_target s)), (''n_requests'', JInt (int (mu_n_requests s))),
      (''n_detected'', JInt (int (mu_n_detected s))), (''detection_rate'', json_of_opt JFloat (mu_detection_rate s)),
      (''detection_ms_mean'', json_of_opt JFloat (mu_detection_ms_mean s)), (''detection_ms_median'', json_of_opt JFloat (mu_detection_ms_median s)),
      (''detection_ms_std'', json_of_opt JFloat (mu_detection_ms_std s)), (''detection_ms_min'', json_of_opt JFloat (mu_detection_ms_min s)),
      (''detection_ms_max'', json_of_opt JFloat (mu_detection_ms_max s)), (''verdict'', JStr (mu_verdict s))]"

section \<open>What the checks say about the summaries\<close>

lemma hndl_dict_lookup [simp]:
  "map_of (hndl_summary_dict s) ''config'' = Some (JStr (hs_config s))"
  "map_of (hndl_summary_dict s) ''kex_decryptable_under_future_crqc'' = Some (json_of_opt JBool (hs_kex_decryptable s))"
  by (simp_all add: hndl_summary_dict_def)

lemma mitm_dict_lookup [simp]:
  "map_of (mitm_summary_dict s) ''config'' = Some (JStr (mu_config s))"
  "map_of (mitm_summary_dict s) ''tamper_target'' = Some (JStr (mu_tamper_target s))"
  "map_of (mitm_summary_dict s) ''detection_rate'' = Some (json_of_opt JFloat (mu_detection_rate s))"
  by (simp_all add: mitm_summary_dict_def)

text \<open>The expected flags and the flags of the capture are the same table.\<close>

lemma expected_is_capture_table: "map_of EXPECTED_KEX_DECRYPTABLE = map_of KEX_DECRYPTABLE_UNDER_CRQC"
  by (rule ext) (simp add: EXPECTED_KEX_DECRYPTABLE_def KEX_DECRYPTABLE_UNDER_CRQC_def)

lemma captured_no_warning:
  "map_of EXPECTED_KEX_DECRYPTABLE config = Some expected \<Longrightarrow>
     field_warning config expected (Some (json_of_opt JBool (kex_decryptable config))) = []"
  by (simp add: field_warning_def kex_decryptable_def expected_is_capture_table json_of_opt_def json_equals_bool_def)

lemma confidentiality_loop_captures:
  "confidentiality_loop (map (\<lambda>(rows, config). hndl_summary_dict (hndl_summarize rows config)) captures) warnings seen_configs =
     Inr (warnings, rev (filter (\<lambda>c. c \<in> set (map fst EXPECTED_KEX_DECRYPTABLE)) (map snd captures)) @ seen_configs)"
proof (induction captures arbitrary: warnings seen_configs)
  case (Cons capture captures)
  obtain rows config where c: "capture = (rows, config)" by (cases capture)
  have flds: "hs_config (hndl_summarize rows config) = config" "hs_kex_decryptable (hndl_summarize rows config) = kex_decryptable config"
    by (simp_all add: hndl_summarize_def Let_def)
  show ?case
  proof (cases "map_of EXPECTED_KEX_DECRYPTABLE config")
    case None
    then have "config \<notin> set (map fst EXPECTED_KEX_DECRYPTABLE)" by (simp add: map_of_eq_None_iff)
    then show ?thesis by (simp add: c config_key_def flds None Cons.IH)
  next
    case (Some expected)
    then have "config \<in> set (map fst EXPECTED_KEX_DECRYPTABLE)" by (metis domI dom_map_of_conv_image_fst list.set_map)
    then show ?thesis
      using captured_no_warning [OF Some] by (simp add: c config_key_def flds Some Cons.IH)
  qed
qed simp

text \<open>
  The cross-check of the confidentiality axis cannot fail on the summaries the capture writes: for
  any captures, of whatever configurations and with whatever rows, the only warning is the list of
  expected configurations without a summary. The flag the check calls measured does not depend on
  the rows of the capture.
\<close>

lemma confidentiality_check_ignores_captures:
  "validate_confidentiality_axis (map (\<lambda>(rows, config). hndl_summary_dict (hndl_summarize rows config)) captures) =
     Inr (let missing = sort (filter (\<lambda>c. c \<notin> set (map snd captures)) (map fst EXPECTED_KEX_DECRYPTABLE)) in
          if missing = [] then [] else [MissingConfigs missing])"
proof -
  have "filter (\<lambda>c. c \<notin> set (rev (filter (\<lambda>c. c \<in> set (map fst EXPECTED_KEX_DECRYPTABLE)) (map snd captures)) @ [])) (map fst EXPECTED_KEX_DECRYPTABLE) =
      filter (\<lambda>c. c \<notin> set (map snd captures)) (map fst EXPECTED_KEX_DECRYPTABLE)"
    by (rule filter_cong) auto
  then show ?thesis
    unfolding validate_confidentiality_axis_def confidentiality_loop_captures bind_res_simps Let_def case_prod_conv by simp
qed

text \<open>The authenticity check of the summaries of tampering experiments always ends.\<close>

definition rate_like :: "json \<Rightarrow> bool" where
  "rate_like j \<longleftrightarrow> j = JNull \<or> (\<exists>r. j = JFloat r)"

lemma update_values: "snd ` set (AList.update k v xs) \<subseteq> insert v (snd ` set xs)"
  by (induction xs) auto

lemma rates_by_config_total:
  assumes "\<And>s. s \<in> set ss \<Longrightarrow> (\<exists>c. map_of s ''config'' = Some (JStr c)) \<and> (\<exists>j. map_of s ''detection_rate'' = Some j \<and> rate_like j)"
    and "\<And>j. j \<in> snd ` set acc \<Longrightarrow> rate_like j"
  shows "\<exists>out. rates_by_config ss acc = Inr out \<and> (\<forall>j \<in> snd ` set out. rate_like j)"
  using assms
proof (induction ss arbitrary: acc)
  case (Cons s ss)
  obtain c j where s: "map_of s ''config'' = Some (JStr c)" "map_of s ''detection_rate'' = Some j" "rate_like j"
    using Cons.prems(1) [of s] by auto
  have "rate_like v" if "v \<in> snd ` set (AList.update c j acc)" for v
    using that update_values [of c j acc] s(3) Cons.prems(2) by blast
  then have "\<exists>out. rates_by_config ss (AList.update c j acc) = Inr out \<and> (\<forall>j \<in> snd ` set out. rate_like j)"
    using Cons.IH [of "AList.update c j acc"] Cons.prems(1) by (meson list.set_intros(2))
  moreover have "\<exists>out. rates_by_config ss acc = Inr out \<and> (\<forall>j \<in> snd ` set out. rate_like j)"
    using Cons.IH [of acc] Cons.prems by (meson list.set_intros(2))
  ultimately show ?case
    by (simp add: config_key_def s(1,2))
qed simp

lemma authenticity_check_total:
  "\<exists>chk. validate_authenticity_near_term
     (map (\<lambda>(rows, config, target). mitm_summary_dict (tamper_summarize sqrt_f rows config target)) runs) = Inr chk"
proof -
  let ?ss = "map (\<lambda>(rows, config, target). mitm_summary_dict (tamper_summarize sqrt_f rows config target)) runs"
  have "\<exists>out. rates_by_config ?ss [] = Inr out \<and> (\<forall>j \<in> snd ` set out. rate_like j)"
    by (rule rates_by_config_total) (auto simp: rate_like_def json_of_opt_def split: option.split)
  then obtain out where out: "rates_by_config ?ss [] = Inr out" "\<forall>j \<in> set (map snd out). rate_like j"
    by auto
  have "\<exists>rs. map_res json_rat (filter (\<lambda>j. j \<noteq> JNull) js) = Inr rs" if "\<forall>j \<in> set js. rate_like j" for js
    using that by (induction js) (auto simp: json_rat_def rate_like_def)
  then show ?thesis
    using out by (auto simp: validate_authenticity_near_term_def Let_def)
qed

end
