(* ===== verification/DashboardProperties.thy ===== *)
theory DashboardProperties
  imports DashboardRuns SecurityValidation
begin

text \<open>
  The dashboard's run selector: no row is lost or shown twice by choosing runs one by one, the
  merged list is in order, and the run it opens with is the latest one.
\<close>

section \<open>Sorting and maxima\<close>

lemma sort_descending_mset [simp]: "mset (sort_descending f xs) = mset xs"
  by (simp add: sort_descending_def)

lemma sort_descending_sorted: "sorted_wrt (\<lambda>a b. f b \<le> f a) (sort_descending f xs)"
proof -
  have "sorted_wrt (\<lambda>a b. f a \<le> f b) (sort_key f (rev xs))"
    using sorted_sort_key [of f "rev xs"] by (simp add: sorted_wrt_map)
  then show ?thesis by (simp add: sort_descending_def sorted_wrt_rev)
qed

lemma first_max_head: "(\<And>y. y \<in> set xs \<Longrightarrow> f y \<le> f x) \<Longrightarrow> first_max f x xs = x"
proof (induction xs)
  case (Cons y xs)
  then have "\<not> f x < f y" by (simp add: leD)
  then show ?case using Cons by (simp add: first_max_def)
qed (simp add: first_max_def)

lemma default_key_first:
  assumes "sorted_wrt (\<lambda>a b. entry_id b \<le> entry_id a) timed"
  shows "default_key_of timed =
    (case filter (\<lambda>e. re_run_id e \<noteq> Some LEGACY_RUN_ID) timed of
       e # _ \<Rightarrow> Some (re_key e)
     | [] \<Rightarrow> (case timed of e # _ \<Rightarrow> Some (re_key e) | [] \<Rightarrow> None))"
proof (cases "filter (\<lambda>e. re_run_id e \<noteq> Some LEGACY_RUN_ID) timed")
  case (Cons e es)
  have "sorted_wrt (\<lambda>a b. entry_id b \<le> entry_id a) (e # es)"
    using sorted_wrt_filter [OF assms, of "\<lambda>e. re_run_id e \<noteq> Some LEGACY_RUN_ID"] unfolding Cons .
  then have "first_max entry_id e es = e" by (intro first_max_head) simp
  then show ?thesis by (simp add: default_key_of_def Cons)
qed (simp add: default_key_of_def split: list.split)

section \<open>Every row belongs to exactly one listed run\<close>

definition rows_of_run :: "'r raw_frame \<Rightarrow> string \<Rightarrow> (string option \<times> 'r) list" where
  "rows_of_run df i = (case select_run df (Some i) of None \<Rightarrow> [] | Some d \<Rightarrow> rf_rows d)"

lemma mset_concat_filter:
  assumes "distinct ks" "\<And>x. x \<in> set xs \<Longrightarrow> f x \<in> set ks"
  shows "mset (concat (map (\<lambda>k. filter (\<lambda>x. f x = k) xs) ks)) = mset xs"
  using assms(2)
proof (induction xs)
  case Nil
  then show ?case by (induction ks) simp_all
next
  case (Cons x xs)
  have step: "mset (concat (map (\<lambda>k. filter (\<lambda>y. f y = k) (x # xs)) ls)) =
      mset (concat (map (\<lambda>k. filter (\<lambda>y. f y = k) xs) ls)) + (if f x \<in> set ls then {#x#} else {#})" if "distinct ls" for ls
    using that by (induction ls) auto
  show ?case using Cons step [OF assms(1)] by simp
qed

lemma filled_rows:
  "length (rf_rows (fill_legacy_run_id df)) = length (rf_rows df)"
  "map snd (rf_rows (fill_legacy_run_id df)) = map snd (rf_rows df)"
  "row \<in> set (rf_rows (fill_legacy_run_id df)) \<Longrightarrow> \<exists>i. fst row = Some i"
  "''run_id'' \<in> set (rf_columns (fill_legacy_run_id df))"
  by (auto simp: fill_legacy_run_id_def case_prod_unfold split: if_splits)

lemma list_runs_filled:
  "set (list_runs (Some (fill_legacy_run_id df))) = {i. Some i \<in> fst ` set (rf_rows (fill_legacy_run_id df))} \<and>
   distinct (list_runs (Some (fill_legacy_run_id df)))"
  by (auto simp: list_runs_def filled_rows(4) map_filter_def image_iff) (metis fst_conv option.sel)+

text \<open>C31
  Choosing runs loses no row and shows none twice: the listed run ids are distinct, the rows of the
  runs, taken together, are exactly the loaded rows (with the rows of old files under the legacy
  id), and no listed run is empty.
\<close>

theorem runs_partition_rows:
  assumes "load_raw_df files = Some df" "Some ''__latest__'' \<notin> fst ` set (rf_rows df)"
  shows "distinct (list_runs (Some (fill_legacy_run_id df))) \<and>
    mset (concat (map (rows_of_run (fill_legacy_run_id df)) (list_runs (Some (fill_legacy_run_id df))))) = mset (rf_rows (fill_legacy_run_id df)) \<and>
    map snd (rf_rows (fill_legacy_run_id df)) = map snd (rf_rows df) \<and>
    (\<forall>i \<in> set (list_runs (Some (fill_legacy_run_id df))). select_run (fill_legacy_run_id df) (Some i) \<noteq> None)"
proof -
  let ?d = "fill_legacy_run_id df"
  let ?ids = "list_runs (Some ?d)"
  have latest: "Some ''__latest__'' \<notin> fst ` set (rf_rows ?d)"
    using assms(2) by (auto simp: fill_legacy_run_id_def LEGACY_RUN_ID_def case_prod_unfold image_iff split: option.splits)
  have sel: "select_run ?d (Some i) = Some (?d \<lparr> rf_rows := filter (\<lambda>row. fst row = Some i) (rf_rows ?d) \<rparr>)" if "i \<in> set ?ids" for i
  proof -
    have "Some i \<in> fst ` set (rf_rows ?d)" using that list_runs_filled [of df] by blast
    moreover from this have "i \<noteq> ''__latest__''" using latest by blast
    moreover have "filter (\<lambda>row. fst row = Some i) (rf_rows ?d) \<noteq> []"
      using calculation(1) by (auto simp: filter_empty_conv) (metis fst_conv)
    ultimately show ?thesis by (simp add: select_run_def Let_def)
  qed
  have "concat (map (rows_of_run ?d) ?ids) = concat (map (\<lambda>i. filter (\<lambda>row. the (fst row) = i) (rf_rows ?d)) ?ids)"
  proof (intro arg_cong [of _ _ concat] map_cong refl)
    show "rows_of_run ?d i = filter (\<lambda>row. the (fst row) = i) (rf_rows ?d)" if "i \<in> set ?ids" for i
    proof -
      have "filter (\<lambda>row. fst row = Some i) (rf_rows ?d) = filter (\<lambda>row. the (fst row) = i) (rf_rows ?d)"
        by (rule filter_cong [OF refl]) (use filled_rows(3) [of _ df] in force)
      then show ?thesis by (simp add: rows_of_run_def sel [OF that])
    qed
  qed
  moreover have "the (fst row) \<in> set ?ids" if "row \<in> set (rf_rows ?d)" for row
    using that list_runs_filled [of df] filled_rows(3) [OF that] by (force simp: image_iff)
  then have "mset (concat (map (\<lambda>i. filter (\<lambda>row. the (fst row) = i) (rf_rows ?d)) ?ids)) = mset (rf_rows ?d)"
    using list_runs_filled [of df] by (intro mset_concat_filter) auto
  ultimately show ?thesis
    using list_runs_filled [of df] sel filled_rows(2) [of df] by simp
qed

lemma runs_partition_rows_witness:
  "list_runs (Some (fill_legacy_run_id \<lparr> rf_columns = [''run_id''], rf_rows = [(Some ''b'', 1 :: nat), (None, 2), (Some ''b'', 3)] \<rparr>)) =
     [''legacy'', ''b''] \<and>
   mset (concat (map (rows_of_run (fill_legacy_run_id \<lparr> rf_columns = [''run_id''], rf_rows = [(Some ''b'', 1 :: nat), (None, 2), (Some ''b'', 3)] \<rparr>)) [''legacy'', ''b''])) =
     mset [(Some ''b'', 1), (Some ''legacy'', 2), (Some ''b'', 3)]"
proof -
  let ?df = "\<lparr> rf_columns = [''run_id''], rf_rows = [(Some ''b'', 1 :: nat), (None, 2), (Some ''b'', 3)] \<rparr>"
  have l: "load_raw_df [Inr ?df] = Some ?df"
    by (simp add: load_raw_df_def map_filter_def concat_frames_def)
  have r: "rf_rows (fill_legacy_run_id ?df) = [(Some ''b'', 1), (Some ''legacy'', 2), (Some ''b'', 3)]"
    by (simp add: fill_legacy_run_id_def LEGACY_RUN_ID_def)
  have ids: "list_runs (Some (fill_legacy_run_id ?df)) = [''legacy'', ''b'']"
    by code_simp
  show ?thesis
    using runs_partition_rows [OF l] unfolding ids r by simp
qed

section \<open>The merged list\<close>

text \<open>
  The merged selector: below the entries for all runs of a kind, it lists every run of both sweeps
  exactly once, latest first; it opens with the first run of the list that is not legacy data, and
  with the first of the list only when there is no other.
\<close>

lemma selector_opens_with_latest:
  assumes "get_unified_runs render dash number conc_files stream_files = Inr (entries, dflt)"
    and "get_available_streaming_runs stream_files = Inr (stream_runs, latest)"
  shows "\<exists>combined timed. entries = combined @ timed \<and> (\<forall>e \<in> set combined. re_run_id e = None) \<and>
    mset (map re_key timed) = mset (map (\<lambda>i. (Concurrency, Some i)) (fst (get_available_runs conc_files)) @ map (\<lambda>i. (Streaming, Some i)) stream_runs) \<and>
    sorted_wrt (\<lambda>a b. entry_id b \<le> entry_id a) timed \<and>
    dflt = (case filter (\<lambda>e. re_run_id e \<noteq> Some LEGACY_RUN_ID) timed of
      e # _ \<Rightarrow> Some (re_key e)
    | [] \<Rightarrow> (case timed of e # _ \<Rightarrow> Some (re_key e) | [] \<Rightarrow> None))"
proof -
  let ?conc = "fst (get_available_runs conc_files)"
  let ?timed = "timed_entries render dash ?conc stream_runs"
  let ?combined = "concat (map (all_entry number) [(Concurrency, ?conc), (Streaming, stream_runs)])"
  have e: "entries = ?combined @ ?timed" "dflt = default_key_of ?timed"
    using assms by (auto simp: get_unified_runs_def Let_def)
  have s: "sorted_wrt (\<lambda>a b. entry_id b \<le> entry_id a) ?timed"
    by (simp add: timed_entries_def sort_descending_sorted)
  have "mset (map re_key ?timed) = image_mset re_key (mset ?timed)"
    by simp
  also have "\<dots> = mset (map re_key (map (timed_entry_of render dash Concurrency) ?conc @ map (timed_entry_of render dash Streaming) stream_runs))"
    unfolding timed_entries_def sort_descending_mset by (simp only: mset_map)
  also have "\<dots> = mset (map (\<lambda>i. (Concurrency, Some i)) ?conc @ map (\<lambda>i. (Streaming, Some i)) stream_runs)"
    by (simp add: comp_def re_key_def timed_entry_of_def)
  finally have m: "mset (map re_key ?timed) = mset (map (\<lambda>i. (Concurrency, Some i)) ?conc @ map (\<lambda>i. (Streaming, Some i)) stream_runs)" .
  have "re_run_id x = None" if "x \<in> set ?combined" for x
    using that by (auto simp: all_entry_def split: if_splits)
  then show ?thesis
    using e s m default_key_first [OF s] by blast
qed

section \<open>The analytic signature count\<close>

text \<open>The dashboard's analytic formula counts what the validation model expects of a checkpointed chain.\<close>

lemma analytic_count_agrees:
  assumes "0 < chunk"
  shows "\<exists>bytes exposure. analytic_signature_bytes n_tokens chunk k sig_bytes = Inr (nat (projr (expected_signature_count ''hash_chain''
      (int ((n_tokens + chunk - 1) div chunk)) (map_option int k) pv)), bytes, exposure)"
  using assms by (auto simp: analytic_signature_bytes_def expected_signature_count_def Let_def nat_add_distrib
      zdiv_int [symmetric] split: option.split)

end
