(* ===== verification/StreamingAnalysis.thy ===== *)
theory StreamingAnalysis
  imports Aggregate
begin

text \<open>
  \<^verbatim>\<open>analysis/streaming_analysis.py\<close>: the summary of the streaming sweep's rows and the
  comparison of the strategies. A missing number is \<open>None\<close>; a quotient by zero, infinite in
  pandas, is not told apart from a missing one.
\<close>

section \<open>Rows and summaries\<close>

record stream_meas =
  qm_config :: string
  qm_strategy :: string
  qm_max_tokens :: int
  qm_chunk_size :: int
  qm_error :: "string option"
  qm_value :: "string \<Rightarrow> rat option"
  qm_verified :: "bool option"

type_synonym stream_cell = "string \<times> int \<times> int \<times> string"

definition stream_cell_of :: "stream_meas \<Rightarrow> stream_cell" where
  "stream_cell_of r = (qm_config r, qm_max_tokens r, qm_chunk_size r, qm_strategy r)"

definition succeeded :: "stream_meas \<Rightarrow> bool" where
  "succeeded r \<longleftrightarrow> qm_error r = None \<or> qm_error r = Some []"

text \<open>\<^verbatim>\<open>Series.mean\<close> and \<^verbatim>\<open>median\<close> skip missing values.\<close>

definition column :: "string \<Rightarrow> stream_meas list \<Rightarrow> rat list" where
  "column col rows = List.map_filter (\<lambda>r. qm_value r col) rows"

definition over_column :: "(rat list \<Rightarrow> rat) \<Rightarrow> string \<Rightarrow> stream_meas list \<Rightarrow> rat option" where
  "over_column f col rows = (if column col rows = [] then None else Some (f (column col rows)))"

record stream_summary =
  qs_cell :: stream_cell
  qs_n_repetitions :: nat
  qs_ttft_ms_mean :: "rat option"
  qs_ttft_ms_median :: "rat option"
  qs_total_ms_mean :: "rat option"
  qs_n_chunks_mean :: "rat option"
  qs_signature_bytes_mean :: "rat option"
  qs_signing_ms_mean :: "rat option"
  qs_verify_ms_mean :: "rat option"
  qs_all_verified :: bool

text \<open>\<^verbatim>\<open>astype(bool)\<close> turns a missing verdict into \<^verbatim>\<open>True\<close>.\<close>

definition verdict :: "stream_meas \<Rightarrow> bool" where
  "verdict r = (case qm_verified r of None \<Rightarrow> True | Some b \<Rightarrow> b)"

definition summarize_stream_cell :: "stream_meas list \<Rightarrow> stream_cell \<Rightarrow> stream_summary" where
  "summarize_stream_cell ok cell =
     (let grp = filter (\<lambda>r. stream_cell_of r = cell) ok in
      \<lparr> qs_cell = cell, qs_n_repetitions = length grp, qs_ttft_ms_mean = over_column mean ''ttft_ms'' grp,
        qs_ttft_ms_median = over_column median ''ttft_ms'' grp, qs_total_ms_mean = over_column mean ''total_ms'' grp,
        qs_n_chunks_mean = over_column mean ''n_chunks'' grp, qs_signature_bytes_mean = over_column mean ''total_signature_bytes'' grp,
        qs_signing_ms_mean = over_column mean ''total_signing_ms'' grp, qs_verify_ms_mean = over_column mean ''total_verify_ms'' grp,
        qs_all_verified = list_all verdict grp \<rparr>)"

text \<open>An empty result has no columns to sort by.\<close>

definition summarize_streams :: "stream_meas list \<Rightarrow> stream_summary list res" where
  "summarize_streams df =
     (let ok = filter succeeded df in
      if ok = [] then Inl KeyError
      else Inr (map (summarize_stream_cell ok) (group_keys stream_cell_of ok)))"

section \<open>Comparing the strategies\<close>

record strategy_row =
  sy_strategy :: string
  sy_ttft_ms_mean :: "rat option"
  sy_ttft_speedup :: "rat option"
  sy_signature_bytes_mean :: "rat option"
  sy_bytes_reduction :: "rat option"
  sy_all_verified :: bool

definition quotient :: "rat option \<Rightarrow> rat option \<Rightarrow> rat option" where
  "quotient a b = (case (a, b) of (Some x, Some y) \<Rightarrow> if y = 0 then None else Some (x / y) | _ \<Rightarrow> None)"

definition strategy_of :: "stream_summary \<Rightarrow> string" where
  "strategy_of s = snd (snd (snd (qs_cell s)))"

text \<open>The value of the first row of a strategy; \<open>None\<close> when there is none or it is zero, hence false.\<close>

definition reference_value :: "(stream_summary \<Rightarrow> rat option) \<Rightarrow> string \<Rightarrow> stream_summary list \<Rightarrow> rat option" where
  "reference_value f strategy sub =
     (case filter (\<lambda>s. strategy_of s = strategy) sub of
        [] \<Rightarrow> None | s # _ \<Rightarrow> if f s = Some 0 then None else f s)"

definition strategy_row_of :: "rat option \<Rightarrow> rat option \<Rightarrow> stream_summary \<Rightarrow> strategy_row" where
  "strategy_row_of baseline_ttft per_chunk_bytes s =
     \<lparr> sy_strategy = strategy_of s, sy_ttft_ms_mean = qs_ttft_ms_mean s,
       sy_ttft_speedup = quotient baseline_ttft (qs_ttft_ms_mean s), sy_signature_bytes_mean = qs_signature_bytes_mean s,
       sy_bytes_reduction = map_option (\<lambda>q. 1 - q) (quotient (qs_signature_bytes_mean s) per_chunk_bytes),
       sy_all_verified = qs_all_verified s \<rparr>"

definition at_scale :: "string \<Rightarrow> int \<Rightarrow> int \<Rightarrow> stream_summary \<Rightarrow> bool" where
  "at_scale config max_tokens chunk_size_tokens s \<longleftrightarrow>
     fst (qs_cell s) = config \<and> fst (snd (qs_cell s)) = max_tokens \<and> fst (snd (snd (qs_cell s))) = chunk_size_tokens"

definition strategy_comparison_at :: "stream_meas list \<Rightarrow> string \<Rightarrow> int \<Rightarrow> int \<Rightarrow> strategy_row list res" where
  "strategy_comparison_at df config max_tokens chunk_size_tokens =
     bind_res (summarize_streams df) (\<lambda>summary.
       let sub = filter (at_scale config max_tokens chunk_size_tokens) summary in
       Inr (map (strategy_row_of (reference_value qs_ttft_ms_mean ''buffer_and_sign'' sub)
              (reference_value qs_signature_bytes_mean ''per_chunk'' sub)) sub))"

section \<open>Facts\<close>

lemma summary_cells:
  "summarize_streams df = Inr summary \<Longrightarrow>
     map qs_cell summary = group_keys stream_cell_of (filter succeeded df)"
  by (auto simp: summarize_streams_def Let_def summarize_stream_cell_def comp_def split: if_splits)

lemma sum_list_groups:
  assumes "distinct ks" "\<And>x. x \<in> set xs \<Longrightarrow> f x \<in> set ks"
  shows "sum_list (map (\<lambda>k. length (filter (\<lambda>x. f x = k) xs)) ks) = length xs"
  using assms(2)
proof (induction xs)
  case Nil
  then show ?case by (induction ks) simp_all
next
  case (Cons x xs)
  have "sum_list (map (\<lambda>k. length (filter (\<lambda>y. f y = k) (x # xs))) ls) =
      sum_list (map (\<lambda>k. length (filter (\<lambda>y. f y = k) xs)) ls) + (if f x \<in> set ls then 1 else 0)" if "distinct ls" for ls
    using that by (induction ls) auto
  then show ?case using Cons assms(1) by simp
qed

text \<open>The summary accounts for every successful row once and fails exactly when there is none.\<close>

lemma streaming_summary_accounts:
  "(summarize_streams df = Inl KeyError \<longleftrightarrow> filter succeeded df = []) \<and>
   (\<forall>summary. summarize_streams df = Inr summary \<longrightarrow> distinct (map qs_cell summary) \<and>
      sum_list (map qs_n_repetitions summary) = length (filter succeeded df))"
proof -
  let ?ok = "filter succeeded df"
  let ?keys = "group_keys stream_cell_of ?ok"
  have "sum_list (map (\<lambda>k. length (filter (\<lambda>r. stream_cell_of r = k) ?ok)) ?keys) = length ?ok"
    by (rule sum_list_groups) (simp_all add: group_keys_def)
  moreover have "map qs_n_repetitions (map (summarize_stream_cell ?ok) ?keys) = map (\<lambda>k. length (filter (\<lambda>r. stream_cell_of r = k) ?ok)) ?keys"
    by (simp add: summarize_stream_cell_def Let_def)
  moreover have "distinct (map qs_cell summary)" if "summarize_streams df = Inr summary" for summary
    unfolding summary_cells [OF that] by (simp add: group_keys_def)
  moreover have "summarize_streams df = Inr (map (summarize_stream_cell ?ok) ?keys)" if "?ok \<noteq> []"
    using that by (simp add: summarize_streams_def Let_def)
  moreover have "summarize_streams df = Inl KeyError" if "?ok = []"
    using that by (simp add: summarize_streams_def Let_def)
  ultimately show ?thesis
    by (metis sum.distinct(1) sum.inject(2))
qed

text \<open>The strategies the ratios refer to compare with themselves as 1 and 0.\<close>

lemma reference_value_unique:
  assumes "distinct (map qs_cell sub)" "list_all (at_scale config max_tokens chunk) sub" "x \<in> set sub"
  shows "reference_value f (strategy_of x) sub = (if f x = Some 0 then None else f x)"
proof -
  have only: "y = x" if "y \<in> set sub" "strategy_of y = strategy_of x" for y
  proof -
    have "qs_cell y = qs_cell x"
      using that assms(2,3) by (simp add: list_all_iff at_scale_def strategy_of_def prod_eq_iff)
    then show ?thesis
      using assms(1,3) that(1) by (meson distinct_map inj_onD)
  qed
  obtain y ys where y: "filter (\<lambda>s. strategy_of s = strategy_of x) sub = y # ys"
    using assms(3) by (cases "filter (\<lambda>s. strategy_of s = strategy_of x) sub") (auto simp: filter_empty_conv)
  then have "y \<in> set (filter (\<lambda>s. strategy_of s = strategy_of x) sub)" by simp
  then have "y = x" using only by simp
  then show ?thesis by (simp add: reference_value_def y)
qed

lemma comparison_normalised:
  assumes "strategy_comparison_at df config max_tokens chunk = Inr rows" "row \<in> set rows"
  shows "(sy_strategy row = ''buffer_and_sign'' \<longrightarrow> sy_ttft_speedup row \<in> {None, Some 1}) \<and>
    (sy_strategy row = ''per_chunk'' \<longrightarrow> sy_bytes_reduction row \<in> {None, Some 0})"
proof -
  obtain summary where s: "summarize_streams df = Inr summary" using assms(1) by (auto simp: strategy_comparison_at_def)
  define sub where "sub = filter (at_scale config max_tokens chunk) summary"
  have d: "distinct (map qs_cell sub)" "list_all (at_scale config max_tokens chunk) sub"
    using summary_cells [OF s] by (simp_all add: sub_def distinct_map_filter group_keys_def list_all_iff)
  obtain x where x: "x \<in> set sub" "row = strategy_row_of (reference_value qs_ttft_ms_mean ''buffer_and_sign'' sub)
      (reference_value qs_signature_bytes_mean ''per_chunk'' sub) x"
    using assms unfolding strategy_comparison_at_def s bind_res_simps Let_def sub_def [symmetric] by auto
  have st: "sy_strategy row = strategy_of x" by (simp add: x(2) strategy_row_of_def)
  have "sy_ttft_speedup row \<in> {None, Some 1}" if "sy_strategy row = ''buffer_and_sign''"
    using reference_value_unique [OF d x(1), of qs_ttft_ms_mean] that unfolding st
    by (cases "qs_ttft_ms_mean x") (simp_all add: x(2) strategy_row_of_def quotient_def)
  moreover have "sy_bytes_reduction row \<in> {None, Some 0}" if "sy_strategy row = ''per_chunk''"
    using reference_value_unique [OF d x(1), of qs_signature_bytes_mean] that unfolding st
    by (cases "qs_signature_bytes_mean x") (simp_all add: x(2) strategy_row_of_def quotient_def)
  ultimately show ?thesis by blast
qed

end
