(* ===== verification/PaperStatistics.thy ===== *)
theory PaperStatistics
  imports StreamingAnalysis JsonAccess "HOL-Library.State_Monad"
begin

text \<open>
  The statistics of \<^verbatim>\<open>analysis/paper_figures.py\<close>: which rows the paper uses, the per-cell
  statistics, the bootstrap comparison of two configurations with Holm's correction, and the
  dominance relation that replaces a weighted score. NumPy's random generator, SciPy's Mann-Whitney
  test and its beta quantiles are parameters; the generator's state is threaded by the state monad.
  A quotient by zero, infinite or NaN in NumPy, is \<open>None\<close>.
\<close>

section \<open>The rows the paper uses\<close>

record paper_row =
  pw_run_id :: "string option"
  pw_payload_profile :: "string option"
  pw_network_profile :: "string option"
  pw_requests_per_handshake :: "int option"
  pw_meas :: meas

record paper_frame =
  pf_columns :: "string list"
  pf_rows :: "paper_row list"

definition or_default :: "string list \<Rightarrow> string \<Rightarrow> 'a \<Rightarrow> 'a option \<Rightarrow> 'a option" where
  "or_default columns col dflt v = (if col \<in> set columns then Some (case v of None \<Rightarrow> dflt | Some x \<Rightarrow> x) else v)"

definition with_defaults :: "string list \<Rightarrow> paper_row \<Rightarrow> paper_row" where
  "with_defaults columns r = r
     \<lparr> pw_payload_profile := or_default columns ''payload_profile'' ''tabular_small'' (pw_payload_profile r),
       pw_network_profile := or_default columns ''network_profile'' ''localhost'' (pw_network_profile r),
       pw_requests_per_handshake := or_default columns ''requests_per_handshake'' 1 (pw_requests_per_handshake r) \<rparr>"

text \<open>The joined key of a cell: a column the frame lacks is not part of it.\<close>

type_synonym paper_key = "string \<times> string option \<times> string option \<times> int option"

definition paper_key_of :: "string list \<Rightarrow> paper_row \<Rightarrow> paper_key" where
  "paper_key_of columns r =
     (me_config (pw_meas r),
      if ''payload_profile'' \<in> set columns then pw_payload_profile r else None,
      if ''network_profile'' \<in> set columns then pw_network_profile r else None,
      if ''requests_per_handshake'' \<in> set columns then pw_requests_per_handshake r else None)"

text \<open>\<^verbatim>\<open>astype(str)\<close>\<close>

definition run_text :: "paper_row \<Rightarrow> string" where
  "run_text r = (case pw_run_id r of None \<Rightarrow> ''nan'' | Some i \<Rightarrow> i)"

definition latest_run_per_cell :: "paper_frame \<Rightarrow> paper_frame" where
  "latest_run_per_cell df =
     (if ''run_id'' \<notin> set (pf_columns df) \<or> list_all (\<lambda>r. pw_run_id r = None) (pf_rows df) then df
      else
        let rows = map (with_defaults (pf_columns df)) (pf_rows df);
            key = paper_key_of (pf_columns df);
            latest = (\<lambda>r. Max (set (map run_text (filter (\<lambda>q. key q = key r) rows)))) in
        df \<lparr> pf_rows := filter (\<lambda>r. run_text r = latest r) rows \<rparr>)"

text \<open>A cell whose requests were all answered 404 is dropped.\<close>

definition is_404 :: "paper_row \<Rightarrow> bool" where
  "is_404 r = (case me_error (pw_meas r) of None \<Rightarrow> False | Some e \<Rightarrow> has_substring e ''404'')"

definition attempt_key :: "paper_row \<Rightarrow> string \<times> string \<times> int \<times> int" where
  "attempt_key r = (run_text r, me_config (pw_meas r), me_concurrency (pw_meas r), me_repetition (pw_meas r))"

definition drop_404_cells :: "paper_row list \<Rightarrow> paper_row list" where
  "drop_404_cells rows = filter (\<lambda>r. \<not> list_all is_404 (filter (\<lambda>q. attempt_key q = attempt_key r) rows)) rows"

definition paper_meas :: "paper_row \<Rightarrow> meas" where
  "paper_meas r = (pw_meas r) \<lparr> me_run_id := run_text r \<rparr>"

text \<open>Without run ids the rows written before run ids existed; \<open>None\<close> is \<^verbatim>\<open>SystemExit\<close>.\<close>

definition LEGACY_LABEL :: string where
  "LEGACY_LABEL = ''legacy (pre-run_id) rows -- original 2026-08-22 sweep, partially overwritten''"

fun comma_join :: "string list \<Rightarrow> string" where
  "comma_join [] = []"
| "comma_join [x] = x"
| "comma_join (x # xs) = x @ '', '' @ comma_join xs"

definition select_runs :: "paper_frame \<Rightarrow> string list \<Rightarrow> paper_frame \<times> bool \<times> string" where
  "select_runs raw run_ids =
     (if run_ids \<noteq> []
      then (latest_run_per_cell (raw \<lparr> pf_rows := filter (\<lambda>r. run_text r \<in> set run_ids) (pf_rows raw) \<rparr>), False, comma_join run_ids)
      else (if ''run_id'' \<in> set (pf_columns raw) then raw \<lparr> pf_rows := filter (\<lambda>r. pw_run_id r = None) (pf_rows raw) \<rparr> else raw,
            True, LEGACY_LABEL))"

definition load_concurrency :: "paper_frame \<Rightarrow> string list \<Rightarrow> rat \<Rightarrow> (frame \<times> bool \<times> string) option" where
  "load_concurrency raw run_ids warmup =
     (case select_runs raw run_ids of (df, provisional, label) \<Rightarrow>
        if pf_rows df = [] then None
        else Some (discard_warmup \<lparr> fr_columns = pf_columns df, fr_rows = map paper_meas (drop_404_cells (pf_rows df)) \<rparr> warmup,
                   provisional, label))"

section \<open>Statistics of a cell\<close>

record conc_stats =
  cn_config :: string
  cn_concurrency :: int
  cn_n_attempted :: nat
  cn_n_ok :: nat
  cn_n_reps :: nat
  cn_error_rate :: rat
  cn_median :: "rat option"
  cn_q25 :: "rat option"
  cn_q75 :: "rat option"
  cn_p95 :: "rat option"
  cn_p99 :: "rat option"
  cn_rep_min :: "rat option"
  cn_rep_max :: "rat option"

definition if_any :: "rat list \<Rightarrow> (rat list \<Rightarrow> rat) \<Rightarrow> rat option" where
  "if_any xs f = (if xs = [] then None else Some (f xs))"

definition rep_groups :: "meas list \<Rightarrow> rat list list" where
  "rep_groups rows = map (\<lambda>rep. values_of ''total_ms'' (filter (\<lambda>r. me_repetition r = rep) rows)) (group_keys me_repetition rows)"

definition conc_stats_of :: "meas list \<Rightarrow> string \<times> int \<Rightarrow> conc_stats" where
  "conc_stats_of rows cell =
     (let g = filter (\<lambda>r. (me_config r, me_concurrency r) = cell) rows;
          okg = filter (\<lambda>r. \<not> is_err r) g;
          ok = values_of ''total_ms'' okg;
          rep_med = map median (filter (\<lambda>xs. xs \<noteq> []) (rep_groups okg)) in
      \<lparr> cn_config = fst cell, cn_concurrency = snd cell, cn_n_attempted = length g, cn_n_ok = length ok,
        cn_n_reps = length (group_keys me_repetition g),
        cn_error_rate = of_nat (length (filter is_err g)) / of_nat (length g),
        cn_median = if_any ok median, cn_q25 = if_any ok (\<lambda>xs. percentile xs 25), cn_q75 = if_any ok (\<lambda>xs. percentile xs 75),
        cn_p95 = if_any ok (\<lambda>xs. percentile xs 95), cn_p99 = if_any ok (\<lambda>xs. percentile xs 99),
        cn_rep_min = if_any rep_med (\<lambda>xs. Min (set xs)), cn_rep_max = if_any rep_med (\<lambda>xs. Max (set xs)) \<rparr>)"

definition concurrency_stats :: "meas list \<Rightarrow> conc_stats list" where
  "concurrency_stats rows = map (conc_stats_of rows) (group_keys (\<lambda>r. (me_config r, me_concurrency r)) rows)"

section \<open>Comparing two configurations\<close>

text \<open>NumPy's generator: \<^verbatim>\<open>integers(0, n, size)\<close> and \<^verbatim>\<open>choice(xs, size)\<close>.\<close>

record 'g np_generator =
  gn_integers :: "nat \<Rightarrow> nat \<Rightarrow> ('g, nat list) state"
  gn_choice :: "rat list \<Rightarrow> nat \<Rightarrow> ('g, rat list) state"

definition BOOT_B :: nat where
  "BOOT_B = 1000"

definition BOOT_CAP :: nat where
  "BOOT_CAP = 3000"

definition rep_arrays :: "meas list \<Rightarrow> string \<Rightarrow> int \<Rightarrow> rat list list" where
  "rep_arrays ok cfg conc = rep_groups (filter (\<lambda>r. me_config r = cfg \<and> me_concurrency r = conc) ok)"

definition boot_draw :: "'g np_generator \<Rightarrow> rat list list \<Rightarrow> ('g, rat list) state" where
  "boot_draw gn reps = do {
     picks \<leftarrow> gn_integers gn (length reps) (length reps);
     draws \<leftarrow> State_Monad.traverse_list (\<lambda>k. gn_choice gn (reps ! k) (min (length (reps ! k)) BOOT_CAP)) picks;
     State_Monad.return (concat draws)
   }"

definition hboot_diff :: "'g np_generator \<Rightarrow> rat list list \<Rightarrow> rat list list \<Rightarrow> ('g, rat list) state" where
  "hboot_diff gn a b = State_Monad.traverse_list (\<lambda>_. do {
     xs \<leftarrow> boot_draw gn a;
     ys \<leftarrow> boot_draw gn b;
     State_Monad.return (median xs - median ys)
   }) [0..<BOOT_B]"

definition over :: "rat \<Rightarrow> rat \<Rightarrow> rat option" where
  "over x y = (if y = 0 then None else Some (x / y))"

definition cliffs_delta :: "(rat list \<Rightarrow> rat list \<Rightarrow> rat) \<Rightarrow> rat list \<Rightarrow> rat list \<Rightarrow> rat option" where
  "cliffs_delta mw_u x y = map_option (\<lambda>q. q - 1) (over (2 * mw_u x y) (of_nat (length x * length y)))"

text \<open>Holm's step-down correction: indices by p-value, the running maximum capped at 1.\<close>

fun holm_loop :: "nat \<Rightarrow> nat \<Rightarrow> rat \<Rightarrow> rat list \<Rightarrow> nat list \<Rightarrow> rat list \<Rightarrow> rat list" where
  "holm_loop m rank running pvals [] adj = adj"
| "holm_loop m rank running pvals (idx # rest) adj =
     (let running' = max running (of_nat (m - rank) * pvals ! idx) in
      holm_loop m (Suc rank) running' pvals rest (adj[idx := min 1 running']))"

definition holm :: "rat list \<Rightarrow> rat list" where
  "holm pvals = holm_loop (length pvals) 0 0 pvals (sort_key (\<lambda>i. pvals ! i) [0..<length pvals]) (replicate (length pvals) 0)"

record comparison =
  cq_concurrency :: int
  cq_config :: string
  cq_reference :: string
  cq_diff_ms :: rat
  cq_ci95_lo :: rat
  cq_ci95_hi :: rat
  cq_ci90_lo :: rat
  cq_ci90_hi :: rat
  cq_ref_median :: rat
  cq_diff_pct :: "rat option"
  cq_p_rep :: rat
  cq_cliffs_delta :: "rat option"
  cq_n_reps :: "nat \<times> nat"
  cq_p_holm :: rat

text \<open>One pair at one level; fewer than two repetitions on either side give no row.\<close>

definition compare_pair ::
  "'g np_generator \<Rightarrow> (rat list \<Rightarrow> rat list \<Rightarrow> rat) \<Rightarrow> (rat list \<Rightarrow> rat list \<Rightarrow> rat) \<Rightarrow> meas list \<Rightarrow> int \<times> string \<times> string
     \<Rightarrow> ('g, comparison list) state" where
  "compare_pair gn mw_u mw_p ok row =
     (case row of (conc, cfg, ref) \<Rightarrow>
        let a = rep_arrays ok cfg conc; b = rep_arrays ok ref conc in
        if length a < 2 \<or> length b < 2 then State_Monad.return []
        else
          let ref_med = median (concat b); diff = median (concat a) - ref_med in
          do {
            boot \<leftarrow> hboot_diff gn a b;
            State_Monad.return [\<lparr> cq_concurrency = conc, cq_config = cfg, cq_reference = ref, cq_diff_ms = diff,
              cq_ci95_lo = percentile boot (5 / 2), cq_ci95_hi = percentile boot (195 / 2),
              cq_ci90_lo = percentile boot 5, cq_ci90_hi = percentile boot 95, cq_ref_median = ref_med,
              cq_diff_pct = over (100 * diff) ref_med, cq_p_rep = mw_p (map median a) (map median b),
              cq_cliffs_delta = cliffs_delta mw_u (concat a) (concat b), cq_n_reps = (length a, length b), cq_p_holm = 0 \<rparr>]
          })"

text \<open>The Holm family of a row: all rows with its level and its reference.\<close>

definition holm_family :: "comparison list \<Rightarrow> int \<times> string \<Rightarrow> nat list" where
  "holm_family res k = filter (\<lambda>i. (cq_concurrency (res ! i), cq_reference (res ! i)) = k) [0..<length res]"

definition with_holm :: "comparison list \<Rightarrow> comparison list" where
  "with_holm res = map (\<lambda>i.
     let fam = holm_family res (cq_concurrency (res ! i), cq_reference (res ! i));
         adj = holm (map (\<lambda>j. cq_p_rep (res ! j)) fam) in
     (res ! i) \<lparr> cq_p_holm := adj ! (length (filter (\<lambda>j. j < i) fam)) \<rparr>) [0..<length res]"

definition comparison_stats ::
  "'g np_generator \<Rightarrow> (rat list \<Rightarrow> rat list \<Rightarrow> rat) \<Rightarrow> (rat list \<Rightarrow> rat list \<Rightarrow> rat) \<Rightarrow> meas list \<Rightarrow> (string \<times> string) list \<Rightarrow> 'g
     \<Rightarrow> comparison list" where
  "comparison_stats gn mw_u mw_p rows pairs rng =
     (let ok = filter (\<lambda>r. \<not> is_err r) rows;
          cells = concat (map (\<lambda>conc. map (\<lambda>(cfg, ref). (conc, cfg, ref)) pairs) (group_keys me_concurrency ok)) in
      with_holm (concat (fst (run_state (State_Monad.traverse_list (compare_pair gn mw_u mw_p ok) cells) rng))))"

section \<open>Equivalence and failures\<close>

definition EQUIV_MARGIN_PCT :: rat where
  "EQUIV_MARGIN_PCT = 5"

text \<open>\<open>100 * x / ref < bound\<close> in floating point: a zero reference makes the quotient infinite or NaN.\<close>

definition pct_below :: "rat \<Rightarrow> rat \<Rightarrow> rat \<Rightarrow> bool" where
  "pct_below x ref bound = (if ref = 0 then x < 0 else 100 * x / ref < bound)"

definition pct_above :: "rat \<Rightarrow> rat \<Rightarrow> rat \<Rightarrow> bool" where
  "pct_above x ref bound = (if ref = 0 then 0 < x else bound < 100 * x / ref)"

definition equiv_verdict :: "rat \<Rightarrow> comparison \<Rightarrow> bool" where
  "equiv_verdict margin r \<longleftrightarrow> pct_above (cq_ci90_lo r) (cq_ref_median r) (- margin) \<and> pct_below (cq_ci90_hi r) (cq_ref_median r) margin"

definition err_kind :: "string \<Rightarrow> string" where
  "err_kind e =
     (case List.find (\<lambda>(key, _). has_substring e key)
        [(''Timeout'', ''timeout''), (''ReadError'', ''reset''), (''RemoteProtocolError'', ''reset''), (''ConnectError'', ''refused''),
         (''HTTP 5'', ''HTTP 5xx''), (''HTTP 4'', ''HTTP 4xx'')] of
        Some (_, kind) \<Rightarrow> kind | None \<Rightarrow> ''other'')"

definition clopper_pearson_ci :: "(rat \<Rightarrow> nat \<Rightarrow> nat \<Rightarrow> rat) \<Rightarrow> nat \<Rightarrow> nat \<Rightarrow> rat \<Rightarrow> rat \<times> rat" where
  "clopper_pearson_ci beta_ppf k n alpha =
     (if k = 0 then 0 else beta_ppf (alpha / 2) k (n - k + 1), if k = n then 1 else beta_ppf (1 - alpha / 2) (k + 1) (n - k))"

section \<open>Dominance\<close>

definition PAPER_PROTECTED :: "string list" where
  "PAPER_PROTECTED = [''classical'', ''classical_ecdhe'', ''hybrid'', ''hybrid_kex'', ''full_pqc'', ''hybrid_kex_pq'']"

definition SEC_AXES :: "(string \<times> (string \<times> nat) list) list" where
  "SEC_AXES =
     [(''KEX vs.'' @ [CHR 0x5C] @ '' CRQC'', [(''classical'', 0), (''classical_ecdhe'', 0), (''hybrid'', 1), (''hybrid_kex'', 1), (''full_pqc'', 1), (''hybrid_kex_pq'', 1)]),
      (''KEX if ML-KEM breaks'', [(''classical'', 1), (''classical_ecdhe'', 1), (''hybrid'', 0), (''hybrid_kex'', 1), (''full_pqc'', 0), (''hybrid_kex_pq'', 1)]),
      (''Sig.'' @ [CHR 0x5C] @ '' vs.'' @ [CHR 0x5C] @ '' CRQC'', [(''classical'', 0), (''classical_ecdhe'', 0), (''hybrid'', 0), (''hybrid_kex'', 0), (''full_pqc'', 1), (''hybrid_kex_pq'', 1)])]"

definition sec_values :: "string \<Rightarrow> nat option list" where
  "sec_values c = map (\<lambda>(_, ax). map_of ax c) SEC_AXES"

definition lat_not_worse :: "comparison list \<Rightarrow> string \<Rightarrow> string \<Rightarrow> int \<Rightarrow> bool \<times> bool" where
  "lat_not_worse pw a b conc =
     (case filter (\<lambda>r. cq_concurrency r = conc \<and> ((cq_config r = a \<and> cq_reference r = b) \<or> (cq_config r = b \<and> cq_reference r = a))) pw of
        [] \<Rightarrow> (True, False)
      | r # _ \<Rightarrow>
          let (hi, ref) = (if cq_config r = a then (cq_ci90_hi r, cq_ref_median r)
                           else (- cq_ci90_lo r, cq_ref_median r + cq_diff_ms r)) in
          (pct_below hi ref EQUIV_MARGIN_PCT, pct_below hi ref (- EQUIV_MARGIN_PCT)))"

definition axis_at_least :: "nat option \<Rightarrow> nat option \<Rightarrow> bool" where
  "axis_at_least x y = (case (x, y) of (Some u, Some v) \<Rightarrow> v \<le> u | _ \<Rightarrow> False)"

definition axis_better :: "nat option \<Rightarrow> nat option \<Rightarrow> bool" where
  "axis_better x y = (case (x, y) of (Some u, Some v) \<Rightarrow> v < u | _ \<Rightarrow> False)"

definition sec_at_least :: "string \<Rightarrow> string \<Rightarrow> bool" where
  "sec_at_least a b \<longleftrightarrow> list_all2 axis_at_least (sec_values a) (sec_values b)"

definition sec_better_somewhere :: "string \<Rightarrow> string \<Rightarrow> bool" where
  "sec_better_somewhere a b \<longleftrightarrow> list_ex (\<lambda>(x, y). axis_better x y) (zip (sec_values a) (sec_values b))"

definition dominates :: "comparison list \<Rightarrow> int list \<Rightarrow> (string \<rightharpoonup> rat) \<Rightarrow> string \<Rightarrow> string \<Rightarrow> bool" where
  "dominates pw levels byte_map a b =
     (let lat = map (lat_not_worse pw a b) levels;
          lat_ok = list_all fst lat;
          lat_better = list_ex snd lat;
          by_ok = (case (byte_map a, byte_map b) of (Some x, Some y) \<Rightarrow> x \<le> y | _ \<Rightarrow> True);
          by_better = (case (byte_map a, byte_map b) of (Some x, Some y) \<Rightarrow> x < y | _ \<Rightarrow> False) in
      sec_at_least a b \<and> lat_ok \<and> by_ok \<and> (sec_better_somewhere a b \<or> lat_better \<or> by_better))"

definition dominated_by :: "comparison list \<Rightarrow> int list \<Rightarrow> (string \<rightharpoonup> rat) \<Rightarrow> string list \<Rightarrow> string \<Rightarrow> string list" where
  "dominated_by pw levels byte_map present c = filter (\<lambda>ot. ot \<noteq> c \<and> dominates pw levels byte_map ot c) present"

text \<open>Handshake bytes from the captures' summaries, and the bytes of a per-chunk stream on top of them.\<close>

definition hs_bytes :: "(string \<rightharpoonup> nat \<times> nat) \<Rightarrow> string list \<Rightarrow> string \<rightharpoonup> rat" where
  "hs_bytes hndl present c = (if c \<in> set present then map_option (\<lambda>(kex, sg). of_nat (kex + sg)) (hndl c) else None)"

definition pc_bytes :: "(string \<rightharpoonup> nat \<times> nat) \<Rightarrow> stream_meas list option \<Rightarrow> string list \<Rightarrow> string \<rightharpoonup> rat" where
  "pc_bytes hndl sdf present c =
     (case sdf of
        None \<Rightarrow> None
      | Some rows \<Rightarrow>
          if rows = [] \<or> c \<notin> set present then None
          else
            let n_max = Max (set (map qm_max_tokens rows));
                v = filter (\<lambda>r. qm_config r = c \<and> qm_strategy r = ''per_chunk'' \<and> qm_max_tokens r = n_max) rows in
            if v = [] then None
            else map_option (\<lambda>m. m + (case hs_bytes hndl present c of None \<Rightarrow> 0 | Some x \<Rightarrow> x))
                   (over_column median ''total_signature_bytes'' v))"

record dominance =
  dn_present :: "string list"
  dn_levels :: "int list"
  dn_overhead :: "comparison list"
  dn_pairwise :: "comparison list"
  dn_handshake :: "string \<Rightarrow> string list"
  dn_per_chunk :: "string \<Rightarrow> string list"

fun ordered_pairs :: "'a list \<Rightarrow> ('a \<times> 'a) list" where
  "ordered_pairs [] = []"
| "ordered_pairs (x # xs) = map (Pair x) xs @ ordered_pairs xs"

definition dominance_frame ::
  "'g np_generator \<Rightarrow> (rat list \<Rightarrow> rat list \<Rightarrow> rat) \<Rightarrow> (rat list \<Rightarrow> rat list \<Rightarrow> rat) \<Rightarrow> (nat \<Rightarrow> 'g) \<Rightarrow> meas list
     \<Rightarrow> stream_meas list option \<Rightarrow> (string \<rightharpoonup> nat \<times> nat) \<Rightarrow> dominance" where
  "dominance_frame gn mw_u mw_p default_rng rows sdf hndl =
     (let present = filter (\<lambda>c. c \<in> set (map me_config rows)) PAPER_PROTECTED;
          levels = filter (\<lambda>c. c \<in> set (map me_concurrency rows)) [10];
          at_levels = filter (\<lambda>r. me_concurrency r \<in> set levels) rows;
          pw = comparison_stats gn mw_u mw_p at_levels (ordered_pairs present) (default_rng 13);
          ov = (if ''control_2rt'' \<in> set (map me_config rows)
                then comparison_stats gn mw_u mw_p at_levels (map (\<lambda>c. (c, ''control_2rt'')) present) (default_rng 17) else []) in
      \<lparr> dn_present = present, dn_levels = levels, dn_overhead = ov, dn_pairwise = pw,
        dn_handshake = dominated_by pw levels (hs_bytes hndl present) present,
        dn_per_chunk = dominated_by pw levels (pc_bytes hndl sdf present) present \<rparr>)"

end
