(* ===== verification/StatisticsProperties.thy ===== *)
theory StatisticsProperties
  imports PaperStatistics "HOL-Library.Sublist"
begin

text \<open>
  The paper's statistics: Holm's correction is a correction, a re-run supersedes what it repeats,
  and no measurement makes a quantum-safe configuration dominated by a less secure one.
\<close>

section \<open>Holm's correction\<close>

lemma holm_loop_length [simp]: "length (holm_loop m rank running pvals order adj) = length adj"
  by (induction order arbitrary: rank running adj) (simp_all add: Let_def)

lemma holm_loop_other: "i \<notin> set order \<Longrightarrow> holm_loop m rank running pvals order adj ! i = adj ! i"
  by (induction order arbitrary: rank running adj) (simp_all add: Let_def)

lemma holm_loop_spec:
  assumes "distinct order" "\<And>i. i \<in> set order \<Longrightarrow> i < length adj" "j < length order"
  shows "min 1 running \<le> holm_loop m rank running pvals order adj ! (order ! j) \<and>
    holm_loop m rank running pvals order adj ! (order ! j) \<le> 1 \<and>
    min 1 (of_nat (m - (rank + j)) * pvals ! (order ! j)) \<le> holm_loop m rank running pvals order adj ! (order ! j) \<and>
    (\<forall>k. j \<le> k \<longrightarrow> k < length order \<longrightarrow>
      holm_loop m rank running pvals order adj ! (order ! j) \<le> holm_loop m rank running pvals order adj ! (order ! k))"
  using assms
proof (induction order arbitrary: rank running adj j)
  case (Cons idx rest)
  define running' where "running' = max running (of_nat (m - rank) * pvals ! idx)"
  let ?out = "holm_loop m (Suc rank) running' pvals rest (adj[idx := min 1 running'])"
  have out: "holm_loop m rank running pvals (idx # rest) adj = ?out"
    by (simp add: running'_def Let_def)
  have d: "distinct rest" "idx \<notin> set rest" "idx < length adj" "\<And>i. i \<in> set rest \<Longrightarrow> i < length (adj[idx := min 1 running'])"
    using Cons.prems by auto
  have hd: "?out ! idx = min 1 running'"
    using holm_loop_other [OF d(2)] d(3) by simp
  have tl: "min 1 running' \<le> ?out ! (rest ! k) \<and> ?out ! (rest ! k) \<le> 1 \<and>
      min 1 (of_nat (m - (Suc rank + k)) * pvals ! (rest ! k)) \<le> ?out ! (rest ! k) \<and>
      (\<forall>l. k \<le> l \<longrightarrow> l < length rest \<longrightarrow> ?out ! (rest ! k) \<le> ?out ! (rest ! l))" if "k < length rest" for k
    by (rule Cons.IH [OF d(1,4) that])
  have up: "min 1 running \<le> min 1 running'" "min 1 (of_nat (m - rank) * pvals ! idx) \<le> min 1 running'"
    by (simp_all add: running'_def min_def max_def)
  show ?case
  proof (cases j)
    case 0
    have "?out ! idx \<le> ?out ! ((idx # rest) ! k)" if "k < length (idx # rest)" for k
      using tl [of "k - 1"] that hd by (cases k) auto
    then show ?thesis unfolding out 0 using hd up by simp
  next
    case (Suc i)
    then have i: "i < length rest" using Cons.prems(3) by simp
    have "?out ! (rest ! i) \<le> ?out ! ((idx # rest) ! k)" if "Suc i \<le> k" "k < length (idx # rest)" for k
      using tl [OF i] that by (cases k) auto
    then show ?thesis unfolding out Suc using tl [OF i] up(1) by auto
  qed
qed simp

lemma holm_length [simp]: "length (holm pvals) = length pvals"
  by (simp add: holm_def)

text \<open>C32
  Holm's correction of any family of p-values gives adjusted values that are at most 1, never below
  the raw values (so it can only make a finding harder to claim), and in the order of the raw ones.
\<close>

theorem holm_is_a_correction:
  assumes "\<And>p. p \<in> set pvals \<Longrightarrow> 0 \<le> p \<and> p \<le> 1" "i < length pvals" "j < length pvals"
  shows "pvals ! i \<le> holm pvals ! i \<and> holm pvals ! i \<le> 1 \<and> (pvals ! i < pvals ! j \<longrightarrow> holm pvals ! i \<le> holm pvals ! j)"
proof -
  let ?n = "length pvals" and ?order = "sort_key (\<lambda>i. pvals ! i) [0..<length pvals]"
  have order: "distinct ?order" "\<And>k. k \<in> set ?order \<Longrightarrow> k < length (replicate ?n (0 :: rat))" "length ?order = ?n"
    by simp_all
  have pos: "\<exists>r < ?n. ?order ! r = k" if "k < ?n" for k
    using that order(3) by (metis atLeastLessThan_iff in_set_conv_nth le0 set_sort set_upt)
  obtain ri where ri: "ri < ?n" "?order ! ri = i" using pos [OF assms(2)] by blast
  obtain rj where rj: "rj < ?n" "?order ! rj = j" using pos [OF assms(3)] by blast
  note spec = holm_loop_spec [OF order(1,2), of _ 0 ?n 0 pvals]
  have i: "holm pvals ! i \<le> 1" "min 1 (of_nat (?n - ri) * pvals ! i) \<le> holm pvals ! i"
      "\<forall>k. ri \<le> k \<longrightarrow> k < ?n \<longrightarrow> holm pvals ! i \<le> holm pvals ! (?order ! k)"
    using spec [of ri] ri order(3) by (simp_all add: holm_def)
  have p: "0 \<le> pvals ! i" "pvals ! i \<le> 1" using assms(1) [of "pvals ! i"] assms(2) by simp_all
  have "1 \<le> (of_nat (?n - ri) :: rat)" using ri(1) by simp
  then have "pvals ! i \<le> of_nat (?n - ri) * pvals ! i"
    using mult_right_mono [of 1 "of_nat (?n - ri) :: rat" "pvals ! i"] p(1) by simp
  then have "pvals ! i \<le> holm pvals ! i" using i(2) p(2) by simp
  moreover have "holm pvals ! i \<le> holm pvals ! j" if "pvals ! i < pvals ! j"
  proof -
    have "sorted (map (\<lambda>k. pvals ! k) ?order)" by simp
    then have "ri \<le> rj"
      using that ri rj order(3) sorted_nth_mono [of "map (\<lambda>k. pvals ! k) ?order" rj ri] by (cases "rj \<le> ri") auto
    then show ?thesis using i(3) rj by auto
  qed
  ultimately show ?thesis using i(1) by blast
qed

lemma holm_is_a_correction_witness:
  "(1 / 50 :: rat) \<le> holm [1 / 50, 1 / 25] ! 0 \<and> holm [1 / 50, 1 / 25] ! 0 \<le> 1 \<and> holm [1 / 50, 1 / 25] ! 0 \<le> holm [1 / 50, 1 / 25] ! 1"
  using holm_is_a_correction [of "[1 / 50, 1 / 25]" 0 1] by force

section \<open>Re-runs supersede\<close>

lemma latest_subset: "set (pf_rows (latest_run_per_cell df)) \<subseteq> set (pf_rows df) \<union> with_defaults (pf_columns df) ` set (pf_rows df)"
  by (auto simp: latest_run_per_cell_def Let_def)

text \<open>C33
  Of the selected runs, each cell keeps exactly its latest: in the rows the paper uses, two rows of
  one cell come from one run, no selected run of the cell is later, no cell disappears, and the
  order of the rows is kept.
\<close>

theorem rerun_supersedes:
  assumes "''run_id'' \<in> set (pf_columns df)" "\<not> list_all (\<lambda>r. pw_run_id r = None) (pf_rows df)"
  defines "rows \<equiv> map (with_defaults (pf_columns df)) (pf_rows df)" and "key \<equiv> paper_key_of (pf_columns df)"
  shows "subseq (pf_rows (latest_run_per_cell df)) rows \<and>
    (\<forall>r \<in> set (pf_rows (latest_run_per_cell df)). \<forall>q \<in> set rows. key q = key r \<longrightarrow>
       run_text q \<le> run_text r \<and> (q \<in> set (pf_rows (latest_run_per_cell df)) \<longleftrightarrow> run_text q = run_text r)) \<and>
    key ` set (pf_rows (latest_run_per_cell df)) = key ` set rows"
proof -
  define latest where "latest = (\<lambda>r. Max (set (map run_text (filter (\<lambda>q. key q = key r) rows))))"
  define kept where "kept = filter (\<lambda>r. run_text r = latest r) rows"
  have l: "pf_rows (latest_run_per_cell df) = kept"
    using assms(1,2) by (simp add: latest_run_per_cell_def Let_def rows_def key_def kept_def latest_def)
  have ge: "run_text q \<le> latest r" if "q \<in> set rows" "key q = key r" for q r
    unfolding latest_def using that by (intro Max_ge) auto
  have same: "latest q = latest r" if "key q = key r" for q r
    using that by (simp add: latest_def)
  have attained: "\<exists>q \<in> set kept. key q = key r" if "r \<in> set rows" for r
  proof -
    have "latest r \<in> set (map run_text (filter (\<lambda>q. key q = key r) rows))"
      unfolding latest_def using that by (intro Max_in) auto
    then obtain q where "q \<in> set rows" "key q = key r" "run_text q = latest r" by auto
    then show ?thesis using same [of q r] by (auto simp: kept_def)
  qed
  have sub: "set kept \<subseteq> set rows" by (auto simp: kept_def)
  have "key ` set kept = key ` set rows"
  proof (intro equalityI subsetI)
    fix k assume "k \<in> key ` set rows"
    then obtain r where "r \<in> set rows" "k = key r" by blast
    then obtain q where "q \<in> set kept" "key q = k" using attained [of r] by blast
    then show "k \<in> key ` set kept" by (metis imageI)
  qed (use sub in blast)
  moreover have "subseq kept rows"
    by (simp add: kept_def)
  moreover have "run_text q \<le> run_text r \<and> (q \<in> set kept \<longleftrightarrow> run_text q = run_text r)"
    if "r \<in> set kept" "q \<in> set rows" "key q = key r" for r q
    using that(1,2) ge [OF that(2,3)] same [OF that(3)] by (simp add: kept_def)
  ultimately show ?thesis unfolding l by blast
qed

definition wit_paper_row :: "string \<Rightarrow> string option \<Rightarrow> paper_row" where
  "wit_paper_row run prof = \<lparr> pw_run_id = Some run, pw_payload_profile = prof, pw_network_profile = None, pw_requests_per_handshake = None,
     pw_meas = \<lparr> me_run_id = run, me_config = ''control'', me_concurrency = 10, me_repetition = 1, me_request_index = 0, me_error = None,
       me_value = (\<lambda>_. None) \<rparr> \<rparr>"

lemma latest_of_two:
  assumes "''run_id'' \<in> set cols" "pw_run_id a = Some i" "pw_run_id b = Some j" "i < j"
    "paper_key_of cols (with_defaults cols a) = paper_key_of cols (with_defaults cols b)"
  shows "pf_rows (latest_run_per_cell \<lparr> pf_columns = cols, pf_rows = [a, b] \<rparr>) = [with_defaults cols b]"
proof -
  have t: "run_text (with_defaults cols a) = i" "run_text (with_defaults cols b) = j"
    using assms(2,3) by (simp_all add: run_text_def with_defaults_def)
  show ?thesis
    using assms(1,2,4,5) by (simp add: latest_run_per_cell_def Let_def t max_def del: set_filter set_map)
qed

lemma rerun_supersedes_witness:
  "\<exists>df. subseq (pf_rows (latest_run_per_cell df)) (map (with_defaults (pf_columns df)) (pf_rows df)) \<and>
     map run_text (pf_rows (latest_run_per_cell df)) = [''r2''] \<and> map run_text (pf_rows df) = [''r1'', ''r2'']"
proof -
  define c where "c = [''run_id'', ''payload_profile'']"
  define a where "a = wit_paper_row ''r1'' None"
  define b where "b = wit_paper_row ''r2'' (Some ''tabular_small'')"
  let ?df = "\<lparr> pf_columns = c, pf_rows = [a, b] \<rparr>"
  have runs: "pw_run_id a = Some ''r1''" "pw_run_id b = Some ''r2''" "''run_id'' \<in> set c"
    by (simp_all add: a_def b_def c_def wit_paper_row_def)
  have "paper_key_of c (with_defaults c a) = paper_key_of c (with_defaults c b)"
    by (simp add: paper_key_of_def with_defaults_def or_default_def wit_paper_row_def a_def b_def c_def)
  then have l: "pf_rows (latest_run_per_cell ?df) = [with_defaults c b]"
    by (intro latest_of_two [OF runs(3,1,2)]) (simp_all add: less_list_code)
  have k: "map run_text (pf_rows (latest_run_per_cell ?df)) = [''r2'']" "map run_text (pf_rows ?df) = [''r1'', ''r2'']"
    unfolding l using runs by (simp_all add: run_text_def with_defaults_def)
  have "subseq (pf_rows (latest_run_per_cell ?df)) (map (with_defaults (pf_columns ?df)) (pf_rows ?df))"
    using rerun_supersedes [of ?df] runs by simp
  with k show ?thesis by (intro exI [of _ ?df] conjI)
qed

section \<open>Dominance\<close>

definition axis_value :: "nat option \<Rightarrow> nat" where
  "axis_value v = (case v of None \<Rightarrow> 0 | Some n \<Rightarrow> n)"

text \<open>The security axes of a configuration as a sum, and the configurations that differ on them.\<close>

definition sec_sum :: "string \<Rightarrow> nat" where
  "sec_sum c = sum_list (map axis_value (sec_values c))"

definition quantum_safe :: "string \<Rightarrow> bool" where
  "quantum_safe c \<longleftrightarrow> c \<in> set PAPER_PROTECTED \<and> c \<notin> {''classical'', ''classical_ecdhe''}"

text \<open>
  By the table of the axes, whatever is at least as secure as a quantum-safe configuration on
  every axis is quantum-safe, and better on some axis and in the sum.
\<close>

lemma at_least_as_secure:
  assumes "a \<in> set PAPER_PROTECTED" "quantum_safe b" "a \<noteq> b" "sec_at_least a b"
  shows "quantum_safe a" "sec_better_somewhere a b" "sec_sum b < sec_sum a"
proof -
  have table: "list_all (\<lambda>a. list_all (\<lambda>b. quantum_safe b \<and> a \<noteq> b \<and> sec_at_least a b \<longrightarrow>
      quantum_safe a \<and> sec_better_somewhere a b \<and> sec_sum b < sec_sum a) PAPER_PROTECTED) PAPER_PROTECTED"
    by code_simp
  have "b \<in> set PAPER_PROTECTED" using assms(2) by (simp add: quantum_safe_def)
  then show "quantum_safe a" "sec_better_somewhere a b" "sec_sum b < sec_sum a"
    using table assms unfolding list_all_iff by blast+
qed

lemma dominators:
  assumes "set present \<subseteq> set PAPER_PROTECTED" "quantum_safe c" "ot \<in> set (dominated_by pw levels byte_map present c)"
  shows "ot \<in> set present" "quantum_safe ot" "sec_at_least ot c" "sec_better_somewhere ot c" "sec_sum c < sec_sum ot"
proof -
  have ot: "ot \<in> set present" "ot \<noteq> c" "sec_at_least ot c"
    using assms(3) by (simp_all add: dominated_by_def dominates_def Let_def)
  then show "ot \<in> set present" "sec_at_least ot c" by simp_all
  show "quantum_safe ot" "sec_better_somewhere ot c" "sec_sum c < sec_sum ot"
    using at_least_as_secure [OF _ assms(2) ot(2,3)] ot(1) assms(1) by auto
qed

lemma undominated:
  assumes "set present \<subseteq> set PAPER_PROTECTED" "q \<in> set present" "quantum_safe q"
  obtains c where "c \<in> set present" "quantum_safe c" "\<And>byte_map. dominated_by pw levels byte_map present c = []"
proof -
  let ?Q = "{c \<in> set present. quantum_safe c}"
  have "Max (sec_sum ` ?Q) \<in> sec_sum ` ?Q"
    by (rule Max_in) (use assms(2,3) in auto)
  then obtain c where c0: "Max (sec_sum ` ?Q) = sec_sum c" "c \<in> ?Q"
    by (rule imageE)
  have c: "c \<in> set present" "quantum_safe c" "sec_sum d \<le> sec_sum c" if "d \<in> set present" "quantum_safe d" for d
    using c0(2) Max_ge [of "sec_sum ` ?Q" "sec_sum d"] that unfolding c0(1) by simp_all
  note c12 = c(1,2) [OF assms(2,3)]
  have "dominated_by pw levels byte_map present c = []" for byte_map
  proof (rule ccontr)
    assume "dominated_by pw levels byte_map present c \<noteq> []"
    then obtain d where d: "d \<in> set (dominated_by pw levels byte_map present c)"
      by (cases "dominated_by pw levels byte_map present c") auto
    note dom = dominators [OF assms(1) c12(2) d]
    show False using c(3) [OF dom(1,2)] dom(5) by linarith
  qed
  then show ?thesis using that [OF c12] by blast
qed

text \<open>C34
  The dominance analysis never rules out every quantum-safe configuration: whatever the rows, the
  streaming rows, the captures, the random generator and the tests give, as soon as one configuration
  other than the two classical ones was measured, some such configuration is dominated by no
  other on either workload. And what dominates a quantum-safe configuration is a measured one
  that is at least as secure on every axis and more secure on some: no latency and no
  byte count makes up for security.
\<close>

theorem some_configuration_undominated:
  assumes "r \<in> set rows" "quantum_safe (me_config r)" "d = dominance_frame gn mw_u mw_p default_rng rows sdf hndl"
  shows "(\<exists>c \<in> set (dn_present d). quantum_safe c \<and> dn_handshake d c = [] \<and> dn_per_chunk d c = []) \<and>
    (\<forall>c ot. quantum_safe c \<longrightarrow> ot \<in> set (dn_handshake d c) \<union> set (dn_per_chunk d c) \<longrightarrow>
       ot \<in> me_config ` set rows \<and> sec_at_least ot c \<and> sec_better_somewhere ot c)"
proof -
  define present where "present = filter (\<lambda>c. c \<in> set (map me_config rows)) PAPER_PROTECTED"
  have sub: "set present \<subseteq> set PAPER_PROTECTED" and measured: "set present \<subseteq> me_config ` set rows"
    by (auto simp: present_def)
  have q: "me_config r \<in> set present"
    using assms(1,2) by (auto simp: present_def quantum_safe_def)
  obtain pw levels bh bp where d: "dn_present d = present" "\<And>c. dn_handshake d c = dominated_by pw levels bh present c"
      "\<And>c. dn_per_chunk d c = dominated_by pw levels bp present c"
    by (simp add: assms(3) dominance_frame_def Let_def present_def)
  obtain c where "c \<in> set present" "quantum_safe c" "\<And>byte_map. dominated_by pw levels byte_map present c = []"
    by (rule undominated [OF sub q assms(2), of pw levels]) (rule that)
  moreover have "ot \<in> me_config ` set rows \<and> sec_at_least ot c \<and> sec_better_somewhere ot c"
    if c: "quantum_safe c" "ot \<in> set (dn_handshake d c) \<union> set (dn_per_chunk d c)" for c ot
  proof -
    obtain bm where bm: "ot \<in> set (dominated_by pw levels bm present c)"
      using c(2) unfolding d by (rule UnE)
    note dom = dominators [OF sub c(1) bm]
    show ?thesis
      using dom(1) measured dom(3,4) by auto
  qed
  ultimately show ?thesis
    using d by auto
qed

text \<open>Three configurations in two repetitions each, the least secure of which is the fastest.\<close>

definition wit_measured :: "string \<times> rat \<Rightarrow> int \<Rightarrow> meas" where
  "wit_measured cfg rep = \<lparr> me_run_id = ''r'', me_config = fst cfg, me_concurrency = 10, me_repetition = rep, me_request_index = 0,
     me_error = None, me_value = (\<lambda>_. Some (snd cfg)) \<rparr>"

definition wit_rows :: "meas list" where
  "wit_rows = concat (map (\<lambda>cfg. map (wit_measured cfg) [1, 2]) [(''hybrid_kex_pq'', 9), (''hybrid'', 4), (''classical'', 3)])"

definition wit_generator :: "unit np_generator" where
  "wit_generator = \<lparr> gn_integers = (\<lambda>n k. State_Monad.return (replicate k 0)), gn_choice = (\<lambda>xs k. State_Monad.return (replicate k (hd xs))) \<rparr>"

lemma some_configuration_undominated_witness:
  "\<exists>d c. d = dominance_frame wit_generator (\<lambda>_ _. 0) (\<lambda>_ _. 1) (\<lambda>_. ()) wit_rows None Map.empty \<and>
     c \<in> set (dn_present d) \<and> quantum_safe c \<and> dn_handshake d c = [] \<and> dn_per_chunk d c = []"
proof -
  have "wit_measured (''hybrid'', 4) 1 \<in> set wit_rows"
    by (simp add: wit_rows_def)
  moreover have "quantum_safe (me_config (wit_measured (''hybrid'', 4) 1))"
    by (simp add: quantum_safe_def wit_measured_def PAPER_PROTECTED_def)
  ultimately show ?thesis
    using some_configuration_undominated [OF _ _ refl, of "wit_measured (''hybrid'', 4) 1" wit_rows wit_generator "\<lambda>_ _. 0" "\<lambda>_ _. 1"
        "\<lambda>_. ()" None Map.empty] by blast
qed

end
