(* ===== verification/ModelServing.thy ===== *)
theory ModelServing
  imports StreamTransaction "HOL-Library.State_Monad"
begin

text \<open>
  \<^verbatim>\<open>model/profiles\<close>, \<^verbatim>\<open>model/streaming_backends\<close> and \<^verbatim>\<open>api/model_service.py\<close>: the workloads
  behind the endpoints. The two caches, the synthetic token stream and the synthetic completion
  are modelled; the classes that load a trained model, run NumPy's linear algebra or a language
  model are constructors given as parameters. \<open>integers\<close> is NumPy's
  \<^verbatim>\<open>rng.integers(0, n)\<close> on the state of a generator, \<open>default_rng\<close> its seeding.
\<close>

section \<open>The caches\<close>

definition BACKEND_NAMES :: "string list" where
  "BACKEND_NAMES = [''synthetic'', ''llama_cpp'', ''transformers'']"

text \<open>One backend per process: the first one constructed stays, whatever is asked for later.\<close>

definition get_backend ::
  "(string \<Rightarrow> 'b res) \<Rightarrow> (string \<rightharpoonup> string) \<Rightarrow> string option \<Rightarrow> 'b option \<Rightarrow> 'b option \<times> 'b res" where
  "get_backend new_instance environ name inst =
     (case inst of
        Some b \<Rightarrow> (inst, Inr b)
      | None \<Rightarrow>
          let n = str_or name (case environ ''PQ_SHIELD_STREAMING_BACKEND'' of None \<Rightarrow> ''synthetic'' | Some v \<Rightarrow> v) in
          if n \<notin> set BACKEND_NAMES then (None, Inl ValueError)
          else case new_instance n of Inl e \<Rightarrow> (None, Inl e) | Inr b \<Rightarrow> (Some b, Inr b))"

definition reset_backend_cache :: "'b option \<Rightarrow> 'b option" where
  "reset_backend_cache inst = None"

definition PROFILE_NAMES :: "string list" where
  "PROFILE_NAMES = [''tabular_small'', ''image_cnn'', ''embedding'', ''llm_completion'']"

definition DEFAULT_PROFILE :: string where
  "DEFAULT_PROFILE = ''tabular_small''"

text \<open>\<^verbatim>\<open>_instances\<close>: one instance per profile, the environment read at every call.\<close>

definition get_profile ::
  "(string \<Rightarrow> 'p res) \<Rightarrow> (string \<rightharpoonup> string) \<Rightarrow> string option \<Rightarrow> (string \<rightharpoonup> 'p) \<Rightarrow> (string \<rightharpoonup> 'p) \<times> string res" where
  "get_profile new_instance environ name insts =
     (let n = str_or name (case environ ''PQ_SHIELD_PAYLOAD_PROFILE'' of None \<Rightarrow> DEFAULT_PROFILE | Some v \<Rightarrow> v) in
      if n \<notin> set PROFILE_NAMES then (insts, Inl ValueError)
      else case insts n of
             Some _ \<Rightarrow> (insts, Inr n)
           | None \<Rightarrow> (case new_instance n of Inl e \<Rightarrow> (insts, Inl e) | Inr p \<Rightarrow> (insts(n \<mapsto> p), Inr n)))"

text \<open>\<^verbatim>\<open>api/model_service.py\<close>: every call looks the active profile up again.\<close>

definition service_predict ::
  "(string \<Rightarrow> 'p res) \<Rightarrow> (string \<rightharpoonup> string) \<Rightarrow> ('p \<Rightarrow> json \<Rightarrow> json res) \<Rightarrow> json \<Rightarrow> (string \<rightharpoonup> 'p) \<Rightarrow> (string \<rightharpoonup> 'p) \<times> json res" where
  "service_predict new_instance environ run body insts =
     (let (insts', r) = get_profile new_instance environ None insts in
      (insts', bind_res (bind_res r (get_item insts')) (\<lambda>p. run p body)))"

definition service_sample_request ::
  "(string \<Rightarrow> 'p res) \<Rightarrow> (string \<rightharpoonup> string) \<Rightarrow> ('p \<Rightarrow> json \<times> 'p) \<Rightarrow> (string \<rightharpoonup> 'p) \<Rightarrow> (string \<rightharpoonup> 'p) \<times> json res" where
  "service_sample_request new_instance environ sample insts =
     (case get_profile new_instance environ None insts of
        (insts', Inl e) \<Rightarrow> (insts', Inl e)
      | (insts', Inr n) \<Rightarrow>
          (case get_item insts' n of Inl e \<Rightarrow> (insts', Inl e)
           | Inr p \<Rightarrow> let (request, p') = sample p in (insts'(n \<mapsto> p'), Inr request)))"

definition warm_up ::
  "(string \<Rightarrow> 'p res) \<Rightarrow> (string \<rightharpoonup> string) \<Rightarrow> ('p \<Rightarrow> json \<times> 'p) \<Rightarrow> ('p \<Rightarrow> json \<Rightarrow> json res) \<Rightarrow> (string \<rightharpoonup> 'p)
     \<Rightarrow> (string \<rightharpoonup> 'p) \<times> unit res" where
  "warm_up new_instance environ sample run insts =
     (case service_sample_request new_instance environ sample insts of
        (insts', Inl e) \<Rightarrow> (insts', Inl e)
      | (insts', Inr request) \<Rightarrow> apsnd (map_sum id (\<lambda>_. ())) (service_predict new_instance environ run request insts'))"

section \<open>The synthetic generators\<close>

record 'g np_random =
  np_default_rng :: "nat \<Rightarrow> 'g"
  np_integers :: "nat \<Rightarrow> ('g, nat) state"

text \<open>Documented: the upper bound is excluded.\<close>

definition np_ok :: "'g np_random \<Rightarrow> bool" where
  "np_ok np \<longleftrightarrow> (\<forall>n g. 0 < n \<longrightarrow> fst (run_state (np_integers np n) g) < n)"

definition LLM_WORD_BANK :: "string list" where
  "LLM_WORD_BANK =
     [''quantum'', ''lattice'', ''cryptography'', ''inference'', ''latency'', ''payload'', ''signature'', ''ciphertext'', ''handshake'',
      ''concurrency'', ''endpoint'', ''model'', ''classifier'', ''response'', ''request'', ''overhead'', ''encryption'',
      ''authentication'', ''verification'', ''adversary'', ''threat'', ''harvest'', ''decrypt'', ''resilient'', ''scalable'',
      ''throughput'', ''benchmark'', ''empirical'', ''framework'', ''architecture'', ''migration'', ''deployment'']"

definition SYNTHETIC_WORD_BANK :: "string list" where
  "SYNTHETIC_WORD_BANK = LLM_WORD_BANK @ [''stream'', ''token'', ''chunk'', ''checkpoint'', ''hash'', ''chain'', ''signed'']"

text \<open>\<^verbatim>\<open>int.from_bytes(digest[:8], "big") % (2**32)\<close>\<close>

definition prompt_seed :: "prims \<Rightarrow> string \<Rightarrow> nat" where
  "prompt_seed P prompt = foldl (\<lambda>a b. a * 256 + unat b) 0 (take 8 (sha256 P (encode prompt))) mod 2 ^ 32"

definition draw_word :: "'g np_random \<Rightarrow> string list \<Rightarrow> ('g, string) state" where
  "draw_word np bank = do { i \<leftarrow> np_integers np (length bank); State_Monad.return (bank ! i) }"

text \<open>The tokens of \<^verbatim>\<open>stream\<close>, each with the pause before it.\<close>

definition synthetic_delay :: "rat \<Rightarrow> rat" where
  "synthetic_delay tokens_per_second = (if 0 < tokens_per_second then 1 / tokens_per_second else 0)"

definition synthetic_stream :: "prims \<Rightarrow> 'g np_random \<Rightarrow> rat \<Rightarrow> string \<Rightarrow> int \<Rightarrow> (rat \<times> string) list" where
  "synthetic_stream P np tokens_per_second prompt max_tokens =
     (let words = fst (run_state (State_Monad.traverse_list (\<lambda>_. draw_word np SYNTHETIC_WORD_BANK) [0..<nat max_tokens])
                        (np_default_rng np (prompt_seed P prompt))) in
      map (\<lambda>word. (synthetic_delay tokens_per_second, word @ '' '')) words)"

text \<open>The completion's words: as many as it takes to reach the target length.\<close>

function gen_words :: "'g np_random \<Rightarrow> int \<Rightarrow> int \<Rightarrow> 'g \<Rightarrow> string list" where
  "gen_words np target len g =
     (if len < target
      then let (w, g') = run_state (draw_word np LLM_WORD_BANK) g in w # gen_words np target (len + int (length w) + 1) g'
      else [])"
  by pat_completeness auto
termination
  by (relation "measure (\<lambda>(np, target, len, g). nat (target - len))") auto

declare gen_words.simps [simp del]

fun join_words :: "string list \<Rightarrow> string" where
  "join_words [] = []"
| "join_words [w] = w"
| "join_words (w # ws) = w @ '' '' @ join_words ws"

definition upper_char :: "char \<Rightarrow> char" where
  "upper_char c = (let n = of_char c :: nat in if 97 \<le> n \<and> n \<le> 122 then char_of (n - 32) else c)"

text \<open>\<^verbatim>\<open>text[0].upper() + text[1:] + "."\<close>\<close>

definition sentence :: "string \<Rightarrow> string res" where
  "sentence text' = (case text' of [] \<Rightarrow> Inl IndexError | c # cs \<Rightarrow> Inr (upper_char c # cs @ ''.''))"

definition DEFAULT_TARGET_CHARS :: int where
  "DEFAULT_TARGET_CHARS = 4000"

definition llm_predict :: "prims \<Rightarrow> 'g np_random \<Rightarrow> rat \<Rightarrow> json \<Rightarrow> json res" where
  "llm_predict P np inference_ms request_body =
     bind_res (body_get request_body ''prompt'' (JStr [])) (\<lambda>prompt.
     bind_res (bind_res (body_get request_body ''max_tokens'' (JInt (DEFAULT_TARGET_CHARS div 5))) py_int) (\<lambda>max_tokens.
     bind_res (case prompt of JStr p \<Rightarrow> Inr p | _ \<Rightarrow> Inl AttributeError) (\<lambda>p.
     let words = gen_words np (max_tokens * 5) 0 (np_default_rng np (prompt_seed P p)) in
     bind_res (sentence (join_words words)) (\<lambda>completion.
     Inr (JObj [(''completion'', JStr completion), (''tokens_generated'', JInt (int (length words))),
                (''_inference_ms'', JFloat inference_ms)])))))"

text \<open>\<^verbatim>\<open>sample_request\<close> draws from the profile's own generator.\<close>

definition llm_sample_request :: "'g np_random \<Rightarrow> string list \<Rightarrow> 'g \<Rightarrow> json \<times> 'g" where
  "llm_sample_request np prompts =
     run_state (do { i \<leftarrow> np_integers np (length prompts);
                     State_Monad.return (JObj [(''prompt'', JStr (prompts ! i)), (''max_tokens'', JInt (DEFAULT_TARGET_CHARS div 5))]) })"

section \<open>The first backend stays\<close>

lemma get_backend_cached:
  "get_backend new_instance environ name inst = (inst', Inr b) \<Longrightarrow> get_backend new_instance' environ' name' inst' = (inst', Inr b)"
  by (auto simp: get_backend_def Let_def split: option.splits if_splits sum.splits)

lemma get_profile_known:
  "get_profile new_instance environ name insts = (insts', Inr n) \<Longrightarrow> n \<in> set PROFILE_NAMES \<and> insts' n \<noteq> None \<and> (\<forall>k. k \<noteq> n \<longrightarrow> insts' k = insts k)"
  by (auto simp: get_profile_def Let_def split: option.splits if_splits sum.splits)

section \<open>Sizes of what the generators produce\<close>

lemma word_bank_lengths: "w \<in> set LLM_WORD_BANK \<Longrightarrow> 5 \<le> length w \<and> length w \<le> 14"
  by (auto simp: LLM_WORD_BANK_def)

lemma synthetic_word_lengths: "w \<in> set SYNTHETIC_WORD_BANK \<Longrightarrow> 4 \<le> length w \<and> length w \<le> 14"
  using word_bank_lengths [of w] by (auto simp: SYNTHETIC_WORD_BANK_def)

lemma draw_word_in:
  assumes "np_ok np" "bank \<noteq> []"
  shows "fst (run_state (draw_word np bank) g) \<in> set bank"
proof -
  obtain i g' where i: "run_state (np_integers np (length bank)) g = (i, g')" by fastforce
  have "fst (run_state (np_integers np (length bank)) g) < length bank" using assms by (simp add: np_ok_def)
  then have "i < length bank" using i by simp
  then show ?thesis using i by (simp add: draw_word_def)
qed

lemma traverse_draws:
  assumes "np_ok np" "bank \<noteq> []"
  shows "length (fst (run_state (State_Monad.traverse_list (\<lambda>_. draw_word np bank) xs) g)) = length xs \<and>
    set (fst (run_state (State_Monad.traverse_list (\<lambda>_. draw_word np bank) xs) g)) \<subseteq> set bank"
proof (induction xs arbitrary: g)
  case (Cons x xs)
  obtain w g' where d: "run_state (draw_word np bank) g = (w, g')" by fastforce
  then have "w \<in> set bank" using draw_word_in [OF assms, of g] by simp
  moreover obtain ws g'' where "run_state (State_Monad.traverse_list (\<lambda>_. draw_word np bank) xs) g' = (ws, g'')" by fastforce
  ultimately show ?case using Cons.IH [of g'] d by simp
qed simp

text \<open>The synthetic stream has exactly the tokens asked for, each a word of the bank and a space.\<close>

lemma synthetic_stream_tokens:
  assumes "np_ok np"
  shows "length (synthetic_stream P np tps prompt n) = nat n"
    and "snd ` set (synthetic_stream P np tps prompt n) \<subseteq> (\<lambda>w. w @ '' '') ` set SYNTHETIC_WORD_BANK"
proof -
  have "SYNTHETIC_WORD_BANK \<noteq> []" by (simp add: SYNTHETIC_WORD_BANK_def)
  note t = traverse_draws [OF assms this, of "[0..<nat n]" "np_default_rng np (prompt_seed P prompt)"]
  show "length (synthetic_stream P np tps prompt n) = nat n"
    using t by (simp add: synthetic_stream_def Let_def)
  show "snd ` set (synthetic_stream P np tps prompt n) \<subseteq> (\<lambda>w. w @ '' '') ` set SYNTHETIC_WORD_BANK"
    using t by (auto simp: synthetic_stream_def Let_def)
qed

lemma join_words_length: "ws \<noteq> [] \<Longrightarrow> Suc (length (join_words ws)) = sum_list (map (\<lambda>w. Suc (length w)) ws)"
  by (induction ws rule: join_words.induct) auto

lemma gen_words_total:
  assumes "np_ok np"
  shows "set (gen_words np target len g) \<subseteq> set LLM_WORD_BANK \<and>
    (len < target \<longrightarrow> target \<le> len + int (sum_list (map (\<lambda>w. Suc (length w)) (gen_words np target len g))) \<and>
       len + int (sum_list (map (\<lambda>w. Suc (length w)) (gen_words np target len g))) < target + 15 \<and>
       6 * int (length (gen_words np target len g)) < target - len + 6) \<and>
    (target \<le> len \<longrightarrow> gen_words np target len g = [])"
  using assms
proof (induction np target len g rule: gen_words.induct)
  case (1 np target len g)
  show ?case
  proof (cases "len < target")
    case True
    obtain w g' where d: "run_state (draw_word np LLM_WORD_BANK) g = (w, g')" by fastforce
    have "LLM_WORD_BANK \<noteq> []" by (simp add: LLM_WORD_BANK_def)
    then have w: "w \<in> set LLM_WORD_BANK" using draw_word_in [OF "1.prems", of LLM_WORD_BANK g] d by simp
    have unf: "gen_words np target len g = w # gen_words np target (len + int (length w) + 1) g'"
      using True d by (simp add: gen_words.simps [of np target len g])
    note IH = "1.IH" [OF True d [symmetric] refl "1.prems"]
    show ?thesis
      using IH word_bank_lengths [OF w] w True unfolding unf
      by (cases "len + int (length w) + 1 < target") auto
  qed (simp add: gen_words.simps)
qed

text \<open>C35
  The synthetic completion ends for every request, and its length follows the request: for a
  positive \<^verbatim>\<open>max_tokens\<close> it is at least five characters per token and less than 15 characters
  more; for any other the handler raises \<open>IndexError\<close>.
\<close>

theorem completion_length:
  assumes "np_ok np" "body_get body ''prompt'' (JStr []) = Inr (JStr p)"
    and "bind_res (body_get body ''max_tokens'' (JInt 800)) py_int = Inr n"
  shows "if 0 < n
    then \<exists>completion k. llm_predict P np ms body = Inr (JObj [(''completion'', JStr completion), (''tokens_generated'', JInt k), (''_inference_ms'', JFloat ms)]) \<and>
      5 * n \<le> int (length completion) \<and> int (length completion) < 5 * n + 15 \<and> 0 < k \<and> k \<le> n
    else llm_predict P np ms body = Inl IndexError"
proof -
  define ws where "ws = gen_words np (n * 5) 0 (np_default_rng np (prompt_seed P p))"
  have g: "set ws \<subseteq> set LLM_WORD_BANK"
      "0 < n \<longrightarrow> n * 5 \<le> int (sum_list (map (\<lambda>w. Suc (length w)) ws)) \<and> int (sum_list (map (\<lambda>w. Suc (length w)) ws)) < n * 5 + 15 \<and>
        6 * int (length ws) < n * 5 + 6"
      "n \<le> 0 \<longrightarrow> ws = []"
    using gen_words_total [OF assms(1), of "n * 5" 0 "np_default_rng np (prompt_seed P p)"] by (auto simp: ws_def)
  have r: "llm_predict P np ms body = bind_res (sentence (join_words ws)) (\<lambda>completion.
      Inr (JObj [(''completion'', JStr completion), (''tokens_generated'', JInt (int (length ws))), (''_inference_ms'', JFloat ms)]))"
    unfolding llm_predict_def DEFAULT_TARGET_CHARS_def Let_def using assms(2,3) by (simp add: ws_def del: bind_res_eq_Inr)
  show ?thesis
  proof (cases "0 < n")
    case True
    then have ne: "ws \<noteq> []" using g(2) by auto
    have len: "Suc (length (join_words ws)) = sum_list (map (\<lambda>w. Suc (length w)) ws)" by (rule join_words_length [OF ne])
    then have "join_words ws \<noteq> []" using g(1) ne word_bank_lengths by (cases ws rule: join_words.cases) force+
    then obtain c cs where c: "join_words ws = c # cs" by (cases "join_words ws") auto
    have "int (length ws) \<le> n" using g(2) True by linarith
    moreover have "0 < length ws" using ne by simp
    ultimately show ?thesis
      using r c len g(2) True by (simp add: sentence_def)
  qed (use r g(3) in \<open>simp add: sentence_def\<close>)
qed

text \<open>A generator that counts up, and a request for one token.\<close>

definition toy_random :: "nat np_random" where
  "toy_random = \<lparr> np_default_rng = id, np_integers = (\<lambda>n. State (\<lambda>g. (g mod n, Suc g))) \<rparr>"

lemma toy_random_ok: "np_ok toy_random"
  by (simp add: np_ok_def toy_random_def)

lemma completion_length_witness:
  "\<exists>completion k. llm_predict toy_prims toy_random 0 (JObj [(''prompt'', JStr ''hi''), (''max_tokens'', JStr ''3'')]) =
      Inr (JObj [(''completion'', JStr completion), (''tokens_generated'', JInt k), (''_inference_ms'', JFloat 0)]) \<and>
    15 \<le> length completion \<and> length completion < 30 \<and> 0 < k \<and> k \<le> 3"
proof -
  have "parse_int ''3'' = Some 3" by code_simp
  then show ?thesis
    using completion_length [OF toy_random_ok, of "JObj [(''prompt'', JStr ''hi''), (''max_tokens'', JStr ''3'')]" "''hi''" 3 toy_prims 0]
    by (force simp: body_get_def py_int_def)
qed

end
