(* ===== verification/ContentionCheck.thy ===== *)
theory ContentionCheck
  imports ToySessions Aggregate
begin

text \<open>
  \<^verbatim>\<open>validation/contention_check.py\<close>: signing and verification timed on an idle machine, spaced
  out, and beside a generating model; the pauses and threads only decide the clock readings. A phase signs and verifies one message repeatedly under one
  handshake; the randomness and the clock readings of the calls are parameters.
\<close>

definition SCHEMES :: "(string \<times> string) list" where
  "SCHEMES = [(''ECDSA-P256'', ''hybrid''), (''ML-DSA-65'', ''full_pqc'')]"

definition CC_MESSAGE :: bytes where
  "CC_MESSAGE = replicate 64 120"

record contention_row =
  cy_phase :: string
  cy_config :: string
  cy_i :: nat
  cy_sign_wall_ms :: rat
  cy_sign_cpu_ms :: rat
  cy_verify_wall_ms :: rat
  cy_verify_cpu_ms :: rat

text \<open>What one phase runs on: a handshake id, draws, and the spans of each signature and verification.\<close>

record phase_env =
  pn_uuid :: string
  pn_rng :: rng
  pn_span :: span
  pn_draw :: "nat \<Rightarrow> tape"
  pn_sign :: "nat \<Rightarrow> span"
  pn_verify :: "nat \<Rightarrow> span"

definition sign_and_verify ::
  "prims \<Rightarrow> phase_env \<Rightarrow> server_crypto \<Rightarrow> client_crypto \<Rightarrow> handshake_bundle \<Rightarrow> nat \<Rightarrow> (sign_meta \<times> verify_meta) res" where
  "sign_and_verify P env server client bundle i =
     bind_res (srv_sign P (pn_draw env i) (pn_sign env i) server (hb_handshake_id bundle) CC_MESSAGE) (\<lambda>(sg, smeta).
     bind_res (cl_verify P (pn_verify env i) client CC_MESSAGE sg (hb_sig_public_key bundle)) (\<lambda>(ok, vmeta).
     if ok then Inr (smeta, vmeta) else Inl AssertionError))"

text \<open>The first 20 calls warm up and give no row.\<close>

fun measure_loop ::
  "prims \<Rightarrow> phase_env \<Rightarrow> server_crypto \<Rightarrow> client_crypto \<Rightarrow> handshake_bundle \<Rightarrow> string \<Rightarrow> string \<Rightarrow> nat list
     \<Rightarrow> contention_row list \<Rightarrow> contention_row list res" where
  "measure_loop P env server client bundle config phase [] rows = Inr rows"
| "measure_loop P env server client bundle config phase (i # rest) rows =
     bind_res (sign_and_verify P env server client bundle i) (\<lambda>(smeta, vmeta).
     measure_loop P env server client bundle config phase rest
       (if i < 20 then rows
        else rows @ [\<lparr> cy_phase = phase, cy_config = config, cy_i = i - 20, cy_sign_wall_ms = sign_ms smeta,
                       cy_sign_cpu_ms = sign_cpu_ms smeta, cy_verify_wall_ms = verify_ms vmeta,
                       cy_verify_cpu_ms = verify_cpu_ms vmeta \<rparr>]))"

text \<open>The rows, and the server as the phase leaves it.\<close>

definition measure_phase :: "prims \<Rightarrow> phase_env \<Rightarrow> string \<Rightarrow> nat \<Rightarrow> string \<Rightarrow> (contention_row list \<times> server_crypto) res" where
  "measure_phase P env config n phase =
     bind_res (get_server_crypto config) (\<lambda>server.
     bind_res (get_client_crypto config) (\<lambda>client.
     case srv_new_handshake P (pn_uuid env) (pn_rng env) (pn_span env) None server of
       (server1, Inl e) \<Rightarrow> Inl e
     | (server1, Inr bundle) \<Rightarrow>
         bind_res (measure_loop P env server1 client bundle config phase [0..<n + 20] []) (\<lambda>rows.
         Inr (rows, srv_forget (hb_handshake_id bundle) server1))))"

text \<open>
  The phases of \<^verbatim>\<open>main\<close>: per scheme on an idle machine, then on the slow cores in a thread of
  their own, then beside the model. An exception of that thread ends the thread alone; what it
  appended before stays.
\<close>

type_synonym phase_call = "string \<times> string \<times> nat"

definition idle_phases :: "nat \<Rightarrow> nat \<Rightarrow> phase_call list" where
  "idle_phases n n_spaced =
     concat (map (\<lambda>(_, cfg). [(cfg, ''idle'', n), (cfg, ''idle_spaced'', n_spaced), (cfg, ''busy_spaced'', n_spaced)]) SCHEMES)"

definition ecores_phases :: "nat \<Rightarrow> phase_call list" where
  "ecores_phases n = map (\<lambda>(_, cfg). (cfg, ''ecores'', n)) SCHEMES"

definition llama_phases :: "nat \<Rightarrow> nat \<Rightarrow> phase_call list" where
  "llama_phases n n_spaced = concat (map (\<lambda>(_, cfg). [(cfg, ''llama_generating'', n), (cfg, ''llama_spaced'', n_spaced)]) SCHEMES)"

definition phase_rows :: "prims \<Rightarrow> (string \<Rightarrow> string \<Rightarrow> phase_env) \<Rightarrow> phase_call \<Rightarrow> contention_row list res" where
  "phase_rows P env = (\<lambda>(cfg, phase, k). map_sum id fst (measure_phase P (env cfg phase) cfg k phase))"

fun until_exception :: "('a \<Rightarrow> 'b list res) \<Rightarrow> 'a list \<Rightarrow> 'b list" where
  "until_exception f [] = []"
| "until_exception f (x # xs) = (case f x of Inl _ \<Rightarrow> [] | Inr ys \<Rightarrow> ys @ until_exception f xs)"

definition contention_rows :: "prims \<Rightarrow> (string \<Rightarrow> string \<Rightarrow> phase_env) \<Rightarrow> nat \<Rightarrow> nat \<Rightarrow> contention_row list res" where
  "contention_rows P env n n_spaced =
     bind_res (map_res (phase_rows P env) (idle_phases n n_spaced)) (\<lambda>idle.
     let ecores = until_exception (phase_rows P env) (ecores_phases n) in
     bind_res (map_res (phase_rows P env) (llama_phases n n_spaced)) (\<lambda>llama.
     Inr (concat idle @ ecores @ concat llama)))"

section \<open>The printed table\<close>

record contention_line =
  cl_scheme :: string
  cl_phase :: string
  cl_sign_wall_us :: rat
  cl_sign_cpu_us :: rat
  cl_mean_wall_us :: rat
  cl_verify_wall_us :: rat
  cl_verify_cpu_us :: rat

definition PHASES :: "string list" where
  "PHASES = [''idle'', ''idle_spaced'', ''busy_spaced'', ''ecores'', ''llama_generating'', ''llama_spaced'']"

text \<open>\<^verbatim>\<open>statistics.median\<close> of no rows raises \<open>StatisticsError\<close>, a \<open>ValueError\<close>.\<close>

definition contention_line_of :: "contention_row list \<Rightarrow> string \<times> string \<Rightarrow> string \<Rightarrow> contention_line res" where
  "contention_line_of rows = (\<lambda>(scheme, cfg) phase.
     let sel = filter (\<lambda>r. cy_config r = cfg \<and> cy_phase r = phase) rows;
         med = (\<lambda>f. median (map f sel) * 1000) in
     if sel = [] then Inl ValueError
     else Inr \<lparr> cl_scheme = scheme, cl_phase = phase, cl_sign_wall_us = med cy_sign_wall_ms, cl_sign_cpu_us = med cy_sign_cpu_ms,
                cl_mean_wall_us = mean (map cy_sign_wall_ms sel) * 1000, cl_verify_wall_us = med cy_verify_wall_ms,
                cl_verify_cpu_us = med cy_verify_cpu_ms \<rparr>)"

definition contention_table :: "contention_row list \<Rightarrow> contention_line list res" where
  "contention_table rows = map_res (\<lambda>(s, phase). contention_line_of rows s phase) (concat (map (\<lambda>s. map (Pair s) PHASES) SCHEMES))"

definition contention_main :: "prims \<Rightarrow> (string \<Rightarrow> string \<Rightarrow> phase_env) \<Rightarrow> nat \<Rightarrow> nat \<Rightarrow> (contention_row list \<times> contention_line list) res" where
  "contention_main P env n n_spaced =
     bind_res (contention_rows P env n n_spaced) (\<lambda>rows.
     if rows = [] then Inl IndexError else bind_res (contention_table rows) (\<lambda>ls. Inr (rows, ls)))"

section \<open>With correct signatures\<close>

lemma sign_and_verify_ok:
  assumes "prims_ok P" "srv_holds P server bundle"
  shows "\<exists>smeta vmeta. sign_and_verify P env server (server_client server) bundle i = Inr (smeta, vmeta)"
proof -
  obtain sg m m' where "srv_sign P (pn_draw env i) (pn_sign env i) server (hb_handshake_id bundle) CC_MESSAGE = Inr (sg, m)"
      "cl_verify P (pn_verify env i) (server_client server) CC_MESSAGE sg (hb_sig_public_key bundle) = Inr (True, m')"
    using srv_sign_verifies [OF assms] by blast
  then show ?thesis by (simp add: sign_and_verify_def)
qed

text \<open>The rows of one phase: numbered from 0, labelled with the phase and its configuration.\<close>

definition rows_of_phase :: "string \<Rightarrow> string \<Rightarrow> nat list \<Rightarrow> contention_row list \<Rightarrow> bool" where
  "rows_of_phase cfg phase is rows \<longleftrightarrow> map cy_i rows = is \<and> list_all (\<lambda>r. cy_config r = cfg \<and> cy_phase r = phase) rows"

lemma measure_loop_ok:
  assumes "prims_ok P" "srv_holds P server bundle"
  shows "\<exists>new. measure_loop P env server (server_client server) bundle config phase is rows = Inr (rows @ new) \<and>
    rows_of_phase config phase (map (\<lambda>i. i - 20) (filter (\<lambda>i. 20 \<le> i) is)) new"
proof (induction "is" arbitrary: rows)
  case (Cons i rest)
  obtain sm vm where sv: "sign_and_verify P env server (server_client server) bundle i = Inr (sm, vm)"
    using sign_and_verify_ok [OF assms] by blast
  show ?case
  proof (cases "i < 20")
    case True
    then show ?thesis using Cons.IH [of rows] sv by simp
  next
    case False
    let ?row = "\<lparr> cy_phase = phase, cy_config = config, cy_i = i - 20, cy_sign_wall_ms = sign_ms sm,
       cy_sign_cpu_ms = sign_cpu_ms sm, cy_verify_wall_ms = verify_ms vm, cy_verify_cpu_ms = verify_cpu_ms vm \<rparr>"
    obtain new where "measure_loop P env server (server_client server) bundle config phase rest (rows @ [?row]) = Inr ((rows @ [?row]) @ new)"
        "rows_of_phase config phase (map (\<lambda>i. i - 20) (filter (\<lambda>i. 20 \<le> i) rest)) new"
      using Cons.IH by blast
    then show ?thesis using False sv by (intro exI [of _ "?row # new"]) (simp add: rows_of_phase_def)
  qed
qed (simp add: rows_of_phase_def)

lemma measured_indices: "map (\<lambda>i. i - 20) (filter (\<lambda>i. 20 \<le> i) [0..<n + 20]) = [0..<n]"
proof -
  have "[0..<n + 20] = [0..<20] @ [20..<20 + n]"
    using upt_add_eq_append [of 0 20 n] by (simp add: add.commute)
  then have "filter (\<lambda>i. 20 \<le> i) [0..<n + 20] = [20..<20 + n]"
    by (simp only: filter_append) (simp add: filter_empty_conv filter_id_conv del: upt.simps upt_conv_Cons)
  then show ?thesis by (simp only:) (rule nth_equalityI; simp)
qed

text \<open>A phase measures exactly \<open>n\<close> calls and leaves no handshake behind.\<close>

lemma measure_phase_ok:
  assumes "prims_ok P" "config \<in> set CONFIG_NAMES"
  shows "\<exists>rows srv. measure_phase P env config n phase = Inr (rows, srv) \<and> rows_of_phase config phase [0..<n] rows \<and>
    (\<forall>h. \<not> srv_live srv h)"
proof -
  obtain s0 cl where g: "get_server_crypto config = Inr s0" "get_client_crypto config = Inr cl"
    using get_crypto_total [OF assms(2)] by blast
  obtain s1 b where new: "srv_new_handshake P (pn_uuid env) (pn_rng env) (pn_span env) None s0 = (s1, Inr b)"
    using srv_new_total [OF assms(1)] by blast
  have cl: "server_client s1 = cl"
    using get_crypto_pair(1) [OF g] srv_new_client [OF new] by simp
  obtain rows where "measure_loop P env s1 cl b config phase [0..<n + 20] [] = Inr rows" "rows_of_phase config phase [0..<n] rows"
    using measure_loop_ok [OF assms(1) srv_new_holds [OF assms(1) new], of env config phase "[0..<n + 20]" "[]"]
    unfolding cl measured_indices by auto
  moreover have "\<not> srv_live (srv_forget (hb_handshake_id b) s1) h" for h
    using srv_table.open_then_drop [OF new] get_crypto_pair(4) [OF g] by simp
  ultimately show ?thesis using g new by (simp add: measure_phase_def)
qed

lemma SCHEMES_configs: "(s, cfg) \<in> set SCHEMES \<Longrightarrow> cfg \<in> set CONFIG_NAMES"
  by (auto simp: SCHEMES_def CONFIG_NAMES_def CONFIGS_def)

lemma until_exception_Inr: "(\<And>x. x \<in> set xs \<Longrightarrow> f x = Inr (g x)) \<Longrightarrow> until_exception f xs = concat (map g xs)"
  by (induction xs) auto

definition all_phases :: "nat \<Rightarrow> nat \<Rightarrow> phase_call list" where
  "all_phases n n_spaced = idle_phases n n_spaced @ ecores_phases n @ llama_phases n n_spaced"

lemma all_phases_simps: "all_phases n m =
   [(''hybrid'', ''idle'', n), (''hybrid'', ''idle_spaced'', m), (''hybrid'', ''busy_spaced'', m),
    (''full_pqc'', ''idle'', n), (''full_pqc'', ''idle_spaced'', m), (''full_pqc'', ''busy_spaced'', m),
    (''hybrid'', ''ecores'', n), (''full_pqc'', ''ecores'', n),
    (''hybrid'', ''llama_generating'', n), (''hybrid'', ''llama_spaced'', m),
    (''full_pqc'', ''llama_generating'', n), (''full_pqc'', ''llama_spaced'', m)]"
  by (simp add: all_phases_def idle_phases_def ecores_phases_def llama_phases_def SCHEMES_def)

lemma all_phases_configs: "c \<in> set (all_phases n m) \<Longrightarrow> fst c \<in> set CONFIG_NAMES"
  by (auto simp: all_phases_def idle_phases_def ecores_phases_def llama_phases_def dest: SCHEMES_configs)

text \<open>The labels of the phases, which do not depend on the numbers of calls.\<close>

definition phase_labels :: "(string \<times> string) list" where
  "phase_labels = map (\<lambda>c. (fst c, fst (snd c))) (all_phases 0 0)"

lemma all_phases_labels: "map (\<lambda>c. (fst c, fst (snd c))) (all_phases n m) = phase_labels"
  by (simp add: phase_labels_def all_phases_simps)

lemma phase_labels_complete:
  "distinct phase_labels" "list_all (\<lambda>(s, cfg). list_all (\<lambda>phase. List.member phase_labels (cfg, phase)) PHASES) SCHEMES"
  by code_simp+

lemma all_phases_count: "c \<in> set (all_phases n m) \<Longrightarrow> snd (snd c) = n \<or> snd (snd c) = m"
  by (auto simp: all_phases_def idle_phases_def ecores_phases_def llama_phases_def)

lemma all_phases_present:
  assumes "(s, cfg) \<in> set SCHEMES" "phase \<in> set PHASES" "0 < n" "0 < m"
  shows "\<exists>k. (cfg, phase, k) \<in> set (all_phases n m) \<and> 0 < k"
proof -
  have "(cfg, phase) \<in> set phase_labels"
    using phase_labels_complete(2) assms(1,2) by (auto simp: list_all_iff)
  then obtain c where c: "c \<in> set (all_phases n m)" "(cfg, phase) = (fst c, fst (snd c))"
    unfolding all_phases_labels [of n m, symmetric] by auto
  then show ?thesis
    using all_phases_count [OF c(1)] assms(3,4) by (intro exI [of _ "snd (snd c)"]) auto
qed

lemma filter_concat_one:
  assumes "distinct (map key xs)" "x \<in> set xs" "\<And>y r. y \<in> set xs \<Longrightarrow> r \<in> set (f y) \<Longrightarrow> k r = key y"
  shows "filter (\<lambda>r. k r = key x) (concat (map f xs)) = f x"
  using assms
proof (induction xs)
  case (Cons a xs)
  have "key a = key x \<longleftrightarrow> a = x" using Cons.prems(1,2) by (metis distinct.simps(2) image_eqI list.set_map list.simps(9) set_ConsD)
  moreover have "k r = key a" if "r \<in> set (f a)" for r using Cons.prems(3) [OF _ that] by simp
  ultimately have rest: "filter (\<lambda>r. k r = key x) (f a) = (if a = x then f a else [])"
    by (auto simp: filter_empty_conv filter_id_conv)
  show ?case
  proof (cases "x \<in> set xs")
    case True
    then have "a \<noteq> x" using Cons.prems(1) by auto
    then show ?thesis using rest Cons.IH [OF _ True] Cons.prems by simp
  next
    case False
    then have "a = x" using Cons.prems(2) by simp
    moreover have "k r \<noteq> key x" if "y \<in> set xs" "r \<in> set (f y)" for y r
      using Cons.prems(1) Cons.prems(3) [of y r] that \<open>a = x\<close> by (auto simp: image_iff)
    then have "filter (\<lambda>r. k r = key x) (concat (map f xs)) = []"
      by (auto simp: filter_empty_conv)
    ultimately show ?thesis using rest by simp
  qed
qed simp

lemma contention_rows_ok:
  assumes "prims_ok P"
  shows "\<exists>rows. contention_rows P env n n_spaced = Inr rows \<and>
    (\<forall>(cfg, phase, k) \<in> set (all_phases n n_spaced). map cy_i (filter (\<lambda>r. (cy_config r, cy_phase r) = (cfg, phase)) rows) = [0..<k])"
proof -
  define g where "g = (\<lambda>c. projr (phase_rows P env c))"
  have ph: "phase_rows P env c = Inr (g c) \<and> rows_of_phase (fst c) (fst (snd c)) [0..<snd (snd c)] (g c)"
    if "c \<in> set (all_phases n n_spaced)" for c
  proof -
    show ?thesis
      using measure_phase_ok [OF assms all_phases_configs [OF that], of "env (fst c) (fst (snd c))" "snd (snd c)" "fst (snd c)"]
      by (cases c) (auto simp: g_def phase_rows_def)
  qed
  let ?rows = "concat (map g (all_phases n n_spaced))"
  have run: "contention_rows P env n n_spaced = Inr ?rows"
  proof -
    have "map_res (phase_rows P env) (idle_phases n n_spaced) = Inr (map g (idle_phases n n_spaced))"
      "map_res (phase_rows P env) (llama_phases n n_spaced) = Inr (map g (llama_phases n n_spaced))"
      "until_exception (phase_rows P env) (ecores_phases n) = concat (map g (ecores_phases n))"
      using ph by (auto intro!: map_res_Inr until_exception_Inr simp: all_phases_def)
    then show ?thesis by (simp add: contention_rows_def all_phases_def Let_def)
  qed
  have sel: "filter (\<lambda>r. (cy_config r, cy_phase r) = (fst c, fst (snd c))) ?rows = g c" if "c \<in> set (all_phases n n_spaced)" for c
  proof (rule filter_concat_one [where key = "\<lambda>c. (fst c, fst (snd c))" and k = "\<lambda>r. (cy_config r, cy_phase r)", OF _ that])
    show "distinct (map (\<lambda>c. (fst c, fst (snd c))) (all_phases n n_spaced))" using phase_labels_complete(1) by (simp only: all_phases_labels)
    show "(cy_config r, cy_phase r) = (fst y, fst (snd y))" if "y \<in> set (all_phases n n_spaced)" "r \<in> set (g y)" for y r
      using ph [OF that(1)] that(2) by (auto simp: rows_of_phase_def list_all_iff)
  qed
  have counts: "map cy_i (filter (\<lambda>r. (cy_config r, cy_phase r) = (fst c, fst (snd c))) ?rows) = [0..<snd (snd c)]"
    if "c \<in> set (all_phases n n_spaced)" for c
    using ph [OF that] sel [OF that] by (simp add: rows_of_phase_def)
  then show ?thesis using run by (intro exI [of _ ?rows]) auto
qed

text \<open>C36
  With correct signature schemes the contention check runs to its end: every phase of every scheme
  has exactly the calls asked for, in order and under its own label, no measurement of one phase
  counts for another, and the table has a line for each scheme and phase.
\<close>

theorem contention_check_complete:
  assumes "prims_ok P" "0 < n" "0 < n_spaced"
  shows "\<exists>rows ls. contention_main P env n n_spaced = Inr (rows, ls) \<and>
    (\<forall>(cfg, phase, k) \<in> set (all_phases n n_spaced). map cy_i (filter (\<lambda>r. (cy_config r, cy_phase r) = (cfg, phase)) rows) = [0..<k]) \<and>
    map (\<lambda>l. (cl_scheme l, cl_phase l)) ls = concat (map (\<lambda>(s, _). map (Pair s) PHASES) SCHEMES)"
proof -
  obtain rows where run: "contention_rows P env n n_spaced = Inr rows"
      and all: "\<forall>(cfg, phase, k) \<in> set (all_phases n n_spaced). map cy_i (filter (\<lambda>r. (cy_config r, cy_phase r) = (cfg, phase)) rows) = [0..<k]"
    using contention_rows_ok [OF assms(1)] by blast
  have counts: "map cy_i (filter (\<lambda>r. (cy_config r, cy_phase r) = (cfg, phase)) rows) = [0..<k]"
    if "(cfg, phase, k) \<in> set (all_phases n n_spaced)" for cfg phase k
    using all that by blast
  have ne: "filter (\<lambda>r. cy_config r = cfg \<and> cy_phase r = phase) rows \<noteq> []"
    if scheme: "(s, cfg) \<in> set SCHEMES" and phase: "phase \<in> set PHASES" for s cfg phase
  proof -
    obtain k where c: "(cfg, phase, k) \<in> set (all_phases n n_spaced)" "0 < k"
      using all_phases_present [OF scheme phase assms(2,3)] by blast
    have "length (filter (\<lambda>r. cy_config r = cfg \<and> cy_phase r = phase) rows) = k"
      using arg_cong [OF counts [OF c(1)], of length] by simp
    then show ?thesis using c(2) by auto
  qed
  define line where "line = (\<lambda>(s, phase). projr (contention_line_of rows s phase))"
  have ln: "contention_line_of rows s phase = Inr (line (s, phase)) \<and> cl_scheme (line (s, phase)) = fst s \<and> cl_phase (line (s, phase)) = phase"
    if "s \<in> set SCHEMES" "phase \<in> set PHASES" for s phase
    using ne [of "fst s" "snd s" phase] that by (cases s) (simp add: contention_line_of_def line_def Let_def)
  have tab: "contention_table rows = Inr (map line (concat (map (\<lambda>s. map (Pair s) PHASES) SCHEMES)))"
    unfolding contention_table_def using ln by (intro map_res_Inr) auto
  have "map (\<lambda>l. (cl_scheme l, cl_phase l)) (map line (concat (map (\<lambda>s. map (Pair s) PHASES) SCHEMES))) =
      concat (map (\<lambda>(s, _). map (Pair s) PHASES) SCHEMES)"
    using ln by (simp add: map_concat comp_def case_prod_beta cong: map_cong)
  moreover have "rows \<noteq> []"
  proof
    assume "rows = []"
    then show False using ne [of "''ECDSA-P256''" "''hybrid''" "''idle''"] by (simp add: SCHEMES_def PHASES_def del: concat_eq_Nil_conv)
  qed
  ultimately show ?thesis
    using run tab all by (intro exI) (auto simp: contention_main_def)
qed

lemma contention_check_complete_witness:
  "\<exists>rows ls. contention_main toy_prims (\<lambda>_ _. \<lparr> pn_uuid = ''u'', pn_rng = (\<lambda>_ _. 0), pn_span = wit_span, pn_draw = (\<lambda>_ _. 0),
      pn_sign = (\<lambda>_. wit_span), pn_verify = (\<lambda>_. wit_span) \<rparr>) 3 2 = Inr (rows, ls) \<and>
    map (\<lambda>l. (cl_scheme l, cl_phase l)) ls = concat (map (\<lambda>(s, _). map (Pair s) PHASES) SCHEMES)"
  using contention_check_complete [OF toy_prims_ok, of 3 2 "\<lambda>_ _. \<lparr> pn_uuid = ''u'', pn_rng = (\<lambda>_ _. 0), pn_span = wit_span,
      pn_draw = (\<lambda>_ _. 0), pn_sign = (\<lambda>_. wit_span), pn_verify = (\<lambda>_. wit_span) \<rparr>"]
  by auto

end
