(* ===== verification/LegacyChannels.thy ===== *)
theory LegacyChannels
  imports Aead OqsAdapter Base64
begin

text \<open>
  The first version of the protected channel: \<^verbatim>\<open>crypto/config_a_classical.py\<close>,
  \<^verbatim>\<open>crypto/config_b_hybrid.py\<close>, \<^verbatim>\<open>crypto/config_c_full_pqc.py\<close> on \<^verbatim>\<open>crypto/oqs_kem.py\<close> and
  \<^verbatim>\<open>crypto/oqs_sig.py\<close>. A channel has long-lived keys and no sessions, and AES-GCM runs under the
  transported key itself. PEM text is \<open>pem\<close> of the DER bytes; \<open>r n\<close> are the random draws.
\<close>

section \<open>The liboqs adapters\<close>

definition KEM_ALGORITHM :: string where
  "KEM_ALGORITHM = ''ML-KEM-768''"

definition SIGNATURE_ALGORITHM :: string where
  "SIGNATURE_ALGORITHM = ''ML-DSA-65''"

text \<open>\<^verbatim>\<open>_library_path\<close>: the override is taken unseen, the local build only when it is there.\<close>

definition library_path :: "(string \<rightharpoonup> string) \<Rightarrow> string \<Rightarrow> string \<Rightarrow> (string \<Rightarrow> bool) \<Rightarrow> string res" where
  "library_path environ parent sysname path_exists =
     (let override = str_or (environ ''PQ_SHIELD_OQS_LIB'') [];
          extension = (if sysname = ''Darwin'' then ''.dylib'' else ''.so'');
          local = parent @ ''/work/oqs-prefix/lib/liboqs'' @ extension in
      if override \<noteq> [] then Inr override
      else if path_exists local then Inr local
      else Inl RuntimeError)"

definition c_buffer :: "bytes \<Rightarrow> nat option \<Rightarrow> bytes res" where
  "c_buffer data expected = (case expected of None \<Rightarrow> Inr data | Some n \<Rightarrow> if length data \<noteq> n then Inl ValueError else Inr data)"

definition kem_generate_keypair :: "prims \<Rightarrow> tape \<Rightarrow> (bytes \<times> bytes) res" where
  "kem_generate_keypair P t =
     (case c_kem_keypair P t of (rc, pk, sk) \<Rightarrow>
        if rc \<noteq> OQS_SUCCESS then Inl RuntimeError else Inr (cbuf 1184 pk, cbuf 2400 sk))"

definition kem_encapsulate :: "prims \<Rightarrow> tape \<Rightarrow> bytes \<Rightarrow> (bytes \<times> bytes) res" where
  "kem_encapsulate P t public_key =
     bind_res (c_buffer public_key (Some 1184)) (\<lambda>public.
     case c_kem_encaps P t public of (rc, ct, ss) \<Rightarrow>
        if rc \<noteq> OQS_SUCCESS then Inl RuntimeError else Inr (cbuf 1088 ct, cbuf 32 ss))"

definition kem_decapsulate :: "prims \<Rightarrow> bytes \<Rightarrow> bytes \<Rightarrow> bytes res" where
  "kem_decapsulate P ciphertext secret_key =
     bind_res (c_buffer ciphertext (Some 1088)) (\<lambda>cipher.
     bind_res (c_buffer secret_key (Some 2400)) (\<lambda>secret.
     case c_kem_decaps P cipher secret of (rc, ss) \<Rightarrow>
        if rc \<noteq> OQS_SUCCESS then Inl RuntimeError else Inr (cbuf 32 ss)))"

definition sig_generate_keypair :: "prims \<Rightarrow> tape \<Rightarrow> (bytes \<times> bytes) res" where
  "sig_generate_keypair P t =
     (case c_sig_keypair P t of (rc, pk, sk) \<Rightarrow>
        if rc \<noteq> OQS_SUCCESS then Inl RuntimeError else Inr (cbuf 1952 pk, cbuf 4032 sk))"

text \<open>\<^verbatim>\<open>signature[:signature_length.value]\<close>: the length is the one the C function wrote.\<close>

definition sig_sign :: "prims \<Rightarrow> tape \<Rightarrow> bytes \<Rightarrow> bytes \<Rightarrow> bytes res" where
  "sig_sign P t message secret_key =
     bind_res (c_buffer secret_key (Some 4032)) (\<lambda>secret.
     bind_res (c_buffer message None) (\<lambda>signed_message.
     case c_sig_sign P t signed_message secret of (rc, sg, n) \<Rightarrow>
        if rc \<noteq> OQS_SUCCESS then Inl RuntimeError else Inr (take n (cbuf 3309 sg))))"

definition sig_verify :: "prims \<Rightarrow> bytes \<Rightarrow> bytes \<Rightarrow> bytes \<Rightarrow> bool res" where
  "sig_verify P message sg public_key =
     bind_res (c_buffer public_key (Some 1952)) (\<lambda>public.
     bind_res (c_buffer message None) (\<lambda>signed_message.
     bind_res (c_buffer sg None) (\<lambda>sg'.
     Inr (c_sig_verify P signed_message sg' public = OQS_SUCCESS))))"

section \<open>Envelopes\<close>

definition NONCE_BYTES :: nat where
  "NONCE_BYTES = 12"

text \<open>\<^verbatim>\<open>AESGCM(key).decrypt\<close>: a bad key or a nonce below 8 bytes is a \<open>ValueError\<close>.\<close>

definition gcm_open :: "prims \<Rightarrow> bytes \<Rightarrow> bytes \<Rightarrow> bytes \<Rightarrow> bytes res" where
  "gcm_open P key nonce ciphertext =
     (if \<not> gcm_key_ok P key \<or> length nonce < 8 then Inl ValueError
      else case gcm_decrypt P key nonce ciphertext None of None \<Rightarrow> Inl InvalidTag | Some p \<Rightarrow> Inr p)"

definition pack_envelope :: "prims \<Rightarrow> tape \<Rightarrow> bytes \<Rightarrow> bytes \<Rightarrow> bytes res" where
  "pack_envelope P t session_key plaintext =
     (let nonce = urandom t NONCE_BYTES in
      if \<not> gcm_key_ok P session_key then Inl ValueError else Inr (nonce @ gcm_encrypt P session_key nonce plaintext None))"

definition unpack_envelope :: "prims \<Rightarrow> bytes \<Rightarrow> bytes \<Rightarrow> bytes res" where
  "unpack_envelope P session_key envelope = gcm_open P session_key (take NONCE_BYTES envelope) (drop NONCE_BYTES envelope)"

section \<open>The three channels\<close>

record classical_channel =
  lc_rsa_private :: bytes
  lc_signing_private :: bytes

record handshake_material =
  hm_key_exchange_public_key :: string
  hm_signing_public_key :: string
  hm_algorithm :: string

definition classical_create :: "prims \<Rightarrow> rng \<Rightarrow> classical_channel res" where
  "classical_create P r = Inr \<lparr> lc_rsa_private = rsa_generate P (r 0), lc_signing_private = ec_generate P (r 1) \<rparr>"

definition classical_handshake :: "prims \<Rightarrow> (bytes \<Rightarrow> string) \<Rightarrow> classical_channel \<Rightarrow> handshake_material" where
  "classical_handshake P pem c =
     \<lparr> hm_key_exchange_public_key = pem (rsa_public_der P (lc_rsa_private c)),
       hm_signing_public_key = pem (ec_public_der P (lc_signing_private c)), hm_algorithm = ''RSA-2048/OAEP + ECDSA-P256'' \<rparr>"

definition rsa_session_key :: "prims \<Rightarrow> classical_channel \<Rightarrow> bytes \<Rightarrow> bytes res" where
  "rsa_session_key P c encrypted_key =
     (case rsa_decrypt P (lc_rsa_private c) encrypted_key of None \<Rightarrow> Inl ValueError | Some k \<Rightarrow> Inr k)"

definition classical_decrypt_request :: "prims \<Rightarrow> classical_channel \<Rightarrow> bytes \<Rightarrow> bytes \<Rightarrow> bytes res" where
  "classical_decrypt_request P c encrypted_key envelope =
     bind_res (rsa_session_key P c encrypted_key) (\<lambda>session_key.
     if length session_key \<noteq> 32 then Inl ValueError else unpack_envelope P session_key envelope)"

definition classical_decrypt_request_with_key :: "prims \<Rightarrow> classical_channel \<Rightarrow> bytes \<Rightarrow> bytes \<Rightarrow> (bytes \<times> bytes) res" where
  "classical_decrypt_request_with_key P c encrypted_key envelope =
     bind_res (rsa_session_key P c encrypted_key) (\<lambda>session_key.
     bind_res (unpack_envelope P session_key envelope) (\<lambda>plaintext. Inr (plaintext, session_key)))"

definition classical_respond :: "prims \<Rightarrow> rng \<Rightarrow> classical_channel \<Rightarrow> bytes \<Rightarrow> bytes \<Rightarrow> (bytes \<times> bytes) res" where
  "classical_respond P r c plaintext session_key =
     bind_res (pack_envelope P (r 0) session_key plaintext) (\<lambda>envelope.
     Inr (envelope, ec_sign P (r 1) (lc_signing_private c) envelope))"

record hybrid_channel =
  lh_kem_public_key :: bytes
  lh_kem_secret_key :: bytes
  lh_signing_private :: bytes

definition hybrid_create :: "prims \<Rightarrow> rng \<Rightarrow> hybrid_channel res" where
  "hybrid_create P r =
     bind_res (kem_generate_keypair P (r 0)) (\<lambda>(pk, sk).
     Inr \<lparr> lh_kem_public_key = pk, lh_kem_secret_key = sk, lh_signing_private = ec_generate P (r 1) \<rparr>)"

definition hybrid_handshake :: "prims \<Rightarrow> (bytes \<Rightarrow> string) \<Rightarrow> hybrid_channel \<Rightarrow> bytes \<times> string" where
  "hybrid_handshake P pem c = (lh_kem_public_key c, pem (ec_public_der P (lh_signing_private c)))"

definition hybrid_decrypt_request_with_key :: "prims \<Rightarrow> hybrid_channel \<Rightarrow> bytes \<Rightarrow> bytes \<Rightarrow> (bytes \<times> bytes) res" where
  "hybrid_decrypt_request_with_key P c kem_ciphertext envelope =
     bind_res (kem_decapsulate P kem_ciphertext (lh_kem_secret_key c)) (\<lambda>session_key.
     bind_res (unpack_envelope P session_key envelope) (\<lambda>plaintext. Inr (plaintext, session_key)))"

definition hybrid_respond :: "prims \<Rightarrow> rng \<Rightarrow> hybrid_channel \<Rightarrow> bytes \<Rightarrow> bytes \<Rightarrow> (bytes \<times> bytes) res" where
  "hybrid_respond P r c plaintext session_key =
     bind_res (pack_envelope P (r 0) session_key plaintext) (\<lambda>envelope.
     Inr (envelope, ec_sign P (r 1) (lh_signing_private c) envelope))"

definition hybrid_algorithm :: string where
  "hybrid_algorithm = KEM_ALGORITHM @ '' + ECDSA-P256''"

record pqc_channel =
  lp_kem_public_key :: bytes
  lp_kem_secret_key :: bytes
  lp_signing_public_key :: bytes
  lp_signing_secret_key :: bytes

definition pqc_create :: "prims \<Rightarrow> rng \<Rightarrow> pqc_channel res" where
  "pqc_create P r =
     bind_res (kem_generate_keypair P (r 0)) (\<lambda>(pk, sk).
     bind_res (sig_generate_keypair P (r 1)) (\<lambda>(spk, ssk).
     Inr \<lparr> lp_kem_public_key = pk, lp_kem_secret_key = sk, lp_signing_public_key = spk, lp_signing_secret_key = ssk \<rparr>))"

definition pqc_handshake :: "pqc_channel \<Rightarrow> bytes \<times> bytes" where
  "pqc_handshake c = (lp_kem_public_key c, lp_signing_public_key c)"

definition pqc_decrypt_request_with_key :: "prims \<Rightarrow> pqc_channel \<Rightarrow> bytes \<Rightarrow> bytes \<Rightarrow> (bytes \<times> bytes) res" where
  "pqc_decrypt_request_with_key P c kem_ciphertext envelope =
     bind_res (kem_decapsulate P kem_ciphertext (lp_kem_secret_key c)) (\<lambda>session_key.
     bind_res (unpack_envelope P session_key envelope) (\<lambda>plaintext. Inr (plaintext, session_key)))"

definition pqc_respond :: "prims \<Rightarrow> rng \<Rightarrow> pqc_channel \<Rightarrow> bytes \<Rightarrow> bytes \<Rightarrow> (bytes \<times> bytes) res" where
  "pqc_respond P r c plaintext session_key =
     bind_res (pack_envelope P (r 0) session_key plaintext) (\<lambda>envelope.
     bind_res (sig_sign P (r 1) envelope (lp_signing_secret_key c)) (\<lambda>sg. Inr (envelope, sg)))"

definition pqc_algorithm :: string where
  "pqc_algorithm = KEM_ALGORITHM @ '' + '' @ SIGNATURE_ALGORITHM"

section \<open>The contract of a channel\<close>

text \<open>AES-GCM takes any key of 32 bytes.\<close>

definition key32_ok :: "prims \<Rightarrow> bool" where
  "key32_ok P \<longleftrightarrow> (\<forall>k. length k = 32 \<longrightarrow> gcm_key_ok P k)"

lemma pack_envelope_opens:
  assumes "aead_ok P" "gcm_key_ok P k"
  shows "\<exists>e. pack_envelope P t k m = Inr e \<and> unpack_envelope P k e = Inr m \<and> length e = length m + 28"
  using assms by (simp add: pack_envelope_def unpack_envelope_def gcm_open_def NONCE_BYTES_def Let_def aead_okD)

text \<open>
  \<open>seal\<close>: what a client sends to transport a session key, and the key; \<open>check\<close>: how it checks a
  signature, both from the public halves. A request sealed for a channel opens there under the
  sender's key, and its signatures check.
\<close>

locale protected_channel =
  fixes create :: "prims \<Rightarrow> rng \<Rightarrow> 'c res"
    and open_request :: "prims \<Rightarrow> 'c \<Rightarrow> bytes \<Rightarrow> bytes \<Rightarrow> (bytes \<times> bytes) res"
    and respond :: "prims \<Rightarrow> rng \<Rightarrow> 'c \<Rightarrow> bytes \<Rightarrow> bytes \<Rightarrow> (bytes \<times> bytes) res"
    and seal :: "prims \<Rightarrow> tape \<Rightarrow> tape \<Rightarrow> 'c \<Rightarrow> (bytes \<times> bytes) res"
    and check :: "prims \<Rightarrow> 'c \<Rightarrow> bytes \<Rightarrow> bytes \<Rightarrow> bool res"
  assumes create_total: "prims_ok P \<Longrightarrow> \<exists>c. create P r = Inr c"
    and seal_opens: "prims_ok P \<Longrightarrow> create P r = Inr c \<Longrightarrow> \<exists>ek k. seal P t t' c = Inr (ek, k) \<and> length k = 32 \<and>
      (\<forall>env. open_request P c ek env = bind_res (unpack_envelope P k env) (\<lambda>m. Inr (m, k)))"
    and respond_checks: "prims_ok P \<Longrightarrow> create P r = Inr c \<Longrightarrow> pack_envelope P (r' 0) k m = Inr env \<Longrightarrow>
      \<exists>sg. respond P r' c m k = Inr (env, sg) \<and> check P c env sg = Inr True"
begin

lemma round_trip:
  assumes "prims_ok P" "key32_ok P"
  shows "\<exists>c ek k env env' sg. create P r = Inr c \<and> seal P t t' c = Inr (ek, k) \<and> pack_envelope P t'' k request = Inr env \<and>
    open_request P c ek env = Inr (request, k) \<and> respond P r' c response k = Inr (env', sg) \<and> check P c env' sg = Inr True \<and>
    unpack_envelope P k env' = Inr response"
proof -
  have aead: "aead_ok P" using assms(1) by (simp add: prims_ok_def)
  obtain c where c: "create P r = Inr c" using create_total [OF assms(1)] by blast
  obtain ek k where k: "seal P t t' c = Inr (ek, k)" "length k = 32"
      "\<And>env. open_request P c ek env = bind_res (unpack_envelope P k env) (\<lambda>m. Inr (m, k))"
    using seal_opens [OF assms(1) c] by blast
  have key: "gcm_key_ok P k" using assms(2) k(2) by (simp add: key32_ok_def)
  obtain env where env: "pack_envelope P t'' k request = Inr env" "unpack_envelope P k env = Inr request"
    using pack_envelope_opens [OF aead key] by blast
  obtain env' where env': "pack_envelope P (r' 0) k response = Inr env'" "unpack_envelope P k env' = Inr response"
    using pack_envelope_opens [OF aead key] by blast
  obtain sg where "respond P r' c response k = Inr (env', sg)" "check P c env' sg = Inr True"
    using respond_checks [where r' = r', OF assms(1) c env'(1)] by blast
  with c k env env' show ?thesis by auto
qed

end

section \<open>The client's half, as the repository's tests play it\<close>

definition classical_seal :: "prims \<Rightarrow> tape \<Rightarrow> tape \<Rightarrow> classical_channel \<Rightarrow> (bytes \<times> bytes) res" where
  "classical_seal P t t' c =
     (let session_key = urandom t 32 in
      bind_res (rsa_encrypt P t' (rsa_public_der P (lc_rsa_private c)) session_key) (\<lambda>encrypted_key. Inr (encrypted_key, session_key)))"

definition classical_check :: "prims \<Rightarrow> classical_channel \<Rightarrow> bytes \<Rightarrow> bytes \<Rightarrow> bool res" where
  "classical_check P c envelope sg = Inr (ec_verify P (ec_public_der P (lc_signing_private c)) sg envelope)"

definition hybrid_seal :: "prims \<Rightarrow> tape \<Rightarrow> tape \<Rightarrow> hybrid_channel \<Rightarrow> (bytes \<times> bytes) res" where
  "hybrid_seal P t t' c = kem_encapsulate P t' (lh_kem_public_key c)"

definition hybrid_check :: "prims \<Rightarrow> hybrid_channel \<Rightarrow> bytes \<Rightarrow> bytes \<Rightarrow> bool res" where
  "hybrid_check P c envelope sg = Inr (ec_verify P (ec_public_der P (lh_signing_private c)) sg envelope)"

definition pqc_seal :: "prims \<Rightarrow> tape \<Rightarrow> tape \<Rightarrow> pqc_channel \<Rightarrow> (bytes \<times> bytes) res" where
  "pqc_seal P t t' c = kem_encapsulate P t' (fst (pqc_handshake c))"

definition pqc_check :: "prims \<Rightarrow> pqc_channel \<Rightarrow> bytes \<Rightarrow> bytes \<Rightarrow> bool res" where
  "pqc_check P c envelope sg = sig_verify P envelope sg (snd (pqc_handshake c))"

section \<open>The channels keep the contract\<close>

lemma kem_pair:
  assumes "kem_ok P"
  obtains pk sk where "kem_generate_keypair P t = Inr (pk, sk)"
    and "\<And>t'. \<exists>ct ss. kem_encapsulate P t' pk = Inr (ct, ss) \<and> length ss = 32 \<and> kem_decapsulate P ct sk = Inr ss"
proof -
  obtain pk sk where kp: "c_kem_keypair P t = (0, pk, sk)" "length pk = 1184" "length sk = 2400"
    and all: "\<forall>t'. \<exists>ct ss. c_kem_encaps P t' pk = (0, ct, ss) \<and> length ct = 1088 \<and> length ss = 32 \<and> c_kem_decaps P ct sk = (0, ss)"
    using assms unfolding kem_ok_def by blast
  have "\<exists>ct ss. kem_encapsulate P t' pk = Inr (ct, ss) \<and> length ss = 32 \<and> kem_decapsulate P ct sk = Inr ss" for t'
  proof -
    obtain ct ss where "c_kem_encaps P t' pk = (0, ct, ss)" "length ct = 1088" "length ss = 32" "c_kem_decaps P ct sk = (0, ss)"
      using all by blast
    then show ?thesis using kp by (simp add: kem_encapsulate_def kem_decapsulate_def c_buffer_def OQS_SUCCESS_def)
  qed
  moreover have "kem_generate_keypair P t = Inr (pk, sk)"
    using kp by (simp add: kem_generate_keypair_def OQS_SUCCESS_def)
  ultimately show ?thesis using that by blast
qed

lemma sig_pair:
  assumes "dsa_ok P"
  obtains pk sk where "sig_generate_keypair P t = Inr (pk, sk)"
    and "\<And>t' m. \<exists>sg. sig_sign P t' m sk = Inr sg \<and> sig_verify P m sg pk = Inr True"
proof -
  obtain pk sk where kp: "c_sig_keypair P t = (0, pk, sk)" "length pk = 1952" "length sk = 4032"
    and all: "\<forall>t' m. \<exists>sg. c_sig_sign P t' m sk = (0, sg, 3309) \<and> length sg = 3309 \<and> c_sig_verify P m sg pk = 0"
    using assms unfolding dsa_ok_def by blast
  have "\<exists>sg. sig_sign P t' m sk = Inr sg \<and> sig_verify P m sg pk = Inr True" for t' m
  proof -
    obtain sg where "c_sig_sign P t' m sk = (0, sg, 3309)" "length sg = 3309" "c_sig_verify P m sg pk = 0"
      using all by blast
    then show ?thesis using kp by (simp add: sig_sign_def sig_verify_def c_buffer_def OQS_SUCCESS_def)
  qed
  moreover have "sig_generate_keypair P t = Inr (pk, sk)"
    using kp by (simp add: sig_generate_keypair_def OQS_SUCCESS_def)
  ultimately show ?thesis using that by blast
qed

interpretation classical_legacy: protected_channel classical_create classical_decrypt_request_with_key classical_respond
  classical_seal classical_check
proof
  fix P c t t' k m env and r r' :: rng
  show "\<exists>c. classical_create P r = Inr c" by (simp add: classical_create_def)
  assume ok: "prims_ok P" and c: "classical_create P r = Inr c"
  obtain ek where "rsa_encrypt P t' (rsa_public_der P (rsa_generate P (r 0))) (urandom t 32) = Inr ek"
      "rsa_decrypt P (rsa_generate P (r 0)) ek = Some (urandom t 32)"
    using rsa_ok_round_trip [of P "urandom t 32" t' "r 0"] ok by (auto simp: prims_ok_def)
  then show "\<exists>ek k. classical_seal P t t' c = Inr (ek, k) \<and> length k = 32 \<and>
      (\<forall>env. classical_decrypt_request_with_key P c ek env = bind_res (unpack_envelope P k env) (\<lambda>m. Inr (m, k)))"
    using c by (auto simp: classical_create_def classical_seal_def classical_decrypt_request_with_key_def rsa_session_key_def Let_def)
  assume "pack_envelope P (r' 0) k m = Inr env"
  then show "\<exists>sg. classical_respond P r' c m k = Inr (env, sg) \<and> classical_check P c env sg = Inr True"
    using ok c ec_okD(2) [of P] by (auto simp: classical_create_def classical_respond_def classical_check_def prims_ok_def)
qed

interpretation hybrid_legacy: protected_channel hybrid_create hybrid_decrypt_request_with_key hybrid_respond hybrid_seal hybrid_check
proof
  fix P c t t' k m env and r r' :: rng
  assume ok: "prims_ok P"
  then have kem: "kem_ok P" by (simp add: prims_ok_def)
  obtain pk sk where kp: "kem_generate_keypair P (r 0) = Inr (pk, sk)"
      "\<And>t'. \<exists>ct ss. kem_encapsulate P t' pk = Inr (ct, ss) \<and> length ss = 32 \<and> kem_decapsulate P ct sk = Inr ss"
    using kem_pair [OF kem, of "r 0"] by blast
  show "\<exists>c. hybrid_create P r = Inr c" using kp(1) by (simp add: hybrid_create_def)
  assume c: "hybrid_create P r = Inr c"
  obtain ct ss where "kem_encapsulate P t' pk = Inr (ct, ss)" "length ss = 32" "kem_decapsulate P ct sk = Inr ss"
    using kp(2) by blast
  then show "\<exists>ek k. hybrid_seal P t t' c = Inr (ek, k) \<and> length k = 32 \<and>
      (\<forall>env. hybrid_decrypt_request_with_key P c ek env = bind_res (unpack_envelope P k env) (\<lambda>m. Inr (m, k)))"
    using c kp(1) by (auto simp: hybrid_create_def hybrid_seal_def hybrid_decrypt_request_with_key_def)
  assume "pack_envelope P (r' 0) k m = Inr env"
  then show "\<exists>sg. hybrid_respond P r' c m k = Inr (env, sg) \<and> hybrid_check P c env sg = Inr True"
    using ok c ec_okD(2) [of P] by (auto simp: hybrid_create_def hybrid_respond_def hybrid_check_def prims_ok_def)
qed

interpretation pqc_legacy: protected_channel pqc_create pqc_decrypt_request_with_key pqc_respond pqc_seal pqc_check
proof
  fix P c t t' k m env and r r' :: rng
  assume ok: "prims_ok P"
  then have kem: "kem_ok P" and dsa: "dsa_ok P" by (simp_all add: prims_ok_def)
  obtain pk sk where kp: "kem_generate_keypair P (r 0) = Inr (pk, sk)"
      "\<And>t'. \<exists>ct ss. kem_encapsulate P t' pk = Inr (ct, ss) \<and> length ss = 32 \<and> kem_decapsulate P ct sk = Inr ss"
    using kem_pair [OF kem, of "r 0"] by blast
  obtain spk ssk where sp: "sig_generate_keypair P (r 1) = Inr (spk, ssk)"
      "\<And>t' m. \<exists>sg. sig_sign P t' m ssk = Inr sg \<and> sig_verify P m sg spk = Inr True"
    using sig_pair [OF dsa, of "r 1"] by blast
  show "\<exists>c. pqc_create P r = Inr c" using kp(1) sp(1) by (simp add: pqc_create_def)
  assume "pqc_create P r = Inr c"
  then have c: "c = \<lparr> lp_kem_public_key = pk, lp_kem_secret_key = sk, lp_signing_public_key = spk, lp_signing_secret_key = ssk \<rparr>"
    using kp(1) sp(1) by (simp add: pqc_create_def)
  obtain ct ss where "kem_encapsulate P t' pk = Inr (ct, ss)" "length ss = 32" "kem_decapsulate P ct sk = Inr ss"
    using kp(2) by blast
  then show "\<exists>ek k. pqc_seal P t t' c = Inr (ek, k) \<and> length k = 32 \<and>
      (\<forall>env. pqc_decrypt_request_with_key P c ek env = bind_res (unpack_envelope P k env) (\<lambda>m. Inr (m, k)))"
    by (simp add: c pqc_seal_def pqc_handshake_def pqc_decrypt_request_with_key_def)
  assume p: "pack_envelope P (r' 0) k m = Inr env"
  obtain sg where "sig_sign P (r' 1) env ssk = Inr sg" "sig_verify P env sg spk = Inr True"
    using sp(2) by blast
  then show "\<exists>sg. pqc_respond P r' c m k = Inr (env, sg) \<and> pqc_check P c env sg = Inr True"
    using p by (simp add: c pqc_respond_def pqc_check_def pqc_handshake_def)
qed

text \<open>C37
  On each of the three channels of the first version a client that seals a fresh key for the
  channel has its request opened as sent, under its own key, and receives a response whose
  signature checks and which opens to what the server answered.
\<close>

theorem legacy_channels_round_trip:
  assumes "prims_ok P" "key32_ok P"
  shows "(\<exists>c ek k env env' sg. classical_create P r = Inr c \<and> classical_seal P t t' c = Inr (ek, k) \<and>
      pack_envelope P t'' k request = Inr env \<and> classical_decrypt_request_with_key P c ek env = Inr (request, k) \<and>
      classical_respond P r' c response k = Inr (env', sg) \<and> classical_check P c env' sg = Inr True \<and> unpack_envelope P k env' = Inr response) \<and>
    (\<exists>c ek k env env' sg. hybrid_create P r = Inr c \<and> hybrid_seal P t t' c = Inr (ek, k) \<and>
      pack_envelope P t'' k request = Inr env \<and> hybrid_decrypt_request_with_key P c ek env = Inr (request, k) \<and>
      hybrid_respond P r' c response k = Inr (env', sg) \<and> hybrid_check P c env' sg = Inr True \<and> unpack_envelope P k env' = Inr response) \<and>
    (\<exists>c ek k env env' sg. pqc_create P r = Inr c \<and> pqc_seal P t t' c = Inr (ek, k) \<and>
      pack_envelope P t'' k request = Inr env \<and> pqc_decrypt_request_with_key P c ek env = Inr (request, k) \<and>
      pqc_respond P r' c response k = Inr (env', sg) \<and> pqc_check P c env' sg = Inr True \<and> unpack_envelope P k env' = Inr response)"
  by (intro conjI classical_legacy.round_trip [OF assms] hybrid_legacy.round_trip [OF assms] pqc_legacy.round_trip [OF assms])

lemma legacy_channels_round_trip_witness:
  "\<exists>c ek k env env' sg. pqc_create toy_prims (\<lambda>_ _. 0) = Inr c \<and> pqc_seal toy_prims (\<lambda>_. 1) (\<lambda>_. 2) c = Inr (ek, k) \<and>
    pack_envelope toy_prims (\<lambda>_. 3) k [1, 2] = Inr env \<and> pqc_decrypt_request_with_key toy_prims c ek env = Inr ([1, 2], k) \<and>
    pqc_respond toy_prims (\<lambda>_ _. 4) c [5] k = Inr (env', sg) \<and> pqc_check toy_prims c env' sg = Inr True \<and> unpack_envelope toy_prims k env' = Inr [5]"
proof -
  have "key32_ok toy_prims" by (simp add: key32_ok_def toy_prims_def)
  then show ?thesis
    using legacy_channels_round_trip [OF toy_prims_ok, of "\<lambda>_ _. 0" "\<lambda>_. 1" "\<lambda>_. 2" "\<lambda>_. 3" "[1, 2]" "\<lambda>_ _. 4" "[5]"] by blast
qed

end
