(* ===== verification/PaperTables.thy ===== *)
theory PaperTables
  imports PaperStatistics AttackCampaign KeySubstitution
begin

text \<open>
  The numbers behind three tables of \<^verbatim>\<open>analysis/paper_figures.py\<close>: failed requests with the
  sensitivity analysis that counts them at the client's timeout, the attack campaign pooled over
  configurations, and the key-substitution attack pooled over configurations. The LaTeX around
  them is left out; a missing number is \<open>None\<close>.
\<close>

section \<open>Failed requests\<close>

definition CLIENT_TIMEOUT_MS :: rat where
  "CLIENT_TIMEOUT_MS = 30000"

definition failure_rate :: "meas list \<Rightarrow> string \<times> int \<Rightarrow> rat" where
  "failure_rate df cell =
     (let g = filter (\<lambda>r. (me_config r, me_concurrency r) = cell) df in of_nat (length (filter is_err g)) / of_nat (length g))"

text \<open>The levels at which some configuration lost at least half a percent of its requests.\<close>

definition failure_levels :: "meas list \<Rightarrow> int list" where
  "failure_levels df =
     sort (remdups (map snd (filter (\<lambda>cell. 5 / 1000 \<le> failure_rate df cell) (group_keys (\<lambda>r. (me_config r, me_concurrency r)) df))))"

definition impute_failure :: "meas \<Rightarrow> meas" where
  "impute_failure r =
     (if is_err r then r \<lparr> me_error := None, me_value := (me_value r)(''total_ms'' \<mapsto> CLIENT_TIMEOUT_MS) \<rparr> else r)"

record failure_row =
  fw_concurrency :: int
  fw_config :: string
  fw_attempted :: nat
  fw_failed :: nat
  fw_at_handshake :: nat
  fw_at_request :: nat
  fw_kinds :: "string \<Rightarrow> nat"
  fw_median :: "rat option"
  fw_median_imputed :: "rat option"
  fw_cmp :: "comparison option"
  fw_cmp_imputed :: "comparison option"

definition ecdhe_comparison :: "comparison list \<Rightarrow> string \<Rightarrow> int \<Rightarrow> comparison option" where
  "ecdhe_comparison c cfg conc =
     List.find (\<lambda>r. cq_config r = cfg \<and> cq_reference r = ''classical_ecdhe'' \<and> cq_concurrency r = conc) c"

definition failure_row_of :: "meas list \<Rightarrow> comparison list \<Rightarrow> comparison list \<Rightarrow> int \<Rightarrow> string \<Rightarrow> failure_row list" where
  "failure_row_of df cmp0 cmp1 conc cfg =
     (let g = filter (\<lambda>r. me_config r = cfg \<and> me_concurrency r = conc) df;
          ge = filter is_err g;
          n_hs = (if cfg = ''control'' then 0 else length (filter (\<lambda>r. me_value r ''handshake_ms'' = None) ge)) in
      if g = [] then []
      else [\<lparr> fw_concurrency = conc, fw_config = cfg, fw_attempted = length g, fw_failed = length ge,
              fw_at_handshake = n_hs, fw_at_request = length ge - n_hs,
              fw_kinds = (\<lambda>kind. length (filter (\<lambda>r. map_option err_kind (me_error r) = Some kind) ge)),
              fw_median = if_any (values_of ''total_ms'' (filter (\<lambda>r. \<not> is_err r) g)) median,
              fw_median_imputed = if_any (values_of ''total_ms'' (map impute_failure g)) median,
              fw_cmp = ecdhe_comparison cmp0 cfg conc, fw_cmp_imputed = ecdhe_comparison cmp1 cfg conc \<rparr>])"

definition PAPER_CONFIGS :: "string list" where
  "PAPER_CONFIGS = [''control'', ''control_2rt''] @ PAPER_PROTECTED"

definition failure_rows ::
  "'g np_generator \<Rightarrow> (rat list \<Rightarrow> rat list \<Rightarrow> rat) \<Rightarrow> (rat list \<Rightarrow> rat list \<Rightarrow> rat) \<Rightarrow> (nat \<Rightarrow> 'g) \<Rightarrow> meas list \<Rightarrow> failure_row list" where
  "failure_rows gn mw_u mw_p default_rng df =
     (let levels = failure_levels df;
          here = filter (\<lambda>r. me_concurrency r \<in> set levels) df;
          imp = map impute_failure here;
          pairs = map (\<lambda>c. (c, ''classical_ecdhe''))
                    (filter (\<lambda>c. c \<in> set (map me_config imp) \<and> c \<noteq> ''classical_ecdhe'') PAPER_PROTECTED);
          cmp0 = comparison_stats gn mw_u mw_p here pairs (default_rng 11);
          cmp1 = comparison_stats gn mw_u mw_p imp pairs (default_rng 11) in
      concat (map (\<lambda>conc. concat (map (failure_row_of df cmp0 cmp1 conc) PAPER_CONFIGS)) levels))"

section \<open>The campaign, pooled\<close>

definition CAMPAIGN_CELLS :: "(string \<times> nat option) list" where
  "CAMPAIGN_CELLS = [(''per_chunk'', None), (''hash_chain'', None), (''hash_chain'', Some 10), (''hash_chain'', Some 5), (''hash_chain'', Some 2)]"

definition CAMPAIGN_ATTACKS :: "string list" where
  "CAMPAIGN_ATTACKS =
     [''drop'', ''reorder'', ''duplicate'', ''replay'', ''session_replay'', ''truncate'', ''checkpoint_strip'',
      ''checkpoint_strip_v2client'', ''checkpoint_move'', ''drop_before_ckpt'', ''drop_after_ckpt'', ''reorder_across'']"

text \<open>\<^verbatim>\<open>(df["strategy"] == s) & (df["k"] == (k or 0)) & (df["attack"] == a)\<close>\<close>

definition campaign_group :: "cell_row list \<Rightarrow> string \<times> nat option \<Rightarrow> string \<Rightarrow> cell_row list" where
  "campaign_group df cell attack =
     filter (\<lambda>r. ce_strategy r = fst cell \<and>
        (case ce_checkpoint_interval r of None \<Rightarrow> 0 | Some k \<Rightarrow> k) = int (case snd cell of None \<Rightarrow> 0 | Some k \<Rightarrow> k) \<and>
        ce_attack r = attack) df"

text \<open>\<^verbatim>\<open>(g[col] * g["n"]).sum() / n\<close>, where a missing mean adds nothing; NaN when all are missing.\<close>

definition weighted_mean :: "(cell_row \<Rightarrow> rat option) \<Rightarrow> cell_row list \<Rightarrow> nat \<Rightarrow> rat option" where
  "weighted_mean col g n =
     (if list_all (\<lambda>r. col r = None) g then None
      else Some (sum_list (map (\<lambda>r. case col r of None \<Rightarrow> 0 | Some x \<Rightarrow> x * of_nat (ce_n r)) g) / of_nat n))"

record pooled_cell =
  pl_n :: nat
  pl_detected :: nat
  pl_mid :: nat
  pl_unverified :: "rat option"
  pl_exposure :: "rat option"
  pl_ci :: "rat \<times> rat"

definition pool_cells :: "(rat \<Rightarrow> nat \<Rightarrow> nat \<Rightarrow> rat) \<Rightarrow> cell_row list \<Rightarrow> pooled_cell option" where
  "pool_cells beta_ppf g =
     (let n = sum_list (map ce_n g); d = sum_list (map ce_detected g) in
      if g = [] \<or> n = 0 then None
      else Some \<lparr> pl_n = n, pl_detected = d,
                  pl_mid = sum_list (map (\<lambda>r. case ce_mid_stream r of None \<Rightarrow> 0 | Some m \<Rightarrow> m) g),
                  pl_unverified = weighted_mean ce_unverified_mean g n, pl_exposure = weighted_mean ce_exposure_mean g n,
                  pl_ci = clopper_pearson_ci beta_ppf d n (5 / 100) \<rparr>)"

definition campaign_table :: "(rat \<Rightarrow> nat \<Rightarrow> nat \<Rightarrow> rat) \<Rightarrow> cell_row list \<Rightarrow> (string \<times> pooled_cell option list) list" where
  "campaign_table beta_ppf df =
     filter (\<lambda>(_, cells). list_ex (\<lambda>c. c \<noteq> None) cells)
       (map (\<lambda>a. (a, map (\<lambda>cell. pool_cells beta_ppf (campaign_group df cell a)) CAMPAIGN_CELLS)) CAMPAIGN_ATTACKS)"

text \<open>False rejections, with the bound \<^verbatim>\<open>1 - 0.05 ** (1 / n)\<close> when there are none.\<close>

definition benign_entry :: "(rat \<Rightarrow> nat \<Rightarrow> rat) \<Rightarrow> cell_row list \<Rightarrow> string \<times> nat option \<Rightarrow> nat \<times> nat \<times> rat option" where
  "benign_entry nth_root df cell =
     (let g = campaign_group df cell ''benign''; n = sum_list (map ce_n g); d = sum_list (map ce_detected g) in
      (d, n, if d = 0 \<and> n \<noteq> 0 then Some (1 - nth_root (5 / 100) n) else None))"

text \<open>The stream is the unit: a bound on all streams detected, and the one on trials.\<close>

definition detection_bounds :: "(rat \<Rightarrow> nat \<Rightarrow> nat \<Rightarrow> rat) \<Rightarrow> cell_row list \<Rightarrow> nat \<Rightarrow> nat \<Rightarrow> rat \<times> rat" where
  "detection_bounds beta_ppf df pool trials =
     (let configs = filter (\<lambda>c. c \<in> set (map ce_config df)) PAPER_PROTECTED;
          n_streams = pool * length configs; n_trials = trials * length configs in
      (fst (clopper_pearson_ci beta_ppf n_streams n_streams (5 / 100)), fst (clopper_pearson_ci beta_ppf n_trials n_trials (5 / 100))))"

section \<open>Key substitution, pooled\<close>

text \<open>\<^verbatim>\<open>rej[k] = rej.get(k, 0) + c\<close>, in insertion order.\<close>

fun add_count :: "string \<times> nat \<Rightarrow> (string \<times> nat) list \<Rightarrow> (string \<times> nat) list" where
  "add_count (k, c) [] = [(k, c)]"
| "add_count (k, c) ((k', n) # kvs) = (if k' = k then (k', n + c) # kvs else (k', n) # add_count (k, c) kvs)"

record pooled_substitution =
  pk_mode :: string
  pk_variant :: string
  pk_n_valid :: nat
  pk_accepted :: nat
  pk_read :: nat
  pk_forged :: nat
  pk_rejected_at :: "(string \<times> nat) list"

definition pool_substitution :: "ks_summary list \<Rightarrow> string \<times> string \<Rightarrow> pooled_substitution list" where
  "pool_substitution rows = (\<lambda>(mode, variant).
     let g = filter (\<lambda>r. su_mode r = mode \<and> su_variant r = variant) rows in
     if g = [] then []
     else [\<lparr> pk_mode = mode, pk_variant = variant, pk_n_valid = sum_list (map su_n_valid g), pk_accepted = sum_list (map su_accepted g),
             pk_read = sum_list (map su_attacker_read_request g), pk_forged = sum_list (map su_forged_response_accepted g),
             pk_rejected_at = fold add_count (concat (map su_rejected_at g)) [] \<rparr>])"

definition key_substitution_table :: "ks_summary list \<Rightarrow> pooled_substitution list" where
  "key_substitution_table rows =
     concat (map (pool_substitution rows)
       (List.product [''unauthenticated'', ''pinned''] [''benign'', ''substitute'', ''substitute_resign'', ''relay_tamper'']))"

section \<open>What failures can do to a median\<close>

lemma median_middle:
  assumes "xs \<noteq> []"
  shows "median xs = (sort xs ! ((length xs - 1) div 2) + sort xs ! (length xs div 2)) / 2"
proof (cases "odd (length xs)")
  case True
  then have "(length xs - 1) div 2 = length xs div 2" by (auto elim: oddE)
  then show ?thesis using True by (simp add: median_def Let_def)
next
  case False
  then have "(length xs - 1) div 2 = length xs div 2 - 1" using assms by (auto elim!: evenE)
  then show ?thesis using False by (simp add: median_def Let_def)
qed

lemma nth_insort:
  fixes t :: rat
  assumes "sorted s" "j \<le> length s" "s \<noteq> []"
  shows "insort t s ! j = (if j = 0 then min t (s ! 0) else if j = length s then max (s ! (j - 1)) t else max (s ! (j - 1)) (min t (s ! j)))"
  using assms
proof (induction s arbitrary: j)
  case (Cons x s)
  have above: "x \<le> s ! i" if "i < length s" for i
    using Cons.prems(1) that by simp
  show ?case
  proof (cases "t \<le> x")
    case True
    have "t \<le> (x # s) ! i" if "i < length (x # s)" for i
      using True above that by (cases i) (auto intro: order_trans)
    then have "max ((x # s) ! (j - 1)) u = (x # s) ! (j - 1)" if "0 < j" "u \<le> t" for u
      using that Cons.prems(2) by (intro max_absorb1) (meson diff_less le_less_trans less_imp_diff_less order_trans zero_less_one less_le_trans leI)
    then show ?thesis
      using True by (cases j) auto
  next
    case False
    show ?thesis
    proof (cases j)
      case (Suc i)
      show ?thesis
      proof (cases "s = []")
        case True
        then show ?thesis using False Suc Cons.prems(2) by simp
      next
        case ne: False
        have "insort t s ! i = (if i = 0 then min t (s ! 0) else if i = length s then max (s ! (i - 1)) t else max (s ! (i - 1)) (min t (s ! i)))"
          using Cons.IH [of i] Cons.prems(1,2) ne Suc by simp
        moreover have "max x (min t (s ! 0)) = min t (s ! 0)"
          using False above [of 0] ne by (intro max_absorb2) simp
        ultimately show ?thesis
          using False Suc ne by (cases i) auto
      qed
    qed (use False in simp)
  qed
qed simp

text \<open>One more value moves a median towards it, never past it.\<close>

lemma median_insert:
  fixes t :: rat
  assumes "zs \<noteq> []"
  shows "min (median zs) t \<le> median (t # zs)" "median (t # zs) \<le> max (median zs) t"
proof -
  define s where "s = sort zs"
  have s: "sorted s" "length s = length zs" "s \<noteq> []"
    using assms by (auto simp: s_def) (metis length_0_conv length_sort)
  have mono: "s ! i \<le> s ! j" if "i \<le> j" "j < length s" for i j
    using sorted_nth_mono [OF s(1) that] .
  note nth = nth_insort [OF s(1) _ s(3), of _ t]
  have new: "median (t # zs) = (insort t s ! (length s div 2) + insort t s ! ((length s + 1) div 2)) / 2"
    by (simp add: median_middle s_def)
  have "min (median zs) t \<le> median (t # zs) \<and> median (t # zs) \<le> max (median zs) t"
  proof (cases "odd (length s)")
    case True
    then obtain m where m: "length s = 2 * m + 1" by (rule oddE)
    have old: "median zs = s ! m"
      using m s(2) by (simp add: median_middle [OF assms] s_def)
    have "insort t s ! m = (if m = 0 then min t (s ! 0) else max (s ! (m - 1)) (min t (s ! m)))"
      using nth [of m] m by simp
    moreover have "insort t s ! (m + 1) = (if m = 0 then max (s ! 0) t else max (s ! m) (min t (s ! (m + 1))))"
      using nth [of "m + 1"] m by simp
    moreover have "s ! (m - 1) \<le> s ! m" "m \<noteq> 0 \<Longrightarrow> s ! m \<le> s ! (m + 1)"
      using mono m by simp_all
    ultimately show ?thesis
      unfolding new old using m by (auto simp: min_def max_def)
  next
    case False
    then have "even (length s)" by simp
    then obtain m where m0: "length s = 2 * m" by (rule evenE)
    with s(3) have m: "length s = 2 * m" "0 < m" by (cases m; simp)+
    have "(2 * m - 1) div 2 = m - 1" using m(2) by linarith
    then have old: "median zs = (s ! (m - 1) + s ! m) / 2"
      using m s(2) by (simp add: median_middle [OF assms] s_def)
    have "insort t s ! m = max (s ! (m - 1)) (min t (s ! m))"
      using nth [of m] m by simp
    moreover have "s ! (m - 1) \<le> s ! m"
      using mono m by simp
    ultimately show ?thesis
      unfolding new old using m by (auto simp: min_def max_def)
  qed
  then show "min (median zs) t \<le> median (t # zs)" "median (t # zs) \<le> max (median zs) t" by blast+
qed

lemma median_mset: "mset xs = mset ys \<Longrightarrow> median xs = median ys"
  using properties_for_sort [of "sort ys" xs] mset_eq_length [of xs ys] by (simp add: median_def)

lemma median_with_copies:
  assumes "xs \<noteq> []" "mset ys = mset xs + replicate_mset k (t :: rat)"
  shows "min (median xs) t \<le> median ys \<and> median ys \<le> max (median xs) t"
  using assms(2)
proof (induction k arbitrary: ys)
  case 0
  then show ?case using median_mset [of ys xs] by simp
next
  case (Suc k)
  define zs where "zs = xs @ replicate k t"
  have "median ys = median (t # zs)"
    by (rule median_mset) (simp add: Suc.prems zs_def)
  moreover have "min (median xs) t \<le> median zs \<and> median zs \<le> max (median xs) t"
    by (rule Suc.IH) (simp add: zs_def)
  moreover have "zs \<noteq> []" using assms(1) by (simp add: zs_def)
  ultimately show ?case
    using median_insert [of zs t] by (simp add: min_le_iff_disj le_max_iff_disj) linarith
qed

lemma median_copies: "mset ys = replicate_mset (Suc k) (t :: rat) \<Longrightarrow> median ys = t"
  using median_with_copies [of "[t]" ys k t] by (simp add: median_def)

lemma imputed_values:
  "mset (values_of ''total_ms'' (map impute_failure g)) =
     mset (values_of ''total_ms'' (filter (\<lambda>r. \<not> is_err r) g)) + replicate_mset (length (filter is_err g)) CLIENT_TIMEOUT_MS"
  by (induction g) (auto simp: values_of_def impute_failure_def)

definition ERR_KINDS :: "string list" where
  "ERR_KINDS = [''timeout'', ''reset'', ''refused'', ''HTTP 5xx'', ''HTTP 4xx'', ''other'']"

lemma err_kind_known: "err_kind e \<in> set ERR_KINDS"
  by (simp add: err_kind_def ERR_KINDS_def)

lemma count_by_kind:
  assumes "distinct ks" "\<And>r. r \<in> set xs \<Longrightarrow> \<exists>k \<in> set ks. f r = Some k"
  shows "sum_list (map (\<lambda>k. length (filter (\<lambda>r. f r = Some k) xs)) ks) = length xs"
  using assms(2)
proof (induction xs)
  case (Cons r xs)
  then obtain k where k: "k \<in> set ks" "f r = Some k" by auto
  have "sum_list (map (\<lambda>k'. length (filter (\<lambda>r. f r = Some k') (r # xs))) ks) =
      sum_list (map (\<lambda>k'. (if k' = k then 1 else 0) + length (filter (\<lambda>r. f r = Some k') xs)) ks)"
    using k(2) by (intro arg_cong [where f = sum_list] map_cong) auto
  also have "\<dots> = sum_list (map (\<lambda>k'. if k' = k then 1 else 0) ks) + sum_list (map (\<lambda>k'. length (filter (\<lambda>r. f r = Some k') xs)) ks)"
    by (simp add: sum_list_addf)
  also have "sum_list (map (\<lambda>k'. if k' = k then 1 else 0) ks) = (1 :: nat)"
    using k(1) by (simp add: sum_list_distinct_conv_sum_set [OF assms(1)])
  finally show ?case using Cons by simp
qed simp

lemma is_err_kind: "is_err r \<Longrightarrow> \<exists>k \<in> set ERR_KINDS. map_option err_kind (me_error r) = Some k"
  using err_kind_known by (auto simp: is_err_def split: option.splits)

lemma failure_row_in:
  assumes "row \<in> set (failure_rows gn mw_u mw_p default_rng df)"
  obtains cfg conc cmp0 cmp1 where "row \<in> set (failure_row_of df cmp0 cmp1 conc cfg)"
  using assms that by (auto simp: failure_rows_def Let_def)

text \<open>C38
  What counting failed requests at the client's timeout does to a row of the failure table. The
  median moves towards the timeout and never past it: it ends between the median of the successes
  and the timeout, at the timeout when nothing succeeded, and where it was when nothing
  failed. And in every row the stages and the causes of the failures both add up to the failed requests, which are
  among the attempted.
\<close>

theorem failures_pull_median_to_timeout:
  assumes "row \<in> set (failure_rows gn mw_u mw_p default_rng df)"
  shows "(case fw_median row of
       Some m \<Rightarrow> (\<exists>m'. fw_median_imputed row = Some m' \<and> min m 30000 \<le> m' \<and> m' \<le> max m 30000 \<and> (fw_failed row = 0 \<longrightarrow> m' = m))
     | None \<Rightarrow> fw_median_imputed row = (if fw_failed row = 0 then None else Some 30000)) \<and>
    fw_at_handshake row + fw_at_request row = fw_failed row \<and> fw_failed row \<le> fw_attempted row \<and>
    sum_list (map (fw_kinds row) [''timeout'', ''reset'', ''refused'', ''HTTP 5xx'', ''HTTP 4xx'', ''other'']) = fw_failed row"
proof -
  obtain cfg conc cmp0 cmp1 where "row \<in> set (failure_row_of df cmp0 cmp1 conc cfg)"
    using failure_row_in [OF assms(1)] .
  moreover define g where "g = filter (\<lambda>r. me_config r = cfg \<and> me_concurrency r = conc) df"
  ultimately have row: "fw_median row = if_any (values_of ''total_ms'' (filter (\<lambda>r. \<not> is_err r) g)) median"
      "fw_median_imputed row = if_any (values_of ''total_ms'' (map impute_failure g)) median"
      "fw_attempted row = length g" "fw_failed row = length (filter is_err g)"
      "fw_at_request row = fw_failed row - fw_at_handshake row" "fw_at_handshake row \<le> fw_failed row"
      "fw_kinds row = (\<lambda>kind. length (filter (\<lambda>r. map_option err_kind (me_error r) = Some kind) (filter is_err g)))"
    by (auto simp: failure_row_of_def Let_def simp del: filter_filter split: if_splits)
  let ?ok = "values_of ''total_ms'' (filter (\<lambda>r. \<not> is_err r) g)" and ?imp = "values_of ''total_ms'' (map impute_failure g)"
  have imp: "mset ?imp = mset ?ok + replicate_mset (fw_failed row) 30000"
    using imputed_values [of g] by (simp add: row(4) CLIENT_TIMEOUT_MS_def)
  have "case fw_median row of
       Some m \<Rightarrow> (\<exists>m'. fw_median_imputed row = Some m' \<and> min m 30000 \<le> m' \<and> m' \<le> max m 30000 \<and> (fw_failed row = 0 \<longrightarrow> m' = m))
     | None \<Rightarrow> fw_median_imputed row = (if fw_failed row = 0 then None else Some 30000)"
  proof (cases "?ok = []")
    case True
    then have copies: "mset ?imp = replicate_mset (fw_failed row) 30000" using imp by simp
    then have "?imp = []" if "fw_failed row = 0" using that by simp
    moreover have "?imp \<noteq> [] \<and> median ?imp = 30000" if failed: "fw_failed row \<noteq> 0"
    proof -
      obtain k where k: "fw_failed row = Suc k" using failed by (cases "fw_failed row") simp_all
      have "mset ?imp = replicate_mset (Suc k) 30000"
        using copies by (simp add: k)
      then show ?thesis using median_copies by (metis list.size(3) size_mset size_replicate_mset nat.distinct(1))
    qed
    ultimately show ?thesis using True row(1,2) by (simp add: if_any_def)
  next
    case False
    have "?imp \<noteq> []"
      using imp False by (metis mset_zero_iff union_eq_empty)
    moreover have "median ?imp = median ?ok" if "fw_failed row = 0"
      by (rule median_mset) (simp add: imp that)
    ultimately show ?thesis
      using False row(1,2) median_with_copies [OF False imp] by (simp add: if_any_def)
  qed
  moreover have "sum_list (map (fw_kinds row) ERR_KINDS) = fw_failed row"
    unfolding row(4,7) by (rule count_by_kind) (auto simp: ERR_KINDS_def [symmetric] dest: is_err_kind, simp add: ERR_KINDS_def)
  ultimately show ?thesis
    using row(3-6) by (simp add: ERR_KINDS_def)
qed

lemma failure_rows_include:
  assumes "conc \<in> set (failure_levels df)" "cfg \<in> set PAPER_CONFIGS"
  shows "\<exists>cmp0 cmp1. set (failure_row_of df cmp0 cmp1 conc cfg) \<subseteq> set (failure_rows gn mw_u mw_p default_rng df)"
proof -
  obtain cmp0 cmp1 where rows: "failure_rows gn mw_u mw_p default_rng df =
      concat (map (\<lambda>conc. concat (map (failure_row_of df cmp0 cmp1 conc) PAPER_CONFIGS)) (failure_levels df))"
    by (simp only: failure_rows_def Let_def)
  have "x \<in> set (failure_rows gn mw_u mw_p default_rng df)" if "x \<in> set (failure_row_of df cmp0 cmp1 conc cfg)" for x
  proof -
    have "x \<in> set (concat (map (failure_row_of df cmp0 cmp1 conc) PAPER_CONFIGS))" using that assms(2) by auto
    then show ?thesis unfolding rows using assms(1) by auto
  qed
  then show ?thesis by blast
qed

definition wit_failure_df :: "meas list" where
  "wit_failure_df =
     [\<lparr> me_run_id = ''r'', me_config = ''classical'', me_concurrency = 10, me_repetition = 1, me_request_index = 0, me_error = None,
        me_value = [''total_ms'' \<mapsto> 5, ''handshake_ms'' \<mapsto> 1] \<rparr>,
      \<lparr> me_run_id = ''r'', me_config = ''classical'', me_concurrency = 10, me_repetition = 1, me_request_index = 1,
        me_error = Some ''ReadError: '', me_value = Map.empty \<rparr>]"

lemma failures_pull_median_to_timeout_witness:
  "\<exists>row \<in> set (failure_rows \<lparr> gn_integers = (\<lambda>_ _. State_Monad.return []), gn_choice = (\<lambda>_ _. State_Monad.return []) \<rparr>
      (\<lambda>_ _. 0) (\<lambda>_ _. 1) id wit_failure_df).
     fw_median row = Some 5 \<and> fw_failed row = 1 \<and> (\<exists>m'. fw_median_imputed row = Some m' \<and> 5 \<le> m' \<and> m' \<le> 30000)"
proof -
  let ?gn = "\<lparr> gn_integers = (\<lambda>_ _. State_Monad.return []), gn_choice = (\<lambda>_ _. State_Monad.return []) \<rparr> :: nat np_generator"
  have lev: "failure_levels wit_failure_df = [10]"
    by (simp add: failure_levels_def failure_rate_def wit_failure_df_def group_keys_def is_err_def Let_def)
  have cfg: "''classical'' \<in> set PAPER_CONFIGS" by (simp add: PAPER_CONFIGS_def PAPER_PROTECTED_def)
  obtain cmp0 cmp1 where sub: "set (failure_row_of wit_failure_df cmp0 cmp1 10 ''classical'') \<subseteq>
      set (failure_rows ?gn (\<lambda>_ _. 0) (\<lambda>_ _. 1) id wit_failure_df)"
    using failure_rows_include [of 10 wit_failure_df "''classical''" ?gn "\<lambda>_ _. 0" "\<lambda>_ _. 1" id] lev cfg by auto
  obtain row where row: "row \<in> set (failure_row_of wit_failure_df cmp0 cmp1 10 ''classical'')" "fw_median row = Some 5" "fw_failed row = 1"
    by (simp add: failure_row_of_def wit_failure_df_def is_err_def if_any_def values_of_def median_def Let_def)
  have member: "row \<in> set (failure_rows ?gn (\<lambda>_ _. 0) (\<lambda>_ _. 1) id wit_failure_df)"
    using row(1) sub by blast
  have "\<exists>m'. fw_median_imputed row = Some m' \<and> 5 \<le> m' \<and> m' \<le> 30000"
    using failures_pull_median_to_timeout [OF member] row(2) by auto
  then show ?thesis using row member by blast
qed

section \<open>What pooling does to a mean\<close>

lemma weighted_sum:
  assumes "list_all (\<lambda>(r, ta). ce_n r = ta_n ta \<and> ce_unverified_mean r = mean_or_none (map of_nat (ta_unverified ta)) \<and>
    length (ta_unverified ta) = ta_n ta) cells"
  shows "sum_list (map (\<lambda>r. case ce_unverified_mean r of None \<Rightarrow> 0 | Some x \<Rightarrow> x * of_nat (ce_n r)) (map fst cells)) =
      sum_list (map of_nat (concat (map (ta_unverified \<circ> snd) cells))) \<and>
    sum_list (map ce_n (map fst cells)) = length (concat (map (ta_unverified \<circ> snd) cells))"
  using assms
proof (induction cells)
  case (Cons c cells)
  obtain r ta where c: "c = (r, ta)" by fastforce
  have "(case ce_unverified_mean r of None \<Rightarrow> 0 | Some x \<Rightarrow> x * of_nat (ce_n r)) = (sum_list (map of_nat (ta_unverified ta)) :: rat)"
    using Cons.prems by (cases "ta_unverified ta = []") (auto simp: c mean_or_none_def mean_def)
  then show ?case using Cons by (simp add: c)
qed simp

text \<open>C39
  A pooled entry is the mean over all its trials: when every trial of every pooled configuration
  contributed a value, as it does when every trial was detected, the weighted mean the table
  prints is the mean of the values of all trials together.
\<close>

theorem pooled_mean_is_mean:
  assumes "g = map (\<lambda>(cfg, m, ta). cell_row_of ppf cfg strategy k m attack ta) cells"
    and "list_all (\<lambda>(cfg, m, ta). length (ta_unverified ta) = ta_n ta) cells" "pool_cells beta_ppf g = Some p"
  shows "pl_unverified p = Some (mean (map of_nat (concat (map (\<lambda>(_, _, ta). ta_unverified ta) cells)))) \<and>
    pl_n p = length (concat (map (\<lambda>(_, _, ta). ta_unverified ta) cells))"
proof -
  let ?pairs = "map (\<lambda>(cfg, m, ta). (cell_row_of ppf cfg strategy k m attack ta, ta)) cells"
  have fst: "map fst ?pairs = g" by (simp add: assms(1) comp_def case_prod_beta)
  have snd: "concat (map (ta_unverified \<circ> snd) ?pairs) = concat (map (\<lambda>(_, _, ta). ta_unverified ta) cells)"
    by (induction cells) auto
  have "list_all (\<lambda>(r, ta). ce_n r = ta_n ta \<and> ce_unverified_mean r = mean_or_none (map of_nat (ta_unverified ta)) \<and>
      length (ta_unverified ta) = ta_n ta) ?pairs"
    using assms(2) by (auto simp: list_all_iff cell_row_of_def)
  note sums = weighted_sum [OF this, unfolded fst snd]
  have n: "sum_list (map ce_n g) \<noteq> 0" "p = \<lparr> pl_n = sum_list (map ce_n g), pl_detected = pl_detected p, pl_mid = pl_mid p,
      pl_unverified = weighted_mean ce_unverified_mean g (sum_list (map ce_n g)), pl_exposure = pl_exposure p, pl_ci = pl_ci p \<rparr>"
    using assms(3) by (auto simp: pool_cells_def Let_def split: if_splits)
  have "\<not> list_all (\<lambda>r. ce_unverified_mean r = None) g"
  proof
    assume "list_all (\<lambda>r. ce_unverified_mean r = None) g"
    have "ce_n r = 0" if r: "r \<in> set g" for r
    proof -
      obtain cfg m ta where ta: "(cfg, m, ta) \<in> set cells" "r = cell_row_of ppf cfg strategy k m attack ta"
        using r by (auto simp: assms(1))
      have "ce_unverified_mean r = None" using \<open>list_all _ g\<close> r by (simp add: list_all_iff)
      then have "ta_unverified ta = []" by (simp add: ta(2) cell_row_of_def mean_or_none_def split: if_splits)
      moreover have "length (ta_unverified ta) = ta_n ta" using assms(2) ta(1) by (auto simp: list_all_iff)
      ultimately show ?thesis by (simp add: ta(2) cell_row_of_def)
    qed
    then have "sum_list (map ce_n g) = 0" by (simp add: sum_list_eq_0_iff)
    then show False using n(1) by simp
  qed
  then show ?thesis
    using sums arg_cong [OF n(2), of pl_unverified] arg_cong [OF n(2), of pl_n] by (simp add: weighted_mean_def mean_def)
qed

definition wit_tally :: "nat list \<Rightarrow> cell_tally" where
  "wit_tally us = \<lparr> ta_n = length us, ta_det = length us, ta_mid = 0, ta_exposures = us, ta_unverified = us \<rparr>"

lemma pooled_mean_is_mean_witness:
  "\<exists>p. pool_cells (\<lambda>_ _ _. 0) [cell_row_of (\<lambda>_ _ _. 0) ''hybrid'' ''per_chunk'' None 9 ''drop'' (wit_tally [1, 3]),
      cell_row_of (\<lambda>_ _ _. 0) ''full_pqc'' ''per_chunk'' None 9 ''drop'' (wit_tally [5])] = Some p \<and>
    pl_unverified p = Some (mean [1, 3, 5]) \<and> pl_n p = 3"
proof -
  let ?cells = "[(''hybrid'', 9, wit_tally [1, 3]), (''full_pqc'', 9, wit_tally [5])]"
  let ?g = "map (\<lambda>(cfg, m, ta). cell_row_of (\<lambda>_ _ _. 0) cfg ''per_chunk'' None m ''drop'' ta) ?cells"
  obtain p where p: "pool_cells (\<lambda>_ _ _. 0) ?g = Some p"
    by (simp add: pool_cells_def cell_row_of_def wit_tally_def Let_def)
  then show ?thesis
    using pooled_mean_is_mean [OF refl _ p] by (simp add: wit_tally_def)
qed

text \<open>A configuration without a detection counts in the denominator alone and pulls the mean down.\<close>

lemma pooled_mean_counts_undetected:
  assumes "ce_n a = n" "ce_unverified_mean a = Some x" "ce_n b = m" "ce_unverified_mean b = None" "0 < n"
  shows "map_option pl_unverified (pool_cells beta_ppf [a, b]) = Some (Some (x * of_nat n / of_nat (n + m)))"
  using assms by (simp add: pool_cells_def weighted_mean_def Let_def)

text \<open>Pooling keeps the total of the rejections.\<close>

lemma add_count_total: "sum_list (map snd (add_count kc acc)) = snd kc + sum_list (map snd acc)"
  by (induction kc acc rule: add_count.induct) auto

lemma add_counts_total: "sum_list (map snd (fold add_count kcs acc)) = sum_list (map snd kcs) + sum_list (map snd acc)"
  by (induction kcs arbitrary: acc) (simp_all add: add_count_total)

lemma pooled_rejections:
  assumes "p \<in> set (key_substitution_table rows)"
    and "\<And>s. s \<in> set rows \<Longrightarrow> su_accepted s + sum_list (map snd (su_rejected_at s)) = su_n_valid s"
  shows "pk_accepted p + sum_list (map snd (pk_rejected_at p)) = pk_n_valid p"
proof -
  obtain mode variant where "p \<in> set (pool_substitution rows (mode, variant))"
    using assms(1) by (auto simp: key_substitution_table_def)
  moreover define g where "g = filter (\<lambda>r. su_mode r = mode \<and> su_variant r = variant) rows"
  ultimately have g: "set g \<subseteq> set rows" "pk_accepted p = sum_list (map su_accepted g)" "pk_n_valid p = sum_list (map su_n_valid g)"
      "pk_rejected_at p = fold add_count (concat (map su_rejected_at g)) []"
    by (auto simp: pool_substitution_def Let_def g_def split: if_splits)
  have "sum_list (map su_accepted g) + sum_list (map snd (concat (map su_rejected_at g))) = sum_list (map su_n_valid g)"
    using g(1)
  proof (induction g)
    case (Cons s g)
    then show ?case using assms(2) [of s] by simp
  qed simp
  then show ?thesis by (simp add: g add_counts_total)
qed

end
