(* ===== verification/DemoServers.thy ===== *)
theory DemoServers
  imports Orchestrator JsonAccess
begin

text \<open>
  \<^verbatim>\<open>webapp/server_manager.py\<close>: the demo servers of the dashboard. The state is the machine's process
  table and the session's record of the processes started; how a process answers to being
  terminated and killed is part of the process. The health checks and the operating system's choice
  of process numbers are arguments, and the display names of the page are left out.
\<close>

section \<open>Servers and processes\<close>

definition DEMO_PORTS :: "(string \<times> nat) list" where
  "DEMO_PORTS =
     [(''control'', 8100), (''classical'', 8101), (''hybrid'', 8102), (''full_pqc'', 8103), (''classical_ecdhe'', 8104),
      (''hybrid_kex'', 8105), (''hybrid_kex_pq'', 8106)]"

definition CONFIG_KEY :: "(string \<times> string) list" where
  "CONFIG_KEY =
     [(''control'', ''control''), (''classical'', ''classical''), (''classical_ecdhe'', ''classical-ecdhe''), (''hybrid'', ''hybrid''),
      (''hybrid_kex'', ''hybrid-kex''), (''full_pqc'', ''full-pqc''), (''hybrid_kex_pq'', ''hybrid-kex-pq'')]"

definition get_base_url :: "string \<Rightarrow> string res" where
  "get_base_url c = bind_res (get_item (map_of DEMO_PORTS) c) (\<lambda>port. Inr (''http://127.0.0.1:'' @ nat_str port))"

text \<open>The answer to \<^verbatim>\<open>/healthz\<close>, an exception included.\<close>

definition is_healthy :: "nat res \<Rightarrow> bool" where
  "is_healthy answer \<longleftrightarrow> answer = Inr 200"

text \<open>\<open>os_ends\<close>: terminated and gone within five seconds; \<open>os_dies\<close>: \<^verbatim>\<open>kill\<close> succeeds.\<close>

record os_process =
  os_pid :: nat
  os_cmdline :: "string list option"
  os_ends :: bool
  os_dies :: bool

text \<open>\<^verbatim>\<open>st.session_state\<close> has no \<^verbatim>\<open>demo_server_pids\<close> until the first server is started.\<close>

record demo_state =
  de_processes :: "os_process list"
  de_pids :: "(string \<rightharpoonup> nat) option"

fun join_blank :: "string list \<Rightarrow> string" where
  "join_blank [] = []"
| "join_blank [x] = x"
| "join_blank (x # xs) = x @ '' '' @ join_blank xs"

section \<open>Starting\<close>

definition server_cmdline :: "string \<Rightarrow> string \<Rightarrow> nat \<Rightarrow> string list" where
  "server_cmdline python_bin app_path port = [python_bin, ''-m'', ''uvicorn'', app_path, ''--port'', nat_str port, ''--log-level'', ''warning'']"

text \<open>The process exists from \<^verbatim>\<open>_start_server\<close> on; its number is recorded once it answers.\<close>

definition ensure_server ::
  "string \<Rightarrow> nat res \<Rightarrow> rat \<Rightarrow> (rat \<times> nat res) list \<Rightarrow> os_process \<Rightarrow> string \<Rightarrow> demo_state \<Rightarrow> demo_state \<times> string res" where
  "ensure_server python_bin answer deadline polls proc c st =
     (case get_base_url c of
        Inl e \<Rightarrow> (st, Inl e)
      | Inr base_url \<Rightarrow>
          if is_healthy answer then (st, Inr base_url)
          else
            let st0 = st \<lparr> de_pids := Some (case de_pids st of None \<Rightarrow> Map.empty | Some m \<Rightarrow> m) \<rparr> in
            case bind_res (get_item (map_of CONFIG_KEY) c) (\<lambda>config_key.
                 bind_res (get_item (map_of DEMO_PORTS) c) (\<lambda>port.
                 bind_res (get_item (map_of SERVER_MODULES) config_key) (\<lambda>app_path. Inr (server_cmdline python_bin app_path port)))) of
              Inl e \<Rightarrow> (st0, Inl e)
            | Inr cmdline \<Rightarrow>
                let st1 = st0 \<lparr> de_processes := de_processes st0 @ [proc \<lparr> os_cmdline := Some cmdline \<rparr>] \<rparr> in
                case wait_healthy deadline polls of
                  Inl e \<Rightarrow> (st1, Inl e)
                | Inr _ \<Rightarrow> (st1 \<lparr> de_pids := map_option (\<lambda>m. m(c \<mapsto> os_pid proc)) (de_pids st1) \<rparr>, Inr base_url))"

section \<open>Stopping\<close>

definition is_demo_process :: "string \<Rightarrow> nat \<Rightarrow> os_process \<Rightarrow> bool res" where
  "is_demo_process c port p =
     (let cmdline = (case os_cmdline p of None \<Rightarrow> [] | Some xs \<Rightarrow> xs); joined = join_blank cmdline in
      if \<not> has_substring joined ''uvicorn'' then Inr False
      else bind_res (get_item (map_of CONFIG_KEY) c) (\<lambda>config_key.
           bind_res (get_item (map_of SERVER_MODULES) config_key) (\<lambda>app_path.
           Inr (has_substring joined app_path \<and> nat_str port \<in> set cmdline))))"

fun stop_processes :: "string \<Rightarrow> nat \<Rightarrow> os_process list \<Rightarrow> os_process list res" where
  "stop_processes c port [] = Inr []"
| "stop_processes c port (p # ps) =
     bind_res (is_demo_process c port p) (\<lambda>demo.
     bind_res (stop_processes c port ps) (\<lambda>rest.
     Inr (if demo \<and> (os_ends p \<or> os_dies p) then rest else p # rest)))"

definition stop_server :: "string \<Rightarrow> demo_state \<Rightarrow> demo_state res" where
  "stop_server c st =
     bind_res (get_item (map_of DEMO_PORTS) c) (\<lambda>port.
     bind_res (stop_processes c port (de_processes st)) (\<lambda>ps.
     Inr (st \<lparr> de_processes := ps, de_pids := map_option (\<lambda>m. m(c := None)) (de_pids st) \<rparr>)))"

definition stop_all_servers :: "demo_state \<Rightarrow> demo_state res" where
  "stop_all_servers st = foldl (\<lambda>acc c. bind_res acc (stop_server c)) (Inr st) (map fst DEMO_PORTS)"

definition server_status :: "(string \<Rightarrow> nat res) \<Rightarrow> (string \<times> bool \<times> string res \<times> nat) list" where
  "server_status answers = map (\<lambda>(c, port). (c, is_healthy (answers c), get_base_url c, port)) DEMO_PORTS"

section \<open>What is stopped\<close>

lemma has_substring_append: "has_substring (a @ t @ b) t"
  unfolding has_substring_def list_ex_iff by (rule bexI [of _ "length a"]) auto

lemma join_blank_split: "x \<in> set xs \<Longrightarrow> \<exists>a b. join_blank xs = a @ x @ b"
proof (induction xs rule: join_blank.induct)
  case (2 y)
  then show ?case by (metis append_Nil append_Nil2 empty_iff empty_set join_blank.simps(2) set_ConsD)
next
  case (3 y z zs)
  show ?case
  proof (cases "x = y")
    case True
    then have "join_blank (y # z # zs) = [] @ x @ '' '' @ join_blank (z # zs)" by simp
    then show ?thesis by blast
  next
    case False
    then obtain a b where "join_blank (z # zs) = a @ x @ b" using 3 by auto
    then have "join_blank (y # z # zs) = (y @ '' '' @ a) @ x @ b" by simp
    then show ?thesis by blast
  qed
qed simp

lemma join_blank_has: "x \<in> set xs \<Longrightarrow> has_substring (join_blank xs) x"
  using join_blank_split [of x xs] has_substring_append by force

lemma nat_str_no_digits: "\<not> list_all is_digit s \<Longrightarrow> nat_str n \<noteq> s"
  using nat_str_digits [of _ n] by (auto simp: list_all_iff)

text \<open>The configurations of the page and what each of them starts.\<close>

lemma demo_names: "map fst DEMO_PORTS = [''control'', ''classical'', ''hybrid'', ''full_pqc'', ''classical_ecdhe'', ''hybrid_kex'', ''hybrid_kex_pq'']"
  by (simp add: DEMO_PORTS_def)

lemma demo_ports: "map snd DEMO_PORTS = [8100, 8101, 8102, 8103, 8104, 8105, 8106]"
  by (simp add: DEMO_PORTS_def)

lemma demo_configurations:
  assumes "(c, port) \<in> set DEMO_PORTS"
  shows "\<exists>key app_path. map_of DEMO_PORTS c = Some port \<and> map_of CONFIG_KEY c = Some key \<and> map_of SERVER_MODULES key = Some app_path"
proof -
  have "distinct (map fst DEMO_PORTS)" unfolding demo_names by code_simp
  then have port: "map_of DEMO_PORTS c = Some port" using assms by (rule map_of_is_SomeI)
  have "list_all (\<lambda>c. case map_of CONFIG_KEY c of None \<Rightarrow> False | Some key \<Rightarrow> map_of SERVER_MODULES key \<noteq> None) (map fst DEMO_PORTS)"
    unfolding demo_names by code_simp
  moreover have "c \<in> set (map fst DEMO_PORTS)" using assms by force
  ultimately have "case map_of CONFIG_KEY c of None \<Rightarrow> False | Some key \<Rightarrow> map_of SERVER_MODULES key \<noteq> None"
    unfolding list_all_iff by blast
  then show ?thesis using port by (cases "map_of CONFIG_KEY c") auto
qed


definition can_be_stopped :: "os_process \<Rightarrow> bool" where
  "can_be_stopped p \<longleftrightarrow> os_ends p \<or> os_dies p"

text \<open>
  What it is to run the server of a configuration of the page: its command line starts that
  configuration's application under uvicorn, on that configuration's port.
\<close>

definition runs_demo :: "string \<Rightarrow> os_process \<Rightarrow> bool" where
  "runs_demo c p \<longleftrightarrow>
     (case (map_of DEMO_PORTS c, Option.bind (map_of CONFIG_KEY c) (map_of SERVER_MODULES), os_cmdline p) of
        (Some port, Some app_path, Some cmdline) \<Rightarrow>
          nat_str port \<in> set cmdline \<and> list_all (has_substring (join_blank cmdline)) [''uvicorn'', app_path]
      | _ \<Rightarrow> False)"

lemma is_demo_process_total:
  assumes "(c, port) \<in> set DEMO_PORTS"
  shows "is_demo_process c port p = Inr (runs_demo c p)"
  using demo_configurations [OF assms]
  by (cases "os_cmdline p") (auto simp: is_demo_process_def runs_demo_def get_item_def bind_res_def Let_def has_substring_def)

lemma stop_processes_total:
  assumes "(c, port) \<in> set DEMO_PORTS"
  shows "stop_processes c port ps = Inr (filter (\<lambda>p. \<not> (runs_demo c p \<and> can_be_stopped p)) ps)"
  by (induction ps) (auto simp: is_demo_process_total [OF assms] can_be_stopped_def bind_res_def)

lemma stop_server_total:
  assumes "(c, port) \<in> set DEMO_PORTS"
  shows "stop_server c st = Inr (st \<lparr> de_processes := filter (\<lambda>p. \<not> (runs_demo c p \<and> can_be_stopped p)) (de_processes st),
    de_pids := map_option (\<lambda>m. m(c := None)) (de_pids st) \<rparr>)"
  using demo_configurations [OF assms] by (auto simp: stop_server_def stop_processes_total [OF assms] get_item_def bind_res_def)

lemma stop_all_total:
  "\<exists>s. stop_all_servers st = Inr s \<and>
     de_processes s = filter (\<lambda>p. \<not> (can_be_stopped p \<and> (\<exists>c \<in> fst ` set DEMO_PORTS. runs_demo c p))) (de_processes st)"
proof -
  have "\<exists>s. foldl (\<lambda>acc c. bind_res acc (stop_server c)) (Inr st) cs = Inr s \<and>
      de_processes s = filter (\<lambda>p. \<not> (can_be_stopped p \<and> (\<exists>c \<in> set cs. runs_demo c p))) (de_processes st)"
    if "set cs \<subseteq> fst ` set DEMO_PORTS" for cs
    using that
  proof (induction cs arbitrary: st)
    case Nil
    then show ?case by simp
  next
    case (Cons c cs)
    then obtain port where "(c, port) \<in> set DEMO_PORTS" by auto
    note stop_server_total [OF this, of st]
    with Cons show ?case by (fastforce simp: bind_res_def intro!: filter_cong)
  qed
  from this [of "map fst DEMO_PORTS"] show ?thesis by (simp add: stop_all_servers_def)
qed

text \<open>The process that is started runs its own server and no other.\<close>

lemma runs_demo_port:
  assumes "runs_demo c p"
  shows "\<exists>port cmdline. (c, port) \<in> set DEMO_PORTS \<and> os_cmdline p = Some cmdline \<and> nat_str port \<in> set cmdline"
  using assms by (auto simp: runs_demo_def dest: map_of_SomeD split: option.splits)

lemma cmdline_port:
  assumes "nat_str p \<in> set (server_cmdline python_bin app_path port)" "\<not> list_all is_digit app_path" "nat_str p \<noteq> python_bin"
  shows "p = port"
proof -
  have "list_all (\<lambda>s. \<not> list_all is_digit s) [''-m'', ''uvicorn'', ''--port'', ''--log-level'', ''warning'']" by code_simp
  then have "nat_str p \<notin> set [''-m'', ''uvicorn'', ''--port'', ''--log-level'', ''warning'']"
    using nat_str_no_digits unfolding list_all_iff by blast
  moreover have "nat_str p \<noteq> app_path" using assms(2) by (rule nat_str_no_digits)
  ultimately show ?thesis using assms(1,3) by (auto simp: server_cmdline_def intro: nat_str_inj)
qed

lemma started_runs_demo:
  assumes "(c, port) \<in> set DEMO_PORTS" "map_of CONFIG_KEY c = Some key" "map_of SERVER_MODULES key = Some app_path"
    and "python_bin \<notin> nat_str ` snd ` set DEMO_PORTS"
  shows "runs_demo d (proc \<lparr> os_cmdline := Some (server_cmdline python_bin app_path port) \<rparr>) \<longleftrightarrow> d = c"
proof
  let ?cmd = "server_cmdline python_bin app_path port"
  assume "runs_demo d (proc \<lparr> os_cmdline := Some ?cmd \<rparr>)"
  then obtain port' where p': "(d, port') \<in> set DEMO_PORTS" "nat_str port' \<in> set ?cmd"
    using runs_demo_port [of d] by fastforce
  have "list_all (\<lambda>(_, m). \<not> list_all is_digit m) SERVER_MODULES" by code_simp
  then have "\<not> list_all is_digit app_path"
    using map_of_SomeD [OF assms(3)] by (auto simp: list_all_iff)
  moreover have "nat_str port' \<noteq> python_bin" using assms(4) p'(1) by force
  ultimately have "port' = port" by (rule cmdline_port [OF p'(2)])
  moreover have "distinct (map snd DEMO_PORTS)" by (simp add: demo_ports)
  ultimately show "d = c"
    using p'(1) assms(1) inj_onD [of snd "set DEMO_PORTS" "(d, port)" "(c, port)"] by (simp add: distinct_map)
next
  let ?cmd = "server_cmdline python_bin app_path port"
  have has: "has_substring (join_blank ?cmd) ''uvicorn''" "has_substring (join_blank ?cmd) app_path" "nat_str port \<in> set ?cmd"
    by (intro join_blank_has, simp add: server_cmdline_def)+ (simp add: server_cmdline_def)
  assume "d = c"
  then show "runs_demo d (proc \<lparr> os_cmdline := Some (server_cmdline python_bin app_path port) \<rparr>)"
    using assms(2,3) demo_configurations [OF assms(1)] has
    by (auto simp: runs_demo_def)
qed

lemma ensure_server_processes:
  assumes "ensure_server python_bin answer deadline polls proc c st = (st', r)" "(c, port) \<in> set DEMO_PORTS"
  obtains "is_healthy answer" "st' = st" | key app_path where "\<not> is_healthy answer" "map_of CONFIG_KEY c = Some key"
    "map_of SERVER_MODULES key = Some app_path"
    "de_processes st' = de_processes st @ [proc \<lparr> os_cmdline := Some (server_cmdline python_bin app_path port) \<rparr>]"
  using assms(1) demo_configurations [OF assms(2)]
  by (auto simp: ensure_server_def get_base_url_def get_item_def bind_res_def Let_def split: if_splits sum.splits)

lemma stop_server_processes:
  assumes "d \<in> fst ` set DEMO_PORTS"
  shows "\<exists>s. stop_server d st = Inr s \<and> de_processes s = filter (\<lambda>p. \<not> (runs_demo d p \<and> can_be_stopped p)) (de_processes st)"
proof -
  obtain port where "(d, port) \<in> set DEMO_PORTS" using assms by auto
  from stop_server_total [OF this, of st] show ?thesis by simp
qed

text \<open>What \<^verbatim>\<open>ensure_server\<close> adds is stopped with its own configuration, and with no other.\<close>

lemma started_only_demo:
  assumes "ensure_server python_bin answer deadline polls proc c st = (st', r)" "(c, port) \<in> set DEMO_PORTS"
    and "python_bin \<notin> nat_str ` snd ` set DEMO_PORTS" "can_be_stopped proc"
  defines "started \<equiv> drop (length (de_processes st)) (de_processes st')"
  shows "is_healthy answer \<longrightarrow> st' = st" "de_processes st' = de_processes st @ started"
    "filter (\<lambda>p. \<not> (runs_demo d p \<and> can_be_stopped p)) started = (if d = c then [] else started)"
    "filter (\<lambda>p. \<not> (can_be_stopped p \<and> (\<exists>d \<in> fst ` set DEMO_PORTS. runs_demo d p))) started = []"
proof -
  have c: "\<exists>q \<in> set DEMO_PORTS. fst q = c" using assms(2) by force
  have "(is_healthy answer \<longrightarrow> st' = st) \<and> de_processes st' = de_processes st @ started \<and>
    filter (\<lambda>p. \<not> (runs_demo d p \<and> can_be_stopped p)) started = (if d = c then [] else started) \<and>
    filter (\<lambda>p. \<not> (can_be_stopped p \<and> (\<exists>d \<in> fst ` set DEMO_PORTS. runs_demo d p))) started = []"
    using assms(1,2)
  proof (cases rule: ensure_server_processes)
    case 1
    then show ?thesis by (simp add: started_def)
  next
    case (2 key app_path)
    let ?p = "proc \<lparr> os_cmdline := Some (server_cmdline python_bin app_path port) \<rparr>"
    have own: "runs_demo d ?p \<longleftrightarrow> d = c" for d
      using started_runs_demo [OF assms(2) 2(2,3) assms(3)] .
    have stop: "can_be_stopped ?p" using assms(4) by (simp add: can_be_stopped_def)
    have "started = [?p]" by (simp add: started_def 2(4))
    then show ?thesis using c by (simp add: 2(1,4) own stop)
  qed
  then show "is_healthy answer \<longrightarrow> st' = st" "de_processes st' = de_processes st @ started"
    "filter (\<lambda>p. \<not> (runs_demo d p \<and> can_be_stopped p)) started = (if d = c then [] else started)"
    "filter (\<lambda>p. \<not> (can_be_stopped p \<and> (\<exists>d \<in> fst ` set DEMO_PORTS. runs_demo d p))) started = []" by blast+
qed

text \<open>C40
  Starting and stopping the demo servers is exact: a healthy server is not started again; a started
  process, also one that never became healthy, is removed by stopping its configuration and by
  stopping all, is kept by stopping any other configuration, and every process that runs no demo
  server survives.
\<close>

theorem demo_servers_stopped:
  assumes "ensure_server python_bin answer deadline polls proc c st = (st', r)" "(c, port) \<in> set DEMO_PORTS"
    and "python_bin \<notin> nat_str ` snd ` set DEMO_PORTS" "can_be_stopped proc"
  shows "(is_healthy answer \<longrightarrow> st' = st) \<and>
    (\<exists>s. stop_server c st' = Inr s \<and> de_processes s = filter (\<lambda>p. \<not> (runs_demo c p \<and> can_be_stopped p)) (de_processes st)) \<and>
    (\<forall>d \<in> fst ` set DEMO_PORTS. d \<noteq> c \<longrightarrow> (\<exists>s. stop_server d st' = Inr s \<and>
       de_processes s = filter (\<lambda>p. \<not> (runs_demo d p \<and> can_be_stopped p)) (de_processes st) @ drop (length (de_processes st)) (de_processes st'))) \<and>
    (\<exists>s. stop_all_servers st' = Inr s \<and>
       de_processes s = filter (\<lambda>p. \<not> (can_be_stopped p \<and> (\<exists>d \<in> fst ` set DEMO_PORTS. runs_demo d p))) (de_processes st))"
proof -
  define started where "started = drop (length (de_processes st)) (de_processes st')"
  note st = started_only_demo [OF assms, folded started_def]
  have each: "\<exists>s. stop_server d st' = Inr s \<and>
      de_processes s = filter (\<lambda>p. \<not> (runs_demo d p \<and> can_be_stopped p)) (de_processes st) @ (if d = c then [] else started)"
    if "d \<in> fst ` set DEMO_PORTS" for d
    using stop_server_processes [OF that, of st'] unfolding st(2) filter_append st(3) .
  have "c \<in> fst ` set DEMO_PORTS" using assms(2) by force
  note own = each [OF this, simplified if_True refl append_Nil2 simp_thms]
  have "\<exists>s. stop_all_servers st' = Inr s \<and>
      de_processes s = filter (\<lambda>p. \<not> (can_be_stopped p \<and> (\<exists>d \<in> fst ` set DEMO_PORTS. runs_demo d p))) (de_processes st)"
    using stop_all_total [of st'] unfolding st(2) filter_append st(4) append_Nil2 .
  moreover have "\<forall>d \<in> fst ` set DEMO_PORTS. d \<noteq> c \<longrightarrow> (\<exists>s. stop_server d st' = Inr s \<and>
      de_processes s = filter (\<lambda>p. \<not> (runs_demo d p \<and> can_be_stopped p)) (de_processes st) @ started)"
  proof (intro ballI impI)
    fix d
    assume d: "d \<in> fst ` set DEMO_PORTS" "d \<noteq> c"
    show "\<exists>s. stop_server d st' = Inr s \<and>
        de_processes s = filter (\<lambda>p. \<not> (runs_demo d p \<and> can_be_stopped p)) (de_processes st) @ started"
      using each [OF d(1)] unfolding if_not_P [OF d(2)] .
  qed
  ultimately show ?thesis using st(1) own unfolding started_def by (intro conjI)
qed

definition wit_bench_server :: os_process where
  "wit_bench_server = \<lparr> os_pid = 7, os_cmdline = Some (server_cmdline ''/usr/bin/python'' ''api.server_config_b:app'' 8000),
     os_ends = True, os_dies = True \<rparr>"

definition wit_demo_process :: os_process where
  "wit_demo_process = \<lparr> os_pid = 9, os_cmdline = None, os_ends = False, os_dies = True \<rparr>"

lemma demo_servers_stopped_witness:
  "\<exists>st' s. ensure_server ''/usr/bin/python'' (Inr 503) 25 [] wit_demo_process ''hybrid''
      \<lparr> de_processes = [wit_bench_server], de_pids = None \<rparr> = (st', Inl RuntimeError) \<and>
    length (de_processes st') = 2 \<and> stop_all_servers st' = Inr s \<and> de_processes s = [wit_bench_server]"
proof -
  let ?st = "\<lparr> de_processes = [wit_bench_server], de_pids = None \<rparr>"
  have started: "snd (ensure_server ''/usr/bin/python'' (Inr 503) 25 [] wit_demo_process ''hybrid'' ?st) = Inl RuntimeError"
      "length (de_processes (fst (ensure_server ''/usr/bin/python'' (Inr 503) 25 [] wit_demo_process ''hybrid'' ?st))) = 2"
    by (simp_all add: ensure_server_def get_base_url_def get_item_def bind_res_def DEMO_PORTS_def CONFIG_KEY_def SERVER_MODULES_def is_healthy_def Let_def)
  obtain st' r where st': "ensure_server ''/usr/bin/python'' (Inr 503) 25 [] wit_demo_process ''hybrid'' ?st = (st', r)" "r = Inl RuntimeError"
      "length (de_processes st') = 2"
    using started by (metis prod.collapse)
  have no_number: "nat_str n \<noteq> ''/usr/bin/python''" for n
    by (rule nat_str_no_digits) (simp add: is_digit_def)
  have keep: "\<not> runs_demo d wit_bench_server" for d
  proof
    assume "runs_demo d wit_bench_server"
    then obtain port where "(d, port) \<in> set DEMO_PORTS" "nat_str port \<in> set (server_cmdline ''/usr/bin/python'' ''api.server_config_b:app'' 8000)"
      using runs_demo_port [of d wit_bench_server] by (auto simp: wit_bench_server_def)
    moreover have "nat_str port \<noteq> ''/usr/bin/python''" "\<not> list_all is_digit ''api.server_config_b:app''"
      using no_number by (auto simp: is_digit_def)
    ultimately have "port = 8000" by (intro cmdline_port)
    moreover have "port \<in> set (map snd DEMO_PORTS)" using \<open>(d, port) \<in> _\<close> by force
    ultimately show False by (simp add: demo_ports)
  qed
  have "''/usr/bin/python'' \<notin> nat_str ` snd ` set DEMO_PORTS" using no_number by (metis imageE)
  moreover have "(''hybrid'', 8102) \<in> set DEMO_PORTS" "can_be_stopped wit_demo_process"
    by (simp_all add: DEMO_PORTS_def can_be_stopped_def wit_demo_process_def)
  ultimately have "\<exists>s. stop_all_servers st' = Inr s \<and> de_processes s =
      filter (\<lambda>p. \<not> (can_be_stopped p \<and> (\<exists>d \<in> fst ` set DEMO_PORTS. runs_demo d p))) [wit_bench_server]"
    using demo_servers_stopped [OF st'(1), of 8102] by (simp only: demo_state.select_convs simp_thms)
  then show ?thesis using st' keep by auto
qed

end
