(* ===== verification/Spec2Isabelle.thy ===== *)
theory Spec2Isabelle
  imports ThreatProperties WireProperties BenchProperties HarvestProperties TamperDetection CostProperties ConformanceProperties DemoProperties PaperRunProperties BenchmarkProperties DashboardProperties StatisticsProperties ModelServing ContentionCheck LegacyChannels PaperTables DemoServers
begin

text \<open>
  A verification development for PQ-Shield, a benchmark of post-quantum protection for AI
  inference APIs. A client opens a handshake, sends a prompt under AES-256-GCM and receives either
  one signed response or a stream of signed chunks; six configurations combine RSA-OAEP, X25519 and
  ML-KEM-768 key establishment with ECDSA P-256 or ML-DSA-65 signatures. Around this core the
  repository has attack experiments, load generators, validation programs, the analysis of what
  they record, and a dashboard. Paths below are relative to \<^verbatim>\<open>src/\<close>.

  \<^bold>\<open>Conventions.\<close> A class is a record of its instance variables, a method a function from the old
  state to the new one with its result; an exception is a value of \<open>exn\<close> in \<open>'a res\<close>
  (\<open>Prelude\<close>), so that every raise and early return is a branch. Where Python leaves state behind
  when it raises (the application, the clients, the sweeps) the function returns that state beside
  the result. A Python string is its UTF-8 bytes, an unbounded integer \<open>int\<close> or \<open>nat\<close>, a wire byte an
  \<open>8 word\<close>; the four-byte index of a chunk and the conditions under which \<^verbatim>\<open>int.to_bytes\<close> raises are
  explicit. A floating-point number is a rational: rounding is not modelled, and \<^verbatim>\<open>int(n * 0.95)\<close> is
  \<open>n * 95 div 100\<close>. Clock readings, random draws and the answers of the operating system are arguments,
  so every definition is a function; concurrency is an explicit choice of the next step.

  \<^bold>\<open>Parameters and hypotheses.\<close> Code outside the repository is the record \<open>prims\<close> of
  \<open>Primitives\<close> (SHA-256, HKDF, AES-GCM, RSA-OAEP, ECDSA, X25519, the exported C functions of
  liboqs, the JSON codec) and, in the theories that need them, the model server's \<^verbatim>\<open>predict\<close>, a
  text backend, the network, NumPy's generator and SciPy's tests. What the code relies on is stated
  where it is used: \<open>prims_ok\<close> and its parts (decryption inverts encryption, the two ends of a key
  exchange agree, a fresh signature verifies, lengths are those of the standards), \<open>unforged\<close> (a
  delivered signature verifies only on what the server signed), \<open>chain_free\<close> and
  \<open>contexts_distinct\<close> (no SHA-256 collision among the values at hand), \<open>gcm_rejects_flips\<close> and
  \<open>scheme_rejects_flips\<close> (a ciphertext does not open, a signature does not verify, with its middle byte
  flipped), \<open>np_ok\<close> (a draw lies below its
  bound), \<open>key32_ok\<close> (AES-GCM takes 32-byte keys). They are premises of the theorems that need
  them and are satisfied by the concrete
  \<open>toy_prims\<close> and its variants, on which the witnesses run.

  \<^bold>\<open>The protocol.\<close>
  \<^item> \<open>Prelude\<close>, \<open>Base64\<close>, \<open>PyValues\<close>, \<open>JsonAccess\<close>: results, base64 with Python's lenient decoding,
    conversions of JSON values, subscripts of parsed documents.
  \<^item> \<open>Instrumentation\<close>, \<open>Aead\<close>, \<open>OqsAdapter\<close>: \<^verbatim>\<open>crypto/instrumentation.py\<close>, \<^verbatim>\<open>crypto/aead.py\<close> and
    \<^verbatim>\<open>crypto/oqs_adapter.py\<close>, with the C buffers, so that the lengths of all outputs are theorems.
  \<^item> \<open>CryptoBase\<close>, \<open>ClassicalConfig\<close>, \<open>EcdheConfig\<close>, \<open>HybridConfig\<close>, \<open>HybridKexConfig\<close>,
    \<open>FullPqcConfig\<close>, \<open>Registry\<close>: the six configurations of \<^verbatim>\<open>crypto/\<close> and the dispatch. The locale
    \<open>session_table\<close> says what opening and forgetting a handshake does to the table of live ones,
    \<open>crypto_config\<close> adds key agreement and signatures; each configuration interprets \<open>crypto_config\<close>,
    the dispatching registry \<open>session_table\<close>.
  \<^item> \<open>HandshakeAuth\<close>, \<open>HandshakeLifetime\<close>: transcript and identity key of \<^verbatim>\<open>crypto/handshake_auth.py\<close>; what
    survives any interleaving of the operations on other handshakes, as a step relation.
  \<^item> \<open>Schemas\<close>, \<open>SecureApp\<close>, \<open>StreamApp\<close>, \<open>AppSteps\<close>, \<open>SessionSecurity\<close>: \<^verbatim>\<open>api/secure_app.py\<close>, every route
    as a state transformer, and the application under concurrent requests as a step relation.
  \<^item> \<open>SecureClient\<close>, \<open>PredictTransaction\<close>: \<^verbatim>\<open>api/secure_client.py\<close>, and the client composed with the
    application for a first request, a resumed one and a whole session.
  \<^item> \<open>StreamMessages\<close>, \<open>StreamServer\<close>, \<open>StreamClient\<close>: \<^verbatim>\<open>crypto/streaming.py\<close>, the signed messages, the
    three signing strategies, the client's verification. \<open>StreamingClient\<close>:
    \<^verbatim>\<open>api/secure_streaming_client.py\<close>.
  \<^item> \<open>StreamHonest\<close>, \<open>StreamTransaction\<close>: the honest run. The locale \<open>stream_contract\<close> is what the
    token-level generator needs of a strategy; the three strategies interpret it.
  \<^item> \<open>StreamSecurity\<close>, \<open>StreamReplay\<close>: what an accepted stream implies, by the abstract record
    (\<open>session_log\<close>) of what the server signed.

  \<^item> \<open>LegacyChannels\<close>: the first version of the channels, \<^verbatim>\<open>crypto/config_a_classical.py\<close> and its
    siblings. The locale \<open>protected_channel\<close> gives the round trip of a request and its response; the
    three channels interpret it.

  \<^bold>\<open>The experiments.\<close>
  \<^item> \<open>StreamMitm\<close>, \<open>AttackCampaign\<close>, \<open>CampaignDetection\<close>, \<open>KeySubstitution\<close>, \<open>TamperProxy\<close>,
    \<open>TamperDetection\<close>: the active attackers of \<^verbatim>\<open>threats/\<close> and what their experiments must report.
  \<^item> \<open>StreamHarvest\<close>, \<open>HarvestBounds\<close>: the passive one; \<open>harvest_contract\<close> extends \<open>stream_contract\<close> by
    what the envelopes of the rows hold and is interpreted for each strategy.
  \<^item> \<open>Runner\<close>, \<open>Netem\<close>, \<open>Orchestrator\<close>, \<open>StreamingRunner\<close>, \<open>PaperRuns\<close>: \<^verbatim>\<open>bench/\<close>. The load generator is a
    concurrent program over a counter, a semaphore and a result list; sweeps and the paper driver are
    traces of what they ask of the world. The locales \<open>run_relation\<close> and \<open>step_relation\<close> of
    \<open>PaperRunProperties\<close> carry a relation on states through the driver's combinators and its 21 steps and
    are interpreted twice, for running processes and for the bookkeeping of steps.
  \<^item> \<open>ModelServing\<close>: the caches and the synthetic generators of \<^verbatim>\<open>model/\<close> behind the endpoints.

  \<^bold>\<open>Validation and analysis.\<close>
  \<^item> \<open>ReferenceData\<close>, \<open>SpecConformance\<close>, \<open>KatVectors\<close>, \<open>NistKat\<close>, \<open>PrimitiveBench\<close>, \<open>ContentionCheck\<close>:
    \<^verbatim>\<open>validation/\<close>.
  \<^item> \<open>SignatureCost\<close>, \<open>SignatureCostProofs\<close>: the analytical cost model of
    \<^verbatim>\<open>analysis/streaming_model_validation.py\<close>; \<open>cost_contract\<close> extends \<open>harvest_contract\<close> by the
    model's count and is interpreted for each strategy.
  \<^item> \<open>Aggregate\<close>, \<open>Tradeoff\<close>, \<open>SecurityValidation\<close>, \<open>StreamingAnalysis\<close>, \<open>PaperStatistics\<close>, \<open>PaperTables\<close>: the frames and
    statistics of \<^verbatim>\<open>analysis/\<close>.
  \<^item> \<open>LiveDemo\<close>, \<open>LiveStream\<close>, \<open>LiveAgreement\<close>, \<open>DashboardRuns\<close>, \<open>DemoServers\<close>: the transactions, loaders and servers of
    \<^verbatim>\<open>webapp/\<close>. The locale \<open>live_contract\<close> relates the page's verifier to the harness of the attack
    experiments and is interpreted for the two strategies that send chunks.
  \<^item> \<open>ToySessions\<close>, \<open>ToyCampaign\<close>: the concrete instances the witnesses use.

  \<^bold>\<open>What is proved.\<close> The properties are in this theory (streaming end to end, genuineness of an
  accepted stream, sessions) and in the theories named \<open>...Properties\<close>, in \<open>TamperDetection\<close>,
  \<open>ModelServing\<close>, \<open>ContentionCheck\<close>, \<open>LegacyChannels\<close>, \<open>PaperTables\<close> and \<open>DemoServers\<close>: honest runs succeed with
  exact results (this theory, \<open>HarvestProperties\<close>, \<open>CostProperties\<close>); an attacker who forges nothing
  cannot have a changed stream, response or handshake accepted, and the experiments say so
  (\<open>ThreatProperties\<close>, \<open>TamperDetection\<close>, \<open>DemoProperties\<close>); signed messages and encodings are uniquely
  readable (\<open>WireProperties\<close>); sweeps finish, lose no row and stop what they started
  (\<open>BenchProperties\<close>, \<open>PaperRunProperties\<close>); the validation reports mean what they say
  (\<open>ConformanceProperties\<close>, \<open>BenchmarkProperties\<close>); the statistics and selections are sound
  (\<open>BenchProperties\<close>, \<open>StatisticsProperties\<close>, \<open>DashboardProperties\<close>).

  \<^bold>\<open>Bounds.\<close> There is no fuel: loops are structural recursions over the events they consume, or
  recursive functions with a proved measure (\<open>gen_words\<close>, whose words are never empty). A chunk
  index has four bytes, so theorems about streams assume fewer than \<open>2 ^ 32\<close> chunks. The worker
  relation of \<open>Runner\<close> is shown to end within a bound that its property states.

  \<^bold>\<open>Not modelled.\<close> Library loading through ctypes, sockets and event loops, signals, environment
  handling and command lines, printing and file formats; figures, LaTeX tables and page layout
  (\<^verbatim>\<open>analysis/figures.py\<close>, \<^verbatim>\<open>analysis/plot_metrics.py\<close>, most of \<^verbatim>\<open>analysis/paper_figures.py\<close>, \<^verbatim>\<open>views/\<close>,
  \<^verbatim>\<open>webapp/ui.py\<close>); the prompts sent to a language model (\<^verbatim>\<open>webapp/ai_summary.py\<close>); profiles and backends
  that run NumPy, scikit-learn or a language model; the entry points and command-line clients of \<^verbatim>\<open>api/\<close>;
  and the tests. Timing is data here: nothing is claimed about how long an operation takes.
\<close>

section \<open>The streaming protocol\<close>

text \<open>Signatures in a stream of \<open>n\<close> chunks, the terminal one included.\<close>

definition expected_signatures :: "string \<Rightarrow> int option \<Rightarrow> nat \<Rightarrow> nat" where
  "expected_signatures strategy interval n =
     (if strategy = ''buffer_and_sign'' then 1
      else if strategy = ''per_chunk'' then n + 1
      else ckp_count interval 0 n + 1)"

text \<open>C1
  An honest streaming transaction, end to end: from an application built for any registered
  configuration, a handshake it issued and whatever other sessions did before and after, the
  client's transaction over a network that delivers every line ends without error, verified, with
  exactly the backend's text and the number of signatures the strategy prescribes.
\<close>

theorem streaming_transaction_verified:
  assumes "prims_ok P" "session_open P predict backend config resp app" "strategy \<in> set STRATEGY_NAMES"
    and "json_loads P (json_dumps P (stream_request_body prompt strategy c mx k)) = Some (stream_request_body prompt strategy c mx k)"
    and "length (backend (JStr prompt) (max 1 mx)) + 1 < 2 ^ 32"
    and "nt_handshake net = Inr (handshake_json resp, hms)" "nt_stream net = stream_over P backend rs sps sp' clk app"
  shows "\<exists>m. run_streaming_transaction P r sp net t0 t1 config prompt strategy c mx k =
      Inr (m, encode (concat (backend (JStr prompt) (max 1 mx)))) \<and>
    sm_error m = None \<and> sm_stream_fully_verified m = Some True \<and>
    sm_reconstructed_bytes m = length (concat (backend (JStr prompt) (max 1 mx))) \<and>
    sm_n_signatures m = expected_signatures strategy k
      ((length (backend (JStr prompt) (max 1 mx)) + nat (max 1 c) - 1) div nat (max 1 c))"
proof -
  obtain b where b: "srv_holds P (ap_crypto app) b" "issued_for (handshake_json resp) b"
      "get_client_crypto config = Inr (server_client (ap_crypto app))"
    using session_openE [OF assms(1,2)] .
  let ?ts = "backend (JStr prompt) (max 1 mx)"
  have end_state: "\<exists>st sz. run_streaming_transaction P r sp net t0 t1 config prompt strategy c mx k =
        Inr (wrap_up t0 t1 st, encode (concat ?ts)) \<and> sm_error (sc_metrics st) = None \<and>
      delivered st (encode (concat ?ts)) (expected_signatures strategy k (length (chunk_groups c ?ts))) sz"
  proof (cases "strategy = ''buffer_and_sign''")
    case True
    show ?thesis
      by (rule buf_stream.transaction [OF assms(1) b(1,2,3) _ assms(5-7), of c k r sp t0 t1])
         (use assms(4) True in \<open>auto simp: expected_signatures_def\<close>)
  next
    case not_buf: False
    show ?thesis
    proof (cases "strategy = ''per_chunk''")
      case True
      show ?thesis
        by (rule pc_stream.transaction [OF assms(1) b(1,2,3) _ assms(5-7), of c k r sp t0 t1])
           (use assms(4) True in \<open>auto simp: expected_signatures_def\<close>)
    next
      case False
      then have s: "strategy = ''hash_chain''"
        using not_buf assms(3) by (simp add: STRATEGY_NAMES_def)
      show ?thesis
        by (rule hc_stream.transaction [OF assms(1) b(1,2,3) _ assms(5-7), of c k r sp t0 t1])
           (use assms(4) s in \<open>auto simp: expected_signatures_def\<close>)
    qed
  qed
  then obtain st sz where st: "run_streaming_transaction P r sp net t0 t1 config prompt strategy c mx k =
        Inr (wrap_up t0 t1 st, encode (concat ?ts))" "sm_error (sc_metrics st) = None"
      "delivered st (encode (concat ?ts)) (expected_signatures strategy k (length (chunk_groups c ?ts))) sz"
    by blast
  show ?thesis
    using st(1,2) delivered_wrap_up [OF st(3)] by (simp add: chunk_groups_length)
qed

text \<open>Three tokens, two to a chunk: two signed chunks and the signed end.\<close>

lemma streaming_transaction_verified_witness:
  "\<exists>resp app net m.
     session_open (codec_prims (stream_request_body ''hi'' ''per_chunk'' 2 8 None)) (\<lambda>_. Inl ValueError)
       (\<lambda>_ _. [''he'', ''llo '', ''world'']) ''full_pqc'' resp app \<and>
     run_streaming_transaction (codec_prims (stream_request_body ''hi'' ''per_chunk'' 2 8 None)) (\<lambda>_ _. 0) wit_span net 0 1
       ''full_pqc'' ''hi'' ''per_chunk'' 2 8 None = Inr (m, encode ''hello world'') \<and>
     sm_stream_fully_verified m = Some True \<and> sm_n_signatures m = 3"
proof -
  let ?body = "stream_request_body ''hi'' ''per_chunk'' 2 8 None"
  let ?backend = "\<lambda>(_ :: json) (_ :: int). [''he'', ''llo '', ''world'']"
  obtain resp app where so: "session_open (codec_prims ?body) (\<lambda>_. Inl ValueError) ?backend ''full_pqc'' resp app"
    by (rule session_open_exists [OF codec_prims_ok, of "''full_pqc''"]) (simp add: CONFIG_NAMES_def CONFIGS_def)
  define net where "net = \<lparr> nt_handshake = Inr (handshake_json resp, 0),
      nt_stream = stream_over (codec_prims ?body) ?backend (\<lambda>_ _ _. 0) (\<lambda>_. wit_span) wit_span (\<lambda>_. (0, wit_span, 0)) app \<rparr>"
  show ?thesis
    using streaming_transaction_verified [OF codec_prims_ok so, of "''per_chunk''" "''hi''" 2 8 None net 0
        "\<lambda>_ _ _. 0" "\<lambda>_. wit_span" wit_span "\<lambda>_. (0, wit_span, 0)" "\<lambda>_ _. 0" wit_span 0 1] so
    by (fastforce simp: codec_prims_json net_def STRATEGY_NAMES_def expected_signatures_def)
qed

text \<open>C2
  What the client of a \<^verbatim>\<open>per_chunk\<close> stream accepts is the genuine stream: whatever rows an
  attacker delivers, made of signatures that verify only on messages the server signed in any of
  its sessions, acceptance means that the delivered indices and envelopes are, in order and in
  full, those the server emitted in this session.
\<close>

theorem per_chunk_stream_genuine:
  assumes "contexts_distinct P logs" "PcLog (cp_handshake_id cap) es \<in> set logs" "sha_ok P"
    and "unforged P (cp_client cap) (cp_sig_public_key cap) (signed_in P logs) (delivered_sigs mutated final)"
    and "replay_through_client P sps cap mutated final ''per_chunk'' k enf = Inr (None, covered)"
  shows "map row_env mutated = map Some (indexed es)"
  using assms by (rule per_chunk_accept_genuine)

lemma per_chunk_stream_genuine_witness:
  "map row_env [wit_row [] (Some (b64e (1 # wit_pc_message)))] = map Some (indexed [wit_env])"
proof (rule per_chunk_stream_genuine [where P = toy_prims and cap = wit_capture and logs = "[PcLog ''h'' [wit_env]]" and
      final = "Some wit_pc_final" and covered = 1 and k = None and enf = False and sps = "\<lambda>_. wit_span"])
  show "contexts_distinct toy_prims [PcLog ''h'' [wit_env]]"
    by (simp add: contexts_distinct_def)
  show "sha_ok toy_prims"
    using toy_prims_ok by (simp add: prims_ok_def)
  show "unforged toy_prims (cp_client wit_capture) (cp_sig_public_key wit_capture)
      (signed_in toy_prims [PcLog ''h'' [wit_env]])
      (delivered_sigs [wit_row [] (Some (b64e (1 # wit_pc_message)))] (Some wit_pc_final))"
    using wit_pc_signed
    by (simp add: wit_capture_def, intro toy_unforged)
       (auto simp: delivered_sigs_def chunk_sigs_def final_sigs_def wit_row_def wit_pc_final_def)
qed (simp_all add: wit_capture_def wit_pc_replay [unfolded wit_capture_def])

text \<open>C3
  A \<^verbatim>\<open>hash_chain\<close> stream: the covered prefix is always genuine, an accepted stream is the genuine
  one in full, and with the checkpoint schedule enforced a rejection at position \<open>pos\<close> leaves
  fewer than one interval of delivered chunks uncovered.
\<close>

theorem hash_chain_stream_genuine:
  assumes "contexts_distinct P logs" "HcLog (cp_handshake_id cap) es \<in> set logs" "sha_ok P" "length es < 2 ^ 32"
    and "unforged P (cp_client cap) (cp_sig_public_key cap) (signed_in P logs) (delivered_sigs mutated final)"
    and "map row_env mutated = map Some ys" "chain_free P (cp_handshake_id cap) ys es"
    and "replay_through_client P sps cap mutated final ''hash_chain'' k enf = Inr (rej, covered)"
  shows "take covered ys = take covered (indexed es) \<and> covered \<le> length es \<and>
    (rej = None \<longrightarrow> ys = indexed es) \<and>
    (\<forall>pos d. rej = Some pos \<longrightarrow> enf \<longrightarrow> k = Some d \<longrightarrow> 0 < d \<longrightarrow> pos - covered < nat d)"
  using hash_chain_replay_sound [OF assms] by blast

text \<open>
  In \<^verbatim>\<open>api/secure_streaming_client.py\<close> the terminal record of a hash chain decides alone: earlier
  failures of a signature, a checkpoint or AES-GCM stay in their own entries and leave the verdict.
\<close>

lemma chain_verdict_ignores_checks:
  assumes "hf_stream_fully_verified result"
  shows "sm_stream_fully_verified (wrap_up t0 t1 (after_final_chain ev data result st)) = Some True \<and>
    sm_all_signatures_valid (wrap_up t0 t1 (after_final_chain ev data result st)) = sm_all_signatures_valid (sc_metrics st) \<and>
    sm_all_aead_ok (wrap_up t0 t1 (after_final_chain ev data result st)) = sm_all_aead_ok (sc_metrics st)"
  using assms by (simp add: wrap_up_def after_final_chain_def add_costs_def cover_pending_def Let_def split: list.split)

lemma hash_chain_stream_genuine_witness:
  "take 1 [(0, 5 # 7 # replicate 16 0)] = take 1 (indexed [wit_env]) \<and> [(0, 5 # 7 # replicate 16 0)] = indexed [wit_env]"
proof -
  have "unforged len_prims (cp_client wit_capture) (cp_sig_public_key wit_capture)
      (signed_in len_prims [HcLog ''h'' [wit_env]])
      (delivered_sigs [wit_row wit_link (Some (b64e (1 # wit_ckp_message)))] (Some wit_hc_final))"
    using wit_hc_signed
    by (simp add: wit_capture_def, intro toy_unforged)
       (auto simp: delivered_sigs_def chunk_sigs_def final_sigs_def wit_row_def wit_hc_final_def)
  moreover have "contexts_distinct len_prims [HcLog ''h'' [wit_env]]"
    by (simp add: contexts_distinct_def)
  moreover have "map row_env [wit_row wit_link (Some (b64e (1 # wit_ckp_message)))] = map Some [(0, 5 # 7 # replicate 16 0)]"
    by (simp add: row_env_def wit_row_def)
  ultimately show ?thesis
    using hash_chain_stream_genuine [of len_prims "[HcLog ''h'' [wit_env]]" wit_capture "[wit_env]"
        "[wit_row wit_link (Some (b64e (1 # wit_ckp_message)))]" "Some wit_hc_final" "[(0, 5 # 7 # replicate 16 0)]"
        "\<lambda>_. wit_span" "Some 1" True None 1]
    by (simp only: wit_capture_id wit_hc_replay wit_chain_free len_sha_ok) (simp add: indexed_def)
qed

text \<open>C4
  A stream that ends without its terminal record is never reported as verified: as long as no
  delivered line is a terminal record, the client's metrics say not verified, whatever else was
  delivered.
\<close>

theorem truncated_stream_not_verified:
  assumes "run_streaming_transaction P r sp net t0 t1 config prompt strategy c mx k = Inr (m, text')"
    and "\<And>req status evs. nt_stream net req = Inr (status, evs) \<Longrightarrow> \<forall>ev \<in> set evs. \<not> terminal_line (ev_line ev)"
  shows "sm_stream_fully_verified m \<noteq> Some True"
  by (rule run_streaming_no_terminal [OF assms(1)]) (rule assms(2))

text \<open>The connection closes after the response headers and a blank line.\<close>

lemma truncated_stream_not_verified_witness:
  "\<exists>resp app m text'. session_open toy_prims (\<lambda>_. Inl ValueError) (\<lambda>_ _. []) ''hybrid'' resp app \<and>
    run_streaming_transaction toy_prims (\<lambda>_ _. 0) wit_span
      \<lparr> nt_handshake = Inr (handshake_json resp, 0),
        nt_stream = (\<lambda>_. Inr (200, [\<lparr> ev_line = NonData, ev_arrival = 0, ev_span = wit_span, ev_now = 0 \<rparr>])) \<rparr>
      0 1 ''hybrid'' ''p'' ''per_chunk'' 1 1 None = Inr (m, text') \<and>
    sm_stream_fully_verified m \<noteq> Some True"
proof -
  obtain resp app where so: "session_open toy_prims (\<lambda>_. Inl ValueError) (\<lambda>_ _. []) ''hybrid'' resp app"
    by (rule session_open_exists [OF toy_prims_ok, of "''hybrid''"]) (simp add: CONFIG_NAMES_def CONFIGS_def)
  let ?net = "\<lparr> nt_handshake = Inr (handshake_json resp, 0),
        nt_stream = (\<lambda>_. Inr (200, [\<lparr> ev_line = NonData, ev_arrival = 0, ev_span = wit_span, ev_now = 0 \<rparr>])) \<rparr>"
  obtain m text' where m: "run_streaming_transaction toy_prims (\<lambda>_ _. 0) wit_span ?net 0 1 ''hybrid'' ''p'' ''per_chunk'' 1 1 None = Inr (m, text')"
    by (cases "run_streaming_transaction toy_prims (\<lambda>_ _. 0) wit_span ?net 0 1 ''hybrid'' ''p'' ''per_chunk'' 1 1 None")
       (auto simp: run_streaming_transaction_def get_client_crypto_def CONFIGS_def Let_def)
  have "sm_stream_fully_verified m \<noteq> Some True"
    by (rule truncated_stream_not_verified [OF m]) auto
  with so m show ?thesis by blast
qed

section \<open>Handshakes and sessions\<close>

text \<open>C5
  Key agreement in the deployed setting: for every registered configuration, after the handshake
  and any interleaving of other sessions' requests, the client's \<^verbatim>\<open>establish\<close> on the received
  key and the server's \<^verbatim>\<open>accept\<close> of the resulting blob give the same session key, usable for
  AES-GCM.
\<close>

theorem session_keys_agree:
  assumes "prims_ok P" "session_open P predict backend config resp app"
  shows "\<exists>cl pk e m. get_client_crypto config = Inr cl \<and> b64d (hr_kex_public_key resp) = Inr pk \<and>
    cl_establish P r sp cl pk = Inr e \<and>
    srv_accept P sp' (ap_crypto app) (hr_handshake_id resp) (er_kex_blob e) = Inr (er_session_key e, m) \<and>
    gcm_key_ok P (er_session_key e)"
proof -
  obtain b where b: "srv_holds P (ap_crypto app) b" "issued_for (handshake_json resp) b"
      "get_client_crypto config = Inr (server_client (ap_crypto app))"
    using session_openE [OF assms] .
  then show ?thesis
    using srv_agree [OF assms(1) b(1), of r sp sp'] by (simp add: issued_for_def) blast
qed

lemma session_keys_agree_witness:
  "\<exists>resp app. session_open toy_prims (\<lambda>_. Inl ValueError) (\<lambda>_ _. []) ''hybrid_kex_pq'' resp app \<and>
    (\<exists>cl pk e m. get_client_crypto ''hybrid_kex_pq'' = Inr cl \<and> b64d (hr_kex_public_key resp) = Inr pk \<and>
      cl_establish toy_prims (\<lambda>_ _. 0) wit_span cl pk = Inr e \<and>
      srv_accept toy_prims wit_span (ap_crypto app) (hr_handshake_id resp) (er_kex_blob e) = Inr (er_session_key e, m) \<and>
      gcm_key_ok toy_prims (er_session_key e))"
proof -
  obtain resp app where so: "session_open toy_prims (\<lambda>_. Inl ValueError) (\<lambda>_ _. []) ''hybrid_kex_pq'' resp app"
    by (rule session_open_exists [OF toy_prims_ok, of "''hybrid_kex_pq''"]) (simp add: CONFIG_NAMES_def CONFIGS_def)
  show ?thesis
    using so session_keys_agree [OF toy_prims_ok so, of "\<lambda>_ _. 0" wit_span wit_span] by blast
qed

text \<open>
  In the same setting, every message the server signs for the session verifies at the client
  under the signature key of the handshake response.
\<close>

lemma session_signatures_verify:
  assumes "prims_ok P" "session_open P predict backend config resp app"
  shows "\<exists>cl pk sg m m'. get_client_crypto config = Inr cl \<and> b64d (hr_sig_public_key resp) = Inr pk \<and>
    srv_sign P t sp (ap_crypto app) (hr_handshake_id resp) msg = Inr (sg, m) \<and> signature_bytes m = length sg \<and>
    cl_verify P sp' cl msg sg pk = Inr (True, m')"
proof -
  obtain b where b: "srv_holds P (ap_crypto app) b" "issued_for (handshake_json resp) b"
      "get_client_crypto config = Inr (server_client (ap_crypto app))"
    using session_openE [OF assms] .
  then show ?thesis
    using srv_sign_verifies [OF assms(1) b(1), of t sp msg sp'] by (simp add: issued_for_def) blast
qed

text \<open>C6
  A resumed session of \<open>n\<close> requests, each with its own body, debug flag, randomness and clocks on both
  sides: the run gets through every request, whatever these are; the first performs the one
  key exchange, the others send no key material; every response decrypts, verifies and
  carries the model's prediction for its own body, with the debug object exactly when it was asked for; and
  after the last one the server keeps neither the session key nor the handshake.
\<close>

theorem resumed_session_run:
  assumes "prims_ok P" "session_open P predict backend config resp app"
    and "list_all2 (\<lambda>env result. answers P predict (xe_body env) result) envs results" "envs \<noteq> []"
    and "sn_session_key sn = None" "sn_requests_left sn = int (length envs)"
  shows "\<exists>rows app' sn'. exchanges P predict config (handshake_json resp) envs (app, Some sn) = Inr (rows, app', Some sn') \<and>
    length rows = length envs \<and>
    (\<forall>i < length envs. good_row (rows ! i) (prediction_of (results ! i)) (0 < i) (xe_debug (envs ! i))) \<and>
    sn_requests_left sn' = 0 \<and> cleared app' (hr_handshake_id resp)"
proof -
  obtain b where b: "srv_holds P (ap_crypto app) b" "issued_for (handshake_json resp) b"
      "get_client_crypto config = Inr (server_client (ap_crypto app))"
    using session_openE [OF assms(1,2)] .
  have "hb_handshake_id b = hr_handshake_id resp"
    using b(2) by (simp add: issued_for_def)
  then show ?thesis
    using session_run [OF assms(1) b assms(3-6)] by (simp add: session_rows_def)
qed

definition wit_exchange :: "bool \<Rightarrow> nat \<Rightarrow> exchange_env" where
  "wit_exchange debug n = \<lparr> xe_body = JObj [], xe_debug = debug, xe_client_rng = (\<lambda>_ _. of_nat n),
     xe_client_clock = \<lparr> tc_handshake = (0, 1), tc_auth = wit_span, tc_establish = wit_span, tc_post = (0, of_nat n),
       tc_aead = (0, 1), tc_verify = wit_span \<rparr>,
     xe_server_rng = (\<lambda>_ _. of_nat n), xe_server_clock = \<lparr> pc_start = 0, pc_accept = wit_span, pc_encrypt = (0, 1), pc_sign = wit_span, pc_end = 5 \<rparr> \<rparr>"

lemma resumed_session_run_witness:
  "\<exists>resp app rows app' sn'. session_open (codec_prims (JObj [])) (\<lambda>_. Inr (JObj [(''_inference_ms'', JFloat 2)])) (\<lambda>_ _. []) ''hybrid_kex'' resp app \<and>
    exchanges (codec_prims (JObj [])) (\<lambda>_. Inr (JObj [(''_inference_ms'', JFloat 2)])) ''hybrid_kex'' (handshake_json resp)
      [wit_exchange False 1, wit_exchange True 2, wit_exchange False 3]
      (app, Some \<lparr> sn_requests_left = 3, sn_handshake_json = None, sn_session_key = None \<rparr>) = Inr (rows, app', Some sn') \<and>
    list_all2 (\<lambda>row (resumed, debug). good_row row (prediction_of (JObj [])) resumed debug) rows
      [(False, False), (True, True), (True, False)] \<and>
    cleared app' (hr_handshake_id resp)"
proof -
  let ?predict = "\<lambda>_ :: json. Inr (JObj [(''_inference_ms'', JFloat 2)]) :: json res"
  let ?envs = "[wit_exchange False 1, wit_exchange True 2, wit_exchange False 3]"
  obtain resp app where so: "session_open (codec_prims (JObj [])) ?predict (\<lambda>_ _. []) ''hybrid_kex'' resp app"
    by (rule session_open_exists [OF codec_prims_ok, of "''hybrid_kex''"]) (simp add: CONFIG_NAMES_def CONFIGS_def)
  have "run_model ?predict (JObj []) = Inr (JObj [], 2)"
    by (simp add: run_model_def json_pop_def)
  then have answers: "list_all2 (\<lambda>env result. answers (codec_prims (JObj [])) ?predict (xe_body env) result) ?envs [JObj [], JObj [], JObj []]"
    by (simp add: wit_exchange_def answers_def codec_prims_json)
  have "\<exists>rows app' sn'.
      exchanges (codec_prims (JObj [])) ?predict ''hybrid_kex'' (handshake_json resp) ?envs
        (app, Some \<lparr> sn_requests_left = 3, sn_handshake_json = None, sn_session_key = None \<rparr>) = Inr (rows, app', Some sn') \<and>
      length rows = length ?envs \<and>
      (\<forall>i < length ?envs. good_row (rows ! i) (prediction_of ([JObj [], JObj [], JObj []] ! i)) (0 < i) (xe_debug (?envs ! i))) \<and>
      sn_requests_left sn' = 0 \<and> cleared app' (hr_handshake_id resp)"
    by (rule resumed_session_run [OF codec_prims_ok so answers]) simp_all
  then obtain rows app' sn' where run: "exchanges (codec_prims (JObj [])) ?predict ''hybrid_kex'' (handshake_json resp) ?envs
        (app, Some \<lparr> sn_requests_left = 3, sn_handshake_json = None, sn_session_key = None \<rparr>) = Inr (rows, app', Some sn')"
      and len: "length rows = 3" and good: "\<forall>i < 3. good_row (rows ! i) (prediction_of ([JObj [], JObj [], JObj []] ! i)) (0 < i) (xe_debug (?envs ! i))"
      and clr: "cleared app' (hr_handshake_id resp)"
    by (elim exE conjE) (simp add: numeral_3_eq_3)
  have "list_all2 (\<lambda>row (resumed, debug). good_row row (prediction_of (JObj [])) resumed debug) rows
      [(False, False), (True, True), (True, False)]"
    using len good [rule_format, of 0] good [rule_format, of 1] good [rule_format, of 2]
    by (auto simp: list_all2_conv_all_nth eval_nat_numeral less_Suc_eq wit_exchange_def)
  with so run clr show ?thesis by blast
qed

end
